(* ===== verification/Prelude.thy ===== *)
theory Prelude
  imports Complex_Main "HOL-Library.AList" "HOL-Library.Sublist"
begin

text \<open>
  Shared vocabulary of the development.

  \<^item> Python dictionaries (insertion ordered, one entry per key) as association lists with
    \<open>dict_get\<close>, \<open>dict_set\<close>, \<open>dict_pop\<close>, and the interface \<open>dict_spec\<close> their clients rely on.
  \<^item> Fallible operations as values of \<open>'e + 'a\<close>, chained by \<open>try_bind\<close>, with the loop
    combinator \<open>try_fold\<close> (a loop whose body may raise).
  \<^item> The parts of \<open>str\<close> the code uses: \<open>strip\<close>, \<open>lower\<close>, truthiness.
  \<^item> The machine interfaces \<open>machine\<close> and \<open>simulation\<close>: an invariant every operation keeps
    holds after every sequence of operations, and an abstract transition relation is followed
    along every run.
  \<^item> The interface \<open>tenant_store\<close> of a table whose rows belong to tenants.
\<close>

named_theorems guard_simps \<open>definitions of guards and predicates unfolded by the component proofs\<close>

section \<open>Python dictionaries\<close>

type_synonym ('k, 'v) dict = "('k \<times> 'v) list"

definition dict_get :: "('k, 'v) dict \<Rightarrow> 'k \<Rightarrow> 'v option" where
  "dict_get d k = map_of d k"

definition dict_set :: "('k, 'v) dict \<Rightarrow> 'k \<Rightarrow> 'v \<Rightarrow> ('k, 'v) dict" where
  "dict_set d k v = AList.update k v d"

definition dict_pop :: "('k, 'v) dict \<Rightarrow> 'k \<Rightarrow> ('k, 'v) dict" where
  "dict_pop d k = AList.delete k d"

definition dict_values :: "('k, 'v) dict \<Rightarrow> 'v list" where
  "dict_values d = map snd d"

definition dict_ok :: "('k, 'v) dict \<Rightarrow> bool" where
  "dict_ok d \<longleftrightarrow> distinct (map fst d)"

lemma dict_get_Nil [simp]: "dict_get [] k = None"
  by (simp add: dict_get_def)

lemma dict_get_Cons [simp]: "dict_get ((a, b) # d) k = (if k = a then Some b else dict_get d k)"
  by (simp add: dict_get_def)

lemma dict_set_Nil [simp]: "dict_set [] k v = [(k, v)]"
  by (simp add: dict_set_def)

lemma dict_set_Cons [simp]:
  "dict_set ((a, b) # d) k v = (if a = k then (k, v) # d else (a, b) # dict_set d k v)"
  by (simp add: dict_set_def)

lemma dict_get_set [simp]: "dict_get (dict_set d k v) j = (if j = k then Some v else dict_get d j)"
  by (simp add: dict_get_def dict_set_def update_conv')

lemma dict_get_pop [simp]: "dict_get (dict_pop d k) j = (if j = k then None else dict_get d j)"
  by (simp add: dict_get_def dict_pop_def delete_conv')

lemma dict_ok_Nil [simp]: "dict_ok []"
  by (simp add: dict_ok_def)

lemma dict_ok_set [simp]: "dict_ok d \<Longrightarrow> dict_ok (dict_set d k v)"
  by (simp add: dict_ok_def dict_set_def distinct_update)

lemma dict_ok_pop [simp]: "dict_ok d \<Longrightarrow> dict_ok (dict_pop d k)"
  by (simp add: dict_ok_def dict_pop_def distinct_delete)

lemma dict_get_None: "dict_get d k = None \<longleftrightarrow> k \<notin> fst ` set d"
  by (simp add: dict_get_def map_of_eq_None_iff)

lemma dict_set_same: "dict_get d k = Some v \<Longrightarrow> dict_set d k v = d"
  by (induction d) (auto split: if_splits)

lemma dict_set_same_image:
  "dict_get d k = Some v0 \<Longrightarrow> f (k, v) = f (k, v0) \<Longrightarrow> f ` set (dict_set d k v) = f ` set d"
proof (induction d)
  case (Cons x d)
  then show ?case by (cases x) (simp add: dict_get_def split: if_splits)
qed (simp add: dict_get_def)

lemma dict_get_in_values: "dict_get d k = Some v \<Longrightarrow> v \<in> set (dict_values d)"
  unfolding dict_get_def dict_values_def by (force dest: map_of_SomeD)

lemma dict_values_get: "dict_ok d \<Longrightarrow> v \<in> set (dict_values d) \<Longrightarrow> \<exists>k. dict_get d k = Some v"
  unfolding dict_get_def dict_values_def dict_ok_def by force

lemma dict_get_filter:
  "dict_get (filter (\<lambda>(k, v). P k) d) j = (if P j then dict_get d j else None)"
  by (induction d) auto

lemma dict_ok_filter [simp]: "dict_ok d \<Longrightarrow> dict_ok (filter P d)"
  by (simp add: dict_ok_def distinct_map_filter)

text \<open>
  What the clients of a dictionary rely on: a lookup after a store, a lookup after a removal,
  and that both keep the one-entry-per-key invariant.
\<close>

locale dict_spec =
  fixes empty :: 'd
    and get :: "'d \<Rightarrow> 'k \<Rightarrow> 'v option"
    and put :: "'d \<Rightarrow> 'k \<Rightarrow> 'v \<Rightarrow> 'd"
    and pop :: "'d \<Rightarrow> 'k \<Rightarrow> 'd"
    and ok :: "'d \<Rightarrow> bool"
  assumes get_empty: "get empty k = None"
    and get_put: "get (put d k v) j = (if j = k then Some v else get d j)"
    and get_pop: "get (pop d k) j = (if j = k then None else get d j)"
    and ok_empty: "ok empty"
    and ok_put: "ok d \<Longrightarrow> ok (put d k v)"
    and ok_pop: "ok d \<Longrightarrow> ok (pop d k)"
begin

lemma put_commute: "k \<noteq> k' \<Longrightarrow> get (put (put d k v) k' v') j = get (put (put d k' v') k v) j"
  by (simp add: get_put)

lemma pop_all: "get (fold (\<lambda>k d. pop d k) ks d) j = (if j \<in> set ks then None else get d j)"
  by (induction ks arbitrary: d) (auto simp: get_pop)

lemma ok_pop_all: "ok d \<Longrightarrow> ok (fold (\<lambda>k d. pop d k) ks d)"
  by (induction ks arbitrary: d) (auto simp: ok_pop)

end

interpretation pydict: dict_spec "[]" dict_get dict_set dict_pop dict_ok
  by unfold_locales simp_all

section \<open>Lists\<close>

lemma filter_eq_ConsD': "filter P xs = y # ys \<Longrightarrow> \<forall>x \<in> set (y # ys). x \<in> set xs \<and> P x"
  by (drule arg_cong[where f = set]) auto

lemma no_match: "find P xs = None \<Longrightarrow> (\<exists>x \<in> set xs. P x) = False"
  by (auto simp: find_None_iff)

lemma find_SomeD: "find P xs = Some x \<Longrightarrow> x \<in> set xs \<and> P x"
  by (auto simp: find_Some_iff)

lemma find_splitD: "find P xs = Some w \<Longrightarrow> \<exists>us vs. xs = us @ w # vs \<and> (\<forall>x \<in> set us. \<not> P x)"
proof (induction xs)
  case (Cons x xs)
  show ?case
  proof (cases "P x")
    case True
    then show ?thesis using Cons.prems by (intro exI[of _ "[]"] exI[of _ xs]) simp
  next
    case False
    then obtain us vs where "xs = us @ w # vs" "\<forall>x \<in> set us. \<not> P x" using Cons by auto
    with False show ?thesis by (intro exI[of _ "x # us"] exI[of _ vs]) simp
  qed
qed simp

text \<open>\<open>list(dict.fromkeys(xs))\<close>: the first occurrence of each element.\<close>

definition dedup :: "'a list \<Rightarrow> 'a list" where
  "dedup xs = rev (remdups (rev xs))"

lemma set_dedup [simp]: "set (dedup xs) = set xs"
  by (simp add: dedup_def)

lemma dedup_empty [simp]: "dedup xs = [] \<longleftrightarrow> xs = []"
  by (metis set_dedup set_empty)

section \<open>Fallible operations\<close>

definition try_bind :: "'e + 'a \<Rightarrow> ('a \<Rightarrow> 'e + 'b) \<Rightarrow> 'e + 'b" where
  "try_bind m f = (case m of Inl e \<Rightarrow> Inl e | Inr a \<Rightarrow> f a)"

lemma try_bind_Inr [simp]: "try_bind (Inr a) f = f a"
  by (simp add: try_bind_def)

lemma try_bind_Inl [simp]: "try_bind (Inl e) f = Inl e"
  by (simp add: try_bind_def)

lemma try_bind_eq_Inr: "try_bind m f = Inr b \<longleftrightarrow> (\<exists>a. m = Inr a \<and> f a = Inr b)"
  by (cases m) auto

lemma try_bind_eq_Inl: "try_bind m f = Inl e \<longleftrightarrow> m = Inl e \<or> (\<exists>a. m = Inr a \<and> f a = Inl e)"
  by (cases m) auto

text \<open>
  A \<open>for\<close> loop whose body mutates a state and may raise. The state reached when the exception
  leaves the loop is kept beside the exception: earlier iterations are not undone.
\<close>

fun try_fold :: "('x \<Rightarrow> 's \<Rightarrow> ('e + unit) \<times> 's) \<Rightarrow> 'x list \<Rightarrow> 's \<Rightarrow> ('e + unit) \<times> 's" where
  "try_fold f [] s = (Inr (), s)"
| "try_fold f (x # xs) s =
     (case f x s of (Inl e, s') \<Rightarrow> (Inl e, s') | (Inr _, s') \<Rightarrow> try_fold f xs s')"

lemma try_fold_inv:
  assumes "P s" and "\<And>x s. P s \<Longrightarrow> x \<in> set xs \<Longrightarrow> P (snd (f x s))"
  shows "P (snd (try_fold f xs s))"
  using assms
proof (induction xs arbitrary: s)
  case (Cons x xs)
  obtain r s' where fx: "f x s = (r, s')" by (cases "f x s")
  with Cons.prems have "P s'" by (metis list.set_intros(1) snd_conv)
  with Cons.IH Cons.prems have "P (snd (try_fold f xs s'))" by simp
  with \<open>P s'\<close> fx show ?case by (cases r) auto
qed simp

section \<open>Strings\<close>

text \<open>
  A \<open>char\<close> stands for a code point below 256; \<open>is_space\<close> and \<open>lower_char\<close> are
  \<open>str.isspace\<close> and \<open>str.lower\<close> on that range.
\<close>

definition is_space :: "char \<Rightarrow> bool" where
  "is_space c \<longleftrightarrow> (let n = (of_char c :: nat) in
     (9 \<le> n \<and> n \<le> 13) \<or> (28 \<le> n \<and> n \<le> 32) \<or> n = 133 \<or> n = 160)"

definition strip :: "string \<Rightarrow> string" where
  "strip s = rev (dropWhile is_space (rev (dropWhile is_space s)))"

definition lower_char :: "char \<Rightarrow> char" where
  "lower_char c = (let n = (of_char c :: nat) in
     if (65 \<le> n \<and> n \<le> 90) \<or> (192 \<le> n \<and> n \<le> 222 \<and> n \<noteq> 215) then char_of (n + 32) else c)"

definition lower :: "string \<Rightarrow> string" where
  "lower s = map lower_char s"

text \<open>
  \<open>str.upper\<close> on the code points below 256 whose upper case is a single one of them.
\<close>

definition upper_char :: "char \<Rightarrow> char" where
  "upper_char c = (let n = (of_char c :: nat) in
     if (97 \<le> n \<and> n \<le> 122) \<or> (224 \<le> n \<and> n \<le> 254 \<and> n \<noteq> 247) then char_of (n - 32) else c)"

definition upper :: "string \<Rightarrow> string" where
  "upper s = map upper_char s"

text \<open>A string in single quotes, as the messages of the code show it.\<close>

definition quoted :: "string \<Rightarrow> string" where
  "quoted s = [char_of (39 :: nat)] @ s @ [char_of (39 :: nat)]"

text \<open>Truthiness of an optional string: \<open>None\<close> and the empty string are false.\<close>

definition truthy :: "string option \<Rightarrow> bool" where
  "truthy s = (case s of None \<Rightarrow> False | Some t \<Rightarrow> t \<noteq> [])"

text \<open>\<open>a or b\<close> on optional strings.\<close>

definition or_else :: "string option \<Rightarrow> string option \<Rightarrow> string option" where
  "or_else a b = (if truthy a then a else b)"

lemma truthy_simps [simp]: "truthy None = False" "truthy (Some t) = (t \<noteq> [])"
  by (simp_all add: truthy_def)

section \<open>Machines: operations, runs and invariants\<close>

text \<open>
  A component is a state type and operations; an operation with its arguments (clock readings
  and replies of external services included) is an event. \<open>ok\<close> is what the environment
  guarantees of an event, \<open>inv\<close> the component's invariant.
\<close>

locale machine =
  fixes step :: "'e \<Rightarrow> 's \<Rightarrow> 's"
    and ok :: "'e \<Rightarrow> bool"
    and inv :: "'s \<Rightarrow> bool"
  assumes inv_step: "inv s \<Longrightarrow> ok e \<Longrightarrow> inv (step e s)"
begin

lemma inv_run: "inv s \<Longrightarrow> list_all ok es \<Longrightarrow> inv (fold step es s)"
  by (induction es arbitrary: s) (auto intro: inv_step)

end

locale simulation = machine +
  fixes abs :: "'s \<Rightarrow> 'a"
    and arel :: "'a \<Rightarrow> 'a \<Rightarrow> bool"
  assumes sim_step: "inv s \<Longrightarrow> ok e \<Longrightarrow> abs (step e s) = abs s \<or> arel (abs s) (abs (step e s))"
begin

lemma sim_run: "inv s \<Longrightarrow> list_all ok es \<Longrightarrow> arel\<^sup>*\<^sup>* (abs s) (abs (fold step es s))"
proof (induction es arbitrary: s)
  case (Cons e es)
  then have "arel\<^sup>*\<^sup>* (abs s) (abs (step e s))"
    using sim_step[of s e] by auto
  moreover have "arel\<^sup>*\<^sup>* (abs (step e s)) (abs (fold step es (step e s)))"
    using Cons by (auto intro: inv_step)
  ultimately show ?case by (auto intro: rtranclp_trans)
qed simp

end

section \<open>First matches\<close>

lemma find_append: "find P (xs @ ys) = (case find P xs of Some x \<Rightarrow> Some x | None \<Rightarrow> find P ys)"
  by (induction xs) auto

lemma find_map_same:
  assumes "\<And>r. P (f r) = P r" shows "find P (map f rows) = map_option f (find P rows)"
  by (induction rows) (simp_all add: assms)

section \<open>Tables of tenants\<close>

text \<open>
  What a service needs of a table of its tenants: a save is seen by the next read of that identifier in that
  tenant, and by no other read; the stored entities stay identified by tenant and identifier.
\<close>

locale tenant_store =
  fixes get :: "'t \<Rightarrow> string \<Rightarrow> string \<Rightarrow> 'r option"
    and save :: "'t \<Rightarrow> string \<Rightarrow> 'r \<Rightarrow> 't"
    and ident :: "'r \<Rightarrow> string"
    and stamp :: "string \<Rightarrow> 'r \<Rightarrow> 'r"
    and valid :: "'t \<Rightarrow> bool"
    and ok :: "'t \<Rightarrow> string \<Rightarrow> 'r \<Rightarrow> bool"
  assumes get_save: "valid t \<Longrightarrow> ok t tn r \<Longrightarrow>
            get (save t tn r) tn' i = (if i = ident r \<and> tn' = tn then Some (stamp tn r) else get t tn' i)"
    and valid_save: "valid t \<Longrightarrow> ok t tn r \<Longrightarrow> valid (save t tn r)"
    and ok_cong: "valid t \<Longrightarrow> valid t' \<Longrightarrow> get t tn (ident r) = Some r0 \<Longrightarrow> get t' tn (ident r) = Some r0
            \<Longrightarrow> ok t tn r \<Longrightarrow> ok t' tn r"
begin

lemma other_tenant: "valid t \<Longrightarrow> ok t tn r \<Longrightarrow> tn' \<noteq> tn \<Longrightarrow> get (save t tn r) tn' i = get t tn' i"
  by (simp add: get_save)

text \<open>A loop that rewrites stored entities one after the other.\<close>

lemma get_save_all:
  assumes "valid t" and "distinct (map ident rs)"
    and "\<forall>r \<in> set rs. get t tn (ident r) = Some r \<and> ident (f r) = ident r \<and> ok t tn (f r)"
  shows "valid (fold (\<lambda>r t. save t tn (f r)) rs t)
    \<and> get (fold (\<lambda>r t. save t tn (f r)) rs t) tn' i =
        (if tn' = tn then case find (\<lambda>r. ident r = i) rs of Some r \<Rightarrow> Some (stamp tn (f r)) | None \<Rightarrow> get t tn i
         else get t tn' i)"
  using assms
proof (induction rs arbitrary: t)
  case (Cons r rs)
  let ?t = "save t tn (f r)"
  have ok: "ok t tn (f r)" and fi: "ident (f r) = ident r" using Cons.prems by simp_all
  have "get ?t tn (ident r') = Some r' \<and> ident (f r') = ident r' \<and> ok ?t tn (f r')" if "r' \<in> set rs" for r'
  proof -
    have "ident r' \<noteq> ident r" using that Cons.prems(2) by (metis distinct.simps(2) image_eqI list.simps(9) set_map)
    then have g: "get ?t tn (ident r') = Some r'" using get_save[OF Cons.prems(1) ok] Cons.prems(3) that fi by simp
    moreover have "ok ?t tn (f r')"
      using ok_cong[of t ?t tn "f r'" r'] Cons.prems(1,3) that g valid_save[OF Cons.prems(1) ok] by simp
    ultimately show ?thesis using Cons.prems(3) that by simp
  qed
  then have "valid (fold (\<lambda>r t. save t tn (f r)) rs ?t) \<and> get (fold (\<lambda>r t. save t tn (f r)) rs ?t) tn' i =
      (if tn' = tn then case find (\<lambda>r. ident r = i) rs of Some r \<Rightarrow> Some (stamp tn (f r)) | None \<Rightarrow> get ?t tn i
       else get ?t tn' i)"
    using Cons.IH[of ?t] Cons.prems valid_save[OF Cons.prems(1) ok] by simp
  moreover have "find (\<lambda>r'. ident r' = ident r) rs = None" using Cons.prems(2) by (simp add: find_None_iff) (metis imageI)
  ultimately show ?case using get_save[OF Cons.prems(1) ok] fi by (auto split: option.split)
qed simp

end

end
