(* ===== verification/Numerics.thy ===== *)
theory Numerics
  imports Prelude "HOL-Library.Log_Nat"
begin

text \<open>
  The arithmetic of Python's \<open>decimal.Decimal\<close> and \<open>float\<close> as the code uses it.

  A number is a rational. \<open>round_sig b p\<close> rounds to \<open>p\<close> significant digits in base \<open>b\<close>, ties to
  even; the result of a \<open>Decimal\<close> operation under the default context is \<open>dec\<close> (28 decimal
  digits) of the exact result, the result of a \<open>float\<close> operation is \<open>fl\<close> (53 binary digits) of
  it. \<open>quantize\<close> and \<open>quantize_up\<close> are \<open>Decimal.quantize\<close> with \<open>ROUND_HALF_EVEN\<close> and
  \<open>ROUND_HALF_UP\<close>, including the \<open>InvalidOperation\<close> raised when the coefficient of the result
  would exceed the precision. Exponent range limits (overflow to infinity, subnormal numbers),
  NaN and signed zero are not modelled.

  The interface \<open>rounding\<close> collects what the components rely on: rounding is monotone and keeps
  zero and every number that is already representable. It is interpreted for both arithmetics.
\<close>

section \<open>Rounding to an integer\<close>

definition round_half_even :: "rat \<Rightarrow> int" where
  "round_half_even x =
     (let f = \<lfloor>x\<rfloor>; r = x - of_int f in
      if r < 1 / 2 then f else if 1 / 2 < r then f + 1 else if even f then f else f + 1)"

definition round_half_up :: "rat \<Rightarrow> int" where
  "round_half_up x = (if 0 \<le> x then \<lfloor>x + 1 / 2\<rfloor> else - \<lfloor>- x + 1 / 2\<rfloor>)"

text \<open>\<open>int(x)\<close>: truncation towards zero.\<close>

definition trunc :: "rat \<Rightarrow> int" where
  "trunc x = (if 0 \<le> x then \<lfloor>x\<rfloor> else - \<lfloor>- x\<rfloor>)"

lemma round_half_even_of_int [simp]: "round_half_even (of_int n) = n"
  by (simp add: round_half_even_def)

lemma round_half_even_numeral [simp]:
  "round_half_even 0 = 0" "round_half_even 1 = 1" "round_half_even (numeral k) = numeral k"
  using round_half_even_of_int[of 0] round_half_even_of_int[of 1]
    round_half_even_of_int[of "numeral k"] by simp_all

lemma round_half_even_error: "\<bar>x - of_int (round_half_even x)\<bar> \<le> 1 / 2"
proof -
  have "of_int \<lfloor>x\<rfloor> \<le> x" "x < of_int \<lfloor>x\<rfloor> + 1" by linarith+
  then show ?thesis by (auto simp: round_half_even_def Let_def)
qed

lemma round_half_even_mono:
  assumes "x \<le> y" shows "round_half_even x \<le> round_half_even y"
proof (cases "\<lfloor>x\<rfloor> = \<lfloor>y\<rfloor>")
  case True
  then show ?thesis using assms by (auto simp: round_half_even_def Let_def)
next
  case False
  with floor_mono[OF assms] have "\<lfloor>x\<rfloor> + 1 \<le> \<lfloor>y\<rfloor>" by linarith
  moreover have "round_half_even x \<le> \<lfloor>x\<rfloor> + 1" "\<lfloor>y\<rfloor> \<le> round_half_even y"
    by (auto simp: round_half_even_def Let_def)
  ultimately show ?thesis by linarith
qed

lemma round_half_even_uminus: "round_half_even (- x) = - round_half_even x"
proof (cases "x = of_int \<lfloor>x\<rfloor>")
  case True
  then show ?thesis
    by (metis of_int_minus round_half_even_of_int)
next
  case False
  then have "\<lfloor>- x\<rfloor> = - \<lfloor>x\<rfloor> - 1"
    by (simp add: floor_minus ceiling_altdef)
  then show ?thesis by (auto simp: round_half_even_def Let_def)
qed

lemma trunc_of_int [simp]: "trunc (of_int n) = n"
  by (simp add: trunc_def)

lemma trunc_mono:
  assumes "x \<le> y" shows "trunc x \<le> trunc y"
proof -
  consider "0 \<le> x" | "x < 0" "0 \<le> y" | "y < 0" by linarith
  then show ?thesis
  proof cases
    case 2
    then have "- \<lfloor>- x\<rfloor> \<le> 0" "0 \<le> \<lfloor>y\<rfloor>" by simp_all
    then have "- \<lfloor>- x\<rfloor> \<le> \<lfloor>y\<rfloor>" by (rule order_trans)
    with 2 show ?thesis by (simp add: trunc_def)
  qed (use assms in \<open>simp_all add: trunc_def floor_mono\<close>)
qed

lemma trunc_nonneg: "0 \<le> x \<Longrightarrow> 0 \<le> trunc x"
  by (simp add: trunc_def)

section \<open>Significant digits\<close>

text \<open>The exponent of the leading digit: \<open>b ^ lead b x \<le> x < b ^ (lead b x + 1)\<close> for positive \<open>x\<close>.\<close>

definition lead :: "nat \<Rightarrow> rat \<Rightarrow> int" where
  "lead b x = (if 1 \<le> x then int (floorlog b (nat \<lfloor>x\<rfloor>)) - 1
               else - int (floorlog b (nat (\<lceil>1 / x\<rceil> - 1))))"

definition round_sig :: "nat \<Rightarrow> nat \<Rightarrow> rat \<Rightarrow> rat" where
  "round_sig b p x =
     (if x = 0 then 0
      else let q = power_int (of_nat b) (lead b \<bar>x\<bar> - int p + 1)
           in of_int (round_half_even (x / q)) * q)"

lemma of_nat_power_le: "b ^ k \<le> n \<Longrightarrow> (of_nat b :: rat) ^ k \<le> of_nat n"
  by (simp flip: of_nat_power)

lemma of_nat_power_ge: "n + 1 \<le> b ^ k \<Longrightarrow> (of_nat n :: rat) + 1 \<le> of_nat b ^ k"
  using of_nat_mono[of "n + 1" "b ^ k", where 'a = rat] by simp

lemma lead_ge_1:
  assumes b: "1 < b" and x: "1 \<le> x"
  shows "power_int (of_nat b) (lead b x) \<le> x" "x < power_int (of_nat b) (lead b x + 1)"
proof -
  let ?n = "nat \<lfloor>x\<rfloor>"
  have n: "0 < ?n" "of_nat ?n \<le> x" "x < of_nat ?n + 1" using x by linarith+
  have fl: "0 < floorlog b ?n" using n(1) b floorlog_eq_zero_iff[of b ?n] by linarith
  have "b ^ (floorlog b ?n - 1) \<le> ?n" "?n + 1 \<le> b ^ floorlog b ?n"
    using floorlog_bounds[OF n(1) b] by auto
  then have "(of_nat b :: rat) ^ (floorlog b ?n - 1) \<le> of_nat ?n"
    and "(of_nat ?n :: rat) + 1 \<le> of_nat b ^ floorlog b ?n"
    by (blast intro: of_nat_power_le of_nat_power_ge)+
  moreover have "lead b x = int (floorlog b ?n - 1)" and "lead b x + 1 = int (floorlog b ?n)"
    using x fl by (auto simp: lead_def)
  then have "power_int (of_nat b :: rat) (lead b x) = of_nat b ^ (floorlog b ?n - 1)"
    and "power_int (of_nat b :: rat) (lead b x + 1) = of_nat b ^ floorlog b ?n"
    by (metis power_int_of_nat)+
  ultimately show "power_int (of_nat b) (lead b x) \<le> x" "x < power_int (of_nat b) (lead b x + 1)"
    using n(2,3) by linarith+
qed

lemma lead_lt_1:
  assumes b: "1 < b" and x: "0 < x" "x < 1"
  shows "power_int (of_nat b) (lead b x) \<le> x" "x < power_int (of_nat b) (lead b x + 1)"
proof -
  let ?n = "nat (\<lceil>1 / x\<rceil> - 1)"
  have inv: "1 < 1 / x" using x by simp
  then have n: "0 < ?n" "of_nat ?n < 1 / x" "1 / x \<le> of_nat ?n + 1"
    by (simp_all, linarith+)
  define k where "k = floorlog b ?n"
  have k: "0 < k" using n(1) b floorlog_eq_zero_iff[of b ?n] unfolding k_def by linarith
  have "b ^ (k - 1) \<le> ?n" "?n + 1 \<le> b ^ k"
    using floorlog_bounds[OF n(1) b] by (auto simp: k_def)
  then have lo: "(of_nat b :: rat) ^ (k - 1) \<le> of_nat ?n"
    and hi: "(of_nat ?n :: rat) + 1 \<le> of_nat b ^ k"
    by (blast intro: of_nat_power_le of_nat_power_ge)+
  have lead: "lead b x = - int k" "lead b x + 1 = - int (k - 1)"
    using x k by (auto simp: lead_def k_def)
  have pos: "(0 :: rat) < of_nat b ^ k" "(0 :: rat) < of_nat b ^ (k - 1)" using b by simp_all
  have "1 / x \<le> of_nat b ^ k" and "of_nat b ^ (k - 1) < 1 / x"
    using n lo hi by linarith+
  then have "inverse (of_nat b ^ k) \<le> x" "x < inverse (of_nat b ^ (k - 1))"
    using x pos by (simp_all add: field_simps)
  moreover have "power_int (of_nat b :: rat) (lead b x) = inverse (of_nat b ^ k)"
    and "power_int (of_nat b :: rat) (lead b x + 1) = inverse (of_nat b ^ (k - 1))"
    by (metis lead(1) power_int_minus power_int_of_nat) (metis lead(2) power_int_minus power_int_of_nat)
  ultimately show "power_int (of_nat b) (lead b x) \<le> x" "x < power_int (of_nat b) (lead b x + 1)"
    by simp_all
qed

lemma lead_bounds:
  assumes "1 < b" and "0 < x"
  shows "power_int (of_nat b) (lead b x) \<le> x" "x < power_int (of_nat b) (lead b x + 1)"
  using lead_ge_1[OF assms(1)] lead_lt_1[OF assms] by (metis linorder_not_le)+

lemma power_int_base_less:
  assumes "1 < (b :: nat)" and "power_int (of_nat b :: rat) m < power_int (of_nat b) n"
  shows "m < n"
  using assms by (metis linorder_not_less of_nat_1 of_nat_less_iff order_less_imp_le power_int_increasing)

lemma lead_unique:
  assumes b: "1 < b" and "power_int (of_nat b) e \<le> x" "x < power_int (of_nat b) (e + 1)"
  shows "lead b x = e"
proof -
  have "(0 :: rat) < power_int (of_nat b) e" using b by simp
  with assms have x: "0 < x" by linarith
  note lb = lead_bounds[OF b x]
  have "power_int (of_nat b :: rat) e < power_int (of_nat b) (lead b x + 1)"
    "power_int (of_nat b :: rat) (lead b x) < power_int (of_nat b) (e + 1)"
    using assms lb by linarith+
  from this[THEN power_int_base_less[OF b]] show ?thesis by linarith
qed

lemma lead_mono:
  assumes b: "1 < b" and x: "0 < x" "x \<le> y" shows "lead b x \<le> lead b y"
proof -
  have "power_int (of_nat b :: rat) (lead b x) < power_int (of_nat b) (lead b y + 1)"
    using lead_bounds[OF b x(1)] lead_bounds[OF b, of y] x by linarith
  from power_int_base_less[OF b this] show ?thesis by linarith
qed

lemma round_sig_0 [simp]: "round_sig b p 0 = 0"
  by (simp add: round_sig_def)

lemma round_sig_uminus: "round_sig b p (- x) = - round_sig b p x"
  by (simp add: round_sig_def Let_def round_half_even_uminus)

text \<open>The grid step at a positive number, and where rounding takes that number.\<close>

lemma round_sig_pos_bounds:
  assumes b: "1 < b" and p: "1 \<le> p" and x: "0 < x"
  shows "power_int (of_nat b) (lead b x) \<le> round_sig b p x"
    and "round_sig b p x \<le> power_int (of_nat b) (lead b x + 1)"
proof -
  define q :: rat where "q = power_int (of_nat b) (lead b x - int p + 1)"
  have b0: "(of_nat b :: rat) \<noteq> 0" "q > 0" using b by (auto simp: q_def)
  have rs: "round_sig b p x = of_int (round_half_even (x / q)) * q"
    using x by (simp add: round_sig_def q_def Let_def)
  have lo: "power_int (of_nat b) (lead b x) = of_int (int (b ^ (p - 1))) * q"
    using p b0 by (simp add: q_def of_nat_diff flip: power_int_add power_int_of_nat)
  have hi: "power_int (of_nat b) (lead b x + 1) = of_int (int (b ^ p)) * q"
    using b0 by (simp add: q_def flip: power_int_add power_int_of_nat)
  have "of_int (int (b ^ (p - 1))) \<le> x / q" "x / q \<le> of_int (int (b ^ p))"
    using lead_bounds[OF b x] b0 unfolding lo hi by (simp_all add: field_simps)
  from this[THEN round_half_even_mono]
  have r: "int (b ^ (p - 1)) \<le> round_half_even (x / q)" "round_half_even (x / q) \<le> int (b ^ p)"
    by (simp_all only: round_half_even_of_int)
  show "power_int (of_nat b) (lead b x) \<le> round_sig b p x"
    unfolding rs lo using r(1) b0(2) by (intro mult_right_mono) (simp_all only: of_int_le_iff less_imp_le)
  show "round_sig b p x \<le> power_int (of_nat b) (lead b x + 1)"
    unfolding rs hi using r(2) b0(2) by (intro mult_right_mono) (simp_all only: of_int_le_iff less_imp_le)
qed

lemma round_sig_pos: "1 < b \<Longrightarrow> 1 \<le> p \<Longrightarrow> 0 < x \<Longrightarrow> 0 < round_sig b p x"
  using round_sig_pos_bounds(1)[of b p x] by (metis of_nat_0_less_iff order.strict_trans2 zero_less_power_int order_less_trans zero_less_one)

lemma round_sig_mono_pos:
  assumes b: "1 < b" and p: "1 \<le> p" and x: "0 < x" "x \<le> y"
  shows "round_sig b p x \<le> round_sig b p y"
proof (cases "lead b x = lead b y")
  case True
  have "(0 :: rat) < power_int (of_nat b) (lead b y - int p + 1)" using b by simp
  then show ?thesis using x True
    by (auto simp: round_sig_def Let_def intro!: mult_right_mono round_half_even_mono divide_right_mono)
next
  case False
  with lead_mono[OF b x] have "lead b x + 1 \<le> lead b y" by linarith
  then have "power_int (of_nat b :: rat) (lead b x + 1) \<le> power_int (of_nat b) (lead b y)"
    using b by (intro power_int_increasing) auto
  with round_sig_pos_bounds[OF b p x(1)] round_sig_pos_bounds[OF b p, of y] x
  show ?thesis by linarith
qed

lemma round_sig_mono:
  assumes b: "1 < b" and p: "1 \<le> p" and xy: "x \<le> y"
  shows "round_sig b p x \<le> round_sig b p y"
proof (cases "0 < x \<or> y < 0")
  case True
  then show ?thesis
    using round_sig_mono_pos[OF b p, of x y] round_sig_mono_pos[OF b p, of "- y" "- x"] xy
    by (auto simp: round_sig_uminus)
next
  case False
  then have "round_sig b p x \<le> 0" "0 \<le> round_sig b p y"
    using round_sig_pos[OF b p, of "- x"] round_sig_pos[OF b p, of y] xy
    by (cases "x = 0"; cases "y = 0"; force simp: round_sig_uminus)+
  then show ?thesis by linarith
qed

text \<open>A number with at most \<open>p\<close> significant digits is kept.\<close>

lemma round_sig_exact:
  assumes b: "1 < b" and x: "x = of_int m * power_int (of_nat b) e" and m: "\<bar>m\<bar> < int b ^ p"
  shows "round_sig b p x = x"
proof (cases "x = 0")
  case False
  let ?B = "of_nat b :: rat"
  let ?d = "lead b \<bar>x\<bar> - int p + 1"
  have B: "?B \<noteq> 0" "\<And>k. 0 < power_int ?B k" using b by auto
  have "\<bar>x\<bar> = of_int \<bar>m\<bar> * power_int ?B e"
    using x B(2)[of e] by (simp add: abs_mult)
  also have "\<dots> < of_int (int b ^ p) * power_int ?B e"
    using m B(2)[of e] by (intro mult_strict_right_mono) (simp_all only: of_int_less_iff)
  also have "\<dots> = power_int ?B (int p + e)"
    using B(1) by (simp add: power_int_add)
  finally have "power_int ?B (lead b \<bar>x\<bar>) < power_int ?B (int p + e)"
    using lead_bounds(1)[OF b, of "\<bar>x\<bar>"] False by linarith
  from power_int_base_less[OF b this] have d: "e = ?d + int (nat (e - ?d))" by linarith
  have "x / power_int ?B ?d = of_int m * power_int ?B (int (nat (e - ?d)))"
    using B(1) by (subst x, subst d, subst power_int_add) auto
  also have "\<dots> = of_int (m * int b ^ nat (e - ?d))"
    by (simp only: power_int_of_nat of_int_mult of_int_power of_int_of_nat_eq)
  finally have "of_int (round_half_even (x / power_int ?B ?d)) = x / power_int ?B ?d"
    by (metis round_half_even_of_int)
  then show ?thesis using False b by (simp add: round_sig_def Let_def)
qed simp

lemma round_sig_idem:
  assumes b: "1 < b" and p: "1 \<le> p"
  shows "round_sig b p (round_sig b p x) = round_sig b p x"
proof -
  have pos: "round_sig b p (round_sig b p y) = round_sig b p y" if y: "0 < y" for y
  proof -
    let ?q = "lead b y - int p + 1"
    let ?m = "round_half_even (y / power_int (of_nat b) ?q)"
    have rs: "round_sig b p y = of_int ?m * power_int (of_nat b) ?q"
      using y by (simp add: round_sig_def Let_def)
    have B: "(of_nat b :: rat) \<noteq> 0" "(0 :: rat) < power_int (of_nat b) ?q" using b by auto
    have top: "power_int (of_nat b :: rat) (lead b y + 1) = of_int (int b ^ p) * power_int (of_nat b) ?q"
      using B by (simp flip: power_int_add power_int_of_nat)
    have "of_int ?m * power_int (of_nat b :: rat) ?q \<le> of_int (int b ^ p) * power_int (of_nat b) ?q"
      and "0 < of_int ?m * power_int (of_nat b :: rat) ?q"
      using round_sig_pos_bounds(2)[OF b p y] round_sig_pos[OF b p y] by (simp_all only: rs top)
    then have m: "0 < ?m" "?m \<le> int b ^ p"
      using B(2) by (simp_all only: mult_le_cancel_right_pos of_int_le_iff zero_less_mult_iff, auto)
    show ?thesis
    proof (cases "?m = int b ^ p")
      case True
      then have "round_sig b p y = of_int 1 * power_int (of_nat b) (lead b y + 1)"
        by (simp only: rs top of_int_1 mult_1)
      then show ?thesis by (rule round_sig_exact[OF b]) (use b p in simp)
    next
      case False
      with m show ?thesis by (intro round_sig_exact[OF b rs]) simp
    qed
  qed
  show ?thesis
    using pos[of x] pos[of "- x"] by (cases x "0 :: rat" rule: linorder_cases) (simp_all add: round_sig_uminus)
qed

section \<open>The two arithmetics\<close>

text \<open>What a client of a rounded arithmetic relies on.\<close>

locale rounding =
  fixes rnd :: "rat \<Rightarrow> rat"
  assumes rnd_0: "rnd 0 = 0"
    and rnd_mono: "x \<le> y \<Longrightarrow> rnd x \<le> rnd y"
    and rnd_idem: "rnd (rnd x) = rnd x"
    and rnd_uminus: "rnd (- x) = - rnd x"
begin

lemma rnd_nonneg: "0 \<le> x \<Longrightarrow> 0 \<le> rnd x"
  using rnd_mono[of 0 x] by (simp add: rnd_0)

lemma rnd_nonpos: "x \<le> 0 \<Longrightarrow> rnd x \<le> 0"
  using rnd_mono[of x 0] by (simp add: rnd_0)

lemma rnd_le_fixed: "rnd y = y \<Longrightarrow> x \<le> y \<Longrightarrow> rnd x \<le> y"
  using rnd_mono[of x y] by simp

lemma rnd_ge_fixed: "rnd y = y \<Longrightarrow> y \<le> x \<Longrightarrow> y \<le> rnd x"
  using rnd_mono[of y x] by simp

lemma rnd_diff_nonneg: "x \<le> y \<Longrightarrow> 0 \<le> rnd (y - x)"
  by (simp add: rnd_nonneg)

lemma rnd_between: "rnd a = a \<Longrightarrow> rnd c = c \<Longrightarrow> a \<le> x \<Longrightarrow> x \<le> c \<Longrightarrow> a \<le> rnd x \<and> rnd x \<le> c"
  by (simp add: rnd_le_fixed rnd_ge_fixed)

end

definition fl :: "rat \<Rightarrow> rat" where
  "fl x = round_sig 2 53 x"

definition dec :: "rat \<Rightarrow> rat" where
  "dec x = round_sig 10 28 x"

interpretation float: rounding fl
  by unfold_locales (simp_all add: fl_def round_sig_mono round_sig_idem round_sig_uminus)

interpretation decimal: rounding dec
  by unfold_locales (simp_all add: dec_def round_sig_mono round_sig_idem round_sig_uminus)

lemma fl_exact: "\<bar>m\<bar> < 2 ^ 53 \<Longrightarrow> fl (of_int m / 2 ^ k) = of_int m / 2 ^ k"
  unfolding fl_def
  by (rule round_sig_exact[of _ _ m "- int k"])
     (simp_all add: power_int_minus power_int_of_nat field_simps)

lemma fl_of_int: "\<bar>m\<bar> < 2 ^ 53 \<Longrightarrow> fl (of_int m) = of_int m"
  using fl_exact[of m 0] by simp

lemma dec_exact: "\<bar>m\<bar> < 10 ^ 28 \<Longrightarrow> dec (of_int m / 10 ^ k) = of_int m / 10 ^ k"
  unfolding dec_def
  by (rule round_sig_exact[of _ _ m "- int k"])
     (simp_all add: power_int_minus power_int_of_nat field_simps)

lemma dec_of_int: "\<bar>m\<bar> < 10 ^ 28 \<Longrightarrow> dec (of_int m) = of_int m"
  using dec_exact[of m 0] by simp

text \<open>Operations: exact result, then rounding.\<close>

abbreviation fadd :: "rat \<Rightarrow> rat \<Rightarrow> rat" where "fadd x y \<equiv> fl (x + y)"
abbreviation fsub :: "rat \<Rightarrow> rat \<Rightarrow> rat" where "fsub x y \<equiv> fl (x - y)"
abbreviation fmul :: "rat \<Rightarrow> rat \<Rightarrow> rat" where "fmul x y \<equiv> fl (x * y)"
abbreviation fdiv :: "rat \<Rightarrow> rat \<Rightarrow> rat" where "fdiv x y \<equiv> fl (x / y)"

abbreviation dadd :: "rat \<Rightarrow> rat \<Rightarrow> rat" where "dadd x y \<equiv> dec (x + y)"
abbreviation dsub :: "rat \<Rightarrow> rat \<Rightarrow> rat" where "dsub x y \<equiv> dec (x - y)"
abbreviation dmul :: "rat \<Rightarrow> rat \<Rightarrow> rat" where "dmul x y \<equiv> dec (x * y)"
abbreviation ddiv :: "rat \<Rightarrow> rat \<Rightarrow> rat" where "ddiv x y \<equiv> dec (x / y)"

text \<open>\<open>round(x, n)\<close> on a float: the nearest float to the value rounded half-even to \<open>n\<close> places.\<close>

definition py_round :: "nat \<Rightarrow> rat \<Rightarrow> rat" where
  "py_round n x = fl (of_int (round_half_even (x * 10 ^ n)) / 10 ^ n)"

datatype arith_error = InvalidOperation | ValueError string

definition quantize_with :: "(rat \<Rightarrow> int) \<Rightarrow> nat \<Rightarrow> rat \<Rightarrow> arith_error + rat" where
  "quantize_with r n x =
     (let m = r (x * 10 ^ n) in if \<bar>m\<bar> < 10 ^ 28 then Inr (of_int m / 10 ^ n) else Inl InvalidOperation)"

abbreviation quantize :: "nat \<Rightarrow> rat \<Rightarrow> arith_error + rat" where
  "quantize \<equiv> quantize_with round_half_even"

abbreviation quantize_up :: "nat \<Rightarrow> rat \<Rightarrow> arith_error + rat" where
  "quantize_up \<equiv> quantize_with round_half_up"

text \<open>A number with \<open>n\<close> decimal places whose coefficient fits the precision.\<close>

definition fixed_point :: "nat \<Rightarrow> rat \<Rightarrow> bool" where
  "fixed_point n x \<longleftrightarrow> (\<exists>m :: int. \<bar>m\<bar> < 10 ^ 28 \<and> x = of_int m / 10 ^ n)"

lemma quantize_with_fixed_point: "quantize_with r n x = Inr y \<Longrightarrow> fixed_point n y"
  by (auto simp: quantize_with_def fixed_point_def Let_def split: if_splits)

lemma dec_fixed_point: "fixed_point n x \<Longrightarrow> dec x = x"
  by (auto simp: fixed_point_def dec_exact)

lemma quantize_fixed_point: "fixed_point n x \<Longrightarrow> quantize n x = Inr x"
  by (auto simp: fixed_point_def quantize_with_def)

lemma quantize_idem: "quantize n x = Inr y \<Longrightarrow> quantize n y = Inr y"
  by (blast intro: quantize_fixed_point quantize_with_fixed_point)

lemma quantize_error:
  assumes "quantize n x = Inr y" shows "\<bar>x - y\<bar> \<le> 1 / (2 * 10 ^ n)"
proof -
  have y: "y = of_int (round_half_even (x * 10 ^ n)) / 10 ^ n"
    using assms by (auto simp: quantize_with_def Let_def split: if_splits)
  have "\<bar>x - y\<bar> * 10 ^ n = \<bar>x * 10 ^ n - of_int (round_half_even (x * 10 ^ n))\<bar>"
    by (simp add: y abs_mult_pos left_diff_distrib)
  also have "\<dots> \<le> 1 / 2" by (rule round_half_even_error)
  finally show ?thesis by (simp add: field_simps)
qed

lemma quantize_total:
  assumes "\<bar>x\<bar> * 10 ^ n + 1 < 10 ^ 28" shows "\<exists>y. quantize n x = Inr y"
proof -
  have "\<bar>x * 10 ^ n - of_int (round_half_even (x * 10 ^ n))\<bar> \<le> 1 / 2"
    by (rule round_half_even_error)
  moreover have "\<bar>x * 10 ^ n\<bar> + 1 < 10 ^ 28" using assms by (simp add: abs_mult)
  ultimately have "\<bar>of_int (round_half_even (x * 10 ^ n)) :: rat\<bar> < of_int (10 ^ 28)" by (simp, linarith)
  then have "\<bar>round_half_even (x * 10 ^ n)\<bar> < 10 ^ 28"
    by (metis of_int_abs of_int_less_iff)
  then show ?thesis by (simp add: quantize_with_def)
qed

end
