(* ===== verification/Circuit_Breaker.thy ===== *)
theory Circuit_Breaker
  imports Numerics
begin

text \<open>
  \<open>connectors/contract/circuit_breaker.py\<close>: the per-capability circuit breaker and its registry.

  Every method runs under the breaker's lock, so an execution is a sequence of method calls; a
  clock reading is an argument of the call that makes it. Clock values are floats: a difference
  is rounded by \<open>fl\<close>.
\<close>

section \<open>State\<close>

datatype cb_state = CLOSED | OPEN | HALF_OPEN

record breaker =
  cb_connector_id :: string
  cb_capability :: string
  cb_failure_threshold :: int
  cb_recovery_timeout_seconds :: rat
  cb_success_threshold :: int
  cb_st :: cb_state
  cb_consecutive_failures :: int
  cb_consecutive_successes :: int
  cb_last_state_change :: rat
  cb_last_failure_time :: "rat option"

datatype cb_error = CircuitBreakerOpenException string string rat

definition default_failure_threshold :: int where "default_failure_threshold = 5"
definition default_recovery_timeout_seconds :: rat where "default_recovery_timeout_seconds = 30"
definition default_success_threshold :: int where "default_success_threshold = 2"

definition new_breaker :: "string \<Rightarrow> string \<Rightarrow> int \<Rightarrow> rat \<Rightarrow> int \<Rightarrow> rat \<Rightarrow> breaker" where
  "new_breaker cid cap ft rt st now =
     \<lparr> cb_connector_id = cid, cb_capability = cap, cb_failure_threshold = ft,
       cb_recovery_timeout_seconds = rt, cb_success_threshold = st, cb_st = CLOSED,
       cb_consecutive_failures = 0, cb_consecutive_successes = 0,
       cb_last_state_change = now, cb_last_failure_time = None \<rparr>"

section \<open>Operations\<close>

text \<open>The property \<open>state\<close>: \<open>t1\<close> and \<open>t2\<close> are its two clock readings.\<close>

definition cb_state_poll :: "rat \<Rightarrow> rat \<Rightarrow> breaker \<Rightarrow> breaker" where
  "cb_state_poll t1 t2 b =
     (if cb_st b = OPEN \<and> fsub t1 (cb_last_state_change b) \<ge> cb_recovery_timeout_seconds b
      then b\<lparr>cb_st := HALF_OPEN, cb_last_state_change := t2, cb_consecutive_successes := 0\<rparr>
      else b)"

definition cb_check_permission :: "rat \<Rightarrow> rat \<Rightarrow> rat \<Rightarrow> breaker \<Rightarrow> (cb_error + unit) \<times> breaker" where
  "cb_check_permission t1 t2 t3 b =
     (let b' = cb_state_poll t1 t2 b in
      if cb_st b' = OPEN
      then let elapsed = fsub t3 (cb_last_state_change b');
               remaining = max 0 (fsub (cb_recovery_timeout_seconds b') elapsed)
           in (Inl (CircuitBreakerOpenException (cb_connector_id b') (cb_capability b') remaining), b')
      else (Inr (), b'))"

definition cb_record_success :: "rat \<Rightarrow> breaker \<Rightarrow> breaker" where
  "cb_record_success t b =
     (case cb_st b of
        HALF_OPEN \<Rightarrow>
          (let n = cb_consecutive_successes b + 1 in
           if n \<ge> cb_success_threshold b
           then b\<lparr>cb_st := CLOSED, cb_consecutive_failures := 0, cb_consecutive_successes := 0,
                  cb_last_state_change := t\<rparr>
           else b\<lparr>cb_consecutive_successes := n\<rparr>)
      | CLOSED \<Rightarrow> b\<lparr>cb_consecutive_failures := 0\<rparr>
      | OPEN \<Rightarrow> b)"

definition cb_record_failure :: "rat \<Rightarrow> breaker \<Rightarrow> breaker" where
  "cb_record_failure t b =
     (let n = cb_consecutive_failures b + 1;
          b1 = b\<lparr>cb_last_failure_time := Some t, cb_consecutive_failures := n\<rparr>
      in case cb_st b of
           HALF_OPEN \<Rightarrow>
             b1\<lparr>cb_st := OPEN, cb_last_state_change := t, cb_consecutive_successes := 0\<rparr>
         | CLOSED \<Rightarrow>
             (if n \<ge> cb_failure_threshold b then b1\<lparr>cb_st := OPEN, cb_last_state_change := t\<rparr> else b1)
         | OPEN \<Rightarrow> b1)"

definition cb_reset :: "rat \<Rightarrow> breaker \<Rightarrow> breaker" where
  "cb_reset t b =
     b\<lparr>cb_st := CLOSED, cb_consecutive_failures := 0, cb_consecutive_successes := 0,
       cb_last_state_change := t\<rparr>"

section \<open>Registry\<close>

type_synonym registry = "(string \<times> string, breaker) dict"

definition get_breaker :: "rat \<Rightarrow> string \<Rightarrow> string \<Rightarrow> registry \<Rightarrow> breaker \<times> registry" where
  "get_breaker now cid cap r =
     (case dict_get r (cid, cap) of
        Some b \<Rightarrow> (b, r)
      | None \<Rightarrow> (let b = new_breaker cid cap default_failure_threshold
                         default_recovery_timeout_seconds default_success_threshold now
                in (b, dict_set r (cid, cap) b)))"

definition reset_all :: "rat \<Rightarrow> string option \<Rightarrow> registry \<Rightarrow> registry" where
  "reset_all now cid r =
     (case cid of
        Some c \<Rightarrow> if c \<noteq> [] then map (\<lambda>((c', k), b). ((c', k), if c' = c then cb_reset now b else b)) r else []
      | None \<Rightarrow> [])"

text \<open>
  A call on the breaker of a capability: \<open>get_breaker\<close> hands out the stored object, so what the
  call does to it is what the registry holds afterwards.
\<close>

definition with_breaker :: "rat \<Rightarrow> string \<Rightarrow> string \<Rightarrow> (breaker \<Rightarrow> breaker) \<Rightarrow> registry \<Rightarrow> registry" where
  "with_breaker now cid cap f r =
     (let (b, r') = get_breaker now cid cap r in dict_set r' (cid, cap) (f b))"

lemmas cb_op_defs = cb_state_poll_def cb_check_permission_def cb_record_success_def
  cb_record_failure_def cb_reset_def

section \<open>The breaker as a machine\<close>

datatype cb_event = Poll rat rat | Check rat rat rat | Success rat | Failure rat | Reset rat

fun cb_step :: "cb_event \<Rightarrow> breaker \<Rightarrow> breaker" where
  "cb_step (Poll t1 t2) b = cb_state_poll t1 t2 b"
| "cb_step (Check t1 t2 t3) b = snd (cb_check_permission t1 t2 t3 b)"
| "cb_step (Success t) b = cb_record_success t b"
| "cb_step (Failure t) b = cb_record_failure t b"
| "cb_step (Reset t) b = cb_reset t b"

text \<open>The counters stay below the thresholds that would have caused a transition.\<close>

definition cb_inv :: "breaker \<Rightarrow> bool" where
  "cb_inv b \<longleftrightarrow> 1 \<le> cb_failure_threshold b \<and> 1 \<le> cb_success_threshold b
     \<and> 0 \<le> cb_consecutive_failures b \<and> 0 \<le> cb_consecutive_successes b
     \<and> (cb_st b = CLOSED \<longrightarrow> cb_consecutive_failures b < cb_failure_threshold b)
     \<and> (cb_st b \<noteq> CLOSED \<longrightarrow> 0 < cb_consecutive_failures b)
     \<and> (cb_st b = HALF_OPEN \<longrightarrow> cb_consecutive_successes b < cb_success_threshold b)
     \<and> (cb_st b \<noteq> HALF_OPEN \<longrightarrow> cb_consecutive_successes b = 0)"

inductive cb_moves :: "cb_state \<Rightarrow> cb_state \<Rightarrow> bool" where
  trip: "cb_moves CLOSED OPEN"
| probe: "cb_moves OPEN HALF_OPEN"
| recover: "cb_moves HALF_OPEN CLOSED"
| retrip: "cb_moves HALF_OPEN OPEN"

inductive_simps cb_moves_from_open: "cb_moves OPEN s"

definition no_reset :: "cb_event \<Rightarrow> bool" where
  "no_reset e \<longleftrightarrow> (case e of Reset _ \<Rightarrow> False | _ \<Rightarrow> True)"

lemma cb_step_inv: "cb_inv b \<Longrightarrow> cb_inv (cb_step e b)"
  by (cases e) (auto simp: cb_inv_def cb_op_defs Let_def split: cb_state.splits)

lemma cb_step_moves:
  "no_reset e \<Longrightarrow> cb_st (cb_step e b) = cb_st b \<or> cb_moves (cb_st b) (cb_st (cb_step e b))"
  by (cases e) (auto simp: no_reset_def cb_op_defs Let_def cb_moves.simps split: cb_state.splits)

lemma cb_step_thresholds [simp]:
  "cb_failure_threshold (cb_step e b) = cb_failure_threshold b"
  "cb_success_threshold (cb_step e b) = cb_success_threshold b"
  "cb_recovery_timeout_seconds (cb_step e b) = cb_recovery_timeout_seconds b"
  by (cases e; auto simp: cb_op_defs Let_def split: cb_state.splits)+

interpretation cb: simulation cb_step no_reset cb_inv cb_st cb_moves
  by unfold_locales (simp_all add: cb_step_inv cb_step_moves)

interpretation cb_any: machine cb_step "\<lambda>_. True" cb_inv
  by unfold_locales (simp add: cb_step_inv)

lemma new_breaker_inv: "1 \<le> ft \<Longrightarrow> 1 \<le> st \<Longrightarrow> cb_inv (new_breaker cid cap ft rt st now)"
  by (simp add: cb_inv_def new_breaker_def)

text \<open>
  From a fresh breaker, whatever sequence of calls (administrative resets included) is made,
  the counters keep below their thresholds: a CLOSED breaker has seen fewer consecutive failures
  than the failure threshold, a HALF_OPEN one fewer successful probes than the success threshold,
  and a breaker that is not CLOSED has at least one recorded failure.
\<close>

theorem breaker_counters_below_thresholds:
  assumes "1 \<le> ft" and "1 \<le> st"
  shows "cb_inv (fold cb_step es (new_breaker cid cap ft rt st now))"
  using assms by (intro cb_any.inv_run new_breaker_inv) (simp_all add: list_all_iff)

theorem breaker_counters_below_thresholds_witness:
  "cb_inv (fold cb_step [Failure 1, Success 2, Failure 3, Failure 4, Poll 40 40, Success 41]
     (new_breaker ''c1'' ''collect_usage'' 2 30 2 0))"
  by (rule breaker_counters_below_thresholds) simp_all

section \<open>Tripping and recovering\<close>

lemma failures_while_closed:
  assumes "cb_st b = CLOSED" and "cb_consecutive_failures b + int (length ts) < cb_failure_threshold b"
  shows "cb_st (fold cb_record_failure ts b) = CLOSED
     \<and> cb_consecutive_failures (fold cb_record_failure ts b) = cb_consecutive_failures b + int (length ts)"
  using assms by (induction ts arbitrary: b) (auto simp: cb_record_failure_def Let_def)

lemma failures_threshold:
  "cb_failure_threshold (fold cb_record_failure ts b) = cb_failure_threshold b"
proof (induction ts arbitrary: b)
  case (Cons t ts)
  then show ?case using cb_step_thresholds(1)[of "Failure t" b] by simp
qed simp

lemma failures_while_open: "cb_st b = OPEN \<Longrightarrow> cb_st (fold cb_record_failure ts b) = OPEN"
  by (induction ts arbitrary: b) (auto simp: cb_record_failure_def Let_def)

text \<open>
  A CLOSED breaker that sees only failures opens at exactly the failure threshold, counting
  the consecutive failures it had already recorded.
\<close>

theorem breaker_trips_at_threshold:
  assumes "cb_inv b" and "cb_st b = CLOSED"
  shows "cb_st (fold cb_record_failure ts b) =
    (if cb_failure_threshold b \<le> cb_consecutive_failures b + int (length ts) then OPEN else CLOSED)"
proof (cases "cb_failure_threshold b \<le> cb_consecutive_failures b + int (length ts)")
  case True
  define k where "k = nat (cb_failure_threshold b - cb_consecutive_failures b - 1)"
  have lt: "cb_consecutive_failures b < cb_failure_threshold b" using assms by (simp add: cb_inv_def)
  with True have k: "k < length ts" "int k = cb_failure_threshold b - cb_consecutive_failures b - 1"
    by (auto simp: k_def)
  let ?m = "fold cb_record_failure (take k ts) b"
  have "cb_st ?m = CLOSED" "cb_consecutive_failures ?m + 1 = cb_failure_threshold b"
    using failures_while_closed[OF assms(2), of "take k ts"] k by simp_all
  then have "cb_st (cb_record_failure (ts ! k) ?m) = OPEN"
    by (simp add: cb_record_failure_def Let_def failures_threshold)
  then have "cb_st (fold cb_record_failure (drop (Suc k) ts) (cb_record_failure (ts ! k) ?m)) = OPEN"
    by (rule failures_while_open)
  also have "fold cb_record_failure (drop (Suc k) ts) (cb_record_failure (ts ! k) ?m) = fold cb_record_failure ts b"
    using k(1) by (metis fold_append fold_simps(2) id_take_nth_drop o_apply)
  finally show ?thesis using True by simp
next
  case False
  then show ?thesis using failures_while_closed[OF assms(2)] by simp
qed

theorem breaker_trips_at_threshold_witness:
  "cb_st (fold cb_record_failure [1, 2, 3] (new_breaker ''c1'' ''collect_usage'' 3 30 2 0)) = OPEN
   \<and> cb_st (fold cb_record_failure [1, 2] (new_breaker ''c1'' ''collect_usage'' 3 30 2 0)) = CLOSED"
proof -
  let ?b = "new_breaker ''c1'' ''collect_usage'' 3 30 2 0"
  have "cb_inv ?b" "cb_st ?b = CLOSED" by (simp_all add: new_breaker_inv) (simp add: new_breaker_def)
  note trips = breaker_trips_at_threshold[OF this]
  have "cb_failure_threshold ?b = 3" "cb_consecutive_failures ?b = 0" by (simp_all add: new_breaker_def)
  with trips[of "[1, 2, 3]"] trips[of "[1, 2]"] show ?thesis by simp
qed

text \<open>The number of successful probes still missing before a breaker can be CLOSED.\<close>

definition cb_deficit :: "breaker \<Rightarrow> int" where
  "cb_deficit b = (case cb_st b of OPEN \<Rightarrow> cb_success_threshold b
     | HALF_OPEN \<Rightarrow> cb_success_threshold b - cb_consecutive_successes b | CLOSED \<Rightarrow> 0)"

fun is_success :: "cb_event \<Rightarrow> bool" where
  "is_success (Success _) = True"
| "is_success _ = False"

lemma cb_deficit_step:
  "cb_inv b \<Longrightarrow> no_reset e \<Longrightarrow>
   cb_deficit b \<le> cb_deficit (cb_step e b) + (if is_success e then 1 else 0)"
  by (cases e)
     (auto simp: cb_inv_def cb_deficit_def no_reset_def cb_op_defs Let_def split: cb_state.splits)

lemma cb_deficit_run:
  "cb_inv b \<Longrightarrow> list_all no_reset es \<Longrightarrow>
   cb_deficit b \<le> cb_deficit (fold cb_step es b) + int (length (filter is_success es))"
proof (induction es arbitrary: b)
  case (Cons e es)
  then have "cb_deficit (cb_step e b) \<le> cb_deficit (fold cb_step es (cb_step e b)) + int (length (filter is_success es))"
    by (simp add: cb_step_inv)
  with cb_deficit_step[of b e] Cons.prems show ?case by (auto split: if_splits)
qed simp

text \<open>
  C36. A breaker that has tripped returns to CLOSED, short of an administrative reset, only after
  at least \<open>success_threshold\<close> successes have been recorded since, and it passes through HALF_OPEN
  on the way: OPEN is followed by HALF_OPEN in every run.
\<close>

theorem breaker_recovery_needs_successes:
  assumes "cb_inv b" and "cb_st b = OPEN" and "list_all no_reset es"
    and "cb_st (fold cb_step es b) = CLOSED"
  shows "cb_success_threshold b \<le> int (length (filter is_success es))
    \<and> (\<exists>i < length es. cb_st (fold cb_step (take i es) b) = HALF_OPEN)"
proof
  show "cb_success_threshold b \<le> int (length (filter is_success es))"
    using cb_deficit_run[OF assms(1,3)] assms(2,4) by (simp add: cb_deficit_def)
  show "\<exists>i < length es. cb_st (fold cb_step (take i es) b) = HALF_OPEN"
    using assms(2-)
  proof (induction es arbitrary: b)
    case (Cons e es)
    have "cb_st (cb_step e b) = OPEN \<or> cb_st (cb_step e b) = HALF_OPEN"
      using cb_step_moves[of e b] Cons.prems by (auto simp: cb_moves_from_open)
    then show ?case
    proof
      assume "cb_st (cb_step e b) = OPEN"
      then obtain i where "i < length es" "cb_st (fold cb_step (take i es) (cb_step e b)) = HALF_OPEN"
        using Cons.IH[of "cb_step e b"] Cons.prems by auto
      then show ?thesis by (intro exI[of _ "Suc i"]) simp
    next
      assume h: "cb_st (cb_step e b) = HALF_OPEN"
      with Cons.prems have "es \<noteq> []" by auto
      with h show ?thesis by (intro exI[of _ 1]) simp
    qed
  qed simp
qed

theorem breaker_recovery_needs_successes_witness:
  "2 \<le> int (length (filter is_success [Poll 40 40, Success 41, Success 42]))"
proof -
  let ?b = "cb_record_failure 1 (new_breaker ''c1'' ''collect_usage'' 1 30 2 0)"
  have "cb_inv ?b"
    using cb_step_inv[OF new_breaker_inv, of 1 2 "Failure 1"] by simp
  moreover have "cb_st ?b = OPEN" by (simp add: cb_record_failure_def new_breaker_def)
  moreover have "cb_st (fold cb_step [Poll 40 40, Success 41, Success 42] ?b) = CLOSED" by code_simp
  ultimately show ?thesis
    using breaker_recovery_needs_successes[of ?b "[Poll 40 40, Success 41, Success 42]"]
    by (simp add: no_reset_def)
qed

lemma success_half_open:
  "cb_st b = HALF_OPEN \<Longrightarrow> cb_record_success t b =
     (if cb_success_threshold b \<le> cb_consecutive_successes b + 1
      then b\<lparr>cb_st := CLOSED, cb_consecutive_failures := 0, cb_consecutive_successes := 0,
             cb_last_state_change := t\<rparr>
      else b\<lparr>cb_consecutive_successes := cb_consecutive_successes b + 1\<rparr>)"
  by (simp add: cb_record_success_def Let_def)

lemma probes_close:
  "cb_st b = HALF_OPEN \<Longrightarrow> us \<noteq> [] \<Longrightarrow>
   int (length us) + cb_consecutive_successes b = cb_success_threshold b \<Longrightarrow>
   cb_st (fold cb_record_success us b) = CLOSED"
proof (induction us arbitrary: b)
  case (Cons u us)
  show ?case
  proof (cases "us = []")
    case True
    with Cons.prems show ?thesis by (simp add: success_half_open)
  next
    case False
    with Cons.prems have "cb_record_success u b = b\<lparr>cb_consecutive_successes := cb_consecutive_successes b + 1\<rparr>"
      by (cases us) (simp_all add: success_half_open)
    with Cons.IH[of "cb_record_success u b"] Cons.prems False show ?thesis by simp
  qed
qed simp

text \<open>
  Once the cool-down has elapsed a request is let through as a probe, and \<open>success_threshold\<close>
  successes then close the breaker: a tripped breaker can always recover.
\<close>

theorem breaker_can_recover:
  assumes "cb_inv b" and "cb_st b = OPEN"
    and "cb_recovery_timeout_seconds b \<le> fsub t1 (cb_last_state_change b)"
    and "int (length ts) = cb_success_threshold b"
  shows "fst (cb_check_permission t1 t2 t3 b) = Inr ()
    \<and> cb_st (fold cb_record_success ts (snd (cb_check_permission t1 t2 t3 b))) = CLOSED"
proof -
  have "ts \<noteq> []" using assms by (auto simp: cb_inv_def)
  with assms show ?thesis
    by (auto simp: cb_check_permission_def cb_state_poll_def intro!: probes_close)
qed

theorem breaker_can_recover_witness:
  "cb_st (fold cb_record_success [41, 42] (snd (cb_check_permission 40 40 40
     (cb_record_failure 1 (new_breaker ''c1'' ''collect_usage'' 1 30 2 0))))) = CLOSED"
proof -
  let ?b = "cb_record_failure 1 (new_breaker ''c1'' ''collect_usage'' 1 30 2 0)"
  have "cb_inv ?b"
    using cb_step_inv[OF new_breaker_inv, of 1 2 "Failure 1"] by simp
  moreover have "cb_st ?b = OPEN" "cb_success_threshold ?b = 2"
    by (simp_all add: cb_record_failure_def new_breaker_def)
  moreover have "cb_recovery_timeout_seconds ?b \<le> fsub 40 (cb_last_state_change ?b)" by code_simp
  ultimately show ?thesis using breaker_can_recover[of ?b 40 "[41, 42]"] by simp
qed

section \<open>Isolation between capabilities\<close>

lemma with_breaker_other:
  "(c, k) \<noteq> (cid, cap) \<Longrightarrow> dict_get (with_breaker now cid cap f r) (c, k) = dict_get r (c, k)"
  by (auto simp: with_breaker_def get_breaker_def Let_def split: option.splits)

text \<open>
  Failure isolation: any sequence of calls on the breakers of other (connector, capability)
  pairs leaves the breaker of this pair as it is.
\<close>

theorem breaker_isolation:
  assumes "\<forall>(now, c, k, f) \<in> set calls. (c, k) \<noteq> (cid, cap)"
  shows "dict_get (fold (\<lambda>(now, c, k, f). with_breaker now c k f) calls r) (cid, cap) = dict_get r (cid, cap)"
  using assms
proof (induction calls arbitrary: r)
  case (Cons call calls)
  obtain now c k f where call: "call = (now, c, k, f)" by (cases call)
  with Cons.prems have "(cid, cap) \<noteq> (c, k)" by auto
  then have "dict_get (with_breaker now c k f r) (cid, cap) = dict_get r (cid, cap)"
    by (rule with_breaker_other)
  with Cons call show ?case by simp
qed simp

theorem breaker_isolation_witness:
  "dict_get (with_breaker 1 ''c1'' ''collect_cost_bulk'' (cb_record_failure 1)
     (snd (get_breaker 0 ''c1'' ''discover_resources'' []))) (''c1'', ''discover_resources'')
   = Some (fst (get_breaker 0 ''c1'' ''discover_resources'' []))"
  using breaker_isolation[of "[(1, ''c1'', ''collect_cost_bulk'', cb_record_failure 1)]"
      "''c1''" "''discover_resources''" "snd (get_breaker 0 ''c1'' ''discover_resources'' [])"]
  by (simp add: get_breaker_def Let_def)

end
