(* ===== verification/Rate_Limiter.thy ===== *)
theory Rate_Limiter
  imports Numerics
begin

text \<open>
  \<open>connectors/contract/rate_limiter.py\<close>: the shared token bucket and the retry backoff.

  Token counts, rates and clock readings are floats; every sum, difference and product is rounded
  by \<open>fl\<close>. The waiting loop of \<open>acquire_sync\<close> and \<open>acquire_async\<close> (the two bodies are the same up
  to the way they sleep) reads the clock twice per iteration: the loop is a recursion over the
  list of these pairs of readings, and \<open>Waiting\<close> is the outcome when the list ends before the
  loop does. The random draw of the backoff is an argument.
\<close>

section \<open>Token bucket\<close>

record bucket =
  tb_connector_id :: string
  tb_rate_per_second :: rat
  tb_burst_capacity :: rat
  tb_tokens :: rat
  tb_last_refill :: rat

datatype rl_error = RateLimitExceededException string rat | OverflowError

definition new_bucket :: "string \<Rightarrow> rat \<Rightarrow> rat \<Rightarrow> rat \<Rightarrow> bucket" where
  "new_bucket cid rate burst now =
     \<lparr> tb_connector_id = cid, tb_rate_per_second = rate, tb_burst_capacity = burst,
       tb_tokens = burst, tb_last_refill = now \<rparr>"

definition refill :: "rat \<Rightarrow> bucket \<Rightarrow> bucket" where
  "refill now b =
     (let elapsed = fsub now (tb_last_refill b) in
      if elapsed > 0
      then b\<lparr>tb_tokens := min (tb_burst_capacity b) (fadd (tb_tokens b) (fmul elapsed (tb_rate_per_second b))),
             tb_last_refill := now\<rparr>
      else b)"

definition try_acquire :: "rat \<Rightarrow> rat \<Rightarrow> bucket \<Rightarrow> bool \<times> bucket" where
  "try_acquire now n b =
     (let b' = refill now b in
      if tb_tokens b' \<ge> n then (True, b'\<lparr>tb_tokens := fsub (tb_tokens b') n\<rparr>) else (False, b'))"

datatype acquire_outcome = Acquired | Raised rl_error | Waiting

definition wait_time :: "rat \<Rightarrow> bucket \<Rightarrow> rat" where
  "wait_time n b =
     (let deficit = fsub n (tb_tokens b) in
      if tb_rate_per_second b > 0 then fdiv deficit (tb_rate_per_second b) else 1)"

fun acquire_loop :: "rat \<Rightarrow> rat \<Rightarrow> rat \<Rightarrow> (rat \<times> rat) list \<Rightarrow> bucket \<Rightarrow> acquire_outcome \<times> bucket" where
  "acquire_loop start n timeout [] b = (Waiting, b)"
| "acquire_loop start n timeout ((t1, t2) # ts) b =
     (let (got, b') = try_acquire t1 n b in
      if got then (Acquired, b')
      else let w = wait_time n b'; elapsed = fsub t2 start in
           if fadd elapsed w > timeout
           then (Raised (RateLimitExceededException (tb_connector_id b') w), b')
           else acquire_loop start n timeout ts b')"

definition acquire :: "rat \<Rightarrow> rat \<Rightarrow> rat \<Rightarrow> (rat \<times> rat) list \<Rightarrow> bucket \<Rightarrow> acquire_outcome \<times> bucket" where
  "acquire start n timeout ts b = acquire_loop start n timeout ts b"

text \<open>The length of the sleep between two iterations.\<close>

definition sleep_duration :: "rat \<Rightarrow> bucket \<Rightarrow> rat" where
  "sleep_duration n b = min (wait_time n b) (1 / 2)"

section \<open>Backoff\<close>

text \<open>\<open>random.uniform(a, b)\<close> for a draw \<open>u\<close> of \<open>random.random()\<close>.\<close>

definition uniform :: "rat \<Rightarrow> rat \<Rightarrow> rat \<Rightarrow> rat" where
  "uniform a b u = fadd a (fmul (fsub b a) u)"

definition calculate_backoff :: "nat \<Rightarrow> rat \<Rightarrow> rat \<Rightarrow> rat option \<Rightarrow> rat \<Rightarrow> rl_error + rat" where
  "calculate_backoff attempt base_delay max_delay retry_after u =
     (case retry_after of
        Some r \<Rightarrow> if r > 0 then Inr (fadd r (uniform (fl (1 / 10)) (1 / 2) u))
                  else (if attempt \<ge> 1024 then Inl OverflowError
                        else let ceiling = min max_delay (fmul base_delay (2 ^ attempt))
                             in Inr (max (fl (1 / 10)) (uniform (fl (1 / 10)) ceiling u)))
      | None \<Rightarrow> if attempt \<ge> 1024 then Inl OverflowError
                else let ceiling = min max_delay (fmul base_delay (2 ^ attempt))
                     in Inr (max (fl (1 / 10)) (uniform (fl (1 / 10)) ceiling u)))"

section \<open>The bucket never overdraws and never overfills\<close>

definition tb_inv :: "bucket \<Rightarrow> bool" where
  "tb_inv b \<longleftrightarrow> fl (tb_burst_capacity b) = tb_burst_capacity b \<and> fl (tb_tokens b) = tb_tokens b
     \<and> 0 \<le> tb_rate_per_second b \<and> 0 \<le> tb_tokens b \<and> tb_tokens b \<le> tb_burst_capacity b"

datatype tb_event = TryAcquire rat rat | Acquire rat rat rat "(rat \<times> rat) list"

fun tb_step :: "tb_event \<Rightarrow> bucket \<Rightarrow> bucket" where
  "tb_step (TryAcquire now n) b = snd (try_acquire now n b)"
| "tb_step (Acquire start n timeout ts) b = snd (acquire start n timeout ts b)"

fun tb_ok :: "tb_event \<Rightarrow> bool" where
  "tb_ok (TryAcquire now n) \<longleftrightarrow> 0 \<le> n"
| "tb_ok (Acquire start n timeout ts) \<longleftrightarrow> 0 \<le> n"

lemma refill_inv:
  assumes "tb_inv b" shows "tb_inv (refill now b)"
proof (cases "0 < fsub now (tb_last_refill b)")
  case True
  let ?t = "fadd (tb_tokens b) (fmul (fsub now (tb_last_refill b)) (tb_rate_per_second b))"
  have "0 \<le> fsub now (tb_last_refill b) * tb_rate_per_second b"
    using True assms by (simp add: tb_inv_def)
  then have "0 \<le> ?t" using assms by (simp add: tb_inv_def float.rnd_nonneg)
  with True assms show ?thesis by (auto simp: tb_inv_def refill_def Let_def min_def float.rnd_idem)
next
  case False
  with assms show ?thesis by (simp add: refill_def Let_def)
qed

lemma try_acquire_inv:
  assumes "tb_inv b" and "0 \<le> n" shows "tb_inv (snd (try_acquire now n b))"
proof -
  have r: "tb_inv (refill now b)" using assms(1) by (rule refill_inv)
  show ?thesis
  proof (cases "n \<le> tb_tokens (refill now b)")
    case True
    have "fsub (tb_tokens (refill now b)) n \<le> tb_tokens (refill now b)"
      using r assms(2) by (intro float.rnd_le_fixed) (simp_all add: tb_inv_def)
    with True r show ?thesis
      by (simp add: try_acquire_def Let_def tb_inv_def float.rnd_idem float.rnd_diff_nonneg)
  next
    case False
    with r show ?thesis by (simp add: try_acquire_def Let_def)
  qed
qed

lemma acquire_loop_inv:
  "tb_inv b \<Longrightarrow> 0 \<le> n \<Longrightarrow> tb_inv (snd (acquire_loop start n timeout ts b))"
proof (induction start n timeout ts b rule: acquire_loop.induct)
  case (2 start n timeout t1 t2 ts b)
  have "tb_inv (snd (try_acquire t1 n b))" using "2.prems" by (rule try_acquire_inv)
  with "2.IH" "2.prems" show ?case by (auto simp: Let_def split: prod.splits)
qed simp

interpretation tb: machine tb_step tb_ok tb_inv
proof
  fix b e assume "tb_inv b" "tb_ok e"
  then show "tb_inv (tb_step e b)"
    by (cases e) (auto simp: try_acquire_inv acquire_def acquire_loop_inv)
qed

text \<open>
  Whatever sequence of acquisitions is made, with whatever clock readings (a clock that goes
  back included), the bucket holds between zero and its burst capacity.
\<close>

theorem bucket_within_capacity:
  assumes "fl burst = burst" and "0 \<le> burst" and "0 \<le> rate" and "list_all tb_ok es"
  shows "0 \<le> tb_tokens (fold tb_step es (new_bucket cid rate burst now))
    \<and> tb_tokens (fold tb_step es (new_bucket cid rate burst now)) \<le> burst"
proof -
  have cap: "tb_burst_capacity (tb_step e b) = tb_burst_capacity b" for e b
  proof (cases e)
    case (Acquire start n timeout ts)
    have "tb_burst_capacity (snd (acquire_loop start n timeout ts b)) = tb_burst_capacity b"
      by (induction start n timeout ts b rule: acquire_loop.induct)
         (auto simp: try_acquire_def refill_def Let_def split: prod.splits if_splits)
    with Acquire show ?thesis by (simp add: acquire_def)
  qed (simp add: try_acquire_def refill_def Let_def)
  have "tb_burst_capacity (fold tb_step es b) = tb_burst_capacity b" for b
    by (induction es arbitrary: b) (simp_all add: cap)
  moreover have "tb_inv (new_bucket cid rate burst now)"
    using assms by (simp add: tb_inv_def new_bucket_def)
  then have "tb_inv (fold tb_step es (new_bucket cid rate burst now))"
    using assms(4) by (rule tb.inv_run)
  ultimately show ?thesis by (simp add: tb_inv_def new_bucket_def)
qed

theorem bucket_within_capacity_witness:
  "0 \<le> tb_tokens (fold tb_step [TryAcquire 0 30, TryAcquire (1 / 4) 25, Acquire 1 2 30 [(1, 1)]]
        (new_bucket ''c1'' 50 50 0))"
  using bucket_within_capacity[of 50 50 "[TryAcquire 0 30, TryAcquire (1 / 4) 25, Acquire 1 2 30 [(1, 1)]]"
      "''c1''" 0] fl_of_int[of 50] by simp

section \<open>Tokens are conserved\<close>

lemma fl_fixed_mantissa:
  assumes x: "fl x = x" "0 < x"
  obtains m where "0 < m" "m < 2 ^ 53" "x = of_int m * power_int 2 (lead 2 x - 52)"
proof -
  let ?q = "power_int (2 :: rat) (lead 2 x - 52)"
  let ?m = "round_half_even (x / ?q)"
  have eq: "x = of_int ?m * ?q" using x by (simp add: fl_def round_sig_def Let_def)
  have q: "0 < ?q" by simp
  have "x < power_int 2 (lead 2 x + 1)" using lead_bounds(2)[of 2 x] x by simp
  also have "\<dots> = power_int 2 (53 + (lead 2 x - 52))" by (simp add: algebra_simps)
  also have "\<dots> = of_int (2 ^ 53) * ?q" by (subst power_int_add) (simp_all add: power_int_def)
  finally have "?m < 2 ^ 53" using eq q by (metis mult_less_cancel_right_pos of_int_less_iff)
  moreover have "0 < ?m" using eq q x by (metis of_int_0_less_iff zero_less_mult_pos2)
  ultimately show thesis using eq that by blast
qed

text \<open>Taking one token from a bucket that holds at least one is exact.\<close>

lemma fl_minus_1:
  assumes x: "fl x = x" "1 \<le> x" "x < 2 ^ 53" shows "fl (x - 1) = x - 1"
proof -
  obtain m where m: "0 < m" "m < 2 ^ 53" "x = of_int m * power_int 2 (lead 2 x - 52)"
    using fl_fixed_mantissa[of x] x by auto
  have "power_int (2 :: rat) (lead 2 x) < power_int 2 53"
    using lead_bounds(1)[of 2 x] x by (simp add: power_int_def)
  then have "lead 2 x < 53" using power_int_base_less[of 2 "lead 2 x" 53] by simp
  define k where "k = nat (52 - lead 2 x)"
  with \<open>lead 2 x < 53\<close> have k: "lead 2 x - 52 = - int k" by simp
  have xk: "x = of_int m / 2 ^ k"
    using m(3) unfolding k by (simp add: power_int_minus power_int_of_nat field_simps)
  then have "x - 1 = of_int (m - 2 ^ k) / 2 ^ k" by (simp add: field_simps)
  moreover have "of_int m = x * 2 ^ k" using xk by simp
  then have "(of_int (2 ^ k) :: rat) \<le> of_int m" using mult_right_mono[OF x(2), of "2 ^ k"] by simp
  then have "2 ^ k \<le> m" by (simp only: of_int_le_iff)
  moreover have "(0 :: int) < 2 ^ k" by simp
  ultimately have "x - 1 = of_int (m - 2 ^ k) / 2 ^ k \<and> \<bar>m - 2 ^ k\<bar> < 2 ^ 53" using m(2) by linarith
  then show ?thesis by (simp only: fl_exact)
qed

fun acquire_ones :: "rat list \<Rightarrow> bucket \<Rightarrow> nat \<times> bucket" where
  "acquire_ones [] b = (0, b)"
| "acquire_ones (t # ts) b =
     (let (got, b') = try_acquire t 1 b; (k, b'') = acquire_ones ts b' in (if got then Suc k else k, b''))"

lemma try_acquire_frozen:
  assumes "fsub t (tb_last_refill b) \<le> 0"
  shows "try_acquire t n b =
    (if tb_tokens b \<ge> n then (True, b\<lparr>tb_tokens := fsub (tb_tokens b) n\<rparr>) else (False, b))"
  using assms by (simp add: try_acquire_def refill_def Let_def)

text \<open>
  At a clock that has not moved past the last refill, single-token acquisitions hand out
  exactly the tokens they remove, whatever float value the bucket starts from: as long as the
  capacity stays below \<open>2^53\<close>, no token is created or lost by rounding, so a burst never grants
  more than the bucket held.
\<close>

theorem bucket_conserves_tokens:
  assumes "tb_inv b" and "tb_burst_capacity b < 2 ^ 53"
    and "\<forall>t \<in> set ts. fsub t (tb_last_refill b) \<le> 0"
  shows "of_nat (fst (acquire_ones ts b)) + tb_tokens (snd (acquire_ones ts b)) = tb_tokens b"
  using assms
proof (induction ts arbitrary: b)
  case (Cons t ts)
  have frozen: "fsub t (tb_last_refill b) \<le> 0" using Cons.prems by simp
  show ?case
  proof (cases "1 \<le> tb_tokens b")
    case True
    let ?b = "b\<lparr>tb_tokens := tb_tokens b - 1\<rparr>"
    have "fl (tb_tokens b - 1) = tb_tokens b - 1"
      using Cons.prems True by (intro fl_minus_1) (simp_all add: tb_inv_def)
    then have step: "try_acquire t 1 b = (True, ?b)" and "tb_inv ?b"
      using True Cons.prems(1) by (simp_all add: try_acquire_frozen[OF frozen] tb_inv_def)
    with Cons.IH[of ?b] Cons.prems show ?thesis by (simp add: split_beta)
  next
    case False
    with Cons show ?thesis by (simp add: try_acquire_frozen[OF frozen] split_beta)
  qed
qed simp

theorem bucket_conserves_tokens_witness:
  "of_nat (fst (acquire_ones [7, 7, 7] (new_bucket ''c1'' 50 2 7)))
     + tb_tokens (snd (acquire_ones [7, 7, 7] (new_bucket ''c1'' 50 2 7))) = 2"
  using bucket_conserves_tokens[of "new_bucket ''c1'' 50 2 7" "[7, 7, 7]"] fl_of_int[of 2]
  by (simp add: tb_inv_def new_bucket_def float.rnd_0)

section \<open>The waiting loop ends\<close>

lemma wait_time_nonneg: "tb_tokens b \<le> n \<Longrightarrow> 0 \<le> wait_time n b"
  by (auto simp: wait_time_def Let_def float.rnd_nonneg intro!: float.rnd_nonneg divide_nonneg_pos)

lemma try_acquire_denied: "\<not> fst (try_acquire t n b) \<Longrightarrow> tb_tokens (snd (try_acquire t n b)) < n"
  by (auto simp: try_acquire_def Let_def split: if_splits)

text \<open>
  C40. A blocking acquisition ends no later than the first iteration whose clock reading is past
  the timeout: it has then either obtained the tokens or raised \<open>RateLimitExceededException\<close>.
\<close>

theorem acquire_terminates:
  assumes "fl timeout = timeout" and "\<exists>(t1, t2) \<in> set ts. timeout < fsub t2 start"
  shows "fst (acquire start n timeout ts b) \<noteq> Waiting"
  using assms(2) unfolding acquire_def
proof (induction ts arbitrary: b)
  case (Cons t ts)
  obtain t1 t2 where t: "t = (t1, t2)" by (cases t)
  let ?r = "try_acquire t1 n b"
  show ?case
  proof (cases "fst ?r \<or> fadd (fsub t2 start) (wait_time n (snd ?r)) > timeout")
    case True
    then show ?thesis by (cases ?r) (auto simp: t Let_def)
  next
    case False
    have "fsub t2 start \<le> fadd (fsub t2 start) (wait_time n (snd ?r))"
      using wait_time_nonneg[of "snd ?r" n] try_acquire_denied[of t1 n b] False
      by (intro float.rnd_ge_fixed) (simp_all add: float.rnd_idem)
    with False have "\<not> timeout < fsub t2 start" by linarith
    with Cons.prems t have "\<exists>(t1, t2) \<in> set ts. timeout < fsub t2 start" by auto
    from Cons.IH[OF this, of "snd ?r"] False show ?thesis by (cases ?r) (simp add: t Let_def)
  qed
qed simp

theorem acquire_terminates_witness:
  "fst (acquire 0 100 30 [(0, 0), (1, 31)] (new_bucket ''c1'' 50 50 0)) \<noteq> Waiting"
  using acquire_terminates[of 30 "[(0, 0), (1, 31)]" 0] fl_of_int[of 30] fl_of_int[of 31] by simp

section \<open>Backoff\<close>

lemma uniform_bounds:
  assumes "fl a = a" and "0 \<le> u" "u \<le> 1" and "a \<le> b"
  shows "a \<le> uniform a b u \<and> uniform a b u \<le> fadd a (fsub b a)"
proof -
  have d: "0 \<le> fsub b a" using assms(4) by (rule float.rnd_diff_nonneg)
  have "0 \<le> fmul (fsub b a) u" using d assms by (intro float.rnd_nonneg) simp
  moreover have "fmul (fsub b a) u \<le> fsub b a"
    using d assms by (intro float.rnd_le_fixed) (simp_all add: float.rnd_idem mult_left_le)
  ultimately show ?thesis
    using assms(1) by (auto simp: uniform_def intro: float.rnd_ge_fixed float.rnd_mono)
qed

text \<open>
  The backoff delay honours a positive provider hint (the delay is at least the hint); without
  one it lies between the 0.1 second floor and the ceiling \<open>max_delay\<close> up to one float rounding of
  the jitter sum. Both hold for every draw in the unit interval.
\<close>

theorem backoff_bounds:
  assumes "0 \<le> u" and "u \<le> 1" and "calculate_backoff attempt base_delay max_delay hint u = Inr d"
    and "fl max_delay = max_delay" and "fl (1 / 10) \<le> max_delay"
    and "\<And>r. hint = Some r \<Longrightarrow> fl r = r"
  shows "(\<forall>r. hint = Some r \<and> 0 < r \<longrightarrow> r \<le> d)
    \<and> ((\<nexists>r. hint = Some r \<and> 0 < r) \<longrightarrow> fl (1 / 10) \<le> d \<and> d \<le> fadd (fl (1 / 10)) max_delay)"
proof -
  let ?f = "fl (1 / 10)"
  let ?c = "min max_delay (fmul base_delay (2 ^ attempt))"
  have f: "0 \<le> ?f" "fl ?f = ?f" "?f \<le> 1 / 2"
    using float.rnd_nonneg[of "1 / 10"] float.rnd_le_fixed[of "1 / 2" "1 / 10"] fl_exact[of 1 1]
    by (simp_all add: float.rnd_idem)
  have top: "max_delay \<le> fadd ?f max_delay" and ftop: "?f \<le> fadd ?f max_delay"
    using f assms(4,5) by (auto intro!: float.rnd_ge_fixed)
  have jitter: "max ?f (uniform ?f ?c u) \<le> fadd ?f max_delay"
  proof (cases "?f \<le> ?c")
    case True
    have "fsub ?c ?f \<le> max_delay" using f assms(4) by (intro float.rnd_le_fixed) auto
    then have "fadd ?f (fsub ?c ?f) \<le> fadd ?f max_delay" by (intro float.rnd_mono) simp
    with uniform_bounds[OF f(2) assms(1,2) True] ftop show ?thesis by simp
  next
    case False
    have "fsub ?c ?f \<le> 0" using False by (intro float.rnd_nonpos) linarith
    then have "fmul (fsub ?c ?f) u \<le> 0" using assms(1) by (rule float.rnd_nonpos[OF mult_nonpos_nonneg])
    then have "uniform ?f ?c u \<le> ?f" unfolding uniform_def using f(2) by (intro float.rnd_le_fixed) simp_all
    with ftop show ?thesis by simp
  qed
  have hinted: "r \<le> fadd r (uniform ?f (1 / 2) u)" if "hint = Some r" for r
    using uniform_bounds[OF f(2) assms(1,2) f(3)] f(1) assms(6)[OF that] by (intro float.rnd_ge_fixed) auto
  from assms(3) jitter hinted show ?thesis
    by (auto simp: calculate_backoff_def Let_def split: option.splits if_splits)
qed

theorem backoff_bounds_witness:
  "\<exists>d. calculate_backoff 3 1 60 None (1 / 2) = Inr d \<and> fl (1 / 10) \<le> d \<and> d \<le> fadd (fl (1 / 10)) 60"
proof -
  obtain d where d: "calculate_backoff 3 1 60 None (1 / 2) = Inr d"
    by (simp add: calculate_backoff_def Let_def)
  have "fl 60 = 60" using fl_of_int[of 60] by simp
  moreover have "fl (1 / 10) \<le> 60" by code_simp
  ultimately show ?thesis using backoff_bounds[OF _ _ d] d by simp
qed

end
