(* ===== verification/Quota_Tracker.thy ===== *)
theory Quota_Tracker
  imports Numerics
begin

text \<open>
  \<open>connectors/contract/quota_tracker.py\<close>: hourly request quotas per connector.

  A UTC instant is a number of microseconds; the window string \<open>%Y-%m-%dT%H:00:00Z\<close> is
  represented by the hour it names, whose order is the lexicographic order of the strings for
  four-digit years. \<open>HourlyQuotaDiagnostic\<close> is a validated model: its \<open>ge\<close> constraints raise after
  the counter has been stored, which the result keeps beside the new state.
\<close>

type_synonym quota_key = "string \<times> string \<times> int"

record quota_tracker =
  qt_default_hourly_limit :: int
  qt_counts :: "(quota_key, int) dict"
  qt_custom_limits :: "(string \<times> string, int) dict"

record quota_diagnostic =
  qd_connector_id :: string
  qd_tenant_id :: string
  qd_window_hour_utc :: int
  qd_requests_made :: int
  qd_hourly_limit :: int
  qd_remaining_headroom :: int
  qd_utilization_percentage :: rat
  qd_is_exhausted :: bool
  qd_resets_at :: int

datatype quota_error = QuotaExhaustedException string int int | QuotaValidationError

definition hour_us :: int where "hour_us = 3600 * 1000000"

definition current_hour_window :: "int \<Rightarrow> int \<times> int" where
  "current_hour_window now = (let w = now div hour_us in (w, (w + 1) * hour_us))"

definition new_quota_tracker :: "int \<Rightarrow> quota_tracker" where
  "new_quota_tracker limit = \<lparr> qt_default_hourly_limit = limit, qt_counts = [], qt_custom_limits = [] \<rparr>"

definition set_custom_limit :: "string \<Rightarrow> string \<Rightarrow> int \<Rightarrow> quota_tracker \<Rightarrow> quota_tracker" where
  "set_custom_limit t c l q = q\<lparr>qt_custom_limits := dict_set (qt_custom_limits q) (t, c) l\<rparr>"

definition get_limit :: "string \<Rightarrow> string \<Rightarrow> quota_tracker \<Rightarrow> int" where
  "get_limit t c q = (case dict_get (qt_custom_limits q) (t, c) of
     Some l \<Rightarrow> l | None \<Rightarrow> qt_default_hourly_limit q)"

definition requests_in :: "quota_key \<Rightarrow> quota_tracker \<Rightarrow> int" where
  "requests_in key q = (case dict_get (qt_counts q) key of Some n \<Rightarrow> n | None \<Rightarrow> 0)"

definition utilization :: "int \<Rightarrow> int \<Rightarrow> rat" where
  "utilization n limit =
     (if limit > 0 then py_round 2 (fmul (fdiv (of_int n) (of_int limit)) 100) else 100)"

definition diagnostic :: "string \<Rightarrow> string \<Rightarrow> int \<Rightarrow> int \<Rightarrow> int \<Rightarrow> int \<Rightarrow> quota_error + quota_diagnostic" where
  "diagnostic c t w n limit reset =
     (let remaining = max 0 (limit - n) in
      if 0 \<le> n \<and> 1 \<le> limit \<and> 0 \<le> utilization n limit
      then Inr \<lparr> qd_connector_id = c, qd_tenant_id = t, qd_window_hour_utc = w, qd_requests_made = n,
                 qd_hourly_limit = limit, qd_remaining_headroom = remaining,
                 qd_utilization_percentage = utilization n limit,
                 qd_is_exhausted = (remaining = 0), qd_resets_at = reset \<rparr>
      else Inl QuotaValidationError)"

definition prune_expired_windows :: "int \<Rightarrow> (quota_key, int) dict \<Rightarrow> (quota_key, int) dict" where
  "prune_expired_windows w d =
     fold (\<lambda>k d. dict_pop d k) (filter (\<lambda>(t, c, v). v < w) (map fst d)) d"

definition record_request ::
  "string \<Rightarrow> string \<Rightarrow> int \<Rightarrow> int \<Rightarrow> quota_tracker \<Rightarrow> (quota_error + quota_diagnostic) \<times> quota_tracker" where
  "record_request t c count now q =
     (let (w, reset) = current_hour_window now; limit = get_limit t c q; key = (t, c, w);
          current_count = requests_in key q
      in if current_count + count > limit
         then (Inl (QuotaExhaustedException c limit reset), q)
         else let new_count = current_count + count;
                  q' = q\<lparr>qt_counts := prune_expired_windows w (dict_set (qt_counts q) key new_count)\<rparr>
              in (diagnostic c t w new_count limit reset, q'))"

definition get_diagnostic :: "string \<Rightarrow> string \<Rightarrow> int \<Rightarrow> quota_tracker \<Rightarrow> quota_error + quota_diagnostic" where
  "get_diagnostic t c now q =
     (let (w, reset) = current_hour_window now in
      diagnostic c t w (requests_in (t, c, w) q) (get_limit t c q) reset)"

definition quota_reset_for_test :: "quota_tracker \<Rightarrow> quota_tracker" where
  "quota_reset_for_test q = q\<lparr>qt_counts := [], qt_custom_limits := []\<rparr>"

section \<open>Lookups after an update\<close>

lemma dict_get_prune:
  "dict_get (prune_expired_windows w d) (t, c, v) = (if v < w then None else dict_get d (t, c, v))"
proof -
  have "dict_get d (t, c, v) = None" if "(t, c, v) \<notin> fst ` set d"
    using that by (simp add: dict_get_def map_of_eq_None_iff)
  then show ?thesis
    unfolding prune_expired_windows_def by (subst pydict.pop_all) auto
qed

lemma record_request_limits [simp]:
  "get_limit t' c' (snd (record_request t c n now q)) = get_limit t' c' q"
proof -
  have "qt_custom_limits (snd (record_request t c n now q)) = qt_custom_limits q"
    "qt_default_hourly_limit (snd (record_request t c n now q)) = qt_default_hourly_limit q"
    by (simp_all add: record_request_def Let_def split_beta)
  then show ?thesis by (simp add: get_limit_def split: option.split)
qed

lemma requests_in_rejected:
  "requests_in (t, c, now div hour_us) q + n > get_limit t c q \<Longrightarrow>
   record_request t c n now q =
     (Inl (QuotaExhaustedException c (get_limit t c q) ((now div hour_us + 1) * hour_us)), q)"
  by (simp add: record_request_def current_hour_window_def Let_def)

lemma requests_in_accepted:
  assumes "requests_in (t, c, now div hour_us) q + n \<le> get_limit t c q"
  shows "requests_in (t', c', v) (snd (record_request t c n now q)) =
    (if v < now div hour_us then 0
     else if (t', c', v) = (t, c, now div hour_us) then requests_in (t, c, now div hour_us) q + n
     else requests_in (t', c', v) q)"
  using assms
  by (simp add: record_request_def current_hour_window_def Let_def requests_in_def dict_get_prune)

section \<open>The ceiling\<close>

text \<open>
  The requests a run of \<open>record_request\<close> calls lets through, as (tenant, connector, count, instant): those it
  answers with a diagnostic instead of an exception.
\<close>

type_synonym quota_request = "string \<times> string \<times> int \<times> int"

fun accepted :: "quota_request list \<Rightarrow> quota_tracker \<Rightarrow> quota_request list" where
  "accepted [] q = []"
| "accepted ((t, c, n, now) # rs) q =
     (let q' = snd (record_request t c n now q) in
      if isl (fst (record_request t c n now q)) then accepted rs q' else (t, c, n, now) # accepted rs q')"

definition total_in :: "quota_key \<Rightarrow> quota_request list \<Rightarrow> int" where
  "total_in key rs = (\<Sum>(t, c, n, now) \<leftarrow> rs. if (t, c, now div hour_us) = key then n else 0)"

lemma total_in_simps [simp]:
  "total_in key [] = 0"
  "total_in key ((t, c, n, now) # rs) = (if (t, c, now div hour_us) = key then n else 0) + total_in key rs"
  by (simp_all add: total_in_def)

lemma accepted_subset: "set (accepted rs q) \<subseteq> set rs"
  by (induction rs q rule: accepted.induct) (auto simp: Let_def)

lemma total_in_past:
  "\<forall>(t, c, n, now) \<in> set rs. v < now div hour_us \<Longrightarrow> total_in (t', c', v) rs = 0"
  by (induction rs) auto

lemma accepted_le_limit:
  assumes "sorted (map (\<lambda>(t, c, n, now). now) rs)" and "\<forall>(t, c, n, now) \<in> set rs. 0 \<le> n"
  shows "requests_in (t, c, v) q + total_in (t, c, v) (accepted rs q)
    \<le> max (get_limit t c q) (requests_in (t, c, v) q)"
  using assms
proof (induction rs q rule: accepted.induct)
  case (2 t1 c1 n now rs q)
  let ?w = "now div hour_us"
  define q' where q': "q' = snd (record_request t1 c1 n now q)"
  have IH: "requests_in (t, c, v) q' + total_in (t, c, v) (accepted rs q')
      \<le> max (get_limit t c q) (requests_in (t, c, v) q')"
    using 2 by (auto simp: q' Let_def split: if_splits)
  have acc: "accepted ((t1, c1, n, now) # rs) q
      = (if isl (fst (record_request t1 c1 n now q)) then accepted rs q' else (t1, c1, n, now) # accepted rs q')"
    by (simp add: q' Let_def)
  show ?case
  proof (cases "requests_in (t1, c1, ?w) q + n > get_limit t1 c1 q")
    case True
    with IH acc show ?thesis by (simp add: q' requests_in_rejected)
  next
    case False
    then have upd: "requests_in (t, c, v) q' = (if v < ?w then 0
        else if (t, c, v) = (t1, c1, ?w) then requests_in (t1, c1, ?w) q + n else requests_in (t, c, v) q)"
      by (simp add: q' requests_in_accepted)
    have later: "total_in (t, c, v) (accepted rs q') = 0" if "v < ?w"
    proof (rule total_in_past, safe)
      fix t' c' m now' assume "(t', c', m, now') \<in> set (accepted rs q')"
      then have "now \<le> now'" using accepted_subset "2.prems"(1) by fastforce
      then have "?w \<le> now' div hour_us" by (simp add: hour_us_def zdiv_mono1)
      with that show "v < now' div hour_us" by linarith
    qed
    have "0 \<le> n" using "2.prems"(2) by simp
    with False IH upd later show ?thesis
      unfolding acc by (auto simp: not_less split: if_splits)
  qed
qed simp

text \<open>
  C37. With a clock that does not go back, the requests of non-negative size that \<open>record_request\<close> answers
  without an exception for a connector in one hour never add up to more than its limit (its custom limit,
  or the default), from empty counters, whatever other tenants and connectors do and however the counters
  of past windows are pruned.
\<close>

theorem hourly_quota_respected:
  assumes "sorted (map (\<lambda>(t, c, n, now). now) rs)" and "\<forall>(t, c, n, now) \<in> set rs. 0 \<le> n"
    and "qt_counts q = []" and "0 \<le> get_limit t c q"
  shows "total_in (t, c, v) (accepted rs q) \<le> get_limit t c q"
proof -
  have "requests_in (t, c, v) q = 0" using assms(3) by (simp add: requests_in_def)
  with accepted_le_limit[OF assms(1,2), of t c v q] assms(4) show ?thesis by simp
qed

theorem hourly_quota_respected_witness:
  "total_in (''t'', ''c'', 0)
     (accepted [(''t'', ''c'', 2, 5), (''t'', ''c'', 2, 6), (''t'', ''c'', 1, 7)] (new_quota_tracker 3)) \<le> 3"
  using hourly_quota_respected[of "[(''t'', ''c'', 2, 5), (''t'', ''c'', 2, 6), (''t'', ''c'', 1, 7)]"
      "new_quota_tracker 3" "''t''" "''c''" 0]
  by (simp add: new_quota_tracker_def get_limit_def)

lemma utilization_nonneg: "0 \<le> n \<Longrightarrow> 0 \<le> utilization n limit"
proof -
  assume n: "0 \<le> n"
  have "0 \<le> utilization n limit" if "0 < limit"
  proof -
    have "0 \<le> fdiv (of_int n) (of_int limit)" using n that by (intro float.rnd_nonneg) simp
    then have "0 \<le> fmul (fdiv (of_int n) (of_int limit)) 100" by (intro float.rnd_nonneg) simp
    then have "0 \<le> fmul (fdiv (of_int n) (of_int limit)) 100 * 10 ^ 2" by simp
    from round_half_even_mono[OF this] show ?thesis
      by (auto simp: utilization_def py_round_def intro!: float.rnd_nonneg)
  qed
  then show ?thesis by (cases "0 < limit") (simp_all add: utilization_def)
qed

lemma record_request_isl:
  assumes "1 \<le> get_limit t c q" and "0 \<le> requests_in (t, c, now div hour_us) q + n"
  shows "isl (fst (record_request t c n now q)) \<longleftrightarrow> get_limit t c q < requests_in (t, c, now div hour_us) q + n"
  using assms utilization_nonneg[OF assms(2)]
  by (auto simp: record_request_def current_hour_window_def diagnostic_def Let_def)

text \<open>
  A request is refused exactly when it would take the window past the limit; a refusal
  changes no counter, and an accepted request of a valid connector (a positive limit, a
  non-negative count) reports the stored count, the exact headroom, and exhaustion exactly when
  nothing is left.
\<close>

theorem record_request_outcome:
  assumes "1 \<le> get_limit t c q" and "0 \<le> requests_in (t, c, now div hour_us) q + n"
  shows "case record_request t c n now q of
      (Inl e, q') \<Rightarrow> q' = q \<and> get_limit t c q < requests_in (t, c, now div hour_us) q + n
    | (Inr d, q') \<Rightarrow> requests_in (t, c, now div hour_us) q + n \<le> get_limit t c q
        \<and> qd_requests_made d = requests_in (t, c, now div hour_us) q'
        \<and> qd_requests_made d + qd_remaining_headroom d = get_limit t c q
        \<and> (qd_is_exhausted d \<longleftrightarrow> requests_in (t, c, now div hour_us) q' = get_limit t c q)"
proof (cases "get_limit t c q < requests_in (t, c, now div hour_us) q + n")
  case True
  then show ?thesis by (simp add: requests_in_rejected)
next
  case False
  let ?n = "requests_in (t, c, now div hour_us) q + n" and ?l = "get_limit t c q"
  have u: "0 \<le> utilization ?n ?l" using assms(2) by (rule utilization_nonneg)
  have "requests_in (t, c, now div hour_us) (snd (record_request t c n now q)) = ?n"
    using False by (simp add: requests_in_accepted)
  moreover have "fst (record_request t c n now q) = diagnostic c t (now div hour_us) ?n ?l ((now div hour_us + 1) * hour_us)"
    using False by (simp add: record_request_def current_hour_window_def Let_def)
  ultimately show ?thesis using False assms u by (cases "record_request t c n now q") (auto simp: diagnostic_def Let_def)
qed

theorem record_request_outcome_witness:
  "\<exists>d q'. record_request ''t'' ''c'' 3 7 (new_quota_tracker 3) = (Inr d, q') \<and> qd_is_exhausted d"
proof -
  let ?q = "new_quota_tracker 3"
  have l: "get_limit ''t'' ''c'' ?q = 3" "requests_in (''t'', ''c'', 7 div hour_us) ?q = 0"
    by (simp_all add: get_limit_def requests_in_def new_quota_tracker_def)
  then have r: "requests_in (''t'', ''c'', 7 div hour_us) (snd (record_request ''t'' ''c'' 3 7 ?q)) = 3"
    by (simp add: requests_in_accepted)
  show ?thesis
    using record_request_outcome[of "''t''" "''c''" ?q 7 3] l r
    by (auto split: prod.splits sum.splits)
qed

end
