(* ===== verification/Adaptive_Concurrency.thy ===== *)
theory Adaptive_Concurrency
  imports Numerics
begin

text \<open>
  \<open>connectors/contract/adaptive_concurrency.py\<close>: the AIMD concurrency governor and its leases.

  The waiting loops release the lock between two looks at the state, so an iteration is the unit
  of atomicity: \<open>acquire_slot_sync_poll\<close> and \<open>acquire_slot_async_poll\<close> are one iteration of the
  synchronous and the asynchronous loop. Leases and governor together are the step relation
  \<open>lease_step\<close>, in which the polls, releases, successes and throttles of all clients interleave.
\<close>

record controller =
  ac_connector_id :: string
  ac_min_concurrency :: int
  ac_max_concurrency :: int
  ac_current_concurrency :: int
  ac_recovery_success_threshold :: int
  ac_active_requests :: int
  ac_consecutive_successes :: int

definition new_controller :: "string \<Rightarrow> int \<Rightarrow> int \<Rightarrow> int \<Rightarrow> int \<Rightarrow> controller" where
  "new_controller cid mn mx init thr =
     \<lparr> ac_connector_id = cid, ac_min_concurrency = mn, ac_max_concurrency = mx,
       ac_current_concurrency = init, ac_recovery_success_threshold = thr,
       ac_active_requests = 0, ac_consecutive_successes = 0 \<rparr>"

definition record_throttle :: "controller \<Rightarrow> int \<times> controller" where
  "record_throttle c =
     (let new_limit = max (ac_min_concurrency c) (trunc (fmul (fl (of_int (ac_current_concurrency c))) (1 / 2)))
      in (new_limit, c\<lparr>ac_current_concurrency := new_limit, ac_consecutive_successes := 0\<rparr>))"

definition record_success :: "controller \<Rightarrow> int \<times> controller" where
  "record_success c =
     (let n = ac_consecutive_successes c + 1;
          c' = (if n \<ge> ac_recovery_success_threshold c
                then (if ac_current_concurrency c < ac_max_concurrency c
                      then c\<lparr>ac_current_concurrency := ac_current_concurrency c + 1, ac_consecutive_successes := 0\<rparr>
                      else c\<lparr>ac_consecutive_successes := 0\<rparr>)
                else c\<lparr>ac_consecutive_successes := n\<rparr>)
      in (ac_current_concurrency c', c'))"

datatype poll = Granted | TimedOut | KeepWaiting rat

definition acquire_slot_sync_poll :: "rat \<Rightarrow> rat \<Rightarrow> controller \<Rightarrow> poll \<times> controller" where
  "acquire_slot_sync_poll end_time now c =
     (if ac_active_requests c \<ge> ac_current_concurrency c
      then (let remaining = fsub end_time now in
            if remaining \<le> 0 then (TimedOut, c) else (KeepWaiting (min remaining (1 / 2)), c))
      else (Granted, c\<lparr>ac_active_requests := ac_active_requests c + 1\<rparr>))"

definition acquire_slot_async_poll :: "rat \<Rightarrow> rat \<Rightarrow> controller \<Rightarrow> poll \<times> controller" where
  "acquire_slot_async_poll timeout waited c =
     (if waited < timeout
      then if ac_active_requests c < ac_current_concurrency c
           then (Granted, c\<lparr>ac_active_requests := ac_active_requests c + 1\<rparr>)
           else (KeepWaiting (fadd waited (fl (5 / 100))), c)
      else (TimedOut, c))"

definition release_slot_sync :: "controller \<Rightarrow> controller" where
  "release_slot_sync c =
     (if ac_active_requests c > 0 then c\<lparr>ac_active_requests := ac_active_requests c - 1\<rparr> else c)"

section \<open>Additive increase, multiplicative decrease\<close>

definition ac_wf :: "controller \<Rightarrow> bool" where
  "ac_wf c \<longleftrightarrow> 1 \<le> ac_min_concurrency c
     \<and> ac_min_concurrency c \<le> ac_current_concurrency c \<and> ac_current_concurrency c \<le> ac_max_concurrency c
     \<and> ac_max_concurrency c < 2 ^ 53 \<and> 1 \<le> ac_recovery_success_threshold c
     \<and> 0 \<le> ac_consecutive_successes c \<and> ac_consecutive_successes c < ac_recovery_success_threshold c
     \<and> 0 \<le> ac_active_requests c \<and> ac_active_requests c \<le> ac_max_concurrency c"

lemma halving:
  assumes "\<bar>n\<bar> < 2 ^ 53" shows "fmul (fl (of_int n)) (1 / 2) = of_int n / 2"
  using fl_of_int[OF assms] fl_exact[OF assms, of 1] by simp

lemma trunc_half: "0 \<le> n \<Longrightarrow> trunc (of_int n / 2) = n div 2"
  using floor_divide_of_int_eq[of n 2, where 'a = rat] by (simp add: trunc_def)

lemma record_throttle_eq:
  assumes "ac_wf c"
  shows "record_throttle c =
    (let l = max (ac_min_concurrency c) (ac_current_concurrency c div 2)
     in (l, c\<lparr>ac_current_concurrency := l, ac_consecutive_successes := 0\<rparr>))"
proof -
  have n: "0 \<le> ac_current_concurrency c" "\<bar>ac_current_concurrency c\<bar> < 2 ^ 53"
    using assms by (auto simp: ac_wf_def)
  have "trunc (fmul (fl (of_int (ac_current_concurrency c))) (1 / 2)) = ac_current_concurrency c div 2"
    by (simp only: halving[OF n(2)] trunc_half[OF n(1)])
  then show ?thesis by (simp add: record_throttle_def)
qed

lemma record_throttle_wf: "ac_wf c \<Longrightarrow> ac_wf (snd (record_throttle c))"
  by (auto simp: record_throttle_eq ac_wf_def Let_def)

text \<open>
  A throttling event halves the ceiling, rounding down, but never below the configured
  minimum; the float product of the code is exact for every ceiling a controller can have, and
  the controller stays within its bounds.
\<close>

theorem throttle_halves:
  assumes "ac_wf c"
  shows "fst (record_throttle c) = max (ac_min_concurrency c) (ac_current_concurrency c div 2)
    \<and> ac_wf (snd (record_throttle c))"
  using assms by (simp add: record_throttle_wf) (simp add: record_throttle_eq Let_def)

theorem throttle_halves_witness:
  "fst (record_throttle (new_controller ''c1'' 1 16 9 5)) = 4"
  using throttle_halves[of "new_controller ''c1'' 1 16 9 5"] by (simp add: ac_wf_def new_controller_def)

lemma record_success_wf: "ac_wf c \<Longrightarrow> ac_wf (snd (record_success c))"
  by (auto simp: record_success_def ac_wf_def Let_def)

definition successes :: "nat \<Rightarrow> controller \<Rightarrow> controller" where
  "successes k c = ((snd \<circ> record_success) ^^ k) c"

text \<open>
  Recovery is gradual: \<open>k\<close> successes in a row raise the ceiling by one for every full streak
  of \<open>recovery_success_threshold\<close> successes (the current partial streak counted), up to the
  maximum and no further.
\<close>

theorem recovery_is_additive:
  assumes "ac_wf c"
  shows "ac_current_concurrency (successes k c) =
    min (ac_max_concurrency c)
        (ac_current_concurrency c + (ac_consecutive_successes c + int k) div ac_recovery_success_threshold c)"
proof -
  let ?t = "ac_recovery_success_threshold c" and ?s = "ac_consecutive_successes c"
  have t: "0 < ?t" using assms by (simp add: ac_wf_def)
  have "ac_wf (successes k c) \<and> ac_max_concurrency (successes k c) = ac_max_concurrency c
    \<and> ac_recovery_success_threshold (successes k c) = ?t
    \<and> ac_consecutive_successes (successes k c) = (?s + int k) mod ?t
    \<and> ac_current_concurrency (successes k c) =
        min (ac_max_concurrency c) (ac_current_concurrency c + (?s + int k) div ?t)"
  proof (induction k)
    case 0
    have "?s div ?t = 0" "?s mod ?t = ?s" using assms by (auto simp: ac_wf_def)
    with assms show ?case by (simp add: successes_def ac_wf_def)
  next
    case (Suc k)
    let ?c = "successes k c" and ?n = "?s + int k"
    have step: "successes (Suc k) c = snd (record_success ?c)" by (simp add: successes_def)
    have wf: "ac_wf (successes (Suc k) c)" using Suc by (simp add: step record_success_wf)
    have le: "?n mod ?t < ?t" "0 \<le> ?n mod ?t" using t by simp_all
    have n: "?s + int (Suc k) = ?t * (?n div ?t) + (?n mod ?t + 1)"
      using div_mult_mod_eq[of ?n ?t] by (simp add: algebra_simps)
    show ?case
    proof (cases "?n mod ?t + 1 = ?t")
      case True
      then have "?s + int (Suc k) = ?t * (?n div ?t + 1)" using n by (simp add: algebra_simps)
      then have "(?s + int (Suc k)) div ?t = ?n div ?t + 1" "(?s + int (Suc k)) mod ?t = 0"
        using t by simp_all
      with Suc True wf show ?thesis by (auto simp: step record_success_def Let_def min_def)
    next
      case False
      then have "0 \<le> ?n mod ?t + 1" "?n mod ?t + 1 < ?t" using le by linarith+
      then have "(?s + int (Suc k)) div ?t = ?n div ?t" "(?s + int (Suc k)) mod ?t = ?n mod ?t + 1"
        using n int_div_pos_eq int_mod_pos_eq by blast+
      with Suc \<open>?n mod ?t + 1 < ?t\<close> wf show ?thesis by (auto simp: step record_success_def Let_def)
    qed
  qed
  then show ?thesis by simp
qed

theorem recovery_is_additive_witness:
  "ac_current_concurrency (successes 12 (new_controller ''c1'' 1 16 8 5)) = 10"
  using recovery_is_additive[of "new_controller ''c1'' 1 16 8 5" 12] by (simp add: ac_wf_def new_controller_def)

section \<open>Leases\<close>

text \<open>
  \<open>ConcurrencyLease\<close> as the protocol of its clients: entering polls until a slot is granted or the
  wait times out (\<open>TimeoutError\<close>, nothing acquired), leaving releases exactly once. The second
  component is the set of clients inside their \<open>with\<close> block.
\<close>

inductive lease_step :: "controller \<times> 'i set \<Rightarrow> controller \<times> 'i set \<Rightarrow> bool" where
  enter_sync: "i \<notin> H \<Longrightarrow> acquire_slot_sync_poll e now c = (Granted, c') \<Longrightarrow> lease_step (c, H) (c', insert i H)"
| poll_sync: "i \<notin> H \<Longrightarrow> acquire_slot_sync_poll e now c = (r, c') \<Longrightarrow> r \<noteq> Granted \<Longrightarrow> lease_step (c, H) (c', H)"
| enter_async: "i \<notin> H \<Longrightarrow> acquire_slot_async_poll tmo w c = (Granted, c') \<Longrightarrow> lease_step (c, H) (c', insert i H)"
| poll_async: "i \<notin> H \<Longrightarrow> acquire_slot_async_poll tmo w c = (r, c') \<Longrightarrow> r \<noteq> Granted \<Longrightarrow> lease_step (c, H) (c', H)"
| leave: "i \<in> H \<Longrightarrow> lease_step (c, H) (release_slot_sync c, H - {i})"
| throttle: "lease_step (c, H) (snd (record_throttle c), H)"
| success: "lease_step (c, H) (snd (record_success c), H)"

definition lease_inv :: "controller \<times> 'i set \<Rightarrow> bool" where
  "lease_inv s \<longleftrightarrow> ac_wf (fst s) \<and> finite (snd s) \<and> ac_active_requests (fst s) = int (card (snd s))"

lemma sync_poll_cases:
  "acquire_slot_sync_poll e now c = (r, c') \<Longrightarrow>
   (r = Granted \<and> ac_active_requests c < ac_current_concurrency c
      \<and> c' = c\<lparr>ac_active_requests := ac_active_requests c + 1\<rparr>) \<or> (r \<noteq> Granted \<and> c' = c)"
  by (auto simp: acquire_slot_sync_poll_def Let_def split: if_splits)

lemma async_poll_cases:
  "acquire_slot_async_poll tmo w c = (r, c') \<Longrightarrow>
   (r = Granted \<and> ac_active_requests c < ac_current_concurrency c
      \<and> c' = c\<lparr>ac_active_requests := ac_active_requests c + 1\<rparr>) \<or> (r \<noteq> Granted \<and> c' = c)"
  by (auto simp: acquire_slot_async_poll_def split: if_splits)

lemma lease_step_inv: "lease_step s t \<Longrightarrow> lease_inv s \<Longrightarrow> lease_inv t"
proof (induction rule: lease_step.induct)
  case (leave i H c)
  then have "0 < card H" by (auto simp: lease_inv_def card_gt_0_iff)
  with leave show ?case by (auto simp: lease_inv_def release_slot_sync_def ac_wf_def)
next
  case (throttle c H)
  moreover have "ac_active_requests (snd (record_throttle c)) = ac_active_requests c"
    by (simp add: record_throttle_def Let_def)
  ultimately show ?case by (simp add: lease_inv_def record_throttle_wf)
next
  case (success c H)
  moreover have "ac_active_requests (snd (record_success c)) = ac_active_requests c"
    by (simp add: record_success_def Let_def)
  ultimately show ?case by (simp add: lease_inv_def record_success_wf)
qed (auto simp: lease_inv_def ac_wf_def dest!: sync_poll_cases async_poll_cases)

text \<open>
  Along every interleaving of lease entries, polls, exits, successes and throttles, the
  number of active requests is the number of clients inside their lease, never more than the
  maximum concurrency: no slot is leaked and none is released twice.
\<close>

theorem leases_account_for_slots:
  assumes "lease_step\<^sup>*\<^sup>* (c, {}) (c', H)" and "ac_wf c" and "ac_active_requests c = 0"
  shows "ac_active_requests c' = int (card H) \<and> int (card H) \<le> ac_max_concurrency c'"
proof -
  have "lease_inv (c, {})" using assms(2,3) by (simp add: lease_inv_def)
  with assms(1) have "lease_inv (c', H)"
    by (induction rule: rtranclp_induct) (auto intro: lease_step_inv)
  then show ?thesis by (auto simp: lease_inv_def ac_wf_def)
qed

theorem leases_account_for_slots_witness:
  "lease_step\<^sup>*\<^sup>* (new_controller ''c1'' 1 16 8 5, {})
     ((new_controller ''c1'' 1 16 8 5)\<lparr>ac_active_requests := 1\<rparr>, {0 :: nat}) \<and> int (card {0 :: nat}) \<le> 16"
proof -
  let ?c = "new_controller ''c1'' 1 16 8 5"
  let ?c' = "?c\<lparr>ac_active_requests := 1\<rparr>"
  have "lease_step (?c, {}) (?c', insert (0 :: nat) {})"
    by (rule lease_step.enter_sync[of _ _ 30 0]) (simp_all add: acquire_slot_sync_poll_def new_controller_def)
  then have "lease_step\<^sup>*\<^sup>* (?c, {}) (?c', {0 :: nat})" by simp
  then show ?thesis using leases_account_for_slots[of ?c ?c' "{0 :: nat}"]
    by (simp add: ac_wf_def new_controller_def)
qed

end
