(* ===== verification/Worker_Locks.thy ===== *)
theory Worker_Locks
  imports Numerics
begin

text \<open>
  \<open>workers/cloudlens_workers/locking.py\<close>: the task lock and the Beat leader lock.

  Redis is a parameter: \<open>redis_ops\<close> are the three commands the module sends (\<open>SET NX EX\<close>,
  \<open>SET XX EX\<close>, and the compare-and-delete script), each returning \<open>None\<close> when the client raises;
  an absent client is \<open>None\<close> as well. The process-local fallback table is the state \<open>mem\<close>. What
  both locks promise is the interface \<open>lock_service\<close>, whose client lemma is mutual exclusion; it
  is interpreted for both locks running on the fallback table.
\<close>

section \<open>State\<close>

type_synonym lock_table = "(string, string \<times> rat) dict"

record 'r redis_ops =
  rd_set_nx :: "string \<Rightarrow> string \<Rightarrow> int \<Rightarrow> 'r \<Rightarrow> (bool \<times> 'r) option"
  rd_set_xx :: "string \<Rightarrow> string \<Rightarrow> int \<Rightarrow> 'r \<Rightarrow> (bool \<times> 'r) option"
  rd_del_if_eq :: "string \<Rightarrow> string \<Rightarrow> 'r \<Rightarrow> 'r option"

record 'r lock_world =
  lw_redis :: 'r
  lw_mem :: lock_table

record task_lock =
  tl_lock_key :: string
  tl_token :: string
  tl_ttl_seconds :: int
  tl_acquired :: bool

record leader_lock =
  ll_lock_key :: string
  ll_instance_id :: string
  ll_ttl_seconds :: int
  ll_is_leader :: bool

definition new_task_lock :: "string \<Rightarrow> string option \<Rightarrow> string \<Rightarrow> int \<Rightarrow> string \<Rightarrow> task_lock" where
  "new_task_lock tenant connector cap ttl token =
     \<lparr> tl_lock_key = ''lock:task:'' @ tenant @ '':'' @
         (case connector of Some c \<Rightarrow> (if c = [] then ''platform'' else c) | None \<Rightarrow> ''platform'') @ '':'' @ cap,
       tl_token = token, tl_ttl_seconds = ttl, tl_acquired = False \<rparr>"

definition new_leader_lock :: "string option \<Rightarrow> int \<Rightarrow> string \<Rightarrow> leader_lock" where
  "new_leader_lock key ttl inst =
     \<lparr> ll_lock_key = (if truthy key then the key else ''lock:cloudlens:beat_leader''),
       ll_instance_id = inst, ll_ttl_seconds = ttl, ll_is_leader = False \<rparr>"

section \<open>The in-memory fallback\<close>

definition mem_acquire :: "string \<Rightarrow> string \<Rightarrow> int \<Rightarrow> rat \<Rightarrow> lock_table \<Rightarrow> bool \<times> lock_table" where
  "mem_acquire key token ttl now m =
     (case dict_get m key of
        Some (held_token, expires_at) \<Rightarrow>
          if now < expires_at then (False, m) else (True, dict_set m key (token, fadd now (of_int ttl)))
      | None \<Rightarrow> (True, dict_set m key (token, fadd now (of_int ttl))))"

definition mem_release :: "string \<Rightarrow> string \<Rightarrow> lock_table \<Rightarrow> lock_table" where
  "mem_release key token m =
     (case dict_get m key of
        Some (held_token, _) \<Rightarrow> if held_token = token then dict_pop m key else m
      | None \<Rightarrow> m)"

definition mem_acquire_or_renew :: "string \<Rightarrow> string \<Rightarrow> int \<Rightarrow> rat \<Rightarrow> lock_table \<Rightarrow> bool \<times> lock_table" where
  "mem_acquire_or_renew key inst ttl now m =
     (case dict_get m key of
        Some (held_id, expires_at) \<Rightarrow>
          if held_id = inst then (True, dict_set m key (inst, fadd now (of_int ttl)))
          else if now < expires_at then (False, m)
          else (True, dict_set m key (inst, fadd now (of_int ttl)))
      | None \<Rightarrow> (True, dict_set m key (inst, fadd now (of_int ttl))))"

section \<open>The locks\<close>

definition task_acquire ::
  "'r redis_ops option \<Rightarrow> rat \<Rightarrow> task_lock \<Rightarrow> 'r lock_world \<Rightarrow> bool \<times> task_lock \<times> 'r lock_world" where
  "task_acquire redis now l w =
     (let fallback = (let (got, m) = mem_acquire (tl_lock_key l) (tl_token l) (tl_ttl_seconds l) now (lw_mem w)
                      in (got, l\<lparr>tl_acquired := got\<rparr>, w\<lparr>lw_mem := m\<rparr>))
      in case redis of
           None \<Rightarrow> fallback
         | Some r \<Rightarrow>
             (case rd_set_nx r (tl_lock_key l) (tl_token l) (tl_ttl_seconds l) (lw_redis w) of
                Some (res, st) \<Rightarrow> (res, l\<lparr>tl_acquired := res\<rparr>, w\<lparr>lw_redis := st\<rparr>)
              | None \<Rightarrow> fallback))"

definition task_release :: "'r redis_ops option \<Rightarrow> task_lock \<Rightarrow> 'r lock_world \<Rightarrow> task_lock \<times> 'r lock_world" where
  "task_release redis l w =
     (if \<not> tl_acquired l then (l, w)
      else let fallback = (l\<lparr>tl_acquired := False\<rparr>, w\<lparr>lw_mem := mem_release (tl_lock_key l) (tl_token l) (lw_mem w)\<rparr>)
           in case redis of
                None \<Rightarrow> fallback
              | Some r \<Rightarrow>
                  (case rd_del_if_eq r (tl_lock_key l) (tl_token l) (lw_redis w) of
                     Some st \<Rightarrow> (l\<lparr>tl_acquired := False\<rparr>, w\<lparr>lw_redis := st\<rparr>)
                   | None \<Rightarrow> fallback))"

definition leader_acquire_or_renew ::
  "'r redis_ops option \<Rightarrow> rat \<Rightarrow> leader_lock \<Rightarrow> 'r lock_world \<Rightarrow> bool \<times> leader_lock \<times> 'r lock_world" where
  "leader_acquire_or_renew redis now l w =
     (let k = ll_lock_key l; i = ll_instance_id l; ttl = ll_ttl_seconds l;
          fallback = (\<lambda>l w. let (got, m) = mem_acquire_or_renew k i ttl now (lw_mem w)
                            in (got, l\<lparr>ll_is_leader := got\<rparr>, w\<lparr>lw_mem := m\<rparr>));
          acquire_nx = (\<lambda>r l w. case rd_set_nx r k i ttl (lw_redis w) of
                            Some (res, st) \<Rightarrow> (res, l\<lparr>ll_is_leader := res\<rparr>, w\<lparr>lw_redis := st\<rparr>)
                          | None \<Rightarrow> fallback l w)
      in case redis of
           None \<Rightarrow> fallback l w
         | Some r \<Rightarrow>
             if ll_is_leader l
             then (case rd_set_xx r k i ttl (lw_redis w) of
                     Some (True, st) \<Rightarrow> (True, l\<lparr>ll_is_leader := True\<rparr>, w\<lparr>lw_redis := st\<rparr>)
                   | Some (False, st) \<Rightarrow> acquire_nx r (l\<lparr>ll_is_leader := False\<rparr>) (w\<lparr>lw_redis := st\<rparr>)
                   | None \<Rightarrow> fallback l w)
             else acquire_nx r l w)"

definition leader_release :: "'r redis_ops option \<Rightarrow> leader_lock \<Rightarrow> 'r lock_world \<Rightarrow> leader_lock \<times> 'r lock_world" where
  "leader_release redis l w =
     (if \<not> ll_is_leader l then (l, w)
      else let fallback = (l\<lparr>ll_is_leader := False\<rparr>,
                           w\<lparr>lw_mem := mem_release (ll_lock_key l) (ll_instance_id l) (lw_mem w)\<rparr>)
           in case redis of
                None \<Rightarrow> fallback
              | Some r \<Rightarrow>
                  (case rd_del_if_eq r (ll_lock_key l) (ll_instance_id l) (lw_redis w) of
                     Some st \<Rightarrow> (l\<lparr>ll_is_leader := False\<rparr>, w\<lparr>lw_redis := st\<rparr>)
                   | None \<Rightarrow> fallback))"

section \<open>What a lock service promises\<close>

text \<open>
  \<open>entry s k\<close> is the holder of \<open>k\<close> and the instant its lease ends. A request that meets a live
  lease of another holder is refused and changes nothing; a granted request installs a lease that
  ends a time to live from now; only the holder's own release removes a lease; other keys are not
  touched.
\<close>

datatype lock_event = LAcquire string string int rat | LRelease string string

fun lock_event_holder :: "lock_event \<Rightarrow> string" where
  "lock_event_holder (LAcquire k t ttl now) = t"
| "lock_event_holder (LRelease k t) = t"

fun lock_event_before :: "rat \<Rightarrow> lock_event \<Rightarrow> bool" where
  "lock_event_before e (LAcquire k t ttl now) \<longleftrightarrow> now < e"
| "lock_event_before e (LRelease k t) \<longleftrightarrow> True"

definition lock_step ::
  "(string \<Rightarrow> string \<Rightarrow> int \<Rightarrow> rat \<Rightarrow> 's \<Rightarrow> bool \<times> 's) \<Rightarrow> (string \<Rightarrow> string \<Rightarrow> 's \<Rightarrow> 's) \<Rightarrow> lock_event \<Rightarrow> 's \<Rightarrow> 's" where
  "lock_step acq rel e s =
     (case e of LAcquire k t ttl now \<Rightarrow> snd (acq k t ttl now s) | LRelease k t \<Rightarrow> rel k t s)"

locale lock_service =
  fixes entry :: "'s \<Rightarrow> string \<Rightarrow> (string \<times> rat) option"
    and acq :: "string \<Rightarrow> string \<Rightarrow> int \<Rightarrow> rat \<Rightarrow> 's \<Rightarrow> bool \<times> 's"
    and rel :: "string \<Rightarrow> string \<Rightarrow> 's \<Rightarrow> 's"
  assumes refused: "entry s k = Some (h, e) \<Longrightarrow> h \<noteq> t \<Longrightarrow> now < e \<Longrightarrow> acq k t ttl now s = (False, s)"
    and granted: "fst (acq k t ttl now s) \<Longrightarrow> entry (snd (acq k t ttl now s)) k = Some (t, fadd now (of_int ttl))"
    and free: "entry s k = None \<Longrightarrow> fst (acq k t ttl now s)"
    and acq_frame: "j \<noteq> k \<Longrightarrow> entry (snd (acq k t ttl now s)) j = entry s j"
    and rel_own: "entry s k = Some (t, e) \<Longrightarrow> entry (rel k t s) k = None"
    and rel_other: "entry s k = Some (h, e) \<Longrightarrow> h \<noteq> t \<Longrightarrow> entry (rel k t s) k = Some (h, e)"
    and rel_frame: "j \<noteq> k \<Longrightarrow> entry (rel k t s) j = entry s j"
begin

lemma lease_survives:
  assumes "entry s k = Some (h, e)"
    and "\<forall>ev \<in> set evs. lock_event_holder ev \<noteq> h \<and> lock_event_before e ev"
  shows "entry (fold (lock_step acq rel) evs s) k = Some (h, e)"
  using assms
proof (induction evs arbitrary: s)
  case (Cons ev evs)
  have "entry (lock_step acq rel ev s) k = Some (h, e)"
  proof (cases ev)
    case (LAcquire k' t ttl now)
    with Cons.prems show ?thesis
      using refused[of s k h e t now ttl] acq_frame[of k k' t ttl now s]
      by (cases "k = k'") (auto simp: lock_step_def)
  next
    case (LRelease k' t)
    with Cons.prems show ?thesis
      using rel_other[of s k h e t] rel_frame[of k k' t s] by (cases "k = k'") (auto simp: lock_step_def)
  qed
  with Cons show ?case by simp
qed simp

lemma mutual_exclusion:
  assumes "fst (acq k h ttl now s)"
    and "\<forall>ev \<in> set evs. lock_event_holder ev \<noteq> h \<and> lock_event_before (fadd now (of_int ttl)) ev"
    and "t \<noteq> h" and "now' < fadd now (of_int ttl)"
  shows "\<not> fst (acq k t ttl' now' (fold (lock_step acq rel) evs (snd (acq k h ttl now s))))"
  using lease_survives[OF granted[OF assms(1)] assms(2)] refused assms(3,4) by (metis fst_conv)

lemma released_is_free:
  assumes "entry s k = Some (h, e)" shows "fst (acq k t ttl now (rel k h s))"
  using rel_own[OF assms] by (rule free)

end

text \<open>
  The two locks as lock services while no Redis client is available: a call is made through a lock
  object of the given key and holder; \<open>release\<close> through one that has acquired.
\<close>

definition task_acq :: "string \<Rightarrow> string \<Rightarrow> int \<Rightarrow> rat \<Rightarrow> 'r lock_world \<Rightarrow> bool \<times> 'r lock_world" where
  "task_acq k t ttl now w =
     (let (got, l, w') = task_acquire None now
            \<lparr>tl_lock_key = k, tl_token = t, tl_ttl_seconds = ttl, tl_acquired = False\<rparr> w in (got, w'))"

definition task_rel :: "string \<Rightarrow> string \<Rightarrow> 'r lock_world \<Rightarrow> 'r lock_world" where
  "task_rel k t w =
     snd (task_release None \<lparr>tl_lock_key = k, tl_token = t, tl_ttl_seconds = 300, tl_acquired = True\<rparr> w)"

definition leader_acq :: "string \<Rightarrow> string \<Rightarrow> int \<Rightarrow> rat \<Rightarrow> 'r lock_world \<Rightarrow> bool \<times> 'r lock_world" where
  "leader_acq k t ttl now w =
     (let (got, l, w') = leader_acquire_or_renew None now
            \<lparr>ll_lock_key = k, ll_instance_id = t, ll_ttl_seconds = ttl, ll_is_leader = False\<rparr> w in (got, w'))"

definition leader_rel :: "string \<Rightarrow> string \<Rightarrow> 'r lock_world \<Rightarrow> 'r lock_world" where
  "leader_rel k t w =
     snd (leader_release None \<lparr>ll_lock_key = k, ll_instance_id = t, ll_ttl_seconds = 15, ll_is_leader = True\<rparr> w)"

definition mem_entry :: "'r lock_world \<Rightarrow> string \<Rightarrow> (string \<times> rat) option" where
  "mem_entry w k = dict_get (lw_mem w) k"

lemmas fallback_defs = mem_entry_def mem_acquire_def mem_release_def mem_acquire_or_renew_def

interpretation task_srv: lock_service mem_entry task_acq task_rel
  by unfold_locales
     (auto simp: fallback_defs task_acq_def task_rel_def task_acquire_def task_release_def Let_def
        split: option.splits if_splits)

interpretation leader_srv: lock_service mem_entry leader_acq leader_rel
  by unfold_locales
     (auto simp: fallback_defs leader_acq_def leader_rel_def leader_acquire_or_renew_def leader_release_def Let_def
        split: option.splits if_splits)

text \<open>
  One active task per connector and capability, in the fallback mode: once a task lock is
  granted, and until its time to live has elapsed, no lock object with another token gets the same
  key, whatever acquisitions and releases other lock objects make in between.
\<close>

theorem task_lock_exclusive:
  assumes "fst (task_acq k h ttl now w)"
    and "\<forall>ev \<in> set evs. lock_event_holder ev \<noteq> h \<and> lock_event_before (fadd now (of_int ttl)) ev"
    and "t \<noteq> h" and "now' < fadd now (of_int ttl)"
  shows "\<not> fst (task_acq k t ttl' now' (fold (lock_step task_acq task_rel) evs (snd (task_acq k h ttl now w))))"
  using assms by (rule task_srv.mutual_exclusion)

theorem task_lock_exclusive_witness:
  "\<not> fst (task_acq ''lock:task:t1:c1:sync'' ''B'' 300 5 (lock_step task_acq task_rel (LRelease ''lock:task:t1:c1:sync'' ''B'')
      (snd (task_acq ''lock:task:t1:c1:sync'' ''A'' 300 0 \<lparr>lw_redis = (), lw_mem = []\<rparr>))))"
proof -
  have "fadd 0 (of_int 300) = 300" using fl_of_int[of 300] by simp
  moreover have "fst (task_acq ''lock:task:t1:c1:sync'' ''A'' 300 0 \<lparr>lw_redis = (), lw_mem = []\<rparr>)" by code_simp
  ultimately show ?thesis
    using task_lock_exclusive[of "''lock:task:t1:c1:sync''" "''A''" 300 0 "\<lparr>lw_redis = (), lw_mem = []\<rparr>"
        "[LRelease ''lock:task:t1:c1:sync'' ''B'']" "''B''" 5 300] by simp
qed

text \<open>
  A single Beat leader in the fallback mode: the leader keeps its leadership, renewals
  included, against every other instance until its lease ends; after it steps down, the next
  instance that asks becomes leader.
\<close>

theorem beat_leader_exclusive:
  assumes "fst (leader_acq k h ttl now w)"
    and "\<forall>ev \<in> set evs. lock_event_holder ev \<noteq> h \<and> lock_event_before (fadd now (of_int ttl)) ev"
    and "t \<noteq> h" and "now' < fadd now (of_int ttl)"
  shows "(let w' = fold (lock_step leader_acq leader_rel) evs (snd (leader_acq k h ttl now w)) in
     \<not> fst (leader_acq k t ttl' now' w') \<and> fst (leader_acq k h ttl' now' w')
     \<and> fst (leader_acq k t ttl' now' (leader_rel k h w')))"
proof -
  let ?w = "fold (lock_step leader_acq leader_rel) evs (snd (leader_acq k h ttl now w))"
  have e: "mem_entry ?w k = Some (h, fadd now (of_int ttl))"
    by (rule leader_srv.lease_survives[OF leader_srv.granted[OF assms(1)] assms(2)])
  then have "fst (leader_acq k h ttl' now' ?w)"
    by (simp add: leader_acq_def leader_acquire_or_renew_def fallback_defs)
  with leader_srv.mutual_exclusion[OF assms] leader_srv.released_is_free[OF e] show ?thesis
    by (simp add: Let_def)
qed

theorem beat_leader_exclusive_witness:
  "\<not> fst (leader_acq ''lock:cloudlens:beat_leader'' ''beat-b'' 15 5
      (snd (leader_acq ''lock:cloudlens:beat_leader'' ''beat-a'' 15 0 \<lparr>lw_redis = (), lw_mem = []\<rparr>)))"
proof -
  have "fadd 0 (of_int 15) = 15" using fl_of_int[of 15] by simp
  moreover have "fst (leader_acq ''lock:cloudlens:beat_leader'' ''beat-a'' 15 0 \<lparr>lw_redis = (), lw_mem = []\<rparr>)"
    by code_simp
  ultimately show ?thesis
    using beat_leader_exclusive[of "''lock:cloudlens:beat_leader''" "''beat-a''" 15 0 "\<lparr>lw_redis = (), lw_mem = []\<rparr>"
        "[]" "''beat-b''" 5 15] by (simp add: Let_def)
qed

section \<open>Leadership over Redis\<close>

text \<open>
  The documented behaviour of \<open>SET key value XX\<close>: when the key exists, whatever its value, the
  value is overwritten. \<open>holder\<close> reads the value of a key.
\<close>

definition set_xx_overwrites :: "'r redis_ops \<Rightarrow> ('r \<Rightarrow> string \<Rightarrow> string option) \<Rightarrow> bool" where
  "set_xx_overwrites r holder \<longleftrightarrow>
     (\<forall>k v ttl s. holder s k \<noteq> None \<longrightarrow> (\<exists>s'. rd_set_xx r k v ttl s = Some (True, s') \<and> holder s' k = Some v))"

text \<open>
  Renewal over Redis does not compare the holder: an instance whose lease has run out, and
  whose key another instance has since acquired, is told that it is still leader and takes the key
  over, while the other instance still counts itself leader. Two instances lead at once.
\<close>

theorem stale_leader_takes_over:
  assumes "set_xx_overwrites r holder"
    and "ll_is_leader a" and "ll_is_leader b" and "ll_instance_id a \<noteq> ll_instance_id b"
    and "ll_lock_key a = ll_lock_key b" and "holder (lw_redis w) (ll_lock_key b) = Some (ll_instance_id b)"
  shows "\<exists>a' w'. leader_acquire_or_renew (Some r) now a w = (True, a', w') \<and> ll_is_leader a' \<and> ll_is_leader b
     \<and> holder (lw_redis w') (ll_lock_key b) = Some (ll_instance_id a)"
proof -
  obtain s' where "rd_set_xx r (ll_lock_key a) (ll_instance_id a) (ll_ttl_seconds a) (lw_redis w) = Some (True, s')"
    and "holder s' (ll_lock_key a) = Some (ll_instance_id a)"
    using assms unfolding set_xx_overwrites_def by (metis option.distinct(1))
  with assms(2-5) show ?thesis by (simp add: leader_acquire_or_renew_def Let_def)
qed

text \<open>A Redis without expiry, as a dictionary.\<close>

definition dict_redis :: "(string, string) dict redis_ops" where
  "dict_redis = \<lparr>
     rd_set_nx = \<lambda>k v ttl s. Some (if dict_get s k = None then (True, dict_set s k v) else (False, s)),
     rd_set_xx = \<lambda>k v ttl s. Some (if dict_get s k = None then (False, s) else (True, dict_set s k v)),
     rd_del_if_eq = \<lambda>k v s. Some (if dict_get s k = Some v then dict_pop s k else s) \<rparr>"

lemma dict_redis_set_xx: "set_xx_overwrites dict_redis dict_get"
  by (auto simp: set_xx_overwrites_def dict_redis_def)

theorem stale_leader_takes_over_witness:
  "\<exists>a' w'. leader_acquire_or_renew (Some dict_redis) 20
      \<lparr>ll_lock_key = ''k'', ll_instance_id = ''beat-a'', ll_ttl_seconds = 15, ll_is_leader = True\<rparr>
      \<lparr>lw_redis = [(''k'', ''beat-b'')], lw_mem = []\<rparr> = (True, a', w')
    \<and> dict_get (lw_redis w') ''k'' = Some ''beat-a''"
  using stale_leader_takes_over[OF dict_redis_set_xx,
      of "\<lparr>ll_lock_key = ''k'', ll_instance_id = ''beat-a'', ll_ttl_seconds = 15, ll_is_leader = True\<rparr>"
         "\<lparr>ll_lock_key = ''k'', ll_instance_id = ''beat-b'', ll_ttl_seconds = 15, ll_is_leader = True\<rparr>"
         "\<lparr>lw_redis = [(''k'', ''beat-b'')], lw_mem = []\<rparr>" 20]
  by auto

end
