(* ===== verification/Thresholds.thy ===== *)
theory Thresholds
  imports Numerics "HOL-Library.Option_ord" "HOL-Library.Multiset"
begin

text \<open>
  \<open>domain/thresholds/models.py\<close>, \<open>defaults.py\<close> and \<open>precedence.py\<close>: severity bands and their
  validation, rules, overrides, and the resolution of the threshold that applies to an entity.

  A \<open>Decimal\<close> bound is a rational, an instant a number of microseconds since the epoch (UTC). The
  sort key \<open>-Infinity\<close> of an unbounded band is \<open>None\<close>, the least element of \<open>rat option\<close>. An
  exception carries the arguments that identify its cause, not the rendered message.
\<close>

section \<open>States, bases, bands\<close>

datatype threshold_state = NORMAL | WARNING | HIGH | CRITICAL | INFORMATIONAL | UNKNOWN

datatype threshold_basis = ABSOLUTE_VALUE | PERCENTAGE | BUDGET_UTILISATION | FORECAST | RUNTIME
  | VOLUME | GROWTH_PERCENTAGE | VARIANCE_FROM_BASELINE | HISTORICAL_AVERAGE | SEASONAL_BASELINE
  | QUOTA_HEADROOM

datatype threshold_source_type = TEMPORARY_OVERRIDE | ADMIN_OVERRIDE | LOCAL | INHERITED_ANCESTOR
  | TENANT_DEFAULT

fun get_color_hex :: "threshold_state \<Rightarrow> string" where
  "get_color_hex NORMAL = ''#10b981''"
| "get_color_hex WARNING = ''#f59e0b''"
| "get_color_hex HIGH = ''#f97316''"
| "get_color_hex CRITICAL = ''#ef4444''"
| "get_color_hex INFORMATIONAL = ''#3b82f6''"
| "get_color_hex UNKNOWN = ''#94a3b8''"

definition is_breach :: "threshold_state \<Rightarrow> bool" where
  "is_breach s \<longleftrightarrow> s = WARNING \<or> s = HIGH \<or> s = CRITICAL"

definition is_compliant :: "threshold_state \<Rightarrow> bool" where
  "is_compliant s \<longleftrightarrow> s = NORMAL \<or> s = INFORMATIONAL"

record band =
  bd_id :: string
  bd_state :: threshold_state
  bd_name :: string
  bd_lower_bound :: "rat option"
  bd_upper_bound :: "rat option"
  bd_lower_inclusive :: bool
  bd_upper_inclusive :: bool
  bd_exit_threshold_lower :: "rat option"
  bd_exit_threshold_upper :: "rat option"
  bd_description :: string

datatype threshold_error =
    BandDiscontinuityException string string
  | BandOverlapException string string
  | ThresholdOverrideReasonTooShortException nat nat
  | ThresholdValidationError string

fun check_adjacent :: "band list \<Rightarrow> threshold_error + unit" where
  "check_adjacent (c # n # bs) =
     (case (bd_upper_bound c, bd_lower_bound n) of
        (None, _) \<Rightarrow> Inl (BandOverlapException (bd_name c) (bd_name n))
      | (Some u, None) \<Rightarrow> Inl (BandOverlapException (bd_name c) (bd_name n))
      | (Some u, Some l) \<Rightarrow>
          if u > l then Inl (BandOverlapException (bd_name c) (bd_name n))
          else if u < l then Inl (BandDiscontinuityException (bd_name c) (bd_name n))
          else check_adjacent (n # bs))"
| "check_adjacent _ = Inr ()"

definition validate_contiguous_non_overlapping_bands :: "band list \<Rightarrow> threshold_error + unit" where
  "validate_contiguous_non_overlapping_bands bands =
     (if bands = [] then Inl (BandDiscontinuityException ''empty'' ''empty'')
      else check_adjacent (sort_key bd_lower_bound bands))"

section \<open>Rules and overrides\<close>

record anti_flapping_config =
  af_dwell_evaluations :: int
  af_hysteresis_margin_pct :: rat
  af_cooldown_seconds :: int
  af_grouping_storm_threshold :: int
  af_enable_data_quality_gate :: bool

definition anti_flapping_valid :: "anti_flapping_config \<Rightarrow> bool" where
  "anti_flapping_valid a \<longleftrightarrow> 1 \<le> af_dwell_evaluations a \<and> 0 \<le> af_hysteresis_margin_pct a
     \<and> 0 \<le> af_cooldown_seconds a \<and> 2 \<le> af_grouping_storm_threshold a"

record threshold_rule =
  tr_id :: string
  tr_tenant_id :: string
  tr_name :: string
  tr_description :: string
  tr_basis :: threshold_basis
  tr_bands :: "band list"
  tr_anti_flapping :: anti_flapping_config
  tr_scope_id :: "string option"
  tr_service_id :: "string option"
  tr_resource_id :: "string option"
  tr_environment :: "string option"
  tr_is_tenant_default :: bool
  tr_unit :: string

definition construct_rule :: "threshold_rule \<Rightarrow> threshold_error + threshold_rule" where
  "construct_rule r =
     (if \<not> anti_flapping_valid (tr_anti_flapping r) then Inl (ThresholdValidationError ''anti_flapping'')
      else try_bind (validate_contiguous_non_overlapping_bands (tr_bands r)) (\<lambda>_. Inr r))"

record threshold_override =
  to_id :: string
  to_tenant_id :: string
  to_target_id :: string
  to_source_type :: threshold_source_type
  to_custom_bands :: "band list option"
  to_reason :: string
  to_created_by :: string
  to_approved_by :: "string option"
  to_valid_from :: int
  to_expires_at :: "int option"
  to_is_active :: bool

definition construct_override :: "threshold_override \<Rightarrow> threshold_error + threshold_override" where
  "construct_override v =
     (let trimmed = strip (to_reason v) in
      if length trimmed < 20 then Inl (ThresholdOverrideReasonTooShortException (length trimmed) 20)
      else let v' = v\<lparr>to_reason := trimmed\<rparr> in
           if to_source_type v' = TEMPORARY_OVERRIDE \<and> to_expires_at v' = None
           then Inl (ThresholdValidationError ''expires_at'')
           else case to_custom_bands v' of
                  Some (b # bs) \<Rightarrow> try_bind (validate_contiguous_non_overlapping_bands (b # bs)) (\<lambda>_. Inr v')
                | _ \<Rightarrow> Inr v')"

definition is_expired :: "int \<Rightarrow> threshold_override \<Rightarrow> bool" where
  "is_expired as_of v = (case to_expires_at v of None \<Rightarrow> False | Some e \<Rightarrow> as_of \<ge> e)"

section \<open>The default budget rule\<close>

text \<open>Band identifiers are random; they are an argument.\<close>

definition budget_band :: "string \<Rightarrow> threshold_state \<Rightarrow> string \<Rightarrow> rat \<Rightarrow> rat option \<Rightarrow> rat option \<Rightarrow> string \<Rightarrow> band" where
  "budget_band i st nm lo up ex desc =
     \<lparr> bd_id = i, bd_state = st, bd_name = nm, bd_lower_bound = Some lo, bd_upper_bound = up,
       bd_lower_inclusive = True, bd_upper_inclusive = False, bd_exit_threshold_lower = ex,
       bd_exit_threshold_upper = None, bd_description = desc \<rparr>"

definition create_configurable_budget_bands ::
  "string \<times> string \<times> string \<times> string \<Rightarrow> rat \<Rightarrow> rat \<Rightarrow> rat \<Rightarrow> rat \<Rightarrow> band list" where
  "create_configurable_budget_bands ids normal_upper warning_upper high_upper hysteresis_pct =
     (case ids of (i1, i2, i3, i4) \<Rightarrow>
      [budget_band i1 NORMAL ''Normal Consumption'' 0 (Some normal_upper) None
         ''Actual consumption is healthy and within nominal budget boundaries.'',
       budget_band i2 WARNING ''Warning Threshold'' normal_upper (Some warning_upper)
         (Some (dsub normal_upper hysteresis_pct)) ''Consumption is approaching budget allocation limits.'',
       budget_band i3 HIGH ''High Burn Rate'' warning_upper (Some high_upper)
         (Some (dsub warning_upper hysteresis_pct))
         ''High budget burn rate; exhaustion imminent without intervention.'',
       budget_band i4 CRITICAL ''Critical Overspend'' high_upper None
         (Some (dsub high_upper hysteresis_pct))
         ''Budget limit fully exhausted (>= 100%). Overspend alert in effect.''])"

definition create_tenant_default_budget_rule ::
  "string \<times> string \<times> string \<times> string \<Rightarrow> string \<Rightarrow> rat \<Rightarrow> rat \<Rightarrow> rat \<Rightarrow> int \<Rightarrow> int \<Rightarrow> threshold_error + threshold_rule" where
  "create_tenant_default_budget_rule ids tenant normal_upper warning_upper high_upper cooldown dwell =
     construct_rule
       \<lparr> tr_id = ''thr-default-budget-'' @ tenant, tr_tenant_id = tenant,
         tr_name = ''Tenant Default Budget Threshold Rule'',
         tr_description = ''Standard 4-tier budget consumption threshold bands with anti-flapping.'',
         tr_basis = BUDGET_UTILISATION,
         tr_bands = create_configurable_budget_bands ids normal_upper warning_upper high_upper 2,
         tr_anti_flapping = \<lparr> af_dwell_evaluations = dwell, af_hysteresis_margin_pct = 2,
           af_cooldown_seconds = cooldown, af_grouping_storm_threshold = 5, af_enable_data_quality_gate = True \<rparr>,
         tr_scope_id = None, tr_service_id = None, tr_resource_id = None, tr_environment = None,
         tr_is_tenant_default = True, tr_unit = ''%'' \<rparr>"

section \<open>Precedence\<close>

record resolved_threshold =
  rs_rule :: threshold_rule
  rs_bands :: "band list"
  rs_source_type :: threshold_source_type
  rs_source_id :: string
  rs_source_display :: string
  rs_active_override :: "threshold_override option"

definition quoted :: "string \<Rightarrow> string" where
  "quoted s = CHR 0x27 # s @ [CHR 0x27]"

definition override_applies ::
  "threshold_source_type \<Rightarrow> string \<Rightarrow> string option \<Rightarrow> int \<Rightarrow> threshold_override \<Rightarrow> bool" where
  "override_applies st entity scope now v \<longleftrightarrow>
     to_is_active v \<and> to_source_type v = st \<and> (to_target_id v = entity \<or> Some (to_target_id v) = scope)
     \<and> \<not> is_expired now v"

definition override_bands :: "threshold_override \<Rightarrow> threshold_rule \<Rightarrow> band list" where
  "override_bands v dflt = (case to_custom_bands v of Some (b # bs) \<Rightarrow> b # bs | _ \<Rightarrow> tr_bands dflt)"

definition from_rule :: "threshold_source_type \<Rightarrow> string \<Rightarrow> threshold_rule \<Rightarrow> resolved_threshold" where
  "from_rule st display r =
     \<lparr> rs_rule = r, rs_bands = tr_bands r, rs_source_type = st, rs_source_id = tr_id r,
       rs_source_display = display, rs_active_override = None \<rparr>"

definition from_override :: "string \<Rightarrow> threshold_rule \<Rightarrow> threshold_override \<Rightarrow> resolved_threshold" where
  "from_override display dflt v =
     \<lparr> rs_rule = dflt, rs_bands = override_bands v dflt, rs_source_type = to_source_type v,
       rs_source_id = to_id v, rs_source_display = display, rs_active_override = Some v \<rparr>"

definition local_match :: "threshold_basis \<Rightarrow> string \<Rightarrow> threshold_rule \<Rightarrow> bool" where
  "local_match basis entity r \<longleftrightarrow> tr_basis r = basis \<and> tr_resource_id r = Some entity"

definition scope_match :: "threshold_basis \<Rightarrow> string option \<Rightarrow> threshold_rule \<Rightarrow> bool" where
  "scope_match basis scope r \<longleftrightarrow> truthy scope \<and> tr_basis r = basis \<and> tr_scope_id r = scope"

definition service_match :: "threshold_basis \<Rightarrow> string option \<Rightarrow> threshold_rule \<Rightarrow> bool" where
  "service_match basis service r \<longleftrightarrow> truthy service \<and> tr_basis r = basis \<and> tr_service_id r = service"

definition environment_match :: "threshold_basis \<Rightarrow> string option \<Rightarrow> threshold_rule \<Rightarrow> bool" where
  "environment_match basis env r \<longleftrightarrow> truthy env \<and> tr_basis r = basis \<and> truthy (tr_environment r)
     \<and> lower (strip (the (tr_environment r))) = lower (strip (the env))"

definition default_match :: "threshold_basis \<Rightarrow> threshold_rule \<Rightarrow> bool" where
  "default_match basis r \<longleftrightarrow> tr_basis r = basis \<and> tr_is_tenant_default r"

definition resolve ::
  "string \<Rightarrow> threshold_basis \<Rightarrow> string option \<Rightarrow> string option \<Rightarrow> string option \<Rightarrow> threshold_rule list
   \<Rightarrow> threshold_override list \<Rightarrow> threshold_rule \<Rightarrow> int \<Rightarrow> resolved_threshold" where
  "resolve entity basis scope service env rules overrides dflt now =
    (case find (override_applies TEMPORARY_OVERRIDE entity scope now) overrides of
       Some v \<Rightarrow> from_override (''Temporary override '' @ quoted (to_id v) @ '' on '' @ to_target_id v @
                    '' (Reason: '' @ to_reason v @ '')'') dflt v
     | None \<Rightarrow>
    (case find (override_applies ADMIN_OVERRIDE entity scope now) overrides of
       Some v \<Rightarrow> from_override (''Administrative override '' @ quoted (to_id v) @ '' on '' @ to_target_id v @
                    '' (Approved by: '' @ (if truthy (to_approved_by v) then the (to_approved_by v) else ''admin'') @ '')'') dflt v
     | None \<Rightarrow>
    (case find (local_match basis entity) rules of
       Some r \<Rightarrow> from_rule LOCAL (''Local rule '' @ quoted (tr_name r) @ '' attached to entity '' @ quoted entity) r
     | None \<Rightarrow>
    (case find (scope_match basis scope) rules of
       Some r \<Rightarrow> from_rule INHERITED_ANCESTOR (''Inherited from ancestor scope '' @ quoted (the scope) @ '' via rule '' @ quoted (tr_name r)) r
     | None \<Rightarrow>
    (case find (service_match basis service) rules of
       Some r \<Rightarrow> from_rule INHERITED_ANCESTOR (''Inherited from ancestor service '' @ quoted (the service) @ '' via rule '' @ quoted (tr_name r)) r
     | None \<Rightarrow>
    (case find (environment_match basis env) rules of
       Some r \<Rightarrow> from_rule INHERITED_ANCESTOR (''Inherited from environment tier '' @ quoted (the env) @ '' via rule '' @ quoted (tr_name r)) r
     | None \<Rightarrow>
    (case find (default_match basis) rules of
       Some r \<Rightarrow> from_rule TENANT_DEFAULT (''Tenant default rule '' @ quoted (tr_name r)) r
     | None \<Rightarrow> from_rule TENANT_DEFAULT (''Tenant default rule '' @ quoted (tr_name dflt)) dflt)))))))"

section \<open>Validated bands partition the axis\<close>

definition lower_ok :: "rat \<Rightarrow> band \<Rightarrow> bool" where
  "lower_ok v b = (case bd_lower_bound b of None \<Rightarrow> True
     | Some l \<Rightarrow> if bd_lower_inclusive b then v \<ge> l else v > l)"

definition upper_ok :: "rat \<Rightarrow> band \<Rightarrow> bool" where
  "upper_ok v b = (case bd_upper_bound b of None \<Rightarrow> True
     | Some u \<Rightarrow> if bd_upper_inclusive b then v \<le> u else v < u)"

definition in_band :: "rat \<Rightarrow> band \<Rightarrow> bool" where
  "in_band v b \<longleftrightarrow> lower_ok v b \<and> upper_ok v b"

definition half_open :: "band \<Rightarrow> bool" where
  "half_open b \<longleftrightarrow> bd_lower_inclusive b \<and> \<not> bd_upper_inclusive b"

lemmas band_simps = lower_ok_def upper_ok_def in_band_def half_open_def

declare band_simps [guard_simps]

lemma lower_ok_mono:
  "half_open a \<Longrightarrow> half_open b \<Longrightarrow> bd_lower_bound a \<le> bd_lower_bound b \<Longrightarrow> lower_ok v b \<Longrightarrow> lower_ok v a"
  by (auto simp: guard_simps split: option.splits)

lemma below_first_band:
  assumes "sorted (map bd_lower_bound bs)" and "\<forall>b \<in> set bs. half_open b"
    and "bs \<noteq> []" and "\<not> lower_ok v (hd bs)"
  shows "filter (in_band v) bs = []"
  using assms lower_ok_mono[of "hd bs"] by (cases bs) (fastforce simp: filter_empty_conv in_band_def)+

lemma chain_covers_once:
  "check_adjacent bs = Inr () \<Longrightarrow> sorted (map bd_lower_bound bs) \<Longrightarrow> \<forall>b \<in> set bs. half_open b \<Longrightarrow>
   bs \<noteq> [] \<Longrightarrow> lower_ok v (hd bs) \<Longrightarrow> bd_upper_bound (last bs) = None \<Longrightarrow>
   length (filter (in_band v) bs) = 1"
proof (induction bs rule: check_adjacent.induct)
  case (1 c n bs)
  then obtain u where u: "bd_upper_bound c = Some u" "bd_lower_bound n = Some u"
    and rest: "check_adjacent (n # bs) = Inr ()"
    by (auto split: option.splits if_splits)
  show ?case
  proof (cases "v < u")
    case True
    then have "filter (in_band v) (n # bs) = []"
      using "1.prems" u by (intro below_first_band) (auto simp: guard_simps)
    moreover have "in_band v c" using "1.prems" True u by (simp add: guard_simps)
    ultimately show ?thesis by simp
  next
    case False
    then have "length (filter (in_band v) (n # bs)) = 1"
      using "1.prems" u rest by (intro "1.IH"[of "Some u" "Some u" u u]) (auto simp: guard_simps)
    moreover have "\<not> in_band v c" using False u "1.prems" by (simp add: guard_simps)
    ultimately show ?thesis by simp
  qed
qed (auto simp: guard_simps)

lemma unbounded_is_last:
  "check_adjacent bs = Inr () \<Longrightarrow> b \<in> set bs \<Longrightarrow> bd_upper_bound b = None \<Longrightarrow> bd_upper_bound (last bs) = None"
  by (induction bs rule: check_adjacent.induct) (auto split: option.splits if_splits)

lemma length_filter_sort_key: "length (filter P (sort_key f xs)) = length (filter P xs)"
  by (metis mset_filter mset_sort size_mset)

lemma sorted_hd_le: "sorted (map f xs) \<Longrightarrow> x \<in> set xs \<Longrightarrow> f (hd xs) \<le> f x"
  by (cases xs) auto

lemma bands_cover_once:
  assumes "validate_contiguous_non_overlapping_bands bands = Inr ()"
    and "\<forall>b \<in> set bands. half_open b"
    and "\<exists>b \<in> set bands. lower_ok v b" and "\<exists>b \<in> set bands. bd_upper_bound b = None"
  shows "length (filter (in_band v) bands) = 1"
proof -
  let ?bs = "sort_key bd_lower_bound bands"
  have adj: "check_adjacent ?bs = Inr ()" and ne: "?bs \<noteq> []"
    using assms(1) by (auto simp: validate_contiguous_non_overlapping_bands_def split: if_splits)
      (metis mset_sort mset_zero_iff)
  have srt: "sorted (map bd_lower_bound ?bs)" by simp
  obtain b where b: "b \<in> set ?bs" "lower_ok v b" using assms(3) by auto
  have "hd ?bs \<in> set bands" using ne by (metis hd_in_set set_sort)
  then have "lower_ok v (hd ?bs)"
    using lower_ok_mono[OF _ _ sorted_hd_le[OF srt b(1)] b(2)] assms(2) b(1) by auto
  moreover have "bd_upper_bound (last ?bs) = None"
    using assms(4) unbounded_is_last[OF adj] by auto
  ultimately have "length (filter (in_band v) ?bs) = 1"
    using assms(2) by (intro chain_covers_once[OF adj srt _ ne]) auto
  then show ?thesis by (simp add: length_filter_sort_key)
qed

text \<open>
  Bands accepted at save time partition the axis: when every band includes its lower and
  excludes its upper bound (the defaults) and one band is unbounded above, every value not below
  the lowest band lies in exactly one band, whatever the order in which the bands were given.
\<close>

theorem validated_bands_partition:
  assumes "validate_contiguous_non_overlapping_bands bands = Inr ()"
    and "\<forall>b \<in> set bands. half_open b"
    and "\<exists>b \<in> set bands. lower_ok v b" and "\<exists>b \<in> set bands. bd_upper_bound b = None"
  shows "length (filter (in_band v) bands) = 1"
  using assms by (rule bands_cover_once)

abbreviation default_budget_bands :: "band list" where
  "default_budget_bands \<equiv> create_configurable_budget_bands (''b1'', ''b2'', ''b3'', ''b4'') 70 90 100 2"

lemma default_budget_bands_valid: "validate_contiguous_non_overlapping_bands default_budget_bands = Inr ()"
  by code_simp

theorem validated_bands_partition_witness:
  "length (filter (in_band 85) default_budget_bands) = 1"
proof (rule validated_bands_partition[OF default_budget_bands_valid])
  show "\<forall>b \<in> set default_budget_bands. half_open b" by code_simp
  show "\<exists>b \<in> set default_budget_bands. lower_ok 85 b" by code_simp
  show "\<exists>b \<in> set default_budget_bands. bd_upper_bound b = None" by code_simp
qed

section \<open>Precedence\<close>

lemma override_appliesD:
  "override_applies st entity scope now v \<Longrightarrow> to_is_active v \<and> to_source_type v = st \<and> \<not> is_expired now v"
  by (simp add: override_applies_def)

lemmas from_defs = from_rule_def from_override_def

lemmas resolve_tiers = resolve_def Let_def from_defs

text \<open>
  The order of precedence as a rank of each candidate (0 wins, \<open>None\<close> is no candidate), and the winner: the
  first element, in list order, of the least rank.
\<close>

definition override_rank :: "string \<Rightarrow> string option \<Rightarrow> int \<Rightarrow> threshold_override \<Rightarrow> nat option" where
  "override_rank entity scope now v =
     (if to_is_active v \<and> (to_target_id v = entity \<or> Some (to_target_id v) = scope) \<and> \<not> is_expired now v
      then (case to_source_type v of TEMPORARY_OVERRIDE \<Rightarrow> Some 0 | ADMIN_OVERRIDE \<Rightarrow> Some 1 | _ \<Rightarrow> None)
      else None)"

definition rule_rank ::
  "string \<Rightarrow> threshold_basis \<Rightarrow> string option \<Rightarrow> string option \<Rightarrow> string option \<Rightarrow> threshold_rule \<Rightarrow> nat option" where
  "rule_rank entity basis scope service env r =
     (if tr_basis r \<noteq> basis then None
      else if tr_resource_id r = Some entity then Some 2
      else if truthy scope \<and> tr_scope_id r = scope then Some 3
      else if truthy service \<and> tr_service_id r = service then Some 4
      else if environment_match basis env r then Some 5
      else if tr_is_tenant_default r then Some 6 else None)"

definition source_of_rank :: "nat \<Rightarrow> threshold_source_type" where
  "source_of_rank n = (if n = 2 then LOCAL else if n < 6 then INHERITED_ANCESTOR else TENANT_DEFAULT)"

definition best_ranked :: "('a \<Rightarrow> nat option) \<Rightarrow> 'a list \<Rightarrow> 'a \<Rightarrow> bool" where
  "best_ranked rank xs x \<longleftrightarrow> (\<exists>i < length xs. xs ! i = x \<and> rank x \<noteq> None
     \<and> (\<forall>j < length xs. rank (xs ! j) \<noteq> None \<longrightarrow>
          the (rank x) < the (rank (xs ! j)) \<or> the (rank x) = the (rank (xs ! j)) \<and> i \<le> j))"

lemma find_best_ranked:
  assumes "find P xs = Some x" and "\<forall>y \<in> set xs. P y \<longleftrightarrow> rank y = Some n"
    and "\<forall>y \<in> set xs. \<forall>m. rank y = Some m \<longrightarrow> n \<le> m"
  shows "best_ranked rank xs x \<and> rank x = Some n"
proof -
  obtain i where i: "i < length xs" "x = xs ! i" "P x" "\<forall>j < i. \<not> P (xs ! j)"
    using assms(1) by (auto simp: find_Some_iff)
  then have r: "rank x = Some n" using assms(2) by simp
  have "n < the (rank (xs ! j)) \<or> n = the (rank (xs ! j)) \<and> i \<le> j"
    if j: "j < length xs" "rank (xs ! j) \<noteq> None" for j
  proof -
    obtain m where m: "rank (xs ! j) = Some m" using j(2) by blast
    have "n \<le> m" using assms(3) j(1) m by (metis nth_mem)
    moreover have "n = m \<Longrightarrow> i \<le> j"
      using i(4) assms(2) m j(1) by (metis nth_mem not_less)
    ultimately show ?thesis using m by auto
  qed
  with i(1,2) r show ?thesis unfolding best_ranked_def by fastforce
qed

lemma override_rank_applies:
  "override_applies TEMPORARY_OVERRIDE entity scope now v \<longleftrightarrow> override_rank entity scope now v = Some 0"
  "override_applies ADMIN_OVERRIDE entity scope now v \<longleftrightarrow> override_rank entity scope now v = Some 1"
  by (auto simp: override_applies_def override_rank_def split: threshold_source_type.split)

lemma override_rank_le: "override_rank entity scope now v = Some m \<Longrightarrow> m = 0 \<or> m = 1"
  by (auto simp: override_rank_def split: threshold_source_type.splits if_splits)

lemma find_override:
  assumes "find (override_applies TEMPORARY_OVERRIDE entity scope now) overrides = Some v \<or>
     find (override_applies TEMPORARY_OVERRIDE entity scope now) overrides = None
     \<and> find (override_applies ADMIN_OVERRIDE entity scope now) overrides = Some v"
  shows "best_ranked (override_rank entity scope now) overrides v"
  using assms
proof
  assume "find (override_applies TEMPORARY_OVERRIDE entity scope now) overrides = Some v"
  from find_best_ranked[OF this, of "override_rank entity scope now" 0] show ?thesis
    by (simp add: override_rank_applies)
next
  assume n: "find (override_applies TEMPORARY_OVERRIDE entity scope now) overrides = None
     \<and> find (override_applies ADMIN_OVERRIDE entity scope now) overrides = Some v"
  then have "\<forall>y \<in> set overrides. override_rank entity scope now y \<noteq> Some 0"
    using no_match[of "override_applies TEMPORARY_OVERRIDE entity scope now" overrides] by (auto simp: override_rank_applies)
  then have "\<forall>y \<in> set overrides. \<forall>m. override_rank entity scope now y = Some m \<longrightarrow> 1 \<le> m"
    using override_rank_le by (metis less_one not_le)
  with find_best_ranked[OF conjunct2[OF n], of "override_rank entity scope now" 1] show ?thesis
    by (simp add: override_rank_applies)
qed

lemma no_override:
  assumes "find (override_applies TEMPORARY_OVERRIDE entity scope now) overrides = None"
    and "find (override_applies ADMIN_OVERRIDE entity scope now) overrides = None"
  shows "list_all (\<lambda>v. override_rank entity scope now v = None) overrides"
  using assms[THEN no_match] override_rank_le[of entity scope now]
  by (auto simp: override_rank_applies list_all_iff) (metis option.exhaust)

lemma rank_tiers: "rule_rank entity basis scope service env r =
  (if local_match basis entity r then Some 2 else if scope_match basis scope r then Some 3
   else if service_match basis service r then Some 4 else if environment_match basis env r then Some 5
   else if default_match basis r then Some 6 else None)"
  by (auto simp: rule_rank_def local_match_def scope_match_def service_match_def environment_match_def default_match_def)

text \<open>The tiers of the rules, walked in order.\<close>

definition tiered :: "string \<Rightarrow> threshold_basis \<Rightarrow> string option \<Rightarrow> string option \<Rightarrow> string option \<Rightarrow> nat
    \<Rightarrow> threshold_rule list \<Rightarrow> threshold_rule \<Rightarrow> bool" where
  "tiered entity basis scope service env n rules r \<longleftrightarrow>
     best_ranked (rule_rank entity basis scope service env) rules r \<and> rule_rank entity basis scope service env r = Some n"

lemma find_tiered:
  "find (local_match basis entity) rules = Some r \<Longrightarrow> tiered entity basis scope service env 2 rules r"
  "find (local_match basis entity) rules = None \<Longrightarrow> find (scope_match basis scope) rules = Some r
   \<Longrightarrow> tiered entity basis scope service env 3 rules r"
  "find (local_match basis entity) rules = None \<Longrightarrow> find (scope_match basis scope) rules = None
   \<Longrightarrow> find (service_match basis service) rules = Some r \<Longrightarrow> tiered entity basis scope service env 4 rules r"
  "find (local_match basis entity) rules = None \<Longrightarrow> find (scope_match basis scope) rules = None
   \<Longrightarrow> find (service_match basis service) rules = None \<Longrightarrow> find (environment_match basis env) rules = Some r
   \<Longrightarrow> tiered entity basis scope service env 5 rules r"
  "find (local_match basis entity) rules = None \<Longrightarrow> find (scope_match basis scope) rules = None
   \<Longrightarrow> find (service_match basis service) rules = None \<Longrightarrow> find (environment_match basis env) rules = None
   \<Longrightarrow> find (default_match basis) rules = Some r \<Longrightarrow> tiered entity basis scope service env 6 rules r"
  unfolding tiered_def
  by (erule find_best_ranked; auto simp: rank_tiers dest: no_match split: if_splits)+

text \<open>
  C35. The five-tier precedence. If an active override that names the entity or its scope has not expired,
  one is applied: a temporary one before an administrative one and the first of its kind in the list; it is the
  one disclosed as the source, with its own bands where it has any. (When it starts, \<open>valid_from\<close>, plays no
  part.) Otherwise the rule in force is the first one in the list of the best tier any rule of the basis has:
  attached to the entity, then of its scope, its service or its environment, then the tenant's default; the
  bands, the tier and the identifier disclosed are those of that very rule. The default handed in is taken only
  when no rule qualifies.
\<close>

theorem resolve_precedence:
  "let r = resolve entity basis scope service env rules overrides dflt now; rank = rule_rank entity basis scope service env in
   case rs_active_override r of
     Some v \<Rightarrow> best_ranked (override_rank entity scope now) overrides v
       \<and> rs_source_type r = to_source_type v \<and> rs_source_id r = to_id v \<and> rs_rule r = dflt
       \<and> rs_bands r = (case to_custom_bands v of Some (b # bs) \<Rightarrow> b # bs | _ \<Rightarrow> tr_bands dflt)
   | None \<Rightarrow> list_all (\<lambda>v. override_rank entity scope now v = None) overrides
       \<and> (if list_all (\<lambda>x. rank x = None) rules then rs_rule r = dflt \<and> rs_source_type r = TENANT_DEFAULT
          else best_ranked rank rules (rs_rule r) \<and> rs_source_type r = source_of_rank (the (rank (rs_rule r))))
       \<and> rs_bands r = tr_bands (rs_rule r) \<and> rs_source_id r = tr_id (rs_rule r)"
proof -
  let ?T = "find (override_applies TEMPORARY_OVERRIDE entity scope now) overrides"
  let ?A = "find (override_applies ADMIN_OVERRIDE entity scope now) overrides"
  let ?L = "find (local_match basis entity) rules" and ?S = "find (scope_match basis scope) rules"
  let ?V = "find (service_match basis service) rules" and ?E = "find (environment_match basis env) rules"
  let ?D = "find (default_match basis) rules" and ?rank = "rule_rank entity basis scope service env"
  let ?r = "resolve entity basis scope service env rules overrides dflt now"
  show ?thesis
  proof (cases "?T = None \<and> ?A = None")
    case False
    then obtain v where v: "?T = Some v \<or> ?T = None \<and> ?A = Some v" by (cases ?T) auto
    then have "to_source_type v = TEMPORARY_OVERRIDE \<or> to_source_type v = ADMIN_OVERRIDE"
      by (auto dest!: find_SomeD override_appliesD)
    with find_override[OF v] v show ?thesis
      by (auto simp: resolve_tiers override_bands_def)
  next
    case none: True
    have rank_in: "\<not> list_all (\<lambda>x. ?rank x = None) rules" if "tiered entity basis scope service env n rules r" for n r
      using that by (auto simp: tiered_def best_ranked_def list_all_length)
    consider (rule) n r where "tiered entity basis scope service env n rules r"
        "rs_rule ?r = r" "rs_active_override ?r = None" "rs_source_type ?r = source_of_rank n"
        "rs_bands ?r = tr_bands r" "rs_source_id ?r = tr_id r"
      | (fallback) "?L = None" "?S = None" "?V = None" "?E = None" "?D = None"
    proof (cases ?L)
      case L: None
      show ?thesis
      proof (cases ?S)
        case S: None
        show ?thesis
        proof (cases ?V)
          case V: None
          show ?thesis
          proof (cases ?E)
            case E: None
            show ?thesis
            proof (cases ?D)
              case None
              with L S V E that(2) show ?thesis by blast
            qed (use none L S V E find_tiered(5)[OF L S V E] in \<open>auto simp: resolve_tiers source_of_rank_def intro!: that(1)\<close>)
          qed (use none L S V find_tiered(4)[OF L S V] in \<open>auto simp: resolve_tiers source_of_rank_def intro!: that(1)\<close>)
        qed (use none L S find_tiered(3)[OF L S] in \<open>auto simp: resolve_tiers source_of_rank_def intro!: that(1)\<close>)
      qed (use none L find_tiered(2)[OF L] in \<open>auto simp: resolve_tiers source_of_rank_def intro!: that(1)\<close>)
    qed (use none find_tiered(1) in \<open>auto simp: resolve_tiers source_of_rank_def intro!: that(1)\<close>)
    then show ?thesis
    proof cases
      case rule
      with rank_in[OF rule(1)] no_override[of entity scope now overrides] none show ?thesis
        by (simp add: tiered_def Let_def)
    next
      case fallback
      then have "list_all (\<lambda>x. ?rank x = None) rules"
        using fallback[THEN no_match] by (simp add: rank_tiers list_all_iff)
      with fallback no_override[of entity scope now overrides] none show ?thesis by (simp add: resolve_tiers)
    qed
  qed
qed

text \<open>
  What is resolved is always a valid set of bands: when every stored rule and override has
  passed construction, the bands in force are contiguous and do not overlap.
\<close>

theorem resolve_bands_valid:
  assumes "\<forall>r \<in> insert dflt (set rules). construct_rule r = Inr r"
    and "\<forall>v \<in> set overrides. \<exists>v0. construct_override v0 = Inr v"
  shows "validate_contiguous_non_overlapping_bands
    (rs_bands (resolve entity basis scope service env rules overrides dflt now)) = Inr ()"
proof -
  have rule: "validate_contiguous_non_overlapping_bands (tr_bands r) = Inr ()" if "r \<in> insert dflt (set rules)" for r
    using assms(1) that by (auto simp: construct_rule_def try_bind_eq_Inr split: if_splits)
  have "validate_contiguous_non_overlapping_bands (override_bands v dflt) = Inr ()" if "v \<in> set overrides" for v
    using assms(2) that rule[of dflt]
    by (fastforce simp: construct_override_def override_bands_def Let_def try_bind_eq_Inr
        split: option.splits list.splits if_splits)
  with rule show ?thesis
    unfolding resolve_def by (auto simp: from_defs split: option.splits dest!: find_SomeD)
qed

abbreviation default_rule :: "string \<Rightarrow> threshold_error + threshold_rule" where
  "default_rule tenant \<equiv> create_tenant_default_budget_rule (''b1'', ''b2'', ''b3'', ''b4'') tenant 70 90 100 3600 1"

definition demo_rule :: threshold_rule where
  "demo_rule = (case default_rule ''t1'' of Inr r \<Rightarrow> r)"

definition demo_override :: threshold_override where
  "demo_override = \<lparr> to_id = ''thr-ovr-1'', to_tenant_id = ''t1'', to_target_id = ''vm-1'',
     to_source_type = TEMPORARY_OVERRIDE, to_custom_bands = None,
     to_reason = ''planned load test of the quarter'', to_created_by = ''ops'', to_approved_by = None,
     to_valid_from = 500, to_expires_at = Some 1000, to_is_active = True \<rparr>"

lemma demo_rule_constructed: "construct_rule demo_rule = Inr demo_rule"
  by code_simp

lemma demo_override_constructed: "construct_override demo_override = Inr demo_override"
  by code_simp

definition demo_local_rule :: threshold_rule where
  "demo_local_rule = demo_rule\<lparr>tr_id := ''thr-local'', tr_resource_id := Some ''vm-1'', tr_is_tenant_default := False\<rparr>"

theorem resolve_precedence_witness:
  "rs_active_override (resolve ''vm-1'' BUDGET_UTILISATION None None None [demo_rule, demo_local_rule] [demo_override] demo_rule 600)
     = Some demo_override
   \<and> rs_source_id (resolve ''vm-1'' BUDGET_UTILISATION None None None [demo_rule, demo_local_rule] [demo_override] demo_rule 1000)
     = ''thr-local''"
proof -
  let ?rules = "[demo_rule, demo_local_rule]" and ?rank = "rule_rank ''vm-1'' BUDGET_UTILISATION None None None"
  note p = resolve_precedence[of "''vm-1''" BUDGET_UTILISATION None None None ?rules "[demo_override]" demo_rule]
  have r: "override_rank ''vm-1'' None 600 demo_override = Some 0" "override_rank ''vm-1'' None 1000 demo_override = None"
    "?rank demo_rule = Some 6" "?rank demo_local_rule = Some 2" "tr_id demo_local_rule = ''thr-local''" by code_simp+
  have one: "best_ranked f [v] w \<Longrightarrow> w = v" for f :: "threshold_override \<Rightarrow> nat option" and v w
    by (auto simp: best_ranked_def)
  have two: "best_ranked ?rank ?rules x \<Longrightarrow> x = demo_local_rule" for x
    using r(3,4) by (auto simp: best_ranked_def less_Suc_eq All_less_Suc)
  show ?thesis
  proof
    show "rs_active_override (resolve ''vm-1'' BUDGET_UTILISATION None None None ?rules [demo_override] demo_rule 600) = Some demo_override"
      using p[of 600] one r(1) by (auto simp: Let_def split: option.splits)
    show "rs_source_id (resolve ''vm-1'' BUDGET_UTILISATION None None None ?rules [demo_override] demo_rule 1000) = ''thr-local''"
      using p[of 1000] two r(2-5)
      by (auto simp: Let_def best_ranked_def[of "override_rank _ _ _"] split: option.splits) metis
  qed
qed

theorem resolve_bands_valid_witness:
  "validate_contiguous_non_overlapping_bands
     (rs_bands (resolve ''vm-1'' BUDGET_UTILISATION None None None [demo_rule] [demo_override] demo_rule 0)) = Inr ()"
  using demo_rule_constructed demo_override_constructed by (intro resolve_bands_valid) auto

text \<open>
  \<open>valid_from\<close>, documented as the effective start of an override, takes no part in the
  resolution: an override whose start lies in the future is applied at once.
\<close>

theorem override_applies_before_start:
  assumes "to_is_active v" and "to_source_type v = TEMPORARY_OVERRIDE" and "to_target_id v = entity"
    and "\<not> is_expired now v" and "now < to_valid_from v"
  shows "rs_active_override (resolve entity basis scope service env rules (v # overrides) dflt now) = Some v"
  using assms(1-4) by (simp add: resolve_def override_applies_def from_override_def)

theorem override_applies_before_start_witness:
  "to_valid_from demo_override = 500 \<and>
   rs_active_override (resolve ''vm-1'' BUDGET_UTILISATION None None None [] [demo_override] demo_rule 0) = Some demo_override"
proof -
  have "to_is_active demo_override" "to_source_type demo_override = TEMPORARY_OVERRIDE"
    "to_target_id demo_override = ''vm-1''" "\<not> is_expired 0 demo_override" "0 < to_valid_from demo_override"
    "to_valid_from demo_override = 500"
    by code_simp+
  then show ?thesis
    using override_applies_before_start[of demo_override "''vm-1''" 0 BUDGET_UTILISATION None None None "[]" "[]" demo_rule]
    by simp
qed

end
