(* ===== verification/Threshold_Evaluator.thy ===== *)
theory Threshold_Evaluator
  imports Thresholds
begin

text \<open>
  \<open>domain/thresholds/evaluator.py\<close>, the evaluation path of \<open>service.py\<close> and \<open>preview.py\<close>: raw band
  lookup with hysteresis, and the anti-flapping filters (data-quality gate, idempotent replay,
  dwell time, cool-down, storm grouping) over the per-entity trackers.

  A \<open>timedelta\<close> in seconds is the float nearest to its exact value. Random result identifiers and
  correlation identifiers are left out; a suppression reason is kept as the values its message
  renders. \<open>is_flapping_suppressed\<close> is set together with the reason everywhere in the code.
\<close>

section \<open>State\<close>

record entity_state =
  es_entity_id :: string
  es_rule_id :: string
  es_committed_state :: threshold_state
  es_pending_state :: "threshold_state option"
  es_pending_consecutive_count :: int
  es_last_transition_time :: "int option"
  es_last_alert_time :: "int option"
  es_last_evaluated_value :: "rat option"

type_synonym tracker_key = "string \<times> string \<times> string"
type_synonym cycle_key = "string \<times> string \<times> int"

record evaluator =
  ev_entity_states :: "(tracker_key, entity_state) dict"
  ev_cycle_transitions :: "(cycle_key, string list) dict"

definition new_evaluator :: evaluator where
  "new_evaluator = \<lparr> ev_entity_states = [], ev_cycle_transitions = [] \<rparr>"

definition new_entity_state :: "string \<Rightarrow> string \<Rightarrow> entity_state" where
  "new_entity_state entity rule =
     \<lparr> es_entity_id = entity, es_rule_id = rule, es_committed_state = NORMAL, es_pending_state = None,
       es_pending_consecutive_count = 0, es_last_transition_time = None, es_last_alert_time = None,
       es_last_evaluated_value = None \<rparr>"

datatype suppression = Dwell_pending int int threshold_state | Cooldown_active int | Storm_grouped string int

record eval_result =
  er_tenant_id :: string
  er_entity_id :: string
  er_rule_id :: string
  er_rule_name :: string
  er_basis :: threshold_basis
  er_measured_value :: "rat option"
  er_evaluated_state :: threshold_state
  er_committed_state :: threshold_state
  er_color_hex :: string
  er_resolved_source_type :: threshold_source_type
  er_resolved_source_id :: string
  er_resolved_source_display :: string
  er_is_alert_dispatched :: bool
  er_suppression :: "suppression option"
  er_is_data_quality_issue :: bool
  er_evaluated_at :: int
  er_transition_occurred :: bool
  er_previous_committed_state :: threshold_state
  er_source_system :: string

definition get_or_create_entity_state ::
  "string \<Rightarrow> string \<Rightarrow> string \<Rightarrow> evaluator \<Rightarrow> entity_state \<times> evaluator" where
  "get_or_create_entity_state tenant entity rule ev =
     (case dict_get (ev_entity_states ev) (tenant, entity, rule) of
        Some st \<Rightarrow> (st, ev)
      | None \<Rightarrow> (let st = new_entity_state entity rule
                in (st, ev\<lparr>ev_entity_states := dict_set (ev_entity_states ev) (tenant, entity, rule) st\<rparr>)))"

section \<open>Raw band lookup\<close>

definition holds_band :: "rat \<Rightarrow> threshold_state \<Rightarrow> band \<Rightarrow> bool" where
  "holds_band v current b \<longleftrightarrow> bd_state b = current \<and> is_breach (bd_state b)
     \<and> (case bd_exit_threshold_lower b of None \<Rightarrow> False | Some e \<Rightarrow> bd_lower_bound b \<noteq> None \<and> v \<ge> e)
     \<and> (case bd_upper_bound b of None \<Rightarrow> True | Some u \<Rightarrow> v < u)"

definition evaluate_raw_band :: "rat \<Rightarrow> band list \<Rightarrow> threshold_state \<Rightarrow> threshold_state" where
  "evaluate_raw_band v bands current =
     (case find (holds_band v current) bands of
        Some b \<Rightarrow> bd_state b
      | None \<Rightarrow> (case find (in_band v) bands of
                  Some b \<Rightarrow> bd_state b
                | None \<Rightarrow> if bands = [] then NORMAL else bd_state (last bands)))"

section \<open>The anti-flapping filters\<close>

definition dwell_filter ::
  "anti_flapping_config \<Rightarrow> int \<Rightarrow> threshold_state \<Rightarrow> entity_state
   \<Rightarrow> (threshold_state \<times> bool \<times> suppression option) \<times> entity_state" where
  "dwell_filter cfg now raw st =
     (let prev = es_committed_state st; d = af_dwell_evaluations cfg in
      if raw \<noteq> prev
      then if d > 1
           then let st1 = (if es_pending_state st = Some raw
                           then st\<lparr>es_pending_consecutive_count := es_pending_consecutive_count st + 1\<rparr>
                           else st\<lparr>es_pending_state := Some raw, es_pending_consecutive_count := 1\<rparr>)
                in if es_pending_consecutive_count st1 \<ge> d
                   then ((raw, True, None),
                         st1\<lparr>es_committed_state := raw, es_pending_state := None,
                             es_pending_consecutive_count := 0, es_last_transition_time := Some now\<rparr>)
                   else ((prev, False, Some (Dwell_pending (es_pending_consecutive_count st1) d raw)), st1)
           else ((raw, True, None), st\<lparr>es_committed_state := raw, es_last_transition_time := Some now\<rparr>)
      else ((prev, False, None), st\<lparr>es_pending_state := None, es_pending_consecutive_count := 0\<rparr>))"

definition elapsed_seconds :: "int \<Rightarrow> int \<Rightarrow> rat" where
  "elapsed_seconds from_t to_t = fl (of_int (to_t - from_t) / 1000000)"

definition in_cooldown :: "anti_flapping_config \<Rightarrow> int \<Rightarrow> entity_state \<Rightarrow> bool" where
  "in_cooldown cfg now st = (case es_last_alert_time st of None \<Rightarrow> False
     | Some t \<Rightarrow> elapsed_seconds t now < of_int (af_cooldown_seconds cfg))"

definition cooldown_remaining :: "anti_flapping_config \<Rightarrow> int \<Rightarrow> entity_state \<Rightarrow> int" where
  "cooldown_remaining cfg now st =
     trunc (fsub (fl (of_int (af_cooldown_seconds cfg))) (elapsed_seconds (the (es_last_alert_time st)) now))"

definition cycle_minute :: "int \<Rightarrow> int" where
  "cycle_minute now = now div 60000000"

definition alert_filter ::
  "anti_flapping_config \<Rightarrow> int \<Rightarrow> string \<Rightarrow> string option \<Rightarrow> string \<Rightarrow> threshold_state \<times> bool \<times> suppression option
   \<Rightarrow> entity_state \<Rightarrow> (cycle_key, string list) dict
   \<Rightarrow> (bool \<times> suppression option) \<times> entity_state \<times> (cycle_key, string list) dict" where
  "alert_filter cfg now tenant scope entity outcome st cyc =
     (case outcome of (committed, transition, supp) \<Rightarrow>
      if transition \<and> is_breach committed
      then if in_cooldown cfg now st
           then ((False, Some (Cooldown_active (cooldown_remaining cfg now st))), st, cyc)
           else if truthy scope
           then let key = (tenant, the scope, cycle_minute now);
                    trans_list = (case dict_get cyc key of Some l \<Rightarrow> l | None \<Rightarrow> []) @ [entity];
                    cyc' = dict_set cyc key trans_list
                in if int (length trans_list) > af_grouping_storm_threshold cfg
                   then ((False, Some (Storm_grouped (the scope) (int (length trans_list)))), st, cyc')
                   else ((True, supp), st\<lparr>es_last_alert_time := Some now\<rparr>, cyc')
           else ((True, supp), st\<lparr>es_last_alert_time := Some now\<rparr>, cyc)
      else ((False, supp), st, cyc))"

definition result_of ::
  "string \<Rightarrow> string \<Rightarrow> resolved_threshold \<Rightarrow> rat option \<Rightarrow> threshold_state \<Rightarrow> threshold_state \<Rightarrow> bool \<Rightarrow> suppression option
   \<Rightarrow> bool \<Rightarrow> int \<Rightarrow> bool \<Rightarrow> threshold_state \<Rightarrow> string \<Rightarrow> eval_result" where
  "result_of tenant entity rs v evaluated committed alert supp dq now transition prev system =
     \<lparr> er_tenant_id = tenant, er_entity_id = entity, er_rule_id = tr_id (rs_rule rs), er_rule_name = tr_name (rs_rule rs),
       er_basis = tr_basis (rs_rule rs), er_measured_value = v, er_evaluated_state = evaluated,
       er_committed_state = committed, er_color_hex = get_color_hex committed,
       er_resolved_source_type = rs_source_type rs, er_resolved_source_id = rs_source_id rs,
       er_resolved_source_display = rs_source_display rs, er_is_alert_dispatched = alert, er_suppression = supp,
       er_is_data_quality_issue = dq, er_evaluated_at = now, er_transition_occurred = transition,
       er_previous_committed_state = prev, er_source_system = ''cloudlens-threshold:'' @ system \<rparr>"

definition evaluate ::
  "string \<Rightarrow> rat option \<Rightarrow> resolved_threshold \<Rightarrow> string option \<Rightarrow> int \<Rightarrow> string \<Rightarrow> evaluator \<Rightarrow> eval_result \<times> evaluator" where
  "evaluate entity mv rs scope now tenant ev =
     (let rule = rs_rule rs; cfg = tr_anti_flapping rule;
          (st, ev1) = get_or_create_entity_state tenant entity (tr_id rule) ev;
          prev = es_committed_state st
      in case mv of
           None \<Rightarrow> (result_of tenant entity rs None UNKNOWN UNKNOWN False None True now (prev \<noteq> UNKNOWN) prev
                      ''data-quality-gate'', ev1)
         | Some v \<Rightarrow>
             if es_last_evaluated_value st = Some v \<and> es_last_transition_time st \<noteq> None
             then (result_of tenant entity rs (Some v) prev prev False None False now False prev ''idempotent-replay'', ev1)
             else let raw = evaluate_raw_band v (rs_bands rs) prev;
                      (outcome, st1) = dwell_filter cfg now raw (st\<lparr>es_last_evaluated_value := Some v\<rparr>);
                      ((alert, supp), st2, cyc) =
                        alert_filter cfg now tenant scope entity outcome st1 (ev_cycle_transitions ev1)
                  in (result_of tenant entity rs (Some v) raw (fst outcome) alert supp False now (fst (snd outcome)) prev
                        ''anti-flapping-evaluator'',
                      ev1\<lparr>ev_entity_states := dict_set (ev_entity_states ev1) (tenant, entity, tr_id rule) st2,
                          ev_cycle_transitions := cyc\<rparr>))"

section \<open>The service entry point and the preview\<close>

record evaluate_request =
  rq_entity_id :: string
  rq_value :: "rat option"
  rq_basis :: threshold_basis
  rq_scope_id :: "string option"
  rq_service_id :: "string option"
  rq_environment :: "string option"
  rq_rule_id :: "string option"

datatype threshold_effect = Saved eval_result | Audited_transition eval_result

text \<open>
  \<open>rules\<close> and \<open>overrides\<close> are what the repository lists for the tenant, \<open>fallback\<close> the default
  budget rule built for it, \<open>now\<close> the evaluation time. The effects are the stored result and the
  audit event of a transition.
\<close>

definition evaluate_entity ::
  "threshold_rule list \<Rightarrow> threshold_override list \<Rightarrow> threshold_rule \<Rightarrow> evaluate_request \<Rightarrow> int \<Rightarrow> string \<Rightarrow> evaluator
   \<Rightarrow> (eval_result \<times> threshold_effect list) \<times> evaluator" where
  "evaluate_entity rules overrides fallback rq now tenant ev =
     (let tenant_default = (case find (default_match (rq_basis rq)) rules of Some r \<Rightarrow> r | None \<Rightarrow> fallback);
          resolved = (if truthy (rq_rule_id rq)
             then let rule = (case find (\<lambda>r. Some (tr_id r) = rq_rule_id rq) rules of Some r \<Rightarrow> r | None \<Rightarrow> tenant_default)
                  in from_rule (if truthy (tr_scope_id rule) then INHERITED_ANCESTOR else LOCAL)
                       (''Explicit rule '' @ quoted (tr_name rule)) rule
             else resolve (rq_entity_id rq) (rq_basis rq) (rq_scope_id rq) (rq_service_id rq) (rq_environment rq)
                    rules overrides tenant_default now);
          (r, ev') = evaluate (rq_entity_id rq) (rq_value rq) resolved (rq_scope_id rq) now tenant ev
      in ((r, Saved r # (if er_transition_occurred r then [Audited_transition r] else [])), ev'))"

record simulation_result =
  sm_total_data_points :: int
  sm_total_transitions :: int
  sm_alerts_dispatched_count :: int
  sm_flapping_suppressed_count :: int
  sm_data_quality_issues_count :: int
  sm_time_in_state :: "(threshold_state \<times> (arith_error + rat)) list"
  sm_steps :: "eval_result list"

fun replay_points ::
  "string \<Rightarrow> resolved_threshold \<Rightarrow> string option \<Rightarrow> string \<Rightarrow> (int \<times> rat option) list \<Rightarrow> evaluator \<Rightarrow> eval_result list" where
  "replay_points entity rs scope tenant [] ev = []"
| "replay_points entity rs scope tenant ((t, v) # pts) ev =
     (let (r, ev') = evaluate entity v rs scope t tenant ev in r # replay_points entity rs scope tenant pts ev')"

definition state_share :: "eval_result list \<Rightarrow> threshold_state \<Rightarrow> arith_error + rat" where
  "state_share rs s =
     (if rs = [] then Inr 0
      else quantize 1 (dmul (ddiv (of_nat (length (filter (\<lambda>r. er_committed_state r = s) rs))) (of_nat (length rs))) 100))"

definition simulate_threshold_rule ::
  "threshold_rule \<Rightarrow> (int \<times> rat option) list \<Rightarrow> string \<Rightarrow> string option \<Rightarrow> bool option \<Rightarrow> simulation_result option" where
  "simulate_threshold_rule rule pts tenant scope flag =
     (if flag = Some True
      then let rs = replay_points (''sim-'' @ tr_id rule) (from_rule LOCAL (''Simulated rule '' @ quoted (tr_name rule)) rule)
                      scope tenant pts new_evaluator;
               count = (\<lambda>P. int (length (filter P rs)))
           in Some \<lparr> sm_total_data_points = int (length pts), sm_total_transitions = count er_transition_occurred,
                     sm_alerts_dispatched_count = count er_is_alert_dispatched,
                     sm_flapping_suppressed_count = count (\<lambda>r. er_suppression r \<noteq> None),
                     sm_data_quality_issues_count = count er_is_data_quality_issue,
                     sm_time_in_state = map (\<lambda>s. (s, state_share rs s))
                       [NORMAL, WARNING, HIGH, CRITICAL, INFORMATIONAL, UNKNOWN],
                     sm_steps = rs \<rparr>
      else None)"

section \<open>Trackers\<close>

text \<open>The tracker of a key, created on first use.\<close>

definition tracker :: "evaluator \<Rightarrow> tracker_key \<Rightarrow> entity_state" where
  "tracker ev = (\<lambda>(t, e, r). case dict_get (ev_entity_states ev) (t, e, r) of
     Some st \<Rightarrow> st | None \<Rightarrow> new_entity_state e r)"

lemma tracker_new [simp]: "tracker new_evaluator (t, e, r) = new_entity_state e r"
  by (simp add: tracker_def new_evaluator_def)

lemma get_or_create:
  assumes "get_or_create_entity_state t e r ev = (st, ev1)"
  shows "st = tracker ev (t, e, r)" "tracker ev1 = tracker ev" "ev_cycle_transitions ev1 = ev_cycle_transitions ev"
  using assms
  by (auto simp: get_or_create_entity_state_def tracker_def Let_def fun_eq_iff split: option.splits if_splits)

lemma tracker_set:
  "tracker (ev\<lparr>ev_entity_states := dict_set (ev_entity_states ev) k st, ev_cycle_transitions := cyc\<rparr>) = (tracker ev)(k := st)"
  by (auto simp: tracker_def fun_eq_iff)

lemma evaluate_cases:
  assumes "evaluate entity mv rs scope now tenant ev = (r, ev')"
  obtains (gate) "mv = None" "tracker ev' = tracker ev" "ev_cycle_transitions ev' = ev_cycle_transitions ev"
      "r = result_of tenant entity rs None UNKNOWN UNKNOWN False None True now
             (es_committed_state (tracker ev (tenant, entity, tr_id (rs_rule rs))) \<noteq> UNKNOWN)
             (es_committed_state (tracker ev (tenant, entity, tr_id (rs_rule rs)))) ''data-quality-gate''"
    | (replay) v st where "mv = Some v" "st = tracker ev (tenant, entity, tr_id (rs_rule rs))"
      "es_last_evaluated_value st = Some v" "es_last_transition_time st \<noteq> None"
      "tracker ev' = tracker ev" "ev_cycle_transitions ev' = ev_cycle_transitions ev"
      "r = result_of tenant entity rs (Some v) (es_committed_state st) (es_committed_state st) False None False now
             False (es_committed_state st) ''idempotent-replay''"
    | (full) v st raw committed transition supp0 st1 alert supp st2 where "mv = Some v"
      "st = tracker ev (tenant, entity, tr_id (rs_rule rs))"
      "\<not> (es_last_evaluated_value st = Some v \<and> es_last_transition_time st \<noteq> None)"
      "raw = evaluate_raw_band v (rs_bands rs) (es_committed_state st)"
      "dwell_filter (tr_anti_flapping (rs_rule rs)) now raw (st\<lparr>es_last_evaluated_value := Some v\<rparr>)
         = ((committed, transition, supp0), st1)"
      "alert_filter (tr_anti_flapping (rs_rule rs)) now tenant scope entity (committed, transition, supp0) st1
         (ev_cycle_transitions ev) = ((alert, supp), st2, ev_cycle_transitions ev')"
      "tracker ev' = (tracker ev)((tenant, entity, tr_id (rs_rule rs)) := st2)"
      "r = result_of tenant entity rs (Some v) raw committed alert supp False now transition (es_committed_state st)
             ''anti-flapping-evaluator''"
proof -
  let ?k = "(tenant, entity, tr_id (rs_rule rs))"
  obtain st ev1 where g: "get_or_create_entity_state tenant entity (tr_id (rs_rule rs)) ev = (st, ev1)"
    by (cases "get_or_create_entity_state tenant entity (tr_id (rs_rule rs)) ev")
  note goc = get_or_create[OF g]
  show thesis
  proof (cases mv)
    case None
    then show thesis using assms goc by (intro gate) (auto simp: evaluate_def g Let_def)
  next
    case (Some v)
    show thesis
    proof (cases "es_last_evaluated_value st = Some v \<and> es_last_transition_time st \<noteq> None")
      case True
      then show thesis using assms Some goc by (intro replay[of v st]) (auto simp: evaluate_def g Let_def)
    next
      case False
      let ?raw = "evaluate_raw_band v (rs_bands rs) (es_committed_state st)"
      obtain committed transition supp0 st1 where d:
        "dwell_filter (tr_anti_flapping (rs_rule rs)) now ?raw (st\<lparr>es_last_evaluated_value := Some v\<rparr>)
           = ((committed, transition, supp0), st1)" by (metis surj_pair)
      obtain alert supp st2 cyc where a:
        "alert_filter (tr_anti_flapping (rs_rule rs)) now tenant scope entity (committed, transition, supp0) st1
           (ev_cycle_transitions ev) = ((alert, supp), st2, cyc)" by (metis surj_pair)
      from assms Some False show thesis
        by (intro full[of v st ?raw committed transition supp0 st1 alert supp st2])
           (auto simp: evaluate_def g goc(2,3) d a Let_def tracker_set goc(1)[symmetric])
    qed
  qed
qed

lemma result_of_simps [simp]:
  "er_evaluated_state (result_of t e rs v ev c al su dq now tn pv sys) = ev"
  "er_committed_state (result_of t e rs v ev c al su dq now tn pv sys) = c"
  "er_is_alert_dispatched (result_of t e rs v ev c al su dq now tn pv sys) = al"
  "er_transition_occurred (result_of t e rs v ev c al su dq now tn pv sys) = tn"
  "er_evaluated_at (result_of t e rs v ev c al su dq now tn pv sys) = now"
  "er_is_data_quality_issue (result_of t e rs v ev c al su dq now tn pv sys) = dq"
  "er_previous_committed_state (result_of t e rs v ev c al su dq now tn pv sys) = pv"
  "er_suppression (result_of t e rs v ev c al su dq now tn pv sys) = su"
  "er_source_system (result_of t e rs v ev c al su dq now tn pv sys) = ''cloudlens-threshold:'' @ sys"
  by (simp_all add: result_of_def)

lemma alert_filter_alert:
  assumes "alert_filter cfg now t sc e (c, tn, s0) st cyc = ((alert, supp), st2, cyc')"
  shows "st2 = (if alert then st\<lparr>es_last_alert_time := Some now\<rparr> else st)"
    and "alert \<Longrightarrow> tn \<and> is_breach c \<and> \<not> in_cooldown cfg now st"
  using assms by (auto simp: alert_filter_def Let_def split: if_splits)

lemma dwell_filter_last_alert:
  "dwell_filter cfg now raw st = (res, st1) \<Longrightarrow> es_last_alert_time st1 = es_last_alert_time st"
  by (auto simp: dwell_filter_def Let_def split: if_splits)

section \<open>Missing data, replay\<close>

text \<open>
  Missing data never produces a breach: without a measured value the result is UNKNOWN, flagged
  as a data-quality issue, no alert is dispatched, and no tracker and no storm count changes.
\<close>

theorem missing_data_is_not_a_breach:
  assumes "evaluate entity None rs scope now tenant ev = (r, ev')"
  shows "er_committed_state r = UNKNOWN \<and> \<not> is_breach (er_committed_state r) \<and> er_is_data_quality_issue r
    \<and> \<not> er_is_alert_dispatched r \<and> tracker ev' = tracker ev \<and> ev_cycle_transitions ev' = ev_cycle_transitions ev"
  using assms by (cases rule: evaluate_cases) (simp_all add: is_breach_def)

text \<open>A fixed input of the evaluator: the default rule, resolved for an entity.\<close>

definition demo_resolved :: resolved_threshold where
  "demo_resolved = from_rule TENANT_DEFAULT ''Tenant default rule'' demo_rule"

theorem missing_data_is_not_a_breach_witness:
  "er_committed_state (fst (evaluate ''vm-1'' None demo_resolved None 0 ''t1'' new_evaluator)) = UNKNOWN"
  using missing_data_is_not_a_breach[of "''vm-1''" demo_resolved None 0 "''t1''" new_evaluator,
      OF prod.collapse[symmetric]] by simp

lemma replay_unchanged:
  assumes "evaluate entity (Some v) rs scope now tenant ev = (r, ev')"
    and "es_last_evaluated_value (tracker ev (tenant, entity, tr_id (rs_rule rs))) = Some v"
    and "es_last_transition_time (tracker ev (tenant, entity, tr_id (rs_rule rs))) \<noteq> None"
  shows "tracker ev' = tracker ev \<and> ev_cycle_transitions ev' = ev_cycle_transitions ev
    \<and> er_committed_state r = es_committed_state (tracker ev (tenant, entity, tr_id (rs_rule rs)))
    \<and> \<not> er_transition_occurred r \<and> \<not> er_is_alert_dispatched r"
  using assms(1) by (cases rule: evaluate_cases) (use assms(2,3) in simp_all)

fun evaluate_again :: "string \<Rightarrow> rat \<Rightarrow> resolved_threshold \<Rightarrow> string option \<Rightarrow> int list \<Rightarrow> string \<Rightarrow> evaluator \<Rightarrow> eval_result list \<times> evaluator" where
  "evaluate_again entity v rs scope [] tenant ev = ([], ev)"
| "evaluate_again entity v rs scope (t # ts) tenant ev =
     (let (r, ev') = evaluate entity (Some v) rs scope t tenant ev; (res, ev'') = evaluate_again entity v rs scope ts tenant ev'
      in (r # res, ev''))"

text \<open>
  Re-running the evaluation on unchanged data is idempotent once the entity has made a
  transition: any number of evaluations of the last evaluated value, at any time, reproduces the
  committed state without transition or alert and leaves the trackers as they are. With a dwell
  time above one this also means that a value which stays in a new band never completes the dwell
  count: as long as it does not change, the pending state is not published.
\<close>

theorem replay_is_idempotent:
  assumes "es_last_evaluated_value (tracker ev (tenant, entity, tr_id (rs_rule rs))) = Some v"
    and "es_last_transition_time (tracker ev (tenant, entity, tr_id (rs_rule rs))) \<noteq> None"
    and "evaluate_again entity v rs scope ts tenant ev = (res, ev')"
  shows "tracker ev' = tracker ev
    \<and> (\<forall>r \<in> set res. er_committed_state r = es_committed_state (tracker ev (tenant, entity, tr_id (rs_rule rs)))
         \<and> \<not> er_transition_occurred r \<and> \<not> er_is_alert_dispatched r)"
  using assms
proof (induction ts arbitrary: ev res)
  case (Cons t ts)
  obtain r1 ev1 where e: "evaluate entity (Some v) rs scope t tenant ev = (r1, ev1)" by fastforce
  obtain res1 where res: "evaluate_again entity v rs scope ts tenant ev1 = (res1, ev')" "res = r1 # res1"
    using Cons.prems(3) by (auto simp: e split: prod.splits)
  have "tracker ev1 = tracker ev" using replay_unchanged[OF e Cons.prems(1,2)] by simp
  with Cons.IH[of ev1 res1] Cons.prems(1,2) res replay_unchanged[OF e Cons.prems(1,2)]
  show ?case by auto
qed simp

definition dwell2_resolved :: resolved_threshold where
  "dwell2_resolved = demo_resolved\<lparr>rs_rule := demo_rule\<lparr>tr_anti_flapping := (tr_anti_flapping demo_rule)\<lparr>af_dwell_evaluations := 2\<rparr>\<rparr>\<rparr>"

text \<open>Two readings above 90 publish HIGH; a first reading of 50 is then pending.\<close>

definition high_then_normal :: evaluator where
  "high_then_normal =
     (let e = (\<lambda>v t ev. snd (evaluate ''vm-1'' (Some v) dwell2_resolved None t ''t1'' ev))
      in e 50 3000000 (e 96 2000000 (e 95 1000000 new_evaluator)))"

theorem replay_is_idempotent_witness:
  "\<forall>r \<in> set (fst (evaluate_again ''vm-1'' 50 dwell2_resolved None [4000000, 5000000, 6000000] ''t1'' high_then_normal)).
     er_committed_state r = HIGH"
proof -
  let ?st = "tracker high_then_normal (''t1'', ''vm-1'', tr_id (rs_rule dwell2_resolved))"
  have "es_last_evaluated_value ?st = Some 50" "es_last_transition_time ?st \<noteq> None" "es_committed_state ?st = HIGH"
    by code_simp+
  then show ?thesis
    using replay_is_idempotent[of high_then_normal "''t1''" "''vm-1''" dwell2_resolved 50 None
        "[4000000, 5000000, 6000000]", OF _ _ prod.collapse[symmetric]] by simp
qed

section \<open>Logs of evaluations\<close>

record eval_call =
  ec_entity :: string
  ec_value :: "rat option"
  ec_resolved :: resolved_threshold
  ec_scope :: "string option"
  ec_now :: int
  ec_tenant :: string

type_synonym eval_log = "(eval_call \<times> eval_result) list"

definition call_key :: "eval_call \<Rightarrow> tracker_key" where
  "call_key c = (ec_tenant c, ec_entity c, tr_id (rs_rule (ec_resolved c)))"

abbreviation call_cfg :: "eval_call \<Rightarrow> anti_flapping_config" where
  "call_cfg c \<equiv> tr_anti_flapping (rs_rule (ec_resolved c))"

definition log_step :: "eval_call \<Rightarrow> eval_log \<times> evaluator \<Rightarrow> eval_log \<times> evaluator" where
  "log_step c s = (let (r, ev) = evaluate (ec_entity c) (ec_value c) (ec_resolved c) (ec_scope c) (ec_now c) (ec_tenant c) (snd s)
                   in (fst s @ [(c, r)], ev))"

definition eval_log :: "eval_call list \<Rightarrow> eval_log" where
  "eval_log cs = fst (fold log_step cs ([], new_evaluator))"

lemma log_step_cases:
  obtains r ev where "evaluate (ec_entity c) (ec_value c) (ec_resolved c) (ec_scope c) (ec_now c) (ec_tenant c) (snd s) = (r, ev)"
    "log_step c s = (fst s @ [(c, r)], ev)"
  by (cases "evaluate (ec_entity c) (ec_value c) (ec_resolved c) (ec_scope c) (ec_now c) (ec_tenant c) (snd s)")
     (auto simp: log_step_def)

subsection \<open>Cool-down\<close>

definition alert_times :: "tracker_key \<Rightarrow> eval_log \<Rightarrow> int list" where
  "alert_times k lg = [ec_now c. (c, r) \<leftarrow> lg, call_key c = k \<and> er_is_alert_dispatched r]"

definition cooldown_inv :: "tracker_key \<Rightarrow> int \<Rightarrow> eval_log \<times> evaluator \<Rightarrow> bool" where
  "cooldown_inv k cd s \<longleftrightarrow>
     successively (\<lambda>a b. of_int cd \<le> elapsed_seconds a b) (alert_times k (fst s))
     \<and> es_last_alert_time (tracker (snd s) k) =
         (if alert_times k (fst s) = [] then None else Some (last (alert_times k (fst s))))"

lemma alert_times_snoc:
  "alert_times k (lg @ [(c, r)]) = alert_times k lg @ (if call_key c = k \<and> er_is_alert_dispatched r then [ec_now c] else [])"
  by (simp add: alert_times_def)

lemma evaluate_alert:
  assumes "evaluate (ec_entity c) (ec_value c) (ec_resolved c) (ec_scope c) (ec_now c) (ec_tenant c) ev = (r, ev')"
  shows "es_last_alert_time (tracker ev' k) =
      (if k = call_key c \<and> er_is_alert_dispatched r then Some (ec_now c) else es_last_alert_time (tracker ev k))"
    and "er_is_alert_dispatched r \<Longrightarrow> \<not> in_cooldown (call_cfg c) (ec_now c) (tracker ev (call_key c))"
  using assms
proof (atomize (full), cases rule: evaluate_cases)
  case (full v st raw committed transition supp0 st1 alert supp st2)
  have "es_last_alert_time st1 = es_last_alert_time st"
    using dwell_filter_last_alert[OF full(5)] by simp
  with full alert_filter_alert[OF full(6)]
  show "es_last_alert_time (tracker ev' k) =
      (if k = call_key c \<and> er_is_alert_dispatched r then Some (ec_now c) else es_last_alert_time (tracker ev k))
    \<and> (er_is_alert_dispatched r \<longrightarrow> \<not> in_cooldown (call_cfg c) (ec_now c) (tracker ev (call_key c)))"
    by (auto simp: call_key_def in_cooldown_def)
qed simp_all

interpretation cooldown: machine log_step "\<lambda>c. call_key c = k \<longrightarrow> af_cooldown_seconds (call_cfg c) = cd" "cooldown_inv k cd" for k cd
proof
  fix s c assume inv: "cooldown_inv k cd s" and ok: "call_key c = k \<longrightarrow> af_cooldown_seconds (call_cfg c) = cd"
  obtain r ev' where e: "evaluate (ec_entity c) (ec_value c) (ec_resolved c) (ec_scope c) (ec_now c) (ec_tenant c) (snd s) = (r, ev')"
    and l: "log_step c s = (fst s @ [(c, r)], ev')" by (rule log_step_cases)
  show "cooldown_inv k cd (log_step c s)"
    using inv ok evaluate_alert[OF e]
    by (auto simp: l cooldown_inv_def alert_times_snoc successively_append_iff in_cooldown_def split: if_splits)
qed

lemma new_evaluator_alert_time: "es_last_alert_time (tracker new_evaluator k) = None"
  by (cases k) (simp add: new_entity_state_def)

text \<open>
  C16. At most one alert per cool-down: in every sequence of evaluations, of this and of other
  entities, two successive alerts dispatched for the same entity and rule are at least the rule's
  cool-down apart, whatever the measured values do.
\<close>

theorem alerts_respect_cooldown:
  assumes "\<forall>c \<in> set cs. call_key c = k \<longrightarrow> af_cooldown_seconds (call_cfg c) = cd"
  shows "successively (\<lambda>a b. of_int cd \<le> elapsed_seconds a b) (alert_times k (eval_log cs))"
proof -
  have "cooldown_inv k cd ([], new_evaluator)"
    by (simp add: cooldown_inv_def alert_times_def new_evaluator_alert_time)
  then have "cooldown_inv k cd (fold log_step cs ([], new_evaluator))"
    by (rule cooldown.inv_run) (use assms in \<open>simp add: list_all_iff\<close>)
  then show ?thesis by (simp add: cooldown_inv_def eval_log_def)
qed

text \<open>A rule with two bands, small enough for long runs.\<close>

definition two_bands :: "int \<Rightarrow> int \<Rightarrow> int \<Rightarrow> resolved_threshold" where
  "two_bands dwell cd storm =
     (let bs = [budget_band [] NORMAL [] 0 (Some 70) None [], budget_band [] CRITICAL [] 70 None None []]
      in from_rule LOCAL [] \<lparr> tr_id = ''r'', tr_tenant_id = [], tr_name = [], tr_description = [], tr_basis = RUNTIME,
         tr_bands = bs, tr_anti_flapping = \<lparr> af_dwell_evaluations = dwell, af_hysteresis_margin_pct = 2,
           af_cooldown_seconds = cd, af_grouping_storm_threshold = storm, af_enable_data_quality_gate = True \<rparr>,
         tr_scope_id = None, tr_service_id = None, tr_resource_id = None, tr_environment = None,
         tr_is_tenant_default = False, tr_unit = [] \<rparr>)"

definition two_bands_call :: "resolved_threshold \<Rightarrow> string \<Rightarrow> rat \<Rightarrow> int \<Rightarrow> eval_call" where
  "two_bands_call rs e v t = \<lparr> ec_entity = e, ec_value = Some v, ec_resolved = rs, ec_scope = Some ''s'',
     ec_now = t, ec_tenant = ''t'' \<rparr>"

theorem alerts_respect_cooldown_witness:
  "(let call = two_bands_call (two_bands 1 60 5) ''e'' in
    alert_times (''t'', ''e'', ''r'') (eval_log [call 95 0, call 50 1000000, call 96 2000000, call 50 3000000, call 97 60000000])
      = [0, 60000000])
   \<and> 60 \<le> elapsed_seconds 0 60000000"
proof -
  let ?call = "two_bands_call (two_bands 1 60 5) ''e''"
  let ?cs = "[?call 95 0, ?call 50 1000000, ?call 96 2000000, ?call 50 3000000, ?call 97 60000000]"
  have a: "alert_times (''t'', ''e'', ''r'') (eval_log ?cs) = [0, 60000000]" by code_simp
  have "\<forall>c \<in> set ?cs. call_key c = (''t'', ''e'', ''r'') \<longrightarrow> af_cooldown_seconds (call_cfg c) = 60" by code_simp
  from alerts_respect_cooldown[OF this] a show ?thesis by (simp add: Let_def)
qed

subsection \<open>Storm grouping\<close>

definition cycle_alerts :: "cycle_key \<Rightarrow> eval_log \<Rightarrow> nat" where
  "cycle_alerts k lg = length (filter (\<lambda>(c, r). er_is_alert_dispatched r
     \<and> (\<exists>sc. ec_scope c = Some sc \<and> k = (ec_tenant c, sc, cycle_minute (ec_now c)))) lg)"

definition storm_inv :: "cycle_key \<Rightarrow> int \<Rightarrow> eval_log \<times> evaluator \<Rightarrow> bool" where
  "storm_inv k n s \<longleftrightarrow> int (cycle_alerts k (fst s)) \<le> n
     \<and> cycle_alerts k (fst s) \<le> (case dict_get (ev_cycle_transitions (snd s)) k of Some l \<Rightarrow> length l | None \<Rightarrow> 0)"

lemma alert_filter_storm:
  assumes "alert_filter cfg now t sc e (c, tn, s0) st cyc = ((alert, supp), st2, cyc')"
  shows "dict_get cyc' k = (if tn \<and> is_breach c \<and> \<not> in_cooldown cfg now st \<and> truthy sc \<and> k = (t, the sc, cycle_minute now)
      then Some ((case dict_get cyc k of Some l \<Rightarrow> l | None \<Rightarrow> []) @ [e]) else dict_get cyc k)"
    and "alert \<Longrightarrow> truthy sc \<Longrightarrow>
      int (length (case dict_get cyc (t, the sc, cycle_minute now) of Some l \<Rightarrow> l | None \<Rightarrow> [])) < af_grouping_storm_threshold cfg"
  using assms by (auto simp: alert_filter_def Let_def split: if_splits)

lemma evaluate_storm:
  assumes "evaluate (ec_entity c) (ec_value c) (ec_resolved c) (ec_scope c) (ec_now c) (ec_tenant c) ev = (r, ev')"
    and "\<forall>sc. ec_scope c = Some sc \<longrightarrow> sc \<noteq> []"
    and "af_grouping_storm_threshold (call_cfg c) \<le> n" and "storm_inv k n (lg, ev)" and "0 \<le> n"
  shows "storm_inv k n (lg @ [(c, r)], ev')"
  using assms(1)
proof (cases rule: evaluate_cases)
  case (full v st raw committed transition supp0 st1 alert supp st2)
  note f = alert_filter_storm[OF full(6)] alert_filter_alert[OF full(6)]
  show ?thesis
  proof (cases "alert \<and> (\<exists>sc. ec_scope c = Some sc \<and> k = (ec_tenant c, sc, cycle_minute (ec_now c)))")
    case True
    then obtain sc where "ec_scope c = Some sc" "sc \<noteq> []" "k = (ec_tenant c, sc, cycle_minute (ec_now c))"
      using assms(2) by auto
    with True f assms(3,4) full show ?thesis
      by (auto simp: storm_inv_def cycle_alerts_def split: option.splits)
  next
    case False
    with f(1)[of k] assms(4) full show ?thesis
      by (auto simp: storm_inv_def cycle_alerts_def split: option.splits if_splits)
  qed
qed (use assms(4) in \<open>auto simp: storm_inv_def cycle_alerts_def\<close>)

interpretation storm: machine log_step
  "\<lambda>c. (\<forall>sc. ec_scope c = Some sc \<longrightarrow> sc \<noteq> []) \<and> af_grouping_storm_threshold (call_cfg c) \<le> n \<and> 0 \<le> n" "storm_inv k n" for k n
proof
  fix s c
  assume "storm_inv k n s" and "(\<forall>sc. ec_scope c = Some sc \<longrightarrow> sc \<noteq> []) \<and> af_grouping_storm_threshold (call_cfg c) \<le> n \<and> 0 \<le> n"
  moreover obtain r ev' where "evaluate (ec_entity c) (ec_value c) (ec_resolved c) (ec_scope c) (ec_now c) (ec_tenant c) (snd s) = (r, ev')"
    and "log_step c s = (fst s @ [(c, r)], ev')" by (rule log_step_cases)
  ultimately show "storm_inv k n (log_step c s)"
    using evaluate_storm[of c "snd s" r ev' n k "fst s"] by simp
qed

text \<open>
  Storm suppression: in every sequence of evaluations, at most \<open>n\<close> alerts are dispatched for
  the entities of one scope within one minute, when no rule's storm threshold exceeds \<open>n\<close>.
\<close>

theorem storm_bounds_alerts:
  assumes "\<forall>c \<in> set cs. (\<forall>sc. ec_scope c = Some sc \<longrightarrow> sc \<noteq> []) \<and> af_grouping_storm_threshold (call_cfg c) \<le> n"
    and "0 \<le> n"
  shows "int (cycle_alerts k (eval_log cs)) \<le> n"
proof -
  have "storm_inv k n ([], new_evaluator)"
    using assms(2) by (simp add: storm_inv_def cycle_alerts_def)
  then have "storm_inv k n (fold log_step cs ([], new_evaluator))"
    by (rule storm.inv_run) (use assms in \<open>simp add: list_all_iff\<close>)
  then show ?thesis by (simp add: storm_inv_def eval_log_def)
qed

theorem storm_bounds_alerts_witness:
  "int (cycle_alerts (''t'', ''s'', 0)
     (eval_log [two_bands_call (two_bands 1 60 2) e 95 0. e \<leftarrow> [''a'', ''b'', ''c'']])) \<le> 2"
  by (rule storm_bounds_alerts) (auto simp: two_bands_call_def two_bands_def from_rule_def Let_def)

subsection \<open>Dwell time\<close>

text \<open>All results of a key, and among them those that reached the band lookup (neither gated nor replayed).\<close>

definition results_of :: "tracker_key \<Rightarrow> eval_log \<Rightarrow> eval_result list" where
  "results_of k lg = [r. (c, r) \<leftarrow> lg, call_key c = k]"

definition from_lookup :: "eval_result \<Rightarrow> bool" where
  "from_lookup r \<longleftrightarrow> er_source_system r = ''cloudlens-threshold:anti-flapping-evaluator''"

text \<open>The last \<open>d\<close> results all evaluated to \<open>s\<close>.\<close>

definition dwelled :: "nat \<Rightarrow> eval_result list \<Rightarrow> threshold_state \<Rightarrow> bool" where
  "dwelled d rs s \<longleftrightarrow> d \<le> length rs \<and> (\<forall>r \<in> set (drop (length rs - d) rs). er_evaluated_state r = s)"

text \<open>What the data-quality gate answers to a missing value: UNKNOWN, without an alert.\<close>

definition gated :: "eval_result \<Rightarrow> bool" where
  "gated r \<longleftrightarrow> er_committed_state r = UNKNOWN \<and> er_is_data_quality_issue r \<and> \<not> er_is_alert_dispatched r"

definition published_by_rule :: "nat \<Rightarrow> eval_result list \<Rightarrow> bool" where
  "published_by_rule d rs \<longleftrightarrow> (\<forall>i < length rs. er_transition_occurred (rs ! i) \<longrightarrow>
     er_committed_state (rs ! i) \<noteq> er_previous_committed_state (rs ! i)
     \<and> (if er_measured_value (rs ! i) = None then gated (rs ! i)
        else dwelled d (filter from_lookup (take (Suc i) rs)) (er_committed_state (rs ! i))))"

definition pending_ok :: "nat \<Rightarrow> eval_result list \<Rightarrow> entity_state \<Rightarrow> bool" where
  "pending_ok d rs st \<longleftrightarrow> (case es_pending_state st of None \<Rightarrow> True
     | Some p \<Rightarrow> 1 < d \<and> 1 \<le> es_pending_consecutive_count st \<and> dwelled (nat (es_pending_consecutive_count st)) rs p)"

lemma dwelled_snoc:
  "dwelled n rs s \<Longrightarrow> er_evaluated_state r = s \<Longrightarrow> dwelled (Suc n) (rs @ [r]) s"
  by (auto simp: dwelled_def)

lemma dwelled_one: "er_evaluated_state r = s \<Longrightarrow> dwelled (Suc 0) (rs @ [r]) s"
  by (auto simp: dwelled_def)

lemma dwelled_le: "dwelled n rs s \<Longrightarrow> m \<le> n \<Longrightarrow> dwelled m rs s"
  unfolding dwelled_def by (meson diff_le_mono2 dual_order.trans set_drop_subset_set_drop subsetD)

lemma published_snoc:
  "published_by_rule d (rs @ [r]) \<longleftrightarrow> published_by_rule d rs
     \<and> (er_transition_occurred r \<longrightarrow> er_committed_state r \<noteq> er_previous_committed_state r
        \<and> (if er_measured_value r = None then gated r
           else dwelled d (filter from_lookup (rs @ [r])) (er_committed_state r)))"
  unfolding published_by_rule_def length_append_singleton All_less_Suc
  by (simp add: nth_append conj_commute)

lemma dwell_filter_changes:
  "dwell_filter cfg now raw st = ((committed, transition, supp), st1) \<Longrightarrow> transition \<Longrightarrow> committed \<noteq> es_committed_state st"
  by (auto simp: dwell_filter_def Let_def split: if_splits)

lemma dwell_filter_counts:
  assumes "dwell_filter cfg now raw st = ((committed, transition, supp), st1)"
    and "int d = af_dwell_evaluations cfg" and "1 \<le> d" and "pending_ok d rs st" and "er_evaluated_state r = raw"
  shows "pending_ok d (rs @ [r]) st1" and "transition \<Longrightarrow> dwelled d (rs @ [r]) committed"
proof -
  let ?n = "es_pending_consecutive_count st"
  have more: "dwelled (nat (?n + 1)) (rs @ [r]) raw" if "es_pending_state st = Some raw"
    using assms(4,5) that dwelled_snoc[of "nat ?n" rs raw r] by (simp add: pending_ok_def nat_add_distrib)
  have one: "dwelled (Suc 0) (rs @ [r]) raw" using assms(5) by (rule dwelled_one)
  show "pending_ok d (rs @ [r]) st1"
    using assms more one
    by (auto simp: dwell_filter_def pending_ok_def Let_def split: if_splits option.splits)
  show "dwelled d (rs @ [r]) committed" if transition
    using assms more one that dwelled_le[OF more, of d]
    by (auto simp: dwell_filter_def pending_ok_def Let_def split: if_splits option.splits)
       (metis One_nat_def le_antisym nat_int of_nat_1 of_nat_le_iff not_less)+
qed

definition dwell_inv :: "tracker_key \<Rightarrow> nat \<Rightarrow> eval_log \<times> evaluator \<Rightarrow> bool" where
  "dwell_inv k d s \<longleftrightarrow> published_by_rule d (results_of k (fst s))
     \<and> pending_ok d (filter from_lookup (results_of k (fst s))) (tracker (snd s) k)"

lemma results_of_snoc: "results_of k (lg @ [(c, r)]) = results_of k lg @ (if call_key c = k then [r] else [])"
  by (simp add: results_of_def)

lemma from_lookup_result [simp]:
  "from_lookup (result_of t e rs v ev c al sp dq n tn p sys) \<longleftrightarrow> sys = ''anti-flapping-evaluator''"
  by (simp add: from_lookup_def result_of_def)

lemma measured_result [simp]: "er_measured_value (result_of t e rs v ev c al sp dq n tn p sys) = v"
  by (simp add: result_of_def)

lemma gated_result [simp]:
  "gated (result_of t e rs v ev c al sp dq n tn p sys) \<longleftrightarrow> c = UNKNOWN \<and> dq \<and> \<not> al"
  by (simp add: gated_def result_of_def)

lemma evaluate_dwell:
  assumes "evaluate (ec_entity c) (ec_value c) (ec_resolved c) (ec_scope c) (ec_now c) (ec_tenant c) ev = (r, ev')"
    and "call_key c = k \<longrightarrow> af_dwell_evaluations (call_cfg c) = int d" and "1 \<le> d" and "dwell_inv k d (lg, ev)"
  shows "dwell_inv k d (lg @ [(c, r)], ev')"
  using assms(1)
proof (cases rule: evaluate_cases)
  case (full v st raw committed transition supp0 st1 alert supp st2)
  show ?thesis
  proof (cases "call_key c = k")
    case True
    let ?rs = "filter from_lookup (results_of k lg)"
    have ok: "pending_ok d ?rs (st\<lparr>es_last_evaluated_value := Some v\<rparr>)"
      using assms(4) full(2) True by (simp add: dwell_inv_def pending_ok_def call_key_def split: option.splits)
    have "er_evaluated_state r = raw" using full by simp
    note d = dwell_filter_counts[OF full(5) _ assms(3) ok this]
    have "pending_ok d (?rs @ [r]) st2"
      using d(1) alert_filter_alert(1)[OF full(6)] assms(2) True by (simp add: pending_ok_def split: option.splits)
    with d(2) dwell_filter_changes[OF full(5)] full assms(2,4) True show ?thesis
      by (auto simp: dwell_inv_def results_of_snoc published_snoc call_key_def)
  qed (use full assms(4) in \<open>auto simp: dwell_inv_def results_of_snoc call_key_def\<close>)
qed (use assms(4) in \<open>auto simp: dwell_inv_def results_of_snoc published_snoc gated_def\<close>)

interpretation dwell: machine log_step "\<lambda>c. (call_key c = k \<longrightarrow> af_dwell_evaluations (call_cfg c) = int d) \<and> 1 \<le> d" "dwell_inv k d" for k d
proof
  fix s c
  assume "dwell_inv k d s" and "(call_key c = k \<longrightarrow> af_dwell_evaluations (call_cfg c) = int d) \<and> 1 \<le> d"
  moreover obtain r ev' where "evaluate (ec_entity c) (ec_value c) (ec_resolved c) (ec_scope c) (ec_now c) (ec_tenant c) (snd s) = (r, ev')"
    and "log_step c s = (fst s @ [(c, r)], ev')" by (rule log_step_cases)
  ultimately show "dwell_inv k d (log_step c s)"
    using evaluate_dwell[of c "snd s" r ev' k d "fst s"] by simp
qed

text \<open>
  C15. How states are published: in every sequence of evaluations, each result that reports a transition
  really reports another state than before, and either it answers a measured value, and then the last \<open>d\<close>
  band lookups for its entity and rule (its own included) all gave the state it publishes, \<open>d\<close> being the
  rule's dwell time; or the value was missing, and then it publishes UNKNOWN at once, flagged as a
  data-quality issue and without an alert. The dwell time does not hold back the second kind, and lookups
  interrupted by missing or repeated values count as consecutive.
\<close>

theorem transitions_respect_dwell:
  assumes "\<forall>c \<in> set cs. call_key c = k \<longrightarrow> af_dwell_evaluations (call_cfg c) = int d" and "1 \<le> d"
  shows "\<forall>i < length (results_of k (eval_log cs)). let rs = results_of k (eval_log cs); r = rs ! i in
    er_transition_occurred r \<longrightarrow> er_committed_state r \<noteq> er_previous_committed_state r
      \<and> (if er_measured_value r = None
         then er_committed_state r = UNKNOWN \<and> er_is_data_quality_issue r \<and> \<not> er_is_alert_dispatched r
         else dwelled d (filter from_lookup (take (Suc i) rs)) (er_committed_state r))"
proof -
  have "dwell_inv k d ([], new_evaluator)"
    by (cases k) (simp add: dwell_inv_def published_by_rule_def pending_ok_def results_of_def new_entity_state_def)
  then have "dwell_inv k d (fold log_step cs ([], new_evaluator))"
    by (rule dwell.inv_run) (use assms in \<open>simp add: list_all_iff\<close>)
  then have "published_by_rule d (results_of k (eval_log cs))" by (simp add: dwell_inv_def eval_log_def)
  then show ?thesis by (simp only: published_by_rule_def gated_def Let_def)
qed

theorem transitions_respect_dwell_witness:
  "(let call = two_bands_call (two_bands 2 60 5) ''e''; missing = (call 0 2)\<lparr>ec_value := None\<rparr>;
        rs = results_of (''t'', ''e'', ''r'') (eval_log [call 95 0, call 96 1, missing])
    in map er_transition_occurred rs = [False, True, True] \<and> dwelled 2 (take 2 rs) (er_committed_state (rs ! 1))
       \<and> er_committed_state (rs ! 2) = UNKNOWN)"
proof -
  let ?call = "two_bands_call (two_bands 2 60 5) ''e''"
  let ?cs = "[?call 95 0, ?call 96 1, (?call 0 2)\<lparr>ec_value := None\<rparr>]"
  let ?rs = "results_of (''t'', ''e'', ''r'') (eval_log ?cs)"
  have a: "map er_transition_occurred ?rs = [False, True, True]" "length ?rs = 3"
    "er_measured_value (?rs ! 1) = Some 96" "er_measured_value (?rs ! 2) = None"
    "filter from_lookup (take (Suc 1) ?rs) = take 2 ?rs" "er_transition_occurred (?rs ! 1)" "er_transition_occurred (?rs ! 2)"
    by code_simp+
  have "\<forall>c \<in> set ?cs. call_key c = (''t'', ''e'', ''r'') \<longrightarrow> af_dwell_evaluations (call_cfg c) = int 2" by code_simp
  note t = transitions_respect_dwell[OF this]
  have "dwelled 2 (take 2 ?rs) (er_committed_state (?rs ! 1))" "er_committed_state (?rs ! 2) = UNKNOWN"
    using t[rule_format, of 1] t[rule_format, of 2] a by (simp_all only: Let_def) simp_all
  with a(1) show ?thesis by (simp only: Let_def)
qed

section \<open>Values outside every band\<close>

text \<open>
  With one half-open set of validated bands that is unbounded above, the raw state of a value
  not below the lowest band is that of the one band containing it, except that a breach band with
  an exit threshold is kept while the value stays between that threshold and its upper bound.
\<close>

theorem raw_band_with_hysteresis:
  assumes "validate_contiguous_non_overlapping_bands bands = Inr ()"
    and "\<forall>b \<in> set bands. half_open b"
    and "\<exists>b \<in> set bands. lower_ok v b" and "\<exists>b \<in> set bands. bd_upper_bound b = None"
  shows "if \<exists>b \<in> set bands. holds_band v s b then evaluate_raw_band v bands s = s
         else \<exists>!b. b \<in> set bands \<and> in_band v b \<and> evaluate_raw_band v bands s = bd_state b"
proof (cases "find (holds_band v s) bands")
  case (Some b)
  then show ?thesis using find_SomeD[OF Some] by (auto simp: evaluate_raw_band_def holds_band_def)
next
  case None
  obtain b where f: "filter (in_band v) bands = [b]"
    using bands_cover_once[OF assms] by (metis One_nat_def length_0_conv length_Suc_conv)
  then have "{x \<in> set bands. in_band v x} = {b}" by (metis set_filter list.set(1,2))
  then have only: "x \<in> set bands \<and> in_band v x \<longleftrightarrow> x = b" for x by blast
  then obtain b' where "find (in_band v) bands = Some b'"
    by (metis find_None_iff not_None_eq)
  moreover from this have "b' = b" using find_SomeD only by metis
  ultimately have "evaluate_raw_band v bands s = bd_state b" using None by (simp add: evaluate_raw_band_def)
  then have "\<exists>!b. b \<in> set bands \<and> in_band v b \<and> evaluate_raw_band v bands s = bd_state b"
    using only by (intro ex1I[of _ b]) (blast, metis)
  then show ?thesis by (simp only: no_match[OF None] if_False)
qed

theorem raw_band_with_hysteresis_witness:
  "evaluate_raw_band 89 default_budget_bands HIGH = HIGH"
proof -
  have "\<exists>b \<in> set default_budget_bands. holds_band 89 HIGH b" by code_simp
  moreover have "\<forall>b \<in> set default_budget_bands. half_open b" "\<exists>b \<in> set default_budget_bands. lower_ok 89 b"
    "\<exists>b \<in> set default_budget_bands. bd_upper_bound b = None" by code_simp+
  ultimately show ?thesis
    using raw_band_with_hysteresis[OF default_budget_bands_valid, of 89 HIGH] by simp
qed

text \<open>
  The default budget bands start at zero and a value that no band contains takes the state of
  the last band: a negative budget utilisation (a net credit) is reported as CRITICAL overspend
  and, from a state other than CRITICAL, alerted as such.
\<close>

theorem negative_utilisation_is_critical:
  assumes "v < 0" and "\<not> is_breach s"
  shows "evaluate_raw_band v (create_configurable_budget_bands ids 70 90 100 2) s = CRITICAL"
proof -
  obtain i1 i2 i3 i4 where ids: "ids = (i1, i2, i3, i4)" by (cases ids)
  show ?thesis
    using assms
    by (auto simp: ids create_configurable_budget_bands_def budget_band_def evaluate_raw_band_def holds_band_def guard_simps
        split: option.splits if_splits)
qed

theorem negative_utilisation_is_critical_witness:
  "evaluate_raw_band (-5) default_budget_bands NORMAL = CRITICAL"
  by (rule negative_utilisation_is_critical) (simp_all add: is_breach_def)

end
