(* ===== verification/Access_Control.thy ===== *)
theory Access_Control
  imports Prelude "HOL-Library.List_Lexorder" "HOL-Library.Char_ord"
begin

text \<open>
  \<open>domain/rbac/evaluator.py\<close> and \<open>filter.py\<close>, with the models they use: scope grants over eight
  dimensions, deny-over-allow evaluation, the permission and rate gates, and the filtering of
  datasets with its disclosure.

  The permission catalogue is a parameter \<open>role_permissions\<close>: the permissions of a role code in the
  tenant, if the role is known. Messages that render numbers are kept as the values they show.
\<close>

section \<open>Grants, targets, decisions\<close>

datatype grant_effect = ALLOW | DENY
datatype grantee_type = USER | ROLE
datatype financial_sensitivity = FULL_FINANCIAL_DETAIL | COST_TOTALS_ONLY | NON_FINANCIAL

record scope_grant =
  sg_id :: string
  sg_tenant_id :: string
  sg_grantee_type :: grantee_type
  sg_grantee_id :: string
  sg_effect :: grant_effect
  sg_providers :: "string list"
  sg_account_ids :: "string list"
  sg_hierarchy_subtree_roots :: "string list"
  sg_cascade_hierarchy :: bool
  sg_project_ids :: "string list"
  sg_application_ids :: "string list"
  sg_cost_centre_ids :: "string list"
  sg_business_unit_ids :: "string list"
  sg_financial_sensitivity :: financial_sensitivity
  sg_is_administrative :: bool
  sg_resource_exceptions :: "string list"
  sg_is_active :: bool

record resource_target =
  tg_resource_id :: "string option"
  tg_provider :: "string option"
  tg_account_id :: "string option"
  tg_hierarchy_path :: "string list"
  tg_project_id :: "string option"
  tg_application_id :: "string option"
  tg_cost_centre_id :: "string option"
  tg_business_unit_id :: "string option"
  tg_is_financial :: bool
  tg_is_rate_detail :: bool
  tg_is_administrative :: bool

datatype decision_reason =
    Denied_by_grant string string
  | Granted_by_grant string string
  | Granted_via_super_admin
  | Granted_via_platform_admin
  | No_matching_allow
  | Lacks_permission string
  | Lacks_rate_permission
  | Verified_unscoped string

record authorization_decision =
  ad_allowed :: bool
  ad_effect :: grant_effect
  ad_reason :: decision_reason
  ad_matched_grant_id :: "string option"
  ad_effective_financial_sensitivity :: financial_sensitivity
  ad_can_view_rates :: bool

section \<open>The eight dimensions\<close>

definition restricts :: "string list \<Rightarrow> bool" where
  "restricts xs \<longleftrightarrow> xs \<noteq> [] \<and> ''*'' \<notin> set xs"

definition outside :: "string list \<Rightarrow> string option \<Rightarrow> bool" where
  "outside xs v = (case v of None \<Rightarrow> True | Some x \<Rightarrow> x \<notin> set xs)"

definition matched_hierarchy :: "scope_grant \<Rightarrow> resource_target \<Rightarrow> bool" where
  "matched_hierarchy g t =
     (let roots = set (sg_hierarchy_subtree_roots g); path = tg_hierarchy_path t;
          by_path = (if path \<noteq> []
                     then if sg_cascade_hierarchy g then list_ex (\<lambda>n. n \<in> roots) path else last path \<in> roots
                     else False)
      in by_path
         \<or> (truthy (tg_account_id t) \<and> the (tg_account_id t) \<in> roots)
         \<or> (truthy (tg_resource_id t) \<and> the (tg_resource_id t) \<in> roots))"

definition excepted :: "scope_grant \<Rightarrow> resource_target \<Rightarrow> bool" where
  "excepted g t \<longleftrightarrow> truthy (tg_resource_id t) \<and> the (tg_resource_id t) \<in> set (sg_resource_exceptions g)"

definition matches_dimension :: "scope_grant \<Rightarrow> resource_target \<Rightarrow> bool \<times> string option" where
  "matches_dimension g t =
    (if restricts (sg_providers g) \<and>
        (case tg_provider t of None \<Rightarrow> True
         | Some p \<Rightarrow> lower (strip p) \<notin> set (map (\<lambda>q. lower (strip q)) (sg_providers g)))
     then (False, Some ''provider'')
     else if restricts (sg_account_ids g) \<and> outside (sg_account_ids g) (tg_account_id t)
     then (False, Some ''account_billing_boundary'')
     else if restricts (sg_hierarchy_subtree_roots g) \<and> \<not> matched_hierarchy g t
     then (False, Some ''hierarchy_subtree'')
     else if restricts (sg_project_ids g) \<and> outside (sg_project_ids g) (tg_project_id t)
     then (False, Some ''project_application'')
     else if restricts (sg_application_ids g) \<and> outside (sg_application_ids g) (tg_application_id t)
     then (False, Some ''project_application'')
     else if restricts (sg_cost_centre_ids g) \<and> outside (sg_cost_centre_ids g) (tg_cost_centre_id t)
     then (False, Some ''cost_centre_business_unit'')
     else if restricts (sg_business_unit_ids g) \<and> outside (sg_business_unit_ids g) (tg_business_unit_id t)
     then (False, Some ''cost_centre_business_unit'')
     else if tg_is_financial t \<and> sg_financial_sensitivity g = NON_FINANCIAL
     then (False, Some ''financial_data_sensitivity'')
     else if tg_is_rate_detail t \<and> sg_financial_sensitivity g \<noteq> FULL_FINANCIAL_DETAIL
     then (False, Some ''financial_data_sensitivity'')
     else if tg_is_administrative t \<and> \<not> sg_is_administrative g
     then (False, Some ''administrative'')
     else case sg_effect g of
            ALLOW \<Rightarrow> if excepted g t then (False, Some ''resource_exception'') else (True, None)
          | DENY \<Rightarrow> if sg_resource_exceptions g \<noteq> [] \<and> \<not> excepted g t
                     then (False, Some ''resource_exception'') else (True, None))"

section \<open>Evaluation\<close>

definition applicable :: "string \<Rightarrow> string \<Rightarrow> string list \<Rightarrow> scope_grant \<Rightarrow> bool" where
  "applicable user tenant roles g \<longleftrightarrow> sg_is_active g \<and> (sg_tenant_id g = tenant \<or> sg_tenant_id g = ''*'')
     \<and> ((sg_grantee_type g = USER \<and> sg_grantee_id g = user) \<or> (sg_grantee_type g = ROLE \<and> sg_grantee_id g \<in> set roles))"

definition deny_decision :: "decision_reason \<Rightarrow> string option \<Rightarrow> financial_sensitivity \<Rightarrow> authorization_decision" where
  "deny_decision why gid fs =
     \<lparr> ad_allowed = False, ad_effect = DENY, ad_reason = why, ad_matched_grant_id = gid,
       ad_effective_financial_sensitivity = fs, ad_can_view_rates = False \<rparr>"

definition allow_decision :: "decision_reason \<Rightarrow> string option \<Rightarrow> bool \<Rightarrow> authorization_decision" where
  "allow_decision why gid rates =
     \<lparr> ad_allowed = True, ad_effect = ALLOW, ad_reason = why, ad_matched_grant_id = gid,
       ad_effective_financial_sensitivity = (if rates then FULL_FINANCIAL_DETAIL else COST_TOTALS_ONLY),
       ad_can_view_rates = rates \<rparr>"

definition evaluate_scope_grants ::
  "string \<Rightarrow> string \<Rightarrow> string list \<Rightarrow> scope_grant list \<Rightarrow> resource_target \<Rightarrow> authorization_decision" where
  "evaluate_scope_grants user tenant roles grants t =
     (let applicable_grants = filter (applicable user tenant roles) grants;
          deny_grants = filter (\<lambda>g. sg_effect g = DENY) applicable_grants;
          allow_grants = filter (\<lambda>g. sg_effect g = ALLOW) applicable_grants
      in case find (\<lambda>g. fst (matches_dimension g t)) deny_grants of
           Some g \<Rightarrow> deny_decision (Denied_by_grant (sg_id g) (sg_grantee_id g)) (Some (sg_id g)) NON_FINANCIAL
         | None \<Rightarrow>
             (let matching = filter (\<lambda>g. fst (matches_dimension g t)) allow_grants in
              case matching of
                primary # _ \<Rightarrow>
                  allow_decision (Granted_by_grant (sg_id primary) (sg_grantee_id primary)) (Some (sg_id primary))
                    (list_ex (\<lambda>g. sg_financial_sensitivity g = FULL_FINANCIAL_DETAIL) matching)
              | [] \<Rightarrow>
                  if ''SUPER_ADMIN'' \<in> set roles then allow_decision Granted_via_super_admin None True
                  else if ''PLATFORM_ADMIN'' \<in> set roles then allow_decision Granted_via_platform_admin None True
                  else deny_decision No_matching_allow None NON_FINANCIAL))"

definition all_permissions :: "(string \<Rightarrow> string list option) \<Rightarrow> string list \<Rightarrow> string list" where
  "all_permissions role_permissions roles =
     concat (map (\<lambda>r. case role_permissions r of Some ps \<Rightarrow> ps | None \<Rightarrow> []) roles)"

definition has_rate_perm :: "string list \<Rightarrow> bool" where
  "has_rate_perm perms \<longleftrightarrow> list_ex (\<lambda>p. p \<in> set perms) [''financial:detail:read'', ''cost:rates:read'', ''pricing:read'']"

definition evaluate_access ::
  "(string \<Rightarrow> string list option) \<Rightarrow> string \<Rightarrow> string \<Rightarrow> string list \<Rightarrow> string \<Rightarrow> resource_target option
   \<Rightarrow> scope_grant list \<Rightarrow> authorization_decision" where
  "evaluate_access role_permissions user tenant roles permission target grants =
     (let perms = all_permissions role_permissions roles; rate = has_rate_perm perms in
      if permission \<notin> set perms then deny_decision (Lacks_permission permission) None NON_FINANCIAL
      else case target of
             None \<Rightarrow> allow_decision (Verified_unscoped permission) None rate
           | Some t \<Rightarrow>
               if tg_is_rate_detail t \<and> \<not> rate then deny_decision Lacks_rate_permission None COST_TOTALS_ONLY
               else let d = evaluate_scope_grants user tenant roles grants t
                    in if ad_allowed d then d\<lparr>ad_can_view_rates := ad_can_view_rates d \<and> rate\<rparr> else d)"

section \<open>Filtering datasets\<close>

text \<open>
  An item is a dictionary of field values (\<open>None\<close> is Python's \<open>None\<close>); how a target is read off it
  is the argument \<open>target_extractor\<close>.
\<close>

definition RATE_FIELDS :: "string list" where
  "RATE_FIELDS = [''contracted_unit_price'', ''list_unit_price'', ''unit_rate'', ''unit_price'', ''rate'',
     ''rate_card_margin'', ''pricing_quantity'', ''discount_percentage'']"

definition redact_rates :: "(string, 'v option) dict \<Rightarrow> (string, 'v option) dict" where
  "redact_rates item = fold (\<lambda>k d. if dict_get d k \<noteq> None then dict_set d k None else d) RATE_FIELDS item"

record 'a filtered_result =
  fr_data :: "'a list"
  fr_is_filtered :: bool
  fr_filtered_dimensions :: "string list"
  fr_hidden_count :: nat
  fr_total_unfiltered_count :: nat
  fr_notice :: "(nat \<times> nat) option"

definition exclusion_dimensions :: "scope_grant list \<Rightarrow> resource_target \<Rightarrow> string list" where
  "exclusion_dimensions grants t =
     (let dims = List.map_filter (\<lambda>g. if sg_is_active g then snd (matches_dimension g t) else None) grants
      in if dims \<noteq> [] then dims
         else [if truthy (tg_business_unit_id t) then ''cost_centre_business_unit''
               else if truthy (tg_provider t) then ''provider''
               else if truthy (tg_account_id t) then ''account_billing_boundary''
               else ''scope''])"

definition filter_dataset ::
  "(string \<Rightarrow> string list option) \<Rightarrow> ((string, 'v option) dict \<Rightarrow> resource_target) \<Rightarrow> string \<Rightarrow> string \<Rightarrow> string list \<Rightarrow> string
   \<Rightarrow> (string, 'v option) dict list \<Rightarrow> scope_grant list \<Rightarrow> (string, 'v option) dict filtered_result" where
  "filter_dataset role_permissions target_extractor user tenant roles permission items grants =
     (let step = (\<lambda>item (allowed, hidden, dims).
            let t = target_extractor item;
                d = evaluate_access role_permissions user tenant roles permission (Some t) grants
            in if ad_allowed d
               then (allowed @ [if ad_can_view_rates d then item else redact_rates item], hidden, dims)
               else (allowed, hidden + 1, dims @ exclusion_dimensions grants t));
          (allowed, hidden, dims) = fold step items ([], 0, [])
      in \<lparr> fr_data = allowed, fr_is_filtered = hidden > 0, fr_filtered_dimensions = sort (remdups dims), fr_hidden_count = hidden,
           fr_total_unfiltered_count = length items,
           fr_notice = (if hidden > 0 then Some (hidden, length items) else None) \<rparr>)"

section \<open>Decisions\<close>

definition grant_matches :: "grant_effect \<Rightarrow> string \<Rightarrow> string \<Rightarrow> string list \<Rightarrow> resource_target \<Rightarrow> scope_grant \<Rightarrow> bool" where
  "grant_matches eff user tenant roles t g \<longleftrightarrow>
     applicable user tenant roles g \<and> sg_effect g = eff \<and> fst (matches_dimension g t)"

lemma find_deny:
  "find (\<lambda>g. fst (matches_dimension g t)) (filter (\<lambda>g. sg_effect g = DENY) (filter (applicable user tenant roles) grants))
     = find (grant_matches DENY user tenant roles t) grants"
  by (induction grants) (auto simp: grant_matches_def)

lemma filter_allow:
  "filter (\<lambda>g. fst (matches_dimension g t)) (filter (\<lambda>g. sg_effect g = ALLOW) (filter (applicable user tenant roles) grants))
     = filter (grant_matches ALLOW user tenant roles t) grants"
  by (auto simp: grant_matches_def intro: filter_cong)

lemma decision_simps [simp]:
  "\<not> ad_allowed (deny_decision why gid fs)" "ad_allowed (allow_decision why gid r)"
  "\<not> ad_can_view_rates (deny_decision why gid fs)" "ad_can_view_rates (allow_decision why gid r) = r"
  "ad_effect (deny_decision why gid fs) = DENY" "ad_effect (allow_decision why gid r) = ALLOW"
  by (simp_all add: deny_decision_def allow_decision_def)

lemma scope_eval:
  "evaluate_scope_grants user tenant roles grants t =
     (case find (grant_matches DENY user tenant roles t) grants of
        Some g \<Rightarrow> deny_decision (Denied_by_grant (sg_id g) (sg_grantee_id g)) (Some (sg_id g)) NON_FINANCIAL
      | None \<Rightarrow>
          (case filter (grant_matches ALLOW user tenant roles t) grants of
             primary # rest \<Rightarrow>
               allow_decision (Granted_by_grant (sg_id primary) (sg_grantee_id primary)) (Some (sg_id primary))
                 (list_ex (\<lambda>g. sg_financial_sensitivity g = FULL_FINANCIAL_DETAIL) (primary # rest))
           | [] \<Rightarrow>
               if ''SUPER_ADMIN'' \<in> set roles then allow_decision Granted_via_super_admin None True
               else if ''PLATFORM_ADMIN'' \<in> set roles then allow_decision Granted_via_platform_admin None True
               else deny_decision No_matching_allow None NON_FINANCIAL))"
  unfolding evaluate_scope_grants_def Let_def find_deny filter_allow
  by (simp split: option.splits list.splits)

lemma scope_allowed_iff:
  "ad_allowed (evaluate_scope_grants user tenant roles grants t) \<longleftrightarrow>
     (\<forall>g \<in> set grants. \<not> grant_matches DENY user tenant roles t g)
     \<and> ((\<exists>g \<in> set grants. grant_matches ALLOW user tenant roles t g) \<or> ''SUPER_ADMIN'' \<in> set roles \<or> ''PLATFORM_ADMIN'' \<in> set roles)"
proof (cases "find (grant_matches DENY user tenant roles t) grants")
  case None
  then have "\<forall>g \<in> set grants. \<not> grant_matches DENY user tenant roles t g" by (auto simp: find_None_iff)
  with None show ?thesis
    by (auto simp: scope_eval filter_empty_conv split: list.splits dest!: filter_eq_ConsD')
next
  case (Some g)
  then have "g \<in> set grants" "grant_matches DENY user tenant roles t g" by (auto simp: find_Some_iff)
  with Some show ?thesis by (auto simp: scope_eval)
qed

lemma evaluate_allowed_iff:
  "ad_allowed (evaluate_access rp user tenant roles permission (Some t) grants) \<longleftrightarrow>
     permission \<in> set (all_permissions rp roles)
     \<and> (tg_is_rate_detail t \<longrightarrow> has_rate_perm (all_permissions rp roles))
     \<and> ad_allowed (evaluate_scope_grants user tenant roles grants t)"
  by (auto simp: evaluate_access_def Let_def)

text \<open>
  C9. Access to a target is granted exactly when the principal's roles give the permission, a rate
  detail is not requested without a rate permission, no applicable deny grant matches the target,
  and an applicable allow grant matches it or the principal is a super or platform administrator.
  In particular a matching deny grant defeats every allow grant and every administrator role, and
  without any matching grant access is denied.
\<close>

theorem access_granted_iff:
  "ad_allowed (evaluate_access rp user tenant roles permission (Some t) grants) \<longleftrightarrow>
     permission \<in> set (all_permissions rp roles)
     \<and> (tg_is_rate_detail t \<longrightarrow> has_rate_perm (all_permissions rp roles))
     \<and> (\<forall>g \<in> set grants. \<not> grant_matches DENY user tenant roles t g)
     \<and> ((\<exists>g \<in> set grants. grant_matches ALLOW user tenant roles t g) \<or> ''SUPER_ADMIN'' \<in> set roles \<or> ''PLATFORM_ADMIN'' \<in> set roles)"
  by (simp add: evaluate_allowed_iff scope_allowed_iff)

definition demo_target :: resource_target where
  "demo_target = \<lparr> tg_resource_id = Some ''r1'', tg_provider = Some ''aws'', tg_account_id = Some ''a1'', tg_hierarchy_path = [],
     tg_project_id = None, tg_application_id = None, tg_cost_centre_id = None, tg_business_unit_id = None,
     tg_is_financial = True, tg_is_rate_detail = False, tg_is_administrative = False \<rparr>"

definition demo_grant :: "grant_effect \<Rightarrow> scope_grant" where
  "demo_grant eff = \<lparr> sg_id = ''g'', sg_tenant_id = ''t'', sg_grantee_type = USER, sg_grantee_id = ''u'', sg_effect = eff,
     sg_providers = [], sg_account_ids = [''a1''], sg_hierarchy_subtree_roots = [], sg_cascade_hierarchy = True,
     sg_project_ids = [], sg_application_ids = [], sg_cost_centre_ids = [], sg_business_unit_ids = [],
     sg_financial_sensitivity = FULL_FINANCIAL_DETAIL, sg_is_administrative = False, sg_resource_exceptions = [],
     sg_is_active = True \<rparr>"

definition demo_permissions :: "string \<Rightarrow> string list option" where
  "demo_permissions r = Some [''billing:read'']"

theorem access_granted_iff_witness:
  "ad_allowed (evaluate_access demo_permissions ''u'' ''t'' [''FINANCE_USER''] ''billing:read'' (Some demo_target) [demo_grant ALLOW])
   \<and> \<not> ad_allowed (evaluate_access demo_permissions ''u'' ''t'' [''SUPER_ADMIN''] ''billing:read'' (Some demo_target)
        [demo_grant ALLOW, demo_grant DENY])"
proof -
  have "grant_matches ALLOW ''u'' ''t'' [''FINANCE_USER''] demo_target (demo_grant ALLOW)"
    "\<not> grant_matches DENY ''u'' ''t'' [''FINANCE_USER''] demo_target (demo_grant ALLOW)"
    "grant_matches DENY ''u'' ''t'' [''SUPER_ADMIN''] demo_target (demo_grant DENY)"
    "''billing:read'' \<in> set (all_permissions demo_permissions [''FINANCE_USER''])"
    "\<not> tg_is_rate_detail demo_target" by code_simp+
  then show ?thesis by (simp add: access_granted_iff)
qed

lemma evaluate_access_grants:
  assumes "\<And>t. target = Some t \<Longrightarrow> evaluate_scope_grants user tenant roles gs t = evaluate_scope_grants user tenant roles gs' t"
  shows "evaluate_access rp user tenant roles permission target gs = evaluate_access rp user tenant roles permission target gs'"
  using assms by (cases target) (simp_all add: evaluate_access_def Let_def)

lemma applicable_tenant: "applicable user tenant roles g \<Longrightarrow> sg_tenant_id g = tenant \<or> sg_tenant_id g = ''*''"
  by (simp add: applicable_def)

text \<open>
  Tenant isolation: grants of other tenants take no part in a decision; only those of the
  tenant itself and the platform-wide ones do.
\<close>

theorem grants_of_other_tenants_ignored:
  "evaluate_access rp user tenant roles permission target grants =
   evaluate_access rp user tenant roles permission target
     (filter (\<lambda>g. sg_tenant_id g = tenant \<or> sg_tenant_id g = ''*'') grants)"
proof -
  have "filter (applicable user tenant roles) (filter (\<lambda>g. sg_tenant_id g = tenant \<or> sg_tenant_id g = ''*'') grants)
     = filter (applicable user tenant roles) grants"
    by (auto dest: applicable_tenant intro: filter_cong)
  then show ?thesis
    by (intro evaluate_access_grants) (simp only: evaluate_scope_grants_def)
qed

text \<open>
  A deny grant with the default \<open>is_administrative = False\<close> never matches an administrative
  target, so it restricts no administrative operation: such deny grants can be dropped without
  changing any decision about an administrative target, although a deny grant is documented to
  defeat any overlapping allow grant.
\<close>

theorem plain_deny_skips_administrative_targets:
  assumes "tg_is_administrative t"
  shows "evaluate_access rp user tenant roles permission (Some t) grants =
   evaluate_access rp user tenant roles permission (Some t)
     (filter (\<lambda>g. \<not> (sg_effect g = DENY \<and> \<not> sg_is_administrative g)) grants)"
proof -
  have no: "\<not> grant_matches DENY user tenant roles t g" if "\<not> sg_is_administrative g" for g
    using that assms by (auto simp: grant_matches_def matches_dimension_def)
  have "find (grant_matches DENY user tenant roles t) (filter (\<lambda>g. \<not> (sg_effect g = DENY \<and> \<not> sg_is_administrative g)) grants)
      = find (grant_matches DENY user tenant roles t) grants"
    using no by (induction grants) auto
  moreover have "filter (grant_matches ALLOW user tenant roles t) (filter (\<lambda>g. \<not> (sg_effect g = DENY \<and> \<not> sg_is_administrative g)) grants)
      = filter (grant_matches ALLOW user tenant roles t) grants"
    by (auto simp: grant_matches_def intro: filter_cong)
  ultimately have "evaluate_scope_grants user tenant roles (filter (\<lambda>g. \<not> (sg_effect g = DENY \<and> \<not> sg_is_administrative g)) grants) t
      = evaluate_scope_grants user tenant roles grants t"
    by (simp only: scope_eval)
  then show ?thesis by (intro evaluate_access_grants) simp
qed

theorem plain_deny_skips_administrative_targets_witness:
  "evaluate_access demo_permissions ''u'' ''t'' [''PLATFORM_ADMIN''] ''billing:read'' (Some (demo_target\<lparr>tg_is_administrative := True\<rparr>)) [demo_grant DENY]
   = evaluate_access demo_permissions ''u'' ''t'' [''PLATFORM_ADMIN''] ''billing:read'' (Some (demo_target\<lparr>tg_is_administrative := True\<rparr>)) []"
  by (subst plain_deny_skips_administrative_targets) (simp_all add: demo_grant_def)

text \<open>
  Rates are shown only with both authorities: a decision that lets rates be seen is one that
  grants access, the roles give a rate permission, and the scope comes from a matching allow grant
  with full financial detail or from an administrator role.
\<close>

theorem rates_need_permission_and_scope:
  assumes "ad_can_view_rates (evaluate_access rp user tenant roles permission (Some t) grants)"
  shows "ad_allowed (evaluate_access rp user tenant roles permission (Some t) grants)
    \<and> has_rate_perm (all_permissions rp roles)
    \<and> ((\<exists>g \<in> set grants. grant_matches ALLOW user tenant roles t g \<and> sg_financial_sensitivity g = FULL_FINANCIAL_DETAIL)
       \<or> ''SUPER_ADMIN'' \<in> set roles \<or> ''PLATFORM_ADMIN'' \<in> set roles)"
proof -
  let ?d = "evaluate_scope_grants user tenant roles grants t"
  have d: "ad_allowed ?d" "ad_can_view_rates ?d" "has_rate_perm (all_permissions rp roles)"
    and "ad_allowed (evaluate_access rp user tenant roles permission (Some t) grants)"
    using assms by (auto simp: evaluate_access_def Let_def scope_eval split: if_splits option.splits list.splits)
  moreover have "(\<exists>g \<in> set (filter (grant_matches ALLOW user tenant roles t) grants). sg_financial_sensitivity g = FULL_FINANCIAL_DETAIL)
       \<or> ''SUPER_ADMIN'' \<in> set roles \<or> ''PLATFORM_ADMIN'' \<in> set roles"
    using d(1,2)
    by (auto simp: scope_eval list_ex_iff split: option.splits list.splits if_splits dest: filter_eq_ConsD')
  ultimately show ?thesis by auto
qed

definition rate_permissions :: "string \<Rightarrow> string list option" where
  "rate_permissions r = Some [''billing:read'', ''pricing:read'']"

theorem rates_need_permission_and_scope_witness:
  "has_rate_perm (all_permissions rate_permissions [''FINANCE_USER''])"
proof -
  have "ad_can_view_rates (evaluate_access rate_permissions ''u'' ''t'' [''FINANCE_USER''] ''billing:read'' (Some demo_target) [demo_grant ALLOW])"
    by code_simp
  from rates_need_permission_and_scope[OF this] show ?thesis by simp
qed

section \<open>Filtered datasets\<close>

lemma redact_fold:
  "dict_get (fold (\<lambda>k d. if dict_get d k \<noteq> None then dict_set d k None else d) ks d) j =
     (if j \<in> set ks \<and> dict_get d j \<noteq> None then Some None else dict_get d j)"
  by (induction ks arbitrary: d) auto

lemma dict_get_redact_rates:
  "dict_get (redact_rates item) k =
     (if k \<in> set RATE_FIELDS \<and> dict_get item k \<noteq> None then Some None else dict_get item k)"
  unfolding redact_rates_def by (rule redact_fold)

lemma filter_fold:
  "fold (\<lambda>item (allowed, hidden, dims).
      if P item then (allowed @ [f item], hidden, dims) else (allowed, hidden + 1, dims @ e item)) items (a, h, ds)
   = (a @ map f (filter P items), h + length (filter (\<lambda>i. \<not> P i) items), ds @ concat (map e (filter (\<lambda>i. \<not> P i) items)))"
  for h :: nat
  by (induction items arbitrary: a h ds) auto

text \<open>
  The disclosure rule: nothing is filtered silently. What is returned and what is counted as
  hidden add up to the items given; the result is marked as filtered, with a notice and with at
  least one dimension named, exactly when something was hidden; what is returned are the allowed
  items in their order, whole when rates may be seen and redacted otherwise.
\<close>

theorem filter_discloses:
  "let decide = (\<lambda>i. evaluate_access rp user tenant roles permission (Some (target_extractor i)) grants);
       r = filter_dataset rp target_extractor user tenant roles permission items grants in
   length (fr_data r) + fr_hidden_count r = length items
   \<and> fr_total_unfiltered_count r = length items
   \<and> (fr_is_filtered r \<longleftrightarrow> (\<exists>i \<in> set items. \<not> ad_allowed (decide i)))
   \<and> (fr_is_filtered r \<longleftrightarrow> fr_notice r = Some (fr_hidden_count r, length items))
   \<and> (fr_is_filtered r \<longleftrightarrow> fr_filtered_dimensions r \<noteq> [])
   \<and> fr_data r = map (\<lambda>i. if ad_can_view_rates (decide i) then i else redact_rates i) (filter (\<lambda>i. ad_allowed (decide i)) items)"
proof -
  have "exclusion_dimensions grants t \<noteq> []" for t by (simp add: exclusion_dimensions_def Let_def)
  moreover have "length (filter (\<lambda>i. P i) items) + length (filter (\<lambda>i. \<not> P i) items) = length items" for P
    by (rule sum_length_filter_compl)
  moreover have "sort (remdups xs) = [] \<longleftrightarrow> xs = []" for xs :: "string list"
    by (metis remdups_eq_nil_iff set_empty set_sort)
  ultimately show ?thesis
    by (auto simp: filter_dataset_def Let_def filter_fold filter_empty_conv)
qed

theorem filter_discloses_witness:
  "fr_is_filtered (filter_dataset demo_permissions (\<lambda>_. demo_target) ''u'' ''t'' [''FINANCE_USER''] ''billing:read''
     [[(''unit_rate'', Some (5 :: nat))]] [demo_grant DENY])"
proof -
  have "\<not> ad_allowed (evaluate_access demo_permissions ''u'' ''t'' [''FINANCE_USER''] ''billing:read'' (Some demo_target) [demo_grant DENY])"
    by code_simp
  then show ?thesis
    using filter_discloses[of demo_permissions "''u''" "''t''" "[''FINANCE_USER'']" "''billing:read''" "\<lambda>_. demo_target"
        "[demo_grant DENY]" "[[(''unit_rate'', Some (5 :: nat))]]"] by (simp add: Let_def)
qed

text \<open>
  Cost totals without rates: for a principal whose roles give no rate permission, no returned
  item shows a rate field, and every other field of an item is returned as it was.
\<close>

theorem rates_redacted:
  assumes "\<not> has_rate_perm (all_permissions rp roles)"
    and "i < length (fr_data (filter_dataset rp target_extractor user tenant roles permission items grants))"
    and "row = fr_data (filter_dataset rp target_extractor user tenant roles permission items grants) ! i"
  shows "(\<forall>k \<in> set RATE_FIELDS. dict_get row k \<in> {None, Some None})
    \<and> (\<exists>item \<in> set items. \<forall>k. k \<notin> set RATE_FIELDS \<longrightarrow> dict_get row k = dict_get item k)"
proof -
  have no: "\<not> ad_can_view_rates (evaluate_access rp user tenant roles permission (Some t) grants)" for t
    using assms(1) by (auto simp: evaluate_access_def Let_def scope_eval split: option.splits list.splits)
  have "row \<in> set (fr_data (filter_dataset rp target_extractor user tenant roles permission items grants))"
    using assms(2,3) by simp
  then obtain item where "item \<in> set items" "row = redact_rates item"
    using no by (auto simp: filter_dataset_def Let_def filter_fold)
  then show ?thesis by (auto simp: dict_get_redact_rates)
qed

theorem rates_redacted_witness:
  "dict_get (fr_data (filter_dataset demo_permissions (\<lambda>_. demo_target) ''u'' ''t'' [''FINANCE_USER''] ''billing:read''
     [[(''unit_rate'', Some (5 :: nat)), (''billed_cost'', Some 7)]] [demo_grant ALLOW]) ! 0) ''unit_rate'' \<in> {None, Some None}"
proof -
  let ?r = "filter_dataset demo_permissions (\<lambda>_. demo_target) ''u'' ''t'' [''FINANCE_USER''] ''billing:read''
     [[(''unit_rate'', Some (5 :: nat)), (''billed_cost'', Some 7)]] [demo_grant ALLOW]"
  have "\<not> has_rate_perm (all_permissions demo_permissions [''FINANCE_USER''])" "0 < length (fr_data ?r)" by code_simp+
  from rates_redacted[OF this refl] show ?thesis by (simp add: RATE_FIELDS_def)
qed

end
