(* ===== verification/Lifecycle.thy ===== *)
theory Lifecycle
  imports Numerics
begin

text \<open>
  \<open>domain/lifecycle/service.py\<close> and \<open>models.py\<close>: the resource lifecycle and decommissioning engine.

  Every method is a function on the engine's four dictionaries; a raised exception is returned
  beside the state reached when it was raised, so the partial effects of a loop that raises are
  visible. Amounts are the \<open>Decimal\<close> values of the arguments, instants are microseconds, clock
  readings and random identifiers are arguments. What the remediation service is asked to do (tasks,
  ledger entries) is returned as a value; its replies are arguments.
\<close>

section \<open>Data\<close>

datatype lifecycle_state = REQUESTED | PROVISIONED | ACTIVE | IDLE_CANDIDATE | DECOMMISSION_PROPOSED
  | DECOMMISSION_APPROVED | STOPPED | PENDING_DELETION | DELETED | RETIRED

datatype orphan_type = UNATTACHED_DISK | UNUSED_IP_ADDRESS | ORPHAN_SNAPSHOT | SOURCELESS_BACKUP | EMPTY_SCOPE

record dependency_ack =
  da_dependency_id :: string
  da_source_resource_id :: string
  da_dependent_resource_id :: string
  da_dependency_type :: string
  da_dependent_owner_team :: string
  da_proposer_owner_team :: string
  da_provenance :: string
  da_confidence :: rat
  da_is_cross_team :: bool
  da_is_acknowledged :: bool
  da_acknowledged_by :: "string option"
  da_acknowledged_at :: "int option"

record retention_obligation =
  ro_obligation_id :: string
  ro_retention_basis :: string
  ro_mandatory_until :: int
  ro_is_satisfied :: bool
  ro_satisfied_by :: "string option"
  ro_satisfied_at :: "int option"
  ro_signoff_notes :: "string option"

record lc_resource =
  lr_resource_id :: string
  lr_tenant_id :: string
  lr_owner_team :: string
  lr_service_type :: string
  lr_current_state :: lifecycle_state
  lr_monthly_run_rate :: rat
  lr_storage_cost_rate :: rat
  lr_stopped_at :: "int option"
  lr_deleted_at :: "int option"
  lr_retired_at :: "int option"
  lr_cost_stop_task_id :: "string option"
  lr_retention_obligation :: "retention_obligation option"
  lr_inbound_dependencies :: "dependency_ack list"

record decom_request =
  dr_request_id :: string
  dr_programme_id :: "string option"
  dr_resource_ids :: "string list"
  dr_proposing_actor :: string
  dr_proposer_team :: string
  dr_justification :: string
  dr_intended_date :: int
  dr_estimated_monthly_saving :: rat
  dr_workflow_request_id :: "string option"
  dr_is_approved :: bool
  dr_approved_by :: "string option"
  dr_approved_at :: "int option"

record programme =
  pg_programme_id :: string
  pg_tenant_id :: string
  pg_name :: string
  pg_description :: string
  pg_target_completion_date :: int
  pg_resource_ids :: "string list"

record residue_item =
  ri_residue_id :: string
  ri_resource_id :: string
  ri_residue_type :: orphan_type
  ri_associated_scope :: string
  ri_monthly_waste_cost :: rat
  ri_task_created_id :: "string option"

datatype lc_error =
    LifecycleException string
  | InvalidLifecycleTransitionException lifecycle_state lifecycle_state
  | UnacknowledgedDependencyException string string string
  | RetentionObligationUnsatisfiedException string string
  | CostStopVerificationFailureException string rat
  | DecommissioningRequestNotFoundException string
  | ProgrammeNotFoundException string
  | Arithmetic_error arith_error

type_synonym matrix = "(lifecycle_state, lifecycle_state list) dict"

definition PERMITTED_TRANSITIONS :: matrix where
  "PERMITTED_TRANSITIONS =
     [(REQUESTED, [PROVISIONED]), (PROVISIONED, [ACTIVE]),
      (ACTIVE, [IDLE_CANDIDATE, DECOMMISSION_PROPOSED]), (IDLE_CANDIDATE, [ACTIVE, DECOMMISSION_PROPOSED]),
      (DECOMMISSION_PROPOSED, [DECOMMISSION_APPROVED, ACTIVE]), (DECOMMISSION_APPROVED, [STOPPED]),
      (STOPPED, [ACTIVE, PENDING_DELETION]), (PENDING_DELETION, [DELETED]), (DELETED, [RETIRED]), (RETIRED, [])]"

record lifecycle =
  lc_resources :: "(string, lc_resource) dict"
  lc_requests :: "(string, decom_request) dict"
  lc_programmes :: "(string, programme) dict"
  lc_residue_items :: "(string, residue_item) dict"
  lc_transitions :: matrix

definition new_lifecycle :: "matrix option \<Rightarrow> lifecycle" where
  "new_lifecycle tm =
     \<lparr> lc_resources = [], lc_requests = [], lc_programmes = [], lc_residue_items = [],
       lc_transitions = (case tm of Some (x # xs) \<Rightarrow> x # xs | _ \<Rightarrow> PERMITTED_TRANSITIONS) \<rparr>"

type_synonym 'a lc_result = "(lc_error + 'a) \<times> lifecycle"

definition money :: "rat \<Rightarrow> lc_error + rat" where
  "money x = (case quantize 2 x of Inl e \<Rightarrow> Inl (Arithmetic_error e) | Inr y \<Rightarrow> Inr y)"

definition put_resource :: "string \<Rightarrow> lc_resource \<Rightarrow> lifecycle \<Rightarrow> lifecycle" where
  "put_resource rid r s = s\<lparr>lc_resources := dict_set (lc_resources s) rid r\<rparr>"

section \<open>Resources and dependencies\<close>

definition register_resource ::
  "string \<Rightarrow> string \<Rightarrow> string \<Rightarrow> string \<Rightarrow> rat \<Rightarrow> rat \<Rightarrow> lifecycle_state \<Rightarrow> retention_obligation option
   \<Rightarrow> lifecycle \<Rightarrow> lc_resource lc_result" where
  "register_resource rid tenant owner svc rate storage init ob s =
     (case try_bind (money rate) (\<lambda>m. try_bind (money storage) (\<lambda>st. Inr (m, st))) of
        Inl e \<Rightarrow> (Inl e, s)
      | Inr (m, st) \<Rightarrow>
          (let r = \<lparr> lr_resource_id = rid, lr_tenant_id = tenant, lr_owner_team = owner, lr_service_type = svc,
                     lr_current_state = init, lr_monthly_run_rate = m, lr_storage_cost_rate = st,
                     lr_stopped_at = None, lr_deleted_at = None, lr_retired_at = None, lr_cost_stop_task_id = None,
                     lr_retention_obligation = ob, lr_inbound_dependencies = [] \<rparr>
           in (Inr r, put_resource rid r s)))"

definition get_resource :: "string \<Rightarrow> lifecycle \<Rightarrow> lc_error + lc_resource" where
  "get_resource rid s = (case dict_get (lc_resources s) rid of
     None \<Rightarrow> Inl (LifecycleException rid) | Some r \<Rightarrow> Inr r)"

definition add_inbound_dependency ::
  "string \<Rightarrow> string \<Rightarrow> string \<Rightarrow> string \<Rightarrow> string \<Rightarrow> rat \<Rightarrow> string \<Rightarrow> lifecycle \<Rightarrow> dependency_ack lc_result" where
  "add_inbound_dependency rid dep_id dependent_rid dtype team confidence provenance s =
     (case try_bind (get_resource rid s) (\<lambda>r. try_bind (money confidence) (\<lambda>c. Inr (r, c))) of
        Inl e \<Rightarrow> (Inl e, s)
      | Inr (r, c) \<Rightarrow>
          (let dep = \<lparr> da_dependency_id = dep_id, da_source_resource_id = rid, da_dependent_resource_id = dependent_rid,
                       da_dependency_type = dtype, da_dependent_owner_team = team, da_proposer_owner_team = lr_owner_team r,
                       da_provenance = provenance, da_confidence = c,
                       da_is_cross_team = (lower (strip team) \<noteq> lower (strip (lr_owner_team r))),
                       da_is_acknowledged = False, da_acknowledged_by = None, da_acknowledged_at = None \<rparr>
           in (Inr dep, put_resource rid (r\<lparr>lr_inbound_dependencies := lr_inbound_dependencies r @ [dep]\<rparr>) s)))"

fun acknowledge_first :: "string \<Rightarrow> string \<Rightarrow> int \<Rightarrow> dependency_ack list \<Rightarrow> (dependency_ack \<times> dependency_ack list) option" where
  "acknowledge_first dep_id by now [] = None"
| "acknowledge_first dep_id by now (d # ds) =
     (if da_dependency_id d = dep_id
      then let d' = d\<lparr>da_is_acknowledged := True, da_acknowledged_by := Some by, da_acknowledged_at := Some now\<rparr>
           in Some (d', d' # ds)
      else case acknowledge_first dep_id by now ds of None \<Rightarrow> None | Some (d', ds') \<Rightarrow> Some (d', d # ds'))"

definition acknowledge_dependency :: "string \<Rightarrow> string \<Rightarrow> string \<Rightarrow> int \<Rightarrow> lifecycle \<Rightarrow> dependency_ack lc_result" where
  "acknowledge_dependency rid dep_id by now s =
     (case get_resource rid s of
        Inl e \<Rightarrow> (Inl e, s)
      | Inr r \<Rightarrow>
          (case acknowledge_first dep_id by now (lr_inbound_dependencies r) of
             None \<Rightarrow> (Inl (LifecycleException dep_id), s)
           | Some (d, ds) \<Rightarrow> (Inr d, put_resource rid (r\<lparr>lr_inbound_dependencies := ds\<rparr>) s)))"

section \<open>Transitions\<close>

definition permitted :: "matrix \<Rightarrow> lifecycle_state \<Rightarrow> lifecycle_state \<Rightarrow> bool" where
  "permitted tm a b \<longleftrightarrow> (case dict_get tm a of None \<Rightarrow> False | Some ts \<Rightarrow> b \<in> set ts)"

definition blocking_dependency :: "dependency_ack \<Rightarrow> bool" where
  "blocking_dependency d \<longleftrightarrow> da_is_cross_team d \<and> \<not> da_is_acknowledged d"

definition retention_open :: "lc_resource \<Rightarrow> bool" where
  "retention_open r = (case lr_retention_obligation r of None \<Rightarrow> False | Some ob \<Rightarrow> \<not> ro_is_satisfied ob)"

definition gates :: "matrix \<Rightarrow> string \<Rightarrow> lifecycle_state \<Rightarrow> lc_resource \<Rightarrow> lc_error option" where
  "gates tm rid tgt r =
     (if \<not> permitted tm (lr_current_state r) tgt
      then Some (InvalidLifecycleTransitionException (lr_current_state r) tgt)
      else case (if tgt = DECOMMISSION_APPROVED then find blocking_dependency (lr_inbound_dependencies r) else None) of
             Some d \<Rightarrow> Some (UnacknowledgedDependencyException rid (da_dependent_owner_team d) (da_dependency_id d))
           | None \<Rightarrow>
               if (tgt = PENDING_DELETION \<or> tgt = DELETED) \<and> retention_open r
               then Some (RetentionObligationUnsatisfiedException rid (ro_retention_basis (the (lr_retention_obligation r))))
               else None)"

definition enter_state :: "lifecycle_state \<Rightarrow> int \<Rightarrow> lc_resource \<Rightarrow> lc_resource" where
  "enter_state tgt now r =
     (let r' = (if tgt = STOPPED then r\<lparr>lr_stopped_at := Some now\<rparr>
                else if tgt = DELETED then r\<lparr>lr_deleted_at := Some now\<rparr>
                else if tgt = RETIRED then r\<lparr>lr_retired_at := Some now\<rparr> else r)
      in r'\<lparr>lr_current_state := tgt\<rparr>)"

definition transition_state :: "string \<Rightarrow> lifecycle_state \<Rightarrow> int \<Rightarrow> lifecycle \<Rightarrow> lc_resource lc_result" where
  "transition_state rid tgt now s =
     (case get_resource rid s of
        Inl e \<Rightarrow> (Inl e, s)
      | Inr r \<Rightarrow>
          (case gates (lc_transitions s) rid tgt r of
             Some e \<Rightarrow> (Inl e, s)
           | None \<Rightarrow> (Inr (enter_state tgt now r), put_resource rid (enter_state tgt now r) s)))"

definition satisfy_retention_obligation :: "string \<Rightarrow> string \<Rightarrow> string \<Rightarrow> int \<Rightarrow> lifecycle \<Rightarrow> retention_obligation lc_result" where
  "satisfy_retention_obligation rid officer notes now s =
     (case get_resource rid s of
        Inl e \<Rightarrow> (Inl e, s)
      | Inr r \<Rightarrow>
          (case lr_retention_obligation r of
             None \<Rightarrow> (Inl (LifecycleException rid), s)
           | Some ob \<Rightarrow>
               (let ob' = ob\<lparr>ro_is_satisfied := True, ro_satisfied_by := Some officer, ro_satisfied_at := Some now,
                             ro_signoff_notes := Some notes\<rparr>
                in (Inr ob', put_resource rid (r\<lparr>lr_retention_obligation := Some ob'\<rparr>) s))))"

section \<open>Decommissioning requests\<close>

text \<open>The loop of \<open>submit_decommissioning_request\<close>: propose each resource, summing its run rate.\<close>

fun propose_all :: "string list \<Rightarrow> int \<Rightarrow> rat \<Rightarrow> lifecycle \<Rightarrow> rat lc_result" where
  "propose_all [] now acc s = (Inr acc, s)"
| "propose_all (rid # rids) now acc s =
     (case get_resource rid s of
        Inl e \<Rightarrow> (Inl e, s)
      | Inr r \<Rightarrow>
          (case transition_state rid DECOMMISSION_PROPOSED now s of
             (Inl e, s') \<Rightarrow> (Inl e, s')
           | (Inr _, s') \<Rightarrow> propose_all rids now (dadd acc (lr_monthly_run_rate r)) s'))"

definition submit_decommissioning_request ::
  "string list \<Rightarrow> string \<Rightarrow> string \<Rightarrow> string \<Rightarrow> int \<Rightarrow> string option \<Rightarrow> string \<Rightarrow> string option \<Rightarrow> int \<Rightarrow> lifecycle
   \<Rightarrow> decom_request lc_result" where
  "submit_decommissioning_request rids actor team justification intended prog req_id wf_id now s =
     (if length (strip justification) < 5 then (Inl (LifecycleException ''justification''), s)
      else case propose_all rids now 0 s of
             (Inl e, s') \<Rightarrow> (Inl e, s')
           | (Inr est, s') \<Rightarrow>
               (let req = \<lparr> dr_request_id = req_id, dr_programme_id = prog, dr_resource_ids = rids, dr_proposing_actor = actor,
                            dr_proposer_team = team, dr_justification = justification, dr_intended_date = intended,
                            dr_estimated_monthly_saving = est, dr_workflow_request_id = wf_id, dr_is_approved = False,
                            dr_approved_by = None, dr_approved_at = None \<rparr>
                in (Inr req, s'\<lparr>lc_requests := dict_set (lc_requests s') req_id req\<rparr>)))"

definition approve_one :: "int \<Rightarrow> string \<Rightarrow> lifecycle \<Rightarrow> unit lc_result" where
  "approve_one now rid s = (case transition_state rid DECOMMISSION_APPROVED now s of
     (Inl e, s') \<Rightarrow> (Inl e, s') | (Inr _, s') \<Rightarrow> (Inr (), s'))"

definition approve_decommissioning_request :: "string \<Rightarrow> string \<Rightarrow> int \<Rightarrow> lifecycle \<Rightarrow> decom_request lc_result" where
  "approve_decommissioning_request req_id approver now s =
     (case dict_get (lc_requests s) req_id of
        None \<Rightarrow> (Inl (DecommissioningRequestNotFoundException req_id), s)
      | Some req \<Rightarrow>
          (case try_fold (approve_one now) (dr_resource_ids req) s of
             (Inl e, s') \<Rightarrow> (Inl e, s')
           | (Inr _, s') \<Rightarrow>
               (let req' = req\<lparr>dr_is_approved := True, dr_approved_by := Some approver, dr_approved_at := Some now\<rparr>
                in (Inr req', s'\<lparr>lc_requests := dict_set (lc_requests s') req_id req'\<rparr>))))"

section \<open>Soak, cost stop, residue, savings\<close>

record stopped_surfaced =
  ss_resource_id :: string
  ss_owner_team :: string
  ss_stopped_at :: int
  ss_days_in_stopped_state :: int
  ss_ongoing_storage_cost :: rat
  ss_alert_level :: string

definition day_of :: "int \<Rightarrow> int" where "day_of t = t div 86400000000"

definition days_stopped :: "int \<Rightarrow> lc_resource \<Rightarrow> int" where
  "days_stopped now r = day_of now - day_of (case lr_stopped_at r of Some t \<Rightarrow> t | None \<Rightarrow> now)"

definition surface_stopped_resources :: "string \<Rightarrow> int \<Rightarrow> int \<Rightarrow> lifecycle \<Rightarrow> stopped_surfaced list" where
  "surface_stopped_resources tenant max_soak now s =
     map (\<lambda>r. \<lparr> ss_resource_id = lr_resource_id r, ss_owner_team = lr_owner_team r,
                ss_stopped_at = (case lr_stopped_at r of Some t \<Rightarrow> t | None \<Rightarrow> now),
                ss_days_in_stopped_state = days_stopped now r, ss_ongoing_storage_cost = lr_storage_cost_rate r,
                ss_alert_level = (if days_stopped now r > max_soak * 2 then ''CRITICAL'' else ''WARNING'') \<rparr>)
       (filter (\<lambda>r. lr_tenant_id r = tenant \<and> lr_current_state r = STOPPED \<and> days_stopped now r \<ge> max_soak)
          (dict_values (lc_resources s)))"

datatype task_priority = PRIORITY_CRITICAL | PRIORITY_HIGH | PRIORITY_MEDIUM

record task_request =
  tk_entity_id :: string
  tk_priority :: task_priority
  tk_assignee_id :: string
  tk_estimated_saving :: rat

text \<open>
  \<open>task_id\<close> is \<open>Some\<close> of the identifier the remediation service returns, \<open>None\<close> when no service or
  tenant context is given.
\<close>

definition verify_cost_stop ::
  "string \<Rightarrow> rat \<Rightarrow> string option \<Rightarrow> int \<Rightarrow> lifecycle \<Rightarrow> ((lc_error + unit) \<times> task_request option) \<times> lifecycle" where
  "verify_cost_stop rid amount task_id now s =
     (case try_bind (get_resource rid s) (\<lambda>r. try_bind (money amount) (\<lambda>c. Inr (r, c))) of
        Inl e \<Rightarrow> ((Inl e, None), s)
      | Inr (r, cost) \<Rightarrow>
          if cost > 0
          then (case task_id of
                  Some t \<Rightarrow>
                    ((Inl (CostStopVerificationFailureException rid cost),
                      Some \<lparr> tk_entity_id = rid, tk_priority = (if cost > 500 then PRIORITY_CRITICAL else PRIORITY_HIGH),
                             tk_assignee_id = lr_owner_team r, tk_estimated_saving = fl cost \<rparr>),
                     put_resource rid (r\<lparr>lr_cost_stop_task_id := Some t\<rparr>) s)
                | None \<Rightarrow> ((Inl (CostStopVerificationFailureException rid cost), None), s))
          else if lr_current_state r = DELETED
          then ((Inr (), None), put_resource rid (r\<lparr>lr_current_state := RETIRED, lr_retired_at := Some now\<rparr>) s)
          else ((Inr (), None), s))"

text \<open>
  A residue candidate with the identifiers drawn for it: cost, type (\<open>None\<close> when the name is not a
  member of the enumeration), resource, scope, owner, residue identifier, task reply.
\<close>

record residue_candidate =
  rc_monthly_waste_cost :: rat
  rc_residue_type :: "orphan_type option"
  rc_resource_id :: string
  rc_associated_scope :: "string option"
  rc_owner_id :: "string option"
  rc_residue_id :: string
  rc_task_id :: "string option"

definition residue_task :: "residue_candidate \<Rightarrow> rat \<Rightarrow> task_request" where
  "residue_task c cost =
     \<lparr> tk_entity_id = rc_resource_id c, tk_priority = (if cost > 100 then PRIORITY_HIGH else PRIORITY_MEDIUM),
       tk_assignee_id = (if truthy (rc_owner_id c) then the (rc_owner_id c) else ''unassigned-finops''),
       tk_estimated_saving = fl cost \<rparr>"

definition residue_of :: "string \<Rightarrow> residue_candidate \<Rightarrow> lc_error + residue_item \<times> task_request option" where
  "residue_of tenant c =
     try_bind (money (rc_monthly_waste_cost c)) (\<lambda>cost.
       case rc_residue_type c of
         None \<Rightarrow> Inl (Arithmetic_error (ValueError ''residue_type''))
       | Some ty \<Rightarrow>
           Inr (\<lparr> ri_residue_id = rc_residue_id c, ri_resource_id = rc_resource_id c, ri_residue_type = ty,
                  ri_associated_scope = (case rc_associated_scope c of Some sc \<Rightarrow> sc | None \<Rightarrow> tenant),
                  ri_monthly_waste_cost = cost, ri_task_created_id = rc_task_id c \<rparr>,
                map_option (\<lambda>_. residue_task c cost) (rc_task_id c)))"

fun detect_orphan_residue ::
  "string \<Rightarrow> residue_candidate list \<Rightarrow> lifecycle \<Rightarrow> (lc_error + (residue_item \<times> task_request option) list) \<times> lifecycle" where
  "detect_orphan_residue tenant [] s = (Inr [], s)"
| "detect_orphan_residue tenant (c # cs) s =
     (case residue_of tenant c of
        Inl e \<Rightarrow> (Inl e, s)
      | Inr (item, task) \<Rightarrow>
          (case detect_orphan_residue tenant cs
                  (s\<lparr>lc_residue_items := dict_set (lc_residue_items s) (ri_residue_id item) item\<rparr>) of
             (Inl e, s') \<Rightarrow> (Inl e, s')
           | (Inr items, s') \<Rightarrow> (Inr ((item, task) # items), s')))"

record ledger_entry =
  le_resource_id :: string
  le_estimated_saving :: rat
  le_realised_saving :: rat

definition credit_realised_saving :: "string \<Rightarrow> rat \<Rightarrow> rat \<Rightarrow> bool \<Rightarrow> lifecycle \<Rightarrow> lc_error + rat \<times> ledger_entry option" where
  "credit_realised_saving rid before after has_ledger s =
     try_bind (get_resource rid s) (\<lambda>r.
     try_bind (money before) (\<lambda>b.
     try_bind (money after) (\<lambda>a.
     try_bind (money (dsub b a)) (\<lambda>realised.
       Inr (realised, if has_ledger
                      then Some \<lparr> le_resource_id = lr_resource_id r, le_estimated_saving = fl (lr_monthly_run_rate r),
                                  le_realised_saving = fl realised \<rparr>
                      else None)))))"

section \<open>Programmes\<close>

definition create_programme :: "string \<Rightarrow> string \<Rightarrow> string \<Rightarrow> int \<Rightarrow> string list option \<Rightarrow> string \<Rightarrow> lifecycle \<Rightarrow> programme \<times> lifecycle" where
  "create_programme tenant nm desc target rids pid s =
     (let p = \<lparr> pg_programme_id = pid, pg_tenant_id = tenant, pg_name = nm, pg_description = desc,
                pg_target_completion_date = target, pg_resource_ids = (case rids of Some xs \<Rightarrow> xs | None \<Rightarrow> []) \<rparr>
      in (p, s\<lparr>lc_programmes := dict_set (lc_programmes s) pid p\<rparr>))"

record programme_view =
  pv_programme_id :: string
  pv_name :: string
  pv_total_resources :: nat
  pv_state_breakdown :: "(lifecycle_state, nat) dict"
  pv_projected_monthly_savings :: rat
  pv_realised_monthly_savings :: rat
  pv_outstanding_dependencies_count :: nat

definition all_states :: "lifecycle_state list" where
  "all_states = [REQUESTED, PROVISIONED, ACTIVE, IDLE_CANDIDATE, DECOMMISSION_PROPOSED, DECOMMISSION_APPROVED,
     STOPPED, PENDING_DELETION, DELETED, RETIRED]"

definition count_resource ::
  "lifecycle \<Rightarrow> string \<Rightarrow> (lifecycle_state, nat) dict \<times> rat \<times> rat \<times> nat \<Rightarrow> (lifecycle_state, nat) dict \<times> rat \<times> rat \<times> nat" where
  "count_resource s rid acc =
     (case acc of (counts, proj, rl, unack) \<Rightarrow>
      case dict_get (lc_resources s) rid of
        None \<Rightarrow> acc
      | Some r \<Rightarrow>
          (dict_set counts (lr_current_state r) (the (dict_get counts (lr_current_state r)) + 1),
           dadd proj (lr_monthly_run_rate r),
           (if lr_current_state r = DELETED \<or> lr_current_state r = RETIRED
            then dadd rl (dsub (lr_monthly_run_rate r) (lr_storage_cost_rate r)) else rl),
           unack + length (filter blocking_dependency (lr_inbound_dependencies r))))"

definition get_programme_view :: "string \<Rightarrow> lifecycle \<Rightarrow> lc_error + programme_view" where
  "get_programme_view pid s =
     (case dict_get (lc_programmes s) pid of
        None \<Rightarrow> Inl (ProgrammeNotFoundException pid)
      | Some p \<Rightarrow>
          (let (counts, proj, rl, unack) =
                 fold (count_resource s) (pg_resource_ids p) (map (\<lambda>st. (st, 0)) all_states, 0, 0, 0)
           in Inr \<lparr> pv_programme_id = pid, pv_name = pg_name p, pv_total_resources = length (pg_resource_ids p),
                    pv_state_breakdown = counts, pv_projected_monthly_savings = proj,
                    pv_realised_monthly_savings = rl, pv_outstanding_dependencies_count = unack \<rparr>))"

section \<open>The engine as a machine\<close>

datatype lc_event =
    Register string string string string rat rat lifecycle_state "retention_obligation option"
  | Add_dependency string string string string string rat string
  | Acknowledge string string string int
  | Transition string lifecycle_state int
  | Satisfy string string string int
  | Submit "string list" string string string int "string option" string "string option" int
  | Approve string string int
  | Cost_stop string rat "string option" int
  | Residue string "residue_candidate list"
  | Programme string string string int "string list option" string

fun lc_step :: "lc_event \<Rightarrow> lifecycle \<Rightarrow> lifecycle" where
  "lc_step (Register rid t ow sv m st i ob) s = snd (register_resource rid t ow sv m st i ob s)"
| "lc_step (Add_dependency rid d dep ty team c pr) s = snd (add_inbound_dependency rid d dep ty team c pr s)"
| "lc_step (Acknowledge rid d who now) s = snd (acknowledge_dependency rid d who now s)"
| "lc_step (Transition rid tgt now) s = snd (transition_state rid tgt now s)"
| "lc_step (Satisfy rid off notes now) s = snd (satisfy_retention_obligation rid off notes now s)"
| "lc_step (Submit rids a t j i pr q w now) s = snd (submit_decommissioning_request rids a t j i pr q w now s)"
| "lc_step (Approve q a now) s = snd (approve_decommissioning_request q a now s)"
| "lc_step (Cost_stop rid c t now) s = snd (verify_cost_stop rid c t now s)"
| "lc_step (Residue t cs) s = snd (detect_orphan_residue t cs s)"
| "lc_step (Programme t n d tg rs p) s = snd (create_programme t n d tg rs p s)"

definition rstate :: "lifecycle \<Rightarrow> string \<Rightarrow> lifecycle_state option" where
  "rstate s rid = map_option lr_current_state (dict_get (lc_resources s) rid)"

lemma put_resource_simps [simp]:
  "lc_transitions (put_resource rid r s) = lc_transitions s"
  "lc_requests (put_resource rid r s) = lc_requests s"
  "dict_get (lc_resources (put_resource rid r s)) j = (if j = rid then Some r else dict_get (lc_resources s) j)"
  by (simp_all add: put_resource_def)

lemma rstate_put [simp]: "rstate (put_resource rid r s) j = (if j = rid then Some (lr_current_state r) else rstate s j)"
  by (simp add: rstate_def)

lemma rstate_other [simp]:
  "rstate (s\<lparr>lc_requests := q\<rparr>) = rstate s" "rstate (s\<lparr>lc_programmes := p\<rparr>) = rstate s"
  "rstate (s\<lparr>lc_residue_items := x\<rparr>) = rstate s"
  by (simp_all add: rstate_def fun_eq_iff)

lemma get_resource_Inr: "get_resource rid s = Inr r \<longleftrightarrow> dict_get (lc_resources s) rid = Some r"
  by (auto simp: get_resource_def split: option.splits)

lemma enter_state_simps [simp]:
  "lr_current_state (enter_state tgt now r) = tgt"
  "lr_retention_obligation (enter_state tgt now r) = lr_retention_obligation r"
  "lr_inbound_dependencies (enter_state tgt now r) = lr_inbound_dependencies r"
  "retention_open (enter_state tgt now r) = retention_open r"
  by (simp_all add: enter_state_def retention_open_def Let_def)

lemma gates_None:
  "gates tm rid tgt r = None \<longleftrightarrow> permitted tm (lr_current_state r) tgt
     \<and> (tgt = DECOMMISSION_APPROVED \<longrightarrow> (\<forall>d \<in> set (lr_inbound_dependencies r). \<not> blocking_dependency d))
     \<and> (tgt = PENDING_DELETION \<or> tgt = DELETED \<longrightarrow> \<not> retention_open r)"
  by (auto simp: gates_def find_None_iff split: option.splits dest!: find_SomeD)

lemma transition_cases:
  obtains (raise) e where "transition_state rid tgt now s = (Inl e, s)"
  | (enter) r where "dict_get (lc_resources s) rid = Some r" "gates (lc_transitions s) rid tgt r = None"
      "transition_state rid tgt now s = (Inr (enter_state tgt now r), put_resource rid (enter_state tgt now r) s)"
proof (cases "get_resource rid s")
  case (Inl e)
  then show thesis using raise[of e] by (simp add: transition_state_def)
next
  case (Inr r)
  then show thesis
    by (cases "gates (lc_transitions s) rid tgt r")
       (auto simp: transition_state_def get_resource_Inr[symmetric] intro: enter[of r] raise)
qed

section \<open>Every move follows the matrix\<close>

text \<open>Each resource stays as it is, or is one of \<open>R\<close> and passes the gates into \<open>tgt\<close>.\<close>

definition moves_to :: "lifecycle_state \<Rightarrow> string set \<Rightarrow> lifecycle \<Rightarrow> lifecycle \<Rightarrow> bool" where
  "moves_to tgt R s s' \<longleftrightarrow> lc_transitions s' = lc_transitions s
     \<and> (\<forall>rid. dict_get (lc_resources s') rid = dict_get (lc_resources s) rid
          \<or> rid \<in> R \<and> (\<exists>r now. dict_get (lc_resources s) rid = Some r \<and> gates (lc_transitions s) rid tgt r = None
               \<and> dict_get (lc_resources s') rid = Some (enter_state tgt now r)))"

lemma moves_to_refl [simp]: "moves_to tgt R s s"
  by (simp add: moves_to_def)

lemma enter_state_twice: "enter_state tgt now' (enter_state tgt now r) = enter_state tgt now' r"
  by (simp add: enter_state_def Let_def)

lemma moves_to_trans: "moves_to tgt R s s' \<Longrightarrow> moves_to tgt R s' s'' \<Longrightarrow> moves_to tgt R s s''"
  unfolding moves_to_def by (metis enter_state_twice option.inject)

lemma moves_to_mono: "moves_to tgt R s s' \<Longrightarrow> R \<subseteq> R' \<Longrightarrow> moves_to tgt R' s s'"
  unfolding moves_to_def by blast

lemma transition_moves: "moves_to tgt {rid} s (snd (transition_state rid tgt now s))"
  by (rule transition_cases[of rid tgt now s]) (auto simp: moves_to_def)

lemma propose_all_moves: "moves_to DECOMMISSION_PROPOSED (set rids) s (snd (propose_all rids now acc s))"
proof (induction rids arbitrary: acc s)
  case (Cons rid rids)
  have "moves_to DECOMMISSION_PROPOSED (set (rid # rids)) s (snd (transition_state rid DECOMMISSION_PROPOSED now s))"
    by (rule moves_to_mono[OF transition_moves]) simp
  moreover have "moves_to DECOMMISSION_PROPOSED (set (rid # rids)) s' (snd (propose_all rids now acc' s'))" for acc' s'
    by (rule moves_to_mono[OF Cons.IH]) auto
  ultimately show ?case by (auto split: sum.splits prod.splits intro: moves_to_trans)
qed simp

lemma approve_one_moves: "moves_to DECOMMISSION_APPROVED UNIV s (snd (approve_one now rid s))"
  using moves_to_mono[OF transition_moves[of DECOMMISSION_APPROVED rid s now] subset_UNIV]
  by (auto simp: approve_one_def split: prod.splits sum.splits)

lemma approve_all_moves: "moves_to DECOMMISSION_APPROVED UNIV s (snd (try_fold (approve_one now) rids s))"
  by (rule try_fold_inv[where P = "moves_to DECOMMISSION_APPROVED UNIV s"])
     (auto intro: moves_to_trans approve_one_moves)

lemma residue_frame:
  "lc_resources (snd (detect_orphan_residue t cs s)) = lc_resources s \<and> lc_transitions (snd (detect_orphan_residue t cs s)) = lc_transitions s"
proof (induction cs arbitrary: s)
  case (Cons c cs)
  show ?case
  proof (cases "residue_of t c")
    case (Inr x)
    obtain item task where x: "x = (item, task)" by (cases x)
    let ?s = "s\<lparr>lc_residue_items := dict_set (lc_residue_items s) (ri_residue_id item) item\<rparr>"
    obtain r s' where "detect_orphan_residue t cs ?s = (r, s')" by (cases "detect_orphan_residue t cs ?s")
    with Cons.IH[of ?s] Inr x show ?thesis by (cases r) simp_all
  qed simp
qed simp

abbreviation default_matrix :: "lifecycle \<Rightarrow> bool" where
  "default_matrix s \<equiv> lc_transitions s = PERMITTED_TRANSITIONS"

abbreviation allowed_move :: "lifecycle_state \<Rightarrow> lifecycle_state \<Rightarrow> bool" where
  "allowed_move \<equiv> permitted PERMITTED_TRANSITIONS"

lemma allowed_move_simps:
  "allowed_move a b \<longleftrightarrow> (a, b) \<in> {(REQUESTED, PROVISIONED), (PROVISIONED, ACTIVE), (ACTIVE, IDLE_CANDIDATE),
     (ACTIVE, DECOMMISSION_PROPOSED), (IDLE_CANDIDATE, ACTIVE), (IDLE_CANDIDATE, DECOMMISSION_PROPOSED),
     (DECOMMISSION_PROPOSED, DECOMMISSION_APPROVED), (DECOMMISSION_PROPOSED, ACTIVE), (DECOMMISSION_APPROVED, STOPPED),
     (STOPPED, ACTIVE), (STOPPED, PENDING_DELETION), (PENDING_DELETION, DELETED), (DELETED, RETIRED)}"
  by (cases a) (auto simp: permitted_def PERMITTED_TRANSITIONS_def)

text \<open>An event that does not register the resource anew moves it by at most one permitted move.\<close>

fun keeps_registration :: "string \<Rightarrow> lc_event \<Rightarrow> bool" where
  "keeps_registration rid (Register rid' t ow sv m st i ob) \<longleftrightarrow> rid' \<noteq> rid"
| "keeps_registration rid e \<longleftrightarrow> True"

text \<open>Which call can be behind a change of state.\<close>

fun causes :: "lc_event \<Rightarrow> string \<Rightarrow> lifecycle_state \<Rightarrow> lifecycle_state \<Rightarrow> bool" where
  "causes (Transition rid' tgt now) rid a b \<longleftrightarrow> rid' = rid \<and> b = tgt"
| "causes (Submit rids actor tm j i pr q w now) rid a b \<longleftrightarrow> rid \<in> set rids \<and> b = DECOMMISSION_PROPOSED"
| "causes (Approve q who now) rid a b \<longleftrightarrow> b = DECOMMISSION_APPROVED"
| "causes (Cost_stop rid' c t now) rid a b \<longleftrightarrow> rid' = rid \<and> a = DELETED \<and> b = RETIRED"
| "causes e rid a b \<longleftrightarrow> False"

fun satisfies :: "string \<Rightarrow> lc_event \<Rightarrow> bool" where
  "satisfies rid (Satisfy rid' officer notes now) \<longleftrightarrow> rid' = rid"
| "satisfies rid e \<longleftrightarrow> False"

text \<open>What an event does to one registered resource.\<close>

definition resource_step :: "lc_event \<Rightarrow> string \<Rightarrow> lc_resource \<Rightarrow> lc_resource \<Rightarrow> bool" where
  "resource_step e rid r r' \<longleftrightarrow>
     lr_current_state r' = lr_current_state r \<and> (retention_open r' = retention_open r \<or> satisfies rid e)
     \<or> gates PERMITTED_TRANSITIONS rid (lr_current_state r') r = None \<and> causes e rid (lr_current_state r) (lr_current_state r')
       \<and> retention_open r' = retention_open r"

definition resource_steps :: "lc_event \<Rightarrow> string \<Rightarrow> lifecycle \<Rightarrow> lifecycle \<Rightarrow> bool" where
  "resource_steps e rid s s' \<longleftrightarrow> default_matrix s'
     \<and> (case dict_get (lc_resources s) rid of
          None \<Rightarrow> dict_get (lc_resources s') rid = None
        | Some r \<Rightarrow> \<exists>r'. dict_get (lc_resources s') rid = Some r' \<and> resource_step e rid r r')"

lemma moves_resource_steps:
  assumes "default_matrix s" and "moves_to tgt R s s'" and "\<And>a. rid \<in> R \<Longrightarrow> causes e rid a tgt"
  shows "resource_steps e rid s s'"
  using assms by (auto simp: moves_to_def resource_steps_def resource_step_def split: option.splits)
     (metis enter_state_simps(1,4) option.inject option.distinct(1))+

lemma same_resource_steps:
  "default_matrix s \<Longrightarrow> lc_transitions s' = lc_transitions s \<Longrightarrow> dict_get (lc_resources s') rid = dict_get (lc_resources s) rid
   \<Longrightarrow> resource_steps e rid s s'"
  by (auto simp: resource_steps_def resource_step_def split: option.splits)

lemma resource_steps_frame [simp]:
  "resource_steps e rid s (s'\<lparr>lc_requests := q\<rparr>) = resource_steps e rid s s'"
  "default_matrix s \<Longrightarrow> resource_steps e rid s s"
  by (simp_all add: resource_steps_def resource_step_def split: option.splits)

lemma put_resource_steps:
  assumes "default_matrix s" "dict_get (lc_resources s) i = Some r" "resource_step e i r r'"
  shows "resource_steps e rid s (put_resource i r' s)"
  using assms by (auto simp: resource_steps_def resource_step_def split: option.splits)

lemma lc_step_resource:
  assumes "default_matrix s" and "keeps_registration rid e"
  shows "resource_steps e rid s (lc_step e s)"
proof (cases e)
  case (Transition i tgt now)
  then show ?thesis using moves_resource_steps[OF assms(1) transition_moves[of tgt i s now]] by simp
next
  case (Submit rids a t j i pr q w now)
  then have "resource_steps e rid s (snd (propose_all rids now 0 s))"
    by (intro moves_resource_steps[OF assms(1) propose_all_moves]) simp
  then show ?thesis using Submit assms(1)
    by (auto simp: submit_decommissioning_request_def Let_def split: prod.splits sum.splits)
next
  case (Approve q a now)
  then have "resource_steps e rid s (snd (try_fold (approve_one now) rids s))" for rids
    by (intro moves_resource_steps[OF assms(1) approve_all_moves]) simp
  from this[of "dr_resource_ids (the (dict_get (lc_requests s) q))"] Approve assms(1)
  show ?thesis
    by (auto simp: approve_decommissioning_request_def Let_def split: prod.splits sum.splits option.splits)
next
  case (Cost_stop i c t now)
  have "resource_step e i r (r\<lparr>lr_current_state := RETIRED, lr_retired_at := Some now\<rparr>)" if "lr_current_state r = DELETED" for r
    using Cost_stop that by (simp add: resource_step_def gates_None allowed_move_simps retention_open_def)
  moreover have "resource_step e i r (r\<lparr>lr_cost_stop_task_id := x\<rparr>)" for r x by (simp add: resource_step_def retention_open_def)
  ultimately show ?thesis
    using Cost_stop assms
    by (auto simp: verify_cost_stop_def get_resource_Inr try_bind_eq_Inr put_resource_steps split: sum.splits option.splits)
next
  case (Satisfy i off nt now)
  have "resource_step e i r (r\<lparr>lr_retention_obligation := x\<rparr>)" for r x using Satisfy by (simp add: resource_step_def)
  then show ?thesis using Satisfy assms
    by (auto simp: satisfy_retention_obligation_def get_resource_Inr Let_def put_resource_steps split: sum.splits option.splits)
next
  case (Add_dependency i d dep ty team c pr)
  have "resource_step e i r (r\<lparr>lr_inbound_dependencies := x\<rparr>)" for r x by (simp add: resource_step_def retention_open_def)
  then show ?thesis using Add_dependency assms
    by (auto simp: add_inbound_dependency_def get_resource_Inr try_bind_eq_Inr Let_def put_resource_steps split: sum.splits option.splits)
next
  case (Acknowledge i d who now)
  have "resource_step e i r (r\<lparr>lr_inbound_dependencies := x\<rparr>)" for r x by (simp add: resource_step_def retention_open_def)
  then show ?thesis using Acknowledge assms
    by (auto simp: acknowledge_dependency_def get_resource_Inr Let_def put_resource_steps split: sum.splits option.splits)
qed (use assms residue_frame in
  \<open>auto simp: register_resource_def create_programme_def Let_def intro!: same_resource_steps split: sum.splits prod.splits\<close>)

definition one_move :: "lifecycle_state option \<Rightarrow> lifecycle_state option \<Rightarrow> bool" where
  "one_move a b \<longleftrightarrow> (\<exists>x y. a = Some x \<and> b = Some y \<and> allowed_move x y)"

lemma lc_step_one_move:
  assumes "default_matrix s" and "keeps_registration rid e"
  shows "default_matrix (lc_step e s) \<and> (rstate (lc_step e s) rid = rstate s rid \<or> one_move (rstate s rid) (rstate (lc_step e s) rid))"
  using lc_step_resource[OF assms]
  by (auto simp: resource_steps_def resource_step_def one_move_def rstate_def gates_None split: option.splits)

interpretation matrix_kept: machine lc_step "\<lambda>_. True" default_matrix
proof
  fix s e assume "default_matrix s"
  then show "default_matrix (lc_step e s)"
    using lc_step_one_move[of s undefined e]
    by (cases "keeps_registration undefined e") (auto elim!: keeps_registration.elims simp: register_resource_def Let_def split: sum.splits prod.splits)
qed

text \<open>
  C7. Every change of state is a documented move with its gate. In every state the engine reaches, a call leaves the
  state of a resource it does not register as it is, or makes a single move of the matrix, from the state the resource
  has to the target of that call; a move to DECOMMISSION_APPROVED finds every cross-team dependency acknowledged, one to
  PENDING_DELETION or DELETED finds no open retention obligation. And \<open>transition_state\<close> succeeds exactly on a
  registered resource whose move is in the matrix and passes these gates.
\<close>

theorem lifecycle_follows_matrix:
  fixes es :: "lc_event list"
  defines "matrix \<equiv> {(REQUESTED, PROVISIONED), (PROVISIONED, ACTIVE), (ACTIVE, IDLE_CANDIDATE),
     (ACTIVE, DECOMMISSION_PROPOSED), (IDLE_CANDIDATE, ACTIVE), (IDLE_CANDIDATE, DECOMMISSION_PROPOSED),
     (DECOMMISSION_PROPOSED, DECOMMISSION_APPROVED), (DECOMMISSION_PROPOSED, ACTIVE), (DECOMMISSION_APPROVED, STOPPED),
     (STOPPED, ACTIVE), (STOPPED, PENDING_DELETION), (PENDING_DELETION, DELETED), (DELETED, RETIRED)}"
    and "cleared \<equiv> \<lambda>r b. (b = DECOMMISSION_APPROVED \<longrightarrow> (\<forall>d \<in> set (lr_inbound_dependencies r). da_is_cross_team d \<longrightarrow> da_is_acknowledged d))
       \<and> (b \<in> {PENDING_DELETION, DELETED} \<longrightarrow> \<not> retention_open r)"
    and "s \<equiv> fold lc_step es (new_lifecycle None)"
  assumes "keeps_registration rid e"
  shows "(case dict_get (lc_resources s) rid of
       None \<Rightarrow> rstate (lc_step e s) rid = None
     | Some r \<Rightarrow> rstate (lc_step e s) rid = Some (lr_current_state r)
         \<or> (\<exists>b. rstate (lc_step e s) rid = Some b \<and> (lr_current_state r, b) \<in> matrix \<and> cleared r b \<and> causes e rid (lr_current_state r) b))
     \<and> (isl (fst (transition_state rid tgt now s)) \<longleftrightarrow>
          \<not> (\<exists>r. dict_get (lc_resources s) rid = Some r \<and> (lr_current_state r, tgt) \<in> matrix \<and> cleared r tgt))"
proof
  have "default_matrix (new_lifecycle None)" by (simp add: new_lifecycle_def)
  then have tm: "default_matrix s" unfolding s_def by (rule matrix_kept.inv_run) (simp add: list_all_iff)
  have matrix: "allowed_move a b \<longleftrightarrow> (a, b) \<in> matrix" for a b by (simp only: matrix_def allowed_move_simps)
  have gate: "gates PERMITTED_TRANSITIONS rid b r = None \<longleftrightarrow> (lr_current_state r, b) \<in> matrix \<and> cleared r b" for b r
    unfolding gates_None matrix[symmetric] cleared_def blocking_dependency_def by auto
  show "case dict_get (lc_resources s) rid of
       None \<Rightarrow> rstate (lc_step e s) rid = None
     | Some r \<Rightarrow> rstate (lc_step e s) rid = Some (lr_current_state r)
         \<or> (\<exists>b. rstate (lc_step e s) rid = Some b \<and> (lr_current_state r, b) \<in> matrix \<and> cleared r b \<and> causes e rid (lr_current_state r) b)"
    using lc_step_resource[OF tm assms(4)]
    by (auto simp: resource_steps_def resource_step_def rstate_def gate split: option.splits)
  show "isl (fst (transition_state rid tgt now s)) \<longleftrightarrow>
          \<not> (\<exists>r. dict_get (lc_resources s) rid = Some r \<and> (lr_current_state r, tgt) \<in> matrix \<and> cleared r tgt)"
    unfolding gate[symmetric] using tm by (auto simp: transition_state_def get_resource_def split: option.splits)
qed

definition demo_engine :: lifecycle where
  "demo_engine = snd (register_resource ''vm-1'' ''t1'' ''team-a'' ''vm'' 100 5 ACTIVE None (new_lifecycle None))"

lemma demo_engine_ok: "default_matrix demo_engine" "rstate demo_engine ''vm-1'' = Some ACTIVE"
  by code_simp+

text \<open>An active resource may not be stopped directly; submitting a request proposes it.\<close>

theorem lifecycle_follows_matrix_witness:
  "isl (fst (transition_state ''vm-1'' STOPPED 1 demo_engine))
   \<and> rstate (lc_step (Submit [''vm-1''] ''u'' ''team-a'' ''no longer used'' 0 None ''q1'' None 1) demo_engine) ''vm-1'' = Some DECOMMISSION_PROPOSED"
proof -
  let ?e = "Submit [''vm-1''] ''u'' ''team-a'' ''no longer used'' 0 None ''q1'' None 1"
  have d: "fold lc_step [Register ''vm-1'' ''t1'' ''team-a'' ''vm'' 100 5 ACTIVE None] (new_lifecycle None) = demo_engine"
    by (simp add: demo_engine_def)
  have k: "keeps_registration ''vm-1'' ?e" by simp
  have "isl (fst (transition_state ''vm-1'' STOPPED 1 demo_engine))"
    using lifecycle_follows_matrix[OF k, of "[Register ''vm-1'' ''t1'' ''team-a'' ''vm'' 100 5 ACTIVE None]" STOPPED 1] demo_engine_ok(2)
    unfolding d by (auto simp: rstate_def)
  moreover have "rstate (lc_step ?e demo_engine) ''vm-1'' = Some DECOMMISSION_PROPOSED" by code_simp
  ultimately show ?thesis ..
qed

section \<open>No deletion without approval, no deletion under retention\<close>

definition before_approval :: "lifecycle_state \<Rightarrow> bool" where
  "before_approval a \<longleftrightarrow> a \<in> {REQUESTED, PROVISIONED, ACTIVE, IDLE_CANDIDATE, DECOMMISSION_PROPOSED}"

lemma leave_before_approval: "one_move (Some a) b \<Longrightarrow> before_approval a \<Longrightarrow>
    \<exists>c. b = Some c \<and> (before_approval c \<or> c = DECOMMISSION_APPROVED)"
  by (auto simp: one_move_def allowed_move_simps before_approval_def)

text \<open>
  No shortcut to deletion: when a resource that starts before approval ends up STOPPED, PENDING_DELETION,
  DELETED or RETIRED, then after some event of the run it was DECOMMISSION_APPROVED, a state whose
  entry requires every cross-team dependency to be acknowledged.
\<close>

theorem deletion_needs_approval:
  assumes "default_matrix s" and "list_all (keeps_registration rid) es"
    and "rstate s rid = Some a" and "before_approval a"
    and "rstate (fold lc_step es s) rid = Some b" and "b \<in> {STOPPED, PENDING_DELETION, DELETED, RETIRED}"
  shows "\<exists>i \<le> length es. rstate (fold lc_step (take i es) s) rid = Some DECOMMISSION_APPROVED"
  using assms(1-5)
proof (induction es arbitrary: s a)
  case Nil
  then show ?case using assms(6) by (auto simp: before_approval_def)
next
  case (Cons e es)
  note st = lc_step_one_move[of s rid e]
  have "\<exists>c. rstate (lc_step e s) rid = Some c \<and> (before_approval c \<or> c = DECOMMISSION_APPROVED)"
    using st Cons.prems leave_before_approval[of a] by auto
  then obtain c where c: "rstate (lc_step e s) rid = Some c" "before_approval c \<or> c = DECOMMISSION_APPROVED" by blast
  show ?case
  proof (cases "c = DECOMMISSION_APPROVED")
    case True
    with c show ?thesis by (intro exI[of _ 1]) simp
  next
    case False
    then obtain i where "i \<le> length es" "rstate (fold lc_step (take i es) (lc_step e s)) rid = Some DECOMMISSION_APPROVED"
      using Cons.IH[of "lc_step e s" c] Cons.prems c st by auto
    then show ?thesis by (intro exI[of _ "Suc i"]) simp
  qed
qed

theorem deletion_needs_approval_witness:
  "\<exists>i \<le> 3. rstate (fold lc_step (take i [Submit [''vm-1''] ''u'' ''team-a'' ''no longer used'' 0 None ''q1'' None 1,
      Approve ''q1'' ''boss'' 2, Transition ''vm-1'' STOPPED 3]) demo_engine) ''vm-1'' = Some DECOMMISSION_APPROVED"
proof -
  let ?es = "[Submit [''vm-1''] ''u'' ''team-a'' ''no longer used'' 0 None ''q1'' None 1, Approve ''q1'' ''boss'' 2,
      Transition ''vm-1'' STOPPED 3]"
  have "rstate (fold lc_step ?es demo_engine) ''vm-1'' = Some STOPPED" by code_simp
  with demo_engine_ok deletion_needs_approval[of demo_engine "''vm-1''" ?es ACTIVE STOPPED] show ?thesis
    by (simp add: before_approval_def numeral_3_eq_3)
qed

text \<open>Resources under an open obligation that have not entered deletion.\<close>

definition under_retention :: "string \<Rightarrow> lifecycle \<Rightarrow> bool" where
  "under_retention rid s \<longleftrightarrow> default_matrix s \<and> (\<exists>r. dict_get (lc_resources s) rid = Some r \<and> retention_open r
     \<and> lr_current_state r \<notin> {PENDING_DELETION, DELETED, RETIRED})"

interpretation retention: machine lc_step "\<lambda>e. keeps_registration rid e \<and> \<not> satisfies rid e" "under_retention rid" for rid
proof
  fix s e assume "under_retention rid s" "keeps_registration rid e \<and> \<not> satisfies rid e"
  with lc_step_resource[of s rid e] show "under_retention rid (lc_step e s)"
    by (auto simp: under_retention_def resource_steps_def resource_step_def gates_None allowed_move_simps)
qed

text \<open>
  C8. No resource is deleted under an open retention obligation: once a resource with an open obligation is registered in
  a state before deletion, no sequence of calls that neither registers it anew nor signs the obligation off brings it to
  PENDING_DELETION, DELETED or RETIRED; the obligation stays open, and asking for PENDING_DELETION or DELETED
  raises without an effect, naming the obligation when the resource is stopped. (Registration itself checks nothing: it
  accepts a resource in any state with any obligation.)
\<close>

theorem no_deletion_under_retention:
  fixes hs es :: "lc_event list"
  defines "s \<equiv> fold lc_step hs (new_lifecycle None)" and "s' \<equiv> fold lc_step (hs @ es) (new_lifecycle None)"
  assumes "dict_get (lc_resources s) rid = Some r" and "lr_retention_obligation r = Some ob" and "\<not> ro_is_satisfied ob"
    and "lr_current_state r \<notin> {PENDING_DELETION, DELETED, RETIRED}"
    and "list_all (\<lambda>e. keeps_registration rid e \<and> \<not> satisfies rid e) es"
  shows "\<exists>r'. dict_get (lc_resources s') rid = Some r' \<and> lr_current_state r' \<notin> {PENDING_DELETION, DELETED, RETIRED} \<and> retention_open r'
    \<and> (\<forall>tgt \<in> {PENDING_DELETION, DELETED}. \<forall>now. snd (transition_state rid tgt now s') = s' \<and> isl (fst (transition_state rid tgt now s')))
    \<and> (lr_current_state r' = STOPPED \<longrightarrow> fst (transition_state rid PENDING_DELETION 0 s')
         = Inl (RetentionObligationUnsatisfiedException rid (ro_retention_basis (the (lr_retention_obligation r')))))"
proof -
  have "default_matrix s" unfolding s_def by (rule matrix_kept.inv_run) (simp_all add: new_lifecycle_def list_all_iff)
  then have "under_retention rid s" using assms(3-6) by (auto simp: under_retention_def retention_open_def)
  then have "under_retention rid (fold lc_step es s)" using assms(7) by (rule retention.inv_run)
  then obtain r' where r': "default_matrix s'" "dict_get (lc_resources s') rid = Some r'" "retention_open r'"
      "lr_current_state r' \<notin> {PENDING_DELETION, DELETED, RETIRED}"
    by (auto simp: under_retention_def s_def s'_def)
  have "gates PERMITTED_TRANSITIONS rid tgt r' \<noteq> None" if "tgt \<in> {PENDING_DELETION, DELETED}" for tgt
    using r'(3) that by (auto simp: gates_None)
  moreover have "gates PERMITTED_TRANSITIONS rid PENDING_DELETION r' = Some (RetentionObligationUnsatisfiedException rid (ro_retention_basis (the (lr_retention_obligation r'))))"
    if "lr_current_state r' = STOPPED" using r'(3) that by (simp add: gates_def allowed_move_simps)
  ultimately show ?thesis using r' by (auto simp: transition_state_def get_resource_def split: option.splits)
qed

definition demo_obligation :: retention_obligation where
  "demo_obligation = \<lparr> ro_obligation_id = ''o'', ro_retention_basis = ''TAX-AUDIT'', ro_mandatory_until = 0, ro_is_satisfied = False,
     ro_satisfied_by = None, ro_satisfied_at = None, ro_signoff_notes = None \<rparr>"

definition demo_retained :: "lc_event list" where
  "demo_retained = [Register ''v'' ''t'' ''a'' ''vm'' 100 5 STOPPED (Some demo_obligation)]"

theorem no_deletion_under_retention_witness:
  "fst (transition_state ''v'' PENDING_DELETION 0 (fold lc_step (demo_retained @ [Transition ''v'' PENDING_DELETION 1]) (new_lifecycle None)))
     = Inl (RetentionObligationUnsatisfiedException ''v'' ''TAX-AUDIT'')
   \<and> rstate (fold lc_step (demo_retained @ [Satisfy ''v'' ''officer'' ''ok'' 2, Transition ''v'' PENDING_DELETION 3]) (new_lifecycle None)) ''v''
     = Some PENDING_DELETION"
proof -
  let ?s = "fold lc_step demo_retained (new_lifecycle None)" and ?es = "[Transition ''v'' PENDING_DELETION 1]"
  let ?r = "the (dict_get (lc_resources ?s) ''v'')" and ?s' = "fold lc_step (demo_retained @ ?es) (new_lifecycle None)"
  have "dict_get (lc_resources ?s) ''v'' = Some ?r" "lr_retention_obligation ?r = Some demo_obligation" "\<not> ro_is_satisfied demo_obligation"
    "lr_current_state ?r \<notin> {PENDING_DELETION, DELETED, RETIRED}" "list_all (\<lambda>e. keeps_registration ''v'' e \<and> \<not> satisfies ''v'' e) ?es"
    by code_simp+
  from no_deletion_under_retention[OF this]
  obtain r' where "dict_get (lc_resources ?s') ''v'' = Some r'" and
    "lr_current_state r' = STOPPED \<longrightarrow> fst (transition_state ''v'' PENDING_DELETION 0 ?s')
       = Inl (RetentionObligationUnsatisfiedException ''v'' (ro_retention_basis (the (lr_retention_obligation r'))))" by blast
  moreover have "lr_current_state (the (dict_get (lc_resources ?s') ''v'')) = STOPPED"
    "lr_retention_obligation (the (dict_get (lc_resources ?s') ''v'')) = Some demo_obligation" "ro_retention_basis demo_obligation = ''TAX-AUDIT''"
    by code_simp+
  moreover have "rstate (fold lc_step (demo_retained @ [Satisfy ''v'' ''officer'' ''ok'' 2, Transition ''v'' PENDING_DELETION 3]) (new_lifecycle None)) ''v''
     = Some PENDING_DELETION" by code_simp
  ultimately show ?thesis by simp
qed

section \<open>Requests\<close>

lemma approve_one_Inr:
  assumes "approve_one now rid s = (Inr u, s')"
  obtains r where "dict_get (lc_resources s) rid = Some r" "gates (lc_transitions s) rid DECOMMISSION_APPROVED r = None"
    "s' = put_resource rid (enter_state DECOMMISSION_APPROVED now r) s"
  using assms by (cases rule: transition_cases[of rid DECOMMISSION_APPROVED now s]) (auto simp: approve_one_def)

lemma approve_all_Inr:
  "try_fold (approve_one now) rids s = (Inr u, s') \<Longrightarrow>
   (\<forall>rid \<in> set rids. \<exists>r. dict_get (lc_resources s) rid = Some r \<and> (\<forall>d \<in> set (lr_inbound_dependencies r). \<not> blocking_dependency d)
        \<and> rstate s' rid = Some DECOMMISSION_APPROVED)
   \<and> (\<forall>rid. rid \<notin> set rids \<longrightarrow> dict_get (lc_resources s') rid = dict_get (lc_resources s) rid)"
proof (induction rids arbitrary: s)
  case (Cons rid rids)
  obtain s1 where one: "approve_one now rid s = (Inr (), s1)" and rest: "try_fold (approve_one now) rids s1 = (Inr u, s')"
    using Cons.prems by (auto split: prod.splits sum.splits)
  obtain r where r: "dict_get (lc_resources s) rid = Some r" "gates (lc_transitions s) rid DECOMMISSION_APPROVED r = None"
    "s1 = put_resource rid (enter_state DECOMMISSION_APPROVED now r) s" using one by (rule approve_one_Inr)
  note IH = Cons.IH[OF rest]
  have "rstate s' rid = Some DECOMMISSION_APPROVED" using IH r by (cases "rid \<in> set rids") (auto simp: rstate_def)
  moreover have "\<exists>r. dict_get (lc_resources s) j = Some r \<and> (\<forall>d \<in> set (lr_inbound_dependencies r). \<not> blocking_dependency d)
      \<and> rstate s' j = Some DECOMMISSION_APPROVED" if "j \<in> set rids" "j \<noteq> rid" for j
    using IH that r by auto
  ultimately show ?case using IH r by (auto simp: gates_None)
qed simp

text \<open>
  An approved request had its impact check: when approval succeeds, every resource of the request
  was registered, no cross-team dependency on it was unacknowledged, all of them are now
  DECOMMISSION_APPROVED, and no other resource has changed.
\<close>

theorem approval_needs_acknowledgement:
  assumes "approve_decommissioning_request q who now s = (Inr req', s')"
  shows "dr_is_approved req' \<and> dict_get (lc_requests s') q = Some req'
    \<and> (\<forall>rid \<in> set (dr_resource_ids req'). \<exists>r. dict_get (lc_resources s) rid = Some r
         \<and> (\<forall>d \<in> set (lr_inbound_dependencies r). da_is_cross_team d \<longrightarrow> da_is_acknowledged d)
         \<and> rstate s' rid = Some DECOMMISSION_APPROVED)
    \<and> (\<forall>rid. rid \<notin> set (dr_resource_ids req') \<longrightarrow> rstate s' rid = rstate s rid)"
proof -
  obtain req s1 where req: "dict_get (lc_requests s) q = Some req"
    and all: "try_fold (approve_one now) (dr_resource_ids req) s = (Inr (), s1)"
    and out: "req' = req\<lparr>dr_is_approved := True, dr_approved_by := Some who, dr_approved_at := Some now\<rparr>"
      "s' = s1\<lparr>lc_requests := dict_set (lc_requests s1) q req'\<rparr>"
    using assms by (auto simp: approve_decommissioning_request_def Let_def split: option.splits prod.splits sum.splits)
  from approve_all_Inr[OF all] show ?thesis
    unfolding out by (auto simp: blocking_dependency_def rstate_def)
qed

theorem approval_needs_acknowledgement_witness:
  "\<exists>req' s'. approve_decommissioning_request ''q1'' ''boss'' 2
      (lc_step (Submit [''vm-1''] ''u'' ''team-a'' ''no longer used'' 0 None ''q1'' None 1) demo_engine) = (Inr req', s')
    \<and> dr_is_approved req'"
proof -
  let ?s = "lc_step (Submit [''vm-1''] ''u'' ''team-a'' ''no longer used'' 0 None ''q1'' None 1) demo_engine"
  have "\<not> isl (fst (approve_decommissioning_request ''q1'' ''boss'' 2 ?s))" by code_simp
  then obtain req' s' where a: "approve_decommissioning_request ''q1'' ''boss'' 2 ?s = (Inr req', s')"
    by (metis prod.collapse sum.collapse(2))
  with approval_needs_acknowledgement[OF a] show ?thesis by blast
qed

text \<open>
  A request is not atomic: when the second resource of a request is unknown the call raises and no
  request is recorded, but the first resource has been moved to DECOMMISSION_PROPOSED and stays
  there.
\<close>

theorem failed_submit_leaves_proposals:
  assumes "dict_get (lc_resources s) r1 = Some r" and "permitted (lc_transitions s) (lr_current_state r) DECOMMISSION_PROPOSED"
    and "dict_get (lc_resources s) r2 = None" and "5 \<le> length (strip justification)"
  shows "case submit_decommissioning_request [r1, r2] actor team justification intended prog q wid now s of
      (Inl e, s') \<Rightarrow> e = LifecycleException r2 \<and> lc_requests s' = lc_requests s
        \<and> rstate s' r1 = Some DECOMMISSION_PROPOSED
    | (Inr _, _) \<Rightarrow> False"
proof -
  have "r1 \<noteq> r2" using assms by auto
  moreover have "gates (lc_transitions s) r1 DECOMMISSION_PROPOSED r = None" using assms(2) by (simp add: gates_None)
  ultimately show ?thesis
    using assms by (simp add: submit_decommissioning_request_def transition_state_def get_resource_def)
qed

theorem failed_submit_leaves_proposals_witness:
  "case submit_decommissioning_request [''vm-1'', ''vm-2''] ''u'' ''team-a'' ''no longer used'' 0 None ''q1'' None 1 demo_engine of
     (Inl e, s') \<Rightarrow> rstate s' ''vm-1'' = Some DECOMMISSION_PROPOSED | (Inr _, _) \<Rightarrow> False"
proof -
  let ?r = "the (dict_get (lc_resources demo_engine) ''vm-1'')"
  have "dict_get (lc_resources demo_engine) ''vm-1'' = Some ?r" "dict_get (lc_resources demo_engine) ''vm-2'' = None"
    "permitted (lc_transitions demo_engine) (lr_current_state ?r) DECOMMISSION_PROPOSED"
    "5 \<le> length (strip ''no longer used'')" by code_simp+
  from failed_submit_leaves_proposals[OF this(1,3,2,4), of "''u''" "''team-a''" 0 None "''q1''" None 1] show ?thesis
    by (auto split: prod.splits sum.splits)
qed

end
