(* ===== verification/Monetary.thy ===== *)
theory Monetary
  imports Numerics
begin

text \<open>
  \<open>domain/rules/monetary.py\<close> and \<open>domain/rules/thresholds.py\<close>: amortisation, blended rate, variance
  ratio, budget and cost-spike bands, over \<open>Decimal\<close> arithmetic. Arguments are the \<open>Decimal\<close> values
  \<open>to_decimal\<close> yields; messages are left out.
\<close>

section \<open>Monetary rules\<close>

definition round_currency :: "nat \<Rightarrow> rat \<Rightarrow> arith_error + rat" where
  "round_currency places x = quantize places x"

record amortisation =
  am_daily_amortised_amount :: rat
  am_hourly_amortised_amount :: rat
  am_total_spread_amount :: rat
  am_rounding_adjustment :: rat

definition calculate_amortisation :: "rat \<Rightarrow> int \<Rightarrow> arith_error + amortisation" where
  "calculate_amortisation fee duration_days =
     (if duration_days \<le> 0 then Inl (ValueError ''Amortisation duration must be greater than zero days.'')
      else if fee < 0 then Inl (ValueError ''Upfront fee cannot be negative.'')
      else let days = of_int duration_days; hours = of_int (duration_days * 24) in
           try_bind (quantize 4 (ddiv fee days)) (\<lambda>daily_rate.
           try_bind (quantize 6 (ddiv fee hours)) (\<lambda>hourly_rate.
           try_bind (round_currency 2 daily_rate) (\<lambda>daily_two_places.
             let spread_subtotal = dmul daily_two_places days; adjustment = dsub fee spread_subtotal
             in Inr \<lparr> am_daily_amortised_amount = daily_two_places, am_hourly_amortised_amount = hourly_rate,
                      am_total_spread_amount = dadd spread_subtotal adjustment, am_rounding_adjustment = adjustment \<rparr>))))"

definition calculate_blended_rate :: "rat \<Rightarrow> rat \<Rightarrow> arith_error + rat" where
  "calculate_blended_rate cost usage = (if usage \<le> 0 then Inr 0 else quantize_up 6 (ddiv cost usage))"

definition calculate_variance_ratio :: "rat \<Rightarrow> rat \<Rightarrow> arith_error + rat" where
  "calculate_variance_ratio invoice calc =
     (if invoice = 0 then Inr (if calc = 0 then 0 else 1)
      else quantize_up 4 (ddiv \<bar>dsub invoice calc\<bar> invoice))"

section \<open>Bands\<close>

datatype threshold_band = NORMAL | AMBER | RED | CRITICAL

record budget_evaluation =
  be_consumption_percentage :: rat
  be_band :: threshold_band
  be_is_alert_triggered :: bool

definition evaluate_budget_threshold :: "rat \<Rightarrow> rat \<Rightarrow> rat \<Rightarrow> rat option \<Rightarrow> arith_error + budget_evaluation" where
  "evaluate_budget_threshold spend budget amber_limit crit =
     (let crit_limit = (case crit of Some c \<Rightarrow> c | None \<Rightarrow> 120);
          result = (\<lambda>pct band alert. \<lparr> be_consumption_percentage = pct, be_band = band, be_is_alert_triggered = alert \<rparr>)
      in if budget \<le> 0
         then Inr (if spend > 0 then result 100 CRITICAL True else result 0 NORMAL False)
         else try_bind (quantize 2 (dmul (ddiv spend budget) 100)) (\<lambda>pct.
                Inr (if pct \<ge> crit_limit then result pct CRITICAL True
                     else if pct \<ge> 100 then result pct RED True
                     else if pct \<ge> amber_limit then result pct AMBER True
                     else result pct NORMAL False)))"

record spike_evaluation =
  sp_delta_amount :: rat
  sp_percentage_increase :: rat
  sp_is_spike_detected :: bool
  sp_severity :: threshold_band

definition evaluate_cost_spike :: "rat \<Rightarrow> rat \<Rightarrow> rat \<Rightarrow> arith_error + spike_evaluation" where
  "evaluate_cost_spike base now_spend threshold =
     (let delta = dsub now_spend base;
          result = (\<lambda>d pct spike sev. \<lparr> sp_delta_amount = d, sp_percentage_increase = pct, sp_is_spike_detected = spike, sp_severity = sev \<rparr>)
      in if base \<le> 0
         then Inr (if now_spend > 0 then result now_spend 100 True RED else result 0 0 False NORMAL)
         else try_bind (quantize 2 (dmul (ddiv delta base) 100)) (\<lambda>pct.
                Inr (if pct \<ge> threshold
                     then result delta pct True (if pct \<ge> dmul threshold 2 then CRITICAL else AMBER)
                     else result delta pct False NORMAL)))"

definition evaluate_idle_resource :: "rat \<Rightarrow> rat \<Rightarrow> bool" where
  "evaluate_idle_resource metric thresh \<longleftrightarrow> metric < thresh"

section \<open>Exact decimal sums\<close>

text \<open>Amounts with six decimal places whose magnitude stays below \<open>10 ^ k\<close>.\<close>

definition micro :: "nat \<Rightarrow> rat \<Rightarrow> bool" where
  "micro k x \<longleftrightarrow> (\<exists>m :: int. x = of_int m / 10 ^ 6 \<and> \<bar>m\<bar> \<le> 10 ^ (k + 6))"

lemma micro_bound: "micro k x \<Longrightarrow> \<bar>x\<bar> \<le> 10 ^ k"
proof -
  assume "micro k x"
  then obtain m :: int where m: "x = of_int m / 10 ^ 6" "\<bar>m\<bar> \<le> 10 ^ (k + 6)" by (auto simp: micro_def)
  have "\<bar>of_int m :: rat\<bar> \<le> of_int (10 ^ (k + 6))"
    using m(2) by (metis of_int_abs of_int_le_iff)
  then show ?thesis by (simp add: m(1) power_add field_simps)
qed

lemma micro_dec: "micro k x \<Longrightarrow> k \<le> 21 \<Longrightarrow> dec x = x"
proof -
  assume "micro k x" "k \<le> 21"
  then obtain m :: int where m: "x = of_int m / 10 ^ 6" "\<bar>m\<bar> \<le> 10 ^ (k + 6)" by (auto simp: micro_def)
  have "(10 :: int) ^ (k + 6) \<le> 10 ^ 27" using \<open>k \<le> 21\<close> by (intro power_increasing) auto
  with m(2) have "\<bar>m\<bar> < 10 ^ 28" by simp
  then show ?thesis unfolding m(1) by (rule dec_exact)
qed

lemma micro_mono: "micro k x \<Longrightarrow> k \<le> l \<Longrightarrow> micro l x"
proof -
  assume "micro k x" "k \<le> l"
  then obtain m :: int where m: "x = of_int m / 10 ^ 6" "\<bar>m\<bar> \<le> 10 ^ (k + 6)" by (auto simp: micro_def)
  have "(10 :: int) ^ (k + 6) \<le> 10 ^ (l + 6)" using \<open>k \<le> l\<close> by (intro power_increasing) auto
  with m show ?thesis unfolding micro_def by (blast intro: order_trans)
qed

lemma micro_of_places:
  assumes "x = of_int p / 10 ^ n" and "n \<le> 6" and "\<bar>x\<bar> \<le> 10 ^ k" shows "micro k x"
proof -
  have e: "(10 :: rat) ^ 6 = 10 ^ n * 10 ^ (6 - n)"
    using assms(2) by (metis power_add le_add_diff_inverse)
  have x: "x = of_int (p * 10 ^ (6 - n)) / 10 ^ 6"
    unfolding assms(1) e of_int_mult of_int_power of_int_numeral by (simp add: field_simps)
  have "\<bar>x\<bar> * 10 ^ 6 \<le> 10 ^ k * 10 ^ 6" using assms(3) by simp
  then have "\<bar>of_int (p * 10 ^ (6 - n)) :: rat\<bar> \<le> of_int (10 ^ (k + 6))"
    by (subst (asm) x) (simp add: power_add)
  then have "\<bar>p * 10 ^ (6 - n)\<bar> \<le> 10 ^ (k + 6)" by (metis of_int_abs of_int_le_iff)
  with x show ?thesis unfolding micro_def by blast
qed

lemma micro_int_form: "micro k x \<Longrightarrow> \<exists>p :: int. x = of_int p / 10 ^ 6"
  by (auto simp: micro_def)

lemma micro_add:
  assumes "micro k x" and "micro l y" and "\<bar>x + y\<bar> \<le> 10 ^ n" shows "micro n (x + y)"
proof -
  obtain p q :: int where "x = of_int p / 10 ^ 6" "y = of_int q / 10 ^ 6" using assms micro_int_form by blast
  then have "x + y = of_int (p + q) / 10 ^ 6" by (simp add: add_divide_distrib)
  from micro_of_places[OF this _ assms(3)] show ?thesis by simp
qed

lemma micro_diff:
  assumes "micro k x" and "micro l y" and "\<bar>x - y\<bar> \<le> 10 ^ n" shows "micro n (x - y)"
proof -
  have "micro l (- y)" using assms(2) unfolding micro_def by (metis abs_minus_cancel minus_divide_left of_int_minus)
  from micro_add[OF assms(1) this, of n] assms(3) show ?thesis by simp
qed

lemma quantize_micro:
  assumes "quantize n x = Inr y" and "n \<le> 6" and "\<bar>y\<bar> \<le> 10 ^ k" shows "micro k y"
proof -
  have "y = of_int (round_half_even (x * 10 ^ n)) / 10 ^ n"
    using assms(1) by (auto simp: quantize_with_def Let_def split: if_splits)
  then show ?thesis using assms(2,3) by (rule micro_of_places)
qed

text \<open>Quantizing a bounded amount to at most six places succeeds and moves it by less than one.\<close>

lemma quantize_bounded:
  assumes "\<bar>x\<bar> \<le> 10 ^ k" and "k \<le> 20" and "n \<le> 6"
  shows "\<exists>y. quantize n x = Inr y \<and> micro (k + 1) y \<and> \<bar>y\<bar> \<le> \<bar>x\<bar> + 1"
proof -
  have "\<bar>x\<bar> * 10 ^ n \<le> 10 ^ k * 10 ^ n" using assms(1) by simp
  also have "(10 :: rat) ^ k * 10 ^ n \<le> 10 ^ 20 * 10 ^ 6"
    using assms(2,3) by (intro mult_mono power_increasing) auto
  finally have "\<bar>x\<bar> * 10 ^ n + 1 < 10 ^ 28" by simp
  then obtain y where y: "quantize n x = Inr y" using quantize_total by blast
  have ge1: "(1 :: rat) \<le> 10 ^ j" for j by (rule one_le_power) simp
  have "(1 :: rat) \<le> 2 * 10 ^ n" using ge1[of n] by linarith
  then have "(1 :: rat) / (2 * 10 ^ n) \<le> 1" by (simp add: divide_le_eq)
  with quantize_error[OF y] have b: "\<bar>y\<bar> \<le> \<bar>x\<bar> + 1" by linarith
  have "\<bar>x\<bar> + 1 \<le> 10 * 10 ^ k" using assms(1) ge1[of k] by linarith
  then have "\<bar>x\<bar> + 1 \<le> 10 ^ (k + 1)" by simp
  with b have "micro (k + 1) y" by (intro quantize_micro[OF y assms(3)]) linarith
  with y b show ?thesis by blast
qed

section \<open>Amortisation reconciles\<close>

lemma ddiv_le_self:
  assumes "0 \<le> x" and "dec x = x" and "1 \<le> d" shows "0 \<le> ddiv x d" "ddiv x d \<le> x"
proof -
  have "x * 1 \<le> x * d" using assms(1,3) by (rule mult_left_mono[rotated])
  then have "0 \<le> x / d" "x / d \<le> x" using assms(1,3) by (simp_all add: divide_le_eq)
  then show "0 \<le> ddiv x d" "ddiv x d \<le> x"
    by (blast intro: decimal.rnd_nonneg decimal.rnd_le_fixed[OF assms(2)])+
qed

text \<open>
  Amortisation reconciles exactly: for a fee with up to six decimal places of at most
  \<open>10 ^ 14\<close> and a duration of at most a million days, the schedule exists and the daily amount times
  the days plus the rounding adjustment is the fee, digit for digit; so is the reported total.
\<close>

theorem amortisation_reconciles:
  assumes "micro 14 fee" and "0 \<le> fee" and "0 < days" and "days \<le> 10 ^ 6"
  shows "\<exists>a. calculate_amortisation fee days = Inr a
    \<and> am_daily_amortised_amount a * of_int days + am_rounding_adjustment a = fee
    \<and> am_total_spread_amount a = fee"
proof -
  have fee: "\<bar>fee\<bar> \<le> 10 ^ 14" "dec fee = fee" using micro_bound[OF assms(1)] micro_dec[OF assms(1)] by simp_all
  have d: "(1 :: rat) \<le> of_int days" "(of_int days :: rat) \<le> 10 ^ 6" "(1 :: rat) \<le> of_int (days * 24)"
    using assms(3,4) of_int_le_iff[of days "10 ^ 6", where 'a = rat] by simp_all
  have q: "\<bar>ddiv fee x\<bar> \<le> 10 ^ 14" if "1 \<le> x" for x
    using ddiv_le_self[OF assms(2) fee(2) that] fee(1) assms(2) by linarith
  obtain dr where dr: "quantize 4 (ddiv fee (of_int days)) = Inr dr" "\<bar>dr\<bar> \<le> 10 ^ 14 + 1"
    using quantize_bounded[OF q[OF d(1)], of 4] q[OF d(1)] by fastforce
  obtain hr where hr: "quantize 6 (ddiv fee (of_int (days * 24))) = Inr hr"
    using quantize_bounded[OF q[OF d(3)], of 6] by auto
  obtain p where p: "quantize 2 dr = Inr p" "\<bar>p\<bar> \<le> 10 ^ 14 + 2"
    using quantize_bounded[of dr 15 2] dr(2) by fastforce
  have "\<bar>p * of_int days\<bar> \<le> (10 ^ 14 + 2) * 10 ^ 6"
    unfolding abs_mult using p(2) d by (intro mult_mono) simp_all
  then have b: "\<bar>p * of_int days\<bar> \<le> 10 ^ 21" by simp
  obtain pm :: int where "p = of_int pm / 10 ^ 2"
    using quantize_with_fixed_point[OF p(1)] by (auto simp: fixed_point_def)
  then have "p * of_int days = of_int (pm * days) / 10 ^ 2" by simp
  from micro_of_places[OF this _ b] have spread: "micro 21 (p * of_int days)" by simp
  have adj: "micro 21 (fee - p * of_int days)"
    using fee(1) \<open>\<bar>p * of_int days\<bar> \<le> (10 ^ 14 + 2) * 10 ^ 6\<close> by (intro micro_diff[OF assms(1) spread]) simp
  have "calculate_amortisation fee days = Inr \<lparr> am_daily_amortised_amount = p, am_hourly_amortised_amount = hr,
      am_total_spread_amount = fee, am_rounding_adjustment = fee - p * of_int days \<rparr>"
    using assms(2,3) dr(1) hr p(1) micro_dec[OF spread] micro_dec[OF adj] fee(2)
    by (simp add: calculate_amortisation_def round_currency_def Let_def)
  then show ?thesis by simp
qed

theorem amortisation_reconciles_witness:
  "\<exists>a. calculate_amortisation 1000 365 = Inr a \<and> am_daily_amortised_amount a * 365 + am_rounding_adjustment a = 1000"
proof -
  have "micro 14 1000" unfolding micro_def by (rule exI[of _ "1000000000"]) simp
  from amortisation_reconciles[OF this, of 365] show ?thesis by auto
qed

section \<open>Bands are monotone, ratios are not absolute\<close>

fun band_rank :: "threshold_band \<Rightarrow> nat" where
  "band_rank NORMAL = 0"
| "band_rank AMBER = 1"
| "band_rank RED = 2"
| "band_rank CRITICAL = 3"

lemma quantize_mono:
  assumes "quantize n x = Inr a" and "quantize n y = Inr b" and "x \<le> y" shows "a \<le> b"
proof -
  have "x * 10 ^ n \<le> y * 10 ^ n" using assms(3) by simp
  from round_half_even_mono[OF this] show ?thesis
    using assms(1,2) by (auto simp: quantize_with_def Let_def divide_right_mono split: if_splits)
qed

lemma share_mono:
  assumes "0 < budget" and "s \<le> t" shows "dmul (ddiv s budget) 100 \<le> dmul (ddiv t budget) 100"
proof -
  have "ddiv s budget \<le> ddiv t budget" using assms by (intro decimal.rnd_mono divide_right_mono) simp_all
  then show ?thesis by (intro decimal.rnd_mono) simp
qed

text \<open>
  Budget bands are monotone: with the same budget and limits, more spend is never put in a milder
  band, despite the rounding of the percentage; and an alert is raised exactly outside NORMAL.
\<close>

theorem budget_band_monotone:
  assumes "evaluate_budget_threshold s budget amber crit = Inr e" and "evaluate_budget_threshold t budget amber crit = Inr f"
    and "s \<le> t"
  shows "band_rank (be_band e) \<le> band_rank (be_band f) \<and> (be_is_alert_triggered e \<longleftrightarrow> be_band e \<noteq> NORMAL)"
proof (cases "budget \<le> 0")
  case True
  then show ?thesis using assms by (auto simp: evaluate_budget_threshold_def Let_def split: if_splits)
next
  case False
  then obtain p q where p: "quantize 2 (dmul (ddiv s budget) 100) = Inr p" and q: "quantize 2 (dmul (ddiv t budget) 100) = Inr q"
    using assms by (auto simp: evaluate_budget_threshold_def Let_def try_bind_eq_Inr)
  have "p \<le> q" using quantize_mono[OF p q] share_mono[of budget s t] False assms(3) by simp
  with False assms p q show ?thesis
    by (auto simp: evaluate_budget_threshold_def Let_def split: if_splits)
qed

theorem budget_band_monotone_witness:
  "band_rank (be_band (projr (evaluate_budget_threshold 85 100 80 None)))
     \<le> band_rank (be_band (projr (evaluate_budget_threshold 101 100 80 None)))"
proof -
  have "evaluate_budget_threshold 85 100 80 None = Inr (projr (evaluate_budget_threshold 85 100 80 None))"
    "evaluate_budget_threshold 101 100 80 None = Inr (projr (evaluate_budget_threshold 101 100 80 None))" by code_simp+
  from budget_band_monotone[OF this] show ?thesis by simp
qed

lemma round_half_up_nonpos: "x \<le> 0 \<Longrightarrow> round_half_up x \<le> 0"
  by (cases "x = 0") (simp_all add: round_half_up_def)

text \<open>
  The variance ratio is documented as the absolute discrepancy, but the discrepancy is divided by
  the signed invoice total: for a credit note (a negative invoice total) the ratio is never
  positive, however large the discrepancy, so no positive tolerance is ever exceeded.
\<close>

theorem credit_note_variance_not_positive:
  assumes "invoice < 0" and "calculate_variance_ratio invoice calc = Inr r"
  shows "r \<le> 0"
proof -
  have "\<bar>dsub invoice calc\<bar> / invoice \<le> 0" using assms(1) by (simp add: divide_nonneg_neg)
  then have "ddiv \<bar>dsub invoice calc\<bar> invoice * 10 ^ 4 \<le> 0" using decimal.rnd_nonpos by simp
  from round_half_up_nonpos[OF this] show ?thesis
    using assms by (auto simp: calculate_variance_ratio_def quantize_with_def Let_def split: if_splits)
qed

theorem credit_note_variance_not_positive_witness:
  "projr (calculate_variance_ratio (-100) 900) \<le> 0 \<and> calculate_variance_ratio (-100) 900 = Inr (-10)"
proof -
  have "calculate_variance_ratio (-100) 900 = Inr (-10)" by code_simp
  with credit_note_variance_not_positive[of "-100" 900 "-10"] show ?thesis by simp
qed

end
