(* ===== verification/Allocation.thy ===== *)
theory Allocation
  imports Monetary "HOL-Library.Product_Lexorder" "HOL-Library.Multiset"
begin

text \<open>
  \<open>domain/attribution/allocation.py\<close> with the allocation models: validated rules kept in precedence
  order, first-match-wins evaluation, and penny-exact splits.

  A measure is a value or one of the four null states. Explanations are kept as the facts they
  render (the winning rule's type, identifier and name are fields of the row anyway).
\<close>

section \<open>Data\<close>

datatype allocation_rule_type = DIRECT_RESOURCE | TAG_RULE | SCOPE_RULE | SERVICE_RULE | SPLIT_RULE | UNALLOCATED

datatype measure_null_state = NOT_SUPPORTED | NO_DATA | NO_COST | NOT_APPLICABLE
datatype measure = Present rat | Absent measure_null_state

fun is_present :: "measure \<Rightarrow> bool" where
  "is_present (Present v) = True"
| "is_present (Absent n) = False"

fun value_or :: "rat \<Rightarrow> measure \<Rightarrow> rat" where
  "value_or d (Present v) = v"
| "value_or d (Absent n) = d"

record split_target =
  st_cost_center_code :: string
  st_business_unit_code :: "string option"
  st_percentage :: rat

record allocation_rule =
  al_id :: string
  al_name :: string
  al_rule_type :: allocation_rule_type
  al_priority :: int
  al_match_resource_id :: "string option"
  al_match_tag_key :: "string option"
  al_match_tag_value :: "string option"
  al_match_scope_id :: "string option"
  al_match_service_id :: "string option"
  al_match_service_category :: "string option"
  al_target_cost_center_code :: "string option"
  al_target_business_unit_code :: "string option"
  al_target_project_code :: "string option"
  al_split_targets :: "split_target list"
  al_is_active :: bool

record cost_fact =
  cf_id :: string
  cf_resource_id :: "string option"
  cf_scope_id :: string
  cf_billed_cost :: measure
  cf_effective_cost :: measure
  cf_billing_currency :: string

record service =
  sv_id :: string
  sv_service_code :: string
  sv_category :: string

record allocated_row =
  ar_cost_fact_id :: string
  ar_resource_id :: "string option"
  ar_scope_id :: string
  ar_total_cost :: rat
  ar_allocated_amount :: rat
  ar_currency :: string
  ar_cost_center_code :: string
  ar_business_unit_code :: "string option"
  ar_project_code :: "string option"
  ar_winning_rule_type :: allocation_rule_type
  ar_winning_rule_id :: "string option"
  ar_winning_rule_name :: string
  ar_split_percentage :: rat

datatype allocation_error = InvalidSplitRuleException string | Allocation_arith arith_error

section \<open>Rules\<close>

definition percentage_sum :: "split_target list \<Rightarrow> rat" where
  "percentage_sum ts = foldl (\<lambda>acc t. dadd acc (st_percentage t)) 0 ts"

definition validate_split_percentages :: "allocation_rule \<Rightarrow> allocation_error + allocation_rule" where
  "validate_split_percentages r =
     (if al_rule_type r = SPLIT_RULE \<and> (al_split_targets r = [] \<or> percentage_sum (al_split_targets r) \<noteq> 100)
      then Inl (InvalidSplitRuleException (al_name r)) else Inr r)"

fun rule_tier_rank :: "allocation_rule_type \<Rightarrow> int" where
  "rule_tier_rank DIRECT_RESOURCE = 1"
| "rule_tier_rank TAG_RULE = 2"
| "rule_tier_rank SCOPE_RULE = 3"
| "rule_tier_rank SERVICE_RULE = 4"
| "rule_tier_rank SPLIT_RULE = 5"
| "rule_tier_rank UNALLOCATED = 6"

definition precedence :: "allocation_rule \<Rightarrow> int \<times> int" where
  "precedence r = (rule_tier_rank (al_rule_type r), al_priority r)"

definition sort_rules :: "allocation_rule list \<Rightarrow> allocation_rule list" where
  "sort_rules rs = sort_key precedence rs"

definition add_rule :: "allocation_rule \<Rightarrow> allocation_rule list \<Rightarrow> allocation_error + allocation_rule list" where
  "add_rule r rs = try_bind (validate_split_percentages r) (\<lambda>_. Inr (sort_rules (rs @ [r])))"

fun new_engine :: "allocation_rule list \<Rightarrow> allocation_rule list \<Rightarrow> allocation_error + allocation_rule list" where
  "new_engine [] rs = Inr rs"
| "new_engine (r # todo) rs = try_bind (add_rule r rs) (\<lambda>rs'. new_engine todo rs')"

section \<open>Matching\<close>

definition tag_matches :: "allocation_rule \<Rightarrow> string \<times> string \<Rightarrow> bool" where
  "tag_matches r t \<longleftrightarrow> lower (fst t) = lower (the (al_match_tag_key r))
     \<and> (case al_match_tag_value r of None \<Rightarrow> True | Some v \<Rightarrow> lower (strip (snd t)) = lower v)"

definition service_matches :: "allocation_rule \<Rightarrow> service \<Rightarrow> bool" where
  "service_matches r sv \<longleftrightarrow>
     (truthy (al_match_service_id r) \<and>
        (sv_id sv = the (al_match_service_id r) \<or> lower (sv_service_code sv) = lower (the (al_match_service_id r))))
     \<or> (truthy (al_match_service_category r) \<and> sv_category sv = the (al_match_service_category r))"

definition rule_matches ::
  "cost_fact \<Rightarrow> string option \<Rightarrow> (string \<times> string) list \<Rightarrow> service option \<Rightarrow> allocation_rule \<Rightarrow> bool" where
  "rule_matches cf resource tags service r =
     (case al_rule_type r of
        DIRECT_RESOURCE \<Rightarrow> truthy (al_match_resource_id r) \<and>
          (resource = al_match_resource_id r \<or> cf_resource_id cf = al_match_resource_id r)
      | TAG_RULE \<Rightarrow> truthy (al_match_tag_key r) \<and> list_ex (tag_matches r) tags
      | SCOPE_RULE \<Rightarrow> truthy (al_match_scope_id r) \<and> Some (cf_scope_id cf) = al_match_scope_id r
      | SERVICE_RULE \<Rightarrow> (case service of None \<Rightarrow> False | Some sv \<Rightarrow> service_matches r sv)
      | SPLIT_RULE \<Rightarrow>
          \<not> (truthy (al_match_scope_id r) \<and> Some (cf_scope_id cf) \<noteq> al_match_scope_id r)
          \<and> \<not> (truthy (al_match_service_id r) \<and>
                (case service of None \<Rightarrow> False | Some sv \<Rightarrow> Some (sv_service_code sv) \<noteq> al_match_service_id r))
      | UNALLOCATED \<Rightarrow> False)"

section \<open>Allocation\<close>

definition base_row :: "cost_fact \<Rightarrow> rat \<Rightarrow> allocated_row" where
  "base_row cf total_cost =
     \<lparr> ar_cost_fact_id = cf_id cf, ar_resource_id = cf_resource_id cf, ar_scope_id = cf_scope_id cf,
       ar_total_cost = total_cost, ar_allocated_amount = total_cost, ar_currency = cf_billing_currency cf,
       ar_cost_center_code = ''UNALLOCATED'', ar_business_unit_code = None, ar_project_code = None,
       ar_winning_rule_type = UNALLOCATED, ar_winning_rule_id = None,
       ar_winning_rule_name = ''Default Unallocated Fallback'', ar_split_percentage = 100 \<rparr>"

definition single_row :: "cost_fact \<Rightarrow> rat \<Rightarrow> allocation_rule \<Rightarrow> allocated_row" where
  "single_row cf total_cost r =
     (base_row cf total_cost)\<lparr>
       ar_cost_center_code := (if truthy (al_target_cost_center_code r) then the (al_target_cost_center_code r) else ''UNALLOCATED''),
       ar_business_unit_code := al_target_business_unit_code r, ar_project_code := al_target_project_code r,
       ar_winning_rule_type := al_rule_type r, ar_winning_rule_id := Some (al_id r), ar_winning_rule_name := al_name r\<rparr>"

definition split_row :: "cost_fact \<Rightarrow> rat \<Rightarrow> allocation_rule \<Rightarrow> split_target \<Rightarrow> rat \<Rightarrow> allocated_row" where
  "split_row cf total_cost r t share =
     (base_row cf total_cost)\<lparr>
       ar_allocated_amount := share, ar_cost_center_code := st_cost_center_code t,
       ar_business_unit_code := st_business_unit_code t, ar_project_code := al_target_project_code r,
       ar_winning_rule_type := SPLIT_RULE, ar_winning_rule_id := Some (al_id r), ar_winning_rule_name := al_name r,
       ar_split_percentage := st_percentage t\<rparr>"

text \<open>The loop over the split targets; \<open>so_far\<close> is \<open>allocated_so_far\<close>.\<close>

fun split_shares :: "cost_fact \<Rightarrow> rat \<Rightarrow> allocation_rule \<Rightarrow> split_target list \<Rightarrow> rat \<Rightarrow> arith_error + allocated_row list" where
  "split_shares cf total_cost r [] so_far = Inr []"
| "split_shares cf total_cost r [t] so_far = Inr [split_row cf total_cost r t (dsub total_cost so_far)]"
| "split_shares cf total_cost r (t # t' # ts) so_far =
     try_bind (round_currency 2 (dmul total_cost (ddiv (st_percentage t) 100))) (\<lambda>share.
     try_bind (split_shares cf total_cost r (t' # ts) (dadd so_far share)) (\<lambda>rows.
       Inr (split_row cf total_cost r t share # rows)))"

definition total_cost_of :: "cost_fact \<Rightarrow> rat" where
  "total_cost_of cf = (if is_present (cf_effective_cost cf) then value_or 0 (cf_effective_cost cf) else value_or 0 (cf_billed_cost cf))"

definition allocate_cost_fact ::
  "allocation_rule list \<Rightarrow> cost_fact \<Rightarrow> string option \<Rightarrow> (string \<times> string) list \<Rightarrow> service option
   \<Rightarrow> allocation_error + allocated_row list" where
  "allocate_cost_fact rules cf resource tags service =
     (let total_cost = total_cost_of cf in
      case find (rule_matches cf resource tags service) (filter al_is_active rules) of
        None \<Rightarrow> Inr [base_row cf total_cost]
      | Some r \<Rightarrow>
          if al_rule_type r = SPLIT_RULE
          then (case split_shares cf total_cost r (al_split_targets r) 0 of
                  Inl e \<Rightarrow> Inl (Allocation_arith e) | Inr rows \<Rightarrow> Inr rows)
          else Inr [single_row cf total_cost r])"

section \<open>Every cost is allocated to the cent\<close>

lemma dec_one [simp]: "dec 1 = 1"
  using dec_of_int[of 1] by simp

lemma ratio_bounds:
  assumes "0 \<le> p" and "p \<le> 100" shows "0 \<le> ddiv p 100 \<and> ddiv p 100 \<le> 1"
  by (rule decimal.rnd_between) (use assms in \<open>simp_all add: decimal.rnd_0\<close>)

lemma share_bounded:
  assumes "micro 14 total_cost" and "0 \<le> p" and "p \<le> 100"
  shows "\<exists>share. round_currency 2 (dmul total_cost (ddiv p 100)) = Inr share \<and> micro 15 share \<and> \<bar>share\<bar> \<le> 10 ^ 14 + 1"
proof -
  let ?r = "ddiv p 100"
  have t: "\<bar>total_cost\<bar> \<le> 10 ^ 14" "dec total_cost = total_cost" using micro_bound[OF assms(1)] micro_dec[OF assms(1)] by simp_all
  then have fixed: "dec \<bar>total_cost\<bar> = \<bar>total_cost\<bar>" "dec (- \<bar>total_cost\<bar>) = - \<bar>total_cost\<bar>"
    using decimal.rnd_uminus[of total_cost] decimal.rnd_uminus[of "\<bar>total_cost\<bar>"] by (simp_all add: abs_if)
  have r: "0 \<le> ?r" "?r \<le> 1" using ratio_bounds[OF assms(2,3)] by simp_all
  have "\<bar>total_cost * ?r\<bar> \<le> \<bar>total_cost\<bar> * 1" unfolding abs_mult using r by (intro mult_left_mono) simp_all
  then have "\<bar>dmul total_cost ?r\<bar> \<le> \<bar>total_cost\<bar>"
    using decimal.rnd_between[OF fixed(2,1), of "total_cost * ?r"] by linarith
  with t(1) have "\<bar>dmul total_cost ?r\<bar> \<le> 10 ^ 14" by linarith
  from quantize_bounded[OF this, of 2] show ?thesis
    using \<open>\<bar>dmul total_cost ?r\<bar> \<le> 10 ^ 14\<close> by (force simp: round_currency_def)
qed

text \<open>At most \<open>n\<close> shares have been summed; no sum leaves the exact range.\<close>

lemma split_shares_sum:
  assumes "micro 14 total_cost" and "\<forall>t \<in> set ts. 0 \<le> st_percentage t \<and> st_percentage t \<le> 100" and "ts \<noteq> []"
    and "micro 20 so_far" and "\<bar>so_far\<bar> \<le> of_nat n * (10 ^ 14 + 1)" and "n + length ts \<le> 10 ^ 5"
  shows "\<exists>rows. split_shares cf total_cost r ts so_far = Inr rows \<and> length rows = length ts
    \<and> sum_list (map ar_allocated_amount rows) = total_cost - so_far
    \<and> (\<forall>row \<in> set rows. ar_total_cost row = total_cost \<and> ar_winning_rule_id row = Some (al_id r) \<and> ar_winning_rule_type row = SPLIT_RULE)"
  using assms(2-)
proof (induction ts arbitrary: so_far n rule: induct_list012)
  case (2 t)
  have "(of_nat n :: rat) * (10 ^ 14 + 1) \<le> 10 ^ 5 * (10 ^ 14 + 1)"
    using "2.prems"(5) of_nat_mono[of n "10 ^ 5", where 'a = rat] by (intro mult_right_mono) simp_all
  then have "\<bar>total_cost - so_far\<bar> \<le> 10 ^ 21"
    using micro_bound[OF assms(1)] "2.prems"(4) by simp
  from micro_dec[OF micro_diff[OF assms(1) "2.prems"(3) this]] show ?case
    by (simp add: split_row_def base_row_def)
next
  case (3 t t' ts)
  obtain share where sh: "round_currency 2 (dmul total_cost (ddiv (st_percentage t) 100)) = Inr share"
      "micro 15 share" "\<bar>share\<bar> \<le> 10 ^ 14 + 1"
    using share_bounded[OF assms(1), of "st_percentage t"] "3.prems"(1) by auto
  have b: "\<bar>so_far + share\<bar> \<le> of_nat (Suc n) * (10 ^ 14 + 1)"
    using "3.prems"(4) sh(3) by (simp add: distrib_right)
  have "(of_nat (Suc n) :: rat) * (10 ^ 14 + 1) \<le> 10 ^ 5 * (10 ^ 14 + 1)"
    using "3.prems"(5) of_nat_mono[of "Suc n" "10 ^ 5", where 'a = rat] by (intro mult_right_mono) simp_all
  with b have "\<bar>so_far + share\<bar> \<le> 10 ^ 20" by simp
  from micro_add[OF "3.prems"(3) sh(2) this] have m: "micro 20 (so_far + share)" .
  have e: "dadd so_far share = so_far + share" using micro_dec[OF m] by simp
  obtain rows where "split_shares cf total_cost r (t' # ts) (so_far + share) = Inr rows" "length rows = length (t' # ts)"
      "sum_list (map ar_allocated_amount rows) = total_cost - (so_far + share)"
      "\<forall>row \<in> set rows. ar_total_cost row = total_cost \<and> ar_winning_rule_id row = Some (al_id r) \<and> ar_winning_rule_type row = SPLIT_RULE"
    using "3.IH"(2)[OF _ _ m b] "3.prems"(1,5) by auto
  with sh(1) e show ?case by (simp add: split_row_def base_row_def)
qed simp

lemma split_shares_winner:
  "split_shares cf total_cost r ts so_far = Inr rows \<Longrightarrow>
   \<forall>row \<in> set rows. ar_winning_rule_id row = Some (al_id r) \<and> ar_winning_rule_type row = SPLIT_RULE"
proof (induction ts arbitrary: so_far rows rule: induct_list012)
  case (3 t t' ts)
  then show ?case by (auto simp: try_bind_eq_Inr split_row_def)
qed (auto simp: split_row_def)

definition split_ok :: "allocation_rule \<Rightarrow> bool" where
  "split_ok r \<longleftrightarrow> al_rule_type r = SPLIT_RULE \<longrightarrow>
     length (al_split_targets r) \<le> 10 ^ 5 \<and> (\<forall>t \<in> set (al_split_targets r). 0 \<le> st_percentage t \<and> st_percentage t \<le> 100)"

lemma validated_split: "validate_split_percentages r = Inr x \<Longrightarrow> al_rule_type r = SPLIT_RULE \<Longrightarrow> al_split_targets r \<noteq> []"
  by (auto simp: validate_split_percentages_def split: if_splits)

text \<open>
  C14. Cost is conserved: for a cost with up to six decimal places of at most \<open>10 ^ 14\<close>, and split
  rules that passed validation with percentages between 0 and 100, the allocation succeeds and the
  allocated amounts of the rows add up to the cost exactly, whatever rule wins.
\<close>

theorem allocation_conserves_cost:
  assumes "\<forall>r \<in> set rules. validate_split_percentages r = Inr r \<and> split_ok r" and "micro 14 (total_cost_of cf)"
  shows "\<exists>rows. allocate_cost_fact rules cf resource tags service = Inr rows \<and> rows \<noteq> []
    \<and> sum_list (map ar_allocated_amount rows) = total_cost_of cf"
proof (cases "find (rule_matches cf resource tags service) (filter al_is_active rules)")
  case None
  then show ?thesis by (simp add: allocate_cost_fact_def base_row_def Let_def)
next
  case (Some r)
  then have r: "validate_split_percentages r = Inr r" "split_ok r"
    using find_SomeD[OF Some] assms(1) by auto
  show ?thesis
  proof (cases "al_rule_type r = SPLIT_RULE")
    case True
    have "micro 20 0" unfolding micro_def by (rule exI[of _ 0]) simp
    with True r validated_split[OF r(1)] obtain rows where "split_shares cf (total_cost_of cf) r (al_split_targets r) 0 = Inr rows"
      "length rows = length (al_split_targets r)" "sum_list (map ar_allocated_amount rows) = total_cost_of cf - 0"
      using split_shares_sum[OF assms(2), of "al_split_targets r" 0 0 cf r] by (auto simp: split_ok_def)
    with True Some validated_split[OF r(1) True] show ?thesis by (auto simp: allocate_cost_fact_def)
  qed (use Some in \<open>simp add: allocate_cost_fact_def single_row_def base_row_def Let_def\<close>)
qed

definition demo_cost :: "rat \<Rightarrow> cost_fact" where
  "demo_cost v = \<lparr> cf_id = ''c'', cf_resource_id = None, cf_scope_id = ''s'', cf_billed_cost = Absent NO_DATA,
     cf_effective_cost = Present v, cf_billing_currency = ''USD'' \<rparr>"

definition demo_split :: allocation_rule where
  "demo_split = \<lparr> al_id = ''r1'', al_name = ''shared'', al_rule_type = SPLIT_RULE, al_priority = 100, al_match_resource_id = None,
     al_match_tag_key = None, al_match_tag_value = None, al_match_scope_id = None, al_match_service_id = None,
     al_match_service_category = None, al_target_cost_center_code = None, al_target_business_unit_code = None,
     al_target_project_code = None,
     al_split_targets = [\<lparr>st_cost_center_code = ''a'', st_business_unit_code = None, st_percentage = 333 / 10\<rparr>,
       \<lparr>st_cost_center_code = ''b'', st_business_unit_code = None, st_percentage = 667 / 10\<rparr>], al_is_active = True \<rparr>"

theorem allocation_conserves_cost_witness:
  "\<exists>rows. allocate_cost_fact [demo_split] (demo_cost (1001 / 100)) None [] None = Inr rows
     \<and> sum_list (map ar_allocated_amount rows) = 1001 / 100"
proof -
  have t: "total_cost_of (demo_cost (1001 / 100)) = 1001 / 100" by (simp add: total_cost_of_def demo_cost_def)
  have "micro 14 (1001 / 100)" unfolding micro_def by (rule exI[of _ 10010000]) simp
  moreover have "validate_split_percentages demo_split = Inr demo_split" by code_simp
  moreover have "split_ok demo_split" by (simp add: split_ok_def demo_split_def)
  ultimately show ?thesis
    using allocation_conserves_cost[of "[demo_split]" "demo_cost (1001 / 100)" None "[]" None] by (auto simp: t)
qed

section \<open>First match wins\<close>

lemma find_sort_key:
  assumes "find P (sort_key f xs) = Some w"
  shows "w \<in> set xs" "P w" "\<forall>x \<in> set xs. P x \<longrightarrow> f w \<le> f x"
    "hd (filter (\<lambda>x. P x \<and> f x = f w) xs) = w"
proof -
  let ?ys = "sort_key f xs"
  show w: "w \<in> set xs" "P w" using find_SomeD[OF assms] by simp_all
  obtain us vs where ys: "?ys = us @ w # vs" and us: "\<forall>x \<in> set us. \<not> P x"
    using find_splitD[OF assms] by blast
  show "\<forall>x \<in> set xs. P x \<longrightarrow> f w \<le> f x"
  proof (intro ballI impI)
    fix x assume x: "x \<in> set xs" "P x"
    then have "x \<in> set (w # vs)" using us ys by (metis UnE set_append set_sort)
    moreover have "sorted (map f (us @ w # vs))" unfolding ys[symmetric] by simp
    ultimately show "f w \<le> f x" by (auto simp: sorted_append)
  qed
  have "filter (\<lambda>x. P x \<and> f x = f w) xs = filter P (filter (\<lambda>x. f x = f w) xs)" by (auto intro: filter_cong)
  also have "filter (\<lambda>x. f x = f w) xs = filter (\<lambda>x. f x = f w) ?ys"
    using sort_key_stable[of f "f w" xs] by (simp add: eq_commute)
  also have "filter P \<dots> = w # filter P (filter (\<lambda>x. f x = f w) vs)" using us w(2) by (simp add: ys)
  finally show "hd (filter (\<lambda>x. P x \<and> f x = f w) xs) = w" by simp
qed

lemma sort_key_resort: "sort_key f (sort_key f xs @ [x]) = sort_key f (xs @ [x])"
proof (rule properties_for_sort_key[symmetric, of _ _ f])
  show "mset (sort_key f (sort_key f xs @ [x])) = mset (xs @ [x])" by simp
  show "filter (\<lambda>y. f k = f y) (sort_key f (sort_key f xs @ [x])) = filter (\<lambda>y. f k = f y) (xs @ [x])" for k
    using sort_key_stable[of f "f k" "sort_key f xs @ [x]"] sort_key_stable[of f "f k" xs] by (simp add: eq_commute)
qed simp

lemma new_engine_sorted:
  "new_engine todo (sort_key precedence done_rules) = Inr rules \<Longrightarrow> rules = sort_key precedence (done_rules @ todo)"
proof (induction todo arbitrary: done_rules)
  case (Cons r todo)
  then have "new_engine todo (sort_key precedence (done_rules @ [r])) = Inr rules"
    by (auto simp: try_bind_eq_Inr add_rule_def sort_rules_def sort_key_resort)
  from Cons.IH[OF this] show ?case by simp
qed simp

text \<open>
  First match wins: on an engine built from a list of rules, every row of an allocation names the
  active matching rule of the highest tier, of the lowest priority number within the tier, and
  among these the one added first; when no active rule matches, the whole cost is in one explicit
  UNALLOCATED row.
\<close>

theorem first_match_wins:
  assumes "new_engine given [] = Inr rules" and "allocate_cost_fact rules cf resource tags service = Inr rows"
  shows "(\<exists>w \<in> set given. al_is_active w \<and> rule_matches cf resource tags service w
      \<and> (\<forall>r \<in> set given. al_is_active r \<and> rule_matches cf resource tags service r \<longrightarrow> precedence w \<le> precedence r)
      \<and> hd (filter (\<lambda>r. (al_is_active r \<and> rule_matches cf resource tags service r) \<and> precedence r = precedence w) given) = w
      \<and> (\<forall>row \<in> set rows. ar_winning_rule_id row = Some (al_id w) \<and> ar_winning_rule_type row = al_rule_type w))
    \<or> ((\<forall>r \<in> set given. \<not> (al_is_active r \<and> rule_matches cf resource tags service r)) \<and> rows = [base_row cf (total_cost_of cf)])"
proof -
  let ?P = "\<lambda>r. al_is_active r \<and> rule_matches cf resource tags service r"
  have rules: "rules = sort_key precedence given" using new_engine_sorted[of given "[]"] assms(1) by simp
  have "find (rule_matches cf resource tags service) (filter al_is_active rs) = find ?P rs" for rs
    by (induction rs) auto
  then have alloc: "allocate_cost_fact rules cf resource tags service =
      (case find ?P (sort_key precedence given) of
         None \<Rightarrow> Inr [base_row cf (total_cost_of cf)]
       | Some r \<Rightarrow> if al_rule_type r = SPLIT_RULE
           then (case split_shares cf (total_cost_of cf) r (al_split_targets r) 0 of
                   Inl e \<Rightarrow> Inl (Allocation_arith e) | Inr rows \<Rightarrow> Inr rows)
           else Inr [single_row cf (total_cost_of cf) r])"
    by (simp add: allocate_cost_fact_def Let_def rules)
  show ?thesis
  proof (cases "find ?P (sort_key precedence given)")
    case None
    then have "\<forall>r \<in> set given. \<not> ?P r" by (auto simp: find_None_iff)
    with None alloc assms(2) show ?thesis by simp
  next
    case (Some w)
    note first = find_sort_key[OF Some]
    have "\<forall>row \<in> set rows. ar_winning_rule_id row = Some (al_id w) \<and> ar_winning_rule_type row = al_rule_type w"
      using alloc assms(2) Some split_shares_winner[of cf "total_cost_of cf" w "al_split_targets w" 0]
      by (auto simp: single_row_def split: if_splits sum.splits)
    with first show ?thesis by blast
  qed
qed

theorem first_match_wins_witness:
  "list_all (\<lambda>row. ar_winning_rule_id row = Some ''r1'') (projr (allocate_cost_fact [demo_split] (demo_cost 10) None [] None))"
proof -
  have e: "new_engine [demo_split] [] = Inr [demo_split]" by code_simp
  have a: "allocate_cost_fact [demo_split] (demo_cost 10) None [] None
      = Inr (projr (allocate_cost_fact [demo_split] (demo_cost 10) None [] None))" by code_simp
  have "al_is_active demo_split \<and> rule_matches (demo_cost 10) None [] None demo_split" "al_id demo_split = ''r1''" by code_simp+
  with first_match_wins[OF e a] show ?thesis by (auto simp: list_all_iff)
qed

text \<open>
  A split rule restricted to a service also captures costs whose service is not known: the check
  on the service is made only when a service is given, so a cost fact without one is split by the
  rule although nothing shows that it belongs to that service.
\<close>

theorem split_rule_captures_unknown_service:
  assumes "al_rule_type r = SPLIT_RULE" and "al_match_service_id r = Some sid" and "sid \<noteq> []" and "al_match_scope_id r = None"
  shows "rule_matches cf resource tags None r"
  using assms by (simp add: rule_matches_def)

theorem split_rule_captures_unknown_service_witness:
  "rule_matches (demo_cost 10) None [] None (demo_split\<lparr>al_match_service_id := Some ''AmazonRDS''\<rparr>)"
  by (rule split_rule_captures_unknown_service[of _ "''AmazonRDS''"]) (simp_all add: demo_split_def)

end
