(* ===== verification/Impact_Analysis.thy ===== *)
theory Impact_Analysis
  imports Prelude "HOL-Library.List_Lexorder" "HOL-Library.Char_ord"
begin

text \<open>
  The dependency graph: edges as stored (\<open>domain/dependency/models.py\<close>), the listing query of
  \<open>SqlDependencyRepository\<close>, and \<open>ImpactAnalysisEngine\<close> (\<open>domain/dependency/impact.py\<close>):
  the downstream blast radius and the upstream dependencies of an entity, computed by a
  breadth-first traversal that carries the path to each queued node. The two engine methods
  differ in the adjacency they build and repeat the same loop, which is modelled once
  (\<open>bfs_loop\<close>). The loop terminates because every queued node is newly visited and the visited
  nodes are ends of the finitely many edges.

  The lemmas show that the traversal reports every node at its distance from the root, that the
  nodes reported under a depth bound are those within the bound, what cycle detection finds and
  what it misses, and that upstream and downstream are converse on the relationship types both
  methods treat alike.
\<close>

section \<open>Edges and the listing query\<close>

datatype entity_reference_type = RESOURCE | SERVICE | APPLICATION | SCOPE

datatype relationship_type = LOGICAL_DEPENDENCY | NETWORK_CONNECTIVITY | APPLICATION_DEPENDENCY
  | DATA_FLOW | SECURITY_RELATIONSHIP | SHARED_SERVICE | BILLING_RELATIONSHIP | PARENT_CHILD
  | NETWORK | STORAGE_ATTACHMENT | IAM_ROLE | DATABASE_CLIENT | EVENT_SUBSCRIPTION

datatype dependency_direction = INBOUND | OUTBOUND | BIDIRECTIONAL

datatype edge_criticality = CRITICAL | HIGH | MEDIUM | LOW

datatype edge_status = ACTIVE | STALE | CONFLICT | RESOLVED | DELETED | SUPERSEDED

record typed_entity_ref =
  ref_type :: entity_reference_type
  ref_entity_id :: string
  ref_name :: "string option"

text \<open>The fields of \<open>DependencyEdge\<close> that the repository's query and the engine read.\<close>

record dependency_edge =
  edge_id :: string
  edge_tenant_id :: string
  source_ref :: typed_entity_ref
  target_ref :: typed_entity_ref
  edge_relationship :: relationship_type
  edge_direction :: dependency_direction
  edge_criticality :: edge_criticality
  edge_status :: edge_status

text \<open>
  A row of \<open>service_dependencies\<close>: the payload and its creation time. The columns
  \<open>tenant_id\<close>, \<open>source_id\<close>, \<open>target_id\<close>, \<open>relationship_type\<close> and \<open>status\<close> are written from the
  payload by \<open>save_edge\<close>.
\<close>

record edge_row =
  row_created_at :: int
  row_edge :: dependency_edge

text \<open>
  \<open>list_edges_async\<close>: the \<open>WHERE\<close> clauses the method appends, \<open>ORDER BY created_at DESC\<close> and
  \<open>LIMIT\<close>. The \<open>as_of\<close> argument only switches the default status clause off.
\<close>

definition status_clause :: "edge_status option \<Rightarrow> int option \<Rightarrow> bool \<Rightarrow> bool \<Rightarrow> dependency_edge \<Rightarrow> bool" where
  "status_clause status as_of include_history include_deleted e =
     (case status of
        Some st \<Rightarrow> edge_status e = st
      | None \<Rightarrow> if as_of = None \<and> \<not> include_history \<and> \<not> include_deleted
                then edge_status e \<notin> {DELETED, SUPERSEDED} else True)"

definition list_edges :: "edge_row list \<Rightarrow> string \<Rightarrow> edge_status option \<Rightarrow> relationship_type option \<Rightarrow> int option
    \<Rightarrow> string option \<Rightarrow> string option \<Rightarrow> bool \<Rightarrow> bool \<Rightarrow> nat \<Rightarrow> dependency_edge list" where
  "list_edges rows tenant status rel as_of source_id target_id include_history include_deleted limit =
     take limit (map row_edge (sort_key (\<lambda>r. - row_created_at r) (filter (\<lambda>r. let e = row_edge r in
        edge_tenant_id e = tenant
        \<and> status_clause status as_of include_history include_deleted e
        \<and> (case rel of Some t \<Rightarrow> edge_relationship e = t | None \<Rightarrow> True)
        \<and> (truthy source_id \<longrightarrow> Some (ref_entity_id (source_ref e)) = source_id)
        \<and> (truthy target_id \<longrightarrow> Some (ref_entity_id (target_ref e)) = target_id)) rows)))"

section \<open>Adjacency\<close>

type_synonym neighbour = "typed_entity_ref \<times> dependency_edge"
type_synonym adjacency = "(string, neighbour list) dict"

abbreviation source_id :: "dependency_edge \<Rightarrow> string" where
  "source_id e \<equiv> ref_entity_id (source_ref e)"

abbreviation target_id :: "dependency_edge \<Rightarrow> string" where
  "target_id e \<equiv> ref_entity_id (target_ref e)"

text \<open>\<open>adj.get(k, [])\<close> and \<open>adj[k].append(n)\<close> on a \<open>defaultdict(list)\<close>.\<close>

definition adj_get :: "adjacency \<Rightarrow> string \<Rightarrow> neighbour list" where
  "adj_get adj k = (case dict_get adj k of Some ns \<Rightarrow> ns | None \<Rightarrow> [])"

definition adj_add :: "string \<Rightarrow> neighbour \<Rightarrow> adjacency \<Rightarrow> adjacency" where
  "adj_add k n adj = dict_set adj k (adj_get adj k @ [n])"

definition downstream_step :: "dependency_edge \<Rightarrow> adjacency \<Rightarrow> adjacency" where
  "downstream_step e adj =
     (if edge_relationship e \<in> {SHARED_SERVICE, BILLING_RELATIONSHIP}
      then adj_add (source_id e) (target_ref e, e) adj
      else (case edge_direction e of
         OUTBOUND \<Rightarrow> adj_add (target_id e) (source_ref e, e) adj
       | INBOUND \<Rightarrow> adj_add (source_id e) (target_ref e, e) adj
       | BIDIRECTIONAL \<Rightarrow> adj_add (source_id e) (target_ref e, e)
                            (adj_add (target_id e) (source_ref e, e) adj)))"

definition downstream_adj :: "dependency_edge list \<Rightarrow> adjacency" where
  "downstream_adj es = fold downstream_step es []"

definition upstream_step :: "dependency_edge \<Rightarrow> adjacency \<Rightarrow> adjacency" where
  "upstream_step e adj =
     (case edge_direction e of
        OUTBOUND \<Rightarrow> adj_add (source_id e) (target_ref e, e) adj
      | INBOUND \<Rightarrow> adj_add (target_id e) (source_ref e, e) adj
      | BIDIRECTIONAL \<Rightarrow> adj_add (target_id e) (source_ref e, e)
                           (adj_add (source_id e) (target_ref e, e) adj))"

definition upstream_adj :: "dependency_edge list \<Rightarrow> adjacency" where
  "upstream_adj es = fold upstream_step es []"

text \<open>The root's reference is taken from the last edge that mentions the entity.\<close>

definition root_ref_step :: "string \<Rightarrow> dependency_edge \<Rightarrow> typed_entity_ref option \<Rightarrow> typed_entity_ref option" where
  "root_ref_step entity e r =
     (if source_id e = entity then Some (source_ref e)
      else if target_id e = entity then Some (target_ref e) else r)"

definition root_ref_of :: "string \<Rightarrow> dependency_edge list \<Rightarrow> typed_entity_ref" where
  "root_ref_of entity es =
     (case fold (root_ref_step entity) es None of
        Some r \<Rightarrow> r
      | None \<Rightarrow> \<lparr> ref_type = RESOURCE, ref_entity_id = entity, ref_name = None \<rparr>)"

section \<open>The traversal\<close>

record impact_node =
  node_ref :: typed_entity_ref
  node_depth :: nat
  node_criticality :: edge_criticality
  via_relationship :: relationship_type
  node_edge_id :: string
  node_direction :: dependency_direction

record bfs_state =
  b_visited :: "string list"
  b_queue :: "(string \<times> nat \<times> string list) list"
  b_nodes :: "impact_node list"
  b_edges_traversed :: "string list"
  b_cycle_detected :: bool
  b_cycle_nodes :: "string list"
  b_max_depth_reached :: nat

text \<open>The body of the inner \<open>for\<close> loop.\<close>

definition visit :: "nat \<Rightarrow> string list \<Rightarrow> neighbour \<Rightarrow> bfs_state \<Rightarrow> bfs_state" where
  "visit curr_depth path n st =
     (let next_ref = fst n; edge = snd n; next_id = ref_entity_id next_ref in
      if next_id \<in> set path then
        st\<lparr> b_cycle_detected := True, b_cycle_nodes := List.insert next_id (b_cycle_nodes st) \<rparr>
      else
        let st1 = (if edge_id edge \<in> set (b_edges_traversed st) then st
                   else st\<lparr> b_edges_traversed := b_edges_traversed st @ [edge_id edge] \<rparr>) in
        if next_id \<notin> set (b_visited st1) then
          let hop_depth = curr_depth + 1 in
          st1\<lparr> b_visited := b_visited st1 @ [next_id],
               b_max_depth_reached := max (b_max_depth_reached st1) hop_depth,
               b_nodes := b_nodes st1 @
                 [\<lparr> node_ref = next_ref, node_depth = hop_depth, node_criticality = edge_criticality edge,
                    via_relationship = edge_relationship edge, node_edge_id = edge_id edge,
                    node_direction = edge_direction edge \<rparr>],
               b_queue := b_queue st1 @ [(next_id, hop_depth, path @ [next_id])] \<rparr>
        else st1)"

definition depth_cut :: "int option \<Rightarrow> nat \<Rightarrow> bool" where
  "depth_cut max_depth d = (case max_depth of Some m \<Rightarrow> int d \<ge> m | None \<Rightarrow> False)"

definition adj_ids :: "adjacency \<Rightarrow> string set" where
  "adj_ids adj = (\<Union>(k, ns) \<in> set adj. (ref_entity_id \<circ> fst) ` set ns)"

abbreviation nids :: "neighbour list \<Rightarrow> string set" where
  "nids ns \<equiv> (\<lambda>n. ref_entity_id (fst n)) ` set ns"

abbreviation node_level :: "impact_node \<Rightarrow> string \<times> nat" where
  "node_level n \<equiv> (ref_entity_id (node_ref n), node_depth n)"

abbreviation queue_level :: "string \<times> nat \<times> string list \<Rightarrow> string \<times> nat" where
  "queue_level q \<equiv> (fst q, fst (snd q))"

text \<open>The fields the body of the inner loop changes.\<close>

lemma visit_fields [simp]:
  fixes d p n st
  defines "i \<equiv> ref_entity_id (fst n)"
  shows "b_visited (visit d p n st) =
           (if i \<in> set p \<union> set (b_visited st) then b_visited st else b_visited st @ [i])"
    and "b_queue (visit d p n st) =
           (if i \<in> set p \<union> set (b_visited st) then b_queue st else b_queue st @ [(i, Suc d, p @ [i])])"
    and "map node_level (b_nodes (visit d p n st)) =
           map node_level (b_nodes st) @ (if i \<in> set p \<union> set (b_visited st) then [] else [(i, Suc d)])"
    and "set (b_cycle_nodes (visit d p n st)) = set (b_cycle_nodes st) \<union> ({i} \<inter> set p)"
    and "b_cycle_detected (visit d p n st) = (b_cycle_detected st \<or> i \<in> set p)"
  unfolding i_def by (simp_all add: visit_def Let_def)

text \<open>What expanding one queue entry does: the new nodes, in order, and the cycle nodes.\<close>

lemma visit_all:
  "\<exists>new. distinct new \<and> set new = nids ns - set p - set (b_visited st)
     \<and> b_visited (fold (visit d p) ns st) = b_visited st @ new
     \<and> b_queue (fold (visit d p) ns st) = b_queue st @ map (\<lambda>x. (x, Suc d, p @ [x])) new
     \<and> map node_level (b_nodes (fold (visit d p) ns st)) = map node_level (b_nodes st) @ map (\<lambda>x. (x, Suc d)) new
     \<and> set (b_cycle_nodes (fold (visit d p) ns st)) = set (b_cycle_nodes st) \<union> (nids ns \<inter> set p)
     \<and> b_cycle_detected (fold (visit d p) ns st) = (b_cycle_detected st \<or> nids ns \<inter> set p \<noteq> {})"
proof (induction ns arbitrary: st)
  case Nil
  then show ?case by simp
next
  case (Cons n ns)
  let ?i = "ref_entity_id (fst n)" and ?s = "visit d p n st"
  from Cons.IH[of ?s] obtain new where new:
    "distinct new" "set new = nids ns - set p - set (b_visited ?s)"
    "b_visited (fold (visit d p) ns ?s) = b_visited ?s @ new"
    "b_queue (fold (visit d p) ns ?s) = b_queue ?s @ map (\<lambda>x. (x, Suc d, p @ [x])) new"
    "map node_level (b_nodes (fold (visit d p) ns ?s)) = map node_level (b_nodes ?s) @ map (\<lambda>x. (x, Suc d)) new"
    "set (b_cycle_nodes (fold (visit d p) ns ?s)) = set (b_cycle_nodes ?s) \<union> (nids ns \<inter> set p)"
    "b_cycle_detected (fold (visit d p) ns ?s) = (b_cycle_detected ?s \<or> nids ns \<inter> set p \<noteq> {})"
    by blast
  show ?case
  proof (cases "?i \<in> set p \<union> set (b_visited st)")
    case True
    then show ?thesis
      by (intro exI[of _ new] conjI; (simp only: fold_Cons comp_apply new visit_fields; auto)?)
  next
    case False
    then show ?thesis
      by (intro exI[of _ "?i # new"] conjI; (simp only: fold_Cons comp_apply new visit_fields; auto simp: new)?)
  qed
qed

lemma nids_adj_get: "nids (adj_get adj k) \<subseteq> adj_ids adj"
proof (cases "dict_get adj k")
  case (Some ns)
  then have "(k, ns) \<in> set adj" unfolding dict_get_def by (rule map_of_SomeD)
  with Some show ?thesis by (force simp: adj_ids_def adj_get_def)
qed (simp add: adj_get_def)

lemma finite_adj_ids: "finite (adj_ids adj)"
  by (auto simp: adj_ids_def split: prod.splits)

lemma unvisited_decreases:
  assumes "new \<noteq> []" "set new = nids (adj_get adj c) - P - set v" "distinct new"
  shows "card (adj_ids adj - set (v @ new)) < card (adj_ids adj - set v)"
proof (rule psubset_card_mono)
  show "finite (adj_ids adj - set v)" using finite_adj_ids by blast
  show "adj_ids adj - set (v @ new) \<subset> adj_ids adj - set v"
    using assms nids_adj_get[of adj c] by (cases new) auto
qed

text \<open>The outer \<open>while queue\<close> loop.\<close>

function bfs_loop :: "adjacency \<Rightarrow> int option \<Rightarrow> bfs_state \<Rightarrow> bfs_state" where
  "bfs_loop adj max_depth st =
     (case b_queue st of
        [] \<Rightarrow> st
      | (curr_id, curr_depth, path) # q \<Rightarrow>
          (let st1 = st\<lparr> b_queue := q \<rparr> in
           if depth_cut max_depth curr_depth then bfs_loop adj max_depth st1
           else bfs_loop adj max_depth (fold (visit curr_depth path) (adj_get adj curr_id) st1)))"
  by pat_completeness auto

termination
proof (relation "measures [\<lambda>(adj, _, st). card (adj_ids adj - set (b_visited st)), \<lambda>(_, _, st). length (b_queue st)]",
       goal_cases)
  case (3 adj md st x21 x22 c y d p st1)
  obtain new where new: "distinct new" "set new = nids (adj_get adj c) - set p - set (b_visited st1)"
    "b_visited (fold (visit d p) (adj_get adj c) st1) = b_visited st1 @ new"
    "b_queue (fold (visit d p) (adj_get adj c) st1) = b_queue st1 @ map (\<lambda>x. (x, Suc d, p @ [x])) new"
    using visit_all[of "adj_get adj c" p st1 d] by blast
  show ?case
  proof (cases "new = []")
    case True
    then show ?thesis using 3 new by simp
  next
    case False
    then show ?thesis using unvisited_decreases[OF False new(2,1)] 3 new by simp
  qed
qed simp_all

declare bfs_loop.simps [simp del]

definition bfs_init :: "string \<Rightarrow> bfs_state" where
  "bfs_init entity = \<lparr> b_visited = [], b_queue = [(entity, 0, [entity])], b_nodes = [],
     b_edges_traversed = [], b_cycle_detected = False, b_cycle_nodes = [], b_max_depth_reached = 0 \<rparr>"

definition traverse :: "adjacency \<Rightarrow> int option \<Rightarrow> string \<Rightarrow> bfs_state" where
  "traverse adj max_depth entity = bfs_loop adj max_depth (bfs_init entity)"

section \<open>The engine's operations\<close>

record impact_set =
  root_entity :: typed_entity_ref
  total_dependents :: nat
  max_depth_reached :: nat
  critical_dependents_count :: nat
  dependents :: "impact_node list"
  edges_traversed :: "string list"
  has_cycle :: bool
  cycle_nodes :: "string list"

datatype impact_error = MissingTenantContextException

definition require_tenant :: "string option \<Rightarrow> impact_error + string" where
  "require_tenant ctx =
     (case ctx of None \<Rightarrow> Inl MissingTenantContextException
      | Some t \<Rightarrow> if strip t = [] then Inl MissingTenantContextException else Inr t)"

definition impact_set_of :: "typed_entity_ref \<Rightarrow> bfs_state \<Rightarrow> impact_set" where
  "impact_set_of rref st =
     \<lparr> root_entity = rref, total_dependents = length (b_nodes st), max_depth_reached = b_max_depth_reached st,
       critical_dependents_count = length (filter (\<lambda>n. node_criticality n = CRITICAL) (b_nodes st)),
       dependents = b_nodes st, edges_traversed = b_edges_traversed st, has_cycle = b_cycle_detected st,
       cycle_nodes = sort (b_cycle_nodes st) \<rparr>"

text \<open>The listing both methods start from: the default limit, and no status filter when \<open>as_of\<close> is given.\<close>

definition graph_edges :: "edge_row list \<Rightarrow> int option \<Rightarrow> string \<Rightarrow> dependency_edge list" where
  "graph_edges rows as_of tenant =
     list_edges rows tenant (if as_of = None then Some ACTIVE else None) None as_of None None False False 1000"

text \<open>The optional filter on relationship types; an empty list is falsy and filters nothing.\<close>

definition select_types :: "relationship_type list option \<Rightarrow> dependency_edge list \<Rightarrow> dependency_edge list" where
  "select_types relationship_types es =
     (case relationship_types of
        Some (t # ts) \<Rightarrow> filter (\<lambda>e. edge_relationship e \<in> set (t # ts)) es
      | _ \<Rightarrow> es)"

definition compute_downstream_impact :: "edge_row list \<Rightarrow> string \<Rightarrow> int option \<Rightarrow> relationship_type list option
    \<Rightarrow> int option \<Rightarrow> string option \<Rightarrow> impact_error + impact_set" where
  "compute_downstream_impact rows entity max_depth relationship_types as_of ctx =
     try_bind (require_tenant ctx) (\<lambda>tenant.
       let es = select_types relationship_types (graph_edges rows as_of tenant)
       in Inr (impact_set_of (root_ref_of entity es) (traverse (downstream_adj es) max_depth entity)))"

definition compute_upstream_dependencies :: "edge_row list \<Rightarrow> string \<Rightarrow> int option \<Rightarrow> int option
    \<Rightarrow> string option \<Rightarrow> impact_error + impact_set" where
  "compute_upstream_dependencies rows entity max_depth as_of ctx =
     try_bind (require_tenant ctx) (\<lambda>tenant.
       let es = graph_edges rows as_of tenant
       in Inr (impact_set_of (root_ref_of entity es) (traverse (upstream_adj es) max_depth entity)))"

section \<open>Distances\<close>

text \<open>The graph an adjacency stands for, and the order in which nodes were reached, with depths.\<close>

definition arcs :: "adjacency \<Rightarrow> (string \<times> string) set" where
  "arcs adj = {(a, b). b \<in> nids (adj_get adj a)}"

definition levels :: "string \<Rightarrow> bfs_state \<Rightarrow> (string \<times> nat) list" where
  "levels r st = (r, 0) # map node_level (b_nodes st)"

text \<open>
  The loop invariant: the queue is the tail of the list of reached nodes, which is sorted by depth
  and has no repetition; what is before the tail has been expanded.
\<close>

definition bfs_shape :: "string \<Rightarrow> (string \<times> nat) list \<Rightarrow> bfs_state \<Rightarrow> bool" where
  "bfs_shape r dn st \<longleftrightarrow>
     levels r st = dn @ map queue_level (b_queue st)
     \<and> distinct (map fst (levels r st))
     \<and> set (b_visited st) = fst ` set (map node_level (b_nodes st))
     \<and> sorted (map snd (levels r st))
     \<and> (case b_queue st of [] \<Rightarrow> True | (c, d, p) # q \<Rightarrow> \<forall>(x, k) \<in> set (levels r st). k \<le> Suc d)"

definition bfs_paths :: "adjacency \<Rightarrow> string \<Rightarrow> bfs_state \<Rightarrow> bool" where
  "bfs_paths adj r st \<longleftrightarrow>
     (\<forall>(x, k) \<in> set (levels r st). (r, x) \<in> arcs adj ^^ k)
     \<and> (\<forall>(c, d, p) \<in> set (b_queue st). r \<in> set p \<and> set p \<subseteq> fst ` set (levels r st) \<and> (\<forall>x \<in> set p. (x, c) \<in> (arcs adj)\<^sup>*))
     \<and> (\<forall>x \<in> set (b_cycle_nodes st). (x, x) \<in> (arcs adj)\<^sup>+)
     \<and> b_cycle_detected st = (b_cycle_nodes st \<noteq> [])"

definition expanded :: "adjacency \<Rightarrow> int option \<Rightarrow> string \<Rightarrow> (string \<times> nat) list \<Rightarrow> bfs_state \<Rightarrow> bool" where
  "expanded adj md r dn st \<longleftrightarrow>
     (\<forall>(x, k) \<in> set dn. \<not> depth_cut md k \<longrightarrow>
        (\<forall>y. (x, y) \<in> arcs adj \<longrightarrow> (\<exists>j \<le> Suc k. (y, j) \<in> set (levels r st)) \<and> (y = r \<longrightarrow> r \<in> set (b_cycle_nodes st))))"

definition in_bound :: "int option \<Rightarrow> string \<Rightarrow> bfs_state \<Rightarrow> bool" where
  "in_bound md r st \<longleftrightarrow> (\<forall>(x, k) \<in> set (map node_level (b_nodes st)). \<exists>j. k = Suc j \<and> \<not> depth_cut md j)"

definition bfs_inv :: "adjacency \<Rightarrow> int option \<Rightarrow> string \<Rightarrow> (string \<times> nat) list \<Rightarrow> bfs_state \<Rightarrow> bool" where
  "bfs_inv adj md r dn st \<longleftrightarrow> bfs_shape r dn st \<and> bfs_paths adj r st \<and> expanded adj md r dn st \<and> in_bound md r st"

lemma bfs_inv_init: "bfs_inv adj md r [] (bfs_init r)"
  by (simp add: bfs_inv_def bfs_shape_def bfs_paths_def expanded_def in_bound_def bfs_init_def levels_def)

lemma levels_queue [simp]: "levels r (st\<lparr> b_queue := q \<rparr>) = levels r st"
  by (simp add: levels_def)

lemma sorted_const: "sorted (map (\<lambda>x. k) xs)"
  by (induction xs) auto

lemma bfs_shapeD:
  assumes "bfs_shape r dn st"
  shows "levels r st = dn @ map queue_level (b_queue st)" "distinct (map fst (levels r st))"
    "set (b_visited st) = fst ` set (map node_level (b_nodes st))" "sorted (map snd (levels r st))"
  using assms unfolding bfs_shape_def by blast+

lemma bfs_shape_queueD:
  assumes "bfs_shape r dn st" and q: "b_queue st = (c, d, p) # q"
  shows "levels r st = dn @ (c, d) # map queue_level q" "\<forall>(x, k) \<in> set (levels r st). k \<le> Suc d"
proof -
  show "levels r st = dn @ (c, d) # map queue_level q" using bfs_shapeD(1)[OF assms(1)] q by simp
  have "case b_queue st of [] \<Rightarrow> True | (c, d, p) # q \<Rightarrow> \<forall>(x, k) \<in> set (levels r st). k \<le> Suc d"
    using assms(1) unfolding bfs_shape_def by blast
  then show "\<forall>(x, k) \<in> set (levels r st). k \<le> Suc d" using q by simp
qed

lemma bfs_inv_cut:
  assumes I: "bfs_inv adj md r dn st" and q: "b_queue st = (c, d, p) # q" and cut: "depth_cut md d"
  shows "bfs_inv adj md r (dn @ [(c, d)]) (st\<lparr> b_queue := q \<rparr>)"
proof -
  have sh: "bfs_shape r dn st" using I by (simp add: bfs_inv_def)
  note L = bfs_shape_queueD[OF sh q] and S = bfs_shapeD[OF sh]
  have "case q of [] \<Rightarrow> True | (c', d', p') # q' \<Rightarrow> \<forall>(x, k) \<in> set (levels r st). k \<le> Suc d'"
  proof (cases q)
    case (Cons a qs)
    have "d \<le> fst (snd a)" using S(4) by (simp add: L(1) Cons sorted_append)
    then show ?thesis using L(2) Cons by (auto split: prod.splits)
  qed simp
  then have "bfs_shape r (dn @ [(c, d)]) (st\<lparr> b_queue := q \<rparr>)"
    using S(2-4) unfolding bfs_shape_def by (auto simp: L(1) simp del: map_append split: list.splits)
  moreover have "bfs_paths adj r (st\<lparr> b_queue := q \<rparr>)"
    using I q by (simp add: bfs_inv_def bfs_paths_def)
  moreover have "expanded adj md r (dn @ [(c, d)]) (st\<lparr> b_queue := q \<rparr>)" "in_bound md r (st\<lparr> b_queue := q \<rparr>)"
    using I cut by (auto simp: bfs_inv_def expanded_def in_bound_def)
  ultimately show ?thesis by (simp add: bfs_inv_def)
qed

lemma levels_ids:
  assumes "bfs_shape r dn st"
  shows "fst ` set (levels r st) = insert r (set (b_visited st))" "r \<notin> set (b_visited st)"
proof -
  have "fst ` set (levels r st) = insert r (fst ` set (map node_level (b_nodes st)))" by (simp add: levels_def)
  then show "fst ` set (levels r st) = insert r (set (b_visited st))" by (simp add: bfs_shapeD(3)[OF assms])
  show "r \<notin> set (b_visited st)"
    using bfs_shapeD(2)[OF assms] unfolding bfs_shapeD(3)[OF assms] levels_def by (auto simp: image_image)
qed

text \<open>Expanding the head of the queue keeps the invariant, part by part.\<close>

definition expands :: "adjacency \<Rightarrow> string \<Rightarrow> nat \<Rightarrow> string list \<Rightarrow> (string \<times> nat \<times> string list) list
    \<Rightarrow> string list \<Rightarrow> bfs_state \<Rightarrow> bfs_state \<Rightarrow> bool" where
  "expands adj c d p q new st st' \<longleftrightarrow>
     b_queue st = (c, d, p) # q
     \<and> distinct new \<and> set new = nids (adj_get adj c) - set p - set (b_visited st)
     \<and> b_visited st' = b_visited st @ new
     \<and> b_queue st' = q @ map (\<lambda>x. (x, Suc d, p @ [x])) new
     \<and> map node_level (b_nodes st') = map node_level (b_nodes st) @ map (\<lambda>x. (x, Suc d)) new
     \<and> set (b_cycle_nodes st') = set (b_cycle_nodes st) \<union> (nids (adj_get adj c) \<inter> set p)
     \<and> b_cycle_detected st' = (b_cycle_detected st \<or> nids (adj_get adj c) \<inter> set p \<noteq> {})"

lemma visit_expands:
  assumes "b_queue st = (c, d, p) # q"
  shows "\<exists>new. expands adj c d p q new st (fold (visit d p) (adj_get adj c) (st\<lparr> b_queue := q \<rparr>))"
  using visit_all[of "adj_get adj c" p "st\<lparr> b_queue := q \<rparr>" d] assms by (simp add: expands_def)

lemma expands_levels: "expands adj c d p q new st st' \<Longrightarrow> levels r st' = levels r st @ map (\<lambda>x. (x, Suc d)) new"
  by (simp add: levels_def expands_def)

lemma expand_shape:
  assumes sh: "bfs_shape r dn st" and X: "expands adj c d p q new st st'" and rp: "r \<in> set p"
  shows "bfs_shape r (dn @ [(c, d)]) st'"
proof -
  have q: "b_queue st = (c, d, p) # q" using X by (simp add: expands_def)
  note split = bfs_shape_queueD(1)[OF sh q] and B = bfs_shape_queueD(2)[OF sh q]
    and D = bfs_shapeD(2)[OF sh] and S = bfs_shapeD(4)[OF sh] and lv = expands_levels[OF X, of r]
  have que: "b_queue st' = q @ map (\<lambda>x. (x, Suc d, p @ [x])) new" using X by (simp add: expands_def)
  have "levels r st' = (dn @ [(c, d)]) @ map queue_level (b_queue st')"
    by (simp add: lv split que comp_def)
  moreover have "set (map fst (levels r st)) = insert r (set (b_visited st))" using levels_ids(1)[OF sh] by simp
  then have "distinct (map fst (levels r st'))"
    using D X rp by (simp add: lv comp_def expands_def)
  moreover have "set (b_visited st') = fst ` set (map node_level (b_nodes st'))"
    using bfs_shapeD(3)[OF sh] X unfolding expands_def by (auto simp: image_Un image_image simp del: list.set_map)
  moreover have "sorted (map snd (levels r st'))"
    using S B by (auto simp: lv sorted_append comp_def sorted_const)
  moreover have "case b_queue st' of [] \<Rightarrow> True | (c', d', p') # q' \<Rightarrow> \<forall>(x, k) \<in> set (levels r st'). k \<le> Suc d'"
  proof (cases q)
    case Nil
    then show ?thesis using B by (cases new) (auto simp: que lv)
  next
    case (Cons a qs)
    have "d \<le> fst (snd a)" using S by (simp add: split Cons sorted_append)
    then show ?thesis using B by (auto simp: lv que Cons split: prod.splits)
  qed
  ultimately show ?thesis by (simp only: bfs_shape_def)
qed

lemma expand_paths:
  assumes P: "bfs_paths adj r st" and X: "expands adj c d p q new st st'" and cd: "(c, d) \<in> set (levels r st)"
  shows "bfs_paths adj r st'"
proof -
  have q: "b_queue st = (c, d, p) # q" and new: "set new = nids (adj_get adj c) - set p - set (b_visited st)"
    and que: "b_queue st' = q @ map (\<lambda>x. (x, Suc d, p @ [x])) new"
    and cyc: "set (b_cycle_nodes st') = set (b_cycle_nodes st) \<union> (nids (adj_get adj c) \<inter> set p)"
    using X by (auto simp: expands_def)
  note lv = expands_levels[OF X, of r]
  have ch: "\<And>x. x \<in> set p \<Longrightarrow> (x, c) \<in> (arcs adj)\<^sup>*" "r \<in> set p" "set p \<subseteq> fst ` set (levels r st)"
    using P q by (auto simp: bfs_paths_def)
  have arc: "nids (adj_get adj c) = {y. (c, y) \<in> arcs adj}" by (simp add: arcs_def)
  have newarc: "(c, x) \<in> arcs adj" if "x \<in> set new" for x using that new arc by blast
  have "(r, c) \<in> arcs adj ^^ d" using P cd by (auto simp: bfs_paths_def)
  then have "(r, x) \<in> arcs adj ^^ Suc d" if "x \<in> set new" for x using newarc[OF that] by (rule relpow_Suc_I)
  then have "\<forall>(x, k) \<in> set (levels r st'). (r, x) \<in> arcs adj ^^ k"
    using P unfolding bfs_paths_def lv set_append by (auto simp del: relpow.simps)
  note lvl = this
  have "(x, y) \<in> (arcs adj)\<^sup>*" if "x \<in> set p" "y \<in> set new" for x y
    using ch(1)[OF that(1)] newarc[OF that(2)] by (rule rtrancl_into_rtrancl)
  moreover have "r \<in> set p' \<and> set p' \<subseteq> fst ` set (levels r st) \<and> (\<forall>x \<in> set p'. (x, c') \<in> (arcs adj)\<^sup>*)"
    if "(c', d', p') \<in> set q" for c' d' p'
    using P q that unfolding bfs_paths_def by auto
  ultimately have "\<forall>(c, d, p) \<in> set (b_queue st'). r \<in> set p \<and> set p \<subseteq> fst ` set (levels r st') \<and> (\<forall>x \<in> set p. (x, c) \<in> (arcs adj)\<^sup>*)"
    using ch(2,3) unfolding que lv set_append image_Un by (auto simp: image_image) blast
  moreover have "\<forall>x \<in> set (b_cycle_nodes st'). (x, x) \<in> (arcs adj)\<^sup>+"
    using P ch(1) unfolding cyc arc bfs_paths_def by (blast intro: rtrancl_into_trancl1)
  moreover have "b_cycle_detected st' = (b_cycle_nodes st' \<noteq> [])"
    using P X cyc by (auto simp: bfs_paths_def expands_def simp flip: set_empty)
  ultimately show ?thesis using lvl by (simp add: bfs_paths_def)
qed

lemma expand_rest:
  assumes sh: "bfs_shape r dn st" and P: "bfs_paths adj r st" and E: "expanded adj md r dn st" and W: "in_bound md r st"
    and X: "expands adj c d p q new st st'" and cut: "\<not> depth_cut md d"
  shows "expanded adj md r (dn @ [(c, d)]) st'" "in_bound md r st'"
proof -
  have q: "b_queue st = (c, d, p) # q" and new: "set new = nids (adj_get adj c) - set p - set (b_visited st)"
    and cyc: "set (b_cycle_nodes st') = set (b_cycle_nodes st) \<union> (nids (adj_get adj c) \<inter> set p)"
    using X by (auto simp: expands_def)
  note lv = expands_levels[OF X, of r] and B = bfs_shape_queueD(2)[OF sh q]
  have rp: "r \<in> set p" and pl: "set p \<subseteq> fst ` set (levels r st)" using P q by (auto simp: bfs_paths_def)
  have "(\<exists>j \<le> Suc d. (y, j) \<in> set (levels r st')) \<and> (y = r \<longrightarrow> r \<in> set (b_cycle_nodes st'))" if "(c, y) \<in> arcs adj" for y
  proof
    have y: "y \<in> nids (adj_get adj c)" using that by (simp add: arcs_def)
    then show "y = r \<longrightarrow> r \<in> set (b_cycle_nodes st')" using rp unfolding cyc by blast
    show "\<exists>j \<le> Suc d. (y, j) \<in> set (levels r st')"
    proof (cases "y \<in> set new")
      case False
      with y new pl have "y \<in> fst ` set (levels r st)" unfolding levels_ids(1)[OF sh] by blast
      then show ?thesis using B by (force simp: lv)
    qed (auto simp: lv)
  qed
  with E cyc show "expanded adj md r (dn @ [(c, d)]) st'" by (fastforce simp: expanded_def lv)
  have "map node_level (b_nodes st') = map node_level (b_nodes st) @ map (\<lambda>x. (x, Suc d)) new"
    using X by (simp add: expands_def)
  then show "in_bound md r st'" using W cut unfolding in_bound_def by (auto simp del: list.set_map simp: list.set_map[of "\<lambda>x. (x, Suc d)"])
qed

lemma bfs_inv_expand:
  assumes I: "bfs_inv adj md r dn st" and X: "expands adj c d p q new st st'" and cut: "\<not> depth_cut md d"
  shows "bfs_inv adj md r (dn @ [(c, d)]) st'"
proof -
  have sh: "bfs_shape r dn st" and P: "bfs_paths adj r st" and E: "expanded adj md r dn st" "in_bound md r st"
    using I by (simp_all add: bfs_inv_def)
  have q: "b_queue st = (c, d, p) # q" using X by (simp add: expands_def)
  have "r \<in> set p" using P q by (auto simp: bfs_paths_def)
  moreover have "(c, d) \<in> set (levels r st)" by (simp add: bfs_shape_queueD(1)[OF sh q])
  ultimately show ?thesis
    using expand_shape[OF sh X] expand_paths[OF P X] expand_rest[OF sh P E X cut] by (simp add: bfs_inv_def)
qed

lemma bfs_loop_inv: "bfs_inv adj md r dn st \<Longrightarrow> \<exists>dn'. bfs_inv adj md r dn' (bfs_loop adj md st) \<and> b_queue (bfs_loop adj md st) = []"
proof (induction adj md st arbitrary: dn rule: bfs_loop.induct)
  case (1 adj md st)
  show ?case
  proof (cases "b_queue st")
    case Nil
    then show ?thesis using "1.prems" by (auto simp: bfs_loop.simps[of adj md st])
  next
    case (Cons a q)
    obtain c d p where a: "a = (c, d, p)" by (cases a)
    show ?thesis
    proof (cases "depth_cut md d")
      case True
      then show ?thesis using "1.IH"(1)[OF Cons a[symmetric] refl refl True bfs_inv_cut[OF "1.prems" Cons[unfolded a] True]] Cons a
        by (simp add: bfs_loop.simps[of adj md st])
    next
      case False
      obtain new where "expands adj c d p q new st (fold (visit d p) (adj_get adj c) (st\<lparr> b_queue := q \<rparr>))"
        using visit_expands Cons a by blast
      from "1.IH"(2)[OF Cons a[symmetric] refl refl False bfs_inv_expand[OF "1.prems" this False]] show ?thesis
        using Cons a False by (simp add: bfs_loop.simps[of adj md st])
    qed
  qed
qed

text \<open>The outcome of a traversal.\<close>

lemma traverse_inv: "bfs_inv adj md r (levels r (traverse adj md r)) (traverse adj md r)"
proof -
  obtain dn where I: "bfs_inv adj md r dn (traverse adj md r)" and q: "b_queue (traverse adj md r) = []"
    using bfs_loop_inv[OF bfs_inv_init[of adj md r]] by (auto simp: traverse_def)
  have "levels r (traverse adj md r) = dn"
    using I q bfs_shapeD(1)[of r dn "traverse adj md r"] by (simp add: bfs_inv_def)
  with I show ?thesis by simp
qed

lemma reached_within:
  assumes "bfs_inv adj md r (levels r st) st" "(r, x) \<in> arcs adj ^^ k" "k = 0 \<or> \<not> depth_cut md (k - 1)"
  shows "\<exists>d \<le> k. (x, d) \<in> set (levels r st)"
  using assms(2,3)
proof (induction k arbitrary: x)
  case 0
  then show ?case by (simp add: levels_def)
next
  case (Suc k)
  from Suc.prems(1) obtain y where y: "(r, y) \<in> arcs adj ^^ k" "(y, x) \<in> arcs adj" by auto
  from Suc.prems(2) have k: "\<not> depth_cut md k" by simp
  then have "k = 0 \<or> \<not> depth_cut md (k - 1)" by (auto simp: depth_cut_def split: option.splits)
  with Suc.IH y obtain d where d: "d \<le> k" "(y, d) \<in> set (levels r st)" by blast
  moreover have "\<not> depth_cut md d" using d k by (auto simp: depth_cut_def split: option.splits)
  moreover have "expanded adj md r (levels r st) st" using assms(1) by (simp add: bfs_inv_def)
  ultimately obtain j where "j \<le> Suc d" "(x, j) \<in> set (levels r st)" using y(2) unfolding expanded_def by fast
  then show ?case using d(1) by (intro exI[of _ j]) auto
qed

text \<open>The distance of a node from the root is \<open>d\<close>: a path of \<open>d\<close> arcs and none shorter.\<close>

definition at_distance :: "(string \<times> string) set \<Rightarrow> string \<Rightarrow> string \<Rightarrow> nat \<Rightarrow> bool" where
  "at_distance E r x d \<longleftrightarrow> (r, x) \<in> E ^^ d \<and> (\<forall>k < d. (r, x) \<notin> E ^^ k)"

lemma at_distance_unique: "at_distance E r x d \<Longrightarrow> at_distance E r x d' \<Longrightarrow> d = d'"
  unfolding at_distance_def by (meson linorder_neqE_nat)

lemma at_distance_ex: "(r, x) \<in> E\<^sup>* \<Longrightarrow> \<exists>d. at_distance E r x d"
proof -
  assume "(r, x) \<in> E\<^sup>*"
  then obtain n where "(r, x) \<in> E ^^ n" by (auto dest: rtrancl_imp_relpow)
  then have "(r, x) \<in> E ^^ (LEAST n. (r, x) \<in> E ^^ n)" by (rule LeastI)
  then show ?thesis unfolding at_distance_def by (blast dest: not_less_Least)
qed

lemma traverse_levels:
  "(x, d) \<in> set (levels r (traverse adj md r)) \<longleftrightarrow>
     at_distance (arcs adj) r x d \<and> (d = 0 \<or> \<not> depth_cut md (d - 1))"
proof -
  let ?st = "traverse adj md r"
  have I: "bfs_inv adj md r (levels r ?st) ?st" by (rule traverse_inv)
  have D: "distinct (map fst (levels r ?st))" and P: "\<forall>(x, k) \<in> set (levels r ?st). (r, x) \<in> arcs adj ^^ k"
    using I by (auto simp: bfs_inv_def bfs_paths_def dest: bfs_shapeD(2))
  have W: "d = 0 \<or> \<not> depth_cut md (d - 1)" if "(x, d) \<in> set (levels r ?st)" for x d
    using that I by (fastforce simp: bfs_inv_def in_bound_def levels_def)
  have M: "d \<le> k" if xd: "(x, d) \<in> set (levels r ?st)" and rx: "(r, x) \<in> arcs adj ^^ k" for x d k
  proof (cases "k = 0 \<or> \<not> depth_cut md (k - 1)")
    case True
    then obtain j where "j \<le> k" "(x, j) \<in> set (levels r ?st)" using reached_within[OF I rx] by blast
    with xd D show ?thesis by (metis eq_key_imp_eq_value)
  next
    case False
    then show ?thesis using W[OF xd] by (auto simp: depth_cut_def split: option.splits)
  qed
  show ?thesis
  proof
    assume "(x, d) \<in> set (levels r ?st)"
    with M P W show "at_distance (arcs adj) r x d \<and> (d = 0 \<or> \<not> depth_cut md (d - 1))"
      unfolding at_distance_def by (fastforce simp: not_le)
  next
    assume A: "at_distance (arcs adj) r x d \<and> (d = 0 \<or> \<not> depth_cut md (d - 1))"
    then obtain j where "j \<le> d" "(x, j) \<in> set (levels r ?st)"
      using reached_within[OF I] unfolding at_distance_def by blast
    moreover from this have "j = d" using A P unfolding at_distance_def by (fastforce simp: le_less)
    ultimately show "(x, d) \<in> set (levels r ?st)" by simp
  qed
qed

section \<open>The graphs of the two methods\<close>

text \<open>
  Which entity is affected by the failure of which, edge by edge, and which relies on which: what
  the comments of the two methods say of each kind of edge.
\<close>

definition impacts :: "dependency_edge \<Rightarrow> (string \<times> string) set" where
  "impacts e =
     (if edge_relationship e \<in> {SHARED_SERVICE, BILLING_RELATIONSHIP} then {(source_id e, target_id e)}
      else (case edge_direction e of
         OUTBOUND \<Rightarrow> {(target_id e, source_id e)}
       | INBOUND \<Rightarrow> {(source_id e, target_id e)}
       | BIDIRECTIONAL \<Rightarrow> {(source_id e, target_id e), (target_id e, source_id e)}))"

definition relies_on :: "dependency_edge \<Rightarrow> (string \<times> string) set" where
  "relies_on e =
     (case edge_direction e of
        OUTBOUND \<Rightarrow> {(source_id e, target_id e)}
      | INBOUND \<Rightarrow> {(target_id e, source_id e)}
      | BIDIRECTIONAL \<Rightarrow> {(source_id e, target_id e), (target_id e, source_id e)})"

lemma arcs_Nil [simp]: "arcs [] = {}"
  by (simp add: arcs_def adj_get_def)

lemma adj_get_add: "adj_get (adj_add k n adj) j = (if j = k then adj_get adj k @ [n] else adj_get adj j)"
  by (simp add: adj_add_def adj_get_def)

lemma arcs_add [simp]: "arcs (adj_add k n adj) = insert (k, ref_entity_id (fst n)) (arcs adj)"
proof -
  have "(a, b) \<in> arcs (adj_add k n adj) \<longleftrightarrow> (a, b) \<in> insert (k, ref_entity_id (fst n)) (arcs adj)" for a b
    by (simp add: arcs_def adj_get_add)
  then show ?thesis by (simp add: set_eq_iff split_paired_all)
qed

abbreviation in_depth :: "int option \<Rightarrow> nat \<Rightarrow> bool" where
  "in_depth md d \<equiv> (case md of Some m \<Rightarrow> int d \<le> m | None \<Rightarrow> True)"

abbreviation node_ids :: "impact_node list \<Rightarrow> string list" where
  "node_ids ns \<equiv> map (\<lambda>n. ref_entity_id (node_ref n)) ns"

text \<open>
  What the traversal relies on of the adjacency: each edge contributes its arcs and nothing else.
\<close>

locale adjacency_builder =
  fixes step :: "dependency_edge \<Rightarrow> adjacency \<Rightarrow> adjacency"
    and arc_of :: "dependency_edge \<Rightarrow> (string \<times> string) set"
  assumes step_arcs: "arcs (step e adj) = arcs adj \<union> arc_of e"
begin

lemma build_arcs: "arcs (fold step es adj) = arcs adj \<union> \<Union> (arc_of ` set es)"
  by (induction es arbitrary: adj) (auto simp: step_arcs)

lemma nodes_exact:
  "(x, d) \<in> set (map node_level (b_nodes (traverse (fold step es []) md r))) \<longleftrightarrow>
     x \<noteq> r \<and> at_distance (\<Union> (arc_of ` set es)) r x d \<and> in_depth md d"
proof -
  let ?st = "traverse (fold step es []) md r"
  have "distinct (map fst (levels r ?st))"
    using traverse_inv[of "fold step es []" md r] by (auto simp: bfs_inv_def dest: bfs_shapeD(2))
  then have "(x, d) \<in> set (map node_level (b_nodes ?st)) \<longleftrightarrow> x \<noteq> r \<and> (x, d) \<in> set (levels r ?st)"
    by (auto simp: levels_def)
  moreover have "d \<noteq> 0" if "x \<noteq> r" "at_distance (\<Union> (arc_of ` set es)) r x d"
    using that by (cases d) (auto simp: at_distance_def)
  then have "x \<noteq> r \<and> at_distance (\<Union> (arc_of ` set es)) r x d \<Longrightarrow> (d = 0 \<or> \<not> depth_cut md (d - 1)) = in_depth md d"
    by (cases d) (auto simp: depth_cut_def split: option.splits)
  ultimately show ?thesis by (auto simp: traverse_levels build_arcs)
qed

lemma nodes_distinct: "distinct (node_ids (b_nodes (traverse (fold step es []) md r)))"
  using traverse_inv[of "fold step es []" md r]
  by (auto simp: bfs_inv_def levels_def comp_def dest: bfs_shapeD(2))

lemma nodes_reachable:
  "x \<in> set (node_ids (b_nodes (traverse (fold step es []) None r))) \<longleftrightarrow>
     x \<noteq> r \<and> (r, x) \<in> (\<Union> (arc_of ` set es))\<^sup>*"
proof -
  have "x \<in> set (node_ids ns) \<longleftrightarrow> (\<exists>d. (x, d) \<in> set (map node_level ns))" for ns
    by (induction ns) auto
  then have "x \<in> set (node_ids (b_nodes (traverse (fold step es []) None r))) \<longleftrightarrow>
      (\<exists>d. x \<noteq> r \<and> at_distance (\<Union> (arc_of ` set es)) r x d)"
    by (simp only: nodes_exact option.case simp_thms)
  also have "\<dots> \<longleftrightarrow> x \<noteq> r \<and> (r, x) \<in> (\<Union> (arc_of ` set es))\<^sup>*"
    using at_distance_ex by (auto simp: at_distance_def relpow_imp_rtrancl)
  finally show ?thesis .
qed

lemma cycles_real:
  "x \<in> set (b_cycle_nodes (traverse (fold step es []) md r)) \<Longrightarrow> (x, x) \<in> (\<Union> (arc_of ` set es))\<^sup>+"
  using traverse_inv[of "fold step es []" md r] by (simp add: bfs_inv_def bfs_paths_def build_arcs)

lemma cycle_flag:
  "b_cycle_detected (traverse (fold step es []) md r) = (b_cycle_nodes (traverse (fold step es []) md r) \<noteq> [])"
  using traverse_inv[of "fold step es []" md r] by (simp add: bfs_inv_def bfs_paths_def)

lemma root_cycle_found:
  assumes "(r, r) \<in> (\<Union> (arc_of ` set es))\<^sup>+"
  shows "r \<in> set (b_cycle_nodes (traverse (fold step es []) None r))"
proof -
  let ?st = "traverse (fold step es []) None r"
  obtain y where y: "(r, y) \<in> (arcs (fold step es []))\<^sup>*" "(y, r) \<in> arcs (fold step es [])"
    using tranclD2[OF assms] by (auto simp: build_arcs)
  then obtain d where "(y, d) \<in> set (levels r ?st)"
    using at_distance_ex[OF y(1)] by (auto simp: traverse_levels depth_cut_def)
  moreover have "expanded (fold step es []) None r (levels r ?st) ?st"
    using traverse_inv by (simp add: bfs_inv_def)
  ultimately show ?thesis using y(2) unfolding expanded_def depth_cut_def by fastforce
qed

end

interpretation down: adjacency_builder downstream_step impacts
  by unfold_locales (auto simp: downstream_step_def impacts_def split: dependency_direction.splits)

interpretation up: adjacency_builder upstream_step relies_on
  by unfold_locales (auto simp: upstream_step_def relies_on_def split: dependency_direction.splits)

lemma impacts_converse:
  "edge_relationship e \<notin> {SHARED_SERVICE, BILLING_RELATIONSHIP} \<Longrightarrow> impacts e = (relies_on e)\<inverse>"
  by (auto simp: impacts_def relies_on_def split: dependency_direction.splits)

lemma downstream_result:
  "compute_downstream_impact rows entity md rts as_of ctx = Inr res \<Longrightarrow>
   \<exists>t. ctx = Some t \<and> strip t \<noteq> [] \<and> (let es = select_types rts (graph_edges rows as_of t) in
     res = impact_set_of (root_ref_of entity es) (traverse (fold downstream_step es []) md entity))"
  by (auto simp: compute_downstream_impact_def require_tenant_def Let_def downstream_adj_def try_bind_eq_Inr
           split: option.splits if_splits)

lemma upstream_result:
  "compute_upstream_dependencies rows entity md as_of ctx = Inr res \<Longrightarrow>
   \<exists>t. ctx = Some t \<and> strip t \<noteq> [] \<and> (let es = graph_edges rows as_of t in
     res = impact_set_of (root_ref_of entity es) (traverse (fold upstream_step es []) md entity))"
  by (auto simp: compute_upstream_dependencies_def require_tenant_def Let_def upstream_adj_def try_bind_eq_Inr
           split: option.splits if_splits)

lemma set_select_types:
  "set (select_types rts es) =
     {e \<in> set es. case rts of Some (t # ts) \<Rightarrow> edge_relationship e \<in> set (t # ts) | _ \<Rightarrow> True}"
  by (auto simp: select_types_def split: option.splits list.splits)

section \<open>Correctness of impact analysis\<close>

text \<open>Small graphs on which the theorems are applied.\<close>

definition demo_edge :: "string \<Rightarrow> string \<Rightarrow> string \<Rightarrow> relationship_type \<Rightarrow> edge_status \<Rightarrow> dependency_edge" where
  "demo_edge i a b rel st = \<lparr> edge_id = i, edge_tenant_id = ''t'',
     source_ref = \<lparr> ref_type = RESOURCE, ref_entity_id = a, ref_name = None \<rparr>,
     target_ref = \<lparr> ref_type = RESOURCE, ref_entity_id = b, ref_name = None \<rparr>,
     edge_relationship = rel, edge_direction = OUTBOUND, edge_criticality = HIGH, edge_status = st \<rparr>"

definition demo_rows :: "dependency_edge list \<Rightarrow> edge_row list" where
  "demo_rows es = map (\<lambda>e. \<lparr> row_created_at = 0, row_edge = e \<rparr>) es"

definition demo_chain :: "edge_row list" where
  "demo_chain = demo_rows [demo_edge ''1'' ''b'' ''a'' DATA_FLOW ACTIVE, demo_edge ''2'' ''c'' ''b'' DATA_FLOW ACTIVE,
                           demo_edge ''3'' ''a'' ''c'' DATA_FLOW DELETED]"

definition demo_down :: "int option \<Rightarrow> impact_set" where
  "demo_down md = (case compute_downstream_impact demo_chain ''a'' md None None (Some ''t'') of Inr r \<Rightarrow> r | Inl _ \<Rightarrow> undefined)"

lemma demo_down_result:
  "compute_downstream_impact demo_chain ''a'' md None None (Some ''t'') = Inr (demo_down md)"
  by (simp add: demo_down_def compute_downstream_impact_def require_tenant_def strip_def is_space_def Let_def)

lemma demo_edges: "graph_edges demo_chain None ''t'' = map row_edge (take 2 demo_chain)"
  by (simp add: graph_edges_def demo_chain_def demo_rows_def demo_edge_def list_edges_def status_clause_def Let_def)

text \<open>
  C17. The downstream impact set is exact: each dependent is listed once, the root is not listed,
  and the entities listed with depth d are exactly those whose distance from the root along the
  impact arcs of the selected edges is d, d being within the depth bound.
\<close>

theorem downstream_impact_exact:
  assumes "compute_downstream_impact rows entity md rts as_of (Some t) = Inr res"
  shows "distinct (node_ids (dependents res)) \<and>
    (\<forall>x d. (x, d) \<in> set (map node_level (dependents res)) \<longleftrightarrow>
       x \<noteq> entity
       \<and> at_distance (\<Union> (impacts ` set (select_types rts (graph_edges rows as_of t)))) entity x d
       \<and> (case md of Some m \<Rightarrow> int d \<le> m | None \<Rightarrow> True))"
  using downstream_result[OF assms] down.nodes_exact down.nodes_distinct
  by (auto simp: impact_set_of_def Let_def simp del: set_map)

theorem downstream_impact_exact_witness:
  "distinct (node_ids (dependents (demo_down (Some 1)))) \<and>
    (\<forall>x d. (x, d) \<in> set (map node_level (dependents (demo_down (Some 1)))) \<longleftrightarrow>
       x \<noteq> ''a''
       \<and> at_distance (\<Union> (impacts ` set (select_types None (graph_edges demo_chain None ''t'')))) ''a'' x d
       \<and> (case Some 1 of Some m \<Rightarrow> int d \<le> m | None \<Rightarrow> True))"
  by (rule downstream_impact_exact[OF demo_down_result])

text \<open>
  Cycle detection, downstream: the flag is set exactly when a cycle node is listed, every
  listed node lies on a cycle of the impact graph, and without a depth bound the root is listed
  exactly when it lies on a cycle.
\<close>

theorem cycle_report_sound:
  assumes "compute_downstream_impact rows entity None rts as_of (Some t) = Inr res"
  shows "has_cycle res = (cycle_nodes res \<noteq> []) \<and>
    (\<forall>x \<in> set (cycle_nodes res). (x, x) \<in> (\<Union> (impacts ` set (select_types rts (graph_edges rows as_of t))))\<^sup>+) \<and>
    (entity \<in> set (cycle_nodes res) \<longleftrightarrow>
      (entity, entity) \<in> (\<Union> (impacts ` set (select_types rts (graph_edges rows as_of t))))\<^sup>+)"
  using downstream_result[OF assms] down.cycle_flag down.cycles_real down.root_cycle_found
  by (auto simp: impact_set_of_def Let_def simp flip: set_empty)

theorem cycle_report_sound_witness:
  "has_cycle (demo_down None) = (cycle_nodes (demo_down None) \<noteq> []) \<and>
    (''a'' \<in> set (cycle_nodes (demo_down None)) \<longleftrightarrow>
      (''a'', ''a'') \<in> (\<Union> (impacts ` set (select_types None (graph_edges demo_chain None ''t''))))\<^sup>+)"
  using cycle_report_sound[OF demo_down_result] by blast

text \<open>
  On the relationship types that both methods orient alike, upstream and downstream are
  converse: y is in the blast radius of x exactly when x is among the dependencies of y.
\<close>

theorem upstream_downstream_converse:
  assumes "compute_downstream_impact rows x None None as_of (Some t) = Inr down_x"
    and "compute_upstream_dependencies rows y None as_of (Some t) = Inr up_y"
    and "\<forall>e \<in> set (graph_edges rows as_of t). edge_relationship e \<notin> {SHARED_SERVICE, BILLING_RELATIONSHIP}"
  shows "y \<in> set (node_ids (dependents down_x)) \<longleftrightarrow> x \<in> set (node_ids (dependents up_y))"
proof -
  let ?es = "set (graph_edges rows as_of t)"
  have "\<Union> (impacts ` ?es) = (\<Union> (relies_on ` ?es))\<inverse>"
    using assms(3) impacts_converse by (simp add: converse_UNION) 
  then have "(x, y) \<in> (\<Union> (impacts ` ?es))\<^sup>* \<longleftrightarrow> (y, x) \<in> (\<Union> (relies_on ` ?es))\<^sup>*"
    by (simp add: rtrancl_converse)
  then show ?thesis
    using downstream_result[OF assms(1)] upstream_result[OF assms(2)] down.nodes_reachable up.nodes_reachable
    by (auto simp: impact_set_of_def Let_def select_types_def simp del: set_map)
qed

definition demo_up :: "string \<Rightarrow> impact_set" where
  "demo_up y = (case compute_upstream_dependencies demo_chain y None None (Some ''t'') of Inr r \<Rightarrow> r | Inl _ \<Rightarrow> undefined)"

lemma demo_up_result:
  "compute_upstream_dependencies demo_chain y None None (Some ''t'') = Inr (demo_up y)"
  by (simp add: demo_up_def compute_upstream_dependencies_def require_tenant_def strip_def is_space_def Let_def)

theorem upstream_downstream_converse_witness:
  "''c'' \<in> set (node_ids (dependents (demo_down None))) \<longleftrightarrow> ''a'' \<in> set (node_ids (dependents (demo_up ''c'')))"
proof (rule upstream_downstream_converse[OF demo_down_result demo_up_result])
  show "\<forall>e \<in> set (graph_edges demo_chain None ''t''). edge_relationship e \<notin> {SHARED_SERVICE, BILLING_RELATIONSHIP}"
    by (simp add: demo_edges) (simp add: demo_chain_def demo_rows_def demo_edge_def)
qed

definition demo_missed :: "edge_row list" where
  "demo_missed = demo_rows [demo_edge ''1'' ''a'' ''r'' DATA_FLOW ACTIVE, demo_edge ''2'' ''b'' ''r'' DATA_FLOW ACTIVE,
                            demo_edge ''3'' ''b'' ''a'' DATA_FLOW ACTIVE, demo_edge ''4'' ''a'' ''b'' DATA_FLOW ACTIVE]"

lemma demo_missed_eval:
  "(case compute_downstream_impact demo_missed ''r'' None None None (Some ''t'') of
      Inr res \<Rightarrow> node_ids (dependents res) = [''a'', ''b''] \<and> \<not> has_cycle res | Inl _ \<Rightarrow> False)"
  by code_simp

text \<open>
  Cycle detection is incomplete: when two dependents of the root depend on each other and
  both are reached directly from the root, neither is on the path to the other, and the report
  has no cycle although both listed dependents lie on one.
\<close>

theorem cycle_off_the_path_missed:
  "\<exists>res. compute_downstream_impact demo_missed ''r'' None None None (Some ''t'') = Inr res
     \<and> \<not> has_cycle res \<and> node_ids (dependents res) = [''a'', ''b'']
     \<and> (''a'', ''a'') \<in> (\<Union> (impacts ` set (graph_edges demo_missed None ''t'')))\<^sup>+"
proof -
  obtain res where res: "compute_downstream_impact demo_missed ''r'' None None None (Some ''t'') = Inr res"
    "\<not> has_cycle res" "node_ids (dependents res) = [''a'', ''b'']"
    using demo_missed_eval by (auto split: sum.splits)
  have "\<Union> (impacts ` set (graph_edges demo_missed None ''t''))
      = {(''r'', ''a''), (''r'', ''b''), (''a'', ''b''), (''b'', ''a'')}"
    by code_simp
  then have "(''a'', ''b'') \<in> \<Union> (impacts ` set (graph_edges demo_missed None ''t''))"
    "(''b'', ''a'') \<in> \<Union> (impacts ` set (graph_edges demo_missed None ''t''))" by simp_all
  then show ?thesis using res by (meson trancl.r_into_trancl trancl_into_trancl)
qed

text \<open>
  A shared-service or billing edge from a provider to its consumer, with the default
  direction, puts the consumer both into the provider's blast radius and among the upstream
  dependencies of the provider: only the downstream method knows these relationship types.
\<close>

theorem shared_consumer_on_both_sides:
  assumes "compute_downstream_impact rows (source_id e) None None as_of (Some t) = Inr down_p"
    and "compute_upstream_dependencies rows (source_id e) None as_of (Some t) = Inr up_p"
    and "e \<in> set (graph_edges rows as_of t)" "edge_relationship e \<in> {SHARED_SERVICE, BILLING_RELATIONSHIP}"
    and "edge_direction e = OUTBOUND" "source_id e \<noteq> target_id e"
  shows "target_id e \<in> set (node_ids (dependents down_p)) \<and> target_id e \<in> set (node_ids (dependents up_p))"
proof -
  let ?es = "set (graph_edges rows as_of t)"
  have "(source_id e, target_id e) \<in> \<Union> (impacts ` ?es)" "(source_id e, target_id e) \<in> \<Union> (relies_on ` ?es)"
    using assms(3-5) by (auto simp: impacts_def relies_on_def intro!: bexI[of _ e])
  then show ?thesis
    using downstream_result[OF assms(1)] upstream_result[OF assms(2)] down.nodes_reachable up.nodes_reachable assms(6)
    by (auto simp: impact_set_of_def Let_def select_types_def simp del: set_map)
qed

definition demo_shared_edge :: dependency_edge where
  "demo_shared_edge = demo_edge ''1'' ''p'' ''c'' SHARED_SERVICE ACTIVE"

theorem shared_consumer_on_both_sides_witness:
  "\<exists>down_p up_p.
     compute_downstream_impact (demo_rows [demo_shared_edge]) ''p'' None None None (Some ''t'') = Inr down_p
     \<and> compute_upstream_dependencies (demo_rows [demo_shared_edge]) ''p'' None None (Some ''t'') = Inr up_p
     \<and> ''c'' \<in> set (node_ids (dependents down_p)) \<and> ''c'' \<in> set (node_ids (dependents up_p))"
proof -
  have ids: "source_id demo_shared_edge = ''p''" "target_id demo_shared_edge = ''c''"
    by (simp_all add: demo_shared_edge_def demo_edge_def)
  obtain d u where r: "compute_downstream_impact (demo_rows [demo_shared_edge]) ''p'' None None None (Some ''t'') = Inr d"
    "compute_upstream_dependencies (demo_rows [demo_shared_edge]) ''p'' None None (Some ''t'') = Inr u"
    by (simp add: compute_downstream_impact_def compute_upstream_dependencies_def require_tenant_def strip_def
          is_space_def Let_def)
  have "demo_shared_edge \<in> set (graph_edges (demo_rows [demo_shared_edge]) None ''t'')"
    by (simp add: demo_shared_edge_def graph_edges_def demo_rows_def demo_edge_def list_edges_def status_clause_def Let_def)
  moreover have "edge_relationship demo_shared_edge \<in> {SHARED_SERVICE, BILLING_RELATIONSHIP}"
    "edge_direction demo_shared_edge = OUTBOUND"
    by (simp_all add: demo_shared_edge_def demo_edge_def)
  ultimately show ?thesis using shared_consumer_on_both_sides[OF r[folded ids]] r ids by simp
qed

text \<open>
  The point in time is not applied: with an \<open>as_of\<close> argument the traversal runs over the same
  edges whatever the instant, and these include every row of the tenant (up to the limit of
  1000), whatever its status, deleted and superseded edges included.
\<close>

theorem as_of_is_not_applied:
  "graph_edges rows (Some a) t = graph_edges rows (Some b) t \<and>
   (length rows \<le> 1000 \<longrightarrow>
     set (graph_edges rows (Some a) t) = {e \<in> row_edge ` set rows. edge_tenant_id e = t})"
proof -
  have "length (filter P rows) \<le> 1000" if "length rows \<le> 1000" for P
    using that length_filter_le[of P rows] by linarith
  then show ?thesis by (auto simp: graph_edges_def list_edges_def status_clause_def Let_def)
qed

theorem as_of_is_not_applied_witness:
  "graph_edges demo_chain (Some 0) ''t'' = graph_edges demo_chain (Some 5) ''t'' \<and>
   demo_edge ''3'' ''a'' ''c'' DATA_FLOW DELETED \<in> set (graph_edges demo_chain (Some 0) ''t'')"
proof -
  have "length demo_chain \<le> 1000" "demo_edge ''3'' ''a'' ''c'' DATA_FLOW DELETED \<in> row_edge ` set demo_chain"
    "edge_tenant_id (demo_edge ''3'' ''a'' ''c'' DATA_FLOW DELETED) = ''t''"
    by (simp_all add: demo_chain_def demo_rows_def demo_edge_def)
  then show ?thesis using as_of_is_not_applied[of demo_chain 0 "''t''" 5] by blast
qed

end
