(* ===== verification/Audit_Stream.thy ===== *)
theory Audit_Stream
  imports Prelude "HOL-Library.List_Lexorder" "HOL-Library.Char_ord" "HOL-Library.Product_Lexorder"
begin

text \<open>
  The audit stream: \<open>AuditService\<close> (\<open>domain/audit/service.py\<close>) over the table of
  \<open>SqlAuditRepository\<close> (\<open>domain/audit/repository.py\<close>): appending with SHA-256 hash chaining,
  the refused mutations, the queries, and the two verifiers of the chain.

  SHA-256 and \<open>datetime.isoformat\<close> are arguments of the model (\<open>audit_env\<close>): the theorems hold for
  every hash function, and tamper evidence is stated as \<open>either the hashed contents agree or two
  different inputs with the same hash are at hand\<close>. \<open>json.dumps\<close> with sorted keys is modelled.
  The clock reading and the random identifier of an append are arguments. The process lock makes
  each append one step.
\<close>

section \<open>Serialised details\<close>

text \<open>JSON values; a float carries its printed form.\<close>

datatype json = JNull | JBool bool | JInt int | JFloat string | JStr string | JList "json list"
  | JObj "(string \<times> json) list"

fun nat_digits :: "nat \<Rightarrow> string" where
  "nat_digits n = (if n < 10 then [char_of (48 + n)] else nat_digits (n div 10) @ [char_of (48 + n mod 10)])"

declare nat_digits.simps [simp del]

definition int_digits :: "int \<Rightarrow> string" where
  "int_digits i = (if i < 0 then CHR ''-'' # nat_digits (nat (- i)) else nat_digits (nat i))"

definition hex_digit :: "nat \<Rightarrow> char" where
  "hex_digit n = char_of (if n < 10 then 48 + n else 87 + n)"

definition json_escape :: "char \<Rightarrow> string" where
  "json_escape c = (let n = (of_char c :: nat); bs = CHR 0x5C in
     if n = 92 \<or> n = 34 then [bs, c]
     else if n = 8 then [bs, CHR ''b''] else if n = 12 then [bs, CHR ''f'']
     else if n = 10 then [bs, CHR ''n''] else if n = 13 then [bs, CHR ''r''] else if n = 9 then [bs, CHR ''t'']
     else if 32 \<le> n \<and> n \<le> 126 then [c]
     else [bs, CHR ''u'', CHR ''0'', CHR ''0'', hex_digit (n div 16), hex_digit (n mod 16)])"

definition json_quote :: "string \<Rightarrow> string" where
  "json_quote s = CHR 0x22 # concat (map json_escape s) @ [CHR 0x22]"

fun join :: "string \<Rightarrow> string list \<Rightarrow> string" where
  "join sep [] = []"
| "join sep [s] = s"
| "join sep (s # t # ts) = s @ sep @ join sep (t # ts)"

fun dumps :: "json \<Rightarrow> string" where
  "dumps JNull = ''null''"
| "dumps (JBool b) = (if b then ''true'' else ''false'')"
| "dumps (JInt i) = int_digits i"
| "dumps (JFloat s) = s"
| "dumps (JStr s) = json_quote s"
| "dumps (JList xs) = ''['' @ join '', '' (map dumps xs) @ '']''"
| "dumps (JObj kvs) = ''{'' @ join '', '' (map (\<lambda>(k, s). json_quote k @ '': '' @ s)
                        (sort_key fst (map (\<lambda>(k, v). (k, dumps v)) kvs))) @ ''}''"

type_synonym details = "(string \<times> json) list"

section \<open>Events, contexts and the table\<close>

record audit_env =
  sha256 :: "string \<Rightarrow> string"
  isoformat :: "int \<Rightarrow> string"

record tenant_context =
  tc_tenant_id :: string
  tc_user_id :: string
  tc_roles :: "string list"
  tc_correlation_id :: "string option"
  tc_is_superuser :: bool

text \<open>\<open>AuditEvent\<close>; the event type is the value of the \<open>AuditEventType\<close> member.\<close>

record audit_event =
  ev_id :: string
  ev_tenant_id :: string
  ev_event_type :: string
  ev_actor_id :: string
  ev_actor_roles :: "string list"
  ev_action :: string
  ev_resource_type :: string
  ev_resource_id :: string
  ev_details :: details
  ev_correlation_id :: "string option"
  ev_ip_address :: "string option"
  ev_user_agent :: "string option"
  ev_timestamp :: int
  ev_previous_event_hash :: "string option"
  ev_event_hash :: string

record audit_event_create =
  ec_event_type :: string
  ec_actor_id :: string
  ec_actor_roles :: "string list"
  ec_action :: string
  ec_resource_type :: string
  ec_resource_id :: string
  ec_details :: details
  ec_correlation_id :: "string option"
  ec_ip_address :: "string option"
  ec_user_agent :: "string option"

record audit_event_filter =
  fl_event_type :: "string option"
  fl_actor_id :: "string option"
  fl_resource_type :: "string option"
  fl_resource_id :: "string option"
  fl_correlation_id :: "string option"
  fl_since :: "int option"
  fl_until :: "int option"

text \<open>The exceptions; of their message texts only the identifiers are kept.\<close>

datatype audit_error =
    MissingTenantContextException
  | CrossTenantAccessForbiddenException
  | AuditTamperForbiddenException
  | AuditRecordNotFoundException string
  | IntegrityError
  | AttributeError string

type_synonym audit_table = "audit_event list"

definition require_tenant_context :: "tenant_context option \<Rightarrow> audit_error + tenant_context" where
  "require_tenant_context ctx =
     (case ctx of None \<Rightarrow> Inl MissingTenantContextException
      | Some tc \<Rightarrow> if strip (tc_tenant_id tc) = [] then Inl MissingTenantContextException else Inr tc)"

section \<open>The repository\<close>

text \<open>\<open>ORDER BY occurred_at DESC, id DESC\<close>; the primary key makes the order of a tenant's rows strict.\<close>

definition newest_first :: "audit_table \<Rightarrow> audit_event list" where
  "newest_first rows = rev (sort_key (\<lambda>e. (ev_timestamp e, ev_id e)) rows)"

definition opt_clause :: "string option \<Rightarrow> string option \<Rightarrow> bool" where
  "opt_clause want has \<longleftrightarrow> (truthy want \<longrightarrow> has = want)"

definition filter_clauses :: "audit_event_filter option \<Rightarrow> audit_event \<Rightarrow> bool" where
  "filter_clauses f e =
     (case f of None \<Rightarrow> True
      | Some f \<Rightarrow> opt_clause (fl_event_type f) (Some (ev_event_type e))
          \<and> opt_clause (fl_actor_id f) (Some (ev_actor_id e))
          \<and> opt_clause (fl_resource_type f) (Some (ev_resource_type e))
          \<and> opt_clause (fl_resource_id f) (Some (ev_resource_id e))
          \<and> opt_clause (fl_correlation_id f) (ev_correlation_id e)
          \<and> (case fl_since f of Some a \<Rightarrow> ev_timestamp e \<ge> a | None \<Rightarrow> True)
          \<and> (case fl_until f of Some b \<Rightarrow> ev_timestamp e \<le> b | None \<Rightarrow> True))"

definition repo_list :: "audit_table \<Rightarrow> string \<Rightarrow> audit_event_filter option \<Rightarrow> nat \<Rightarrow> nat \<Rightarrow> audit_event list" where
  "repo_list tbl tenant f limit offset =
     take limit (drop offset (newest_first (filter (\<lambda>e. ev_tenant_id e = tenant \<and> filter_clauses f e) tbl)))"

definition get_last_event :: "audit_table \<Rightarrow> string \<Rightarrow> audit_event option" where
  "get_last_event tbl tenant =
     (case newest_first (filter (\<lambda>e. ev_tenant_id e = tenant) tbl) of [] \<Rightarrow> None | e # _ \<Rightarrow> Some e)"

definition repo_get :: "audit_table \<Rightarrow> string \<Rightarrow> string \<Rightarrow> audit_event option" where
  "repo_get tbl tenant i = find (\<lambda>e. ev_tenant_id e = tenant \<and> ev_id e = i) tbl"

text \<open>
  \<open>save\<close>: the tenant check, then the insertion; a row with the same primary key
  \<open>(occurred_at, tenant_id, id)\<close> makes it fail. The stored row has a default correlation id.
\<close>

definition stored_row :: "audit_event \<Rightarrow> audit_event" where
  "stored_row e = e\<lparr> ev_correlation_id := or_else (ev_correlation_id e) (Some ''default-trace'') \<rparr>"

definition repo_save :: "audit_event \<Rightarrow> tenant_context \<Rightarrow> audit_table \<Rightarrow> (audit_error + audit_event) \<times> audit_table" where
  "repo_save e tc tbl =
     (if ev_tenant_id e \<noteq> tc_tenant_id tc then (Inl CrossTenantAccessForbiddenException, tbl)
      else if \<exists>r \<in> set tbl. ev_timestamp r = ev_timestamp e \<and> ev_tenant_id r = ev_tenant_id e \<and> ev_id r = ev_id e
      then (Inl IntegrityError, tbl)
      else (Inr e, tbl @ [stored_row e]))"

text \<open>\<open>delete\<close>: the trigger refuses the statement, and the method raises in any case.\<close>

definition repo_delete :: "string \<Rightarrow> tenant_context option \<Rightarrow> audit_table \<Rightarrow> (audit_error + bool) \<times> audit_table" where
  "repo_delete i ctx tbl =
     (case require_tenant_context ctx of
        Inl err \<Rightarrow> (Inl err, tbl)
      | Inr tc \<Rightarrow> (Inl AuditTamperForbiddenException, tbl))"

section \<open>The service\<close>

definition chain_input :: "audit_env \<Rightarrow> string \<Rightarrow> string \<Rightarrow> string \<Rightarrow> string \<Rightarrow> string \<Rightarrow> int \<Rightarrow> string option \<Rightarrow> details \<Rightarrow> string" where
  "chain_input env tenant etype actor rtype rid ts prev det =
     tenant @ '':'' @ etype @ '':'' @ actor @ '':'' @ rtype @ '':'' @ rid @ '':'' @ isoformat env ts @ '':''
     @ (if truthy prev then the prev else ''GENESIS'') @ '':'' @ dumps (JObj det)"

definition compute_hash :: "audit_env \<Rightarrow> string \<Rightarrow> string \<Rightarrow> string \<Rightarrow> string \<Rightarrow> string \<Rightarrow> int \<Rightarrow> string option \<Rightarrow> details \<Rightarrow> string" where
  "compute_hash env tenant etype actor rtype rid ts prev det =
     sha256 env (chain_input env tenant etype actor rtype rid ts prev det)"

definition append_event :: "audit_env \<Rightarrow> tenant_context option \<Rightarrow> audit_event_create \<Rightarrow> int \<Rightarrow> string
    \<Rightarrow> audit_table \<Rightarrow> (audit_error + audit_event) \<times> audit_table" where
  "append_event env ctx ec now uid tbl =
     (case require_tenant_context ctx of
        Inl err \<Rightarrow> (Inl err, tbl)
      | Inr tc \<Rightarrow>
          (let prev_hash = map_option ev_event_hash (get_last_event tbl (tc_tenant_id tc));
               h = compute_hash env (tc_tenant_id tc) (ec_event_type ec) (ec_actor_id ec) (ec_resource_type ec)
                     (ec_resource_id ec) now prev_hash (ec_details ec)
           in repo_save
             \<lparr> ev_id = ''aud-'' @ uid, ev_tenant_id = tc_tenant_id tc, ev_event_type = ec_event_type ec,
               ev_actor_id = ec_actor_id ec, ev_actor_roles = ec_actor_roles ec, ev_action = ec_action ec,
               ev_resource_type = ec_resource_type ec, ev_resource_id = ec_resource_id ec,
               ev_details = ec_details ec, ev_correlation_id = or_else (ec_correlation_id ec) (tc_correlation_id tc),
               ev_ip_address = ec_ip_address ec, ev_user_agent = ec_user_agent ec, ev_timestamp = now,
               ev_previous_event_hash = prev_hash, ev_event_hash = h \<rparr> tc tbl))"

definition record_event :: "audit_env \<Rightarrow> tenant_context option \<Rightarrow> string \<Rightarrow> string \<Rightarrow> details option \<Rightarrow> string option
    \<Rightarrow> string \<Rightarrow> string \<Rightarrow> int \<Rightarrow> string \<Rightarrow> audit_table \<Rightarrow> (audit_error + audit_event) \<times> audit_table" where
  "record_event env ctx etype actor payload action rtype rid now uid tbl =
     append_event env ctx
       \<lparr> ec_event_type = etype, ec_actor_id = actor, ec_actor_roles = [],
         ec_action = (if truthy action then the action else etype), ec_resource_type = rtype, ec_resource_id = rid,
         ec_details = (case payload of Some d \<Rightarrow> d | None \<Rightarrow> []), ec_correlation_id = None,
         ec_ip_address = None, ec_user_agent = None \<rparr> now uid tbl"

definition list_events :: "tenant_context option \<Rightarrow> audit_event_filter option \<Rightarrow> nat \<Rightarrow> nat \<Rightarrow> audit_table
    \<Rightarrow> audit_error + audit_event list" where
  "list_events ctx f limit offset tbl =
     try_bind (require_tenant_context ctx) (\<lambda>tc. Inr (repo_list tbl (tc_tenant_id tc) f limit offset))"

definition get_event :: "tenant_context option \<Rightarrow> string \<Rightarrow> audit_table \<Rightarrow> audit_error + audit_event" where
  "get_event ctx i tbl =
     try_bind (require_tenant_context ctx) (\<lambda>tc.
       case repo_get tbl (tc_tenant_id tc) i of None \<Rightarrow> Inl (AuditRecordNotFoundException i) | Some e \<Rightarrow> Inr e)"

fun integrity_loop :: "audit_env \<Rightarrow> string \<Rightarrow> string option \<Rightarrow> audit_event list \<Rightarrow> bool" where
  "integrity_loop env tenant expected [] = True"
| "integrity_loop env tenant expected (e # es) =
     (if ev_previous_event_hash e \<noteq> expected then False
      else if compute_hash env tenant (ev_event_type e) (ev_actor_id e) (ev_resource_type e) (ev_resource_id e)
                (ev_timestamp e) expected (ev_details e) \<noteq> ev_event_hash e then False
      else integrity_loop env tenant (Some (ev_event_hash e)) es)"

definition verify_stream_integrity :: "audit_env \<Rightarrow> tenant_context option \<Rightarrow> audit_table \<Rightarrow> audit_error + bool" where
  "verify_stream_integrity env ctx tbl =
     try_bind (require_tenant_context ctx) (\<lambda>tc.
       Inr (integrity_loop env (tc_tenant_id tc) None (repo_list tbl (tc_tenant_id tc) None 100000 0)))"

definition mutation_record :: "tenant_context \<Rightarrow> string \<Rightarrow> string \<Rightarrow> audit_event_create" where
  "mutation_record tc event_id operation =
     \<lparr> ec_event_type = ''AUDIT_MUTATION_ATTEMPT'', ec_actor_id = tc_user_id tc, ec_actor_roles = tc_roles tc,
       ec_action = ''ILLEGAL_'' @ upper operation, ec_resource_type = ''AUDIT_EVENT'',
       ec_resource_id = event_id,
       ec_details = [(''attempted_operation'', JStr operation), (''target_event_id'', JStr event_id),
                     (''is_superuser'', JBool (tc_is_superuser tc)),
                     (''violation'', JStr ''SEC-015 immutable audit violation'')],
       ec_correlation_id = tc_correlation_id tc, ec_ip_address = None, ec_user_agent = None \<rparr>"

definition attempt_mutation :: "audit_env \<Rightarrow> tenant_context option \<Rightarrow> string \<Rightarrow> string \<Rightarrow> int \<Rightarrow> string
    \<Rightarrow> audit_table \<Rightarrow> (audit_error + unit) \<times> audit_table" where
  "attempt_mutation env ctx event_id operation now uid tbl =
     (case require_tenant_context ctx of
        Inl err \<Rightarrow> (Inl err, tbl)
      | Inr tc \<Rightarrow>
          (case append_event env (Some tc) (mutation_record tc event_id operation) now uid tbl of
             (Inl err, tbl') \<Rightarrow> (Inl err, tbl')
           | (Inr _, tbl') \<Rightarrow> (Inl AuditTamperForbiddenException, tbl')))"

text \<open>
  \<open>verify_audit_hash_chain\<close> reads the attribute \<open>_tenant_streams\<close> of the repository object, oldest
  event first; \<open>None\<close> stands for a repository without it, as \<open>SqlAuditRepository\<close> is.
\<close>

datatype chain_report =
    Chain_empty
  | Chain_verified nat string
  | Previous_hash_mismatch nat string "string option" "string option"
  | Tampered_record nat string string string

fun chain_loop :: "audit_env \<Rightarrow> nat \<Rightarrow> string option \<Rightarrow> audit_event list \<Rightarrow> chain_report" where
  "chain_loop env idx prev [] = (case prev of Some h \<Rightarrow> Chain_verified idx h | None \<Rightarrow> Chain_empty)"
| "chain_loop env idx prev (e # es) =
     (if ev_previous_event_hash e \<noteq> prev
      then Previous_hash_mismatch idx (ev_id e) prev (ev_previous_event_hash e)
      else let h = compute_hash env (ev_tenant_id e) (ev_event_type e) (ev_actor_id e) (ev_resource_type e)
                     (ev_resource_id e) (ev_timestamp e) (ev_previous_event_hash e) (ev_details e) in
        if ev_event_hash e \<noteq> h then Tampered_record idx (ev_id e) h (ev_event_hash e)
        else chain_loop env (Suc idx) (Some (ev_event_hash e)) es)"

definition verify_audit_hash_chain :: "audit_env \<Rightarrow> (string, audit_event list) dict option \<Rightarrow> string
    \<Rightarrow> audit_error + chain_report" where
  "verify_audit_hash_chain env streams tenant =
     (case streams of
        None \<Rightarrow> Inl (AttributeError ''_tenant_streams'')
      | Some d \<Rightarrow> Inr (chain_loop env 0 None (case dict_get d tenant of Some es \<Rightarrow> es | None \<Rightarrow> [])))"

section \<open>The chain is kept\<close>

text \<open>The commands that reach the table.\<close>

datatype audit_cmd =
    Append "tenant_context option" audit_event_create int string
  | Mutate "tenant_context option" string string int string
  | Delete string "tenant_context option"

fun cmd_step :: "audit_env \<Rightarrow> audit_cmd \<Rightarrow> audit_table \<Rightarrow> audit_table" where
  "cmd_step env (Append ctx ec now uid) tbl = snd (append_event env ctx ec now uid tbl)"
| "cmd_step env (Mutate ctx i op now uid) tbl = snd (attempt_mutation env ctx i op now uid tbl)"
| "cmd_step env (Delete i ctx) tbl = snd (repo_delete i ctx tbl)"

fun cmd_times :: "audit_cmd \<Rightarrow> int list" where
  "cmd_times (Append ctx ec now uid) = [now]"
| "cmd_times (Mutate ctx i op now uid) = [now]"
| "cmd_times (Delete i ctx) = []"

abbreviation cmd_run :: "audit_env \<Rightarrow> audit_cmd list \<Rightarrow> audit_table \<Rightarrow> audit_table" where
  "cmd_run env cmds tbl \<equiv> fold (cmd_step env) cmds tbl"

text \<open>A log to which every step appends at most one row.\<close>

locale append_log =
  fixes step :: "'c \<Rightarrow> 'r list \<Rightarrow> 'r list"
  assumes extends: "\<exists>rs. step c l = l @ rs \<and> length rs \<le> 1"
begin

lemma run_prefix: "\<exists>rs. fold step cs l = l @ rs \<and> length rs \<le> length cs"
proof (induction cs arbitrary: l)
  case (Cons c cs)
  obtain r where r: "step c l = l @ r" "length r \<le> 1" using extends by blast
  obtain rs where "fold step cs (l @ r) = (l @ r) @ rs" "length rs \<le> length cs" using Cons.IH by blast
  then show ?case using r by (intro exI[of _ "r @ rs"]) simp
qed simp

lemma row_kept: "i < length l \<Longrightarrow> fold step cs l ! i = l ! i"
  using run_prefix[of cs l] by (auto simp: nth_append)

end

definition new_event :: "audit_env \<Rightarrow> tenant_context \<Rightarrow> audit_event_create \<Rightarrow> int \<Rightarrow> string \<Rightarrow> string option \<Rightarrow> audit_event" where
  "new_event env tc ec now uid prev =
     \<lparr> ev_id = ''aud-'' @ uid, ev_tenant_id = tc_tenant_id tc, ev_event_type = ec_event_type ec,
       ev_actor_id = ec_actor_id ec, ev_actor_roles = ec_actor_roles ec, ev_action = ec_action ec,
       ev_resource_type = ec_resource_type ec, ev_resource_id = ec_resource_id ec,
       ev_details = ec_details ec, ev_correlation_id = or_else (ec_correlation_id ec) (tc_correlation_id tc),
       ev_ip_address = ec_ip_address ec, ev_user_agent = ec_user_agent ec, ev_timestamp = now,
       ev_previous_event_hash = prev,
       ev_event_hash = compute_hash env (tc_tenant_id tc) (ec_event_type ec) (ec_actor_id ec) (ec_resource_type ec)
                         (ec_resource_id ec) now prev (ec_details ec) \<rparr>"

lemma append_event_cases:
  obtains (refused) err where "append_event env ctx ec now uid tbl = (Inl err, tbl)"
  | (appended) tc e where "ctx = Some tc" "append_event env ctx ec now uid tbl = (Inr e, tbl @ [stored_row e])"
      "e = new_event env tc ec now uid (map_option ev_event_hash (get_last_event tbl (tc_tenant_id tc)))"
proof (cases "require_tenant_context ctx")
  case (Inl err)
  then show thesis using refused by (simp add: append_event_def)
next
  case (Inr tc)
  then have ctx: "ctx = Some tc" by (auto simp: require_tenant_context_def split: option.splits if_splits)
  let ?e = "new_event env tc ec now uid (map_option ev_event_hash (get_last_event tbl (tc_tenant_id tc)))"
  have A: "append_event env ctx ec now uid tbl = repo_save ?e tc tbl"
    by (simp add: append_event_def new_event_def Inr Let_def)
  have "ev_tenant_id ?e = tc_tenant_id tc" by (simp add: new_event_def)
  then have "repo_save ?e tc tbl = (Inl IntegrityError, tbl) \<or> repo_save ?e tc tbl = (Inr ?e, tbl @ [stored_row ?e])"
    by (simp add: repo_save_def)
  then show thesis using A ctx refused appended by auto
qed

lemma append_event_fresh:
  assumes "require_tenant_context ctx = Inr tc" "\<forall>r \<in> set tbl. ev_timestamp r < now"
  shows "append_event env ctx ec now uid tbl =
    (let e = new_event env tc ec now uid (map_option ev_event_hash (get_last_event tbl (tc_tenant_id tc)))
     in (Inr e, tbl @ [stored_row e]))"
proof -
  have "\<forall>r \<in> set tbl. ev_timestamp r \<noteq> now" using assms(2) by force
  then show ?thesis using assms(1) by (auto simp add: append_event_def repo_save_def new_event_def Let_def)
qed

lemma require_tenant_context_idem:
  "require_tenant_context ctx = Inr tc \<Longrightarrow> require_tenant_context (Some tc) = Inr tc"
  by (auto simp: require_tenant_context_def split: option.splits if_splits)

lemma attempt_mutation_table:
  "\<exists>ec. snd (attempt_mutation env ctx i op now uid tbl) = snd (append_event env ctx ec now uid tbl)"
proof (cases "require_tenant_context ctx")
  case (Inl err)
  then show ?thesis by (simp add: attempt_mutation_def append_event_def)
next
  case (Inr tc)
  then have "ctx = Some tc" by (auto simp: require_tenant_context_def split: option.splits if_splits)
  with Inr have "snd (attempt_mutation env ctx i op now uid tbl)
      = snd (append_event env ctx (mutation_record tc i op) now uid tbl)"
    by (simp add: attempt_mutation_def split: prod.splits sum.splits)
  then show ?thesis by blast
qed

lemma append_extends: "\<exists>rs. snd (append_event env ctx ec now uid tbl) = tbl @ rs \<and> length rs \<le> 1"
  by (rule append_event_cases[of env ctx ec now uid tbl]) auto

interpretation audit_log: append_log "cmd_step env" for env
proof
  fix c l
  show "\<exists>rs. cmd_step env c l = l @ rs \<and> length rs \<le> 1"
  proof (cases c)
    case (Append ctx ec now uid)
    then show ?thesis using append_extends by simp
  next
    case (Mutate ctx i op now uid)
    then show ?thesis using attempt_mutation_table[of env ctx i op now uid l] append_extends by (metis cmd_step.simps(2))
  next
    case (Delete i ctx)
    then show ?thesis by (simp add: repo_delete_def split: sum.splits)
  qed
qed

abbreviation stream_of :: "string \<Rightarrow> audit_table \<Rightarrow> audit_event list" where
  "stream_of t tbl \<equiv> filter (\<lambda>e. ev_tenant_id e = t) tbl"

text \<open>
  The invariant of the table: each tenant's rows have increasing time stamps and form a chain from
  the genesis.
\<close>

definition chain_inv :: "audit_env \<Rightarrow> audit_table \<Rightarrow> bool" where
  "chain_inv env tbl \<longleftrightarrow> (\<forall>t. sorted_wrt (<) (map ev_timestamp (stream_of t tbl))
     \<and> integrity_loop env t None (stream_of t tbl))"

lemma newest_first_sorted:
  assumes "sorted_wrt (<) (map ev_timestamp es)"
  shows "newest_first es = rev es"
proof -
  have "sorted (map (\<lambda>e. (ev_timestamp e, ev_id e)) es)"
    using assms by (simp add: sorted_wrt_map) (metis (mono_tags, lifting) less_eq_prod_simp sorted_wrt_mono_rel)
  then show ?thesis by (simp add: newest_first_def sort_key_id_if_sorted)
qed

lemma integrity_loop_snoc:
  "integrity_loop env t p (es @ [e]) \<longleftrightarrow> integrity_loop env t p es
     \<and> ev_previous_event_hash e = (if es = [] then p else Some (ev_event_hash (last es)))
     \<and> compute_hash env t (ev_event_type e) (ev_actor_id e) (ev_resource_type e) (ev_resource_id e)
         (ev_timestamp e) (ev_previous_event_hash e) (ev_details e) = ev_event_hash e"
  by (induction es arbitrary: p) auto

lemma last_event_of_chain:
  "chain_inv env tbl \<Longrightarrow> get_last_event tbl t = (if stream_of t tbl = [] then None else Some (last (stream_of t tbl)))"
  using newest_first_sorted[of "stream_of t tbl"]
  by (auto simp: get_last_event_def chain_inv_def hd_rev split: list.splits dest: arg_cong[where f = hd])

lemma append_keeps_chain:
  assumes I: "chain_inv env tbl" and now: "\<forall>e \<in> set tbl. ev_timestamp e < now"
  shows "chain_inv env (snd (append_event env ctx ec now uid tbl))
    \<and> (\<forall>e \<in> set (snd (append_event env ctx ec now uid tbl)). ev_timestamp e \<le> now)"
proof (rule append_event_cases[of env ctx ec now uid tbl])
  fix err assume "append_event env ctx ec now uid tbl = (Inl err, tbl)"
  then show ?thesis using assms by auto
next
  fix tc e
  assume A: "append_event env ctx ec now uid tbl = (Inr e, tbl @ [stored_row e])"
    and e: "e = new_event env tc ec now uid (map_option ev_event_hash (get_last_event tbl (tc_tenant_id tc)))"
  have "chain_inv env (tbl @ [stored_row e])"
    unfolding chain_inv_def
  proof
    fix t
    show "sorted_wrt (<) (map ev_timestamp (stream_of t (tbl @ [stored_row e])))
        \<and> integrity_loop env t None (stream_of t (tbl @ [stored_row e]))"
      using I now unfolding chain_inv_def
      by (auto simp: sorted_wrt_append integrity_loop_snoc e new_event_def stored_row_def last_event_of_chain[OF I])
  qed
  moreover have "\<forall>r \<in> set (tbl @ [stored_row e]). ev_timestamp r \<le> now"
    using now by (auto simp: e stored_row_def new_event_def)
  ultimately show ?thesis by (simp add: A)
qed

lemma cmd_keeps_chain:
  assumes "chain_inv env tbl" "\<forall>t \<in> set (cmd_times c). \<forall>e \<in> set tbl. ev_timestamp e < t"
  shows "chain_inv env (cmd_step env c tbl)
    \<and> (\<forall>e \<in> set (cmd_step env c tbl). e \<in> set tbl \<or> (\<exists>t \<in> set (cmd_times c). ev_timestamp e \<le> t))"
proof (cases c)
  case (Append ctx ec now uid)
  then show ?thesis using append_keeps_chain[OF assms(1), of now] assms(2) by auto
next
  case (Mutate ctx i op now uid)
  then show ?thesis using append_keeps_chain[OF assms(1), of now] assms(2) attempt_mutation_table[of env ctx i op now uid tbl]
    by auto
next
  case (Delete i ctx)
  then show ?thesis using assms by (auto simp: repo_delete_def split: sum.splits)
qed

lemma run_keeps_chain:
  assumes "chain_inv env tbl" "sorted_wrt (<) (concat (map cmd_times cmds))"
    "\<forall>t \<in> set (concat (map cmd_times cmds)). \<forall>e \<in> set tbl. ev_timestamp e < t"
  shows "chain_inv env (cmd_run env cmds tbl)"
  using assms
proof (induction cmds arbitrary: tbl)
  case (Cons c cmds)
  have K: "chain_inv env (cmd_step env c tbl)"
    "\<forall>e \<in> set (cmd_step env c tbl). e \<in> set tbl \<or> (\<exists>t \<in> set (cmd_times c). ev_timestamp e \<le> t)"
    using cmd_keeps_chain[of env tbl c] Cons.prems by auto
  have "\<forall>t \<in> set (concat (map cmd_times cmds)). \<forall>e \<in> set (cmd_step env c tbl). ev_timestamp e < t"
    using K(2) Cons.prems(2,3) by (fastforce simp: sorted_wrt_append)
  with K(1) Cons.IH Cons.prems(2) show ?case by (simp add: sorted_wrt_append)
qed simp

text \<open>The two verifiers agree on a tenant's stream, oldest event first.\<close>

lemma chain_loop_integrity:
  assumes "\<forall>e \<in> set es. ev_tenant_id e = t"
  shows "integrity_loop env t p es \<longleftrightarrow>
    chain_loop env i p es = (if es = [] then (case p of None \<Rightarrow> Chain_empty | Some h \<Rightarrow> Chain_verified i h)
      else Chain_verified (i + length es) (ev_event_hash (last es)))"
  using assms
proof (induction es arbitrary: i p)
  case Nil
  then show ?case by (simp split: option.splits)
next
  case (Cons e es)
  from Cons.prems have "\<forall>e \<in> set es. ev_tenant_id e = t" "ev_tenant_id e = t" by simp_all
  with Cons.IH[of "Some (ev_event_hash e)" "Suc i"] show ?case by (auto simp: Let_def)
qed

section \<open>Correctness of the stream\<close>

definition demo_env :: audit_env where
  "demo_env = \<lparr> sha256 = (\<lambda>s. CHR ''h'' # replicate (length s) CHR ''x''),
     isoformat = (\<lambda>t. ''::'' @ replicate (nat t) CHR ''x'' @ CHR '':'' # replicate (nat (- t)) CHR ''x'') \<rparr>"

definition demo_tc :: tenant_context where
  "demo_tc = \<lparr> tc_tenant_id = ''t'', tc_user_id = ''u'', tc_roles = [], tc_correlation_id = None, tc_is_superuser = True \<rparr>"

definition demo_create :: audit_event_create where
  "demo_create = \<lparr> ec_event_type = ''E'', ec_actor_id = ''u'', ec_actor_roles = [], ec_action = ''A'',
     ec_resource_type = ''R'', ec_resource_id = ''1'', ec_details = [], ec_correlation_id = None,
     ec_ip_address = None, ec_user_agent = None \<rparr>"

definition demo_cmds :: "audit_cmd list" where
  "demo_cmds = [Append (Some demo_tc) demo_create 1 ''a'', Mutate (Some demo_tc) ''aud-a'' ''delete'' 2 ''b'',
                Delete ''aud-a'' (Some demo_tc)]"

lemma demo_cmds_ordered: "sorted_wrt (<) (concat (map cmd_times demo_cmds))"
  by (simp add: demo_cmds_def)

lemma demo_require: "require_tenant_context (Some demo_tc) = Inr demo_tc"
  by (simp add: require_tenant_context_def demo_tc_def strip_def is_space_def)

text \<open>
  C25. After any sequence of appends, mutation attempts and deletions whose clock readings increase,
  the events of each tenant, oldest first, are accepted by the chain verifier, which counts them all
  and reports the hash of the newest as the head.
\<close>

theorem appended_streams_verify:
  assumes "sorted_wrt (<) (concat (map cmd_times cmds))"
  shows "verify_audit_hash_chain env (Some [(t, stream_of t (cmd_run env cmds []))]) t =
    Inr (if stream_of t (cmd_run env cmds []) = [] then Chain_empty
         else Chain_verified (length (stream_of t (cmd_run env cmds [])))
                (ev_event_hash (last (stream_of t (cmd_run env cmds [])))))"
proof -
  let ?s = "stream_of t (cmd_run env cmds [])"
  have "chain_inv env (cmd_run env cmds [])" using run_keeps_chain[OF _ assms] by (simp add: chain_inv_def)
  then have "integrity_loop env t None ?s" by (simp add: chain_inv_def)
  then show ?thesis using chain_loop_integrity[of ?s t env None 0]
    by (auto simp: verify_audit_hash_chain_def split: list.splits)
qed

theorem appended_streams_verify_witness:
  "verify_audit_hash_chain demo_env (Some [(''t'', stream_of ''t'' (cmd_run demo_env demo_cmds []))]) ''t'' =
    Inr (if stream_of ''t'' (cmd_run demo_env demo_cmds []) = [] then Chain_empty
         else Chain_verified (length (stream_of ''t'' (cmd_run demo_env demo_cmds [])))
                (ev_event_hash (last (stream_of ''t'' (cmd_run demo_env demo_cmds [])))))"
  by (rule appended_streams_verify[OF demo_cmds_ordered])

text \<open>
  The endpoint's integrity check reads the newest event first while it expects the genesis
  first: it reports every stream of two or more events that was written by the service itself, under
  an increasing clock, as broken.
\<close>

theorem integrity_check_rejects_genuine_streams:
  assumes "sorted_wrt (<) (concat (map cmd_times cmds))" "require_tenant_context ctx = Inr tc"
    and "2 \<le> length (stream_of (tc_tenant_id tc) (cmd_run env cmds []))"
  shows "verify_stream_integrity env ctx (cmd_run env cmds []) = Inr False"
proof -
  let ?s = "stream_of (tc_tenant_id tc) (cmd_run env cmds [])"
  have I: "chain_inv env (cmd_run env cmds [])" using run_keeps_chain[OF _ assms(1)] by (simp add: chain_inv_def)
  obtain es e where s: "?s = es @ [e]" "es \<noteq> []"
    using assms(3) by (cases ?s rule: rev_cases) (simp, force)
  have "integrity_loop env (tc_tenant_id tc) None (es @ [e])" using I s(1) by (metis chain_inv_def)
  then have "ev_previous_event_hash e \<noteq> None" using s(2) by (simp add: integrity_loop_snoc)
  moreover have "newest_first ?s = rev ?s" using I by (intro newest_first_sorted) (simp add: chain_inv_def)
  then have "newest_first ?s = e # rev es" unfolding s(1) by simp
  ultimately show ?thesis using assms(2)
    by (simp add: verify_stream_integrity_def repo_list_def filter_clauses_def)
qed

lemma demo_run:
  "cmd_run demo_env demo_cmds [] =
     [stored_row (new_event demo_env demo_tc demo_create 1 ''a'' None),
      stored_row (new_event demo_env demo_tc (mutation_record demo_tc ''aud-a'' ''delete'') 2 ''b''
        (Some (ev_event_hash (new_event demo_env demo_tc demo_create 1 ''a'' None))))]"
proof -
  let ?e = "new_event demo_env demo_tc demo_create 1 ''a'' None"
  have 1: "append_event demo_env (Some demo_tc) demo_create 1 ''a'' [] = (Inr ?e, [stored_row ?e])"
    by (simp add: append_event_fresh[OF demo_require] get_last_event_def newest_first_def Let_def)
  have "get_last_event [stored_row ?e] (tc_tenant_id demo_tc) = Some (stored_row ?e)"
    by (simp add: get_last_event_def newest_first_def stored_row_def new_event_def)
  moreover have "ev_event_hash (stored_row ?e) = ev_event_hash ?e" by (simp add: stored_row_def)
  moreover have "\<forall>r \<in> set [stored_row ?e]. ev_timestamp r < 2" by (simp add: stored_row_def new_event_def)
  ultimately have 2: "snd (attempt_mutation demo_env (Some demo_tc) ''aud-a'' ''delete'' 2 ''b'' [stored_row ?e]) =
      [stored_row ?e, stored_row (new_event demo_env demo_tc (mutation_record demo_tc ''aud-a'' ''delete'') 2 ''b'' (Some (ev_event_hash ?e)))]"
    by (simp only: attempt_mutation_def demo_require append_event_fresh[OF demo_require] Let_def sum.case prod.case
          snd_conv option.map append.simps)
  show ?thesis by (simp add: demo_cmds_def 1 2 repo_delete_def demo_require)
qed

theorem integrity_check_rejects_genuine_streams_witness:
  "verify_stream_integrity demo_env (Some demo_tc) (cmd_run demo_env demo_cmds []) = Inr False"
proof (rule integrity_check_rejects_genuine_streams[OF demo_cmds_ordered demo_require])
  show "2 \<le> length (stream_of (tc_tenant_id demo_tc) (cmd_run demo_env demo_cmds []))"
    by (simp add: demo_run stored_row_def new_event_def)
qed

text \<open>
  A mutation attempt is always refused and, when its record can be written, leaves exactly one
  new row, which names the actor, the target and the attempted operation; existing rows stay.
\<close>

theorem mutation_is_refused_and_recorded:
  assumes "require_tenant_context ctx = Inr tc"
    and "\<forall>r \<in> set tbl. ev_timestamp r < now"
  shows "\<exists>row. attempt_mutation env ctx i op now uid tbl = (Inl AuditTamperForbiddenException, tbl @ [row])
    \<and> ev_event_type row = ''AUDIT_MUTATION_ATTEMPT'' \<and> ev_actor_id row = tc_user_id tc
    \<and> ev_resource_id row = i \<and> ev_action row = ''ILLEGAL_'' @ upper op
    \<and> map_of (ev_details row) ''attempted_operation'' = Some (JStr op) \<and> ev_tenant_id row = tc_tenant_id tc"
proof -
  note fresh = append_event_fresh[OF require_tenant_context_idem[OF assms(1)] assms(2)]
  show ?thesis
    by (simp add: attempt_mutation_def assms(1) fresh Let_def stored_row_def new_event_def mutation_record_def)
qed

theorem mutation_is_refused_and_recorded_witness:
  "\<exists>row. attempt_mutation demo_env (Some demo_tc) ''aud-a'' ''delete'' 5 ''c'' [] =
      (Inl AuditTamperForbiddenException, [row])
    \<and> ev_event_type row = ''AUDIT_MUTATION_ATTEMPT'' \<and> ev_actor_id row = tc_user_id demo_tc
    \<and> ev_resource_id row = ''aud-a'' \<and> ev_action row = ''ILLEGAL_'' @ upper ''delete''
    \<and> map_of (ev_details row) ''attempted_operation'' = Some (JStr ''delete'') \<and> ev_tenant_id row = tc_tenant_id demo_tc"
  using mutation_is_refused_and_recorded[OF demo_require, of "[]" 5 demo_env "''aud-a''" "''delete''" "''c''"]
  by (simp del: map_of_Cons_code list.map)

text \<open>
  The stream is append-only: whatever sequence of commands runs, every row keeps its position
  and contents, and each command adds at most one row.
\<close>

theorem audit_rows_are_kept:
  assumes "i < length tbl"
  shows "cmd_run env cmds tbl ! i = tbl ! i \<and> length (cmd_run env cmds tbl) \<le> length tbl + length cmds"
  using audit_log.row_kept[OF assms, of env cmds] audit_log.run_prefix[of env cmds tbl] by auto

theorem audit_rows_are_kept_witness:
  "cmd_run demo_env demo_cmds [stored_row (new_event demo_env demo_tc demo_create 0 ''z'' None)] ! 0
     = stored_row (new_event demo_env demo_tc demo_create 0 ''z'' None)
   \<and> length (cmd_run demo_env demo_cmds [stored_row (new_event demo_env demo_tc demo_create 0 ''z'' None)]) \<le> 1 + length demo_cmds"
  using audit_rows_are_kept[of 0 "[stored_row (new_event demo_env demo_tc demo_create 0 ''z'' None)]" demo_env demo_cmds]
  by (simp del: fold_simps)

section \<open>Tamper evidence\<close>

text \<open>What is hashed of an event, and the events whose text fields do not contain the separator.\<close>

definition hashed :: "audit_event \<Rightarrow> string \<times> string \<times> string \<times> string \<times> string \<times> int \<times> string option \<times> string" where
  "hashed e = (ev_tenant_id e, ev_event_type e, ev_actor_id e, ev_resource_type e, ev_resource_id e,
     ev_timestamp e, ev_previous_event_hash e, dumps (JObj (ev_details e)))"

definition event_input :: "audit_env \<Rightarrow> audit_event \<Rightarrow> string" where
  "event_input env e = chain_input env (ev_tenant_id e) (ev_event_type e) (ev_actor_id e) (ev_resource_type e)
     (ev_resource_id e) (ev_timestamp e) (ev_previous_event_hash e) (ev_details e)"

definition plain :: "audit_event \<Rightarrow> bool" where
  "plain e \<longleftrightarrow> CHR '':'' \<notin> set (ev_tenant_id e) \<union> set (ev_event_type e) \<union> set (ev_actor_id e)
     \<union> set (ev_resource_type e) \<union> set (ev_resource_id e)"

text \<open>
  \<open>datetime.isoformat\<close> of an instant in UTC: three colons (in the time and in the offset), and
  different instants are written differently.
\<close>

definition iso_ok :: "audit_env \<Rightarrow> bool" where
  "iso_ok env \<longleftrightarrow> inj (isoformat env) \<and> (\<forall>t. count_list (isoformat env t) CHR '':'' = 3)"

text \<open>\<open>hexdigest\<close> gives hexadecimal digits.\<close>

definition hex_ok :: "audit_env \<Rightarrow> bool" where
  "hex_ok env \<longleftrightarrow> (\<forall>s. sha256 env s \<noteq> [] \<and> CHR '':'' \<notin> set (sha256 env s))"

lemma sep_suffix:
  assumes "us @ c # b = c # b'" "count_list (a @ us) c = count_list a c"
  shows "us = []"
  using assms by (cases us) auto

lemma sep_split:
  assumes "count_list a c = count_list a' c" "a @ c # b = a' @ c # b'"
  shows "a = a' \<and> b = b'"
proof -
  from assms(2) consider (1) us where "a = a' @ us" "us @ c # b = c # b'"
    | (2) us where "a' = a @ us" "us @ c # b' = c # b"
    unfolding append_eq_append_conv2 by metis
  then show ?thesis
  proof cases
    case 1
    with assms(1) sep_suffix[of us c b b' a'] show ?thesis by simp
  next
    case 2
    with assms(1) sep_suffix[of us c b' b a] show ?thesis by simp
  qed
qed

lemma plain_split: "c \<notin> set a \<Longrightarrow> c \<notin> set a' \<Longrightarrow> a @ c # b = a' @ c # b' \<Longrightarrow> a = a' \<and> b = b'"
  by (rule sep_split[of a c]) simp_all

lemma plain_fields:
  assumes "length as = length bs" "\<forall>a \<in> set as \<union> set bs. c \<notin> set a"
    and "concat (map (\<lambda>a. a @ [c]) as) @ x = concat (map (\<lambda>a. a @ [c]) bs) @ y"
  shows "as = bs \<and> x = y"
  using assms
proof (induction as bs rule: list_induct2)
  case (Cons a as b bs)
  have "a @ c # (concat (map (\<lambda>a. a @ [c]) as) @ x) = b @ c # (concat (map (\<lambda>a. a @ [c]) bs) @ y)"
    using Cons.prems(2) by simp
  moreover have "c \<notin> set a" "c \<notin> set b" using Cons.prems(1) by simp_all
  ultimately have "a = b \<and> concat (map (\<lambda>a. a @ [c]) as) @ x = concat (map (\<lambda>a. a @ [c]) bs) @ y"
    by (intro plain_split[of c])
  with Cons.IH Cons.prems(1) show ?case by simp
qed simp

definition text_fields :: "audit_event \<Rightarrow> string list" where
  "text_fields e = [ev_tenant_id e, ev_event_type e, ev_actor_id e, ev_resource_type e, ev_resource_id e]"

definition prev_text :: "audit_event \<Rightarrow> string" where
  "prev_text e = (if truthy (ev_previous_event_hash e) then the (ev_previous_event_hash e) else ''GENESIS'')"

lemma event_input_fields:
  "event_input env e = concat (map (\<lambda>a. a @ [CHR '':'']) (text_fields e)) @
     isoformat env (ev_timestamp e) @ CHR '':'' # prev_text e @ CHR '':'' # dumps (JObj (ev_details e))"
  unfolding event_input_def chain_input_def text_fields_def prev_text_def
  by (simp only: list.map concat.simps append_assoc append.simps append_Nil)

lemma event_input_inj:
  assumes iso: "iso_ok env" and "plain e" "plain f" and eq: "event_input env e = event_input env f"
    and p: "CHR '':'' \<notin> set (prev_text e)" "CHR '':'' \<notin> set (prev_text f)"
  shows "text_fields e = text_fields f \<and> ev_timestamp e = ev_timestamp f \<and> prev_text e = prev_text f
    \<and> dumps (JObj (ev_details e)) = dumps (JObj (ev_details f))"
proof -
  have "length (text_fields e) = length (text_fields f)"
    "\<forall>a \<in> set (text_fields e) \<union> set (text_fields f). CHR '':'' \<notin> set a"
    using assms(2,3) by (simp_all add: text_fields_def plain_def)
  from plain_fields[OF this eq[unfolded event_input_fields]]
  have F: "text_fields e = text_fields f" and R: "isoformat env (ev_timestamp e) @ CHR '':'' # prev_text e @ CHR '':'' # dumps (JObj (ev_details e))
      = isoformat env (ev_timestamp f) @ CHR '':'' # prev_text f @ CHR '':'' # dumps (JObj (ev_details f))"
    by blast+
  have "count_list (isoformat env (ev_timestamp e)) CHR '':'' = count_list (isoformat env (ev_timestamp f)) CHR '':''"
    using iso unfolding iso_ok_def by metis
  from sep_split[OF this R] have T: "isoformat env (ev_timestamp e) = isoformat env (ev_timestamp f)"
    and P: "prev_text e @ CHR '':'' # dumps (JObj (ev_details e)) = prev_text f @ CHR '':'' # dumps (JObj (ev_details f))"
    by blast+
  from T iso have "ev_timestamp e = ev_timestamp f" unfolding iso_ok_def by (blast dest: injD)
  with F plain_split[OF p P] show ?thesis by blast
qed

text \<open>A verified chain, event by event.\<close>

fun linked :: "audit_env \<Rightarrow> string option \<Rightarrow> audit_event list \<Rightarrow> bool" where
  "linked env p [] = True"
| "linked env p (e # es) =
     (ev_previous_event_hash e = p \<and> ev_event_hash e = sha256 env (event_input env e) \<and> linked env (Some (ev_event_hash e)) es)"

lemma linked_snoc:
  "linked env p (es @ [e]) \<longleftrightarrow> linked env p es \<and> ev_event_hash e = sha256 env (event_input env e)
     \<and> ev_previous_event_hash e = (if es = [] then p else Some (ev_event_hash (last es)))"
  by (induction es arbitrary: p) auto

lemma chain_loop_linked:
  "chain_loop env i p es = Chain_verified n h \<Longrightarrow>
     linked env p es \<and> n = i + length es \<and> (if es = [] then p = Some h else h = ev_event_hash (last es))"
proof (induction es arbitrary: i p)
  case Nil
  then show ?case by (simp split: option.splits)
next
  case (Cons e es)
  then have "ev_previous_event_hash e = p" "ev_event_hash e = sha256 env (event_input env e)"
    "chain_loop env (Suc i) (Some (ev_event_hash e)) es = Chain_verified n h"
    by (auto simp: Let_def compute_hash_def event_input_def split: if_splits)
  with Cons.IH[OF this(3)] show ?case by (auto split: if_splits)
qed

text \<open>Two chains collide when, at one position, different inputs of theirs have the same digest.\<close>

definition chains_collide :: "audit_env \<Rightarrow> audit_event list \<Rightarrow> audit_event list \<Rightarrow> bool" where
  "chains_collide env xs ys \<longleftrightarrow> list_ex (\<lambda>(x, y). event_input env x \<noteq> event_input env y
     \<and> sha256 env (event_input env x) = sha256 env (event_input env y)) (zip xs ys)"

lemma linked_same_head:
  assumes "iso_ok env" "hex_ok env" and "\<not> chains_collide env xs ys" and "length xs = length ys" "linked env None xs" "linked env None ys"
    and "\<forall>e \<in> set xs \<union> set ys. plain e" "xs \<noteq> [] \<longrightarrow> ev_event_hash (last xs) = ev_event_hash (last ys)"
  shows "map hashed xs = map hashed ys"
  using assms(4-8,3)
proof (induction xs arbitrary: ys rule: rev_induct)
  case (snoc x xs)
  then obtain zs y where ys: "ys = zs @ [y]" "length xs = length zs" by (cases ys rule: rev_cases) auto
  have len: "xs = [] \<longleftrightarrow> zs = []" using ys(2) by auto
  have L: "linked env None xs" "linked env None zs" "ev_event_hash x = sha256 env (event_input env x)"
    "ev_event_hash y = sha256 env (event_input env y)"
    "ev_previous_event_hash x = (if xs = [] then None else Some (ev_event_hash (last xs)))"
    "ev_previous_event_hash y = (if zs = [] then None else Some (ev_event_hash (last zs)))"
    using snoc.prems(2,3) ys(1) by (simp_all add: linked_snoc)
  have last: "ev_event_hash (last as) = sha256 env (event_input env (last as))" if "linked env None as" "as \<noteq> []" for as
    using that by (cases as rule: rev_cases) (simp_all add: linked_snoc)
  have hx: "ev_event_hash (last as) \<noteq> [] \<and> CHR '':'' \<notin> set (ev_event_hash (last as))" if "linked env None as" "as \<noteq> []" for as
    using last[OF that] assms(2) by (simp add: hex_ok_def)
  have prev: "CHR '':'' \<notin> set (prev_text x)" "CHR '':'' \<notin> set (prev_text y)"
    using hx[OF L(1)] hx[OF L(2)] L(5,6) by (auto simp: prev_text_def)
  have nocoll: "\<not> chains_collide env xs zs"
    "sha256 env (event_input env x) = sha256 env (event_input env y) \<Longrightarrow> event_input env x = event_input env y"
    using snoc.prems(6) ys by (auto simp: chains_collide_def)
  have "event_input env x = event_input env y" using snoc.prems(5) ys(1) L(3,4) nocoll(2) by simp
  from event_input_inj[OF assms(1) _ _ this prev] snoc.prems(4) ys(1)
  have eq: "text_fields x = text_fields y" "ev_timestamp x = ev_timestamp y" "prev_text x = prev_text y"
    "dumps (JObj (ev_details x)) = dumps (JObj (ev_details y))" by auto
  have "xs \<noteq> [] \<Longrightarrow> ev_event_hash (last xs) = ev_event_hash (last zs)"
    using eq(3) hx[OF L(1)] hx[OF L(2)] L(5,6) len by (auto simp: prev_text_def)
  then have "map hashed xs = map hashed zs" "ev_previous_event_hash x = ev_previous_event_hash y"
    using snoc.IH[OF ys(2) L(1,2) _ _ nocoll(1)] snoc.prems(4) ys(1) L(5,6) len by auto
  moreover from this(2) eq have "hashed x = hashed y" by (simp add: hashed_def text_fields_def del: dumps.simps)
  ultimately show ?case using ys(1) by simp
qed simp

text \<open>
  C26. Tamper evidence. If two verified chains of the same length have the same head, and their text
  fields do not contain the separator, then they agree on every hashed field of every event, or the two
  chains themselves exhibit a collision: a position at which the texts they hash differ and the digests
  are equal.
\<close>

theorem same_head_same_history:
  assumes "iso_ok env" "hex_ok env"
    and "chain_loop env 0 None xs = Chain_verified n h" "chain_loop env 0 None ys = Chain_verified n h"
    and "\<forall>e \<in> set xs \<union> set ys. plain e"
  shows "map hashed xs = map hashed ys
    \<or> (\<exists>i < n. event_input env (xs ! i) \<noteq> event_input env (ys ! i)
          \<and> sha256 env (event_input env (xs ! i)) = sha256 env (event_input env (ys ! i)))"
proof (cases "chains_collide env xs ys")
  case False
  note X = chain_loop_linked[OF assms(3)] and Y = chain_loop_linked[OF assms(4)]
  have "map hashed xs = map hashed ys"
    by (rule linked_same_head[OF assms(1,2) False]) (use X Y assms(5) in \<open>auto split: if_splits\<close>)
  then show ?thesis by simp
next
  case True
  then show ?thesis using chain_loop_linked[OF assms(3)] chain_loop_linked[OF assms(4)]
    by (force simp: chains_collide_def list_ex_iff in_set_zip)
qed

definition demo_event :: "string \<Rightarrow> string \<Rightarrow> audit_event" where
  "demo_event actor rtype = \<lparr> ev_id = ''1'', ev_tenant_id = ''t'', ev_event_type = ''E'', ev_actor_id = actor,
     ev_actor_roles = [], ev_action = ''A'', ev_resource_type = rtype, ev_resource_id = ''r'', ev_details = [],
     ev_correlation_id = None, ev_ip_address = None, ev_user_agent = None, ev_timestamp = 0,
     ev_previous_event_hash = None,
     ev_event_hash = sha256 demo_env (chain_input demo_env ''t'' ''E'' actor rtype ''r'' 0 None []) \<rparr>"

lemma demo_env_ok: "iso_ok demo_env" "hex_ok demo_env"
proof -
  have "s = t" if "replicate (nat s) CHR ''x'' @ CHR '':'' # replicate (nat (- s)) CHR ''x''
      = replicate (nat t) CHR ''x'' @ CHR '':'' # replicate (nat (- t)) CHR ''x''" for s t :: int
  proof -
    have "nat s = nat t \<and> nat (- s) = nat (- t)" using plain_split[OF _ _ that] by simp
    then show ?thesis by linarith
  qed
  then show "iso_ok demo_env" by (simp add: iso_ok_def demo_env_def inj_def)
  show "hex_ok demo_env" by (simp add: hex_ok_def demo_env_def)
qed

lemma demo_event_verifies:
  "chain_loop demo_env 0 None [demo_event a r] = Chain_verified 1 (ev_event_hash (demo_event a r))"
  by (simp add: demo_event_def compute_hash_def Let_def)

theorem same_head_same_history_witness:
  "(let x = demo_event ''u'' ''R''; y = demo_event ''v'' ''R''
    in chain_loop demo_env 0 None [x] = chain_loop demo_env 0 None [y] \<and> hashed x \<noteq> hashed y
       \<and> event_input demo_env x \<noteq> event_input demo_env y
       \<and> sha256 demo_env (event_input demo_env x) = sha256 demo_env (event_input demo_env y))"
proof -
  let ?x = "demo_event ''u'' ''R''" and ?y = "demo_event ''v'' ''R''"
  have head: "ev_event_hash ?x = ev_event_hash ?y"
    by (simp add: demo_event_def chain_input_def demo_env_def)
  have v: "chain_loop demo_env 0 None [?y] = Chain_verified 1 (ev_event_hash ?x)"
    using demo_event_verifies head by simp
  have "\<forall>e \<in> set [?x] \<union> set [?y]. plain e" by (simp add: plain_def demo_event_def)
  note t = same_head_same_history[OF demo_env_ok demo_event_verifies v this]
  moreover have "hashed ?x \<noteq> hashed ?y" by (simp add: hashed_def demo_event_def)
  ultimately show ?thesis using v demo_event_verifies[of "''u''" "''R''"] by (simp add: Let_def)
qed

definition rewrite_unhashed :: "(audit_event \<Rightarrow> string) \<Rightarrow> (audit_event \<Rightarrow> string list) \<Rightarrow> (audit_event \<Rightarrow> string option)
    \<Rightarrow> (audit_event \<Rightarrow> string option) \<Rightarrow> (audit_event \<Rightarrow> string option) \<Rightarrow> audit_event \<Rightarrow> audit_event" where
  "rewrite_unhashed act roles corr ip ua e = e\<lparr> ev_action := act e, ev_actor_roles := roles e,
     ev_correlation_id := corr e, ev_ip_address := ip e, ev_user_agent := ua e \<rparr>"

lemma chain_loop_rewrite:
  "chain_loop env i p (map (rewrite_unhashed act roles corr ip ua) es) = chain_loop env i p es"
  by (induction es arbitrary: i p) (simp_all add: rewrite_unhashed_def Let_def)

text \<open>
  What the hash does not cover: rewriting the action, the actor's roles, the correlation id, the
  client address and the user agent of every event of a stream, in whatever way, leaves the verdict
  of the chain verifier unchanged, whatever the hash function.
\<close>

theorem unhashed_fields_are_unprotected:
  "verify_audit_hash_chain env (Some (map (\<lambda>(t, es). (t, map (rewrite_unhashed act roles corr ip ua) es)) streams)) tenant
     = verify_audit_hash_chain env (Some streams) tenant"
proof -
  have "dict_get (map (\<lambda>(t, es). (t, map f es)) d) k = map_option (map f) (dict_get d k)" for k and f :: "audit_event \<Rightarrow> audit_event"
    and d :: "(string, audit_event list) dict"
    by (induction d) auto
  then show ?thesis by (simp add: verify_audit_hash_chain_def chain_loop_rewrite split: option.splits)
qed

text \<open>
  The separator is not escaped: an event whose actor and resource type are moved across a colon
  has the same hash, and the altered stream is verified.
\<close>

theorem separator_shift_undetected:
  "chain_loop env i p (e # es) = chain_loop env i p (f # es)"
  if "ev_actor_id e = a @ '':'' @ b" "ev_resource_type e = r"
    and "f = e\<lparr> ev_actor_id := a, ev_resource_type := b @ '':'' @ r \<rparr>"
    and "ev_previous_event_hash e = p" "ev_event_hash e = sha256 env (event_input env e)"
proof -
  have "event_input env f = event_input env e"
    unfolding event_input_def chain_input_def using that(1-3) by (simp del: dumps.simps)
  then show ?thesis using that(3-5) by (simp add: Let_def compute_hash_def event_input_def del: dumps.simps)
qed

theorem separator_shift_undetected_witness:
  "chain_loop demo_env 0 None [demo_event ''a:b'' ''R''] =
   chain_loop demo_env 0 None [(demo_event ''a:b'' ''R'')\<lparr> ev_actor_id := ''a'', ev_resource_type := ''b:R'' \<rparr>]"
  by (rule separator_shift_undetected[where a = "''a''" and b = "''b''" and r = "''R''"])
     (simp_all add: demo_event_def event_input_def)

end
