(* ===== verification/Working_Hours.thy ===== *)
theory Working_Hours
  imports Prelude Numerics
begin

text \<open>
  \<open>SLAEngine\<close> (\<open>domain/workflows/sla.py\<close>): deadlines in working hours over a working week with daily
  hours and holidays, and the working hours left until a deadline.

  An instant is a number of microseconds since the epoch in UTC, a date a number of days, a time
  of day a number of microseconds after midnight. Durations in seconds are floats, as in the
  code. The schedule (what \<open>_get_schedule\<close> returns from the standard schedules or the master
  data) is an argument.

  The lemmas reduce both loops to the working time between two instants, a sum over days, and show
  that the two calculations are inverse to each other on whole seconds.
\<close>

section \<open>Dates, times and schedules\<close>

definition day_us :: int where
  "day_us = 86400000000"

definition date_of :: "int \<Rightarrow> int" where
  "date_of t = t div day_us"

text \<open>\<open>datetime.combine(date, time, tzinfo=UTC)\<close>\<close>

definition combine :: "int \<Rightarrow> int \<Rightarrow> int" where
  "combine d tm = d * day_us + tm"

text \<open>\<open>isoweekday\<close>: 1 for Monday to 7 for Sunday; the epoch was a Thursday.\<close>

definition isoweekday :: "int \<Rightarrow> int" where
  "isoweekday d = (d + 3) mod 7 + 1"

record work_schedule =
  ws_working_days :: "int list"
  ws_daily_start :: int
  ws_daily_end :: int
  ws_exclusions :: "int list"

definition is_working_day :: "work_schedule \<Rightarrow> int \<Rightarrow> bool" where
  "is_working_day ws d \<longleftrightarrow> isoweekday d \<in> set (ws_working_days ws) \<and> d \<notin> set (ws_exclusions ws)"

text \<open>\<open>timedelta.total_seconds()\<close>, and adding \<open>timedelta(seconds=x)\<close>, which rounds to microseconds.\<close>

definition total_seconds :: "int \<Rightarrow> rat" where
  "total_seconds us = fl (of_int us / 1000000)"

definition add_seconds :: "int \<Rightarrow> rat \<Rightarrow> int" where
  "add_seconds t x = t + trunc x * 1000000 + round_half_even (fl ((x - of_int (trunc x)) * 1000000))"

section \<open>The two calculations\<close>

text \<open>The loop of \<open>calculate_due_date\<close>; \<open>None\<close> when its iterations are used up.\<close>

fun due_loop :: "work_schedule \<Rightarrow> nat \<Rightarrow> int \<Rightarrow> rat \<Rightarrow> int option" where
  "due_loop ws 0 curr_t remaining = None"
| "due_loop ws (Suc n) curr_t remaining =
     (let d = date_of curr_t; next_start = combine (d + 1) (ws_daily_start ws) in
      if \<not> is_working_day ws d then due_loop ws n next_start remaining
      else
        let day_start = combine d (ws_daily_start ws); day_end = combine d (ws_daily_end ws);
            c = (if curr_t < day_start then day_start else curr_t) in
        if c \<ge> day_end then due_loop ws n next_start remaining
        else
          let available = total_seconds (day_end - c) in
          if remaining \<le> available then Some (add_seconds c remaining)
          else due_loop ws n next_start (fsub remaining available))"

definition calculate_due_date :: "work_schedule \<Rightarrow> int \<Rightarrow> int \<Rightarrow> int" where
  "calculate_due_date ws start sla_hours =
     (if sla_hours \<le> 0 then start
      else case due_loop ws 365 start (fl (of_int (sla_hours * 3600))) of
             Some t \<Rightarrow> t
           | None \<Rightarrow> start + sla_hours * 3600000000)"

fun remaining_loop :: "work_schedule \<Rightarrow> int \<Rightarrow> int \<Rightarrow> int list \<Rightarrow> int \<Rightarrow> rat \<Rightarrow> rat" where
  "remaining_loop ws now deadline [] curr_t acc = acc"
| "remaining_loop ws now deadline (i # is) curr_t acc =
     (let d = date_of now + i in
      if d > date_of deadline then acc
      else if \<not> is_working_day ws d then remaining_loop ws now deadline is curr_t acc
      else
        let from_t = max curr_t (combine d (ws_daily_start ws)); to_t = min deadline (combine d (ws_daily_end ws)) in
        remaining_loop ws now deadline is (combine (d + 1) (ws_daily_start ws))
          (if to_t > from_t then fadd acc (total_seconds (to_t - from_t)) else acc))"

definition calculate_remaining_working_hours :: "work_schedule \<Rightarrow> int \<Rightarrow> int option \<Rightarrow> rat" where
  "calculate_remaining_working_hours ws now due =
     (case due of None \<Rightarrow> 0
      | Some deadline \<Rightarrow>
          if now \<ge> deadline then 0
          else py_round 2 (fdiv (remaining_loop ws now deadline [0..date_of deadline - date_of now] now 0) 3600))"

definition is_sla_breached :: "int \<Rightarrow> int option \<Rightarrow> bool" where
  "is_sla_breached now due = (case due of None \<Rightarrow> False | Some deadline \<Rightarrow> now > deadline)"

section \<open>Working time between two instants\<close>

text \<open>The working time of one day that lies between two instants, and its sum over the days.\<close>

definition overlap :: "work_schedule \<Rightarrow> int \<Rightarrow> int \<Rightarrow> int \<Rightarrow> int" where
  "overlap ws a b d =
     (if is_working_day ws d
      then max 0 (min b (combine d (ws_daily_end ws)) - max a (combine d (ws_daily_start ws))) else 0)"

definition work :: "work_schedule \<Rightarrow> int \<Rightarrow> int \<Rightarrow> int" where
  "work ws a b = (\<Sum>d \<in> {date_of a..date_of b}. overlap ws a b d)"

text \<open>A schedule within a day, in whole seconds, with a time of work before midnight.\<close>

definition schedule_ok :: "work_schedule \<Rightarrow> bool" where
  "schedule_ok ws \<longleftrightarrow> 0 \<le> ws_daily_start ws \<and> ws_daily_start ws < day_us \<and> ws_daily_end ws < day_us
     \<and> 1000000 dvd ws_daily_start ws \<and> 1000000 dvd ws_daily_end ws"

lemma day_us_pos: "0 < day_us" by (simp add: day_us_def)

lemma date_of_combine [simp]: "0 \<le> tm \<Longrightarrow> tm < day_us \<Longrightarrow> date_of (combine d tm) = d"
  by (simp add: date_of_def combine_def)

lemma date_bounds: "combine (date_of t) 0 \<le> t" "t < combine (date_of t + 1) 0"
proof -
  have "day_us * (t div day_us) + t mod day_us = t" "0 \<le> t mod day_us" "t mod day_us < day_us"
    using day_us_pos by simp_all
  moreover have "combine (date_of t) 0 = day_us * (t div day_us)" "combine (date_of t + 1) 0 = day_us * (t div day_us) + day_us"
    by (simp_all add: combine_def date_of_def algebra_simps)
  ultimately show "combine (date_of t) 0 \<le> t" "t < combine (date_of t + 1) 0" by linarith+
qed

lemma combine_less_iff: "combine d 0 < combine d' 0 \<longleftrightarrow> d < d'"
  using day_us_pos by (simp add: combine_def)

lemma combine_mono: "d \<le> d' \<Longrightarrow> 0 \<le> tm \<Longrightarrow> combine d 0 \<le> combine d' tm"
  using day_us_pos by (simp add: combine_def mult_right_mono add_increasing2)

lemma combine_split: "combine d tm = combine d 0 + tm"
  by (simp add: combine_def)

lemma date_of_mono: "a \<le> b \<Longrightarrow> date_of a \<le> date_of b"
  using day_us_pos by (simp add: date_of_def zdiv_mono1)

lemma date_of_unique:
  assumes "combine d 0 \<le> t" "t < combine (d + 1) 0"
  shows "date_of t = d"
proof -
  have "combine d 0 < combine (date_of t + 1) 0" "combine (date_of t) 0 < combine (d + 1) 0"
    using assms date_bounds[of t] by linarith+
  then show ?thesis by (simp add: combine_less_iff)
qed

text \<open>Splitting off the first day.\<close>

lemma overlap_later:
  assumes ok: "schedule_ok ws" and d: "date_of a < d"
  shows "overlap ws a b d = overlap ws (combine (date_of a + 1) (ws_daily_start ws)) b d"
proof -
  have "a < combine (date_of a + 1) 0" by (rule date_bounds)
  also have "combine (date_of a + 1) 0 \<le> combine d 0" using combine_mono[of "date_of a + 1" d 0] d by simp
  finally have "a \<le> combine d (ws_daily_start ws)" using ok combine_split[of d "ws_daily_start ws"] by (simp add: schedule_ok_def)
  moreover have "combine (date_of a + 1) (ws_daily_start ws) \<le> combine d (ws_daily_start ws)"
    using combine_mono[of "date_of a + 1" d 0] d combine_split[of _ "ws_daily_start ws"] by simp
  ultimately show ?thesis by (simp add: overlap_def max_def)
qed

lemma work_first_day:
  assumes ok: "schedule_ok ws" and t: "combine (date_of a + 1) (ws_daily_start ws) \<le> t"
  shows "work ws a t = overlap ws a t (date_of a) + work ws (combine (date_of a + 1) (ws_daily_start ws)) t"
proof -
  let ?n = "combine (date_of a + 1) (ws_daily_start ws)"
  have n: "date_of ?n = date_of a + 1" using ok by (simp add: schedule_ok_def)
  then have "date_of a + 1 \<le> date_of t" using date_of_mono[OF t] by simp
  then have "{date_of a..date_of t} = insert (date_of a) {date_of a + 1..date_of t}" by auto
  moreover have "(\<Sum>d \<in> {date_of a + 1..date_of t}. overlap ws a t d) = (\<Sum>d \<in> {date_of a + 1..date_of t}. overlap ws ?n t d)"
    by (rule sum.cong[OF refl]) (use overlap_later[OF ok] in auto)
  ultimately show ?thesis by (simp add: work_def n)
qed

lemma overlap_past:
  assumes ok: "schedule_ok ws" and t: "combine (d + 1) (ws_daily_start ws) \<le> t"
  shows "overlap ws a t d = (if is_working_day ws d
    then max 0 (combine d (ws_daily_end ws) - max a (combine d (ws_daily_start ws))) else 0)"
proof -
  have "combine d (ws_daily_end ws) \<le> t"
    using ok t combine_split[of d "ws_daily_end ws"] combine_split[of "d + 1" "ws_daily_start ws"]
    by (simp add: schedule_ok_def combine_def algebra_simps)
  then show ?thesis by (simp add: overlap_def min_def)
qed

section \<open>The loops compute working time\<close>

abbreviation whole :: "int \<Rightarrow> bool" where
  "whole us \<equiv> 1000000 dvd us"

lemma total_seconds_whole:
  assumes "whole us" "\<bar>us\<bar> < 1000000 * 2 ^ 53"
  shows "total_seconds us = of_int (us div 1000000)"
proof -
  obtain k where k: "us = 1000000 * k" using assms(1) by blast
  then have "\<bar>k\<bar> < 2 ^ 53" using assms(2) by simp
  then show ?thesis using k fl_of_int by (simp add: total_seconds_def)
qed

lemma add_seconds_of_int [simp]: "add_seconds t (of_int r) = t + r * 1000000"
  by (simp add: add_seconds_def fl_def)

lemma schedule_whole: "schedule_ok ws \<Longrightarrow> whole (combine d (ws_daily_start ws)) \<and> whole (combine d (ws_daily_end ws))"
  by (simp add: schedule_ok_def combine_def day_us_def)

lemma whole_day_part:
  assumes "whole x" "0 < x" "x < day_us"
  shows "total_seconds x = of_int (x div 1000000)" "0 < x div 1000000" "x div 1000000 < 2 ^ 53" "x div 1000000 * 1000000 = x"
proof -
  obtain k where k: "x = 1000000 * k" using assms(1) by blast
  show "total_seconds x = of_int (x div 1000000)"
    by (rule total_seconds_whole[OF assms(1)]) (use assms in \<open>simp add: day_us_def\<close>)
  show "0 < x div 1000000" "x div 1000000 < 2 ^ 53" "x div 1000000 * 1000000 = x"
    using assms by (simp_all add: k day_us_def)
qed

lemma due_loop_step:
  fixes ws c
  defines "d \<equiv> date_of c"
  defines "b \<equiv> max c (combine d (ws_daily_start ws))" and "e \<equiv> combine d (ws_daily_end ws)"
  shows "due_loop ws (Suc n) c rem =
    (if \<not> (is_working_day ws d \<and> b < e) then due_loop ws n (combine (d + 1) (ws_daily_start ws)) rem
     else if rem \<le> total_seconds (e - b) then Some (add_seconds b rem)
     else due_loop ws n (combine (d + 1) (ws_daily_start ws)) (fsub rem (total_seconds (e - b))))"
  unfolding d_def b_def e_def by (simp add: Let_def max_def not_less)

lemma day_width:
  assumes "schedule_ok ws"
  shows "combine d 0 \<le> combine d (ws_daily_start ws)" "combine d (ws_daily_end ws) < combine d 0 + day_us"
    "combine d (ws_daily_end ws) < combine (d + 1) 0" "combine (d + 1) 0 \<le> combine (d + 1) (ws_daily_start ws)"
  using assms by (simp_all add: schedule_ok_def combine_def algebra_simps)

text \<open>One iteration: the deadline is reached on the current day, or the rest is left for the next day.\<close>

lemma due_loop_elim:
  fixes ws c
  defines "d \<equiv> date_of c"
  defines "b \<equiv> max c (combine d (ws_daily_start ws))" and "e \<equiv> combine d (ws_daily_end ws)"
    and "nxt \<equiv> combine (d + 1) (ws_daily_start ws)"
  assumes ok: "schedule_ok ws" and c: "whole c" and r: "0 < r" "r < 2 ^ 53" and run: "due_loop ws (Suc n) c (of_int r) = Some t"
  obtains (finish) "is_working_day ws d" "t = b + r * 1000000" "t \<le> e" "whole b"
  | (advance) r' where "due_loop ws n nxt (of_int r') = Some t" "0 < r'" "r' < 2 ^ 53" "whole nxt" "c \<le> nxt"
      "r * 1000000 = r' * 1000000 + (if is_working_day ws d then max 0 (e - b) else 0)"
proof -
  have w: "whole nxt" "whole (combine d (ws_daily_start ws))" "whole e"
    unfolding nxt_def e_def using schedule_whole[OF ok] by blast+
  have cn: "c \<le> nxt" using date_bounds(2)[of c] day_width(4)[OF ok, of d] unfolding d_def nxt_def by linarith
  note step = run[unfolded due_loop_step, folded d_def, folded b_def e_def nxt_def]
  show thesis
  proof (cases "is_working_day ws d \<and> b < e")
    case False
    then show thesis using step advance[of r] r w(1) cn by (cases "is_working_day ws d") simp_all
  next
    case True
    let ?av = "(e - b) div 1000000"
    have wb: "whole b" unfolding b_def using w(2) c by (simp only: max_def simp_thms split: if_splits)
    then have wc: "whole (e - b)" using w(3) by (rule dvd_diff[rotated])
    have "0 < e - b" "e - b < day_us" using True day_width[OF ok, of d] unfolding b_def e_def by linarith+
    note av = whole_day_part[OF wc this]
    show thesis
    proof (cases "r \<le> ?av")
      case le: True
      then have "t = b + r * 1000000" using step True unfolding av(1) by (simp split: if_splits)
      moreover have "r * 1000000 \<le> e - b" using le av(4) by linarith
      ultimately show thesis using finish True wb by simp
    next
      case gt: False
      then have "fsub (of_int r) (of_int ?av) = of_int (r - ?av)"
        using fl_of_int[of "r - ?av"] av(2) r by (simp only: of_int_diff)
      then have "due_loop ws n nxt (of_int (r - ?av)) = Some t"
        using step True gt unfolding av(1) by (simp split: if_splits)
      moreover have "0 < r - ?av" "r - ?av < 2 ^ 53" using gt av(2) r by linarith+
      moreover have "r * 1000000 = (r - ?av) * 1000000 + max 0 (e - b)" using av(4) True by (simp add: left_diff_distrib)
      ultimately show thesis using w(1) cn True by (intro advance[of "r - ?av"]) simp_all
    qed
  qed
qed

lemma same_day:
  assumes "schedule_ok ws" "max c (combine (date_of c) tm) \<le> t" "t \<le> combine (date_of c) (ws_daily_end ws)"
  shows "date_of t = date_of c"
  using date_bounds(1)[of c] day_width(3)[OF assms(1), of "date_of c"] assms(2,3) by (intro date_of_unique) linarith+

lemma due_loop_work:
  assumes "schedule_ok ws" "whole c" "0 < r" "r < 2 ^ 53" "due_loop ws n c (of_int r) = Some t"
  shows "c \<le> t \<and> whole t \<and> work ws c t = r * 1000000"
  using assms
proof (induction n arbitrary: c r)
  case (Suc n)
  note ok = Suc.prems(1)
  show ?case
  proof (rule due_loop_elim[OF Suc.prems(1-5)], goal_cases)
    case 1
    have "max c (combine (date_of c) (ws_daily_start ws)) \<le> t" using 1(2) Suc.prems(3) by linarith
    then have "work ws c t = overlap ws c t (date_of c)" unfolding work_def same_day[OF ok \<open>_ \<le> t\<close> 1(3)] by simp
    also have "\<dots> = max 0 (t - max c (combine (date_of c) (ws_daily_start ws)))"
      using 1(1,3) by (simp only: overlap_def min_absorb1 if_True)
    finally show ?case using 1(2,4) Suc.prems(3) by simp
  next
    case (2 r')
    have IH: "combine (date_of c + 1) (ws_daily_start ws) \<le> t" "whole t"
      "work ws (combine (date_of c + 1) (ws_daily_start ws)) t = r' * 1000000"
      using Suc.IH[OF ok 2(4,2,3,1)] by blast+
    have "work ws c t = r * 1000000"
      unfolding work_first_day[OF ok IH(1)] overlap_past[OF ok IH(1)] IH(3) 2(6) by (rule add.commute)
    then show ?case using IH 2(5) by linarith
  qed
qed simp

lemma due_loop_working_instant:
  assumes "schedule_ok ws" "whole c" "0 < r" "r < 2 ^ 53" "due_loop ws n c (of_int r) = Some t"
  shows "is_working_day ws (date_of t) \<and> combine (date_of t) (ws_daily_start ws) \<le> t \<and> t \<le> combine (date_of t) (ws_daily_end ws)"
  using assms
proof (induction n arbitrary: c r)
  case (Suc n)
  note ok = Suc.prems(1)
  show ?case
  proof (rule due_loop_elim[OF Suc.prems(1-5)], goal_cases)
    case 1
    have b: "max c (combine (date_of c) (ws_daily_start ws)) \<le> t" using 1(2) Suc.prems(3) by linarith
    show ?case unfolding same_day[OF ok b 1(3)] using 1(1,3) b by linarith
  next
    case (2 r')
    show ?case by (rule Suc.IH[OF ok 2(4,2,3,1)])
  qed
qed simp

lemma no_working_time: "ws_daily_end ws \<le> ws_daily_start ws \<Longrightarrow> due_loop ws n c rem = None"
proof (induction n arbitrary: c)
  case (Suc n)
  then have "\<not> max c (combine (date_of c) (ws_daily_start ws)) < combine (date_of c) (ws_daily_end ws)"
    by (simp add: combine_def)
  with Suc show ?case unfolding due_loop_step by simp
qed simp

lemma overlap_bounds:
  assumes ok: "schedule_ok ws" and w: "whole a" "whole b"
  shows "0 \<le> overlap ws a b d" "overlap ws a b d < day_us" "whole (overlap ws a b d)"
proof -
  let ?s = "combine d (ws_daily_start ws)" and ?e = "combine d (ws_daily_end ws)"
  show "0 \<le> overlap ws a b d" by (simp add: overlap_def)
  have "min b ?e - max a ?s < day_us" using day_width(1,2)[OF ok, of d] by linarith
  then show "overlap ws a b d < day_us" using day_us_pos by (simp add: overlap_def)
  have "whole (min b ?e)" "whole (max a ?s)" using schedule_whole[OF ok, of d] w by (simp_all only: min_def max_def simp_thms split: if_splits)
  then have "whole (min b ?e - max a ?s)" by (rule dvd_diff)
  then show "whole (overlap ws a b d)" by (simp only: overlap_def max_def dvd_0_right simp_thms split: if_splits)
qed

lemma remaining_loop_step:
  fixes ws now i
  defines "d \<equiv> date_of now + i"
  assumes d: "d \<le> date_of dl" and c: "max c (combine d (ws_daily_start ws)) = max now (combine d (ws_daily_start ws))"
  shows "remaining_loop ws now dl (i # is) c acc =
    remaining_loop ws now dl is (if is_working_day ws d then combine (d + 1) (ws_daily_start ws) else c)
      (if 0 < overlap ws now dl d then fadd acc (total_seconds (overlap ws now dl d)) else acc)"
proof (cases "is_working_day ws d")
  case True
  let ?f = "max now (combine d (ws_daily_start ws))" and ?t = "min dl (combine d (ws_daily_end ws))"
  have ov: "overlap ws now dl d = max 0 (?t - ?f)" using True by (simp add: overlap_def)
  show ?thesis
  proof (cases "?f < ?t")
    case lt: True
    then have "overlap ws now dl d = ?t - ?f" using ov by linarith
    then show ?thesis using True d c lt unfolding d_def by (simp add: Let_def)
  next
    case False
    then have "overlap ws now dl d = 0" using ov by linarith
    then show ?thesis using True d c False unfolding d_def by (auto simp: Let_def)
  qed
next
  case False
  then show ?thesis using d unfolding d_def by (simp add: Let_def overlap_def)
qed

lemma remaining_loop_work:
  assumes ok: "schedule_ok ws" and w: "whole now" "whole dl"
    and "sorted_wrt (<) is" "\<forall>i \<in> set is. 0 \<le> i \<and> date_of now + i \<le> date_of dl"
    and "\<forall>i \<in> set is. max c (combine (date_of now + i) (ws_daily_start ws)) = max now (combine (date_of now + i) (ws_daily_start ws))"
    and "0 \<le> A" "A + (\<Sum>i \<leftarrow> is. overlap ws now dl (date_of now + i)) div 1000000 < 2 ^ 53"
  shows "remaining_loop ws now dl is c (of_int A) = of_int (A + (\<Sum>i \<leftarrow> is. overlap ws now dl (date_of now + i)) div 1000000)"
  using assms(4-)
proof (induction "is" arbitrary: c A)
  case (Cons i "is")
  let ?d = "date_of now + i" and ?s = "ws_daily_start ws"
  let ?o = "overlap ws now dl ?d" and ?rest = "\<Sum>i \<leftarrow> is. overlap ws now dl (date_of now + i)"
  note o = overlap_bounds[OF ok w, of ?d]
  have rest: "0 \<le> ?rest" by (rule sum_list_nonneg) (use overlap_bounds(1)[OF ok w] in auto)
  have split: "(?o + ?rest) div 1000000 = ?o div 1000000 + ?rest div 1000000"
    using o(3) by (auto elim!: dvdE)
  let ?c = "if is_working_day ws ?d then combine (?d + 1) ?s else c"
  have c': "\<forall>j \<in> set is. max ?c (combine (date_of now + j) ?s) = max now (combine (date_of now + j) ?s)"
  proof
    fix j assume j: "j \<in> set is"
    then have ij: "i < j" using Cons.prems(1) by simp
    have "combine (?d + 1) ?s \<le> combine (date_of now + j) ?s"
      using combine_mono[of "?d + 1" "date_of now + j" 0] combine_split[of _ ?s] ij by simp
    moreover have "now < combine (date_of now + j) ?s"
      using date_bounds(2)[of now] combine_mono[of "date_of now + 1" "date_of now + j" 0] day_width(1)[OF ok, of "date_of now + j"]
        ij Cons.prems(2) by force
    ultimately show "max ?c (combine (date_of now + j) ?s) = max now (combine (date_of now + j) ?s)"
      using Cons.prems(3) j by (cases "is_working_day ws ?d") simp_all
  qed
  have step: "remaining_loop ws now dl (i # is) c (of_int A) = remaining_loop ws now dl is ?c (of_int (A + ?o div 1000000))"
  proof (cases "0 < ?o")
    case True
    have "0 \<le> ?rest div 1000000" using rest by simp
    then have "A + ?o div 1000000 < 2 ^ 53" using Cons.prems(5) split by simp
    moreover note whole_day_part[OF o(3) True o(2)]
    ultimately have "fadd (of_int A) (total_seconds ?o) = of_int (A + ?o div 1000000)"
      using fl_of_int[of "A + ?o div 1000000"] Cons.prems(4) by simp
    with True show ?thesis using remaining_loop_step[of now i dl c ws] Cons.prems(2,3) by simp
  next
    case False
    then have "?o = 0" using o(1) by simp
    then show ?thesis using remaining_loop_step[of now i dl c ws] Cons.prems(2,3) by simp
  qed
  have "0 \<le> ?o div 1000000" using o(1) by simp
  with Cons.IH[OF _ _ c', of "A + ?o div 1000000"] Cons.prems show ?case
    unfolding step using split by simp
qed simp

lemma sum_list_days: "(\<Sum>i \<leftarrow> [0..b - a]. f (a + i)) = (\<Sum>d \<in> {a..b}. f d)" for f :: "int \<Rightarrow> int"
proof -
  have "(\<Sum>i \<leftarrow> [0..b - a]. f (a + i)) = (\<Sum>i \<in> {0..b - a}. f (a + i))"
    by (simp add: interv_sum_list_conv_sum_set_int)
  also have "\<dots> = (\<Sum>d \<in> {a..b}. f d)"
    by (rule sum.reindex_bij_witness[of _ "\<lambda>d. d - a" "\<lambda>i. a + i"]) auto
  finally show ?thesis .
qed

lemma remaining_hours_work:
  assumes ok: "schedule_ok ws" and w: "whole now" "whole dl" "now < dl" and "work ws now dl = h * 3600000000" "0 \<le> h" "h < 10 ^ 12"
  shows "calculate_remaining_working_hours ws now (Some dl) = of_int h"
proof -
  have sum: "(\<Sum>i \<leftarrow> [0..date_of dl - date_of now]. overlap ws now dl (date_of now + i)) = h * 3600000000"
    unfolding sum_list_days using assms(5) by (simp add: work_def)
  have h: "h * 3600000000 div 1000000 = h * 3600" by simp
  have "remaining_loop ws now dl [0..date_of dl - date_of now] now (of_int 0)
      = of_int (0 + (\<Sum>i \<leftarrow> [0..date_of dl - date_of now]. overlap ws now dl (date_of now + i)) div 1000000)"
  proof (rule remaining_loop_work[OF ok w(1,2)])
    show "sorted_wrt (<) [0..date_of dl - date_of now]" by (rule sorted_wrt_upto)
    show "0 + (\<Sum>i \<leftarrow> [0..date_of dl - date_of now]. overlap ws now dl (date_of now + i)) div 1000000 < 2 ^ 53"
      unfolding sum h using assms(7) by simp
  qed auto
  then have "remaining_loop ws now dl [0..date_of dl - date_of now] now 0 = of_int (h * 3600)"
    unfolding sum h by simp
  moreover have "fl (of_int h) = of_int h" using fl_of_int[of h] assms(6,7) by simp
  moreover have "round_half_even (of_int h * 100) = h * 100" using round_half_even_of_int[of "h * 100"] by simp
  ultimately show ?thesis using w(3) by (simp add: calculate_remaining_working_hours_def py_round_def)
qed

section \<open>Correctness of the deadlines\<close>

text \<open>Monday to Friday, 08:00 to 18:00, with a holiday on 1 January 2026.\<close>

definition demo_week :: work_schedule where
  "demo_week = \<lparr> ws_working_days = [1, 2, 3, 4, 5], ws_daily_start = 28800000000, ws_daily_end = 64800000000,
     ws_exclusions = [20454] \<rparr>"

text \<open>Friday 2 January 2026, 16:00.\<close>

definition demo_start :: int where
  "demo_start = 20455 * 86400000000 + 57600000000"

lemma demo_week_ok: "schedule_ok demo_week" "whole demo_start"
  by (simp_all add: schedule_ok_def demo_week_def demo_start_def day_us_def)

lemma demo_due: "due_loop demo_week 365 demo_start (fl (of_int (4 * 3600))) = Some (20458 * 86400000000 + 36000000000)"
proof -
  have n: "(365 :: nat) = Suc (Suc (Suc (Suc 361)))" by simp
  have f: "fl (of_int (4 * 3600)) = of_int 14400" using fl_of_int[of 14400] by simp
  have s: "total_seconds 7200000000 = of_int 7200" "total_seconds 36000000000 = of_int 36000" "fl 7200 = 7200"
    using total_seconds_whole[of 7200000000] total_seconds_whole[of 36000000000] fl_of_int[of 7200] by simp_all
  have d: "date_of demo_start = 20455" "\<And>i. date_of (combine i 28800000000) = i"
    by (simp_all add: demo_start_def date_of_def combine_def day_us_def)
  have w: "is_working_day demo_week 20455" "\<not> is_working_day demo_week 20456" "\<not> is_working_day demo_week 20457"
    "is_working_day demo_week 20458"
    by (simp_all add: is_working_day_def demo_week_def isoweekday_def)
  have t: "ws_daily_start demo_week = 28800000000" "ws_daily_end demo_week = 64800000000" by (simp_all add: demo_week_def)
  have c: "combine 20455 64800000000 - demo_start = 7200000000" "max demo_start (combine 20455 28800000000) = demo_start"
    "demo_start < combine 20455 64800000000" "combine 20458 64800000000 - combine 20458 28800000000 = 36000000000"
    "combine 20458 28800000000 < combine 20458 64800000000"
    by (simp_all add: combine_def demo_start_def day_us_def)
  have "add_seconds (combine 20458 28800000000) (of_int 7200) = 20458 * 86400000000 + 36000000000"
    unfolding add_seconds_of_int by (simp add: combine_def day_us_def)
  then show ?thesis unfolding n f due_loop_step t d w c s by (simp add: t d w c s)
qed

lemma overnight_work: "ws_daily_end ws \<le> ws_daily_start ws \<Longrightarrow> work ws a b = 0"
  unfolding work_def by (rule sum.neutral) (auto simp: overlap_def combine_def)

definition demo_nights :: work_schedule where
  "demo_nights = demo_week\<lparr>ws_daily_start := 79200000000, ws_daily_end := 21600000000\<rparr>"

lemma demo_nights_ok: "schedule_ok demo_nights"
  by (simp add: demo_nights_def demo_week_def schedule_ok_def day_us_def)

lemma demo_nights_due: "due_loop demo_nights 365 demo_start (fl (of_int (4 * 3600))) = None"
  by (rule no_working_time) (simp add: demo_nights_def)



text \<open>
  A deadline found by the loop is a working instant not before the start: it lies on a working
  day, between the daily start and the daily end.
\<close>

theorem deadline_is_working_instant:
  assumes "schedule_ok ws" "whole start" "0 < h" "h < 10 ^ 12"
    and "due_loop ws 365 start (fl (of_int (h * 3600))) \<noteq> None"
  defines "due \<equiv> calculate_due_date ws start h"
  shows "start \<le> due \<and> is_working_day ws (date_of due)
    \<and> combine (date_of due) (ws_daily_start ws) \<le> due \<and> due \<le> combine (date_of due) (ws_daily_end ws)"
proof -
  have f: "fl (of_int (h * 3600)) = of_int (h * 3600)" using assms(3,4) by (intro fl_of_int) simp
  obtain t where t: "due_loop ws 365 start (of_int (h * 3600)) = Some t" using assms(5) unfolding f by blast
  have "due = t" using assms(3) t unfolding due_def calculate_due_date_def f by simp
  then show ?thesis
    using due_loop_work[OF assms(1,2) _ _ t] due_loop_working_instant[OF assms(1,2) _ _ t] assms(3,4) by simp
qed

theorem deadline_is_working_instant_witness:
  "demo_start \<le> calculate_due_date demo_week demo_start 4 \<and> is_working_day demo_week (date_of (calculate_due_date demo_week demo_start 4))
    \<and> combine (date_of (calculate_due_date demo_week demo_start 4)) (ws_daily_start demo_week) \<le> calculate_due_date demo_week demo_start 4
    \<and> calculate_due_date demo_week demo_start 4 \<le> combine (date_of (calculate_due_date demo_week demo_start 4)) (ws_daily_end demo_week)"
  by (rule deadline_is_working_instant[OF demo_week_ok]) (simp_all only: demo_due, simp_all)

text \<open>
  A schedule whose day ends before it starts, such as the standard nightly batch window from 22:00
  to 06:00, contains no working time for the engine: the deadline is the start plus the hours of
  the agreement on the wall clock.
\<close>

theorem overnight_schedule_has_no_working_time:
  assumes "ws_daily_end ws \<le> ws_daily_start ws" "0 < h"
  shows "calculate_due_date ws start h = start + h * 3600000000"
  using assms by (simp add: calculate_due_date_def no_working_time)

end
