(* ===== verification/Workflow_Models.thy ===== *)
theory Workflow_Models
  imports Prelude Numerics
begin

text \<open>
  The data of the workflow engine: \<open>domain/workflows/models.py\<close> (definitions, stages, decisions,
  delegation rules, requests) and the catalogue of default definitions of
  \<open>domain/workflows/definitions.py\<close>, with the operations those classes have themselves.

  Instants are microseconds since the epoch; payload values are JSON-like Python values; the
  metadata of a subject entity are strings. Of a history entry the identifier, the
  timestamp and the details are left out, of a request the requester's e-mail and name.
\<close>

section \<open>Payload values\<close>

datatype py_value = PNone | PBool bool | PInt int | PFloat rat | PStr string | PList "py_value list"
  | PDict "(string \<times> py_value) list"

type_synonym payload = "(string, py_value) dict"

text \<open>The number a value is compared as: booleans, integers and floats are one numeric tower.\<close>

fun py_number :: "py_value \<Rightarrow> rat option" where
  "py_number (PBool b) = Some (of_bool b)"
| "py_number (PInt i) = Some (of_int i)"
| "py_number (PFloat x) = Some x"
| "py_number v = None"

lemma size_py_list [termination_simp]: "v \<in> set vs \<Longrightarrow> size v < Suc (size_list size vs)"
  by (meson less_Suc_eq_le size_list_estimation' order_refl)

lemma size_py_dict [termination_simp]:
  "(k, v) \<in> set kvs \<Longrightarrow> size v < Suc (size_list (size_prod (\<lambda>x. 0) size) kvs)"
  by (induction kvs) auto

text \<open>\<open>==\<close> on values.\<close>

fun py_eq :: "py_value \<Rightarrow> py_value \<Rightarrow> bool" where
  "py_eq (PStr a) (PStr b) = (a = b)"
| "py_eq PNone PNone = True"
| "py_eq (PList xs) (PList ys) = list_all2 py_eq xs ys"
| "py_eq (PDict a) (PDict b) =
     (length a = length b \<and>
      list_all (\<lambda>(k, v). case dict_get b k of None \<Rightarrow> False | Some w \<Rightarrow> py_eq v w) a)"
| "py_eq v w = (case (py_number v, py_number w) of (Some x, Some y) \<Rightarrow> x = y | _ \<Rightarrow> False)"

text \<open>\<open>float(v)\<close>; the float a string denotes is an argument. The errors are the two it raises.\<close>

datatype float_error = FloatTypeError | FloatValueError

fun py_float :: "(string \<Rightarrow> rat option) \<Rightarrow> py_value \<Rightarrow> float_error + rat" where
  "py_float parse (PStr s) = (case parse s of Some x \<Rightarrow> Inr x | None \<Rightarrow> Inl FloatValueError)"
| "py_float parse v = (case py_number v of Some x \<Rightarrow> Inr (fl x) | None \<Rightarrow> Inl FloatTypeError)"

section \<open>Definitions\<close>

datatype wf_state = DRAFT | SUBMITTED | IN_REVIEW | APPROVED | REJECTED | WITHDRAWN | EXPIRED | APPLIED

datatype chain_mode = SERIAL | PARALLEL

datatype outcome = APPROVE | REJECT | REQUEST_MORE_INFO

datatype resolution_type = ROLE | SCOPE_OWNERSHIP | COST_CENTRE_OWNER | BUSINESS_UNIT_OWNER | BUDGET_OWNER
  | EXPLICIT_LIST

record approver_spec =
  sp_resolution_type :: resolution_type
  sp_target_role :: "string option"
  sp_explicit_approvers :: "string list"
  sp_fallback_role :: string

record stage_definition =
  sd_stage_id :: string
  sd_name :: string
  sd_sequence_order :: int
  sd_mode :: chain_mode
  sd_quorum :: nat
  sd_approver_spec :: approver_spec

record escalation_path =
  ep_escalate_to_role :: string
  ep_escalate_after_hours :: int
  ep_escalated_to :: "string list"
  ep_escalated_at :: "int option"
  ep_is_escalated :: bool

definition new_escalation_path :: "string \<Rightarrow> int \<Rightarrow> escalation_path" where
  "new_escalation_path role hours =
     \<lparr> ep_escalate_to_role = role, ep_escalate_after_hours = hours, ep_escalated_to = [],
       ep_escalated_at = None, ep_is_escalated = False \<rparr>"

record trigger_condition =
  tg_amount_gt :: "rat option"
  tg_attributes_match :: payload
  tg_always :: bool

text \<open>\<open>payload.get(k) != expected\<close>: a missing key reads as \<open>None\<close>.\<close>

definition payload_get :: "payload \<Rightarrow> string \<Rightarrow> py_value" where
  "payload_get p k = (case dict_get p k of Some v \<Rightarrow> v | None \<Rightarrow> PNone)"

definition trigger_amount :: "payload \<Rightarrow> py_value" where
  "trigger_amount p =
     (case dict_get p ''amount'' of Some v \<Rightarrow> v
      | None \<Rightarrow> (case dict_get p ''new_amount'' of Some v \<Rightarrow> v | None \<Rightarrow> PFloat 0))"

definition matches :: "(string \<Rightarrow> rat option) \<Rightarrow> trigger_condition \<Rightarrow> payload \<Rightarrow> rat option \<Rightarrow> float_error + bool" where
  "matches parse tg p impact =
     (if tg_always tg then Inr True
      else
        let attrs = list_all (\<lambda>(k, expected). py_eq (payload_get p k) expected) (tg_attributes_match tg) in
        case tg_amount_gt tg of
          None \<Rightarrow> Inr attrs
        | Some bound \<Rightarrow>
            try_bind (case impact of Some a \<Rightarrow> Inr a | None \<Rightarrow> py_float parse (trigger_amount p))
              (\<lambda>amt. Inr (if amt \<le> bound then False else attrs)))"

record workflow_definition =
  wd_id :: string
  wd_tenant_id :: "string option"
  wd_request_type :: string
  wd_entity_type :: string
  wd_name :: string
  wd_description :: string
  wd_trigger_condition :: trigger_condition
  wd_stages :: "stage_definition list"
  wd_approval_mode :: chain_mode
  wd_quorum :: nat
  wd_sla_working_hours :: int
  wd_working_schedule_id :: string
  wd_escalation_path :: escalation_path
  wd_auto_approve_conditions :: "payload option"
  wd_auto_reject_on_expiry :: bool
  wd_is_active :: bool
  wd_version :: int

text \<open>What the field constraints (\<open>ge=1\<close>) of the models guarantee of a definition.\<close>

definition definition_ok :: "workflow_definition \<Rightarrow> bool" where
  "definition_ok d \<longleftrightarrow> 1 \<le> wd_quorum d \<and> 1 \<le> wd_sla_working_hours d
     \<and> 1 \<le> ep_escalate_after_hours (wd_escalation_path d)
     \<and> list_all (\<lambda>s. 1 \<le> sd_quorum s) (wd_stages d)"

section \<open>Requests\<close>

record subject_entity =
  se_entity_type :: string
  se_entity_id :: string
  se_scope_type :: "string option"
  se_scope_id :: "string option"
  se_metadata :: "(string, string) dict"

record workflow_decision =
  dc_stage_id :: string
  dc_decision :: outcome
  dc_decided_by :: string
  dc_on_behalf_of :: "string option"
  dc_delegation_id :: "string option"
  dc_comment :: "string option"
  dc_timestamp :: int

datatype stage_status = PENDING | STAGE_IN_REVIEW | STAGE_APPROVED | STAGE_REJECTED

record workflow_stage =
  st_stage_id :: string
  st_name :: string
  st_sequence_order :: int
  st_mode :: chain_mode
  st_quorum :: nat
  st_approver_spec :: approver_spec
  st_assigned_approvers :: "string list"
  st_status :: stage_status
  st_decisions :: "workflow_decision list"

definition approved_count :: "workflow_stage \<Rightarrow> nat" where
  "approved_count s = length (filter (\<lambda>d. dc_decision d = APPROVE) (st_decisions s))"

definition is_quorum_met :: "workflow_stage \<Rightarrow> bool" where
  "is_quorum_met s \<longleftrightarrow> approved_count s \<ge> st_quorum s"

record history_entry =
  he_actor_id :: string
  he_action :: string
  he_previous_state :: wf_state
  he_new_state :: wf_state
  he_stage_id :: "string option"

record delegation_rule =
  dr_id :: string
  dr_tenant_id :: string
  dr_original_approver_id :: string
  dr_delegate_approver_id :: string
  dr_start_date :: int
  dr_end_date :: int
  dr_request_types :: "string list"
  dr_reason :: string
  dr_is_active :: bool

definition is_currently_active :: "delegation_rule \<Rightarrow> int \<Rightarrow> string option \<Rightarrow> bool" where
  "is_currently_active d now req_type =
     (if \<not> dr_is_active d then False
      else if now < dr_start_date d \<or> now > dr_end_date d then False
      else if dr_request_types d \<noteq> [] \<and> truthy req_type \<and> the req_type \<notin> set (dr_request_types d) then False
      else True)"

record workflow_request =
  wr_id :: string
  wr_tenant_id :: string
  wr_definition_id :: "string option"
  wr_request_type :: string
  wr_title :: string
  wr_subject_entity :: subject_entity
  wr_requester_id :: string
  wr_justification :: string
  wr_payload :: payload
  wr_previous_values :: "payload option"
  wr_financial_impact :: "rat option"
  wr_state :: wf_state
  wr_current_stage_index :: nat
  wr_stages :: "workflow_stage list"
  wr_created_at :: int
  wr_submitted_at :: "int option"
  wr_due_date :: "int option"
  wr_sla_working_hours :: int
  wr_working_schedule_id :: string
  wr_sla_breached :: bool
  wr_escalation_path :: escalation_path
  wr_escalation_due_at :: "int option"
  wr_is_escalated :: bool
  wr_history :: "history_entry list"
  wr_error_message :: "string option"
  wr_applied_at :: "int option"
  wr_applied_by :: "string option"

definition current_stage :: "workflow_request \<Rightarrow> workflow_stage option" where
  "current_stage r =
     (if wr_current_stage_index r < length (wr_stages r) then Some (wr_stages r ! wr_current_stage_index r) else None)"

definition add_history :: "string \<Rightarrow> string \<Rightarrow> wf_state option \<Rightarrow> wf_state option \<Rightarrow> string option
    \<Rightarrow> workflow_request \<Rightarrow> workflow_request" where
  "add_history actor action prev_state new_state stage_id r =
     r\<lparr>wr_history := wr_history r @
        [\<lparr> he_actor_id = actor, he_action = action,
           he_previous_state = (case prev_state of Some s \<Rightarrow> s | None \<Rightarrow> wr_state r),
           he_new_state = (case new_state of Some s \<Rightarrow> s | None \<Rightarrow> wr_state r),
           he_stage_id = stage_id \<rparr>]\<rparr>"

text \<open>The requests the service takes.\<close>

record submit_dto =
  sr_request_type :: string
  sr_title :: string
  sr_subject_entity :: subject_entity
  sr_justification :: string
  sr_payload :: payload
  sr_previous_values :: "payload option"
  sr_financial_impact :: "rat option"

text \<open>\<open>validate_justification_not_empty\<close>; \<open>None\<close> is the exception.\<close>

definition validate_justification :: "string \<Rightarrow> string option" where
  "validate_justification v = (if strip v = [] then None else Some (strip v))"

record decision_dto =
  dq_decision :: outcome
  dq_comment :: "string option"

record delegation_dto =
  dg_delegate_approver_id :: string
  dg_start_date :: int
  dg_end_date :: int
  dg_request_types :: "string list"
  dg_reason :: string

section \<open>The default definitions\<close>

definition def_budget_approval :: workflow_definition where
  "def_budget_approval =
     \<lparr> wd_id = ''wf-def-budget-approval'', wd_tenant_id = None, wd_request_type = ''BUDGET_APPROVAL'', wd_entity_type = ''budget'',
       wd_name = ''High-Value Budget Approval Workflow'',
       wd_description = ''Formal approval chain required for cloud budgets exceeding the allocation approval ceiling.'',
       wd_trigger_condition = \<lparr> tg_amount_gt = Some 10000, tg_attributes_match = [], tg_always = False \<rparr>,
       wd_stages =
       [\<lparr> sd_stage_id = ''stage-budget-finops'', sd_name = ''FinOps Lead Review'', sd_sequence_order = 1, sd_mode = SERIAL, sd_quorum = 1,
          sd_approver_spec = \<lparr> sp_resolution_type = ROLE, sp_target_role = Some ''FINOPS_ADMIN'', sp_explicit_approvers = [],
            sp_fallback_role = ''TENANT_ADMIN'' \<rparr> \<rparr>,
        \<lparr> sd_stage_id = ''stage-budget-exec'', sd_name = ''Budget Scope Authority Approval'', sd_sequence_order = 2, sd_mode = SERIAL, sd_quorum = 1,
          sd_approver_spec = \<lparr> sp_resolution_type = SCOPE_OWNERSHIP, sp_target_role = None, sp_explicit_approvers = [],
            sp_fallback_role = ''TENANT_ADMIN'' \<rparr> \<rparr>],
       wd_approval_mode = SERIAL, wd_quorum = 1, wd_sla_working_hours = 48, wd_working_schedule_id = ''WW_STANDARD_MON_FRI'',
       wd_escalation_path = new_escalation_path ''GLOBAL_ADMIN'' 24,
       wd_auto_approve_conditions = None, wd_auto_reject_on_expiry = True, wd_is_active = True, wd_version = 1 \<rparr>"

definition def_override_approval :: workflow_definition where
  "def_override_approval =
     \<lparr> wd_id = ''wf-def-override-approval'', wd_tenant_id = None, wd_request_type = ''OVERRIDE_APPROVAL'', wd_entity_type = ''override'',
       wd_name = ''Governance & Operational Override Approval'',
       wd_description = ''Mandatory sign-off for temporary or permanent operational and threshold overrides.'',
       wd_trigger_condition = \<lparr> tg_amount_gt = None, tg_attributes_match = [], tg_always = True \<rparr>,
       wd_stages =
       [\<lparr> sd_stage_id = ''stage-override-security'', sd_name = ''Security & Compliance Review'', sd_sequence_order = 1, sd_mode = SERIAL, sd_quorum = 1,
          sd_approver_spec = \<lparr> sp_resolution_type = ROLE, sp_target_role = Some ''SECURITY_ADMIN'', sp_explicit_approvers = [],
            sp_fallback_role = ''TENANT_ADMIN'' \<rparr> \<rparr>],
       wd_approval_mode = SERIAL, wd_quorum = 1, wd_sla_working_hours = 24, wd_working_schedule_id = ''WW_STANDARD_MON_FRI'',
       wd_escalation_path = new_escalation_path ''TENANT_ADMIN'' 12,
       wd_auto_approve_conditions = None, wd_auto_reject_on_expiry = True, wd_is_active = True, wd_version = 1 \<rparr>"

definition def_policy_exemption :: workflow_definition where
  "def_policy_exemption =
     \<lparr> wd_id = ''wf-def-policy-exemption'', wd_tenant_id = None, wd_request_type = ''POLICY_EXEMPTION'', wd_entity_type = ''policy_exemption'',
       wd_name = ''Time-Boxed Policy Exemption Authorization'',
       wd_description = ''Formal sign-off for granting exceptions to platform governance guardrails.'',
       wd_trigger_condition = \<lparr> tg_amount_gt = None, tg_attributes_match = [], tg_always = True \<rparr>,
       wd_stages =
       [\<lparr> sd_stage_id = ''stage-exemption-gov'', sd_name = ''Governance Authority Review'', sd_sequence_order = 1, sd_mode = SERIAL, sd_quorum = 1,
          sd_approver_spec = \<lparr> sp_resolution_type = ROLE, sp_target_role = Some ''SECURITY_ADMIN'', sp_explicit_approvers = [],
            sp_fallback_role = ''TENANT_ADMIN'' \<rparr> \<rparr>],
       wd_approval_mode = SERIAL, wd_quorum = 1, wd_sla_working_hours = 48, wd_working_schedule_id = ''WW_STANDARD_MON_FRI'',
       wd_escalation_path = new_escalation_path ''TENANT_ADMIN'' 24,
       wd_auto_approve_conditions = None, wd_auto_reject_on_expiry = True, wd_is_active = True, wd_version = 1 \<rparr>"

definition def_custom_role_creation :: workflow_definition where
  "def_custom_role_creation =
     \<lparr> wd_id = ''wf-def-custom-role'', wd_tenant_id = None, wd_request_type = ''CUSTOM_ROLE_CREATION'', wd_entity_type = ''role'',
       wd_name = ''Custom RBAC Role Composition Approval'',
       wd_description = ''Parallel dual-authorization by Security Admin and Tenant Admin.'',
       wd_trigger_condition = \<lparr> tg_amount_gt = None, tg_attributes_match = [], tg_always = True \<rparr>,
       wd_stages =
       [\<lparr> sd_stage_id = ''stage-role-dual-auth'', sd_name = ''Dual Security & Admin Sign-off'', sd_sequence_order = 1, sd_mode = PARALLEL, sd_quorum = 2,
          sd_approver_spec = \<lparr> sp_resolution_type = ROLE, sp_target_role = Some ''SECURITY_ADMIN'', sp_explicit_approvers = [''sec-lead'', ''tenant-admin-1''],
            sp_fallback_role = ''TENANT_ADMIN'' \<rparr> \<rparr>],
       wd_approval_mode = PARALLEL, wd_quorum = 2, wd_sla_working_hours = 72, wd_working_schedule_id = ''WW_STANDARD_MON_FRI'',
       wd_escalation_path = new_escalation_path ''GLOBAL_ADMIN'' 36,
       wd_auto_approve_conditions = None, wd_auto_reject_on_expiry = True, wd_is_active = True, wd_version = 1 \<rparr>"

definition def_master_data_change :: workflow_definition where
  "def_master_data_change =
     \<lparr> wd_id = ''wf-def-master-data'', wd_tenant_id = None, wd_request_type = ''MASTER_DATA_CHANGE'', wd_entity_type = ''master_data'',
       wd_name = ''Master Data Registry Mutation Approval'',
       wd_description = ''Data steward sign-off before publishing modified master records.'',
       wd_trigger_condition = \<lparr> tg_amount_gt = None, tg_attributes_match = [], tg_always = True \<rparr>,
       wd_stages =
       [\<lparr> sd_stage_id = ''stage-md-steward'', sd_name = ''Data Steward Review'', sd_sequence_order = 1, sd_mode = SERIAL, sd_quorum = 1,
          sd_approver_spec = \<lparr> sp_resolution_type = ROLE, sp_target_role = Some ''FINOPS_ADMIN'', sp_explicit_approvers = [],
            sp_fallback_role = ''TENANT_ADMIN'' \<rparr> \<rparr>],
       wd_approval_mode = SERIAL, wd_quorum = 1, wd_sla_working_hours = 48, wd_working_schedule_id = ''WW_STANDARD_MON_FRI'',
       wd_escalation_path = new_escalation_path ''GLOBAL_ADMIN'' 24,
       wd_auto_approve_conditions = None, wd_auto_reject_on_expiry = True, wd_is_active = True, wd_version = 1 \<rparr>"

definition def_tenant_lifecycle :: workflow_definition where
  "def_tenant_lifecycle =
     \<lparr> wd_id = ''wf-def-tenant-lifecycle'', wd_tenant_id = None, wd_request_type = ''TENANT_LIFECYCLE'', wd_entity_type = ''tenant'',
       wd_name = ''Tenant Lifecycle Sign-off'',
       wd_description = ''Global administration approval for tenant onboarding or suspension.'',
       wd_trigger_condition = \<lparr> tg_amount_gt = None, tg_attributes_match = [], tg_always = True \<rparr>,
       wd_stages =
       [\<lparr> sd_stage_id = ''stage-tenant-lifecycle'', sd_name = ''Platform Global Admin Sign-off'', sd_sequence_order = 1, sd_mode = SERIAL, sd_quorum = 1,
          sd_approver_spec = \<lparr> sp_resolution_type = ROLE, sp_target_role = Some ''GLOBAL_ADMIN'', sp_explicit_approvers = [],
            sp_fallback_role = ''GLOBAL_ADMIN'' \<rparr> \<rparr>],
       wd_approval_mode = SERIAL, wd_quorum = 1, wd_sla_working_hours = 24, wd_working_schedule_id = ''WW_STANDARD_MON_FRI'',
       wd_escalation_path = new_escalation_path ''GLOBAL_ADMIN'' 12,
       wd_auto_approve_conditions = None, wd_auto_reject_on_expiry = True, wd_is_active = True, wd_version = 1 \<rparr>"

definition def_connector_deletion :: workflow_definition where
  "def_connector_deletion =
     \<lparr> wd_id = ''wf-def-connector-deletion'', wd_tenant_id = None, wd_request_type = ''CONNECTOR_DELETION'', wd_entity_type = ''connector'',
       wd_name = ''Cloud Connector Decommission Approval'',
       wd_description = ''Approval required before disconnecting telemetry and billing connectors.'',
       wd_trigger_condition = \<lparr> tg_amount_gt = None, tg_attributes_match = [], tg_always = True \<rparr>,
       wd_stages =
       [\<lparr> sd_stage_id = ''stage-connector-cloud-admin'', sd_name = ''Cloud Operations Lead Sign-off'', sd_sequence_order = 1, sd_mode = SERIAL, sd_quorum = 1,
          sd_approver_spec = \<lparr> sp_resolution_type = ROLE, sp_target_role = Some ''CLOUD_ADMIN'', sp_explicit_approvers = [],
            sp_fallback_role = ''TENANT_ADMIN'' \<rparr> \<rparr>],
       wd_approval_mode = SERIAL, wd_quorum = 1, wd_sla_working_hours = 24, wd_working_schedule_id = ''WW_STANDARD_MON_FRI'',
       wd_escalation_path = new_escalation_path ''TENANT_ADMIN'' 12,
       wd_auto_approve_conditions = None, wd_auto_reject_on_expiry = True, wd_is_active = True, wd_version = 1 \<rparr>"

definition def_cost_model_change :: workflow_definition where
  "def_cost_model_change =
     \<lparr> wd_id = ''wf-def-cost-model'', wd_tenant_id = None, wd_request_type = ''COST_MODEL_CHANGE'', wd_entity_type = ''cost_model'',
       wd_name = ''Cost Model Adjustment Approval'',
       wd_description = ''FinOps and Finance review for cost calculation formulas and amortization rules.'',
       wd_trigger_condition = \<lparr> tg_amount_gt = None, tg_attributes_match = [], tg_always = True \<rparr>,
       wd_stages =
       [\<lparr> sd_stage_id = ''stage-cost-finance'', sd_name = ''Finance Controller Sign-off'', sd_sequence_order = 1, sd_mode = SERIAL, sd_quorum = 1,
          sd_approver_spec = \<lparr> sp_resolution_type = ROLE, sp_target_role = Some ''FINANCE_ADMIN'', sp_explicit_approvers = [],
            sp_fallback_role = ''TENANT_ADMIN'' \<rparr> \<rparr>],
       wd_approval_mode = SERIAL, wd_quorum = 1, wd_sla_working_hours = 48, wd_working_schedule_id = ''WW_STANDARD_MON_FRI'',
       wd_escalation_path = new_escalation_path ''TENANT_ADMIN'' 24,
       wd_auto_approve_conditions = None, wd_auto_reject_on_expiry = True, wd_is_active = True, wd_version = 1 \<rparr>"

definition def_allocation_rule_change :: workflow_definition where
  "def_allocation_rule_change =
     \<lparr> wd_id = ''wf-def-allocation-rule'', wd_tenant_id = None, wd_request_type = ''ALLOCATION_RULE_CHANGE'', wd_entity_type = ''allocation_rule'',
       wd_name = ''Cost Allocation Rule Modification Approval'',
       wd_description = ''Review for business unit attribution and split-cost allocation rules.'',
       wd_trigger_condition = \<lparr> tg_amount_gt = None, tg_attributes_match = [], tg_always = True \<rparr>,
       wd_stages =
       [\<lparr> sd_stage_id = ''stage-alloc-finops'', sd_name = ''FinOps Governance Sign-off'', sd_sequence_order = 1, sd_mode = SERIAL, sd_quorum = 1,
          sd_approver_spec = \<lparr> sp_resolution_type = ROLE, sp_target_role = Some ''FINOPS_ADMIN'', sp_explicit_approvers = [],
            sp_fallback_role = ''TENANT_ADMIN'' \<rparr> \<rparr>],
       wd_approval_mode = SERIAL, wd_quorum = 1, wd_sla_working_hours = 48, wd_working_schedule_id = ''WW_STANDARD_MON_FRI'',
       wd_escalation_path = new_escalation_path ''TENANT_ADMIN'' 24,
       wd_auto_approve_conditions = None, wd_auto_reject_on_expiry = True, wd_is_active = True, wd_version = 1 \<rparr>"

definition def_retention_change :: workflow_definition where
  "def_retention_change =
     \<lparr> wd_id = ''wf-def-retention-change'', wd_tenant_id = None, wd_request_type = ''RETENTION_CHANGE'', wd_entity_type = ''retention_policy'',
       wd_name = ''Data Retention & Pruning Policy Alteration'',
       wd_description = ''Legal and compliance sign-off for reducing or extending data retention windows.'',
       wd_trigger_condition = \<lparr> tg_amount_gt = None, tg_attributes_match = [], tg_always = True \<rparr>,
       wd_stages =
       [\<lparr> sd_stage_id = ''stage-retention-security'', sd_name = ''Data Governance Officer Sign-off'', sd_sequence_order = 1, sd_mode = SERIAL, sd_quorum = 1,
          sd_approver_spec = \<lparr> sp_resolution_type = ROLE, sp_target_role = Some ''SECURITY_ADMIN'', sp_explicit_approvers = [],
            sp_fallback_role = ''TENANT_ADMIN'' \<rparr> \<rparr>],
       wd_approval_mode = SERIAL, wd_quorum = 1, wd_sla_working_hours = 72, wd_working_schedule_id = ''WW_STANDARD_MON_FRI'',
       wd_escalation_path = new_escalation_path ''TENANT_ADMIN'' 36,
       wd_auto_approve_conditions = None, wd_auto_reject_on_expiry = True, wd_is_active = True, wd_version = 1 \<rparr>"

definition def_rate_card_upload :: workflow_definition where
  "def_rate_card_upload =
     \<lparr> wd_id = ''wf-def-rate-card'', wd_tenant_id = None, wd_request_type = ''RATE_CARD_UPLOAD'', wd_entity_type = ''rate_card'',
       wd_name = ''Negotiated Enterprise Rate Card Approval'',
       wd_description = ''Procurement and commercial validation before applying custom negotiated discount matrices.'',
       wd_trigger_condition = \<lparr> tg_amount_gt = None, tg_attributes_match = [], tg_always = True \<rparr>,
       wd_stages =
       [\<lparr> sd_stage_id = ''stage-rate-procurement'', sd_name = ''Procurement Category Manager Sign-off'', sd_sequence_order = 1, sd_mode = SERIAL, sd_quorum = 1,
          sd_approver_spec = \<lparr> sp_resolution_type = ROLE, sp_target_role = Some ''PROCUREMENT'', sp_explicit_approvers = [],
            sp_fallback_role = ''FINOPS_ADMIN'' \<rparr> \<rparr>],
       wd_approval_mode = SERIAL, wd_quorum = 1, wd_sla_working_hours = 48, wd_working_schedule_id = ''WW_STANDARD_MON_FRI'',
       wd_escalation_path = new_escalation_path ''TENANT_ADMIN'' 24,
       wd_auto_approve_conditions = None, wd_auto_reject_on_expiry = True, wd_is_active = True, wd_version = 1 \<rparr>"

definition def_statement_dispute :: workflow_definition where
  "def_statement_dispute =
     \<lparr> wd_id = ''wf-def-statement-dispute'', wd_tenant_id = None, wd_request_type = ''STATEMENT_DISPUTE'', wd_entity_type = ''statement_dispute'',
       wd_name = ''Showback Statement Dispute Workflow'',
       wd_description = ''Formal review and dispute resolution workflow for queried cost allocation or showback statement line items.'',
       wd_trigger_condition = \<lparr> tg_amount_gt = None, tg_attributes_match = [], tg_always = True \<rparr>,
       wd_stages =
       [\<lparr> sd_stage_id = ''stage-dispute-finops'', sd_name = ''FinOps Cost Analyst Investigation'', sd_sequence_order = 1, sd_mode = SERIAL, sd_quorum = 1,
          sd_approver_spec = \<lparr> sp_resolution_type = ROLE, sp_target_role = Some ''FINOPS_ADMIN'', sp_explicit_approvers = [],
            sp_fallback_role = ''TENANT_ADMIN'' \<rparr> \<rparr>],
       wd_approval_mode = SERIAL, wd_quorum = 1, wd_sla_working_hours = 48, wd_working_schedule_id = ''WW_STANDARD_MON_FRI'',
       wd_escalation_path = new_escalation_path ''FINANCE_DIRECTOR'' 24,
       wd_auto_approve_conditions = None, wd_auto_reject_on_expiry = False, wd_is_active = True, wd_version = 1 \<rparr>"

definition def_provisioning_request :: workflow_definition where
  "def_provisioning_request =
     \<lparr> wd_id = ''wf-def-provisioning-request'', wd_tenant_id = None, wd_request_type = ''PROVISIONING_REQUEST'', wd_entity_type = ''provisioning_request'',
       wd_name = ''Cost-Aware Provisioning Gate Approval Workflow'',
       wd_description = ''Pre-deployment evaluation and approval workflow for cloud resource provisioning against scope budget and quota headroom.'',
       wd_trigger_condition = \<lparr> tg_amount_gt = None, tg_attributes_match = [], tg_always = True \<rparr>,
       wd_stages =
       [\<lparr> sd_stage_id = ''stage-provisioning-gate-review'', sd_name = ''Scope Owner & FinOps Provisioning Gate Review'', sd_sequence_order = 1, sd_mode = SERIAL, sd_quorum = 1,
          sd_approver_spec = \<lparr> sp_resolution_type = ROLE, sp_target_role = Some ''FINOPS_ADMIN'', sp_explicit_approvers = [],
            sp_fallback_role = ''TENANT_ADMIN'' \<rparr> \<rparr>],
       wd_approval_mode = SERIAL, wd_quorum = 1, wd_sla_working_hours = 24, wd_working_schedule_id = ''WW_STANDARD_MON_FRI'',
       wd_escalation_path = new_escalation_path ''FINANCE_DIRECTOR'' 12,
       wd_auto_approve_conditions = None, wd_auto_reject_on_expiry = False, wd_is_active = True, wd_version = 1 \<rparr>"

definition def_decommissioning_request :: workflow_definition where
  "def_decommissioning_request =
     \<lparr> wd_id = ''wf-def-decommissioning-request'', wd_tenant_id = None, wd_request_type = ''DECOMMISSIONING_REQUEST'', wd_entity_type = ''decommissioning_request'',
       wd_name = ''Resource Decommissioning & Retirement Workflow'',
       wd_description = ''Formal approval chain required for retiring and deleting cloud resources with cross-team dependency impact check.'',
       wd_trigger_condition = \<lparr> tg_amount_gt = None, tg_attributes_match = [], tg_always = True \<rparr>,
       wd_stages =
       [\<lparr> sd_stage_id = ''stage-decom-finops'', sd_name = ''FinOps & SRE Operational Review'', sd_sequence_order = 1, sd_mode = SERIAL, sd_quorum = 1,
          sd_approver_spec = \<lparr> sp_resolution_type = ROLE, sp_target_role = Some ''FINOPS_ADMIN'', sp_explicit_approvers = [],
            sp_fallback_role = ''TENANT_ADMIN'' \<rparr> \<rparr>,
        \<lparr> sd_stage_id = ''stage-decom-scope-authority'', sd_name = ''Scope Owner Decommissioning Approval'', sd_sequence_order = 2, sd_mode = SERIAL, sd_quorum = 1,
          sd_approver_spec = \<lparr> sp_resolution_type = SCOPE_OWNERSHIP, sp_target_role = None, sp_explicit_approvers = [],
            sp_fallback_role = ''TENANT_ADMIN'' \<rparr> \<rparr>],
       wd_approval_mode = SERIAL, wd_quorum = 1, wd_sla_working_hours = 48, wd_working_schedule_id = ''WW_STANDARD_MON_FRI'',
       wd_escalation_path = new_escalation_path ''GLOBAL_ADMIN'' 24,
       wd_auto_approve_conditions = None, wd_auto_reject_on_expiry = False, wd_is_active = True, wd_version = 1 \<rparr>"

definition DEFAULT_WORKFLOW_DEFINITIONS :: "(string, workflow_definition) dict" where
  "DEFAULT_WORKFLOW_DEFINITIONS =
     [(''BUDGET_APPROVAL'', def_budget_approval),
      (''OVERRIDE_APPROVAL'', def_override_approval),
      (''POLICY_EXEMPTION'', def_policy_exemption),
      (''CUSTOM_ROLE_CREATION'', def_custom_role_creation),
      (''MASTER_DATA_CHANGE'', def_master_data_change),
      (''TENANT_LIFECYCLE'', def_tenant_lifecycle),
      (''CONNECTOR_DELETION'', def_connector_deletion),
      (''COST_MODEL_CHANGE'', def_cost_model_change),
      (''ALLOCATION_RULE_CHANGE'', def_allocation_rule_change),
      (''RETENTION_CHANGE'', def_retention_change),
      (''RATE_CARD_UPLOAD'', def_rate_card_upload),
      (''STATEMENT_DISPUTE'', def_statement_dispute),
      (''PROVISIONING_REQUEST'', def_provisioning_request),
      (''DECOMMISSIONING_REQUEST'', def_decommissioning_request)]"

definition get_default_workflow_definition_by_type ::
  "(string, workflow_definition) dict \<Rightarrow> string \<Rightarrow> workflow_definition option" where
  "get_default_workflow_definition_by_type defaults request_type = dict_get defaults (upper (strip request_type))"

end
