(* ===== verification/Approvers.thy ===== *)
theory Approvers
  imports Workflow_Models Audit_Stream
begin

text \<open>
  \<open>ApproverResolver\<close> (\<open>domain/workflows/resolver.py\<close>): who may decide on a stage, from the role
  directory, the subject entity's metadata and the master data, with the fallback role and
  the delegation rules.

  The role directory is state: \<open>_get_users_by_role\<close> hands out the stored list itself and
  \<open>resolve_approvers\<close> may append to it, so a resolution returns the directory it leaves behind. The
  master data service is an argument, a record of a type and code or \<open>None\<close> (also when it raises).
\<close>

section \<open>The directory\<close>

record resolver_state =
  rs_role_memberships :: "(string \<times> string, string list) dict"
  rs_out_of_office :: "(string, bool) dict"

definition register_role_members :: "string \<Rightarrow> string \<Rightarrow> string list \<Rightarrow> resolver_state \<Rightarrow> resolver_state" where
  "register_role_members tenant role users rs =
     rs\<lparr>rs_role_memberships := dict_set (rs_role_memberships rs) (tenant, upper role) users\<rparr>"

definition set_user_out_of_office :: "string \<Rightarrow> bool \<Rightarrow> resolver_state \<Rightarrow> resolver_state" where
  "set_user_out_of_office user is_ooo rs = rs\<lparr>rs_out_of_office := dict_set (rs_out_of_office rs) user is_ooo\<rparr>"

definition default_role_users :: "string \<Rightarrow> (string, string list) dict" where
  "default_role_users tenant =
     [(''GLOBAL_ADMIN'', [''global-admin-user'', tenant @ ''-global-admin'']),
      (''TENANT_ADMIN'', [tenant @ ''-admin'', ''user-admin-1'', ''tenant-admin-1'']),
      (''FINOPS_ADMIN'', [tenant @ ''-finops-lead'', ''user-finops-lead'', ''user-finops-1'']),
      (''FINANCE_ADMIN'', [tenant @ ''-finance-lead'', ''user-finance-lead'']),
      (''SECURITY_ADMIN'', [tenant @ ''-security-lead'', ''sec-lead'', ''user-security-lead'']),
      (''CLOUD_ADMIN'', [tenant @ ''-cloud-admin'', ''user-cloud-admin'']),
      (''PLATFORM_ADMIN'', [tenant @ ''-platform-admin'']),
      (''PROCUREMENT'', [tenant @ ''-procurement-lead''])]"

text \<open>The key of the stored list a lookup returns, if it returns a stored one.\<close>

definition role_key :: "resolver_state \<Rightarrow> string \<Rightarrow> string \<Rightarrow> (string \<times> string) option" where
  "role_key rs role tenant =
     (if dict_get (rs_role_memberships rs) (tenant, upper role) \<noteq> None then Some (tenant, upper role)
      else if dict_get (rs_role_memberships rs) (''*'', upper role) \<noteq> None then Some (''*'', upper role)
      else None)"

definition get_users_by_role :: "resolver_state \<Rightarrow> string \<Rightarrow> string \<Rightarrow> string list" where
  "get_users_by_role rs role tenant =
     (case role_key rs role tenant of
        Some key \<Rightarrow> the (dict_get (rs_role_memberships rs) key)
      | None \<Rightarrow> (case dict_get (default_role_users tenant) (upper role) of Some us \<Rightarrow> us | None \<Rightarrow> []))"

text \<open>\<open>candidates.append(user)\<close> on a list that \<open>_get_users_by_role\<close> returned.\<close>

definition append_role_user :: "resolver_state \<Rightarrow> string \<Rightarrow> string \<Rightarrow> string \<Rightarrow> resolver_state" where
  "append_role_user rs role tenant user =
     (case role_key rs role tenant of
        Some key \<Rightarrow> rs\<lparr>rs_role_memberships :=
                        dict_set (rs_role_memberships rs) key (the (dict_get (rs_role_memberships rs) key) @ [user])\<rparr>
      | None \<Rightarrow> rs)"

section \<open>Resolution\<close>

type_synonym master_data = "string \<Rightarrow> string \<Rightarrow> string \<Rightarrow> (string, string) dict option"

record resolved_approvers =
  ra_primary_approvers :: "string list"
  ra_effective_approvers :: "string list"
  ra_delegation_map :: "(string, delegation_rule) dict"
  ra_unavailable :: "string list"

definition is_authorized :: "resolved_approvers \<Rightarrow> string \<Rightarrow> bool" where
  "is_authorized res actor \<longleftrightarrow> actor \<in> set (ra_effective_approvers res) \<or> actor \<in> set (ra_primary_approvers res)"

definition get_delegation_for :: "resolved_approvers \<Rightarrow> string \<Rightarrow> delegation_rule option" where
  "get_delegation_for res actor = dict_get (ra_delegation_map res) actor"

definition single :: "string option \<Rightarrow> string list" where
  "single x = (if truthy x then [the x] else [])"

definition meta :: "subject_entity \<Rightarrow> string \<Rightarrow> string option" where
  "meta se k = dict_get (se_metadata se) k"

text \<open>The role branch, with the appended acting user.\<close>

definition role_candidates :: "approver_spec \<Rightarrow> tenant_context \<Rightarrow> resolver_state \<Rightarrow> string list \<times> resolver_state" where
  "role_candidates spec tc rs =
     (let role = (if truthy (sp_target_role spec) then the (sp_target_role spec) else ''TENANT_ADMIN'');
          stored = get_users_by_role rs role (tc_tenant_id tc);
          fresh = sp_explicit_approvers spec \<noteq> [];
          candidates = (if fresh then dedup (stored @ sp_explicit_approvers spec) else stored)
      in if role \<in> set (tc_roles tc) \<and> tc_user_id tc \<notin> set candidates
         then (candidates @ [tc_user_id tc], if fresh then rs else append_role_user rs role (tc_tenant_id tc) (tc_user_id tc))
         else (candidates, rs))"

text \<open>The owner of a master-data record: a cost centre's or a business unit's.\<close>

definition record_owner :: "master_data \<Rightarrow> string \<Rightarrow> string option \<Rightarrow> string \<Rightarrow> string list" where
  "record_owner md rtype code tenant =
     (if truthy code then
        case md rtype (the code) tenant of
          None \<Rightarrow> []
        | Some attrs \<Rightarrow> single (or_else (dict_get attrs ''manager_user_id'') (dict_get attrs ''owner''))
      else [])"

definition primary_candidates :: "master_data \<Rightarrow> approver_spec \<Rightarrow> subject_entity \<Rightarrow> tenant_context \<Rightarrow> resolver_state
    \<Rightarrow> string list \<times> resolver_state" where
  "primary_candidates md spec se tc rs =
     (case sp_resolution_type spec of
        ROLE \<Rightarrow> role_candidates spec tc rs
      | SCOPE_OWNERSHIP \<Rightarrow> (single (or_else (meta se ''owner'') (meta se ''scope_owner'')), rs)
      | COST_CENTRE_OWNER \<Rightarrow>
          (record_owner md ''COST_CENTRE''
             (or_else (or_else (meta se ''cost_centre_code'') (meta se ''cost_center'')) (se_scope_id se))
             (tc_tenant_id tc), rs)
      | BUSINESS_UNIT_OWNER \<Rightarrow>
          (record_owner md ''BUSINESS_UNIT''
             (or_else (or_else (meta se ''business_unit_code'') (meta se ''business_unit'')) (se_scope_id se))
             (tc_tenant_id tc), rs)
      | BUDGET_OWNER \<Rightarrow> (single (or_else (meta se ''owner'') (meta se ''budget_owner'')), rs)
      | EXPLICIT_LIST \<Rightarrow> (sp_explicit_approvers spec, rs))"

text \<open>The fallback role, then the explicit list.\<close>

definition with_fallback :: "approver_spec \<Rightarrow> string \<Rightarrow> resolver_state \<Rightarrow> string list \<Rightarrow> string list" where
  "with_fallback spec tenant rs candidates =
     (let c1 = (if candidates = [] \<and> sp_fallback_role spec \<noteq> []
                then get_users_by_role rs (sp_fallback_role spec) tenant else candidates)
      in if c1 = [] then sp_explicit_approvers spec else c1)"

text \<open>Whether a rule gives its delegate a place on the stage.\<close>

definition rule_applies :: "resolver_state \<Rightarrow> approver_spec \<Rightarrow> string \<Rightarrow> int \<Rightarrow> string option \<Rightarrow> string list
    \<Rightarrow> delegation_rule \<Rightarrow> bool" where
  "rule_applies rs spec tenant now req_type candidates d \<longleftrightarrow>
     is_currently_active d now req_type \<and>
     (dr_original_approver_id d \<in> set candidates \<or>
      (truthy (sp_target_role spec) \<and>
       dr_original_approver_id d \<in> set (get_users_by_role rs (the (sp_target_role spec)) tenant)))"

definition unavailable :: "resolver_state \<Rightarrow> delegation_rule list \<Rightarrow> int \<Rightarrow> string option \<Rightarrow> string list \<Rightarrow> string list" where
  "unavailable rs delegations now req_type candidates =
     filter (\<lambda>cand. dict_get (rs_out_of_office rs) cand = Some True \<and>
              \<not> list_ex (\<lambda>d. dr_original_approver_id d = cand \<and> is_currently_active d now req_type) delegations)
       candidates"

datatype resolve_error = NoResolvableApproverException string string resolution_type

definition resolve_approvers :: "master_data \<Rightarrow> string \<Rightarrow> stage_definition \<Rightarrow> subject_entity \<Rightarrow> tenant_context
    \<Rightarrow> delegation_rule list \<Rightarrow> int \<Rightarrow> string option \<Rightarrow> resolver_state
    \<Rightarrow> (resolve_error + resolved_approvers) \<times> resolver_state" where
  "resolve_approvers md request_id sd se tc delegations now req_type rs0 =
     (let spec = sd_approver_spec sd; tenant = tc_tenant_id tc;
          (primary, rs) = primary_candidates md spec se tc rs0;
          candidates = with_fallback spec tenant rs primary
      in if candidates = [] then
           (Inl (NoResolvableApproverException request_id (sd_name sd) (sp_resolution_type spec)), rs)
         else
           let rules = filter (rule_applies rs spec tenant now req_type candidates) delegations in
           (Inr \<lparr> ra_primary_approvers = candidates,
                  ra_effective_approvers = dedup (candidates @ map dr_delegate_approver_id rules),
                  ra_delegation_map = fold (\<lambda>d m. dict_set m (dr_delegate_approver_id d) d) rules [],
                  ra_unavailable = unavailable rs delegations now req_type candidates \<rparr>, rs))"

section \<open>What a resolution yields\<close>

lemma get_users_append_self:
  "role_key rs role tenant \<noteq> None \<Longrightarrow>
   get_users_by_role (append_role_user rs role tenant u) role tenant = get_users_by_role rs role tenant @ [u]"
  by (auto simp: append_role_user_def role_key_def get_users_by_role_def split: option.splits if_splits)

lemma role_key_append: "role_key (append_role_user rs role tenant u) r t = role_key rs r t"
  by (auto simp: append_role_user_def role_key_def split: option.splits if_splits)

lemma memberships_append:
  "dict_get (rs_role_memberships (append_role_user rs role tenant u)) key =
     (if role_key rs role tenant = Some key then Some (the (dict_get (rs_role_memberships rs) key) @ [u])
      else dict_get (rs_role_memberships rs) key)"
  by (auto simp: append_role_user_def split: option.splits)

lemma get_users_append_grows:
  "set (get_users_by_role rs r t) \<subseteq> set (get_users_by_role (append_role_user rs role tenant u) r t)"
  by (auto simp: get_users_by_role_def role_key_append memberships_append split: option.splits)

lemma role_candidates_directory:
  "snd (role_candidates spec tc rs) = rs \<or>
   (\<exists>role. role \<in> set (tc_roles tc) \<and> snd (role_candidates spec tc rs) = append_role_user rs role (tc_tenant_id tc) (tc_user_id tc))"
  by (auto simp: role_candidates_def Let_def)

lemma resolve_directory:
  "snd (resolve_approvers md i sd se tc ds now rt rs) = rs \<or>
   (\<exists>role. role \<in> set (tc_roles tc) \<and>
      snd (resolve_approvers md i sd se tc ds now rt rs) = append_role_user rs role (tc_tenant_id tc) (tc_user_id tc))"
proof -
  have "snd (resolve_approvers md i sd se tc ds now rt rs) = snd (primary_candidates md (sd_approver_spec sd) se tc rs)"
    by (simp add: resolve_approvers_def Let_def split: prod.split)
  then show ?thesis
    using role_candidates_directory[of "sd_approver_spec sd" tc rs]
    by (auto simp: primary_candidates_def split: resolution_type.split)
qed

lemma resolve_out_of_office: "rs_out_of_office (snd (resolve_approvers md i sd se tc ds now rt rs)) = rs_out_of_office rs"
  using resolve_directory[of md i sd se tc ds now rt rs] by (auto simp: append_role_user_def split: option.splits)

lemma directory_grows:
  "set (get_users_by_role rs r t) \<subseteq> set (get_users_by_role (snd (resolve_approvers md i sd se tc ds now rt rs)) r t)"
  using resolve_directory[of md i sd se tc ds now rt rs] get_users_append_grows by fastforce

lemma with_fallback_empty:
  "with_fallback spec t rs c = [] \<longleftrightarrow>
     c = [] \<and> sp_explicit_approvers spec = [] \<and> (sp_fallback_role spec = [] \<or> get_users_by_role rs (sp_fallback_role spec) t = [])"
  by (auto simp: with_fallback_def Let_def)

text \<open>The successful resolution, in terms of the directory it leaves.\<close>

lemma resolve_Inr:
  assumes "resolve_approvers md i sd se tc ds now rt rs = (Inr res, rs')"
  shows "ra_primary_approvers res \<noteq> []"
    and "ra_primary_approvers res =
           with_fallback (sd_approver_spec sd) (tc_tenant_id tc) rs' (fst (primary_candidates md (sd_approver_spec sd) se tc rs))"
    and "ra_effective_approvers res = dedup (ra_primary_approvers res @ map dr_delegate_approver_id
           (filter (rule_applies rs' (sd_approver_spec sd) (tc_tenant_id tc) now rt (ra_primary_approvers res)) ds))"
    and "ra_delegation_map res = fold (\<lambda>d m. dict_set m (dr_delegate_approver_id d) d)
           (filter (rule_applies rs' (sd_approver_spec sd) (tc_tenant_id tc) now rt (ra_primary_approvers res)) ds) []"
    and "ra_unavailable res = unavailable rs' ds now rt (ra_primary_approvers res)"
  using assms by (auto simp: resolve_approvers_def Let_def split: prod.splits if_splits)

lemma resolve_Inl:
  "resolve_approvers md i sd se tc ds now rt rs = (Inl e, rs') \<Longrightarrow>
   e = NoResolvableApproverException i (sd_name sd) (sp_resolution_type (sd_approver_spec sd)) \<and>
   with_fallback (sd_approver_spec sd) (tc_tenant_id tc) rs' (fst (primary_candidates md (sd_approver_spec sd) se tc rs)) = []"
  by (auto simp: resolve_approvers_def Let_def split: prod.splits if_splits)

lemma fold_delegation_map:
  "dict_get (fold (\<lambda>d m. dict_set m (dr_delegate_approver_id d) d) rules m0) a =
     (case find (\<lambda>d. dr_delegate_approver_id d = a) (rev rules) of Some d \<Rightarrow> Some d | None \<Rightarrow> dict_get m0 a)"
proof (induction rules arbitrary: m0 rule: rev_induct)
  case (snoc d rules)
  then show ?case by simp
qed simp

section \<open>Properties\<close>

text \<open>
  A stage never loses its approvers silently: a resolution fails exactly when the
  strategy names nobody, the fallback role has nobody and there is no explicit list, and then with the
  exception that names the request and the stage; otherwise the list of those who may decide is not empty.
\<close>

theorem resolution_fails_only_when_exhausted:
  "(case resolve_approvers md i sd se tc ds now rt rs of
      (Inl e, rs') \<Rightarrow>
        e = NoResolvableApproverException i (sd_name sd) (sp_resolution_type (sd_approver_spec sd))
        \<and> fst (primary_candidates md (sd_approver_spec sd) se tc rs) = []
        \<and> sp_explicit_approvers (sd_approver_spec sd) = []
        \<and> (sp_fallback_role (sd_approver_spec sd) = []
           \<or> get_users_by_role rs' (sp_fallback_role (sd_approver_spec sd)) (tc_tenant_id tc) = [])
    | (Inr res, rs') \<Rightarrow>
        ra_effective_approvers res \<noteq> [] \<and> set (ra_primary_approvers res) \<subseteq> set (ra_effective_approvers res))"
proof (cases "resolve_approvers md i sd se tc ds now rt rs")
  case (Pair r rs')
  show ?thesis
  proof (cases r)
    case (Inl e)
    with Pair resolve_Inl[of md i sd se tc ds now rt rs e rs'] show ?thesis by (simp add: with_fallback_empty)
  next
    case (Inr res)
    with Pair resolve_Inr[of md i sd se tc ds now rt rs res rs'] show ?thesis by simp
  qed
qed

text \<open>
  Authority comes from a place: whoever a resolution authorises is one of the primary approvers or
  the delegate of a rule that is in effect at that instant for that request type and whose delegator is a
  primary approver or holds the stage's role; and the rule a decision is attributed to is such a rule.
\<close>

theorem authority_is_primary_or_delegated:
  assumes "resolve_approvers md i sd se tc ds now rt rs = (Inr res, rs')"
  shows "(is_authorized res actor \<longleftrightarrow>
            actor \<in> set (ra_primary_approvers res) \<or>
            list_ex (\<lambda>d. dr_delegate_approver_id d = actor \<and>
              rule_applies rs' (sd_approver_spec sd) (tc_tenant_id tc) now rt (ra_primary_approvers res) d) ds)
         \<and> get_delegation_for res actor =
            find (\<lambda>d. dr_delegate_approver_id d = actor \<and>
              rule_applies rs' (sd_approver_spec sd) (tc_tenant_id tc) now rt (ra_primary_approvers res) d) (rev ds)"
proof
  have find_filter: "find P (rev (filter Q xs)) = find (\<lambda>x. P x \<and> Q x) (rev xs)" for P Q and xs :: "delegation_rule list"
    by (induction xs rule: rev_induct) auto
  show "get_delegation_for res actor =
          find (\<lambda>d. dr_delegate_approver_id d = actor \<and>
            rule_applies rs' (sd_approver_spec sd) (tc_tenant_id tc) now rt (ra_primary_approvers res) d) (rev ds)"
    using resolve_Inr(4)[OF assms]
    by (simp add: get_delegation_for_def fold_delegation_map find_filter split: option.split)
qed (use resolve_Inr(3)[OF assms] in \<open>auto simp: is_authorized_def list_ex_iff\<close>)

text \<open>A security stage, an approver on leave who has named a delegate, and an empty directory.\<close>

definition demo_stage :: stage_definition where
  "demo_stage = hd (wd_stages def_override_approval)"

definition demo_subject :: subject_entity where
  "demo_subject = \<lparr> se_entity_type = ''override'', se_entity_id = ''ov-1'', se_scope_type = None, se_scope_id = None,
     se_metadata = [] \<rparr>"

definition demo_ctx :: "string \<Rightarrow> string \<Rightarrow> string list \<Rightarrow> tenant_context" where
  "demo_ctx tenant user roles = \<lparr> tc_tenant_id = tenant, tc_user_id = user, tc_roles = roles, tc_correlation_id = None,
     tc_is_superuser = False \<rparr>"

definition demo_rule :: delegation_rule where
  "demo_rule = \<lparr> dr_id = ''del-1'', dr_tenant_id = ''t1'', dr_original_approver_id = ''sec-lead'',
     dr_delegate_approver_id = ''deputy'', dr_start_date = 0, dr_end_date = 100, dr_request_types = [],
     dr_reason = ''leave'', dr_is_active = True \<rparr>"

definition demo_directory :: resolver_state where
  "demo_directory = \<lparr> rs_role_memberships = [], rs_out_of_office = [(''sec-lead'', True)] \<rparr>"

definition demo_resolved :: resolved_approvers where
  "demo_resolved =
     \<lparr> ra_primary_approvers = [''t1-security-lead'', ''sec-lead'', ''user-security-lead''],
       ra_effective_approvers = [''t1-security-lead'', ''sec-lead'', ''user-security-lead'', ''deputy''],
       ra_delegation_map = [(''deputy'', demo_rule)], ra_unavailable = [] \<rparr>"

lemma demo_resolve:
  "resolve_approvers (\<lambda>_ _ _. None) ''r1'' demo_stage demo_subject (demo_ctx ''t1'' ''deputy'' []) [demo_rule] 50
     (Some ''OVERRIDE_APPROVAL'') demo_directory = (Inr demo_resolved, demo_directory)"
  by code_simp

theorem authority_is_primary_or_delegated_witness:
  "is_authorized demo_resolved ''deputy'' \<and> get_delegation_for demo_resolved ''deputy'' = Some demo_rule"
proof -
  have "rule_applies demo_directory (sd_approver_spec demo_stage) (tc_tenant_id (demo_ctx ''t1'' ''deputy'' [])) 50
          (Some ''OVERRIDE_APPROVAL'') (ra_primary_approvers demo_resolved) demo_rule"
    "dr_delegate_approver_id demo_rule = ''deputy''"
    by code_simp+
  then show ?thesis using authority_is_primary_or_delegated[OF demo_resolve, of "''deputy''"] by simp
qed

lemma get_users_nonempty:
  assumes "list_all (\<lambda>(k, us). us \<noteq> []) (rs_role_memberships rs)" and "dict_get (default_role_users t) (upper role) \<noteq> None"
  shows "get_users_by_role rs role t \<noteq> []"
proof -
  have "us \<noteq> []" if "dict_get (rs_role_memberships rs) key = Some us" for key us
    using assms(1) map_of_SomeD[OF that[unfolded dict_get_def]] by (auto simp: list_all_iff)
  moreover have "us \<noteq> []" if "dict_get (default_role_users t) r = Some us" for r us
    using map_of_SomeD[OF that[unfolded dict_get_def]] by (auto simp: default_role_users_def)
  ultimately show ?thesis
    using assms(2) by (auto simp: get_users_by_role_def role_key_def split: option.splits if_splits)
qed

lemma memberships_nonempty_append:
  assumes "list_all (\<lambda>(k, us). us \<noteq> []) (rs_role_memberships rs)"
  shows "list_all (\<lambda>(k, us). us \<noteq> []) (rs_role_memberships (append_role_user rs role t u))"
proof -
  have "list_all (\<lambda>(k, us). us \<noteq> []) (dict_set d key (vs @ [u]))" if "list_all (\<lambda>(k, us). us \<noteq> []) d"
    for key :: "string \<times> string" and vs and d
    using that by (induction d) auto
  with assms show ?thesis by (simp add: append_role_user_def split: option.split)
qed

definition has_default_fallback :: "stage_definition \<Rightarrow> bool" where
  "has_default_fallback sd \<longleftrightarrow>
     dict_get (default_role_users []) (upper (sp_fallback_role (sd_approver_spec sd))) \<noteq> None"

lemma default_role_users_dom: "(dict_get (default_role_users t) r \<noteq> None) = (dict_get (default_role_users []) r \<noteq> None)"
  by (simp add: default_role_users_def)

lemma default_stages_have_fallback:
  "list_all (\<lambda>(k, d). wd_stages d \<noteq> [] \<and> list_all has_default_fallback (wd_stages d) \<and> definition_ok d)
     DEFAULT_WORKFLOW_DEFINITIONS"
  by code_simp

definition directory_ok :: "resolver_state \<Rightarrow> bool" where
  "directory_ok rs \<longleftrightarrow> list_all (\<lambda>(k, us). us \<noteq> []) (rs_role_memberships rs)"

lemma resolve_directory_ok: "directory_ok rs \<Longrightarrow> directory_ok (snd (resolve_approvers md i sd se tc ds now rt rs))"
  using resolve_directory[of md i sd se tc ds now rt rs] memberships_nonempty_append by (auto simp: directory_ok_def)

lemma fallback_stage_resolves:
  assumes "directory_ok rs" and fb: "has_default_fallback sd"
  shows "\<exists>res. fst (resolve_approvers md i sd se tc ds now rt rs) = Inr res \<and> ra_effective_approvers res \<noteq> []"
proof -
  let ?spec = "sd_approver_spec sd"
  obtain r rs' where r: "resolve_approvers md i sd se tc ds now rt rs = (r, rs')" by (cases "resolve_approvers md i sd se tc ds now rt rs")
  have ne: "list_all (\<lambda>(k, us). us \<noteq> []) (rs_role_memberships rs')"
    using resolve_directory_ok[OF assms(1), of md i sd se tc ds now rt] r by (simp add: directory_ok_def)
  from fb have "get_users_by_role rs' (sp_fallback_role ?spec) (tc_tenant_id tc) \<noteq> []"
    using get_users_nonempty[OF ne] default_role_users_dom unfolding has_default_fallback_def by blast
  moreover from fb have "sp_fallback_role ?spec \<noteq> []"
    by (auto simp: has_default_fallback_def default_role_users_def upper_def)
  ultimately show ?thesis
    using r resolve_Inl[of md i sd se tc ds now rt rs _ rs'] resolve_Inr(1,3)[of md i sd se tc ds now rt rs _ rs']
    by (cases r) (auto simp: with_fallback_empty)
qed

text \<open>
  No request of a default type is stranded: as long as no role is registered with an empty list of
  members, every stage of every default definition resolves, for every subject and every caller.
\<close>

theorem default_stages_resolve:
  assumes "directory_ok rs"
    and "get_default_workflow_definition_by_type DEFAULT_WORKFLOW_DEFINITIONS request_type = Some d"
    and "sd \<in> set (wd_stages d)"
  shows "\<exists>res. fst (resolve_approvers md i sd se tc ds now rt rs) = Inr res \<and> ra_effective_approvers res \<noteq> []"
proof -
  have "has_default_fallback sd"
    using default_stages_have_fallback assms(2,3) unfolding get_default_workflow_definition_by_type_def dict_get_def
    by (auto simp: list_all_iff dest!: map_of_SomeD)
  with assms(1) show ?thesis by (rule fallback_stage_resolves)
qed

theorem default_stages_resolve_witness:
  "\<exists>res. fst (resolve_approvers (\<lambda>_ _ _. None) ''r1'' (wd_stages def_budget_approval ! 1) demo_subject
      (demo_ctx ''t1'' ''u'' []) [] 50 None demo_directory) = Inr res \<and> ra_effective_approvers res \<noteq> []"
  by (rule default_stages_resolve[where request_type = "'' budget_approval ''" and d = def_budget_approval]) code_simp+

text \<open>
  A role list registered for all tenants is shared by reference: when a user of one tenant who
  claims the role resolves a stage of it, the user is appended to the shared list, and from then on is an
  authorised approver of that role's stages in every other tenant that has no list of its own.
\<close>

theorem shared_role_list_leaks_across_tenants:
  assumes "sp_resolution_type (sd_approver_spec sd) = ROLE" and "sp_target_role (sd_approver_spec sd) = Some role"
    and "role \<noteq> []" and "sp_explicit_approvers (sd_approver_spec sd) = []"
    and "role \<in> set (tc_roles tc)"
    and "dict_get (rs_role_memberships rs) (''*'', upper role) = Some us" and "tc_user_id tc \<notin> set us"
    and "dict_get (rs_role_memberships rs) (tc_tenant_id tc, upper role) = None"
    and "dict_get (rs_role_memberships rs) (tc_tenant_id tc2, upper role) = None"
  shows "\<exists>res. fst (resolve_approvers md i2 sd se2 tc2 ds2 now2 rt2
                  (snd (resolve_approvers md i sd se tc ds now rt rs))) = Inr res
               \<and> is_authorized res (tc_user_id tc)"
proof -
  let ?rs = "append_role_user rs role (tc_tenant_id tc) (tc_user_id tc)"
  have key: "role_key rs role (tc_tenant_id tc) = Some (''*'', upper role)" "role_key rs role (tc_tenant_id tc2) = Some (''*'', upper role)"
    using assms(6,8,9) by (simp_all add: role_key_def)
  have "snd (resolve_approvers md i sd se tc ds now rt rs) = ?rs"
    using assms key by (simp add: resolve_approvers_def Let_def primary_candidates_def role_candidates_def get_users_by_role_def)
  moreover have users: "get_users_by_role ?rs role (tc_tenant_id tc2) = us @ [tc_user_id tc]"
    using key assms(6) by (simp add: get_users_by_role_def role_key_append memberships_append)
  then have "\<exists>cs. fst (primary_candidates md (sd_approver_spec sd) se2 tc2 ?rs) = (us @ [tc_user_id tc]) @ cs"
    using assms(1-4) by (auto simp: primary_candidates_def role_candidates_def Let_def)
  ultimately show ?thesis
    using resolve_Inl[of md i2 sd se2 tc2 ds2 now2 rt2 ?rs] resolve_Inr(2)[of md i2 sd se2 tc2 ds2 now2 rt2 ?rs]
    by (cases "resolve_approvers md i2 sd se2 tc2 ds2 now2 rt2 ?rs"; cases "fst (resolve_approvers md i2 sd se2 tc2 ds2 now2 rt2 ?rs)")
      (auto simp: with_fallback_def Let_def is_authorized_def)
qed

theorem shared_role_list_leaks_across_tenants_witness:
  "\<exists>res. fst (resolve_approvers (\<lambda>_ _ _. None) ''r2'' demo_stage demo_subject (demo_ctx ''t2'' ''bob'' []) [] 60 None
            (snd (resolve_approvers (\<lambda>_ _ _. None) ''r1'' demo_stage demo_subject (demo_ctx ''t1'' ''mallory'' [''SECURITY_ADMIN'']) [] 50 None
              (register_role_members ''*'' ''SECURITY_ADMIN'' [''alice''] demo_directory)))) = Inr res
         \<and> is_authorized res ''mallory''"
proof -
  let ?rs = "register_role_members ''*'' ''SECURITY_ADMIN'' [''alice''] demo_directory"
  have "sp_resolution_type (sd_approver_spec demo_stage) = ROLE" "sp_target_role (sd_approver_spec demo_stage) = Some ''SECURITY_ADMIN''"
    "sp_explicit_approvers (sd_approver_spec demo_stage) = []"
    "dict_get (rs_role_memberships ?rs) (''*'', upper ''SECURITY_ADMIN'') = Some [''alice'']"
    "dict_get (rs_role_memberships ?rs) (''t1'', upper ''SECURITY_ADMIN'') = None"
    "dict_get (rs_role_memberships ?rs) (''t2'', upper ''SECURITY_ADMIN'') = None"
    by code_simp+
  then show ?thesis
    using shared_role_list_leaks_across_tenants[of demo_stage "''SECURITY_ADMIN''" "demo_ctx ''t1'' ''mallory'' [''SECURITY_ADMIN'']"
        ?rs "[''alice'']" "demo_ctx ''t2'' ''bob'' []"]
    by (simp add: demo_ctx_def)
qed

end
