(* ===== verification/Workflow_Repository.thy ===== *)
theory Workflow_Repository
  imports Workflow_Models
begin

text \<open>
  \<open>SqlWorkflowRepository\<close> (\<open>domain/workflows/repository.py\<close>): the three tables as lists of rows.

  A request row has the columns the statements filter on beside the serialised request; saving an
  existing id rewrites the state and the request only, as the \<open>ON CONFLICT\<close> clause does. A read
  returns a fresh object, so later changes to it are not in the table until it is saved.
  The tenant of the session is the caller's.
\<close>

section \<open>Requests\<close>

record request_row =
  rw_id :: string
  rw_tenant_id :: string
  rw_request_type :: string
  rw_state :: wf_state
  rw_requester_id :: string
  rw_created_at :: int
  rw_request :: workflow_request

type_synonym request_table = "request_row list"

definition row_at :: "request_table \<Rightarrow> string \<Rightarrow> string \<Rightarrow> request_row option" where
  "row_at t tenant i = find (\<lambda>row. rw_id row = i \<and> rw_tenant_id row = tenant) t"

definition wf_get :: "request_table \<Rightarrow> string \<Rightarrow> string \<Rightarrow> workflow_request option" where
  "wf_get t tenant i = map_option rw_request (row_at t tenant i)"

definition wf_exists :: "request_table \<Rightarrow> string \<Rightarrow> string \<Rightarrow> bool" where
  "wf_exists t tenant i \<longleftrightarrow> row_at t tenant i \<noteq> None"

definition new_row :: "string \<Rightarrow> workflow_request \<Rightarrow> request_row" where
  "new_row tenant r =
     \<lparr> rw_id = wr_id r, rw_tenant_id = tenant, rw_request_type = wr_request_type r, rw_state = wr_state r,
       rw_requester_id = wr_requester_id r, rw_created_at = wr_created_at r, rw_request = r \<rparr>"

definition wf_save :: "request_table \<Rightarrow> string \<Rightarrow> workflow_request \<Rightarrow> workflow_request \<times> request_table" where
  "wf_save t tenant r0 =
     (let r = r0\<lparr>wr_tenant_id := tenant\<rparr> in
      (r, if list_ex (\<lambda>row. rw_id row = wr_id r) t
          then map (\<lambda>row. if rw_id row = wr_id r then row\<lparr>rw_state := wr_state r, rw_request := r\<rparr> else row) t
          else t @ [new_row tenant r]))"

text \<open>The filters of \<open>list\<close>; an absent or empty filter does not restrict.\<close>

record request_filter =
  fp_state :: "wf_state option"
  fp_request_type :: "string option"
  fp_requester_id :: "string option"

definition no_filter :: request_filter where
  "no_filter = \<lparr> fp_state = None, fp_request_type = None, fp_requester_id = None \<rparr>"

definition row_matches :: "string \<Rightarrow> request_filter \<Rightarrow> request_row \<Rightarrow> bool" where
  "row_matches tenant fp row \<longleftrightarrow> rw_tenant_id row = tenant
     \<and> (case fp_state fp of None \<Rightarrow> True | Some st \<Rightarrow> rw_state row = st)
     \<and> (truthy (fp_request_type fp) \<longrightarrow> Some (rw_request_type row) = fp_request_type fp)
     \<and> (truthy (fp_requester_id fp) \<longrightarrow> Some (rw_requester_id row) = fp_requester_id fp)"

definition wf_list :: "request_table \<Rightarrow> string \<Rightarrow> request_filter \<Rightarrow> nat \<Rightarrow> nat \<Rightarrow> workflow_request list" where
  "wf_list t tenant fp limit offset =
     map rw_request (take limit (drop offset (sort_key (\<lambda>row. - rw_created_at row) (filter (row_matches tenant fp) t))))"

definition wf_delete :: "request_table \<Rightarrow> string \<Rightarrow> string \<Rightarrow> bool \<times> request_table" where
  "wf_delete t tenant i =
     (wf_exists t tenant i, filter (\<lambda>row. \<not> (rw_id row = i \<and> rw_tenant_id row = tenant)) t)"

section \<open>Definitions\<close>

record definition_row =
  dw_id :: string
  dw_tenant_id :: string
  dw_request_type :: string
  dw_definition :: workflow_definition

definition save_definition :: "definition_row list \<Rightarrow> string \<Rightarrow> workflow_definition \<Rightarrow> definition_row list" where
  "save_definition t tenant d =
     (if list_ex (\<lambda>row. dw_id row = wd_id d) t
      then map (\<lambda>row. if dw_id row = wd_id d then row\<lparr>dw_definition := d\<rparr> else row) t
      else t @ [\<lparr> dw_id = wd_id d, dw_tenant_id = tenant, dw_request_type = wd_request_type d, dw_definition = d \<rparr>])"

text \<open>
  \<open>get_definition\<close>: a row of the tenant or the system, by id or by type, then the defaults in order. The
  second component is the catalogue key when the default object itself is returned.
\<close>

definition get_definition :: "definition_row list \<Rightarrow> (string, workflow_definition) dict \<Rightarrow> string \<Rightarrow> string
    \<Rightarrow> (workflow_definition \<times> string option) option" where
  "get_definition t defaults tenant def_id =
     (case find (\<lambda>row. (dw_id row = def_id \<or> upper (dw_request_type row) = upper def_id)
                      \<and> (dw_tenant_id row = tenant \<or> dw_tenant_id row = ''SYSTEM'')) t of
        Some row \<Rightarrow> Some (dw_definition row, None)
      | None \<Rightarrow> map_option (\<lambda>(key, d). (d, Some key))
                  (find (\<lambda>(key, d). wd_id d = def_id \<or> upper (wd_request_type d) = upper def_id) defaults))"

definition list_definitions :: "definition_row list \<Rightarrow> (string, workflow_definition) dict \<Rightarrow> string
    \<Rightarrow> workflow_definition list" where
  "list_definitions t defaults tenant =
     dict_values (fold (\<lambda>row m. dict_set m (wd_id (dw_definition row)) (dw_definition row))
       (filter (\<lambda>row. dw_tenant_id row = tenant \<or> dw_tenant_id row = ''SYSTEM'') t)
       (fold (\<lambda>(k, d) m. dict_set m (wd_id d) d) defaults []))"

section \<open>Delegations\<close>

record delegation_row =
  lw_id :: string
  lw_tenant_id :: string
  lw_delegator_id :: string
  lw_delegatee_id :: string
  lw_created_at :: int
  lw_rule :: delegation_rule

text \<open>
  \<open>save_delegation\<close> reads \<open>delegation.delegator_id\<close> to fill the statement's parameters; the model
  class has no such attribute, so the access raises before the statement is executed.
\<close>

datatype delegation_error = DelegationAttributeError string

definition save_delegation :: "delegation_row list \<Rightarrow> string \<Rightarrow> delegation_rule
    \<Rightarrow> (delegation_error + delegation_rule) \<times> delegation_row list" where
  "save_delegation t tenant d = (Inl (DelegationAttributeError ''delegator_id''), t)"

definition get_delegation :: "delegation_row list \<Rightarrow> string \<Rightarrow> string \<Rightarrow> delegation_rule option" where
  "get_delegation t tenant i = map_option lw_rule (find (\<lambda>row. lw_id row = i \<and> lw_tenant_id row = tenant) t)"

definition list_delegations :: "delegation_row list \<Rightarrow> string \<Rightarrow> string option \<Rightarrow> string option \<Rightarrow> string option
    \<Rightarrow> delegation_rule list" where
  "list_delegations t tenant delegator delegatee user =
     (let eff = or_else delegator user in
      map lw_rule (sort_key (\<lambda>row. - lw_created_at row)
        (filter (\<lambda>row. lw_tenant_id row = tenant
           \<and> (truthy eff \<longrightarrow> Some (lw_delegator_id row) = eff)
           \<and> (truthy delegatee \<longrightarrow> Some (lw_delegatee_id row) = delegatee)) t)))"

definition delete_delegation :: "delegation_row list \<Rightarrow> string \<Rightarrow> string \<Rightarrow> bool \<times> delegation_row list" where
  "delete_delegation t tenant i =
     (list_ex (\<lambda>row. lw_id row = i \<and> lw_tenant_id row = tenant) t,
      filter (\<lambda>row. \<not> (lw_id row = i \<and> lw_tenant_id row = tenant)) t)"

section \<open>The table invariant\<close>

definition row_ok :: "request_row \<Rightarrow> bool" where
  "row_ok row \<longleftrightarrow> (let r = rw_request row in
     rw_id row = wr_id r \<and> rw_tenant_id row = wr_tenant_id r \<and> rw_request_type row = wr_request_type r
     \<and> rw_state row = wr_state r \<and> rw_requester_id row = wr_requester_id r \<and> rw_created_at row = wr_created_at r)"

definition table_ok :: "request_table \<Rightarrow> bool" where
  "table_ok t \<longleftrightarrow> distinct (map rw_id t) \<and> list_all row_ok t"

text \<open>What a save needs to know of the request: it is new, or it is the stored one with other contents.\<close>

definition saveable :: "request_table \<Rightarrow> string \<Rightarrow> workflow_request \<Rightarrow> bool" where
  "saveable t tenant r \<longleftrightarrow>
     (case wf_get t tenant (wr_id r) of
        None \<Rightarrow> \<not> list_ex (\<lambda>row. rw_id row = wr_id r) t
      | Some r0 \<Rightarrow> wr_request_type r = wr_request_type r0 \<and> wr_requester_id r = wr_requester_id r0
                 \<and> wr_created_at r = wr_created_at r0)"

lemma table_okD: "table_ok t \<Longrightarrow> row \<in> set t \<Longrightarrow> row_ok row"
  by (simp add: table_ok_def list_all_iff)

lemma row_at_iff:
  "table_ok t \<Longrightarrow> row_at t tenant i = Some row \<longleftrightarrow> row \<in> set t \<and> rw_id row = i \<and> rw_tenant_id row = tenant"
proof
  assume "table_ok t" and r: "row \<in> set t \<and> rw_id row = i \<and> rw_tenant_id row = tenant"
  then obtain row' where "row_at t tenant i = Some row'" by (cases "row_at t tenant i") (auto simp: row_at_def find_None_iff)
  moreover from this have "row' \<in> set t" "rw_id row' = i" by (auto simp: row_at_def dest: find_SomeD)
  ultimately show "row_at t tenant i = Some row"
    using r \<open>table_ok t\<close> by (auto simp: table_ok_def distinct_map inj_on_def)
qed (auto simp: row_at_def dest: find_SomeD)

lemma wf_get_iff:
  "table_ok t \<Longrightarrow> wf_get t tenant i = Some r \<longleftrightarrow>
     (\<exists>row \<in> set t. rw_request row = r \<and> wr_id r = i \<and> wr_tenant_id r = tenant)"
  using table_okD[of t] by (fastforce simp: wf_get_def row_at_iff row_ok_def Let_def)

lemma wf_get_ident: "table_ok t \<Longrightarrow> wf_get t tenant i = Some r \<Longrightarrow> wr_id r = i \<and> wr_tenant_id r = tenant"
  by (auto simp: wf_get_iff)

lemma row_by_id: "table_ok t \<Longrightarrow> row \<in> set t \<Longrightarrow> row' \<in> set t \<Longrightarrow> rw_id row = rw_id row' \<Longrightarrow> row = row'"
  by (auto simp: table_ok_def distinct_map inj_on_def)

text \<open>A save of a stored request rewrites its one row; a save of a new one appends.\<close>

lemma wf_save_table:
  assumes "table_ok t" and "saveable t tenant r"
  shows "set (snd (wf_save t tenant r)) =
           {row \<in> set t. rw_id row \<noteq> wr_id r} \<union> {new_row tenant (r\<lparr>wr_tenant_id := tenant\<rparr>)}"
    and "table_ok (snd (wf_save t tenant r))"
proof -
  let ?r = "r\<lparr>wr_tenant_id := tenant\<rparr>"
  let ?upd = "\<lambda>row. if rw_id row = wr_id r then row\<lparr>rw_state := wr_state r, rw_request := ?r\<rparr> else row"
  show set: "set (snd (wf_save t tenant r)) =
           {row \<in> set t. rw_id row \<noteq> wr_id r} \<union> {new_row tenant ?r}"
  proof (cases "wf_get t tenant (wr_id r)")
    case None
    then show ?thesis using assms(2) by (auto simp: wf_save_def Let_def saveable_def list_ex_iff)
  next
    case (Some r0)
    then obtain row where row: "row \<in> set t" "rw_request row = r0" "wr_id r0 = wr_id r" "wr_tenant_id r0 = tenant"
      using wf_get_iff[OF assms(1)] by blast
    moreover have "row_ok row" using assms(1) row(1) by (rule table_okD)
    ultimately have "?upd row = new_row tenant ?r" and id: "rw_id row = wr_id r"
      using assms(2) Some by (auto simp: saveable_def new_row_def row_ok_def Let_def intro!: request_row.equality)
    moreover have "?upd row' = ?upd row" if "row' \<in> set t" "rw_id row' = wr_id r" for row'
      using row_by_id[OF assms(1) that(1) row(1)] that(2) id by simp
    ultimately show ?thesis
      using row(1) by (auto simp: wf_save_def Let_def list_ex_iff image_iff)
  qed
  have "distinct (map rw_id (snd (wf_save t tenant r)))"
  proof -
    have ids: "map rw_id (map ?upd t') = map rw_id t'" for t' by (induction t') auto
    have d: "distinct (map rw_id t)" using assms(1) by (simp add: table_ok_def)
    have "snd (wf_save t tenant r) = (if list_ex (\<lambda>row. rw_id row = wr_id r) t then map ?upd t else t @ [new_row tenant ?r])"
      by (simp add: wf_save_def Let_def)
    moreover have "distinct (map rw_id (map ?upd t))" unfolding ids by (rule d)
    ultimately show ?thesis using d by (simp del: map_map add: new_row_def list_ex_iff image_iff) metis
  qed
  then show "table_ok (snd (wf_save t tenant r))"
    using assms(1) set by (auto simp: table_ok_def list_all_iff row_ok_def new_row_def Let_def)
qed

section \<open>The store the service relies on\<close>

definition wf_put :: "request_table \<Rightarrow> string \<Rightarrow> workflow_request \<Rightarrow> request_table" where
  "wf_put t tenant r = snd (wf_save t tenant r)"

lemma wf_get_put:
  assumes "table_ok t" and "saveable t tn r"
  shows "wf_get (wf_put t tn r) tn' i = (if i = wr_id r \<and> tn' = tn then Some (r\<lparr>wr_tenant_id := tn\<rparr>) else wf_get t tn' i)"
proof -
  have ok: "table_ok (wf_put t tn r)" unfolding wf_put_def using assms by (rule wf_save_table(2))
  have "wf_get (wf_put t tn r) tn' i = Some x \<longleftrightarrow>
      (if i = wr_id r \<and> tn' = tn then x = r\<lparr>wr_tenant_id := tn\<rparr> else wf_get t tn' i = Some x)" for x
  proof -
    have no_other: "tn' = tn" if g: "wf_get t tn' (wr_id r) = Some y" for y
    proof -
      obtain row where row: "row \<in> set t" "rw_id row = wr_id r" "rw_tenant_id row = tn'"
        using g by (auto simp: wf_get_def row_at_iff[OF assms(1)])
      then have "wf_get t tn (wr_id r) \<noteq> None" using assms(2) by (auto simp: saveable_def list_ex_iff split: option.splits)
      then obtain row' where "row' \<in> set t" "rw_id row' = wr_id r" "rw_tenant_id row' = tn"
        by (auto simp: wf_get_def row_at_iff[OF assms(1)])
      then show ?thesis using row_by_id[OF assms(1)] row by metis
    qed
    have rows: "rw_id row = wr_id (rw_request row)" if "row \<in> set t" for row
      using table_okD[OF assms(1) that] by (simp add: row_ok_def Let_def)
    show ?thesis
    proof (cases "i = wr_id r")
      case True
      have "wf_get (wf_put t tn r) tn' i = Some x \<longleftrightarrow> x = r\<lparr>wr_tenant_id := tn\<rparr> \<and> tn' = tn"
        unfolding wf_get_iff[OF ok] unfolding wf_put_def wf_save_table(1)[OF assms]
        using True rows by (auto simp: new_row_def)
      then show ?thesis using True no_other by auto
    next
      case False
      then show ?thesis
        unfolding wf_get_iff[OF ok] wf_get_iff[OF assms(1)] unfolding wf_put_def wf_save_table(1)[OF assms]
        using rows by (auto simp: new_row_def)
    qed
  qed
  then show ?thesis by (metis option.exhaust)
qed

lemma saveable_cong:
  "table_ok t \<Longrightarrow> table_ok t' \<Longrightarrow> wf_get t tn (wr_id r) = Some r0 \<Longrightarrow> wf_get t' tn (wr_id r) = Some r0
   \<Longrightarrow> saveable t tn r \<Longrightarrow> saveable t' tn r"
  by (simp add: saveable_def)

interpretation requests: tenant_store wf_get wf_put wr_id "\<lambda>tn r. r\<lparr>wr_tenant_id := tn\<rparr>" table_ok saveable
proof
  show "wf_get (wf_put t tn r) tn' i = (if i = wr_id r \<and> tn' = tn then Some (r\<lparr>wr_tenant_id := tn\<rparr>) else wf_get t tn' i)"
    if "table_ok t" "saveable t tn r" for t tn r tn' i using that by (rule wf_get_put)
  show "table_ok (wf_put t tn r)" if "table_ok t" "saveable t tn r" for t tn r
    using wf_save_table(2)[OF that] by (simp add: wf_put_def)
  show "saveable t' tn r" if "table_ok t" "table_ok t'" "wf_get t tn (wr_id r) = Some r0" "wf_get t' tn (wr_id r) = Some r0"
    "saveable t tn r" for t t' tn r r0 using that by (rule saveable_cong)
qed

lemma wf_list_stored:
  "table_ok t \<Longrightarrow> r \<in> set (wf_list t tn fp limit offset) \<Longrightarrow> wf_get t tn (wr_id r) = Some r"
  using table_okD[of t]
  by (fastforce simp: wf_list_def wf_get_iff row_matches_def row_ok_def Let_def dest!: in_set_takeD in_set_dropD)

lemma distinct_wf_list: "table_ok t \<Longrightarrow> distinct (map wr_id (wf_list t tn fp limit offset))"
proof -
  assume ok: "table_ok t"
  let ?rows = "sort_key (\<lambda>row. - rw_created_at row) (filter (row_matches tn fp) t)"
  have "distinct (map rw_id (filter (row_matches tn fp) t))" using ok by (simp add: table_ok_def distinct_map_filter)
  then have "distinct (map rw_id ?rows)" by (auto simp: distinct_map inj_on_def)
  then have "distinct (map rw_id (take limit (drop offset ?rows)))" by (simp add: drop_map[symmetric] take_map[symmetric])
  moreover have "map wr_id (wf_list t tn fp limit offset) = map rw_id (take limit (drop offset ?rows))"
    using table_okD[OF ok] by (auto simp: wf_list_def row_ok_def Let_def dest!: in_set_takeD in_set_dropD)
  ultimately show ?thesis by simp
qed

text \<open>A listing within its limit has every request of the tenant that passes the filter.\<close>

lemma wf_list_complete:
  "length (filter (row_matches tn fp) t) \<le> limit \<Longrightarrow>
   set (wf_list t tn fp limit 0) = rw_request ` {row \<in> set t. row_matches tn fp row}"
  by (auto simp: wf_list_def)

lemmas store_simps = requests.get_save requests.valid_save

end
