(* ===== verification/Workflows.thy ===== *)
theory Workflows
  imports Working_Hours Approvers Workflow_Repository
begin

text \<open>
  \<open>WorkflowService\<close> (\<open>domain/workflows/service.py\<close>) over the repository, the resolver, the SLA engine and
  the applier registry (\<open>domain/workflows/appliers.py\<close>): submission, decisions, application on approval,
  withdrawal, delegation, escalation, expiry and the inbox.

  The working schedules, the master data and the floats strings denote are arguments (\<open>wf_env\<close>). The clock
  readings, the random part of a new identifier and what a registered applier does (nothing, or the text of
  the exception it raises) are arguments of the call (\<open>call\<close>). Audit events are a log of the calls to
  \<open>append_event\<close>, whose failures the service swallows.
\<close>

section \<open>State and environment\<close>

record wf_env =
  we_parse_float :: "string \<Rightarrow> rat option"
  we_master_data :: master_data
  we_schedule :: "string \<Rightarrow> string \<Rightarrow> work_schedule"

record call =
  cl_now :: int
  cl_apply_now :: int
  cl_uid :: string
  cl_apply_error :: "string option"

record wf_audit =
  wa_event_type :: string
  wa_actor_id :: string
  wa_action :: string
  wa_resource_id :: string
  wa_tenant_id :: string

record wf_system =
  ws_requests :: request_table
  ws_definitions :: "definition_row list"
  ws_delegations :: "delegation_row list"
  ws_defaults :: "(string, workflow_definition) dict"
  ws_resolver :: resolver_state
  ws_appliers :: "string list"
  ws_audit :: "wf_audit list"

datatype wf_error =
    WorkflowDefinitionNotFoundException string
  | WorkflowNotFoundException string
  | WorkflowAlreadyFinalizedException string wf_state
  | InvalidWorkflowTransitionException string wf_state string
  | UnauthorizedApproverException string string string
  | WorkflowMandatoryCommentException string
  | Unresolvable resolve_error
  | Not_a_float float_error
  | Missing_tenant_context
  | List_index_error
  | Delegation_dates
  | Delegation_not_saved delegation_error

definition record_audit :: "string \<Rightarrow> string \<Rightarrow> string \<Rightarrow> string \<Rightarrow> string \<Rightarrow> wf_system \<Rightarrow> wf_system" where
  "record_audit etype actor action resource tenant s =
     s\<lparr>ws_audit := ws_audit s @ [\<lparr> wa_event_type = etype, wa_actor_id = actor, wa_action = action,
        wa_resource_id = resource, wa_tenant_id = tenant \<rparr>]\<rparr>"

definition save_request :: "string \<Rightarrow> workflow_request \<Rightarrow> wf_system \<Rightarrow> (wf_error + workflow_request) \<times> wf_system" where
  "save_request tenant r s =
     (let (r', t) = wf_save (ws_requests s) tenant r in (Inr r', s\<lparr>ws_requests := t\<rparr>))"

text \<open>The governing definition: the repository's, else the catalogue's; with the key of the default object.\<close>

definition find_definition :: "wf_system \<Rightarrow> string \<Rightarrow> string \<Rightarrow> (workflow_definition \<times> string option) option" where
  "find_definition s tenant request_type =
     (case get_definition (ws_definitions s) (ws_defaults s) tenant request_type of
        Some d \<Rightarrow> Some d
      | None \<Rightarrow> map_option (\<lambda>d. (d, Some (upper (strip request_type))))
                  (get_default_workflow_definition_by_type (ws_defaults s) request_type))"

definition finalized :: "wf_state \<Rightarrow> bool" where
  "finalized st \<longleftrightarrow> st \<in> {APPROVED, REJECTED, WITHDRAWN, EXPIRED, APPLIED}"

section \<open>Application of an approved request\<close>

text \<open>\<open>WorkflowApplierRegistry.apply\<close>: the text of the exception, if any.\<close>

definition register_applier :: "string \<Rightarrow> wf_system \<Rightarrow> wf_system" where
  "register_applier request_type s =
     s\<lparr>ws_appliers := (if upper (strip request_type) \<in> set (ws_appliers s) then ws_appliers s
                       else ws_appliers s @ [upper (strip request_type)])\<rparr>"

definition registry_apply :: "string list \<Rightarrow> workflow_request \<Rightarrow> string option \<Rightarrow> string option" where
  "registry_apply appliers r raised =
     (if upper (strip (wr_request_type r)) \<in> set appliers
      then map_option (\<lambda>e. ''Failed to apply approved change for workflow '' @ [CHR 0x27] @ wr_id r @ [CHR 0x27] @ '': '' @ e) raised
      else None)"

definition apply_approved_request :: "string \<Rightarrow> string \<Rightarrow> call \<Rightarrow> workflow_request \<Rightarrow> wf_system
    \<Rightarrow> workflow_request \<times> wf_system" where
  "apply_approved_request actor tenant c r s =
     (case registry_apply (ws_appliers s) r (cl_apply_error c) of
        None \<Rightarrow>
          (add_history actor ''APPLY'' (Some APPROVED) (Some APPLIED) None
             (r\<lparr>wr_state := APPLIED, wr_applied_at := Some (cl_apply_now c), wr_applied_by := Some actor,
               wr_error_message := None\<rparr>),
           record_audit ''WORKFLOW_REQUEST_APPLIED'' actor ''WORKFLOW_APPLIED'' (wr_id r) tenant s)
      | Some e \<Rightarrow>
          (add_history ''system'' ''APPLICATION_FAILED'' (Some APPROVED) (Some IN_REVIEW) None
             (r\<lparr>wr_state := IN_REVIEW, wr_error_message := Some (''Application failed: '' @ e)\<rparr>),
           record_audit ''WORKFLOW_APPLICATION_FAILED'' actor ''WORKFLOW_APPLICATION_FAILED'' (wr_id r) tenant s))"

section \<open>Submission\<close>

definition runtime_stage :: "stage_definition \<Rightarrow> workflow_stage" where
  "runtime_stage sd =
     \<lparr> st_stage_id = sd_stage_id sd, st_name = sd_name sd, st_sequence_order = sd_sequence_order sd,
       st_mode = sd_mode sd, st_quorum = sd_quorum sd, st_approver_spec = sd_approver_spec sd,
       st_assigned_approvers = [], st_status = PENDING, st_decisions = [] \<rparr>"

definition new_request :: "wf_env \<Rightarrow> tenant_context \<Rightarrow> submit_dto \<Rightarrow> call \<Rightarrow> workflow_definition \<Rightarrow> workflow_request" where
  "new_request env tc dto c d =
     (let tenant = tc_tenant_id tc; now = cl_now c; ws = we_schedule env (wd_working_schedule_id d) tenant in
      \<lparr> wr_id = ''wf-req-'' @ take 8 tenant @ ''-'' @ cl_uid c, wr_tenant_id = tenant, wr_definition_id = Some (wd_id d),
        wr_request_type = sr_request_type dto, wr_title = sr_title dto, wr_subject_entity = sr_subject_entity dto,
        wr_requester_id = tc_user_id tc, wr_justification = sr_justification dto, wr_payload = sr_payload dto,
        wr_previous_values = sr_previous_values dto, wr_financial_impact = sr_financial_impact dto,
        wr_state = SUBMITTED, wr_current_stage_index = 0, wr_stages = map runtime_stage (wd_stages d),
        wr_created_at = now, wr_submitted_at = Some now,
        wr_due_date = Some (calculate_due_date ws now (wd_sla_working_hours d)),
        wr_sla_working_hours = wd_sla_working_hours d, wr_working_schedule_id = wd_working_schedule_id d,
        wr_sla_breached = False, wr_escalation_path = wd_escalation_path d,
        wr_escalation_due_at = Some (calculate_due_date ws now (ep_escalate_after_hours (wd_escalation_path d))),
        wr_is_escalated = False, wr_history = [], wr_error_message = None, wr_applied_at = None, wr_applied_by = None \<rparr>)"

definition escalate_path :: "int \<Rightarrow> escalation_path \<Rightarrow> escalation_path" where
  "escalate_path now ep =
     ep\<lparr>ep_is_escalated := True, ep_escalated_at := Some now, ep_escalated_to := [ep_escalate_to_role ep]\<rparr>"

text \<open>
  The escalation at submission writes through \<open>entity.escalation_path\<close>, which is the definition's own
  object: when the definition is a catalogue default, the catalogue entry changes too.
\<close>

definition share_escalation :: "string option \<Rightarrow> escalation_path \<Rightarrow> wf_system \<Rightarrow> wf_system" where
  "share_escalation key ep s =
     (case key of None \<Rightarrow> s
      | Some k \<Rightarrow> (case dict_get (ws_defaults s) k of None \<Rightarrow> s
                  | Some d \<Rightarrow> s\<lparr>ws_defaults := dict_set (ws_defaults s) k (d\<lparr>wd_escalation_path := ep\<rparr>)\<rparr>))"

definition update_stage :: "nat \<Rightarrow> (workflow_stage \<Rightarrow> workflow_stage) \<Rightarrow> workflow_request \<Rightarrow> workflow_request" where
  "update_stage i f r = r\<lparr>wr_stages := (wr_stages r)[i := f (wr_stages r ! i)]\<rparr>"

definition initialize_stage :: "resolved_approvers \<Rightarrow> workflow_request \<Rightarrow> workflow_request" where
  "initialize_stage res r =
     add_history ''system'' ''INITIALIZE_STAGE'' (Some SUBMITTED) (Some IN_REVIEW) (Some (st_stage_id (wr_stages r ! 0)))
       ((update_stage 0 (\<lambda>st. st\<lparr>st_assigned_approvers := ra_effective_approvers res, st_status := STAGE_IN_REVIEW\<rparr>) r)
          \<lparr>wr_state := IN_REVIEW\<rparr>)"

definition escalate_request :: "int \<Rightarrow> workflow_request \<Rightarrow> workflow_request" where
  "escalate_request now r =
     add_history ''system'' ''AUTO_ESCALATE'' None None None
       (r\<lparr>wr_is_escalated := True, wr_escalation_path := escalate_path now (wr_escalation_path r)\<rparr>)"

definition tenant_delegations :: "wf_system \<Rightarrow> string \<Rightarrow> delegation_rule list" where
  "tenant_delegations s tenant = list_delegations (ws_delegations s) tenant None None None"

definition finish_submission :: "tenant_context \<Rightarrow> workflow_request \<Rightarrow> wf_system \<Rightarrow> (wf_error + workflow_request) \<times> wf_system" where
  "finish_submission tc r s =
     (case save_request (tc_tenant_id tc) r s of
        (Inl e, s') \<Rightarrow> (Inl e, s')
      | (Inr r', s') \<Rightarrow>
          (Inr r', record_audit ''WORKFLOW_REQUEST_SUBMITTED'' (tc_user_id tc) ''WORKFLOW_SUBMITTED'' (wr_id r') (tc_tenant_id tc) s'))"

definition submit_request :: "wf_env \<Rightarrow> tenant_context option \<Rightarrow> submit_dto \<Rightarrow> call \<Rightarrow> wf_system
    \<Rightarrow> (wf_error + workflow_request) \<times> wf_system" where
  "submit_request env ctx dto c s =
     (case require_tenant_context ctx of Inl e \<Rightarrow> (Inl Missing_tenant_context, s) | Inr tc \<Rightarrow>
      case find_definition s (tc_tenant_id tc) (sr_request_type dto) of
        None \<Rightarrow> (Inl (WorkflowDefinitionNotFoundException (sr_request_type dto)), s)
      | Some (d, key) \<Rightarrow>
      case matches (we_parse_float env) (wd_trigger_condition d) (sr_payload dto) (sr_financial_impact dto) of
        Inl e \<Rightarrow> (Inl (Not_a_float e), s)
      | Inr triggers \<Rightarrow>
          let r0 = add_history (tc_user_id tc) ''SUBMIT'' None (Some SUBMITTED) None (new_request env tc dto c d) in
          if \<not> triggers then
            let r1 = add_history ''system'' ''AUTO_APPROVE'' (Some SUBMITTED) (Some APPROVED) None (r0\<lparr>wr_state := APPROVED\<rparr>);
                (r2, s2) = apply_approved_request ''system'' (tc_tenant_id tc) c r1 s
            in save_request (tc_tenant_id tc) r2 s2
          else if wd_stages d = [] then finish_submission tc r0 s
          else
            case resolve_approvers (we_master_data env) (wr_id r0) (hd (wd_stages d)) (wr_subject_entity r0) tc
                   (tenant_delegations s (tc_tenant_id tc)) (cl_now c) (Some (wr_request_type r0)) (ws_resolver s) of
              (Inl e, rs) \<Rightarrow> (Inl (Unresolvable e), s\<lparr>ws_resolver := rs\<rparr>)
            | (Inr res, rs) \<Rightarrow>
                let s1 = s\<lparr>ws_resolver := rs\<rparr>; r1 = initialize_stage res r0 in
                if ra_unavailable res = [] then finish_submission tc r1 s1
                else let r2 = escalate_request (cl_now c) r1
                     in finish_submission tc r2 (share_escalation key (wr_escalation_path r2) s1))"

section \<open>Decisions\<close>

text \<open>The definition's stage for the current index; \<open>None\<close> inside when there is no definition.\<close>

definition current_stage_definition :: "(workflow_definition \<times> string option) option \<Rightarrow> nat
    \<Rightarrow> wf_error + stage_definition option" where
  "current_stage_definition d i =
     (case d of None \<Rightarrow> Inr None
      | Some (wd, _) \<Rightarrow> if i < length (wd_stages wd) then Inr (Some (wd_stages wd ! i)) else Inl List_index_error)"

definition has_role :: "tenant_context \<Rightarrow> string option \<Rightarrow> bool" where
  "has_role tc role \<longleftrightarrow> truthy role \<and> the role \<in> set (tc_roles tc)"

definition may_decide :: "resolved_approvers \<Rightarrow> workflow_stage \<Rightarrow> approver_spec \<Rightarrow> tenant_context \<Rightarrow> bool" where
  "may_decide res st spec tc \<longleftrightarrow>
     is_authorized res (tc_user_id tc) \<or> tc_user_id tc \<in> set (st_assigned_approvers st)
     \<or> has_role tc (sp_target_role spec) \<or> has_role tc (Some (sp_fallback_role spec))
     \<or> tc_is_superuser tc \<or> ''GLOBAL_ADMIN'' \<in> set (tc_roles tc) \<or> ''TENANT_ADMIN'' \<in> set (tc_roles tc)"

definition acting_rule :: "resolved_approvers \<Rightarrow> string \<Rightarrow> delegation_rule list \<Rightarrow> int \<Rightarrow> string option \<Rightarrow> delegation_rule option" where
  "acting_rule res actor delegations now req_type =
     (case get_delegation_for res actor of
        Some d \<Rightarrow> Some d
      | None \<Rightarrow> if actor \<notin> set (ra_primary_approvers res) \<and> actor \<in> set (ra_effective_approvers res)
                then find (\<lambda>d. dr_delegate_approver_id d = actor \<and> is_currently_active d now req_type) delegations
                else None)"

text \<open>The authorisation of a decision, and the rule it is made under.\<close>

definition authorise :: "wf_env \<Rightarrow> tenant_context \<Rightarrow> int \<Rightarrow> workflow_request \<Rightarrow> workflow_stage \<Rightarrow> stage_definition option
    \<Rightarrow> delegation_rule list \<Rightarrow> resolver_state \<Rightarrow> (wf_error + delegation_rule option) \<times> resolver_state" where
  "authorise env tc now r st sd delegations rs =
     (case sd of None \<Rightarrow> (Inr None, rs)
      | Some stage_def \<Rightarrow>
        case resolve_approvers (we_master_data env) (wr_id r) stage_def (wr_subject_entity r) tc delegations now
               (Some (wr_request_type r)) rs of
          (Inl e, rs') \<Rightarrow> (Inl (Unresolvable e), rs')
        | (Inr res, rs') \<Rightarrow>
            if may_decide res st (sd_approver_spec stage_def) tc
            then (Inr (acting_rule res (tc_user_id tc) delegations now (Some (wr_request_type r))), rs')
            else (Inl (UnauthorizedApproverException (wr_id r) (tc_user_id tc) (st_name st)), rs'))"

definition new_decision :: "workflow_stage \<Rightarrow> outcome \<Rightarrow> string \<Rightarrow> delegation_rule option \<Rightarrow> string option \<Rightarrow> int \<Rightarrow> workflow_decision" where
  "new_decision st oc actor rule comment now =
     \<lparr> dc_stage_id = st_stage_id st, dc_decision = oc, dc_decided_by = actor,
       dc_on_behalf_of = map_option dr_original_approver_id rule, dc_delegation_id = map_option dr_id rule,
       dc_comment = comment, dc_timestamp = now \<rparr>"

definition add_decision :: "workflow_decision \<Rightarrow> workflow_request \<Rightarrow> workflow_request" where
  "add_decision dc r = update_stage (wr_current_stage_index r) (\<lambda>st. st\<lparr>st_decisions := st_decisions st @ [dc]\<rparr>) r"

definition set_stage_status :: "stage_status \<Rightarrow> workflow_request \<Rightarrow> workflow_request" where
  "set_stage_status status r = update_stage (wr_current_stage_index r) (\<lambda>st. st\<lparr>st_status := status\<rparr>) r"

definition blank :: "string option \<Rightarrow> bool" where
  "blank comment \<longleftrightarrow> (case comment of None \<Rightarrow> True | Some t \<Rightarrow> strip t = [])"

definition reject_branch :: "tenant_context \<Rightarrow> int \<Rightarrow> workflow_stage \<Rightarrow> delegation_rule option \<Rightarrow> string option \<Rightarrow> workflow_request
    \<Rightarrow> wf_system \<Rightarrow> (wf_error + workflow_request) \<times> wf_system" where
  "reject_branch tc now st rule comment r s =
     (if blank comment then (Inl (WorkflowMandatoryCommentException (wr_id r)), s)
      else
        let dc = new_decision st REJECT (tc_user_id tc) rule (map_option strip comment) now;
            r1 = (set_stage_status STAGE_REJECTED (add_decision dc r))\<lparr>wr_state := REJECTED\<rparr>;
            r2 = add_history (tc_user_id tc) ''REJECT'' (Some (wr_state r)) (Some REJECTED) (Some (st_stage_id st)) r1
        in save_request (tc_tenant_id tc) r2
             (record_audit ''WORKFLOW_REQUEST_REJECTED'' (tc_user_id tc) ''WORKFLOW_REJECTED'' (wr_id r) (tc_tenant_id tc) s))"

definition more_info_branch :: "tenant_context \<Rightarrow> int \<Rightarrow> workflow_stage \<Rightarrow> delegation_rule option \<Rightarrow> string option \<Rightarrow> workflow_request
    \<Rightarrow> wf_system \<Rightarrow> (wf_error + workflow_request) \<times> wf_system" where
  "more_info_branch tc now st rule comment r s =
     (if blank comment then (Inl (WorkflowMandatoryCommentException (wr_id r)), s)
      else
        let dc = new_decision st REQUEST_MORE_INFO (tc_user_id tc) rule (map_option strip comment) now;
            r1 = add_history (tc_user_id tc) ''REQUEST_MORE_INFO'' None None (Some (st_stage_id st)) (add_decision dc r)
        in save_request (tc_tenant_id tc) r1
             (record_audit ''WORKFLOW_INFO_REQUESTED'' (tc_user_id tc) ''WORKFLOW_INFO_REQUESTED'' (wr_id r) (tc_tenant_id tc) s))"

text \<open>The next stage: its approvers are resolved when the definition still has it.\<close>

definition advance_stage :: "wf_env \<Rightarrow> tenant_context \<Rightarrow> int \<Rightarrow> (workflow_definition \<times> string option) option
    \<Rightarrow> delegation_rule list \<Rightarrow> workflow_request \<Rightarrow> wf_system \<Rightarrow> (wf_error + workflow_request) \<times> wf_system" where
  "advance_stage env tc now d delegations r s =
     (let i = wr_current_stage_index r + 1;
          r1 = update_stage i (\<lambda>st. st\<lparr>st_status := STAGE_IN_REVIEW\<rparr>) (r\<lparr>wr_current_stage_index := i\<rparr>);
          finish = (\<lambda>r' s'. save_request (tc_tenant_id tc)
             (add_history ''system'' ''ADVANCE_STAGE'' None None (Some (st_stage_id (wr_stages r1 ! i))) r') s')
      in case d of
           Some (wd, key) \<Rightarrow>
             if i < length (wd_stages wd) then
               case resolve_approvers (we_master_data env) (wr_id r) (wd_stages wd ! i) (wr_subject_entity r) tc delegations now
                      (Some (wr_request_type r)) (ws_resolver s) of
                 (Inl e, rs) \<Rightarrow> (Inl (Unresolvable e), s\<lparr>ws_resolver := rs\<rparr>)
               | (Inr res, rs) \<Rightarrow>
                   finish (update_stage i (\<lambda>st. st\<lparr>st_assigned_approvers := ra_effective_approvers res\<rparr>) r1)
                          (s\<lparr>ws_resolver := rs\<rparr>)
             else finish r1 s
         | None \<Rightarrow> finish r1 s)"

definition complete_request :: "tenant_context \<Rightarrow> call \<Rightarrow> workflow_request \<Rightarrow> wf_system \<Rightarrow> (wf_error + workflow_request) \<times> wf_system" where
  "complete_request tc c r s =
     (let r1 = add_history (tc_user_id tc) ''WORKFLOW_APPROVED'' (Some IN_REVIEW) (Some APPROVED) None (r\<lparr>wr_state := APPROVED\<rparr>);
          s1 = record_audit ''WORKFLOW_REQUEST_APPROVED'' (tc_user_id tc) ''WORKFLOW_APPROVED'' (wr_id r) (tc_tenant_id tc) s;
          (r2, s2) = apply_approved_request (tc_user_id tc) (tc_tenant_id tc) c r1 s1
      in save_request (tc_tenant_id tc) r2 s2)"

definition approve_branch :: "wf_env \<Rightarrow> tenant_context \<Rightarrow> call \<Rightarrow> (workflow_definition \<times> string option) option
    \<Rightarrow> delegation_rule list \<Rightarrow> workflow_stage \<Rightarrow> delegation_rule option \<Rightarrow> string option \<Rightarrow> workflow_request
    \<Rightarrow> wf_system \<Rightarrow> (wf_error + workflow_request) \<times> wf_system" where
  "approve_branch env tc c d delegations st rule comment r s =
     (let r1 = add_decision (new_decision st APPROVE (tc_user_id tc) rule comment (cl_now c)) r;
          st1 = wr_stages r1 ! wr_current_stage_index r
      in if st_mode st1 = SERIAL \<or> is_quorum_met st1 then
           let r2 = add_history (tc_user_id tc) ''STAGE_APPROVED'' None None (Some (st_stage_id st)) (set_stage_status STAGE_APPROVED r1);
               s2 = record_audit ''WORKFLOW_STAGE_APPROVED'' (tc_user_id tc) ''WORKFLOW_STAGE_APPROVED'' (wr_id r) (tc_tenant_id tc) s
           in if wr_current_stage_index r + 1 < length (wr_stages r)
              then advance_stage env tc (cl_now c) d delegations r2 s2
              else complete_request tc c r2 s2
         else save_request (tc_tenant_id tc)
                (add_history (tc_user_id tc) ''PARTIAL_APPROVAL'' None None (Some (st_stage_id st)) r1) s)"

definition record_decision :: "wf_env \<Rightarrow> tenant_context option \<Rightarrow> string \<Rightarrow> decision_dto \<Rightarrow> call \<Rightarrow> wf_system
    \<Rightarrow> (wf_error + workflow_request) \<times> wf_system" where
  "record_decision env ctx request_id dq c s =
     (case require_tenant_context ctx of Inl e \<Rightarrow> (Inl Missing_tenant_context, s) | Inr tc \<Rightarrow>
      case wf_get (ws_requests s) (tc_tenant_id tc) request_id of
        None \<Rightarrow> (Inl (WorkflowNotFoundException request_id), s)
      | Some r \<Rightarrow>
      if finalized (wr_state r) then (Inl (WorkflowAlreadyFinalizedException request_id (wr_state r)), s)
      else case current_stage r of
        None \<Rightarrow> (Inl (InvalidWorkflowTransitionException request_id (wr_state r) ''DECIDE''), s)
      | Some st \<Rightarrow>
      let delegations = tenant_delegations s (tc_tenant_id tc);
          d = find_definition s (tc_tenant_id tc) (wr_request_type r)
      in case current_stage_definition d (wr_current_stage_index r) of
        Inl e \<Rightarrow> (Inl e, s)
      | Inr sd \<Rightarrow>
      case authorise env tc (cl_now c) r st sd delegations (ws_resolver s) of
        (Inl e, rs) \<Rightarrow> (Inl e, s\<lparr>ws_resolver := rs\<rparr>)
      | (Inr rule, rs) \<Rightarrow>
          let s1 = s\<lparr>ws_resolver := rs\<rparr> in
          case dq_decision dq of
            REJECT \<Rightarrow> reject_branch tc (cl_now c) st rule (dq_comment dq) r s1
          | REQUEST_MORE_INFO \<Rightarrow> more_info_branch tc (cl_now c) st rule (dq_comment dq) r s1
          | APPROVE \<Rightarrow> approve_branch env tc c d delegations st rule (dq_comment dq) r s1)"

section \<open>Withdrawal and delegation\<close>

definition withdraw_request :: "tenant_context option \<Rightarrow> string \<Rightarrow> wf_system \<Rightarrow> (wf_error + workflow_request) \<times> wf_system" where
  "withdraw_request ctx request_id s =
     (case require_tenant_context ctx of Inl e \<Rightarrow> (Inl Missing_tenant_context, s) | Inr tc \<Rightarrow>
      case wf_get (ws_requests s) (tc_tenant_id tc) request_id of
        None \<Rightarrow> (Inl (WorkflowNotFoundException request_id), s)
      | Some r \<Rightarrow>
      if finalized (wr_state r) then (Inl (WorkflowAlreadyFinalizedException request_id (wr_state r)), s)
      else
        case save_request (tc_tenant_id tc)
               (add_history (tc_user_id tc) ''WITHDRAW'' (Some (wr_state r)) (Some WITHDRAWN) None (r\<lparr>wr_state := WITHDRAWN\<rparr>)) s of
          (Inl e, s') \<Rightarrow> (Inl e, s')
        | (Inr r', s') \<Rightarrow>
            (Inr r', record_audit ''WORKFLOW_REQUEST_WITHDRAWN'' (tc_user_id tc) ''WORKFLOW_WITHDRAWN'' (wr_id r') (tc_tenant_id tc) s'))"

definition register_delegation :: "tenant_context option \<Rightarrow> delegation_dto \<Rightarrow> string \<Rightarrow> wf_system
    \<Rightarrow> (wf_error + delegation_rule) \<times> wf_system" where
  "register_delegation ctx dg uid s =
     (case require_tenant_context ctx of Inl e \<Rightarrow> (Inl Missing_tenant_context, s) | Inr tc \<Rightarrow>
      if dg_start_date dg \<ge> dg_end_date dg then (Inl Delegation_dates, s)
      else
        let rule = \<lparr> dr_id = ''del-'' @ uid, dr_tenant_id = tc_tenant_id tc, dr_original_approver_id = tc_user_id tc,
                     dr_delegate_approver_id = dg_delegate_approver_id dg, dr_start_date = dg_start_date dg,
                     dr_end_date = dg_end_date dg, dr_request_types = dg_request_types dg, dr_reason = dg_reason dg,
                     dr_is_active = True \<rparr>
        in case save_delegation (ws_delegations s) (tc_tenant_id tc) rule of
             (Inl e, t) \<Rightarrow> (Inl (Delegation_not_saved e), s\<lparr>ws_delegations := t\<rparr>)
           | (Inr d, t) \<Rightarrow>
               (Inr d, record_audit ''WORKFLOW_DELEGATION_REGISTERED'' (tc_user_id tc) ''DELEGATION_REGISTERED'' (dr_id d)
                         (tc_tenant_id tc) (s\<lparr>ws_delegations := t\<rparr>)))"

section \<open>Escalation and expiry\<close>

definition open_requests :: "wf_system \<Rightarrow> string \<Rightarrow> workflow_request list" where
  "open_requests s tenant = wf_list (ws_requests s) tenant (no_filter\<lparr>fp_state := Some IN_REVIEW\<rparr>) 500 0"

text \<open>One iteration of each loop; the saved request is appended to the result.\<close>

definition escalation_due :: "int \<Rightarrow> workflow_request \<Rightarrow> bool" where
  "escalation_due now r \<longleftrightarrow> \<not> wr_is_escalated r \<and> (case wr_escalation_due_at r of None \<Rightarrow> False | Some t \<Rightarrow> now \<ge> t)"

definition escalate_one :: "string \<Rightarrow> int \<Rightarrow> workflow_request \<Rightarrow> workflow_request list \<times> wf_system \<Rightarrow> workflow_request list \<times> wf_system" where
  "escalate_one tenant now r acc =
     (let (out, s) = acc in
      if escalation_due now r then
        let (saved, t) = wf_save (ws_requests s) tenant (escalate_request now r) in
        (out @ [saved], record_audit ''WORKFLOW_REQUEST_ESCALATED'' ''system'' ''WORKFLOW_ESCALATED'' (wr_id r) tenant (s\<lparr>ws_requests := t\<rparr>))
      else (out, s))"

definition evaluate_escalations :: "tenant_context option \<Rightarrow> int \<Rightarrow> wf_system \<Rightarrow> (wf_error + workflow_request list) \<times> wf_system" where
  "evaluate_escalations ctx now s =
     (case require_tenant_context ctx of Inl e \<Rightarrow> (Inl Missing_tenant_context, s)
      | Inr tc \<Rightarrow> (let (out, s') = fold (escalate_one (tc_tenant_id tc) now) (open_requests s (tc_tenant_id tc)) ([], s)
                  in (Inr out, s')))"

definition overdue :: "int \<Rightarrow> workflow_request \<Rightarrow> bool" where
  "overdue now r \<longleftrightarrow> (case wr_due_date r of None \<Rightarrow> False | Some t \<Rightarrow> now \<ge> t)"

definition expire_request :: "workflow_request \<Rightarrow> workflow_request" where
  "expire_request r =
     add_history ''system'' ''AUTO_EXPIRE'' (Some IN_REVIEW) (Some EXPIRED) None (r\<lparr>wr_sla_breached := True, wr_state := EXPIRED\<rparr>)"

definition auto_rejects :: "wf_system \<Rightarrow> string \<Rightarrow> workflow_request \<Rightarrow> bool" where
  "auto_rejects s tenant r =
     (case find_definition s tenant (wr_request_type r) of None \<Rightarrow> False | Some (d, key) \<Rightarrow> wd_auto_reject_on_expiry d)"

definition expire_one :: "string \<Rightarrow> int \<Rightarrow> workflow_request \<Rightarrow> workflow_request list \<times> wf_system \<Rightarrow> workflow_request list \<times> wf_system" where
  "expire_one tenant now r acc =
     (let (out, s) = acc in
      if overdue now r \<and> auto_rejects s tenant r then
        let (saved, t) = wf_save (ws_requests s) tenant (expire_request r) in
        (out @ [saved], record_audit ''WORKFLOW_REQUEST_EXPIRED'' ''system'' ''WORKFLOW_EXPIRED'' (wr_id r) tenant (s\<lparr>ws_requests := t\<rparr>))
      else (out, s))"

definition evaluate_expirations :: "tenant_context option \<Rightarrow> int \<Rightarrow> wf_system \<Rightarrow> (wf_error + workflow_request list) \<times> wf_system" where
  "evaluate_expirations ctx now s =
     (case require_tenant_context ctx of Inl e \<Rightarrow> (Inl Missing_tenant_context, s)
      | Inr tc \<Rightarrow> (let (out, s') = fold (expire_one (tc_tenant_id tc) now) (open_requests s (tc_tenant_id tc)) ([], s)
                  in (Inr out, s')))"

end
