(* ===== verification/Workflow_Runs.thy ===== *)
theory Workflow_Runs
  imports Workflows
begin

text \<open>
  The workflow engine as a state machine. \<open>wf_next\<close> is the life cycle of a request, \<open>request_ok\<close> what holds of
  every stored request, \<open>tstep\<close> the abstract machine of the table: a request is created, or a stored one that
  is not final evolves. Every service operation is a sequence of such steps, so the theorems over whole
  runs follow from the abstract machine.
\<close>

section \<open>Life cycle and invariant\<close>

fun wf_next :: "wf_state \<Rightarrow> wf_state list" where
  "wf_next SUBMITTED = [IN_REVIEW, APPROVED, WITHDRAWN]"
| "wf_next IN_REVIEW = [APPROVED, REJECTED, WITHDRAWN, EXPIRED]"
| "wf_next APPROVED = [APPLIED, IN_REVIEW]"
| "wf_next st = []"

abbreviation wf_trans :: "wf_state \<Rightarrow> wf_state \<Rightarrow> bool" where
  "wf_trans a b \<equiv> b \<in> set (wf_next a)"

text \<open>A history is a walk through the life cycle: every entry starts where the one before it ended.\<close>

fun path_ok :: "wf_state \<Rightarrow> history_entry list \<Rightarrow> wf_state \<Rightarrow> bool" where
  "path_ok a [] b \<longleftrightarrow> a = b"
| "path_ok a (h # hs) b \<longleftrightarrow>
     he_previous_state h = a \<and> (he_new_state h = a \<or> wf_trans a (he_new_state h)) \<and> path_ok (he_new_state h) hs b"

lemma path_ok_append: "path_ok a (hs @ hs') b \<longleftrightarrow> (\<exists>m. path_ok a hs m \<and> path_ok m hs' b)"
  by (induction hs arbitrary: a) auto

lemma path_ok_trans: "path_ok a hs b \<Longrightarrow> wf_trans\<^sup>*\<^sup>* a b"
proof (induction hs arbitrary: a)
  case (Cons h hs)
  then have "wf_trans\<^sup>*\<^sup>* (he_new_state h) b" "he_new_state h = a \<or> wf_trans a (he_new_state h)" by auto
  then show ?case by (auto intro: converse_rtranclp_into_rtranclp)
qed simp

text \<open>A stage that is behind a request: approved, with the approvals its mode asks for.\<close>

definition stage_passed :: "workflow_stage \<Rightarrow> bool" where
  "stage_passed st \<longleftrightarrow> st_status st = STAGE_APPROVED \<and> 1 \<le> approved_count st \<and> (st_mode st = SERIAL \<or> is_quorum_met st)"

definition auto_approved :: "workflow_request \<Rightarrow> bool" where
  "auto_approved r \<longleftrightarrow> list_ex (\<lambda>h. he_action h = ''AUTO_APPROVE'') (wr_history r)"

definition rejected_with_comment :: "workflow_stage \<Rightarrow> bool" where
  "rejected_with_comment st \<longleftrightarrow>
     st_status st = STAGE_REJECTED \<and> st_decisions st \<noteq> [] \<and> dc_decision (last (st_decisions st)) = REJECT
     \<and> truthy (dc_comment (last (st_decisions st)))"

definition request_ok :: "workflow_request \<Rightarrow> bool" where
  "request_ok r \<longleftrightarrow>
     wr_state r \<in> {SUBMITTED, IN_REVIEW, REJECTED, WITHDRAWN, EXPIRED, APPLIED}
     \<and> (wr_state r = SUBMITTED \<longrightarrow> wr_stages r = [])
     \<and> wr_current_stage_index r \<le> length (wr_stages r)
     \<and> list_all stage_passed (take (wr_current_stage_index r) (wr_stages r))
     \<and> (wr_state r = APPLIED \<longrightarrow> auto_approved r \<or> list_all stage_passed (wr_stages r))
     \<and> (wr_state r = REJECTED \<longrightarrow> wr_current_stage_index r < length (wr_stages r)
          \<and> rejected_with_comment (wr_stages r ! wr_current_stage_index r))
     \<and> path_ok SUBMITTED (wr_history r) (wr_state r)"

lemma request_ok_tenant [simp]: "request_ok (r\<lparr>wr_tenant_id := x\<rparr>) = request_ok r"
  by (simp add: request_ok_def auto_approved_def)

text \<open>How a stored request may change; the identifying fields are those the table has as columns.\<close>

definition evolves :: "workflow_request \<Rightarrow> workflow_request \<Rightarrow> bool" where
  "evolves r0 r \<longleftrightarrow>
     \<not> finalized (wr_state r0) \<and> (request_ok r0 \<longrightarrow> request_ok r)
     \<and> wr_id r = wr_id r0 \<and> wr_tenant_id r = wr_tenant_id r0 \<and> wr_request_type r = wr_request_type r0
     \<and> wr_requester_id r = wr_requester_id r0 \<and> wr_created_at r = wr_created_at r0
     \<and> (\<exists>hs. wr_history r = wr_history r0 @ hs \<and> hs \<noteq> [] \<and> path_ok (wr_state r0) hs (wr_state r))"

inductive tstep :: "request_table \<Rightarrow> request_table \<Rightarrow> bool" where
  create: "\<not> list_ex (\<lambda>row. rw_id row = wr_id r) t \<Longrightarrow> wr_tenant_id r = tn \<Longrightarrow> request_ok r \<Longrightarrow> tstep t (wf_put t tn r)"
| update: "wf_get t tn (wr_id r) = Some r0 \<Longrightarrow> evolves r0 r \<Longrightarrow> tstep t (wf_put t tn r)"

inductive_cases tstepE: "tstep t t'"

definition wf_ok :: "request_table \<Rightarrow> bool" where
  "wf_ok t \<longleftrightarrow> table_ok t \<and> list_all (\<lambda>row. request_ok (rw_request row)) t"

lemma wf_ok_iff: "wf_ok t \<longleftrightarrow> table_ok t \<and> (\<forall>tn i r. wf_get t tn i = Some r \<longrightarrow> request_ok r)"
  unfolding wf_ok_def by (simp add: list_all_iff wf_get_iff cong: conj_cong) blast

lemma create_saveable: "\<not> list_ex (\<lambda>row. rw_id row = wr_id r) t \<Longrightarrow> saveable t tn r"
  by (auto simp: saveable_def list_ex_iff wf_get_def row_at_def dest: find_SomeD split: option.splits)

lemma create_new: "\<not> list_ex (\<lambda>row. rw_id row = wr_id r) t \<Longrightarrow> wf_get t tn (wr_id r) = None"
  by (auto simp: list_ex_iff wf_get_def row_at_def find_None_iff)

lemma update_saveable: "wf_get t tn (wr_id r) = Some r0 \<Longrightarrow> evolves r0 r \<Longrightarrow> saveable t tn r"
  by (simp add: saveable_def evolves_def)

lemma tstep_wf_ok: "tstep t t' \<Longrightarrow> wf_ok t \<Longrightarrow> wf_ok t'"
proof (induction rule: tstep.induct)
  case (create r t tn)
  then show ?case using create_saveable[OF create(1), of tn] by (auto simp: wf_ok_iff store_simps split: if_splits)
next
  case (update t tn r r0)
  then have "request_ok (r\<lparr>wr_tenant_id := tn\<rparr>)"
    using wf_get_ident[of t tn "wr_id r" r0] by (auto simp: wf_ok_iff evolves_def)
  then show ?case using update update_saveable[OF update(1,2)] by (auto simp: wf_ok_iff store_simps split: if_splits)
qed

text \<open>A stored request is there after a step: the same, or evolved.\<close>

lemma tstep_get:
  "tstep t t' \<Longrightarrow> table_ok t \<Longrightarrow> wf_get t tn' i = Some x \<Longrightarrow> \<exists>y. wf_get t' tn' i = Some y \<and> evolves\<^sup>=\<^sup>= x y"
proof (induction rule: tstep.induct)
  case (create r t tn)
  then show ?case using create_saveable[OF create(1), of tn] create_new[OF create(1), of tn]
    by (auto simp: store_simps)
next
  case (update t tn r r0)
  have "r\<lparr>wr_tenant_id := tn\<rparr> = r"
    using update wf_get_ident[of t tn "wr_id r" r0] by (simp add: evolves_def)
  then show ?case using update update_saveable[OF update(1,2)] by (auto simp: store_simps)
qed

lemma tsteps_get:
  assumes "tstep\<^sup>*\<^sup>* t t'" and "wf_ok t" and "wf_get t tn i = Some x"
  shows "wf_ok t' \<and> (\<exists>y. wf_get t' tn i = Some y \<and> evolves\<^sup>*\<^sup>* x y)"
  using assms(1)
proof (induction rule: rtranclp_induct)
  case base
  then show ?case using assms by auto
next
  case (step u v)
  then obtain y where "wf_ok u" "wf_get u tn i = Some y" "evolves\<^sup>*\<^sup>* x y" by blast
  moreover from this obtain z where "wf_get v tn i = Some z" "evolves\<^sup>=\<^sup>= y z"
    using tstep_get[OF step(2)] unfolding wf_ok_def by metis
  ultimately show ?case using tstep_wf_ok[OF step(2)] by (auto intro: rtranclp.rtrancl_into_rtrancl)
qed

lemma tsteps_wf_ok: "tstep\<^sup>*\<^sup>* t t' \<Longrightarrow> wf_ok t \<Longrightarrow> wf_ok t'"
  by (induction rule: rtranclp_induct) (auto intro: tstep_wf_ok)

text \<open>What evolution means over many steps.\<close>

lemma evolves_final: "evolves\<^sup>*\<^sup>* x y \<Longrightarrow> finalized (wr_state x) \<Longrightarrow> y = x"
  by (induction rule: converse_rtranclp_induct) (auto simp: evolves_def)

lemma evolves_history: "evolves\<^sup>*\<^sup>* x y \<Longrightarrow> \<exists>hs. wr_history y = wr_history x @ hs \<and> path_ok (wr_state x) hs (wr_state y)"
proof (induction rule: rtranclp_induct)
  case (step y z)
  then obtain hs hs' where "wr_history y = wr_history x @ hs" "path_ok (wr_state x) hs (wr_state y)"
    "wr_history z = wr_history y @ hs'" "path_ok (wr_state y) hs' (wr_state z)" by (auto simp: evolves_def)
  then show ?case by (intro exI[of _ "hs @ hs'"]) (auto simp: path_ok_append)
qed simp

section \<open>Every operation is a sequence of steps\<close>

lemma snd_save_request [simp]: "ws_requests (snd (save_request tn r s)) = wf_put (ws_requests s) tn r"
  by (simp add: save_request_def wf_put_def split: prod.split)

lemma save_request_Inr: "save_request tn r s = (Inr (r\<lparr>wr_tenant_id := tn\<rparr>), s\<lparr>ws_requests := wf_put (ws_requests s) tn r\<rparr>)"
  by (simp add: save_request_def wf_put_def wf_save_def Let_def)

lemma record_audit_requests [simp]: "ws_requests (record_audit a b c d e s) = ws_requests s"
  by (simp add: record_audit_def)

lemma add_history_simps [simp]:
  "wr_state (add_history a b p n i r) = wr_state r" "wr_id (add_history a b p n i r) = wr_id r"
  "wr_tenant_id (add_history a b p n i r) = wr_tenant_id r" "wr_stages (add_history a b p n i r) = wr_stages r"
  "wr_current_stage_index (add_history a b p n i r) = wr_current_stage_index r"
  "wr_request_type (add_history a b p n i r) = wr_request_type r" "wr_requester_id (add_history a b p n i r) = wr_requester_id r"
  "wr_created_at (add_history a b p n i r) = wr_created_at r"
  "wr_subject_entity (add_history a b p n i r) = wr_subject_entity r" "wr_due_date (add_history a b p n i r) = wr_due_date r"
  "wr_history (add_history a b p n i r) = wr_history r @
     [\<lparr> he_actor_id = a, he_action = b, he_previous_state = (case p of Some s \<Rightarrow> s | None \<Rightarrow> wr_state r),
        he_new_state = (case n of Some s \<Rightarrow> s | None \<Rightarrow> wr_state r), he_stage_id = i \<rparr>]"
  by (simp_all add: add_history_def)

lemma update_stage_simps [simp]:
  "wr_state (update_stage i f r) = wr_state r" "wr_id (update_stage i f r) = wr_id r"
  "wr_tenant_id (update_stage i f r) = wr_tenant_id r" "wr_stages (update_stage i f r) = (wr_stages r)[i := f (wr_stages r ! i)]"
  "wr_current_stage_index (update_stage i f r) = wr_current_stage_index r"
  "wr_request_type (update_stage i f r) = wr_request_type r" "wr_requester_id (update_stage i f r) = wr_requester_id r"
  "wr_created_at (update_stage i f r) = wr_created_at r" "wr_history (update_stage i f r) = wr_history r"
  "wr_subject_entity (update_stage i f r) = wr_subject_entity r"
  by (simp_all add: update_stage_def)

lemmas evolve_simps = evolves_def request_ok_def auto_approved_def path_ok_append finalized_def

lemma current_stageD: "current_stage r = Some st \<Longrightarrow> wr_current_stage_index r < length (wr_stages r) \<and> st = wr_stages r ! wr_current_stage_index r"
  by (simp add: current_stage_def split: if_splits)

lemma open_in_review: "request_ok r \<Longrightarrow> \<not> finalized (wr_state r) \<Longrightarrow> wr_stages r \<noteq> [] \<Longrightarrow> wr_state r = IN_REVIEW"
  by (auto simp: request_ok_def finalized_def)

lemma evolves_escalate: "\<not> finalized (wr_state r) \<Longrightarrow> evolves r (escalate_request now r)"
  by (simp add: escalate_request_def evolve_simps)

lemma evolves_expire: "wr_state r = IN_REVIEW \<Longrightarrow> evolves r (expire_request r)"
  by (auto simp: expire_request_def evolve_simps)

lemma evolves_withdraw:
  "request_ok r \<Longrightarrow> \<not> finalized (wr_state r) \<Longrightarrow>
   evolves r (add_history a ''WITHDRAW'' (Some (wr_state r)) (Some WITHDRAWN) None (r\<lparr>wr_state := WITHDRAWN\<rparr>))"
  by (auto simp: evolve_simps)

text \<open>The branches of a decision, on an open request with a current stage.\<close>

definition decidable :: "workflow_request \<Rightarrow> bool" where
  "decidable r \<longleftrightarrow> wr_state r = IN_REVIEW \<and> wr_current_stage_index r < length (wr_stages r)"

lemma not_blank_strip: "\<not> blank c \<Longrightarrow> truthy (map_option strip c)"
  by (cases c) (auto simp: blank_def)

lemma evolves_reject:
  assumes "decidable r" and "\<not> blank c"
  shows "evolves r (add_history a ''REJECT'' (Some (wr_state r)) (Some REJECTED) sid
           ((set_stage_status STAGE_REJECTED (add_decision (new_decision st REJECT a rule (map_option strip c) now) r))\<lparr>wr_state := REJECTED\<rparr>))"
  using assms not_blank_strip[OF assms(2)]
  by (auto simp: evolve_simps decidable_def set_stage_status_def add_decision_def rejected_with_comment_def new_decision_def)

lemma evolves_more_info:
  "decidable r \<Longrightarrow> evolves r (add_history a act None None sid (add_decision dc r))"
  by (auto simp: evolve_simps decidable_def add_decision_def)

lemma approved_count_snoc:
  "st_decisions st' = st_decisions st @ [dc] \<Longrightarrow> dc_decision dc = APPROVE \<Longrightarrow> approved_count st' = Suc (approved_count st)"
  by (simp add: approved_count_def)

text \<open>The request after an approval that completes its stage.\<close>

definition stage_done :: "workflow_decision \<Rightarrow> string \<Rightarrow> string option \<Rightarrow> workflow_request \<Rightarrow> workflow_request" where
  "stage_done dc a sid r = add_history a ''STAGE_APPROVED'' None None sid (set_stage_status STAGE_APPROVED (add_decision dc r))"

lemma stage_done_passed:
  assumes "decidable r" and "request_ok r" and "dc_decision dc = APPROVE"
    and "let st = wr_stages (add_decision dc r) ! wr_current_stage_index r in st_mode st = SERIAL \<or> is_quorum_met st"
  shows "list_all stage_passed (take (Suc (wr_current_stage_index r)) (wr_stages (stage_done dc a sid r)))"
proof -
  let ?i = "wr_current_stage_index r"
  have i: "?i < length (wr_stages r)" using assms(1) by (simp add: decidable_def)
  have stages: "wr_stages (stage_done dc a sid r) =
      (wr_stages r)[?i := (wr_stages r ! ?i)\<lparr>st_decisions := st_decisions (wr_stages r ! ?i) @ [dc], st_status := STAGE_APPROVED\<rparr>]"
    using i by (simp add: stage_done_def set_stage_status_def add_decision_def)
  have "stage_passed (wr_stages (stage_done dc a sid r) ! ?i)"
    using assms(3,4) i unfolding stages
    by (auto simp: stage_passed_def add_decision_def is_quorum_met_def approved_count_def Let_def)
  moreover have "list_all stage_passed (take ?i (wr_stages (stage_done dc a sid r)))"
    using assms(2) unfolding stages by (simp add: request_ok_def)
  ultimately show ?thesis using i stages by (simp add: take_Suc_conv_app_nth)
qed

lemma stage_done_simps [simp]:
  "wr_state (stage_done dc a sid r) = wr_state r" "wr_id (stage_done dc a sid r) = wr_id r"
  "wr_tenant_id (stage_done dc a sid r) = wr_tenant_id r" "wr_current_stage_index (stage_done dc a sid r) = wr_current_stage_index r"
  "wr_request_type (stage_done dc a sid r) = wr_request_type r" "wr_requester_id (stage_done dc a sid r) = wr_requester_id r"
  "wr_created_at (stage_done dc a sid r) = wr_created_at r" "length (wr_stages (stage_done dc a sid r)) = length (wr_stages r)"
  "wr_history (stage_done dc a sid r) = wr_history r @
     [\<lparr> he_actor_id = a, he_action = ''STAGE_APPROVED'', he_previous_state = wr_state r, he_new_state = wr_state r, he_stage_id = sid \<rparr>]"
  by (simp_all add: stage_done_def set_stage_status_def add_decision_def)

lemma evolves_advance:
  assumes "decidable r" and "Suc (wr_current_stage_index r) < length (wr_stages r)"
    and "request_ok r \<Longrightarrow> list_all stage_passed (take (Suc (wr_current_stage_index r)) (wr_stages (stage_done dc a sid r)))"
  shows "evolves r (add_history b ''ADVANCE_STAGE'' None None sid'
           (update_stage (Suc (wr_current_stage_index r)) g
             ((stage_done dc a sid r)\<lparr>wr_current_stage_index := Suc (wr_current_stage_index r)\<rparr>)))"
  using assms by (auto simp: evolve_simps decidable_def)

lemma update_stage_twice:
  "i < length (wr_stages r) \<Longrightarrow> update_stage i f (update_stage i g r) = update_stage i (\<lambda>st. f (g st)) r"
  by (simp add: update_stage_def)

lemma apply_requests [simp]: "ws_requests (snd (apply_approved_request a tn c r s)) = ws_requests s"
  by (simp add: apply_approved_request_def split: option.split)

lemma list_all_takeI: "list_all P xs \<Longrightarrow> list_all P (take n xs)"
  by (auto simp: list_all_iff dest: in_set_takeD)

lemma evolves_complete:
  assumes "decidable r" and "request_ok r \<Longrightarrow> list_all stage_passed (wr_stages (stage_done dc a sid r))"
  shows "evolves r (fst (apply_approved_request b tn c
           (add_history b ''WORKFLOW_APPROVED'' (Some IN_REVIEW) (Some APPROVED) None ((stage_done dc a sid r)\<lparr>wr_state := APPROVED\<rparr>)) s))"
  using assms
  by (auto simp: apply_approved_request_def evolve_simps decidable_def intro: list_all_takeI split: option.split)

lemma put_step: "wf_get t tn (wr_id r) = Some r \<Longrightarrow> evolves r r' \<Longrightarrow> tstep\<^sup>*\<^sup>* t (wf_put t tn r')"
  by (rule r_into_rtranclp, rule tstep.update[of t tn r' r]) (simp_all add: evolves_def)

lemma reject_steps:
  assumes "wf_get (ws_requests s) (tc_tenant_id tc) (wr_id r) = Some r" and "decidable r"
  shows "tstep\<^sup>*\<^sup>* (ws_requests s) (ws_requests (snd (reject_branch tc now st rule c r s)))"
  using put_step[OF assms(1) evolves_reject[OF assms(2)]]
  by (simp add: reject_branch_def Let_def)

lemma more_info_steps:
  assumes "wf_get (ws_requests s) (tc_tenant_id tc) (wr_id r) = Some r" and "decidable r"
  shows "tstep\<^sup>*\<^sup>* (ws_requests s) (ws_requests (snd (more_info_branch tc now st rule c r s)))"
  using put_step[OF assms(1) evolves_more_info[OF assms(2)]]
  by (simp add: more_info_branch_def Let_def)

lemma advance_steps:
  assumes "wf_get (ws_requests s) (tc_tenant_id tc) (wr_id r) = Some r" and "decidable r"
    and next_stage: "Suc (wr_current_stage_index r) < length (wr_stages r)"
    and passed: "request_ok r \<Longrightarrow> list_all stage_passed (take (Suc (wr_current_stage_index r)) (wr_stages (stage_done dc a sid r)))"
  shows "tstep\<^sup>*\<^sup>* (ws_requests s) (ws_requests (snd (advance_stage env tc now d ds (stage_done dc a sid r) s)))"
proof -
  let ?i = "Suc (wr_current_stage_index r)"
  let ?r2 = "(stage_done dc a sid r)\<lparr>wr_current_stage_index := ?i\<rparr>"
  have step: "tstep\<^sup>*\<^sup>* (ws_requests s) (wf_put (ws_requests s) (tc_tenant_id tc)
      (add_history ''system'' ''ADVANCE_STAGE'' None None sid' (update_stage ?i g ?r2)))" for g sid'
    by (rule put_step[OF assms(1)]) (rule evolves_advance[OF assms(2,3) passed])
  have twice: "update_stage ?i f (update_stage ?i g ?r2) = update_stage ?i (\<lambda>st. f (g st)) ?r2" for f g
    using next_stage by (intro update_stage_twice) simp
  show ?thesis
    by (auto simp: advance_stage_def Let_def twice step split: option.split prod.split sum.split)
qed

lemma complete_steps:
  assumes "wf_get (ws_requests s) (tc_tenant_id tc) (wr_id r) = Some r" and "decidable r"
    and "request_ok r \<Longrightarrow> list_all stage_passed (wr_stages (stage_done dc a sid r))"
  shows "tstep\<^sup>*\<^sup>* (ws_requests s) (ws_requests (snd (complete_request tc c (stage_done dc a sid r) s)))"
proof -
  let ?r1 = "add_history (tc_user_id tc) ''WORKFLOW_APPROVED'' (Some IN_REVIEW) (Some APPROVED) None ((stage_done dc a sid r)\<lparr>wr_state := APPROVED\<rparr>)"
  let ?s1 = "record_audit ''WORKFLOW_REQUEST_APPROVED'' (tc_user_id tc) ''WORKFLOW_APPROVED'' (wr_id r) (tc_tenant_id tc) s"
  have "tstep\<^sup>*\<^sup>* (ws_requests s) (wf_put (ws_requests s) (tc_tenant_id tc)
      (fst (apply_approved_request (tc_user_id tc) (tc_tenant_id tc) c ?r1 ?s1)))"
    by (rule put_step[OF assms(1)], rule evolves_complete[OF assms(2)]) (rule assms(3))
  then show ?thesis
    by (simp add: complete_request_def Let_def case_prod_beta)
qed

lemma approve_steps:
  assumes stored: "wf_get (ws_requests s) (tc_tenant_id tc) (wr_id r) = Some r" and dec: "decidable r"
  shows "tstep\<^sup>*\<^sup>* (ws_requests s) (ws_requests (snd (approve_branch env tc c d ds st rule cm r s)))"
proof -
  let ?i = "wr_current_stage_index r"
  let ?dc = "new_decision st APPROVE (tc_user_id tc) rule cm (cl_now c)"
  let ?st = "wr_stages (add_decision ?dc r) ! ?i"
  let ?r2 = "stage_done ?dc (tc_user_id tc) (Some (st_stage_id st)) r"
  let ?s2 = "record_audit ''WORKFLOW_STAGE_APPROVED'' (tc_user_id tc) ''WORKFLOW_STAGE_APPROVED'' (wr_id r) (tc_tenant_id tc) s"
  show ?thesis
  proof (cases "st_mode ?st = SERIAL \<or> is_quorum_met ?st")
    case False
    then show ?thesis
      using put_step[OF stored evolves_more_info[OF dec]] by (simp add: approve_branch_def Let_def)
  next
    case True
    then have passed: "list_all stage_passed (take (Suc ?i) (wr_stages ?r2))" if "request_ok r"
      using stage_done_passed[OF dec that, of ?dc] by (simp add: new_decision_def Let_def)
    have i: "?i < length (wr_stages r)" using dec by (simp add: decidable_def)
    have stored2: "wf_get (ws_requests ?s2) (tc_tenant_id tc) (wr_id r) = Some r" using stored by simp
    have branch: "approve_branch env tc c d ds st rule cm r s =
        (if Suc ?i < length (wr_stages r) then advance_stage env tc (cl_now c) d ds ?r2 ?s2 else complete_request tc c ?r2 ?s2)"
      using True by (simp add: approve_branch_def Let_def stage_done_def)
    show ?thesis
    proof (cases "Suc ?i < length (wr_stages r)")
      case True
      then show ?thesis using advance_steps[OF stored2 dec True passed] branch by simp
    next
      case False
      then show ?thesis using complete_steps[OF stored2 dec, of ?dc] passed branch i by simp
    qed
  qed
qed

lemma decision_steps:
  assumes "wf_ok (ws_requests s)"
  shows "tstep\<^sup>*\<^sup>* (ws_requests s) (ws_requests (snd (record_decision env ctx i dq c s)))"
proof (cases "require_tenant_context ctx")
  case (Inr tc)
  show ?thesis
  proof (cases "wf_get (ws_requests s) (tc_tenant_id tc) i")
    case (Some r)
    have stored: "wf_get (ws_requests s) (tc_tenant_id tc) (wr_id r) = Some r" and ok: "request_ok r"
      using Some assms wf_get_ident[of "ws_requests s" "tc_tenant_id tc" i r] by (auto simp: wf_ok_iff)
    have dec: "decidable r" if "\<not> finalized (wr_state r)" "current_stage r = Some st" for st
      using open_in_review[OF ok that(1)] current_stageD[OF that(2)] by (cases "wr_stages r = []") (simp_all add: decidable_def)
    show ?thesis
      using Inr Some reject_steps[of "s\<lparr>ws_resolver := _\<rparr>" tc r] more_info_steps[of "s\<lparr>ws_resolver := _\<rparr>" tc r]
        approve_steps[of "s\<lparr>ws_resolver := _\<rparr>" tc r] stored dec
      by (auto simp: record_decision_def Let_def split: option.split sum.split prod.split outcome.split)
  qed (simp add: record_decision_def Inr)
qed (simp add: record_decision_def)

lemma withdraw_steps:
  assumes "wf_ok (ws_requests s)"
  shows "tstep\<^sup>*\<^sup>* (ws_requests s) (ws_requests (snd (withdraw_request ctx i s)))"
proof (cases "require_tenant_context ctx")
  case (Inr tc)
  show ?thesis
  proof (cases "wf_get (ws_requests s) (tc_tenant_id tc) i")
    case (Some r)
    then have "wf_get (ws_requests s) (tc_tenant_id tc) (wr_id r) = Some r" "request_ok r"
      using assms wf_get_ident[of "ws_requests s" "tc_tenant_id tc" i r] by (auto simp: wf_ok_iff)
    from put_step[OF this(1) evolves_withdraw[OF this(2)]] show ?thesis
      using Inr Some by (simp add: withdraw_request_def save_request_Inr)
  qed (simp add: withdraw_request_def Inr)
qed (simp add: withdraw_request_def)

definition request_id_of :: "tenant_context \<Rightarrow> call \<Rightarrow> string" where
  "request_id_of tc c = ''wf-req-'' @ take 8 (tc_tenant_id tc) @ ''-'' @ cl_uid c"

definition fresh_id :: "string \<Rightarrow> request_table \<Rightarrow> bool" where
  "fresh_id i t \<longleftrightarrow> \<not> list_ex (\<lambda>row. rw_id row = i) t"

lemma new_request_simps [simp]:
  "wr_id (new_request env tc dto c d) = request_id_of tc c" "wr_tenant_id (new_request env tc dto c d) = tc_tenant_id tc"
  "wr_state (new_request env tc dto c d) = SUBMITTED" "wr_current_stage_index (new_request env tc dto c d) = 0"
  "wr_stages (new_request env tc dto c d) = map runtime_stage (wd_stages d)" "wr_history (new_request env tc dto c d) = []"
  "wr_requester_id (new_request env tc dto c d) = tc_user_id tc" "wr_request_type (new_request env tc dto c d) = sr_request_type dto"
  by (simp_all add: new_request_def request_id_of_def Let_def)

lemma put_new:
  "fresh_id (wr_id r) t \<Longrightarrow> wr_tenant_id r = tn \<Longrightarrow> request_ok r \<Longrightarrow> tstep\<^sup>*\<^sup>* t (wf_put t tn r)"
  by (rule r_into_rtranclp) (simp add: fresh_id_def tstep.create)

lemma escalate_request_simps [simp]:
  "wr_id (escalate_request now r) = wr_id r" "wr_tenant_id (escalate_request now r) = wr_tenant_id r"
  "request_ok (escalate_request now r) = request_ok r"
  by (auto simp: escalate_request_def request_ok_def auto_approved_def path_ok_append)

lemma initialize_stage_simps [simp]:
  "wr_id (initialize_stage res r) = wr_id r" "wr_tenant_id (initialize_stage res r) = wr_tenant_id r"
  by (simp_all add: initialize_stage_def)

lemma finish_submission_requests [simp]:
  "ws_requests (snd (finish_submission tc r s)) = wf_put (ws_requests s) (tc_tenant_id tc) r"
  by (simp add: finish_submission_def save_request_Inr)

lemma share_escalation_requests [simp]: "ws_requests (share_escalation k ep s) = ws_requests s"
  by (simp add: share_escalation_def split: option.split)

lemma submitted_ok:
  fixes env tc dto c d
  defines "r0 \<equiv> add_history (tc_user_id tc) ''SUBMIT'' None (Some SUBMITTED) None (new_request env tc dto c d)"
  shows "wd_stages d = [] \<Longrightarrow> request_ok r0"
    and "request_ok (fst (apply_approved_request ''system'' tn c
           (add_history ''system'' ''AUTO_APPROVE'' (Some SUBMITTED) (Some APPROVED) None (r0\<lparr>wr_state := APPROVED\<rparr>)) s))"
    and "wr_id (fst (apply_approved_request a tn c r s)) = wr_id r"
    and "wr_tenant_id (fst (apply_approved_request a tn c r s)) = wr_tenant_id r"
    and "request_ok (initialize_stage res r0)"
  by (auto simp: r0_def request_ok_def auto_approved_def apply_approved_request_def initialize_stage_def path_ok_append
      split: option.split)

lemma submit_steps:
  assumes "\<And>tc. ctx = Some tc \<Longrightarrow> fresh_id (request_id_of tc c) (ws_requests s)"
  shows "tstep\<^sup>*\<^sup>* (ws_requests s) (ws_requests (snd (submit_request env ctx dto c s)))"
proof (cases "require_tenant_context ctx")
  case (Inr tc)
  then have "ctx = Some tc" by (auto simp: require_tenant_context_def split: option.splits if_splits)
  with assms have fresh: "fresh_id (request_id_of tc c) (ws_requests s)" by simp
  show ?thesis
    using fresh
    by (auto simp: submit_request_def Inr Let_def case_prod_beta submitted_ok split: option.split sum.split prod.split
        intro!: put_new)
qed (simp add: submit_request_def)

text \<open>The background loops: the requests were read before the loop and each iteration rewrites at most its own.\<close>

lemma loop_steps:
  fixes body :: "workflow_request \<Rightarrow> 'o \<times> wf_system \<Rightarrow> 'o \<times> wf_system"
  assumes "wf_ok (ws_requests (snd acc))" and "distinct (map wr_id rs)"
    and "\<forall>r \<in> set rs. wf_get (ws_requests (snd acc)) tn (wr_id r) = Some r"
    and body: "\<And>r a. r \<in> set rs \<Longrightarrow> ws_requests (snd (body r a)) = ws_requests (snd a) \<or>
           (\<exists>r'. evolves r r' \<and> ws_requests (snd (body r a)) = wf_put (ws_requests (snd a)) tn r')"
  shows "tstep\<^sup>*\<^sup>* (ws_requests (snd acc)) (ws_requests (snd (fold body rs acc)))"
  using assms
proof (induction rs arbitrary: acc)
  case (Cons r rs)
  let ?t = "ws_requests (snd acc)" and ?t' = "ws_requests (snd (body r acc))"
  have step: "tstep\<^sup>*\<^sup>* ?t ?t'"
    using Cons.prems(4)[of r acc] put_step[of ?t tn r] Cons.prems(3) by auto
  then have "wf_ok ?t'" using Cons.prems(1) by (rule tsteps_wf_ok)
  moreover have "wf_get ?t' tn (wr_id r') = Some r'" if "r' \<in> set rs" for r'
  proof -
    have "wr_id r' \<noteq> wr_id r" using that Cons.prems(2) by (metis distinct.simps(2) image_eqI list.simps(9) set_map)
    moreover have "table_ok ?t" using Cons.prems(1) by (simp add: wf_ok_def)
    moreover have "saveable ?t tn x" "wr_id x = wr_id r" if "evolves r x" for x
      using that update_saveable[of ?t tn x r] Cons.prems(3) by (simp_all add: evolves_def)
    moreover have "wf_get ?t tn (wr_id r') = Some r'" using Cons.prems(3) that by simp
    ultimately show ?thesis using Cons.prems(4)[of r acc] by (auto simp: store_simps)
  qed
  ultimately have "tstep\<^sup>*\<^sup>* ?t' (ws_requests (snd (fold body rs (body r acc))))"
    using Cons.IH[of "body r acc"] Cons.prems by simp
  with step show ?case by (simp add: rtranclp_trans)
qed simp

lemma open_requests_stored:
  assumes "table_ok (ws_requests s)"
  shows "distinct (map wr_id (open_requests s tn))"
    and "r \<in> set (open_requests s tn) \<Longrightarrow> wf_get (ws_requests s) tn (wr_id r) = Some r \<and> wr_state r = IN_REVIEW"
proof -
  show "distinct (map wr_id (open_requests s tn))" unfolding open_requests_def using assms by (rule distinct_wf_list)
  assume r: "r \<in> set (open_requests s tn)"
  then obtain row where "row \<in> set (ws_requests s)" "rw_request row = r" "rw_state row = IN_REVIEW"
    by (auto simp: open_requests_def wf_list_def row_matches_def dest!: in_set_takeD)
  then have "wr_state r = IN_REVIEW" using table_okD[OF assms] by (auto simp: row_ok_def Let_def)
  then show "wf_get (ws_requests s) tn (wr_id r) = Some r \<and> wr_state r = IN_REVIEW"
    using wf_list_stored[OF assms r[unfolded open_requests_def]] by simp
qed

lemma snd_wf_save: "snd (wf_save t tn r) = wf_put t tn r"
  by (simp add: wf_put_def)

lemma escalate_one_table:
  "ws_requests (snd (escalate_one tn now r a)) =
     (if escalation_due now r then wf_put (ws_requests (snd a)) tn (escalate_request now r) else ws_requests (snd a))"
  by (simp add: escalate_one_def Let_def case_prod_beta snd_wf_save)

lemma expire_one_table:
  "ws_requests (snd (expire_one tn now r a)) =
     (if overdue now r \<and> auto_rejects (snd a) tn r then wf_put (ws_requests (snd a)) tn (expire_request r) else ws_requests (snd a))"
  by (simp add: expire_one_def Let_def case_prod_beta snd_wf_save)

lemma loops_steps:
  assumes "wf_ok (ws_requests s)"
  shows "tstep\<^sup>*\<^sup>* (ws_requests s) (ws_requests (snd (evaluate_escalations ctx now s)))"
    and "tstep\<^sup>*\<^sup>* (ws_requests s) (ws_requests (snd (evaluate_expirations ctx now s)))"
proof -
  have t: "table_ok (ws_requests s)" using assms by (simp add: wf_ok_def)
  have loop: "tstep\<^sup>*\<^sup>* (ws_requests s) (ws_requests (snd (fold body (open_requests s tn) ([], s))))"
    if "\<And>r a. wr_state r = IN_REVIEW \<Longrightarrow> ws_requests (snd (body r a)) = ws_requests (snd a) \<or>
           (\<exists>r'. evolves r r' \<and> ws_requests (snd (body r a)) = wf_put (ws_requests (snd a)) tn r')"
    for tn and body :: "workflow_request \<Rightarrow> workflow_request list \<times> wf_system \<Rightarrow> workflow_request list \<times> wf_system"
    using loop_steps[of "([], s)" "open_requests s tn" tn body] assms open_requests_stored[OF t] that
    unfolding snd_conv by blast
  have esc: "tstep\<^sup>*\<^sup>* (ws_requests s) (ws_requests (snd (fold (escalate_one tn now) (open_requests s tn) ([], s))))" for tn
  proof -
    have "evolves r (escalate_request now r)" if "wr_state r = IN_REVIEW" for r
      using that by (intro evolves_escalate) (simp add: finalized_def)
    then show ?thesis by (intro loop) (auto simp: escalate_one_table)
  qed
  have expi: "tstep\<^sup>*\<^sup>* (ws_requests s) (ws_requests (snd (fold (expire_one tn now) (open_requests s tn) ([], s))))" for tn
    using evolves_expire by (intro loop) (auto simp: expire_one_table)
  show "tstep\<^sup>*\<^sup>* (ws_requests s) (ws_requests (snd (evaluate_escalations ctx now s)))"
    using esc by (simp add: evaluate_escalations_def case_prod_beta split: sum.split)
  show "tstep\<^sup>*\<^sup>* (ws_requests s) (ws_requests (snd (evaluate_expirations ctx now s)))"
    using expi by (simp add: evaluate_expirations_def case_prod_beta split: sum.split)
qed

section \<open>Runs\<close>

text \<open>
  The calls that reach the engine, with their arguments: those of the service, and the changes
  of its configuration (definitions, the role directory, the leave list, the appliers).
\<close>

datatype wf_event =
    Submit "tenant_context option" submit_dto call
  | Decide "tenant_context option" string decision_dto call
  | Withdraw "tenant_context option" string
  | Delegate "tenant_context option" delegation_dto string
  | Escalate "tenant_context option" int
  | Expire "tenant_context option" int
  | Save_definition string workflow_definition
  | Register_role string string "string list"
  | Set_out_of_office string bool
  | Register_applier string

fun wf_step :: "wf_env \<Rightarrow> wf_event \<Rightarrow> wf_system \<Rightarrow> wf_system" where
  "wf_step env (Submit ctx dto c) s = snd (submit_request env ctx dto c s)"
| "wf_step env (Decide ctx i dq c) s = snd (record_decision env ctx i dq c s)"
| "wf_step env (Withdraw ctx i) s = snd (withdraw_request ctx i s)"
| "wf_step env (Delegate ctx dg uid) s = snd (register_delegation ctx dg uid s)"
| "wf_step env (Escalate ctx now) s = snd (evaluate_escalations ctx now s)"
| "wf_step env (Expire ctx now) s = snd (evaluate_expirations ctx now s)"
| "wf_step env (Save_definition tn d) s = s\<lparr>ws_definitions := save_definition (ws_definitions s) tn d\<rparr>"
| "wf_step env (Register_role tn role us) s = s\<lparr>ws_resolver := register_role_members tn role us (ws_resolver s)\<rparr>"
| "wf_step env (Set_out_of_office u b) s = s\<lparr>ws_resolver := set_user_out_of_office u b (ws_resolver s)\<rparr>"
| "wf_step env (Register_applier rt) s = register_applier rt s"

text \<open>The identifier a submission draws is not in the table yet.\<close>

fun fresh_event :: "wf_event \<Rightarrow> wf_system \<Rightarrow> bool" where
  "fresh_event (Submit (Some tc) dto c) s = fresh_id (request_id_of tc c) (ws_requests s)"
| "fresh_event e s = True"

inductive wf_reach :: "wf_env \<Rightarrow> wf_system \<Rightarrow> wf_system \<Rightarrow> bool" for env where
  reach_refl: "wf_reach env s s"
| reach_step: "wf_reach env s t \<Longrightarrow> fresh_event e t \<Longrightarrow> wf_reach env s (wf_step env e t)"

inductive_cases wf_reachE: "wf_reach env s t"

lemma event_steps:
  assumes "wf_ok (ws_requests s)" and "fresh_event e s"
  shows "tstep\<^sup>*\<^sup>* (ws_requests s) (ws_requests (wf_step env e s))"
proof (cases e)
  case (Submit ctx dto c)
  then show ?thesis using assms(2) by (auto intro!: submit_steps)
next
  case (Delegate ctx dg uid)
  then show ?thesis by (simp add: register_delegation_def save_delegation_def Let_def split: sum.split)
qed (use assms in \<open>simp_all add: decision_steps withdraw_steps loops_steps register_applier_def\<close>)

lemma reach_steps:
  "wf_reach env s t \<Longrightarrow> wf_ok (ws_requests s) \<Longrightarrow> tstep\<^sup>*\<^sup>* (ws_requests s) (ws_requests t)"
proof (induction rule: wf_reach.induct)
  case (reach_step s t e)
  then have "tstep\<^sup>*\<^sup>* (ws_requests s) (ws_requests t)" by blast
  moreover from this have "wf_ok (ws_requests t)" using reach_step.prems by (rule tsteps_wf_ok)
  ultimately show ?case using event_steps[OF _ reach_step.hyps(2)] by (meson rtranclp_trans)
qed simp

text \<open>The service as it starts: no rows, the catalogue of defaults, the built-in appliers.\<close>

definition wf_init :: wf_system where
  "wf_init = \<lparr> ws_requests = [], ws_definitions = [], ws_delegations = [], ws_defaults = DEFAULT_WORKFLOW_DEFINITIONS,
     ws_resolver = \<lparr> rs_role_memberships = [], rs_out_of_office = [] \<rparr>,
     ws_appliers = [''BUDGET_APPROVAL'', ''OVERRIDE_APPROVAL'', ''POLICY_EXEMPTION'', ''CUSTOM_ROLE_CREATION'', ''MASTER_DATA_CHANGE''],
     ws_audit = [] \<rparr>"

lemma wf_init_ok: "wf_ok (ws_requests wf_init)"
  by (simp add: wf_ok_def table_ok_def wf_init_def)

lemma reach_stored_ok:
  assumes "wf_reach env wf_init s" and "wf_get (ws_requests s) tn i = Some r"
  shows "request_ok r"
  using tsteps_wf_ok[OF reach_steps[OF assms(1) wf_init_ok] wf_init_ok] assms(2) by (auto simp: wf_ok_iff)

fun events_fresh :: "wf_env \<Rightarrow> wf_event list \<Rightarrow> wf_system \<Rightarrow> bool" where
  "events_fresh env [] s = True"
| "events_fresh env (e # es) s = (fresh_event e s \<and> events_fresh env es (wf_step env e s))"

lemma reach_run: "wf_reach env s t \<Longrightarrow> events_fresh env es t \<Longrightarrow> wf_reach env s (fold (wf_step env) es t)"
  by (induction es arbitrary: t) (auto intro: reach_step)

section \<open>The branches of a submission and of a decision\<close>

lemma submit_reviewed:
  assumes "require_tenant_context ctx = Inr tc"
    and "find_definition s (tc_tenant_id tc) (sr_request_type dto) = Some (d, key)"
    and "matches (we_parse_float env) (wd_trigger_condition d) (sr_payload dto) (sr_financial_impact dto) = Inr True"
    and "wd_stages d \<noteq> []"
    and "resolve_approvers (we_master_data env) (request_id_of tc c) (hd (wd_stages d)) (sr_subject_entity dto) tc
           (tenant_delegations s (tc_tenant_id tc)) (cl_now c) (Some (sr_request_type dto)) (ws_resolver s) = (Inr res, rs)"
    and "ra_unavailable res = []"
  shows "submit_request env ctx dto c s = finish_submission tc
           (initialize_stage res (add_history (tc_user_id tc) ''SUBMIT'' None (Some SUBMITTED) None (new_request env tc dto c d)))
           (s\<lparr>ws_resolver := rs\<rparr>)"
  using assms by (simp add: submit_request_def Let_def new_request_def request_id_of_def)

lemma submit_auto_approved:
  assumes "require_tenant_context ctx = Inr tc"
    and "find_definition s (tc_tenant_id tc) (sr_request_type dto) = Some (d, key)"
    and "matches (we_parse_float env) (wd_trigger_condition d) (sr_payload dto) (sr_financial_impact dto) = Inr False"
  shows "submit_request env ctx dto c s =
           (let (r, s') = apply_approved_request ''system'' (tc_tenant_id tc) c
                  (add_history ''system'' ''AUTO_APPROVE'' (Some SUBMITTED) (Some APPROVED) None
                    ((add_history (tc_user_id tc) ''SUBMIT'' None (Some SUBMITTED) None (new_request env tc dto c d))\<lparr>wr_state := APPROVED\<rparr>)) s
            in save_request (tc_tenant_id tc) r s')"
  using assms by (simp add: submit_request_def)

lemma decision_reaches_branch:
  assumes "require_tenant_context ctx = Inr tc" and "wf_get (ws_requests s) (tc_tenant_id tc) i = Some r"
    and "decidable r" and "current_stage_definition (find_definition s (tc_tenant_id tc) (wr_request_type r)) (wr_current_stage_index r) = Inr sd"
    and "authorise env tc (cl_now c) r (wr_stages r ! wr_current_stage_index r) sd (tenant_delegations s (tc_tenant_id tc)) (ws_resolver s) = (Inr rule, rs)"
  shows "record_decision env ctx i dq c s =
           (let st = wr_stages r ! wr_current_stage_index r; s1 = s\<lparr>ws_resolver := rs\<rparr> in
            case dq_decision dq of
              REJECT \<Rightarrow> reject_branch tc (cl_now c) st rule (dq_comment dq) r s1
            | REQUEST_MORE_INFO \<Rightarrow> more_info_branch tc (cl_now c) st rule (dq_comment dq) r s1
            | APPROVE \<Rightarrow> approve_branch env tc c (find_definition s (tc_tenant_id tc) (wr_request_type r))
                 (tenant_delegations s (tc_tenant_id tc)) st rule (dq_comment dq) r s1)"
  using assms by (simp add: record_decision_def decidable_def finalized_def current_stage_def Let_def)

lemma approve_last_stage:
  assumes "decidable r" and "Suc (wr_current_stage_index r) = length (wr_stages r)"
    and "dc = new_decision st APPROVE (tc_user_id tc) rule cm (cl_now c)"
    and "let st1 = wr_stages (add_decision dc r) ! wr_current_stage_index r in st_mode st1 = SERIAL \<or> is_quorum_met st1"
  shows "\<exists>s2. ws_appliers s2 = ws_appliers s \<and>
           ws_requests (snd (approve_branch env tc c d ds st rule cm r s)) =
             wf_put (ws_requests s) (tc_tenant_id tc) (fst (apply_approved_request (tc_user_id tc) (tc_tenant_id tc) c
               (add_history (tc_user_id tc) ''WORKFLOW_APPROVED'' (Some IN_REVIEW) (Some APPROVED) None
                 ((stage_done dc (tc_user_id tc) (Some (st_stage_id st)) r)\<lparr>wr_state := APPROVED\<rparr>)) s2))"
  using assms
  by (simp add: approve_branch_def Let_def complete_request_def case_prod_beta stage_done_def)
    (rule exI[of _ "record_audit _ _ _ _ _ (record_audit _ _ _ _ _ s)"], simp add: record_audit_def)

lemma registry_apply_cong:
  "wr_request_type r = wr_request_type r' \<Longrightarrow> wr_id r = wr_id r' \<Longrightarrow> registry_apply xs r e = registry_apply xs r' e"
  by (simp add: registry_apply_def)

lemma apply_success:
  assumes "registry_apply (ws_appliers s) r (cl_apply_error c) = None"
  shows "wr_state (fst (apply_approved_request a tn c r s)) = APPLIED"
    and "wr_stages (fst (apply_approved_request a tn c r s)) = wr_stages r"
    and "auto_approved (fst (apply_approved_request a tn c r s)) = auto_approved r"
  using assms by (simp_all add: apply_approved_request_def auto_approved_def)

section \<open>A run\<close>

definition demo_schedule :: work_schedule where
  "demo_schedule = \<lparr> ws_working_days = [1, 2, 3, 4, 5], ws_daily_start = 28800000000, ws_daily_end = 64800000000, ws_exclusions = [] \<rparr>"

definition wf_demo_env :: wf_env where
  "wf_demo_env = \<lparr> we_parse_float = (\<lambda>_. None), we_master_data = (\<lambda>_ _ _. None), we_schedule = (\<lambda>_ _. demo_schedule) \<rparr>"

definition demo_call :: "string \<Rightarrow> call" where
  "demo_call uid = \<lparr> cl_now = 1000, cl_apply_now = 1001, cl_uid = uid, cl_apply_error = None \<rparr>"

definition demo_dto :: "string \<Rightarrow> submit_dto" where
  "demo_dto rt = \<lparr> sr_request_type = rt, sr_title = ''title'', sr_subject_entity = demo_subject, sr_justification = ''why'',
     sr_payload = [], sr_previous_values = None, sr_financial_impact = Some 500 \<rparr>"

definition demo_user :: tenant_context where
  "demo_user = demo_ctx ''t1'' ''requester'' []"

definition demo_approver :: tenant_context where
  "demo_approver = demo_ctx ''t1'' ''sec-lead'' []"

definition demo_approval :: decision_dto where
  "demo_approval = \<lparr> dq_decision = APPROVE, dq_comment = None \<rparr>"

definition demo_rejection :: decision_dto where
  "demo_rejection = \<lparr> dq_decision = REJECT, dq_comment = Some '' no '' \<rparr>"

definition demo_id :: string where
  "demo_id = ''wf-req-t1-a1''"

text \<open>A budget below the approval limit, and an override that waits for security.\<close>

definition demo_auto :: wf_system where
  "demo_auto = wf_step wf_demo_env (Submit (Some demo_user) (demo_dto ''BUDGET_APPROVAL'') (demo_call ''a1'')) wf_init"

definition demo_open :: wf_system where
  "demo_open = wf_step wf_demo_env (Submit (Some demo_user) (demo_dto ''OVERRIDE_APPROVAL'') (demo_call ''a1'')) wf_init"

definition demo_rejected :: wf_system where
  "demo_rejected = wf_step wf_demo_env (Decide (Some demo_approver) demo_id demo_rejection (demo_call ''b'')) demo_open"

definition demo_applied :: wf_system where
  "demo_applied = wf_step wf_demo_env (Decide (Some demo_approver) demo_id demo_approval (demo_call ''b'')) demo_open"

lemma demo_reach:
  "wf_reach wf_demo_env wf_init demo_auto" "wf_reach wf_demo_env wf_init demo_open"
  "wf_reach wf_demo_env wf_init demo_rejected" "wf_reach wf_demo_env wf_init demo_applied"
  unfolding demo_auto_def demo_rejected_def demo_applied_def demo_open_def
  by (intro reach_step reach_refl; simp add: fresh_id_def wf_init_def)+

lemma demo_contexts:
  "require_tenant_context (Some demo_user) = Inr demo_user" "require_tenant_context (Some demo_approver) = Inr demo_approver"
  "request_id_of demo_user (demo_call ''a1'') = demo_id" "tc_tenant_id demo_user = ''t1''" "tc_tenant_id demo_approver = ''t1''"
  by code_simp+

lemma demo_definitions:
  "find_definition wf_init ''t1'' ''BUDGET_APPROVAL'' = Some (def_budget_approval, Some ''BUDGET_APPROVAL'')"
  "find_definition wf_init ''t1'' ''OVERRIDE_APPROVAL'' = Some (def_override_approval, Some ''OVERRIDE_APPROVAL'')"
  by code_simp+

text \<open>The requests of the run.\<close>

definition demo_budget :: workflow_request where
  "demo_budget =
     fst (apply_approved_request ''system'' ''t1'' (demo_call ''a1'')
       (add_history ''system'' ''AUTO_APPROVE'' (Some SUBMITTED) (Some APPROVED) None
         ((add_history ''requester'' ''SUBMIT'' None (Some SUBMITTED) None
             (new_request wf_demo_env demo_user (demo_dto ''BUDGET_APPROVAL'') (demo_call ''a1'') def_budget_approval))\<lparr>wr_state := APPROVED\<rparr>)) wf_init)"

definition demo_security :: resolved_approvers where
  "demo_security =
     \<lparr> ra_primary_approvers = [''t1-security-lead'', ''sec-lead'', ''user-security-lead''],
       ra_effective_approvers = [''t1-security-lead'', ''sec-lead'', ''user-security-lead''],
       ra_delegation_map = [], ra_unavailable = [] \<rparr>"

definition demo_override :: workflow_request where
  "demo_override = initialize_stage demo_security (add_history ''requester'' ''SUBMIT'' None (Some SUBMITTED) None
     (new_request wf_demo_env demo_user (demo_dto ''OVERRIDE_APPROVAL'') (demo_call ''a1'') def_override_approval))"

lemma fresh_put: "wf_get (wf_put [] tn r) tn (wr_id r) = Some (r\<lparr>wr_tenant_id := tn\<rparr>)"
  by (simp add: wf_put_def wf_save_def Let_def wf_get_def row_at_def new_row_def)

lemma demo_fields:
  "cl_now (demo_call u) = 1000" "sr_request_type (demo_dto rt) = rt" "sr_subject_entity (demo_dto rt) = demo_subject"
  "sr_payload (demo_dto rt) = []" "sr_financial_impact (demo_dto rt) = Some 500" "ws_requests wf_init = []"
  "ra_unavailable demo_security = []" "tc_user_id demo_user = ''requester''" "tc_user_id demo_approver = ''sec-lead''"
  "dq_decision demo_approval = APPROVE" "dq_decision demo_rejection = REJECT" "dq_comment demo_approval = None"
  "dq_comment demo_rejection = Some '' no ''"
  by (simp_all add: demo_call_def demo_dto_def wf_init_def demo_security_def demo_user_def demo_approver_def demo_ctx_def
      demo_approval_def demo_rejection_def)

lemmas demo_simps = demo_contexts demo_definitions demo_fields

lemma demo_submit:
  "submit_request wf_demo_env (Some demo_user) (demo_dto ''OVERRIDE_APPROVAL'') (demo_call ''a1'') wf_init =
     finish_submission demo_user demo_override wf_init"
proof -
  have "wd_stages def_override_approval \<noteq> []"
    "matches (we_parse_float wf_demo_env) (wd_trigger_condition def_override_approval) [] (Some 500) = Inr True"
    "resolve_approvers (we_master_data wf_demo_env) demo_id (hd (wd_stages def_override_approval)) demo_subject demo_user
       (tenant_delegations wf_init ''t1'') 1000 (Some ''OVERRIDE_APPROVAL'') (ws_resolver wf_init) = (Inr demo_security, ws_resolver wf_init)"
    by code_simp+
  then show ?thesis
    by (subst submit_reviewed[OF demo_contexts(1), of _ _ def_override_approval _ _ _ demo_security "ws_resolver wf_init"])
      (simp_all add: demo_simps demo_override_def)
qed

lemma demo_stored:
  "wf_get (ws_requests demo_auto) ''t1'' demo_id = Some demo_budget"
  "wf_get (ws_requests demo_open) ''t1'' demo_id = Some demo_override"
proof -
  have "matches (we_parse_float wf_demo_env) (wd_trigger_condition def_budget_approval) [] (Some 500) = Inr False"
    by (simp add: matches_def def_budget_approval_def)
  then have "ws_requests demo_auto = wf_put [] ''t1'' demo_budget"
    unfolding demo_auto_def wf_step.simps
    by (subst submit_auto_approved[OF demo_contexts(1), of _ _ def_budget_approval])
      (simp_all add: demo_simps Let_def case_prod_beta demo_budget_def)
  moreover have "wr_id demo_budget = demo_id" "wr_tenant_id demo_budget = ''t1''"
    by (simp_all add: demo_budget_def submitted_ok demo_contexts)
  ultimately show "wf_get (ws_requests demo_auto) ''t1'' demo_id = Some demo_budget"
    using fresh_put[of "''t1''" demo_budget] by simp
next
  have "ws_requests demo_open = wf_put [] ''t1'' demo_override"
    unfolding demo_open_def wf_step.simps demo_submit by (simp add: demo_simps)
  moreover have "wr_id demo_override = demo_id" "wr_tenant_id demo_override = ''t1''"
    by (simp_all add: demo_override_def demo_contexts)
  ultimately show "wf_get (ws_requests demo_open) ''t1'' demo_id = Some demo_override"
    using fresh_put[of "''t1''" demo_override] by simp
qed

lemma demo_open_config:
  "ws_definitions demo_open = ws_definitions wf_init" "ws_defaults demo_open = ws_defaults wf_init"
  "ws_delegations demo_open = ws_delegations wf_init" "ws_resolver demo_open = ws_resolver wf_init" "ws_appliers demo_open = ws_appliers wf_init"
  unfolding demo_open_def wf_step.simps demo_submit by (simp_all add: finish_submission_def save_request_Inr record_audit_def)

lemma demo_override_fields:
  "wr_id demo_override = demo_id" "wr_tenant_id demo_override = ''t1''" "wr_request_type demo_override = ''OVERRIDE_APPROVAL''"
  "wr_state demo_override = IN_REVIEW" "wr_current_stage_index demo_override = 0" "wr_subject_entity demo_override = demo_subject"
  "wr_stages demo_override = [(runtime_stage demo_stage)\<lparr>st_assigned_approvers := [''t1-security-lead'', ''sec-lead'', ''user-security-lead''],
      st_status := STAGE_IN_REVIEW\<rparr>]" "decidable demo_override"
proof -
  have st: "wd_stages def_override_approval = [demo_stage]" by (simp add: def_override_approval_def demo_stage_def)
  show "wr_id demo_override = demo_id" "wr_tenant_id demo_override = ''t1''" "wr_request_type demo_override = ''OVERRIDE_APPROVAL''"
    "wr_state demo_override = IN_REVIEW" "wr_current_stage_index demo_override = 0" "decidable demo_override"
    by (simp_all add: demo_override_def demo_contexts initialize_stage_def demo_simps decidable_def st)
  show "wr_subject_entity demo_override = demo_subject"
    by (simp add: demo_override_def initialize_stage_def new_request_def Let_def demo_simps)
  show "wr_stages demo_override = [(runtime_stage demo_stage)\<lparr>st_assigned_approvers := [''t1-security-lead'', ''sec-lead'', ''user-security-lead''],
      st_status := STAGE_IN_REVIEW\<rparr>]"
    by (simp add: demo_override_def initialize_stage_def st demo_security_def)
qed

lemma demo_open_definition:
  "find_definition demo_open ''t1'' ''OVERRIDE_APPROVAL'' = Some (def_override_approval, Some ''OVERRIDE_APPROVAL'')"
  using demo_definitions(2) unfolding find_definition_def demo_open_config .

lemma demo_decision:
  "record_decision wf_demo_env (Some demo_approver) demo_id dq (demo_call ''b'') demo_open =
     (let st = wr_stages demo_override ! 0 in
      case dq_decision dq of
        REJECT \<Rightarrow> reject_branch demo_approver 1000 st None (dq_comment dq) demo_override demo_open
      | REQUEST_MORE_INFO \<Rightarrow> more_info_branch demo_approver 1000 st None (dq_comment dq) demo_override demo_open
      | APPROVE \<Rightarrow> approve_branch wf_demo_env demo_approver (demo_call ''b'') (Some (def_override_approval, Some ''OVERRIDE_APPROVAL''))
           [] st None (dq_comment dq) demo_override demo_open)"
proof -
  have ds: "tenant_delegations demo_open ''t1'' = []"
    by (simp add: tenant_delegations_def demo_open_config wf_init_def list_delegations_def Let_def)
  have sd: "current_stage_definition (Some (def_override_approval, Some ''OVERRIDE_APPROVAL'')) 0 = Inr (Some demo_stage)"
    by (simp add: current_stage_definition_def def_override_approval_def demo_stage_def)
  have "resolve_approvers (we_master_data wf_demo_env) demo_id demo_stage demo_subject demo_approver [] 1000
      (Some ''OVERRIDE_APPROVAL'') (ws_resolver wf_init) = (Inr demo_security, ws_resolver wf_init)"
    by code_simp
  moreover have "may_decide demo_security st spec demo_approver" "acting_rule demo_security (tc_user_id demo_approver) [] n rt = None" for st spec n rt
    by (simp_all add: may_decide_def is_authorized_def demo_security_def demo_simps acting_rule_def get_delegation_for_def)
  ultimately have au: "authorise wf_demo_env demo_approver 1000 demo_override st (Some demo_stage) [] (ws_resolver wf_init) = (Inr None, ws_resolver wf_init)" for st
    by (simp add: authorise_def demo_override_fields)
  have same: "demo_open\<lparr>ws_resolver := ws_resolver wf_init\<rparr> = demo_open"
    using demo_open_config(4) by (metis wf_system.surjective wf_system.update_convs(5))
  show ?thesis
    by (subst decision_reaches_branch[OF demo_contexts(2), of _ _ demo_override "Some demo_stage" _ _ None "ws_resolver wf_init"])
      (simp_all add: demo_simps demo_override_fields demo_stored demo_open_definition ds sd au same demo_open_config Let_def split: outcome.split)
qed

lemma demo_decided:
  "\<exists>r. wf_get (ws_requests demo_rejected) ''t1'' demo_id = Some r \<and> wr_state r = REJECTED"
  "\<exists>r. wf_get (ws_requests demo_applied) ''t1'' demo_id = Some r \<and> wr_state r = APPLIED \<and> wr_stages r \<noteq> []
      \<and> \<not> auto_approved r"
proof -
  have ok: "table_ok (ws_requests demo_open)"
    using tsteps_wf_ok[OF reach_steps[OF demo_reach(2) wf_init_ok] wf_init_ok] by (simp add: wf_ok_def)
  have stored: "wf_get (ws_requests demo_open) ''t1'' (wr_id demo_override) = Some demo_override"
    using demo_stored(2) by (simp add: demo_override_fields)
  have put: "wf_get (wf_put (ws_requests demo_open) ''t1'' r) ''t1'' demo_id = Some r" if "evolves demo_override r" for r
  proof -
    have "wr_id r = demo_id" "wr_tenant_id r = ''t1''" using that by (auto simp: evolves_def demo_override_fields)
    then show ?thesis using requests.get_save[OF ok update_saveable[OF _ that]] stored by (simp add: demo_override_fields)
  qed
  have nb: "\<not> blank (Some '' no '')" by code_simp
  show "\<exists>r. wf_get (ws_requests demo_rejected) ''t1'' demo_id = Some r \<and> wr_state r = REJECTED"
    unfolding demo_rejected_def wf_step.simps demo_decision
    using put[OF evolves_reject[OF demo_override_fields(8) nb]] nb
    by (simp add: demo_simps reject_branch_def Let_def)
  let ?dc = "new_decision (wr_stages demo_override ! 0) APPROVE ''sec-lead'' None None 1000"
  let ?sid = "Some (st_stage_id (wr_stages demo_override ! 0))"
  have serial: "st_mode (wr_stages (add_decision ?dc demo_override) ! wr_current_stage_index demo_override) = SERIAL"
    by (simp add: add_decision_def demo_override_fields runtime_stage_def demo_stage_def def_override_approval_def)
  have "request_ok demo_override \<Longrightarrow> list_all stage_passed (wr_stages (stage_done ?dc ''sec-lead'' ?sid demo_override))"
    using stage_done_passed[OF demo_override_fields(8), of ?dc] serial
    by (simp add: new_decision_def demo_override_fields Let_def)
  note fin = put[OF evolves_complete[OF demo_override_fields(8) this]]
  obtain s2 where s2: "ws_requests (snd (approve_branch wf_demo_env demo_approver (demo_call ''b'')
        (Some (def_override_approval, Some ''OVERRIDE_APPROVAL'')) [] (wr_stages demo_override ! 0) None None demo_override demo_open)) =
      wf_put (ws_requests demo_open) ''t1'' (fst (apply_approved_request ''sec-lead'' ''t1'' (demo_call ''b'')
         (add_history ''sec-lead'' ''WORKFLOW_APPROVED'' (Some IN_REVIEW) (Some APPROVED) None
           ((stage_done ?dc ''sec-lead'' ?sid demo_override)\<lparr>wr_state := APPROVED\<rparr>)) s2))"
    using approve_last_stage[OF demo_override_fields(8), of ?dc "wr_stages demo_override ! 0" demo_approver None None "demo_call ''b''"
        demo_open wf_demo_env "Some (def_override_approval, Some ''OVERRIDE_APPROVAL'')" "[]"] serial
    by (auto simp: demo_simps Let_def demo_override_fields)
  have none: "registry_apply xs r (cl_apply_error (demo_call ''b'')) = None" for xs r by (simp add: registry_apply_def demo_call_def)
  have "ws_requests demo_applied = ws_requests (snd (approve_branch wf_demo_env demo_approver (demo_call ''b'')
        (Some (def_override_approval, Some ''OVERRIDE_APPROVAL'')) [] (wr_stages demo_override ! 0) None None demo_override demo_open))"
    unfolding demo_applied_def wf_step.simps demo_decision by (simp add: demo_fields Let_def)
  moreover have "\<not> auto_approved demo_override"
    by (simp add: auto_approved_def demo_override_def initialize_stage_def)
  moreover have "wr_stages demo_override \<noteq> []" by (simp add: demo_override_fields)
  ultimately show "\<exists>r. wf_get (ws_requests demo_applied) ''t1'' demo_id = Some r \<and> wr_state r = APPLIED \<and> wr_stages r \<noteq> []
      \<and> \<not> auto_approved r"
    using fin[of "''sec-lead''" "''t1''" "demo_call ''b''" s2] apply_success[OF none] unfolding s2
    by (auto simp: auto_approved_def stage_done_def set_stage_status_def add_decision_def)
qed

end
