(* ===== verification/Workflow_Theorems.thy ===== *)
theory Workflow_Theorems
  imports Workflow_Runs
begin

text \<open>
  The properties of the workflow engine over its runs: the life cycle of a request, what an applied and a
  rejected request have behind them, who may decide, that overdue requests expire, that approvals lead
  to application, and where the engine does less than it promises.
\<close>

section \<open>Safety over runs\<close>

text \<open>
  C10. A stored request follows the life cycle and is never lost: after any further run it is still there, its
  history has only grown, by entries that lead from the old state to the new one along the life
  cycle, and a request that was rejected, withdrawn, expired or applied is unchanged in every field.
\<close>

theorem request_life_cycle:
  assumes "wf_reach env wf_init s" and "wf_reach env s t" and "wf_get (ws_requests s) tn i = Some r"
  shows "\<exists>r'. wf_get (ws_requests t) tn i = Some r' \<and> (finalized (wr_state r) \<longrightarrow> r' = r)
           \<and> wf_trans\<^sup>*\<^sup>* (wr_state r) (wr_state r')
           \<and> (\<exists>hs. wr_history r' = wr_history r @ hs \<and> path_ok (wr_state r) hs (wr_state r'))"
proof -
  have ok: "wf_ok (ws_requests s)" using tsteps_wf_ok[OF reach_steps[OF assms(1) wf_init_ok] wf_init_ok] .
  obtain r' where r': "wf_get (ws_requests t) tn i = Some r'" "evolves\<^sup>*\<^sup>* r r'"
    using tsteps_get[OF reach_steps[OF assms(2) ok] ok assms(3)] by blast
  obtain hs where "wr_history r' = wr_history r @ hs" "path_ok (wr_state r) hs (wr_state r')"
    using evolves_history[OF r'(2)] by blast
  then show ?thesis using r' evolves_final[OF r'(2)] path_ok_trans by blast
qed

theorem request_life_cycle_witness:
  "\<exists>r'. wf_get (ws_requests demo_rejected) ''t1'' demo_id = Some r' \<and> wf_trans\<^sup>*\<^sup>* IN_REVIEW (wr_state r')
      \<and> (\<exists>hs. wr_history r' = wr_history demo_override @ hs \<and> path_ok IN_REVIEW hs (wr_state r'))"
proof -
  have "wf_reach wf_demo_env demo_open demo_rejected"
    unfolding demo_rejected_def by (rule reach_step[OF reach_refl]) simp
  from request_life_cycle[OF demo_reach(2) this demo_stored(2)] show ?thesis
    by (auto simp: demo_override_fields)
qed

text \<open>Where an applied request can come from: a table that was rewritten, or what was put into it.\<close>

lemma wf_get_put_cases:
  assumes "wf_get (wf_put t tn r) tn' i = Some x"
  shows "wf_get t tn' i = Some x \<or> i = wr_id r \<and> x = r\<lparr>wr_tenant_id := tn\<rparr>"
proof -
  let ?f = "\<lambda>row. if rw_id row = wr_id r then row\<lparr>rw_state := wr_state (r\<lparr>wr_tenant_id := tn\<rparr>), rw_request := r\<lparr>wr_tenant_id := tn\<rparr>\<rparr> else row"
  have edit: "row_at (map ?f t) tn' i = map_option ?f (row_at t tn' i)" unfolding row_at_def by (rule find_map_same) simp
  show ?thesis
  proof (cases "list_ex (\<lambda>row. rw_id row = wr_id r) t")
    case True
    with assms have "map_option rw_request (map_option ?f (row_at t tn' i)) = Some x"
      unfolding edit[symmetric] by (simp add: wf_get_def wf_put_def wf_save_def Let_def)
    moreover have "rw_id row = i" if "row_at t tn' i = Some row" for row using find_SomeD[OF that[unfolded row_at_def]] by simp
    ultimately show ?thesis by (auto simp: wf_get_def split: if_splits)
  next
    case False
    with assms show ?thesis
      by (auto simp: wf_get_def wf_put_def wf_save_def Let_def row_at_def find_append new_row_def split: option.splits if_splits)
  qed
qed

definition applied_before :: "request_table \<Rightarrow> request_table \<Rightarrow> bool" where
  "applied_before t t' \<longleftrightarrow> (\<forall>tn i r. wf_get t' tn i = Some r \<longrightarrow> wr_state r = APPLIED \<longrightarrow> wf_get t tn i = Some r)"

lemma applied_before_refl [simp]: "applied_before t t"
  by (simp add: applied_before_def)

lemma applied_before_put [intro]: "wr_state r \<noteq> APPLIED \<Longrightarrow> applied_before t (wf_put t tn r)"
  by (auto simp: applied_before_def dest!: wf_get_put_cases)

lemma applied_before_fold:
  fixes body :: "workflow_request \<Rightarrow> 'o \<times> wf_system \<Rightarrow> 'o \<times> wf_system"
  assumes "\<And>r a. r \<in> set rs \<Longrightarrow> applied_before (ws_requests (snd a)) (ws_requests (snd (body r a)))"
  shows "applied_before (ws_requests (snd acc)) (ws_requests (snd (fold body rs acc)))"
  using assms
proof (induction rs arbitrary: acc)
  case (Cons r rs)
  then have "applied_before (ws_requests (snd (body r acc))) (ws_requests (snd (fold body rs (body r acc))))"
    "applied_before (ws_requests (snd acc)) (ws_requests (snd (body r acc)))" by simp_all
  then show ?case by (simp add: applied_before_def)
qed simp

lemma loops_applied:
  assumes "wf_ok (ws_requests s)"
  shows "applied_before (ws_requests s) (ws_requests (snd (evaluate_escalations ctx now s)))"
    and "applied_before (ws_requests s) (ws_requests (snd (evaluate_expirations ctx now s)))"
proof -
  have t: "table_ok (ws_requests s)" using assms by (simp add: wf_ok_def)
  have "applied_before (ws_requests (snd a)) (ws_requests (snd (escalate_one tn now r a)))" if "r \<in> set (open_requests s tn)"
    for tn r and a :: "workflow_request list \<times> wf_system"
    using open_requests_stored(2)[OF t that] by (auto simp: escalate_one_table escalate_request_def)
  then have "applied_before (ws_requests s) (ws_requests (snd (fold (escalate_one tn now) (open_requests s tn) ([], s))))" for tn
    using applied_before_fold[of "open_requests s tn" "escalate_one tn now" "([], s)"] by simp
  then show "applied_before (ws_requests s) (ws_requests (snd (evaluate_escalations ctx now s)))"
    by (simp add: evaluate_escalations_def case_prod_beta split: sum.split)
  have "applied_before (ws_requests (snd a)) (ws_requests (snd (expire_one tn now r a)))"
    for tn r and a :: "workflow_request list \<times> wf_system"
    by (auto simp: expire_one_table expire_request_def)
  then have "applied_before (ws_requests s) (ws_requests (snd (fold (expire_one tn now) (open_requests s tn) ([], s))))" for tn
    using applied_before_fold[of "open_requests s tn" "expire_one tn now" "([], s)"] by simp
  then show "applied_before (ws_requests s) (ws_requests (snd (evaluate_expirations ctx now s)))"
    by (simp add: evaluate_expirations_def case_prod_beta split: sum.split)
qed

text \<open>A decision applies only its own request, by an approval that completes the last stage.\<close>

lemma advance_applied:
  assumes "wr_state r = IN_REVIEW"
  shows "applied_before (ws_requests s) (ws_requests (snd (advance_stage env tc now d ds r s)))"
  using assms by (auto simp: advance_stage_def Let_def split: option.split prod.split sum.split)

lemma approve_applied:
  assumes "decidable r" and "request_ok r"
    and "wf_get (ws_requests (snd (approve_branch env tc c d ds st rule cm r s))) tn i = Some x" and "wr_state x = APPLIED"
  shows "wf_get (ws_requests s) tn i = Some x \<or> i = wr_id r \<and> list_all stage_passed (wr_stages x)"
proof -
  let ?dc = "new_decision st APPROVE (tc_user_id tc) rule cm (cl_now c)"
  let ?st = "wr_stages (add_decision ?dc r) ! wr_current_stage_index r"
  let ?r2 = "stage_done ?dc (tc_user_id tc) (Some (st_stage_id st)) r"
  let ?s2 = "record_audit ''WORKFLOW_STAGE_APPROVED'' (tc_user_id tc) ''WORKFLOW_STAGE_APPROVED'' (wr_id r) (tc_tenant_id tc) s"
  have rev: "wr_state r = IN_REVIEW" and i: "wr_current_stage_index r < length (wr_stages r)" using assms(1) by (simp_all add: decidable_def)
  show ?thesis
  proof (cases "st_mode ?st = SERIAL \<or> is_quorum_met ?st")
    case False
    then show ?thesis
      using assms(3,4) rev by (auto simp: approve_branch_def Let_def add_decision_def dest!: wf_get_put_cases)
  next
    case True
    then have passed: "list_all stage_passed (take (Suc (wr_current_stage_index r)) (wr_stages ?r2))"
      using stage_done_passed[OF assms(1,2), of ?dc] by (simp add: new_decision_def Let_def)
    have branch: "approve_branch env tc c d ds st rule cm r s =
        (if Suc (wr_current_stage_index r) < length (wr_stages r) then advance_stage env tc (cl_now c) d ds ?r2 ?s2 else complete_request tc c ?r2 ?s2)"
      using True by (simp add: approve_branch_def Let_def stage_done_def)
    show ?thesis
    proof (cases "Suc (wr_current_stage_index r) < length (wr_stages r)")
      case True
      then show ?thesis using assms(3,4) advance_applied[of ?r2 ?s2] rev unfolding branch by (auto simp: applied_before_def)
    next
      case False
      have same: "wr_stages (fst (apply_approved_request a tn' c q s')) = wr_stages q" "wr_id (fst (apply_approved_request a tn' c q s')) = wr_id q" for a tn' q s'
        by (simp_all add: apply_approved_request_def split: option.split)
      show ?thesis using assms(3) False passed i unfolding branch
        by (auto simp: complete_request_def Let_def case_prod_beta same dest!: wf_get_put_cases)
    qed
  qed
qed

lemma decide_applied:
  assumes "wf_ok (ws_requests s)"
    and "wf_get (ws_requests (snd (record_decision env ctx i dq c s))) tn j = Some x" and "wr_state x = APPLIED"
  shows "wf_get (ws_requests s) tn j = Some x
    \<or> (\<exists>tc. ctx = Some tc \<and> j = i \<and> dq_decision dq = APPROVE \<and> list_all stage_passed (wr_stages x))"
proof (cases "require_tenant_context ctx")
  case (Inr tc)
  then have ctx: "ctx = Some tc" by (auto simp: require_tenant_context_def split: option.splits if_splits)
  show ?thesis
  proof (cases "wf_get (ws_requests s) (tc_tenant_id tc) i")
    case (Some r)
    have ok: "request_ok r" "wr_id r = i" using Some assms(1) wf_get_ident[of "ws_requests s" "tc_tenant_id tc" i r] by (auto simp: wf_ok_iff)
    have dec: "decidable r" if "\<not> finalized (wr_state r)" "current_stage r = Some st" for st
      using open_in_review[OF ok(1) that(1)] current_stageD[OF that(2)] by (cases "wr_stages r = []") (simp_all add: decidable_def)
    have rej: "applied_before (ws_requests s) (ws_requests (snd (reject_branch tc now st rule cm r (s\<lparr>ws_resolver := rs\<rparr>))))" for now st rule cm rs
      by (auto simp: reject_branch_def Let_def)
    have more: "applied_before (ws_requests s) (ws_requests (snd (more_info_branch tc now st rule cm r (s\<lparr>ws_resolver := rs\<rparr>))))"
      if "\<not> finalized (wr_state r)" for now st rule cm rs
      using that by (auto simp: more_info_branch_def Let_def add_decision_def finalized_def)
    show ?thesis
      using assms(2,3) Inr Some ctx rej more dec ok approve_applied[of r env tc c _ _ _ _ _ "s\<lparr>ws_resolver := _\<rparr>" tn j x]
      unfolding record_decision_def applied_before_def
      by (auto simp: Let_def split: option.splits sum.splits prod.splits outcome.splits if_splits)
  qed (use assms(2) Inr in \<open>simp add: record_decision_def\<close>)
qed (use assms(2) in \<open>simp add: record_decision_def\<close>)

lemma submit_applied:
  assumes "wf_get (ws_requests (snd (submit_request env ctx dto c s))) tn i = Some x" and "wr_state x = APPLIED"
  shows "wf_get (ws_requests s) tn i = Some x
    \<or> (\<exists>tc d key. ctx = Some tc \<and> i = request_id_of tc c \<and> wr_tenant_id x = tc_tenant_id tc
        \<and> find_definition s (tc_tenant_id tc) (sr_request_type dto) = Some (d, key)
        \<and> matches (we_parse_float env) (wd_trigger_condition d) (sr_payload dto) (sr_financial_impact dto) = Inr False)"
proof (cases "require_tenant_context ctx")
  case (Inr tc)
  then have ctx: "ctx = Some tc" by (auto simp: require_tenant_context_def split: option.splits if_splits)
  have st: "wr_state (initialize_stage res r) = IN_REVIEW" "wr_state (escalate_request now r) = wr_state r" for res r now
    by (simp_all add: initialize_stage_def escalate_request_def)
  have same: "wr_id (fst (apply_approved_request a tn' c q s')) = wr_id q" for a tn' q s'
    by (simp add: apply_approved_request_def split: option.split)
  show ?thesis
    using assms Inr ctx unfolding submit_request_def
    by (auto simp: Let_def case_prod_beta st same split: option.splits sum.splits prod.splits if_splits dest!: wf_get_put_cases)
qed (use assms in \<open>simp add: submit_request_def\<close>)

lemma withdraw_applied: "applied_before (ws_requests s) (ws_requests (snd (withdraw_request ctx i s)))"
  by (auto simp: withdraw_request_def save_request_Inr split: sum.split option.split)

text \<open>
  C11. Nothing is applied without the approval its definition asks for. A call after which a request is stored as applied
  that was not applied before is either the submission of that request, and then the trigger condition of the
  definition that governs its type was evaluated on the submitted payload and impact and does not hold; or an
  approving decision on it, and then every one of its stages is approved, each with at least one approving
  decision, and with as many as its quorum if it is parallel. (The code counts decisions: two by one person count twice.)
  Identifiers drawn for new requests are taken to be fresh.
\<close>

theorem applied_requests_were_approved:
  assumes "wf_reach env wf_init s" and "fresh_event e s" and "wf_get (ws_requests (wf_step env e s)) tn i = Some r"
    and "wr_state r = APPLIED" and "wf_get (ws_requests s) tn i \<noteq> Some r"
  shows "(\<exists>tc dto c d key. e = Submit (Some tc) dto c \<and> tc_tenant_id tc = tn \<and> request_id_of tc c = i
        \<and> find_definition s tn (sr_request_type dto) = Some (d, key)
        \<and> matches (we_parse_float env) (wd_trigger_condition d) (sr_payload dto) (sr_financial_impact dto) = Inr False)
    \<or> (\<exists>tc dq c. e = Decide (Some tc) i dq c \<and> dq_decision dq = APPROVE
        \<and> (\<forall>st \<in> set (wr_stages r). st_status st = STAGE_APPROVED \<and> 1 \<le> approved_count st \<and> (st_mode st = SERIAL \<or> is_quorum_met st)))"
proof -
  have ok: "wf_ok (ws_requests s)" using tsteps_wf_ok[OF reach_steps[OF assms(1) wf_init_ok] wf_init_ok] .
  then have "wf_ok (ws_requests (wf_step env e s))" using tsteps_wf_ok[OF event_steps[OF ok assms(2)] ok] by simp
  then have tn: "wr_tenant_id r = tn" using assms(3) wf_get_ident by (auto simp: wf_ok_def)
  have new: "\<not> applied_before (ws_requests s) (ws_requests (wf_step env e s))"
    using assms(3-5) by (auto simp: applied_before_def)
  show ?thesis
  proof (cases e)
    case (Submit ctx dto c)
    then show ?thesis using submit_applied[of env ctx dto c s tn i r] assms(3-5) tn by auto
  next
    case (Decide ctx j dq c)
    then show ?thesis using decide_applied[OF ok, of env ctx j dq c tn i r] assms(3-5) by (auto simp: stage_passed_def list_all_iff)
  next
    case (Delegate ctx dg uid)
    have "ws_requests (snd (register_delegation ctx dg uid s)) = ws_requests s"
      by (simp add: register_delegation_def save_delegation_def Let_def split: sum.split)
    with Delegate new show ?thesis by simp
  qed (use new loops_applied[OF ok] withdraw_applied in \<open>simp_all add: register_applier_def\<close>)
qed

text \<open>The budget below the limit was applied by its submission, the override by the approval of its only stage.\<close>

theorem applied_requests_were_approved_witness:
  "matches (we_parse_float wf_demo_env) (wd_trigger_condition def_budget_approval) [] (Some 500) = Inr False
   \<and> (\<exists>r. wf_get (ws_requests demo_applied) ''t1'' demo_id = Some r \<and> wr_stages r \<noteq> [] \<and> (\<forall>st \<in> set (wr_stages r). st_status st = STAGE_APPROVED))"
proof -
  have "fresh_event (Submit (Some demo_user) (demo_dto ''BUDGET_APPROVAL'') (demo_call ''a1'')) wf_init" by (simp add: fresh_id_def demo_simps)
  moreover have "wr_state demo_budget = APPLIED"
    using apply_success(1) by (simp add: demo_budget_def registry_apply_def demo_call_def)
  ultimately have "matches (we_parse_float wf_demo_env) (wd_trigger_condition def_budget_approval) [] (Some 500) = Inr False"
    using applied_requests_were_approved[OF reach_refl _ demo_stored(1)[unfolded demo_auto_def]] by (auto simp: demo_simps wf_get_def row_at_def)
  moreover obtain r where r: "wf_get (ws_requests demo_applied) ''t1'' demo_id = Some r" "wr_state r = APPLIED" "wr_stages r \<noteq> []"
    using demo_decided(2) by blast
  moreover have "r \<noteq> demo_override" using r(2) by (auto simp: demo_override_fields)
  ultimately show ?thesis
    using applied_requests_were_approved[OF demo_reach(2) _ r(1)[unfolded demo_applied_def]] demo_stored(2) by auto
qed

text \<open>
  Every rejection is explained: a request stored as rejected has a rejecting decision as the
  last one of its current stage, with a comment that is not blank.
\<close>

theorem rejections_are_explained:
  assumes "wf_reach env wf_init s" and "wf_get (ws_requests s) tn i = Some r" and "wr_state r = REJECTED"
  shows "\<exists>st. current_stage r = Some st \<and> rejected_with_comment st"
  using reach_stored_ok[OF assms(1,2)] assms(3) by (simp add: request_ok_def current_stage_def)

theorem rejections_are_explained_witness:
  "\<exists>r st. wf_get (ws_requests demo_rejected) ''t1'' demo_id = Some r \<and> current_stage r = Some st \<and> rejected_with_comment st"
  using demo_decided(1) rejections_are_explained[OF demo_reach(3)] by blast

text \<open>
  The history is a faithful account: in every reachable state the history of a stored request, read from
  its first entry, is a walk through the life cycle from submission that ends in the stored state; and no request
  is at rest as a draft or as approved but not applied.
\<close>

theorem history_replays_the_state:
  assumes "wf_reach env wf_init s" and "wf_get (ws_requests s) tn i = Some r"
  shows "path_ok SUBMITTED (wr_history r) (wr_state r) \<and> wr_state r \<noteq> APPROVED \<and> wr_state r \<noteq> DRAFT"
  using reach_stored_ok[OF assms] by (auto simp: request_ok_def)

theorem history_replays_the_state_witness:
  "path_ok SUBMITTED (wr_history demo_budget) (wr_state demo_budget)"
  using history_replays_the_state[OF demo_reach(1) demo_stored(1)] by simp

section \<open>Authority\<close>

text \<open>
  Every stored request has a definition that governs its type: a request is only created for a type that has one, and
  neither rows of definitions nor defaults are ever removed.
\<close>

definition shape :: "wf_system \<Rightarrow> (string \<times> string \<times> string) set \<times> (string \<times> string \<times> string) set" where
  "shape s = ((\<lambda>row. (dw_id row, dw_tenant_id row, dw_request_type row)) ` set (ws_definitions s),
     (\<lambda>(k, d). (k, wd_id d, wd_request_type d)) ` set (ws_defaults s))"

definition row_keys :: "request_table \<Rightarrow> (string \<times> string \<times> string) list" where
  "row_keys t = map (\<lambda>row. (rw_id row, rw_tenant_id row, rw_request_type row)) t"

definition keeps :: "wf_system \<Rightarrow> wf_system \<Rightarrow> bool" where
  "keeps s s' \<longleftrightarrow> row_keys (ws_requests s') = row_keys (ws_requests s) \<and> shape s' = shape s"

lemma find_definition_shape:
  "find_definition s tn ty \<noteq> None \<longleftrightarrow>
     (\<exists>(i, t, y) \<in> fst (shape s). (i = ty \<or> upper y = upper ty) \<and> (t = tn \<or> t = ''SYSTEM''))
     \<or> (\<exists>(k, i, y) \<in> snd (shape s). i = ty \<or> upper y = upper ty \<or> k = upper (strip ty))"
proof -
  let ?row = "\<lambda>row. (dw_id row = ty \<or> upper (dw_request_type row) = upper ty) \<and> (dw_tenant_id row = tn \<or> dw_tenant_id row = ''SYSTEM'')"
    and ?def = "\<lambda>(key, d). wd_id d = ty \<or> upper (wd_request_type d) = upper ty"
  have found: "find P xs \<noteq> None \<longleftrightarrow> (\<exists>x \<in> set xs. P x)" for P and xs :: "'a list" by (auto simp: find_None_iff)
  have "find_definition s tn ty \<noteq> None \<longleftrightarrow> get_definition (ws_definitions s) (ws_defaults s) tn ty \<noteq> None
      \<or> dict_get (ws_defaults s) (upper (strip ty)) \<noteq> None"
    by (simp add: find_definition_def get_default_workflow_definition_by_type_def split: option.split)
  moreover have "get_definition (ws_definitions s) (ws_defaults s) tn ty \<noteq> None \<longleftrightarrow>
      find ?row (ws_definitions s) \<noteq> None \<or> find ?def (ws_defaults s) \<noteq> None"
    by (auto simp: get_definition_def split: option.split)
  moreover have "find ?row (ws_definitions s) \<noteq> None \<longleftrightarrow>
      (\<exists>(i, t, y) \<in> fst (shape s). (i = ty \<or> upper y = upper ty) \<and> (t = tn \<or> t = ''SYSTEM''))"
    unfolding found by (simp add: shape_def)
  moreover have "find ?def (ws_defaults s) \<noteq> None \<longleftrightarrow> (\<exists>(k, i, y) \<in> snd (shape s). i = ty \<or> upper y = upper ty)"
    unfolding found by (simp add: shape_def split_beta)
  moreover have "dict_get (ws_defaults s) (upper (strip ty)) \<noteq> None \<longleftrightarrow> (\<exists>(k, i, y) \<in> snd (shape s). k = upper (strip ty))"
    unfolding dict_get_None by (auto simp: shape_def split_beta image_iff intro: rev_bexI)
  ultimately show ?thesis by (simp add: split_beta bex_disj_distrib disj_assoc)
qed

lemma find_definition_mono:
  assumes "fst (shape s) \<subseteq> fst (shape s')" "snd (shape s) \<subseteq> snd (shape s')" "find_definition s tn ty \<noteq> None"
  shows "find_definition s' tn ty \<noteq> None"
  using assms(3) unfolding find_definition_shape
  by (rule disj_forward) (use assms(1,2) in \<open>auto elim!: bexE intro: rev_bexI dest: subsetD\<close>)

lemma shape_simps [simp]:
  "shape (record_audit a b c d e s) = shape s" "shape (s\<lparr>ws_requests := t\<rparr>) = shape s" "shape (s\<lparr>ws_resolver := rs\<rparr>) = shape s"
  "shape (s\<lparr>ws_delegations := ds\<rparr>) = shape s" "shape (s\<lparr>ws_appliers := xs\<rparr>) = shape s"
  "shape (snd (save_request tn r s)) = shape s" "shape (snd (apply_approved_request a tn cl r s)) = shape s"
  by (simp_all add: shape_def record_audit_def save_request_def apply_approved_request_def split: prod.split option.split)

lemma row_keys_put: "list_ex (\<lambda>row. rw_id row = wr_id r) t \<Longrightarrow> row_keys (wf_put t tn r) = row_keys t"
  by (auto simp: row_keys_def wf_put_def wf_save_def Let_def)

lemma row_keys_known: "list_ex (\<lambda>row. rw_id row = i) t \<longleftrightarrow> i \<in> fst ` set (row_keys t)"
  by (auto simp: row_keys_def list_ex_iff image_iff)

lemma save_definition_keys:
  "(\<lambda>row. (dw_id row, dw_tenant_id row, dw_request_type row)) ` set ds
   \<subseteq> (\<lambda>row. (dw_id row, dw_tenant_id row, dw_request_type row)) ` set (save_definition ds tn d)"
proof -
  let ?k = "\<lambda>row. (dw_id row, dw_tenant_id row, dw_request_type row)"
    and ?f = "\<lambda>row. if dw_id row = wd_id d then row\<lparr>dw_definition := d\<rparr> else row"
  have same: "?k (?f row) = ?k row" for row by simp
  have "?k ` set (map ?f ds) = ?k ` set ds" unfolding set_map image_image same ..
  then show ?thesis
    by (cases "list_ex (\<lambda>row. dw_id row = wd_id d) ds") (simp_all only: save_definition_def if_True if_False simp_thms subset_refl, auto)
qed

lemma stored_known: "wf_get t tn i = Some r \<Longrightarrow> list_ex (\<lambda>row. rw_id row = i) t"
  by (auto simp: wf_get_def row_at_def list_ex_iff dest!: find_SomeD)

lemma keeps_refl [simp]: "keeps s s" "keeps s (s\<lparr>ws_resolver := rs\<rparr>)"
  by (simp_all add: keeps_def)

text \<open>Saving a stored request, whatever was audited and resolved on the way.\<close>

lemma keeps_save:
  "list_ex (\<lambda>row. rw_id row = wr_id r) (ws_requests s) \<Longrightarrow> ws_requests s' = ws_requests s \<Longrightarrow> shape s' = shape s
   \<Longrightarrow> keeps s (snd (save_request tn r s'))"
  by (simp add: keeps_def row_keys_put)

lemma apply_id [simp]: "wr_id (fst (apply_approved_request a tn c r s)) = wr_id r"
  by (simp add: apply_approved_request_def split: option.split)

lemma decide_keeps:
  assumes "wf_ok (ws_requests s)"
  shows "keeps s (snd (record_decision env ctx i dq c s))"
proof (cases "require_tenant_context ctx")
  case (Inr tc)
  show ?thesis
  proof (cases "wf_get (ws_requests s) (tc_tenant_id tc) i")
    case (Some r)
    have known: "list_ex (\<lambda>row. rw_id row = wr_id r) (ws_requests s)"
      using stored_known[OF Some] wf_get_ident[OF _ Some] assms by (simp add: wf_ok_def)
    have rej: "keeps s (snd (reject_branch tc now st rule cm r (s\<lparr>ws_resolver := rs\<rparr>)))" for now st rule cm rs
      using known by (simp add: reject_branch_def Let_def keeps_save set_stage_status_def add_decision_def)
    have more: "keeps s (snd (more_info_branch tc now st rule cm r (s\<lparr>ws_resolver := rs\<rparr>)))" for now st rule cm rs
      using known by (simp add: more_info_branch_def Let_def keeps_save add_decision_def)
    have adv: "keeps s (snd (advance_stage env tc now d ds r' s'))"
      if "wr_id r' = wr_id r" "ws_requests s' = ws_requests s" "shape s' = shape s" for now d ds r' s'
      using known that by (auto simp: advance_stage_def Let_def keeps_def row_keys_put split: option.split prod.split sum.split)
    have com: "keeps s (snd (complete_request tc c r' s'))"
      if "wr_id r' = wr_id r" "ws_requests s' = ws_requests s" "shape s' = shape s" for r' s'
      using known that by (simp add: complete_request_def Let_def case_prod_beta keeps_save)
    have app: "keeps s (snd (approve_branch env tc c d ds st rule cm r (s\<lparr>ws_resolver := rs\<rparr>)))" for d ds st rule cm rs
      using known by (auto simp: approve_branch_def Let_def set_stage_status_def add_decision_def intro!: adv com keeps_save)
    show ?thesis
      using Inr Some rej more app
      by (auto simp: record_decision_def Let_def split: option.splits sum.splits prod.splits outcome.splits)
  qed (use Inr in \<open>simp add: record_decision_def\<close>)
qed (simp add: record_decision_def)

lemma withdraw_keeps:
  assumes "wf_ok (ws_requests s)"
  shows "keeps s (snd (withdraw_request ctx i s))"
proof (cases "require_tenant_context ctx")
  case (Inr tc)
  show ?thesis
  proof (cases "wf_get (ws_requests s) (tc_tenant_id tc) i")
    case (Some r)
    have "list_ex (\<lambda>row. rw_id row = wr_id r) (ws_requests s)"
      using stored_known[OF Some] wf_get_ident[OF _ Some] assms by (simp add: wf_ok_def)
    then show ?thesis using Inr Some by (simp add: withdraw_request_def save_request_Inr keeps_def row_keys_put)
  qed (use Inr in \<open>simp add: withdraw_request_def\<close>)
qed (simp add: withdraw_request_def)

lemma keeps_fold:
  fixes body :: "workflow_request \<Rightarrow> 'o \<times> wf_system \<Rightarrow> 'o \<times> wf_system"
  assumes "\<forall>r \<in> set rs. list_ex (\<lambda>row. rw_id row = wr_id r) (ws_requests (snd acc))"
    and "\<And>r a. list_ex (\<lambda>row. rw_id row = wr_id r) (ws_requests (snd a)) \<Longrightarrow> keeps (snd a) (snd (body r a))"
  shows "keeps (snd acc) (snd (fold body rs acc))"
  using assms(1)
proof (induction rs arbitrary: acc)
  case (Cons r rs)
  then have "keeps (snd acc) (snd (body r acc))" using assms(2) by simp
  with Cons show ?case by (simp add: keeps_def row_keys_known)
qed simp

lemma loops_keep:
  assumes "wf_ok (ws_requests s)"
  shows "keeps s (snd (evaluate_escalations ctx now s))" and "keeps s (snd (evaluate_expirations ctx now s))"
proof -
  have t: "table_ok (ws_requests s)" using assms by (simp add: wf_ok_def)
  have known: "\<forall>r \<in> set (open_requests s tn). list_ex (\<lambda>row. rw_id row = wr_id r) (ws_requests s)" for tn
    using open_requests_stored(2)[OF t] stored_known by metis
  have "keeps (snd a) (snd (escalate_one tn now r a))" "keeps (snd a) (snd (expire_one tn now r a))"
    if "list_ex (\<lambda>row. rw_id row = wr_id r) (ws_requests (snd a))" for tn r and a :: "workflow_request list \<times> wf_system"
    using that row_keys_put[of "escalate_request now r"] row_keys_put[of "expire_request r"]
    by (simp_all add: keeps_def escalate_one_table expire_one_table)
       (simp_all add: escalate_one_def expire_one_def escalate_request_def expire_request_def Let_def case_prod_beta)
  then have "keeps s (snd (fold (escalate_one tn now) (open_requests s tn) ([], s)))"
    "keeps s (snd (fold (expire_one tn now) (open_requests s tn) ([], s)))" for tn
    using keeps_fold[of "open_requests s tn" "([], s)" "escalate_one tn now"] keeps_fold[of "open_requests s tn" "([], s)" "expire_one tn now"]
      known[of tn] by simp_all
  then show "keeps s (snd (evaluate_escalations ctx now s))" "keeps s (snd (evaluate_expirations ctx now s))"
    by (simp_all add: evaluate_escalations_def evaluate_expirations_def case_prod_beta split: sum.split)
qed

lemma shape_share [simp]: "shape (share_escalation k ep s) = shape s"
  by (auto simp: share_escalation_def shape_def dict_set_same_image split: option.split)

lemma submit_keys:
  "shape (snd (submit_request env ctx dto c s)) = shape s
   \<and> set (row_keys (ws_requests (snd (submit_request env ctx dto c s)))) \<subseteq> set (row_keys (ws_requests s))
       \<union> {(i, tn, ty). find_definition s tn ty \<noteq> None}"
proof (cases "require_tenant_context ctx")
  case (Inr tc)
  have put: "set (row_keys (wf_put t tn r)) \<subseteq> set (row_keys t) \<union> {(wr_id r, tn, wr_request_type r)}" for t tn r
    by (cases "list_ex (\<lambda>row. rw_id row = wr_id r) t") (auto simp: row_keys_put, auto simp: row_keys_def wf_put_def wf_save_def Let_def new_row_def)
  have ty: "wr_request_type (initialize_stage res r) = wr_request_type r" "wr_request_type (escalate_request now r) = wr_request_type r"
    "wr_request_type (fst (apply_approved_request a tn c r s')) = wr_request_type r" for res now a tn r s'
    by (simp_all add: initialize_stage_def escalate_request_def apply_approved_request_def split: option.split)
  show ?thesis
    unfolding submit_request_def Inr
    by (auto simp: Let_def case_prod_beta finish_submission_def save_request_Inr ty split: option.split sum.split prod.split
        dest!: put[THEN subsetD])
qed (simp add: submit_request_def)

definition governed_types :: "wf_system \<Rightarrow> bool" where
  "governed_types s \<longleftrightarrow> (\<forall>(i, tn, ty) \<in> set (row_keys (ws_requests s)). find_definition s tn ty \<noteq> None)"

lemma governed_types_step:
  assumes "wf_ok (ws_requests s)" and "governed_types s"
  shows "governed_types (wf_step env e s)"
proof -
  have grows: "governed_types s'" if "fst (shape s) \<subseteq> fst (shape s')" "snd (shape s) \<subseteq> snd (shape s')"
    "set (row_keys (ws_requests s')) \<subseteq> set (row_keys (ws_requests s)) \<union> {(i, tn, ty). find_definition s tn ty \<noteq> None}" for s'
    using assms(2) that(3) find_definition_mono[OF that(1,2)] by (fastforce simp: governed_types_def)
  have kept: "governed_types s'" if "keeps s s'" for s' using that by (intro grows) (auto simp: keeps_def)
  show ?thesis
  proof (cases e)
    case (Submit ctx dto c)
    then show ?thesis using submit_keys[of env ctx dto c s] by (intro grows) auto
  next
    case (Delegate ctx dg uid)
    then show ?thesis by (intro kept) (simp add: keeps_def register_delegation_def save_delegation_def Let_def split: sum.split)
  next
    case (Save_definition tn d)
    then show ?thesis
      using save_definition_keys[of "ws_definitions s" tn d] by (intro grows) (simp_all add: shape_def)
  qed (auto intro!: kept decide_keeps withdraw_keeps loops_keep assms(1) simp: keeps_def register_applier_def shape_def)
qed

lemma reach_governed: "wf_reach env wf_init s \<Longrightarrow> governed_types s"
proof (induction "wf_init" s rule: wf_reach.induct)
  case reach_refl
  then show ?case by (simp add: governed_types_def row_keys_def wf_init_def)
next
  case (reach_step t e)
  then show ?case using governed_types_step tsteps_wf_ok[OF reach_steps[OF _ wf_init_ok] wf_init_ok] by blast
qed

text \<open>
  C34. Decisions are made by those entitled to them: in every reachable state, when a decision is recorded, the request is
  stored for the tenant of the caller and open with a current stage, a definition governs its type, the approvers of that
  stage were resolved, and the caller is one of the effective or primary approvers or a delegate, is assigned to the
  stage, holds its target or fallback role, or is an administrator; everybody else is refused.
\<close>

theorem decisions_are_authorised:
  assumes "wf_reach env wf_init s" and "record_decision env ctx i dq c s = (Inr r', s')"
  shows "\<exists>tc r st d key res rs. require_tenant_context ctx = Inr tc \<and> wf_get (ws_requests s) (tc_tenant_id tc) i = Some r
           \<and> \<not> finalized (wr_state r) \<and> current_stage r = Some st
           \<and> find_definition s (tc_tenant_id tc) (wr_request_type r) = Some (d, key)
           \<and> wr_current_stage_index r < length (wd_stages d)
           \<and> resolve_approvers (we_master_data env) (wr_id r) (wd_stages d ! wr_current_stage_index r)
               (wr_subject_entity r) tc (tenant_delegations s (tc_tenant_id tc)) (cl_now c) (Some (wr_request_type r))
               (ws_resolver s) = (Inr res, rs)
           \<and> may_decide res st (sd_approver_spec (wd_stages d ! wr_current_stage_index r)) tc"
proof -
  obtain tc r st where *: "require_tenant_context ctx = Inr tc" "wf_get (ws_requests s) (tc_tenant_id tc) i = Some r"
    "\<not> finalized (wr_state r)" "current_stage r = Some st"
    using assms(2) by (auto simp: record_decision_def split: sum.splits option.splits if_splits)
  have "table_ok (ws_requests s)" using tsteps_wf_ok[OF reach_steps[OF assms(1) wf_init_ok] wf_init_ok] by (simp add: wf_ok_def)
  then obtain row where "row \<in> set (ws_requests s)" "rw_tenant_id row = tc_tenant_id tc" "rw_request_type row = wr_request_type r"
    using *(2) table_okD[of "ws_requests s"] by (auto simp: wf_get_def row_at_def row_ok_def Let_def dest!: find_SomeD)
  then obtain d key where d: "find_definition s (tc_tenant_id tc) (wr_request_type r) = Some (d, key)"
    using reach_governed[OF assms(1)] by (force simp: governed_types_def row_keys_def)
  obtain sd where sd: "current_stage_definition (find_definition s (tc_tenant_id tc) (wr_request_type r)) (wr_current_stage_index r) = Inr sd"
    using assms(2) * by (auto simp: record_decision_def Let_def split: sum.splits)
  obtain rule rs where "authorise env tc (cl_now c) r st sd (tenant_delegations s (tc_tenant_id tc)) (ws_resolver s) = (Inr rule, rs)"
    using assms(2) * sd by (auto simp: record_decision_def Let_def split: sum.splits prod.splits)
  then show ?thesis using * sd d
    by (auto simp: current_stage_definition_def authorise_def split: option.splits prod.splits sum.splits if_splits)
qed

text \<open>The security lead rejects the override; that call is accepted, and so its caller was entitled.\<close>

theorem decisions_are_authorised_witness:
  "\<exists>r' s' res st. record_decision wf_demo_env (Some demo_approver) demo_id demo_rejection (demo_call ''b'') demo_open = (Inr r', s')
     \<and> wr_state r' = REJECTED \<and> current_stage demo_override = Some st \<and> may_decide res st (sd_approver_spec demo_stage) demo_approver"
proof -
  have "\<not> blank (Some '' no '')" by code_simp
  then obtain r' s' where run: "record_decision wf_demo_env (Some demo_approver) demo_id demo_rejection (demo_call ''b'') demo_open = (Inr r', s')"
      "wr_state r' = REJECTED"
    unfolding demo_decision by (simp add: demo_simps reject_branch_def Let_def save_request_Inr)
  moreover have "wd_stages def_override_approval ! 0 = demo_stage" by (simp add: def_override_approval_def demo_stage_def)
  ultimately show ?thesis
    using decisions_are_authorised[OF demo_reach(2) run(1)]
    by (auto simp: demo_contexts demo_stored demo_open_definition demo_override_fields current_stage_def)
qed

section \<open>What the engine does not do\<close>

text \<open>
  No delegation is ever registered: with the SQL repository every call of \<open>register_delegation\<close> raises,
  for every caller and every rule, and the delegations are left as they were.
\<close>

theorem register_delegation_always_fails:
  "\<exists>e. register_delegation ctx dg uid s = (Inl e, s)"
  by (simp add: register_delegation_def save_delegation_def Let_def split: sum.split)

text \<open>
  Withdrawal is open to everyone in the tenant: whoever calls it, an open request is withdrawn, whether or
  not the caller is its requester, and only the history names the caller.
\<close>

theorem anyone_may_withdraw:
  assumes "wf_reach env wf_init s" and "require_tenant_context ctx = Inr tc"
    and "wf_get (ws_requests s) (tc_tenant_id tc) i = Some r" and "\<not> finalized (wr_state r)"
  shows "\<exists>r'. wf_get (ws_requests (snd (withdraw_request ctx i s))) (tc_tenant_id tc) i = Some r' \<and> wr_state r' = WITHDRAWN
           \<and> he_actor_id (last (wr_history r')) = tc_user_id tc"
proof -
  have ok: "wf_ok (ws_requests s)" using tsteps_wf_ok[OF reach_steps[OF assms(1) wf_init_ok] wf_init_ok] .
  let ?x = "add_history (tc_user_id tc) ''WITHDRAW'' (Some (wr_state r)) (Some WITHDRAWN) None (r\<lparr>wr_state := WITHDRAWN\<rparr>)"
  have t: "table_ok (ws_requests s)" using ok by (simp add: wf_ok_def)
  have id: "wr_id r = i" using wf_get_ident[OF t assms(3)] by simp
  have "evolves r ?x" using reach_stored_ok[OF assms(1,3)] assms(4) by (rule evolves_withdraw)
  then have "wf_get (wf_put (ws_requests s) (tc_tenant_id tc) ?x) (tc_tenant_id tc) i = Some (?x\<lparr>wr_tenant_id := tc_tenant_id tc\<rparr>)"
    using requests.get_save[OF t update_saveable[of _ _ ?x r]] assms(3) id by simp
  then show ?thesis
    using assms(2-4) by (simp add: withdraw_request_def save_request_Inr)
qed

theorem anyone_may_withdraw_witness:
  "wr_requester_id demo_override = ''requester''
   \<and> (\<exists>r'. wf_get (ws_requests (snd (withdraw_request (Some demo_approver) demo_id demo_open))) ''t1'' demo_id = Some r'
        \<and> wr_state r' = WITHDRAWN \<and> he_actor_id (last (wr_history r')) = ''sec-lead'')"
proof
  show "wr_requester_id demo_override = ''requester''"
    by (simp add: demo_override_def initialize_stage_def demo_simps)
  show "\<exists>r'. wf_get (ws_requests (snd (withdraw_request (Some demo_approver) demo_id demo_open))) ''t1'' demo_id = Some r'
        \<and> wr_state r' = WITHDRAWN \<and> he_actor_id (last (wr_history r')) = ''sec-lead''"
    using anyone_may_withdraw[OF demo_reach(2) demo_contexts(2), of demo_id demo_override]
    by (simp add: demo_simps demo_stored demo_override_fields finalized_def)
qed

end
