(* ===== verification/Workflow_Progress.thy ===== *)
theory Workflow_Progress
  imports Workflow_Runs
begin

text \<open>
  Progress of the workflow engine: the expiry loop reaches every overdue request it lists, and every
  approval by an entitled user brings an open request closer to application, by the measure of the
  approvals its remaining stages still need.
\<close>

section \<open>Expiry\<close>

lemma expire_one_config:
  "ws_definitions (snd (expire_one tn now r a)) = ws_definitions (snd a)" "ws_defaults (snd (expire_one tn now r a)) = ws_defaults (snd a)"
  by (simp_all add: expire_one_def Let_def case_prod_beta record_audit_def)

lemma find_definition_cong:
  "ws_definitions s = ws_definitions s' \<Longrightarrow> ws_defaults s = ws_defaults s' \<Longrightarrow> find_definition s tn rt = find_definition s' tn rt"
  unfolding find_definition_def by (simp split: option.split)

lemma auto_rejects_cong:
  "ws_definitions s = ws_definitions s' \<Longrightarrow> ws_defaults s = ws_defaults s' \<Longrightarrow> auto_rejects s tn r = auto_rejects s' tn r"
  using find_definition_cong[of s s' tn "wr_request_type r"] unfolding auto_rejects_def by simp

lemma expire_loop_table:
  "ws_requests (snd (fold (expire_one tn now) rs a)) =
     fold (\<lambda>r t. wf_put t tn (expire_request r)) (filter (\<lambda>r. overdue now r \<and> auto_rejects (snd a) tn r) rs) (ws_requests (snd a))"
proof (induction rs arbitrary: a)
  case (Cons r rs)
  have "auto_rejects (snd (expire_one tn now r a)) tn = auto_rejects (snd a) tn"
    by (rule ext, rule auto_rejects_cong) (rule expire_one_config)+
  then show ?case using Cons by (simp add: expire_one_table)
qed simp

text \<open>
  C33. Overdue requests expire: one run of the expiry loop leaves every request that was in review, past
  its deadline and governed by a definition that rejects on expiry stored as expired, with the breach and the
  transition recorded, provided the tenant has at most the 500 open requests the loop lists.
\<close>

theorem overdue_requests_expire:
  assumes "wf_reach env wf_init s" and "require_tenant_context ctx = Inr tc"
    and "wf_get (ws_requests s) (tc_tenant_id tc) i = Some r" and "wr_state r = IN_REVIEW"
    and "overdue now r" and "auto_rejects s (tc_tenant_id tc) r"
    and few: "length (filter (row_matches (tc_tenant_id tc) (no_filter\<lparr>fp_state := Some IN_REVIEW\<rparr>)) (ws_requests s)) \<le> 500"
  shows "wf_get (ws_requests (snd (evaluate_expirations ctx now s))) (tc_tenant_id tc) i = Some (expire_request r)"
proof -
  let ?tn = "tc_tenant_id tc" and ?P = "\<lambda>r. overdue now r \<and> auto_rejects s (tc_tenant_id tc) r"
  have t: "table_ok (ws_requests s)"
    using tsteps_wf_ok[OF reach_steps[OF assms(1) wf_init_ok] wf_init_ok] by (simp add: wf_ok_def)
  have i: "wr_id r = i" "wr_tenant_id r = ?tn" using wf_get_ident[OF t assms(3)] by simp_all
  let ?rs = "filter ?P (open_requests s ?tn)"
  obtain row where row: "row \<in> set (ws_requests s)" "rw_request row = r" using wf_get_iff[OF t] assms(3) by blast
  then have "row_matches ?tn (no_filter\<lparr>fp_state := Some IN_REVIEW\<rparr>) row"
    using table_okD[OF t row(1)] assms(4) i by (simp add: row_matches_def no_filter_def row_ok_def Let_def)
  then have mem: "r \<in> set ?rs"
    using wf_list_complete[OF few] row assms(5,6) by (auto simp: open_requests_def)
  have dist: "distinct (map wr_id ?rs)" using open_requests_stored(1)[OF t] by (rule distinct_map_filter)
  have body: "\<forall>r \<in> set ?rs. wf_get (ws_requests s) ?tn (wr_id r) = Some r \<and> wr_id (expire_request r) = wr_id r
      \<and> saveable (ws_requests s) ?tn (expire_request r)"
  proof
    fix x assume "x \<in> set ?rs"
    then have x: "wf_get (ws_requests s) ?tn (wr_id x) = Some x" "wr_state x = IN_REVIEW"
      using open_requests_stored(2)[OF t, of x ?tn] by auto
    from evolves_expire[OF x(2)] x(1) update_saveable[of "ws_requests s" ?tn "expire_request x" x]
    show "wf_get (ws_requests s) ?tn (wr_id x) = Some x \<and> wr_id (expire_request x) = wr_id x
        \<and> saveable (ws_requests s) ?tn (expire_request x)"
      by (simp add: evolves_def)
  qed
  have "find (\<lambda>x. wr_id x = i) ?rs = Some r"
  proof (cases "find (\<lambda>x. wr_id x = i) ?rs")
    case None
    with mem i show ?thesis by (auto simp: find_None_iff)
  next
    case (Some y)
    then have "y \<in> set ?rs" "wr_id y = i" by (auto dest: find_SomeD)
    with mem i dist have "y = r" by (auto simp: distinct_map inj_on_def)
    with Some show ?thesis by simp
  qed
  moreover have "(expire_request r)\<lparr>wr_tenant_id := ?tn\<rparr> = expire_request r"
    using i by (simp add: expire_request_def)
  ultimately show ?thesis
    using requests.get_save_all[OF t dist body, of ?tn i] expire_loop_table[of ?tn now "open_requests s ?tn" "([], s)"]
    by (simp add: evaluate_expirations_def assms(2) case_prod_beta)
qed

theorem overdue_requests_expire_witness:
  "wf_get (ws_requests (snd (evaluate_expirations (Some demo_user) (calculate_due_date demo_schedule 1000 24) demo_open))) ''t1'' demo_id
     = Some (expire_request demo_override)"
proof -
  have due: "overdue (calculate_due_date demo_schedule 1000 24) demo_override"
    by (simp add: overdue_def demo_override_def initialize_stage_def update_stage_def add_history_def new_request_def Let_def
        wf_demo_env_def demo_fields def_override_approval_def)
  have rej: "auto_rejects demo_open ''t1'' demo_override"
    by (simp add: auto_rejects_def demo_override_fields demo_open_definition) (simp add: def_override_approval_def)
  have "length (filter P (ws_requests demo_open)) \<le> 500" for P
  proof -
    have "length (ws_requests demo_open) = 1"
      unfolding demo_open_def wf_step.simps demo_submit by (simp add: demo_simps wf_put_def wf_save_def Let_def)
    then show ?thesis using length_filter_le[of P "ws_requests demo_open"] by simp
  qed
  then show ?thesis
    using overdue_requests_expire[OF demo_reach(2) demo_contexts(1), of demo_id demo_override] due rej
    by (simp add: demo_simps demo_stored demo_override_fields)
qed

section \<open>Approvals\<close>

text \<open>The approvals a stage, and the open stages of a request, still need.\<close>

definition needed :: "workflow_stage \<Rightarrow> nat" where
  "needed st = (if st_mode st = SERIAL then 1 else max 1 (st_quorum st - approved_count st))"

definition pending :: "workflow_request \<Rightarrow> nat" where
  "pending r = sum_list (map needed (drop (wr_current_stage_index r) (wr_stages r)))"

lemma pending_split:
  "wr_current_stage_index r < length (wr_stages r) \<Longrightarrow>
   pending r = needed (wr_stages r ! wr_current_stage_index r) + sum_list (map needed (drop (Suc (wr_current_stage_index r)) (wr_stages r)))"
  by (simp add: pending_def Cons_nth_drop_Suc[symmetric])

text \<open>What the calls of an approval leave of the configuration.\<close>

definition same_config :: "wf_system \<Rightarrow> wf_system \<Rightarrow> bool" where
  "same_config s s' \<longleftrightarrow> ws_definitions s' = ws_definitions s \<and> ws_defaults s' = ws_defaults s \<and> ws_appliers s' = ws_appliers s
     \<and> (directory_ok (ws_resolver s) \<longrightarrow> directory_ok (ws_resolver s'))"

lemma same_config_refl [simp]: "same_config s s" by (simp add: same_config_def)

lemma same_config_trans: "same_config s t \<Longrightarrow> same_config t u \<Longrightarrow> same_config s u" by (simp add: same_config_def)

lemma same_config_audit [simp]: "same_config s (record_audit a b c d e t) = same_config s t"
  by (simp add: same_config_def record_audit_def)

lemma same_config_requests [simp]: "same_config s (t\<lparr>ws_requests := x\<rparr>) = same_config s t"
  by (simp add: same_config_def)

lemma same_config_resolve:
  "resolve_approvers md i sd se tc ds now rt (ws_resolver t) = (x, rs) \<Longrightarrow> same_config s t \<Longrightarrow> same_config s (t\<lparr>ws_resolver := rs\<rparr>)"
  using resolve_directory_ok[of "ws_resolver t" md i sd se tc ds now rt] by (simp add: same_config_def)

lemma same_config_apply [simp]: "same_config s (snd (apply_approved_request a tn c r t)) = same_config s t"
  by (simp add: apply_approved_request_def split: option.split)

lemma advance_config: "same_config s t \<Longrightarrow> same_config s (snd (advance_stage env tc now d ds r t))"
  by (auto simp: advance_stage_def Let_def save_request_Inr same_config_resolve split: option.split prod.split sum.split)

lemma approve_config: "same_config s t \<Longrightarrow> same_config s (snd (approve_branch env tc c d ds st rule cm r t))"
  by (simp add: approve_branch_def Let_def complete_request_def save_request_Inr case_prod_beta advance_config)

text \<open>An approval that does not complete its stage, and one that opens the next.\<close>

lemma approve_partial:
  fixes st tc rule cm c r
  defines "dc \<equiv> new_decision st APPROVE (tc_user_id tc) rule cm (cl_now c)"
  assumes "\<not> (st_mode (wr_stages (add_decision dc r) ! wr_current_stage_index r) = SERIAL
              \<or> is_quorum_met (wr_stages (add_decision dc r) ! wr_current_stage_index r))"
  shows "ws_requests (snd (approve_branch env tc c d ds st rule cm r s)) =
           wf_put (ws_requests s) (tc_tenant_id tc)
             (add_history (tc_user_id tc) ''PARTIAL_APPROVAL'' None None (Some (st_stage_id st)) (add_decision dc r))"
  using assms by (simp add: approve_branch_def Let_def)

definition open_next :: "string \<Rightarrow> string list option \<Rightarrow> workflow_request \<Rightarrow> workflow_request" where
  "open_next sid assigned r =
     (let i = Suc (wr_current_stage_index r) in
      add_history ''system'' ''ADVANCE_STAGE'' None None (Some sid)
        (update_stage i (\<lambda>st. (st\<lparr>st_status := STAGE_IN_REVIEW\<rparr>)
             \<lparr>st_assigned_approvers := (case assigned of Some us \<Rightarrow> us | None \<Rightarrow> st_assigned_approvers st)\<rparr>)
          (r\<lparr>wr_current_stage_index := i\<rparr>)))"

lemma advance_table:
  assumes "Suc (wr_current_stage_index r) < length (wr_stages r)"
    and "i = Suc (wr_current_stage_index r)" and "i < length (wd_stages d)"
    and "resolve_approvers (we_master_data env) (wr_id r) (wd_stages d ! i) (wr_subject_entity r) tc ds now (Some (wr_request_type r))
           (ws_resolver s) = (Inr res, rs)"
  shows "ws_requests (snd (advance_stage env tc now (Some (d, key)) ds r s)) =
           wf_put (ws_requests s) (tc_tenant_id tc) (open_next (st_stage_id (wr_stages r ! i)) (Some (ra_effective_approvers res)) r)"
  using assms by (simp add: advance_stage_def open_next_def Let_def update_stage_twice)

text \<open>Those who may decide every stage.\<close>

definition administrator :: "tenant_context \<Rightarrow> bool" where
  "administrator tc \<longleftrightarrow> tc_is_superuser tc \<or> ''GLOBAL_ADMIN'' \<in> set (tc_roles tc) \<or> ''TENANT_ADMIN'' \<in> set (tc_roles tc)"

lemma authorise_administrator:
  assumes "administrator tc" and "directory_ok rs" and "has_default_fallback sd"
  shows "\<exists>rule rs'. authorise env tc now r st (Some sd) ds rs = (Inr rule, rs') \<and> directory_ok rs'"
proof -
  obtain x rs' where x: "resolve_approvers (we_master_data env) (wr_id r) sd (wr_subject_entity r) tc ds now (Some (wr_request_type r)) rs = (x, rs')"
    by (cases "resolve_approvers (we_master_data env) (wr_id r) sd (wr_subject_entity r) tc ds now (Some (wr_request_type r)) rs")
  moreover obtain res where "x = Inr res"
    using fallback_stage_resolves[OF assms(2,3), of "we_master_data env" "wr_id r" "wr_subject_entity r" tc ds now "Some (wr_request_type r)"] x
    by auto
  moreover have "directory_ok rs'" using resolve_directory_ok[OF assms(2)] x by (metis snd_conv)
  ultimately show ?thesis using assms(1) by (auto simp: authorise_def may_decide_def administrator_def)
qed

text \<open>The situation of the progress argument, for a tenant, a request and its governing definition.\<close>

definition governed :: "string \<Rightarrow> workflow_request \<Rightarrow> wf_system \<Rightarrow> bool" where
  "governed tn r s \<longleftrightarrow>
     wf_ok (ws_requests s) \<and> wf_get (ws_requests s) tn (wr_id r) = Some r \<and> directory_ok (ws_resolver s)
     \<and> (case find_definition s tn (wr_request_type r) of None \<Rightarrow> False
        | Some (d, key) \<Rightarrow> length (wr_stages r) \<le> length (wd_stages d) \<and> list_all has_default_fallback (wd_stages d))"

lemma needed_add_decision:
  assumes "wr_current_stage_index r < length (wr_stages r)" and "dc_decision dc = APPROVE"
  shows "needed (wr_stages (add_decision dc r) ! wr_current_stage_index r) =
           (if st_mode (wr_stages r ! wr_current_stage_index r) = SERIAL then 1
            else max 1 (st_quorum (wr_stages r ! wr_current_stage_index r) - Suc (approved_count (wr_stages r ! wr_current_stage_index r))))"
  using assms by (simp add: needed_def add_decision_def approved_count_def)

lemma sum_list_drop_update: "j < n \<Longrightarrow> drop n (xs[j := x]) = drop n xs"
  by simp

text \<open>One approval: the request is applied, or it stays open and needs one approval less.\<close>

definition progress :: "string \<Rightarrow> workflow_request \<Rightarrow> wf_system \<Rightarrow> bool" where
  "progress tn r s' \<longleftrightarrow> (\<exists>r'. wf_get (ws_requests s') tn (wr_id r) = Some r' \<and> evolves r r'
     \<and> length (wr_stages r') = length (wr_stages r)
     \<and> (wr_state r' = APPLIED \<and> pending r = 1 \<or> decidable r' \<and> pending r = Suc (pending r')))"

lemma put_progress:
  assumes "table_ok (ws_requests s)" and "wf_get (ws_requests s) tn (wr_id r) = Some r" and "ws_requests s' = wf_put (ws_requests s) tn x"
    and "evolves r x" and "length (wr_stages x) = length (wr_stages r)"
    and "wr_state x = APPLIED \<and> pending r = 1 \<or> decidable x \<and> pending r = Suc (pending x)"
  shows "progress tn r s'"
proof -
  have "wr_id x = wr_id r" "wr_tenant_id x = tn" using assms(4) wf_get_ident[OF assms(1,2)] by (auto simp: evolves_def)
  then have "wf_get (ws_requests s') tn (wr_id r) = Some x"
    using requests.get_save[OF assms(1) update_saveable[OF _ assms(4)]] assms(2,3) by simp
  with assms(4-6) show ?thesis unfolding progress_def by blast
qed

lemma needed_completed:
  assumes "wr_current_stage_index r < length (wr_stages r)" and "dc_decision dc = APPROVE"
    and "st_mode (wr_stages (add_decision dc r) ! wr_current_stage_index r) = SERIAL
         \<or> is_quorum_met (wr_stages (add_decision dc r) ! wr_current_stage_index r)"
  shows "needed (wr_stages r ! wr_current_stage_index r) = 1"
  using assms by (auto simp: add_decision_def needed_def is_quorum_met_def approved_count_def)

lemma drop_stage_done:
  "drop (Suc (wr_current_stage_index r)) (wr_stages (stage_done dc a sid r)) = drop (Suc (wr_current_stage_index r)) (wr_stages r)"
  by (simp add: stage_done_def set_stage_status_def add_decision_def)

lemma open_next_progress:
  assumes "decidable r" and next_stage: "Suc (wr_current_stage_index r) < length (wr_stages r)"
    and "needed (wr_stages r ! wr_current_stage_index r) = 1"
    and passed: "request_ok r \<Longrightarrow> list_all stage_passed (take (Suc (wr_current_stage_index r)) (wr_stages (stage_done dc a sid r)))"
  shows "evolves r (open_next sid' us (stage_done dc a sid r))"
    and "length (wr_stages (open_next sid' us (stage_done dc a sid r))) = length (wr_stages r)"
    and "decidable (open_next sid' us (stage_done dc a sid r))"
    and "pending r = Suc (pending (open_next sid' us (stage_done dc a sid r)))"
proof -
  let ?i = "wr_current_stage_index r"
  show "evolves r (open_next sid' us (stage_done dc a sid r))"
    using evolves_advance[OF assms(1,2) passed] by (simp add: open_next_def Let_def)
  show "length (wr_stages (open_next sid' us (stage_done dc a sid r))) = length (wr_stages r)"
    by (simp add: open_next_def Let_def)
  show "decidable (open_next sid' us (stage_done dc a sid r))"
    using assms(1,2) by (simp add: open_next_def Let_def decidable_def)
  have needed_upd: "needed (st\<lparr>st_status := x, st_assigned_approvers := y\<rparr>) = needed st" for st x y
    by (simp add: needed_def approved_count_def)
  have "map needed (wr_stages (open_next sid' us (stage_done dc a sid r))) = map needed (wr_stages (stage_done dc a sid r))"
    using next_stage by (simp add: open_next_def Let_def map_update needed_upd) (metis list_update_id map_update)
  moreover have "wr_current_stage_index (open_next sid' us (stage_done dc a sid r)) = Suc ?i"
    by (simp add: open_next_def Let_def)
  ultimately have "pending (open_next sid' us (stage_done dc a sid r)) = sum_list (map needed (drop (Suc ?i) (wr_stages r)))"
    by (metis drop_map drop_stage_done pending_def)
  then show "pending r = Suc (pending (open_next sid' us (stage_done dc a sid r)))"
    using pending_split[of r] assms(1,3) by (simp add: decidable_def)
qed

lemma max_step: "\<not> q \<le> Suc n \<Longrightarrow> max (Suc 0) (q - n) = Suc (max (Suc 0) (q - Suc n))"
  by (simp add: max_def) arith

lemma advance_progress:
  assumes stored: "table_ok (ws_requests s)" "wf_get (ws_requests s) (tc_tenant_id tc) (wr_id r) = Some r" and dec: "decidable r"
    and next_stage: "Suc (wr_current_stage_index r) < length (wr_stages r)" "length (wr_stages r) \<le> length (wd_stages d)"
    and resolves: "directory_ok (ws_resolver s)" "list_all has_default_fallback (wd_stages d)"
    and one: "needed (wr_stages r ! wr_current_stage_index r) = 1"
    and passed: "request_ok r \<Longrightarrow> list_all stage_passed (take (Suc (wr_current_stage_index r)) (wr_stages (stage_done dc a sid r)))"
  shows "progress (tc_tenant_id tc) r (snd (advance_stage env tc now (Some (d, key)) ds (stage_done dc a sid r) s))"
proof -
  let ?i = "Suc (wr_current_stage_index r)" and ?r = "stage_done dc a sid r"
  have i: "?i < length (wd_stages d)" using next_stage by simp
  then have "has_default_fallback (wd_stages d ! ?i)" using resolves(2) by (simp add: list_all_length)
  from fallback_stage_resolves[OF resolves(1) this]
  obtain res where res: "fst (resolve_approvers (we_master_data env) (wr_id ?r) (wd_stages d ! ?i) (wr_subject_entity ?r) tc ds now
      (Some (wr_request_type ?r)) (ws_resolver s)) = Inr res" by blast
  have len: "Suc (wr_current_stage_index ?r) < length (wr_stages ?r)" "?i = Suc (wr_current_stage_index ?r)"
    using next_stage by simp_all
  note table = advance_table[OF len i prod_eqI[of _ "(_, _)", unfolded fst_conv snd_conv, OF res refl]]
  note op = open_next_progress[OF dec next_stage(1) one passed]
  show ?thesis by (rule put_progress[OF stored table op(1,2)]) (assumption | intro disjI2 conjI op(3,4))+
qed

lemma complete_progress:
  assumes stored: "table_ok (ws_requests s)" "wf_get (ws_requests s) (tc_tenant_id tc) (wr_id r) = Some r" and dec: "decidable r"
    and last: "Suc (wr_current_stage_index r) = length (wr_stages r)" and noerr: "cl_apply_error c = None"
    and one: "needed (wr_stages r ! wr_current_stage_index r) = 1"
    and passed: "request_ok r \<Longrightarrow> list_all stage_passed (wr_stages (stage_done dc a sid r))"
  shows "progress (tc_tenant_id tc) r (snd (complete_request tc c (stage_done dc a sid r) s))"
proof -
  let ?r1 = "add_history (tc_user_id tc) ''WORKFLOW_APPROVED'' (Some IN_REVIEW) (Some APPROVED) None ((stage_done dc a sid r)\<lparr>wr_state := APPROVED\<rparr>)"
  let ?s1 = "record_audit ''WORKFLOW_REQUEST_APPROVED'' (tc_user_id tc) ''WORKFLOW_APPROVED'' (wr_id r) (tc_tenant_id tc) s"
  let ?x = "fst (apply_approved_request (tc_user_id tc) (tc_tenant_id tc) c ?r1 ?s1)"
  have "registry_apply (ws_appliers ?s1) ?r1 (cl_apply_error c) = None" using noerr by (simp add: registry_apply_def)
  then have "wr_state ?x = APPLIED" "wr_stages ?x = wr_stages (stage_done dc a sid r)" using apply_success by simp_all
  moreover have "pending r = 1" using pending_split[of r] dec last one by (simp add: decidable_def)
  moreover have "ws_requests (snd (complete_request tc c (stage_done dc a sid r) s)) = wf_put (ws_requests s) (tc_tenant_id tc) ?x"
    by (simp add: complete_request_def Let_def case_prod_beta)
  moreover have "evolves r ?x" by (rule evolves_complete[OF dec]) (rule passed)
  ultimately show ?thesis by (intro put_progress[OF stored, of _ ?x]) simp_all
qed

lemma approve_progress:
  assumes stored: "table_ok (ws_requests s)" "wf_get (ws_requests s) (tc_tenant_id tc) (wr_id r) = Some r" and dec: "decidable r"
    and def: "length (wr_stages r) \<le> length (wd_stages d)" "list_all has_default_fallback (wd_stages d)"
    and dir: "directory_ok (ws_resolver s)" and noerr: "cl_apply_error c = None"
  shows "progress (tc_tenant_id tc) r
           (snd (approve_branch env tc c (Some (d, key)) ds (wr_stages r ! wr_current_stage_index r) rule cm r s))"
proof -
  let ?i = "wr_current_stage_index r"
  let ?st = "wr_stages r ! ?i"
  let ?dc = "new_decision ?st APPROVE (tc_user_id tc) rule cm (cl_now c)"
  let ?r2 = "stage_done ?dc (tc_user_id tc) (Some (st_stage_id ?st)) r"
  let ?s2 = "record_audit ''WORKFLOW_STAGE_APPROVED'' (tc_user_id tc) ''WORKFLOW_STAGE_APPROVED'' (wr_id r) (tc_tenant_id tc) s"
  let ?complete = "st_mode (wr_stages (add_decision ?dc r) ! ?i) = SERIAL \<or> is_quorum_met (wr_stages (add_decision ?dc r) ! ?i)"
  have i: "?i < length (wr_stages r)" using dec by (simp add: decidable_def)
  have dc: "dc_decision ?dc = APPROVE" by (simp add: new_decision_def)
  show ?thesis
  proof (cases ?complete)
    case False
    let ?x = "add_history (tc_user_id tc) ''PARTIAL_APPROVAL'' None None (Some (st_stage_id ?st)) (add_decision ?dc r)"
    have "pending r = Suc (pending ?x)"
      using False i dc pending_split[OF i] pending_split[of ?x]
      by (simp add: add_decision_def needed_def is_quorum_met_def approved_count_def max_step)
    moreover have "decidable ?x" "length (wr_stages ?x) = length (wr_stages r)" using dec by (simp_all add: decidable_def add_decision_def)
    ultimately show ?thesis
      using put_progress[OF stored approve_partial[OF False] evolves_more_info[OF dec]] by simp
  next
    case True
    note one = needed_completed[OF i dc True]
    have passed: "list_all stage_passed (take (Suc ?i) (wr_stages ?r2))" if "request_ok r"
      using stage_done_passed[OF dec that dc] True by (simp add: Let_def)
    have branch: "approve_branch env tc c (Some (d, key)) ds ?st rule cm r s =
        (if Suc ?i < length (wr_stages r) then advance_stage env tc (cl_now c) (Some (d, key)) ds ?r2 ?s2 else complete_request tc c ?r2 ?s2)"
      using True by (simp add: approve_branch_def Let_def stage_done_def)
    have s2: "table_ok (ws_requests ?s2)" "wf_get (ws_requests ?s2) (tc_tenant_id tc) (wr_id r) = Some r" "directory_ok (ws_resolver ?s2)"
      using stored dir by (simp_all add: record_audit_def)
    show ?thesis
    proof (cases "Suc ?i < length (wr_stages r)")
      case True
      then show ?thesis using advance_progress[OF s2(1,2) dec True def(1) s2(3) def(2) one passed] branch by simp
    next
      case False
      then show ?thesis using complete_progress[OF s2(1,2) dec _ noerr one, of ?dc] passed branch i by simp
    qed
  qed
qed

lemma approval_step:
  assumes gov: "governed (tc_tenant_id tc) r s" and dec: "decidable r" and su: "administrator tc"
    and ctx: "require_tenant_context ctx = Inr tc" and dq: "dq_decision dq = APPROVE" and noerr: "cl_apply_error c = None"
  shows "same_config s (snd (record_decision env ctx (wr_id r) dq c s)) \<and> progress (tc_tenant_id tc) r (snd (record_decision env ctx (wr_id r) dq c s))"
proof -
  let ?i = "wr_current_stage_index r" and ?tn = "tc_tenant_id tc"
  obtain d key where d: "find_definition s ?tn (wr_request_type r) = Some (d, key)" "length (wr_stages r) \<le> length (wd_stages d)"
    "list_all has_default_fallback (wd_stages d)"
    using gov by (auto simp: governed_def split: option.splits)
  have stored: "table_ok (ws_requests s)" "wf_get (ws_requests s) ?tn (wr_id r) = Some r" and dir: "directory_ok (ws_resolver s)"
    using gov by (simp_all add: governed_def wf_ok_def)
  have i: "?i < length (wr_stages r)" using dec by (simp add: decidable_def)
  then have "has_default_fallback (wd_stages d ! ?i)" using d by (simp add: list_all_length)
  then obtain rule rs where au: "authorise env tc (cl_now c) r (wr_stages r ! ?i) (Some (wd_stages d ! ?i)) (tenant_delegations s ?tn)
      (ws_resolver s) = (Inr rule, rs)" "directory_ok rs"
    using authorise_administrator[OF su dir] by blast
  have "current_stage_definition (Some (d, key)) ?i = Inr (Some (wd_stages d ! ?i))"
    using d i by (simp add: current_stage_definition_def)
  with au have br: "record_decision env ctx (wr_id r) dq c s =
      approve_branch env tc c (Some (d, key)) (tenant_delegations s ?tn) (wr_stages r ! ?i) rule (dq_comment dq) r (s\<lparr>ws_resolver := rs\<rparr>)"
    using decision_reaches_branch[OF ctx stored(2) dec, of "Some (wd_stages d ! ?i)" env c rule rs dq] d(1) dq by (simp add: Let_def)
  have "same_config s (s\<lparr>ws_resolver := rs\<rparr>)" using au(2) by (simp add: same_config_def)
  then show ?thesis
    unfolding br using approve_config approve_progress[of "s\<lparr>ws_resolver := rs\<rparr>"] stored dec d(2,3) au(2) noerr by simp
qed

text \<open>
  A sequence of approvals of one request: each by a context of its own, with its comment and its readings, and each the
  call of an administrator of the tenant that no applier lets fail.
\<close>

type_synonym approval = "tenant_context option \<times> decision_dto \<times> call"

definition approvals :: "wf_env \<Rightarrow> string \<Rightarrow> approval list \<Rightarrow> wf_system \<Rightarrow> wf_system" where
  "approvals env i xs s = fold (\<lambda>(ctx, dq, c) s. snd (record_decision env ctx i dq c s)) xs s"

definition approves :: "string \<Rightarrow> approval \<Rightarrow> bool" where
  "approves tn x \<longleftrightarrow> (case x of (ctx, dq, c) \<Rightarrow> dq_decision dq = APPROVE \<and> cl_apply_error c = None
     \<and> (case require_tenant_context ctx of Inl e \<Rightarrow> False | Inr tc \<Rightarrow> tc_tenant_id tc = tn \<and> administrator tc))"

lemma approvals_apply:
  assumes "governed tn r s" and "decidable r" and "list_all (approves tn) xs" and "length xs = pending r"
  shows "\<exists>r'. wf_get (ws_requests (approvals env (wr_id r) xs s)) tn (wr_id r) = Some r' \<and> wr_state r' = APPLIED"
  using assms
proof (induction xs arbitrary: r s)
  case Nil
  then have "pending r \<noteq> 0" using pending_split[of r] by (auto simp: decidable_def needed_def split: if_splits)
  then show ?case using Nil by simp
next
  case (Cons x xs)
  obtain ctx dq c where x: "x = (ctx, dq, c)" by (cases x)
  then obtain tc where tc: "require_tenant_context ctx = Inr tc" "tc_tenant_id tc = tn" "administrator tc"
      "dq_decision dq = APPROVE" "cl_apply_error c = None"
    using Cons.prems(3) by (auto simp: approves_def split: sum.splits)
  let ?s = "snd (record_decision env ctx (wr_id r) dq c s)"
  have cfg: "same_config s ?s" and prog: "progress tn r ?s"
    using approval_step[OF _ Cons.prems(2) tc(3,1,4,5), of s env] Cons.prems(1) tc(2) by simp_all
  obtain r' where r': "wf_get (ws_requests ?s) tn (wr_id r) = Some r'" "evolves r r'" "length (wr_stages r') = length (wr_stages r)"
    "wr_state r' = APPLIED \<and> pending r = 1 \<or> decidable r' \<and> pending r = Suc (pending r')"
    using prog by (auto simp: progress_def)
  have id: "wr_id r' = wr_id r" "wr_request_type r' = wr_request_type r" using r'(2) by (auto simp: evolves_def)
  from r'(4) show ?case
  proof
    assume "wr_state r' = APPLIED \<and> pending r = 1"
    then show ?thesis using Cons.prems(4) r'(1) by (simp add: approvals_def x)
  next
    assume dec: "decidable r' \<and> pending r = Suc (pending r')"
    have ok: "wf_ok (ws_requests ?s)"
      using tsteps_wf_ok[OF decision_steps] Cons.prems(1) by (simp add: governed_def)
    have "find_definition ?s tn (wr_request_type r) = find_definition s tn (wr_request_type r)"
      using cfg by (intro find_definition_cong) (simp_all add: same_config_def)
    then have "governed tn r' ?s"
      using Cons.prems(1) cfg ok r'(1,3) id by (auto simp: governed_def same_config_def split: option.splits prod.splits)
    then have "\<exists>r''. wf_get (ws_requests (approvals env (wr_id r') xs ?s)) tn (wr_id r') = Some r'' \<and> wr_state r'' = APPLIED"
      using Cons.IH[of r' ?s] dec Cons.prems by simp
    then show ?thesis by (simp add: approvals_def id x)
  qed
qed

text \<open>
  C32. Approval leads to application: an open request with a current stage is applied by exactly as many approvals by
  administrators of its tenant (superusers, global or tenant administrators, the same or different ones) as its remaining
  stages need, counting one for a serial stage and the missing part of the quorum for a parallel one. The governing
  definition must still have the stages of the request, each with a fallback role that has built-in members, no role may
  be registered with an empty list, and no applier may fail. (One administrator can supply all the approvals of a
  quorum, since the code counts decisions and not persons.)
\<close>

theorem approvals_lead_to_application:
  assumes "wf_reach env wf_init s" and "directory_ok (ws_resolver s)"
    and "wf_get (ws_requests s) tn i = Some r" and "decidable r"
    and "find_definition s tn (wr_request_type r) = Some (d, key)"
    and "length (wr_stages r) \<le> length (wd_stages d)" and "list_all has_default_fallback (wd_stages d)"
    and "list_all (approves tn) xs" and "length xs = pending r"
  shows "\<exists>r'. wf_get (ws_requests (approvals env i xs s)) tn i = Some r' \<and> wr_state r' = APPLIED"
proof -
  have ok: "wf_ok (ws_requests s)" using tsteps_wf_ok[OF reach_steps[OF assms(1) wf_init_ok] wf_init_ok] .
  then have i: "wr_id r = i" using wf_get_ident[OF _ assms(3)] by (simp add: wf_ok_def)
  have "governed tn r s" using ok assms(2,3,5-7) i by (simp add: governed_def)
  from approvals_apply[OF this assms(4,8,9)] show ?thesis by (simp add: i)
qed

definition demo_admin :: tenant_context where
  "demo_admin = demo_ctx ''t1'' ''root'' [''TENANT_ADMIN'']"

theorem approvals_lead_to_application_witness:
  "\<exists>r'. wf_get (ws_requests (approvals wf_demo_env demo_id [(Some demo_admin, demo_approval, demo_call ''b'')] demo_open)) ''t1'' demo_id = Some r'
      \<and> wr_state r' = APPLIED"
proof -
  have "list_all has_default_fallback (wd_stages def_override_approval)" "length (wd_stages def_override_approval) = 1"
    "st_mode (runtime_stage demo_stage) = SERIAL" "approves ''t1'' (Some demo_admin, demo_approval, demo_call ''b'')"
    by code_simp+
  moreover have "directory_ok (ws_resolver demo_open)" by (simp add: directory_ok_def demo_open_config wf_init_def)
  moreover have "pending demo_override = 1" if "st_mode (runtime_stage demo_stage) = SERIAL"
    using that by (simp add: pending_def demo_override_fields needed_def)
  ultimately show ?thesis
    using approvals_lead_to_application[OF demo_reach(2), of "''t1''" demo_id demo_override def_override_approval
        "Some ''OVERRIDE_APPROVAL''" "[(Some demo_admin, demo_approval, demo_call ''b'')]"]
    by (simp add: demo_stored demo_override_fields demo_open_definition)
qed

end
