(* ===== verification/Workflow_Views.thy ===== *)
theory Workflow_Views
  imports Workflow_Runs
begin

text \<open>
  The read side of \<open>WorkflowService\<close> (\<open>domain/workflows/service.py\<close>): the approver's inbox, the requester's
  view and the metrics report. An inbox or view item keeps the request it is built from beside the
  fields that are computed. \<open>sum\<close> adds floats from left to right, as in the Python 3.11 of the images.
\<close>

section \<open>Inbox and requester view\<close>

record inbox_item =
  ib_request :: workflow_request
  ib_stage :: workflow_stage
  ib_sla_remaining_hours :: rat
  ib_is_delegated :: bool
  ib_delegated_from :: "string option"

definition stage_target_role :: "wf_system \<Rightarrow> string \<Rightarrow> workflow_request \<Rightarrow> string option" where
  "stage_target_role s tenant r =
     (case find_definition s tenant (wr_request_type r) of
        Some (d, key) \<Rightarrow> if wr_current_stage_index r < length (wd_stages d)
                        then sp_target_role (sd_approver_spec (wd_stages d ! wr_current_stage_index r)) else None
      | None \<Rightarrow> None)"

definition user_has_role :: "wf_system \<Rightarrow> tenant_context \<Rightarrow> string \<Rightarrow> string option \<Rightarrow> bool" where
  "user_has_role s tc user role \<longleftrightarrow> truthy role \<and>
     (the role \<in> set (tc_roles tc) \<or> user \<in> set (get_users_by_role (ws_resolver s) (the role) (tc_tenant_id tc)))"

definition inbox_delegation :: "wf_system \<Rightarrow> string \<Rightarrow> string \<Rightarrow> int \<Rightarrow> workflow_request \<Rightarrow> workflow_stage \<Rightarrow> string option
    \<Rightarrow> delegation_rule option" where
  "inbox_delegation s tenant user now r st role =
     find (\<lambda>d. dr_delegate_approver_id d = user \<and> is_currently_active d now (Some (wr_request_type r)) \<and>
            (dr_original_approver_id d \<in> set (st_assigned_approvers st) \<or>
             (truthy role \<and> dr_original_approver_id d \<in> set (get_users_by_role (ws_resolver s) (the role) tenant))))
       (tenant_delegations s tenant)"

definition inbox_entry :: "wf_env \<Rightarrow> wf_system \<Rightarrow> tenant_context \<Rightarrow> string \<Rightarrow> int \<Rightarrow> workflow_request \<Rightarrow> inbox_item list" where
  "inbox_entry env s tc user now r =
     (case current_stage r of None \<Rightarrow> []
      | Some st \<Rightarrow>
          let role = stage_target_role s (tc_tenant_id tc) r;
              is_assigned = (user \<in> set (st_assigned_approvers st) \<or> user_has_role s tc user role);
              del = inbox_delegation s (tc_tenant_id tc) user now r st role
          in if is_assigned \<or> del \<noteq> None \<or> tc_is_superuser tc \<or> ''TENANT_ADMIN'' \<in> set (tc_roles tc)
             then [\<lparr> ib_request = r, ib_stage = st,
                     ib_sla_remaining_hours = calculate_remaining_working_hours
                       (we_schedule env (wr_working_schedule_id r) (tc_tenant_id tc)) now (wr_due_date r),
                     ib_is_delegated = (del \<noteq> None), ib_delegated_from = map_option dr_original_approver_id del \<rparr>]
             else [])"

definition get_approver_inbox :: "wf_env \<Rightarrow> wf_system \<Rightarrow> tenant_context option \<Rightarrow> string \<Rightarrow> int \<Rightarrow> wf_error + inbox_item list" where
  "get_approver_inbox env s ctx user now =
     (case require_tenant_context ctx of Inl e \<Rightarrow> Inl Missing_tenant_context
      | Inr tc \<Rightarrow> Inr (concat (map (inbox_entry env s tc user now) (open_requests s (tc_tenant_id tc)))))"

record requester_item =
  rv_request :: workflow_request
  rv_current_stage_name :: "string option"
  rv_pending_approvers :: "string list"
  rv_duration_hours :: rat

definition hours_between :: "int \<Rightarrow> int \<Rightarrow> rat" where
  "hours_between now t = fdiv (total_seconds (now - t)) 3600"

definition get_requester_view :: "wf_system \<Rightarrow> tenant_context option \<Rightarrow> string \<Rightarrow> int \<Rightarrow> wf_error + requester_item list" where
  "get_requester_view s ctx user now =
     (case require_tenant_context ctx of Inl e \<Rightarrow> Inl Missing_tenant_context
      | Inr tc \<Rightarrow> Inr (map (\<lambda>r. \<lparr> rv_request = r, rv_current_stage_name = map_option st_name (current_stage r),
            rv_pending_approvers = (case current_stage r of Some st \<Rightarrow> st_assigned_approvers st | None \<Rightarrow> []),
            rv_duration_hours = py_round 2 (hours_between now (wr_created_at r)) \<rparr>)
          (wf_list (ws_requests s) (tc_tenant_id tc) (no_filter\<lparr>fp_requester_id := Some user\<rparr>) 500 0)))"

definition get_request :: "wf_system \<Rightarrow> tenant_context option \<Rightarrow> string \<Rightarrow> wf_error + workflow_request" where
  "get_request s ctx i =
     (case require_tenant_context ctx of Inl e \<Rightarrow> Inl Missing_tenant_context
      | Inr tc \<Rightarrow> (case wf_get (ws_requests s) (tc_tenant_id tc) i of
                    None \<Rightarrow> Inl (WorkflowNotFoundException i) | Some r \<Rightarrow> Inr r))"

section \<open>Metrics\<close>

record metrics_acc =
  ma_by_type :: "(string, nat) dict"
  ma_by_age :: "(string, nat) dict"
  ma_durations :: "rat list"
  ma_sla_breaches :: nat
  ma_approvals :: "(string, nat) dict"
  ma_rejections :: "(string, nat) dict"

definition bump :: "(string, nat) dict \<Rightarrow> string \<Rightarrow> (string, nat) dict" where
  "bump d k = dict_set d k ((case dict_get d k of Some n \<Rightarrow> n | None \<Rightarrow> 0) + 1)"

definition age_bucket :: "rat \<Rightarrow> string" where
  "age_bucket hrs = (if hrs < 24 then ''< 24h'' else if hrs < 48 then ''24-48h'' else if hrs < 72 then ''48-72h'' else ''> 72h'')"

definition is_open :: "workflow_request \<Rightarrow> bool" where
  "is_open r \<longleftrightarrow> wr_state r = SUBMITTED \<or> wr_state r = IN_REVIEW"

definition count_decision :: "workflow_request \<Rightarrow> workflow_decision \<Rightarrow> metrics_acc \<Rightarrow> metrics_acc" where
  "count_decision r d a =
     (let a1 = a\<lparr>ma_durations := ma_durations a @ [max 0 (hours_between (dc_timestamp d) (wr_created_at r))]\<rparr> in
      case dc_decision d of
        APPROVE \<Rightarrow> a1\<lparr>ma_approvals := bump (ma_approvals a1) (dc_decided_by d)\<rparr>
      | REJECT \<Rightarrow> a1\<lparr>ma_rejections := bump (ma_rejections a1) (dc_decided_by d)\<rparr>
      | REQUEST_MORE_INFO \<Rightarrow> a1)"

definition breached :: "int \<Rightarrow> workflow_request \<Rightarrow> bool" where
  "breached now r \<longleftrightarrow> wr_sla_breached r \<or>
     ((case wr_due_date r of None \<Rightarrow> False | Some t \<Rightarrow> now > t) \<and> is_open r)"

definition count_request :: "int \<Rightarrow> workflow_request \<Rightarrow> metrics_acc \<Rightarrow> metrics_acc" where
  "count_request now r a =
     (let a1 = (if is_open r
                then a\<lparr>ma_by_type := bump (ma_by_type a) (wr_request_type r),
                       ma_by_age := bump (ma_by_age a) (age_bucket (hours_between now (wr_created_at r)))\<rparr>
                else a);
          a2 = (if breached now r then a1\<lparr>ma_sla_breaches := ma_sla_breaches a1 + 1\<rparr> else a1)
      in fold (\<lambda>st. fold (count_decision r) (st_decisions st)) (wr_stages r) a2)"

record metrics_report =
  mr_open_by_type :: "(string, nat) dict"
  mr_open_by_age :: "(string, nat) dict"
  mr_average_hours :: rat
  mr_worst_hours :: rat
  mr_sla_breaches :: nat
  mr_breach_rate :: rat
  mr_approvals :: "(string, nat) dict"
  mr_rejections :: "(string, nat) dict"

definition metrics_start :: metrics_acc where
  "metrics_start = \<lparr> ma_by_type = [], ma_by_age = [(''< 24h'', 0), (''24-48h'', 0), (''48-72h'', 0), (''> 72h'', 0)],
     ma_durations = [], ma_sla_breaches = 0, ma_approvals = [], ma_rejections = [] \<rparr>"

definition get_metrics :: "wf_system \<Rightarrow> tenant_context option \<Rightarrow> int \<Rightarrow> wf_error + metrics_report" where
  "get_metrics s ctx now =
     (case require_tenant_context ctx of Inl e \<Rightarrow> Inl Missing_tenant_context
      | Inr tc \<Rightarrow>
          let rs = wf_list (ws_requests s) (tc_tenant_id tc) no_filter 1000 0;
              a = fold (count_request now) rs metrics_start;
              ds = ma_durations a
          in Inr \<lparr> mr_open_by_type = ma_by_type a, mr_open_by_age = ma_by_age a,
                   mr_average_hours = py_round 2 (if ds = [] then 0 else fdiv (foldl fadd 0 ds) (of_nat (length ds))),
                   mr_worst_hours = py_round 2 (if ds = [] then 0 else foldl max (hd ds) (tl ds)),
                   mr_sla_breaches = ma_sla_breaches a,
                   mr_breach_rate = py_round 2 (if rs = [] then 0
                     else fl (fdiv (of_nat (ma_sla_breaches a)) (of_nat (length rs)) * 100)),
                   mr_approvals = ma_approvals a, mr_rejections = ma_rejections a \<rparr>)"

section \<open>Properties\<close>

text \<open>
  The inbox shows true work and nothing of another tenant: every item is a request stored for the
  caller's tenant, in review, with its current stage; and every listed open request whose current stage names the user
  has an item.
\<close>

theorem inbox_is_sound_and_complete:
  assumes "wf_reach env wf_init s" and "require_tenant_context ctx = Inr tc" and "get_approver_inbox env s ctx user now = Inr items"
  shows "list_all (\<lambda>it. wf_get (ws_requests s) (tc_tenant_id tc) (wr_id (ib_request it)) = Some (ib_request it)
             \<and> wr_state (ib_request it) = IN_REVIEW \<and> current_stage (ib_request it) = Some (ib_stage it)) items
         \<and> list_all (\<lambda>r. case current_stage r of None \<Rightarrow> True
             | Some st \<Rightarrow> user \<in> set (st_assigned_approvers st) \<longrightarrow> r \<in> set (map ib_request items)) (open_requests s (tc_tenant_id tc))"
proof
  have t: "table_ok (ws_requests s)"
    using tsteps_wf_ok[OF reach_steps[OF assms(1) wf_init_ok] wf_init_ok] by (simp add: wf_ok_def)
  have items: "items = concat (map (inbox_entry env s tc user now) (open_requests s (tc_tenant_id tc)))"
    using assms(2,3) by (simp add: get_approver_inbox_def)
  have entry: "ib_request it = r \<and> current_stage r = Some (ib_stage it)" if "it \<in> set (inbox_entry env s tc user now r)" for it r
    using that by (auto simp: inbox_entry_def Let_def split: option.splits if_splits)
  show "list_all (\<lambda>it. wf_get (ws_requests s) (tc_tenant_id tc) (wr_id (ib_request it)) = Some (ib_request it)
             \<and> wr_state (ib_request it) = IN_REVIEW \<and> current_stage (ib_request it) = Some (ib_stage it)) items"
    unfolding list_all_iff items using entry open_requests_stored(2)[OF t] by fastforce
  show "list_all (\<lambda>r. case current_stage r of None \<Rightarrow> True
             | Some st \<Rightarrow> user \<in> set (st_assigned_approvers st) \<longrightarrow> r \<in> set (map ib_request items)) (open_requests s (tc_tenant_id tc))"
    unfolding list_all_iff
  proof
    fix r assume r: "r \<in> set (open_requests s (tc_tenant_id tc))"
    have "r \<in> set (map ib_request (inbox_entry env s tc user now r))" if "current_stage r = Some st" "user \<in> set (st_assigned_approvers st)" for st
      using that by (simp add: inbox_entry_def Let_def)
    then show "case current_stage r of None \<Rightarrow> True
             | Some st \<Rightarrow> user \<in> set (st_assigned_approvers st) \<longrightarrow> r \<in> set (map ib_request items)"
      using r unfolding items by (fastforce split: option.split)
  qed
qed

theorem inbox_is_sound_and_complete_witness:
  "\<exists>items. get_approver_inbox wf_demo_env demo_open (Some demo_approver) ''sec-lead'' 1000 = Inr items
     \<and> demo_override \<in> set (map ib_request items)"
proof -
  obtain items where items: "get_approver_inbox wf_demo_env demo_open (Some demo_approver) ''sec-lead'' 1000 = Inr items"
    by (simp add: get_approver_inbox_def demo_contexts)
  have "ws_requests demo_open = [new_row ''t1'' demo_override]"
    unfolding demo_open_def wf_step.simps demo_submit
    using demo_override_fields(2) by (simp add: demo_simps wf_put_def wf_save_def Let_def) (metis workflow_request.surjective workflow_request.update_convs(2))
  then have "demo_override \<in> set (open_requests demo_open ''t1'')"
    by (simp add: open_requests_def wf_list_def row_matches_def new_row_def no_filter_def demo_override_fields)
  then have "demo_override \<in> set (map ib_request items)"
    using inbox_is_sound_and_complete[OF demo_reach(2) demo_contexts(2) items]
    by (auto simp: demo_contexts list_all_iff current_stage_def demo_override_fields)
  with items show ?thesis by blast
qed

definition dict_total :: "(string, nat) dict \<Rightarrow> nat" where
  "dict_total d = sum_list (dict_values d)"

lemma dict_total_bump: "dict_total (bump d k) = Suc (dict_total d)"
  unfolding bump_def dict_total_def dict_values_def by (induction d) auto

definition decisions_of :: "workflow_request \<Rightarrow> workflow_decision list" where
  "decisions_of r = concat (map st_decisions (wr_stages r))"

lemma fold_count_decision:
  fixes r ds a
  defines "a' \<equiv> fold (count_decision r) ds a"
  shows "ma_by_type a' = ma_by_type a \<and> ma_by_age a' = ma_by_age a \<and> ma_sla_breaches a' = ma_sla_breaches a
    \<and> dict_total (ma_approvals a') = dict_total (ma_approvals a) + length (filter (\<lambda>d. dc_decision d = APPROVE) ds)
    \<and> dict_total (ma_rejections a') = dict_total (ma_rejections a) + length (filter (\<lambda>d. dc_decision d = REJECT) ds)"
  unfolding a'_def
  by (induction ds arbitrary: a) (auto simp: count_decision_def Let_def dict_total_bump split: outcome.split)

lemma count_request_totals:
  fixes now r a
  defines "a' \<equiv> count_request now r a"
  shows "dict_total (ma_by_type a') = dict_total (ma_by_type a) + of_bool (is_open r)
    \<and> dict_total (ma_by_age a') = dict_total (ma_by_age a) + of_bool (is_open r)
    \<and> ma_sla_breaches a' = ma_sla_breaches a + of_bool (breached now r)
    \<and> dict_total (ma_approvals a') = dict_total (ma_approvals a) + length (filter (\<lambda>d. dc_decision d = APPROVE) (decisions_of r))
    \<and> dict_total (ma_rejections a') = dict_total (ma_rejections a) + length (filter (\<lambda>d. dc_decision d = REJECT) (decisions_of r))"
proof -
  have flat: "fold (\<lambda>st. fold (count_decision r) (st_decisions st)) sts b = fold (count_decision r) (concat (map st_decisions sts)) b" for sts b
    by (induction sts arbitrary: b) auto
  show ?thesis
    unfolding a'_def count_request_def decisions_of_def Let_def flat
    by (simp add: fold_count_decision dict_total_bump)
qed

lemma fold_count_request:
  fixes now rs a
  defines "a' \<equiv> fold (count_request now) rs a"
  shows "dict_total (ma_by_type a') = dict_total (ma_by_type a) + length (filter is_open rs)
    \<and> dict_total (ma_by_age a') = dict_total (ma_by_age a) + length (filter is_open rs)
    \<and> ma_sla_breaches a' = ma_sla_breaches a + length (filter (breached now) rs)
    \<and> dict_total (ma_approvals a') = dict_total (ma_approvals a) + length (filter (\<lambda>d. dc_decision d = APPROVE) (concat (map decisions_of rs)))
    \<and> dict_total (ma_rejections a') = dict_total (ma_rejections a) + length (filter (\<lambda>d. dc_decision d = REJECT) (concat (map decisions_of rs)))"
  unfolding a'_def by (induction rs arbitrary: a) (simp_all add: count_request_totals)

text \<open>
  The metrics add up: over the requests the report covers, the counts by type and the counts by age both
  sum to the number of open requests, the breaches are those of the covered requests, and the approvals and
  rejections by approver sum to the approving and rejecting decisions on record.
\<close>

theorem metrics_add_up:
  "case get_metrics s ctx now of
     Inl e \<Rightarrow> e = Missing_tenant_context
   | Inr m \<Rightarrow> \<exists>tc. require_tenant_context ctx = Inr tc \<and>
       (let rs = wf_list (ws_requests s) (tc_tenant_id tc) no_filter 1000 0 in
        dict_total (mr_open_by_type m) = length (filter is_open rs)
        \<and> dict_total (mr_open_by_age m) = length (filter is_open rs)
        \<and> mr_sla_breaches m = length (filter (breached now) rs)
        \<and> dict_total (mr_approvals m) = length (filter (\<lambda>d. dc_decision d = APPROVE) (concat (map decisions_of rs)))
        \<and> dict_total (mr_rejections m) = length (filter (\<lambda>d. dc_decision d = REJECT) (concat (map decisions_of rs))))"
proof -
  have "dict_total (ma_by_type metrics_start) = 0" "dict_total (ma_by_age metrics_start) = 0" "ma_sla_breaches metrics_start = 0"
    "dict_total (ma_approvals metrics_start) = 0" "dict_total (ma_rejections metrics_start) = 0"
    by (simp_all add: metrics_start_def dict_total_def dict_values_def)
  then show ?thesis
    by (simp add: get_metrics_def Let_def fold_count_request split: sum.split)
qed

end
