(* ===== verification/Object_Store.thy ===== *)
theory Object_Store
  imports Prelude "HOL-Library.Char_ord" "HOL-Library.List_Lexorder"
begin

text \<open>
  \<open>domain/tenant/object_store.py\<close>: keys of the tenant-prefixed object store and its file-system implementation.

  A file is named by the components of its path under the base directory, as \<open>pathlib\<close> reads a
  relative path: empty components and \<open>.\<close> disappear, \<open>..\<close> stays. The directories that exist are part of
  the state, because a write fails on them and they survive the removal of the files. Other failures of the
  operating system are not modelled. The bytes of an object are a string.
\<close>

section \<open>Splitting and joining\<close>

text \<open>\<open>str.split(c)\<close>, \<open>c.join\<close>, \<open>str.strip(c)\<close> and \<open>str.replace\<close> for a single character.\<close>

fun split_on :: "char \<Rightarrow> string \<Rightarrow> string list" where
  "split_on c [] = [[]]"
| "split_on c (x # xs) =
     (if x = c then [] # split_on c xs
      else case split_on c xs of [] \<Rightarrow> [[x]] | w # ws \<Rightarrow> (x # w) # ws)"

fun join_on :: "char \<Rightarrow> string list \<Rightarrow> string" where
  "join_on c [] = []"
| "join_on c [w] = w"
| "join_on c (w # v # ws) = w @ c # join_on c (v # ws)"

definition strip_char :: "char \<Rightarrow> string \<Rightarrow> string" where
  "strip_char c s = rev (dropWhile ((=) c) (rev (dropWhile ((=) c) s)))"

definition replace_char :: "char \<Rightarrow> char \<Rightarrow> string \<Rightarrow> string" where
  "replace_char c d s = map (\<lambda>x. if x = c then d else x) s"

abbreviation slash :: char where "slash \<equiv> CHR ''/''"

definition backslash :: char where "backslash = char_of (92 :: nat)"

definition nul :: char where "nul = char_of (0 :: nat)"

section \<open>Keys\<close>

datatype storage_error =
    StorageMissingTenant
  | InvalidStoragePathException string
  | CrossTenantStorageAccessException string string
  | ObjectNotFound string
  | StorageOSError

definition sanitize_and_resolve_key :: "string \<Rightarrow> string \<Rightarrow> storage_error + string" where
  "sanitize_and_resolve_key tenant raw_key =
     (if raw_key = [] \<or> strip raw_key = [] then Inl (InvalidStoragePathException ''Object storage key cannot be empty.'')
      else let clean = replace_char backslash slash (strip raw_key) in
        if sublist ''/../'' (''/'' @ clean @ ''/'') \<or> prefix ''../'' clean \<or> suffix ''/..'' clean
        then Inl (InvalidStoragePathException (''Directory traversal detected in key '' @ quoted raw_key @ ''.''))
        else if nul \<in> set clean then Inl (InvalidStoragePathException ''Null byte detected in object key.'')
        else let parts = split_on slash clean; specified_tenant = parts ! 1;
                 own = prefix ''tenants/'' clean \<and> 2 \<le> length parts
             in if own \<and> specified_tenant \<noteq> tenant
                then Inl (CrossTenantStorageAccessException tenant specified_tenant)
                else let clean1 = strip_char slash (if own then join_on slash (drop 2 parts) else clean) in
                  if clean1 = [] then Inl (InvalidStoragePathException ''Effective object key after prefix resolution is empty.'')
                  else Inr (''tenants/'' @ tenant @ ''/'' @ clean1))"

section \<open>File-system storage\<close>

type_synonym file_path = "string list"

record object_store =
  os_files :: "(file_path, string) dict"
  os_dirs :: "file_path list"

definition path_of :: "string \<Rightarrow> file_path" where
  "path_of key = filter (\<lambda>w. w \<noteq> [] \<and> w \<noteq> ''.'') (split_on slash key)"

definition require_storage_tenant :: "string \<Rightarrow> storage_error + string" where
  "require_storage_tenant tenant = (if tenant = [] \<or> strip tenant = [] then Inl StorageMissingTenant else Inr tenant)"

text \<open>The path an operation of a tenant works on.\<close>

definition scoped_path :: "string \<Rightarrow> string \<Rightarrow> storage_error + string \<times> file_path" where
  "scoped_path tenant key =
     try_bind (require_storage_tenant tenant) (\<lambda>t.
     try_bind (sanitize_and_resolve_key t key) (\<lambda>k. Inr (k, path_of k)))"

text \<open>
  Making the parent directories fails when one of them is a file, writing the file when the
  path is a directory.
\<close>

definition put_object :: "string \<Rightarrow> string \<Rightarrow> string \<Rightarrow> object_store \<Rightarrow> (storage_error + string) \<times> object_store" where
  "put_object tenant key bytes s =
     (case scoped_path tenant key of
        Inl e \<Rightarrow> (Inl e, s)
      | Inr (k, p) \<Rightarrow>
          if list_ex (\<lambda>(q, b). strict_prefix q p) (os_files s) then (Inl StorageOSError, s)
          else let s1 = s\<lparr>os_dirs := os_dirs s @ filter (\<lambda>d. d \<notin> set (os_dirs s)) (map (\<lambda>i. take i p) [0..<length p])\<rparr> in
            if p \<in> set (os_dirs s1) then (Inl StorageOSError, s1)
            else (Inr k, s1\<lparr>os_files := dict_set (os_files s1) p bytes\<rparr>))"

definition get_object :: "string \<Rightarrow> string \<Rightarrow> object_store \<Rightarrow> storage_error + string" where
  "get_object tenant key s =
     try_bind (scoped_path tenant key) (\<lambda>(k, p).
       case dict_get (os_files s) p of None \<Rightarrow> Inl (ObjectNotFound key) | Some b \<Rightarrow> Inr b)"

definition delete_object :: "string \<Rightarrow> string \<Rightarrow> object_store \<Rightarrow> (storage_error + bool) \<times> object_store" where
  "delete_object tenant key s =
     (case scoped_path tenant key of
        Inl e \<Rightarrow> (Inl e, s)
      | Inr (k, p) \<Rightarrow> (case dict_get (os_files s) p of
                         None \<Rightarrow> (Inr False, s)
                       | Some b \<Rightarrow> (Inr True, s\<lparr>os_files := dict_pop (os_files s) p\<rparr>)))"

text \<open>The tenant id is joined to the base directory as it is.\<close>

definition list_objects :: "string \<Rightarrow> string \<Rightarrow> object_store \<Rightarrow> storage_error + string list" where
  "list_objects tenant pre s =
     try_bind (require_storage_tenant tenant) (\<lambda>t.
       let dir = path_of (''tenants/'' @ t); clean_prefix = strip_char slash pre;
           names = map (\<lambda>(p, b). replace_char backslash slash (join_on slash (drop (length dir) p)))
                     (filter (\<lambda>(p, b). strict_prefix dir p) (os_files s))
       in Inr (sort (filter (\<lambda>r. clean_prefix = [] \<or> prefix clean_prefix r) names)))"

definition object_exists :: "string \<Rightarrow> string \<Rightarrow> object_store \<Rightarrow> storage_error + bool" where
  "object_exists tenant key s =
     try_bind (require_storage_tenant tenant) (\<lambda>t.
       case sanitize_and_resolve_key t key of
         Inl e \<Rightarrow> Inr False | Inr k \<Rightarrow> Inr (dict_get (os_files s) (path_of k) \<noteq> None))"

section \<open>Components of a path\<close>

lemma split_on_nonempty [simp]: "split_on c s \<noteq> []"
  by (cases s) (auto split: list.split)

lemma split_on_app: "split_on c (a @ c # b) = split_on c a @ split_on c b"
  by (induction a) (auto split: list.splits)

lemma split_on_free: "c \<notin> set s \<Longrightarrow> split_on c s = [s]"
  by (induction s) auto

lemma split_on_Cons_other: "x \<noteq> c \<Longrightarrow> split_on c (x # xs) = (x # hd (split_on c xs)) # tl (split_on c xs)"
  by (cases "split_on c xs") auto

lemma split_on_replicate: "split_on c (replicate n c) = replicate (Suc n) []"
  by (induction n) auto

lemma split_on_pad: "split_on c (replicate m c @ s @ replicate n c) = replicate m [] @ split_on c s @ replicate n []"
proof (induction m)
  case 0
  show ?case by (cases n) (simp_all add: split_on_app split_on_replicate)
qed simp

lemma takeWhile_replicate: "\<exists>n. takeWhile ((=) c) s = replicate n c"
  by (metis (full_types) replicate_eqI set_takeWhileD)

lemma strip_char_pad: "\<exists>m n. s = replicate m c @ strip_char c s @ replicate n c"
proof -
  let ?t = "dropWhile ((=) c) s"
  obtain m where m: "takeWhile ((=) c) s = replicate m c" using takeWhile_replicate[of c s] by blast
  obtain n where n: "takeWhile ((=) c) (rev ?t) = replicate n c" using takeWhile_replicate[of c "rev ?t"] by blast
  have "rev (rev ?t) = rev (dropWhile ((=) c) (rev ?t)) @ rev (takeWhile ((=) c) (rev ?t))"
    by (metis rev_append takeWhile_dropWhile_id)
  with n have "?t = strip_char c s @ replicate n c" by (simp add: strip_char_def)
  with m show ?thesis by (metis takeWhile_dropWhile_id)
qed

lemma split_on_join:
  assumes "ws \<noteq> []" and "\<forall>w \<in> set ws. c \<notin> set w" shows "split_on c (join_on c ws) = ws"
  using assms by (induction c ws rule: join_on.induct) (auto simp: split_on_free split_on_app)

lemma split_on_comp_free: "w \<in> set (split_on c s) \<Longrightarrow> c \<notin> set w"
  by (induction s arbitrary: w) (auto split: if_splits list.splits)

lemma join_on_split: "join_on c (split_on c s) = s"
proof (induction s)
  case (Cons x xs)
  then show ?case by (cases "split_on c xs"; cases "tl (split_on c xs)") (auto split: list.splits)
qed simp

lemma join_on_app: "us \<noteq> [] \<Longrightarrow> vs \<noteq> [] \<Longrightarrow> join_on c (us @ vs) = join_on c us @ c # join_on c vs"
  by (induction c us rule: join_on.induct) (auto simp: neq_Nil_conv)

text \<open>A component is delimited by separators or by the ends of the string.\<close>

lemma split_on_delimited:
  assumes "w \<in> set (split_on c s)" shows "sublist (c # w @ [c]) (c # s @ [c])"
proof -
  obtain us vs where sp: "split_on c s = us @ w # vs" using assms by (meson split_list)
  have "join_on c ([[]] @ (us @ w # vs) @ [[]]) = c # s @ [c]"
    using join_on_app[of "[[]]" "(us @ w # vs) @ [[]]" c] join_on_app[of "us @ w # vs" "[[]]" c] join_on_split[of c s] sp
    by simp
  moreover have "join_on c ([[]] @ (us @ w # vs) @ [[]]) = join_on c ([] # us) @ c # w @ c # join_on c (vs @ [[]])"
    using join_on_app[of "[] # us" "w # vs @ [[]]" c] join_on_app[of "[w]" "vs @ [[]]" c] by simp
  ultimately have "c # s @ [c] = join_on c ([] # us) @ (c # w @ [c]) @ join_on c (vs @ [[]])" by simp
  then show ?thesis by (metis sublist_appendI)
qed

lemma path_of_pad: "path_of (strip_char slash s) = path_of s"
proof -
  obtain m n where "s = replicate m slash @ strip_char slash s @ replicate n slash" using strip_char_pad by blast
  then have "split_on slash s = replicate m [] @ split_on slash (strip_char slash s) @ replicate n []"
    by (metis split_on_pad)
  then show ?thesis by (simp add: path_of_def)
qed

lemma path_of_app: "path_of (a @ slash # b) = path_of a @ path_of b"
  by (simp add: path_of_def split_on_app)

text \<open>A tenant id that is a single ordinary path component.\<close>

definition tenant_id_ok :: "string \<Rightarrow> bool" where
  "tenant_id_ok t \<longleftrightarrow> slash \<notin> set t \<and> t \<noteq> ''.'' \<and> t \<noteq> ''..'' \<and> strip t \<noteq> []"

lemma path_of_tenant: "tenant_id_ok t \<Longrightarrow> path_of t = [t]"
  by (auto simp: path_of_def split_on_free tenant_id_ok_def strip_def)

lemma path_of_tenants: "path_of (''tenants/'' @ x) = ''tenants'' # path_of x"
  using path_of_app[of "''tenants''" x] by (simp add: path_of_def)

lemma path_of_drop:
  assumes "2 \<le> length (split_on slash s)"
  shows "set (path_of (join_on slash (drop 2 (split_on slash s)))) \<subseteq> set (split_on slash s)"
proof (cases "drop 2 (split_on slash s) = []")
  case True
  then show ?thesis by (simp add: path_of_def)
next
  case False
  then have "split_on slash (join_on slash (drop 2 (split_on slash s))) = drop 2 (split_on slash s)"
    by (rule split_on_join) (meson in_set_dropD split_on_comp_free)
  then show ?thesis by (auto simp: path_of_def dest: in_set_dropD)
qed

text \<open>What the resolved key of an accepted raw key looks like as a path.\<close>

lemma resolved_path:
  assumes "sanitize_and_resolve_key t raw = Inr key" and "tenant_id_ok t"
  shows "\<exists>rest. path_of key = ''tenants'' # t # rest \<and> ''..'' \<notin> set rest"
proof -
  define clean where "clean = replace_char backslash slash (strip raw)"
  define parts where "parts = split_on slash clean"
  define own where "own \<longleftrightarrow> prefix ''tenants/'' clean \<and> 2 \<le> length parts"
  define body where "body = (if own then join_on slash (drop 2 parts) else clean)"
  have "\<not> sublist ''/../'' (''/'' @ clean @ ''/'')" and key: "key = ''tenants/'' @ t @ ''/'' @ strip_char slash body"
    using assms(1) by (auto simp: sanitize_and_resolve_key_def Let_def clean_def parts_def own_def body_def split: if_splits)
  then have up: "''..'' \<notin> set parts"
    using split_on_delimited[of "''..''" slash clean] by (auto simp: parts_def)
  have "set (path_of body) \<subseteq> set parts"
    using path_of_drop[of clean] by (auto simp: body_def own_def parts_def path_of_def)
  moreover have "path_of key = ''tenants'' # t # path_of body"
    using path_of_tenants[of "t @ ''/'' @ strip_char slash body"] path_of_app[of t "strip_char slash body"]
      path_of_tenant[OF assms(2)]
    by (simp add: key path_of_pad)
  ultimately show ?thesis using up by blast
qed

lemma scoped_pathD:
  assumes "scoped_path t raw = Inr (k, p)" and "tenant_id_ok t"
  shows "\<exists>rest. p = ''tenants'' # t # rest \<and> ''..'' \<notin> set rest"
proof -
  have "sanitize_and_resolve_key t raw = Inr k" "p = path_of k"
    using assms(1) by (auto simp: scoped_path_def try_bind_eq_Inr require_storage_tenant_def split: if_splits)
  then show ?thesis using resolved_path[OF _ assms(2)] by blast
qed

section \<open>Confinement and isolation\<close>

text \<open>The components a raw key names, after the caller's own \<open>tenants/\<close>\<^emph>\<open>tenant\<close> prefix.\<close>

definition named_components :: "string \<Rightarrow> file_path" where
  "named_components raw =
     (let clean = replace_char backslash slash (strip raw)
      in if prefix ''tenants/'' clean then drop 2 (path_of clean) else path_of clean)"

lemma split_on_tenants:
  "prefix ''tenants/'' clean \<Longrightarrow> \<exists>ws. ws \<noteq> [] \<and> split_on slash clean = ''tenants'' # ws"
  using split_on_app[of slash "''tenants''"] by (auto simp: prefix_def)

lemma own_body:
  assumes "prefix ''tenants/'' clean" and "split_on slash clean ! 1 = t" and "tenant_id_ok t"
  shows "path_of (join_on slash (drop 2 (split_on slash clean))) = drop 2 (path_of clean)"
proof -
  obtain ws where ws: "split_on slash clean = ''tenants'' # t # ws"
    using split_on_tenants[OF assms(1)] assms(2) by (metis nth_Cons_Suc nth_Cons_0 One_nat_def neq_Nil_conv)
  have t: "t \<noteq> []" "t \<noteq> ''.''" using assms(3) by (auto simp: tenant_id_ok_def strip_def)
  have "split_on slash (join_on slash ws) = ws" if "ws \<noteq> []"
    by (rule split_on_join[OF that]) (metis list.set_intros(2) split_on_comp_free ws)
  then have "path_of (join_on slash ws) = filter (\<lambda>w. w \<noteq> [] \<and> w \<noteq> ''.'') ws"
    by (cases "ws = []") (simp_all add: path_of_def)
  with t show ?thesis by (simp add: path_of_def ws numeral_2_eq_2)
qed

lemma resolved_components:
  assumes "sanitize_and_resolve_key t raw = Inr key" and "tenant_id_ok t"
  shows "path_of key = [''tenants'', t] @ named_components raw"
proof -
  define clean where "clean = replace_char backslash slash (strip raw)"
  define parts where "parts = split_on slash clean"
  define body where "body = (if prefix ''tenants/'' clean then join_on slash (drop 2 parts) else clean)"
  have two: "prefix ''tenants/'' clean \<Longrightarrow> 2 \<le> length parts"
    using split_on_tenants[of clean] by (auto simp: parts_def neq_Nil_conv)
  have own: "prefix ''tenants/'' clean \<Longrightarrow> parts ! 1 = t" and key: "key = ''tenants/'' @ t @ ''/'' @ strip_char slash body"
    using assms(1) two
    by (auto simp: sanitize_and_resolve_key_def Let_def clean_def parts_def body_def split: if_splits)
  have "path_of body = named_components raw"
    using own_body[of clean t] own assms(2) by (simp add: body_def named_components_def clean_def parts_def Let_def)
  then show ?thesis
    using path_of_tenants[of "t @ ''/'' @ strip_char slash body"] path_of_app[of t "strip_char slash body"]
      path_of_tenant[OF assms(2)]
    by (simp add: key path_of_pad)
qed

text \<open>
  C12. Whatever key a caller supplies (absolute paths, backslashes, dots, another tenant's prefix), if it
  is accepted then its path is the directory \<open>tenants/\<close>\<^emph>\<open>tenant\<close> of the caller followed by the components
  the key names: none of them is \<open>..\<close>, so the path never climbs, and it lies strictly inside the directory
  exactly when the key names a component at all. A key such as \<open>.\<close> names none: it is accepted and
  denotes the directory itself. The tenant id is assumed to be one ordinary path component
  (\<open>tenant_id_ok\<close>), which the store does not check.
\<close>

theorem resolved_keys_confined:
  assumes "sanitize_and_resolve_key t raw = Inr key" and "tenant_id_ok t"
  shows "path_of key = [''tenants'', t] @ named_components raw \<and> ''..'' \<notin> set (named_components raw)
    \<and> (strict_prefix [''tenants'', t] (path_of key) \<longleftrightarrow> named_components raw \<noteq> [])"
  using resolved_components[OF assms] resolved_path[OF assms] by (auto simp: strict_prefix_def)

theorem resolved_keys_confined_witness:
  "path_of ''tenants/t1/tenants/t2/x'' = [''tenants'', ''t1'', ''tenants'', ''t2'', ''x'']
   \<and> strict_prefix [''tenants'', ''t1''] (path_of ''tenants/t1/a/./b'')
   \<and> sanitize_and_resolve_key ''t1'' ''/tenants/t2//x/'' = Inr ''tenants/t1/tenants/t2//x''
   \<and> path_of ''tenants/t1/.'' = [''tenants'', ''t1'']"
proof -
  have a: "sanitize_and_resolve_key ''t1'' ''/tenants/t2/x'' = Inr ''tenants/t1/tenants/t2/x''"
    and b: "sanitize_and_resolve_key ''t1'' ''/tenants/t2//x/'' = Inr ''tenants/t1/tenants/t2//x''"
    and c: "sanitize_and_resolve_key ''t1'' ''tenants/t1/a/./b'' = Inr ''tenants/t1/a/./b''"
    and d: "sanitize_and_resolve_key ''t1'' ''.'' = Inr ''tenants/t1/.''"
    and ok: "tenant_id_ok ''t1''"
    and names: "named_components ''/tenants/t2/x'' = [''tenants'', ''t2'', ''x'']"
      "named_components ''tenants/t1/a/./b'' = [''a'', ''b'']" "named_components ''.'' = []"
    by code_simp+
  show ?thesis
    using resolved_keys_confined[OF a ok] resolved_keys_confined[OF c ok] resolved_keys_confined[OF d ok] b names
    by simp
qed

datatype os_event = Put_object string string string | Delete_object string string

fun os_step :: "os_event \<Rightarrow> object_store \<Rightarrow> object_store" where
  "os_step (Put_object t k b) s = snd (put_object t k b s)"
| "os_step (Delete_object t k) s = snd (delete_object t k s)"

fun os_tenant :: "os_event \<Rightarrow> string" where
  "os_tenant (Put_object t k b) = t"
| "os_tenant (Delete_object t k) = t"

text \<open>The part of the state the operations of a tenant depend on.\<close>

definition tenant_view :: "string \<Rightarrow> object_store \<Rightarrow> (file_path \<times> string) list \<times> file_path set \<times> file_path set" where
  "tenant_view t s =
     (filter (\<lambda>(p, b). prefix [''tenants'', t] p) (os_files s),
      {q. strict_prefix q [''tenants'', t] \<and> dict_get (os_files s) q \<noteq> None},
      {d \<in> set (os_dirs s). prefix [''tenants'', t] d})"

lemma dict_set_filter: "\<not> P k \<Longrightarrow> filter (\<lambda>(p, b). P p) (dict_set d k v) = filter (\<lambda>(p, b). P p) d"
  by (induction d) auto

lemma dict_pop_filter: "\<not> P k \<Longrightarrow> filter (\<lambda>(p, b). P p) (dict_pop d k) = filter (\<lambda>(p, b). P p) d"
  by (auto simp: dict_pop_def AList.delete_eq filter_filter intro!: filter_cong)

lemma take_under: "prefix [x, y] (take i (x # z # r)) \<Longrightarrow> y = z"
  by (auto simp: take_Cons split: nat.splits)

lemma os_step_view:
  assumes "os_tenant e \<noteq> t" and "tenant_id_ok (os_tenant e)"
  shows "tenant_view t (os_step e s) = tenant_view t s"
proof (cases e)
  case (Put_object a k b)
  show ?thesis
  proof (cases "scoped_path a k")
    case (Inr kp)
    then obtain p rest where kp: "kp = (fst kp, p)" and p: "p = ''tenants'' # a # rest"
      using scoped_pathD[of a k "fst kp" "snd kp"] assms(2) Put_object by (cases kp) auto
    have np: "\<not> prefix [''tenants'', t] p" using p assms(1) Put_object by auto
    have nd: "\<not> prefix [''tenants'', t] (take i p)" for i
      using take_under[of "''tenants''" t i a rest] assms(1) Put_object p by auto
    have ns: "\<not> strict_prefix p [''tenants'', t]" using p assms(1) Put_object by (auto simp: strict_prefix_def)
    show ?thesis using Put_object Inr kp np nd ns
      by (auto simp: tenant_view_def put_object_def Let_def dict_set_filter[where P = "prefix _"] split: prod.splits)
  qed (simp add: Put_object put_object_def)
next
  case (Delete_object a k)
  show ?thesis
  proof (cases "scoped_path a k")
    case (Inr kp)
    then obtain p rest where kp: "kp = (fst kp, p)" and p: "p = ''tenants'' # a # rest"
      using scoped_pathD[of a k "fst kp" "snd kp"] assms(2) Delete_object by (cases kp) auto
    have np: "\<not> prefix [''tenants'', t] p" using p assms(1) Delete_object by auto
    have ns: "\<not> strict_prefix p [''tenants'', t]" using p assms(1) Delete_object by (auto simp: strict_prefix_def)
    show ?thesis using Delete_object Inr kp np ns
      by (auto simp: tenant_view_def delete_object_def dict_pop_filter[where P = "prefix _"] split: prod.splits option.splits)
  qed (simp add: Delete_object delete_object_def)
qed

lemma os_run_view:
  assumes "\<forall>e \<in> set es. os_tenant e \<noteq> t \<and> tenant_id_ok (os_tenant e)"
  shows "tenant_view t (fold os_step es s) = tenant_view t s"
  using assms by (induction es arbitrary: s) (simp_all add: os_step_view)

lemma dict_get_under:
  "prefix [''tenants'', t] p \<Longrightarrow> dict_get (os_files s) p = dict_get (fst (tenant_view t s)) p"
  by (simp add: tenant_view_def dict_get_filter)

lemma scoped_under: "scoped_path t k = Inr (k', p) \<Longrightarrow> tenant_id_ok t \<Longrightarrow> prefix [''tenants'', t] p"
  using scoped_pathD by fastforce

lemma require_ok: "tenant_id_ok t \<Longrightarrow> require_storage_tenant t = Inr t"
  by (auto simp: require_storage_tenant_def tenant_id_ok_def strip_def)

lemma view_get:
  "tenant_view t s = tenant_view t s' \<Longrightarrow> tenant_id_ok t \<Longrightarrow> get_object t k s = get_object t k s'"
  unfolding get_object_def
  by (cases "scoped_path t k") (auto simp: scoped_under[THEN dict_get_under] split: prod.splits)

lemma view_list:
  assumes "tenant_view t s = tenant_view t s'" and "tenant_id_ok t"
  shows "list_objects t pre s = list_objects t pre s'"
proof -
  have d: "path_of (''tenants/'' @ t) = [''tenants'', t]" using assms(2) by (simp only: path_of_tenants path_of_tenant)
  have "filter (\<lambda>(p, b). strict_prefix [''tenants'', t] p) (os_files u)
      = filter (\<lambda>(p, b). strict_prefix [''tenants'', t] p) (fst (tenant_view t u))" for u
    by (auto simp: tenant_view_def filter_filter strict_prefix_def intro!: filter_cong)
  then show ?thesis using assms by (simp only: list_objects_def require_ok try_bind_Inr d Let_def)
qed

lemma view_exists:
  "tenant_view t s = tenant_view t s' \<Longrightarrow> tenant_id_ok t \<Longrightarrow> object_exists t k s = object_exists t k s'"
  using resolved_path[of t k]
  by (fastforce simp: object_exists_def require_ok dict_get_under split: sum.split)

lemma list_ex_dict: "list_ex (\<lambda>(q, b). P q) d \<longleftrightarrow> (\<exists>q. P q \<and> dict_get d q \<noteq> None)"
  by (force simp: list_ex_iff dict_get_def map_of_eq_None_iff)

lemma prefix_of_path_cases:
  "strict_prefix q (x # y # r) \<longleftrightarrow> strict_prefix q [x, y] \<or> (prefix [x, y] q \<and> strict_prefix q (x # y # r))"
  by (cases q; cases "tl q") (auto simp: strict_prefix_def)

lemma view_put:
  assumes "tenant_view t s = tenant_view t s'" and "tenant_id_ok t"
  shows "fst (put_object t k b s) = fst (put_object t k b s')"
proof (cases "scoped_path t k")
  case (Inr kp)
  obtain k' p where kp: "kp = (k', p)" by (cases kp)
  obtain rest where p: "p = ''tenants'' # t # rest" using scoped_pathD assms(2) Inr kp by blast
  define blocked where "blocked v \<longleftrightarrow> fst (snd v) \<noteq> {} \<or>
      (\<exists>q. (prefix [''tenants'', t] q \<and> strict_prefix q p) \<and> dict_get (fst v) q \<noteq> None)"
    for v :: "(file_path \<times> string) list \<times> file_path set \<times> file_path set"
  have blk: "list_ex (\<lambda>(q, b). strict_prefix q p) (os_files u) \<longleftrightarrow> blocked (tenant_view t u)" for u
    using prefix_of_path_cases[of _ "''tenants''" t rest]
    unfolding list_ex_dict p[symmetric] blocked_def tenant_view_def fst_conv snd_conv dict_get_filter by auto
  have "p \<noteq> take i p" if "i < length p" for i using that by (metis length_take min_less_iff_conj nat_neq_iff)
  then have dir: "p \<in> set (os_dirs u @ filter (\<lambda>d. d \<notin> set (os_dirs u)) (map (\<lambda>i. take i p) [0..<length p]))
      \<longleftrightarrow> p \<in> snd (snd (tenant_view t u))" for u
    by (auto simp: tenant_view_def p simp del: take_Suc_Cons)
  have "fst (put_object t k b u) = (if blocked (tenant_view t u) then Inl StorageOSError
      else if p \<in> snd (snd (tenant_view t u)) then Inl StorageOSError else Inr k')" for u
    unfolding put_object_def Inr kp sum.case prod.case Let_def blk
    by (simp del: set_append add: dir)
  with assms(1) show ?thesis by simp
qed (simp add: put_object_def)


definition demo_store :: object_store where
  "demo_store = \<lparr> os_files = [([''tenants'', ''t2'', ''a''], ''x'')], os_dirs = [[], [''tenants''], [''tenants'', ''t2'']] \<rparr>"


section \<open>Keys that are handed out\<close>

lemma strip_char_idem: "strip_char c (strip_char c s) = strip_char c s"
proof -
  let ?d = "dropWhile ((=) c)"
  have hd: "?d xs = xs" if "xs = [] \<or> hd xs \<noteq> c" for xs using that by (cases xs) auto
  have h: "?d xs = [] \<or> hd (?d xs) \<noteq> c" for xs using hd_dropWhile[of "(=) c" xs] by metis
  have "strip_char c s = [] \<or> hd (strip_char c s) \<noteq> c"
  proof (cases "strip_char c s = []")
    case False
    have "suffix (?d (rev (?d s))) (rev (?d s))" by (rule suffix_dropWhile)
    then have "prefix (strip_char c s) (?d s)" by (simp add: strip_char_def suffix_to_prefix)
    then obtain zs where "?d s = strip_char c s @ zs" by (auto simp: prefix_def)
    with False h[of s] show ?thesis by (metis append_is_Nil_conv hd_append2)
  qed simp
  then have "?d (strip_char c s) = strip_char c s" by (rule hd)
  moreover have "?d (rev (strip_char c s)) = rev (strip_char c s)"
    unfolding strip_char_def rev_rev_ident by (rule hd) (rule h)
  ultimately show ?thesis by (simp add: strip_char_def)
qed

lemma split_on_delimitedD:
  assumes "sublist (c # w @ [c]) (c # s @ [c])" and "c \<notin> set w" and "w \<noteq> []"
  shows "w \<in> set (split_on c s)"
proof -
  obtain a b where ab: "c # s @ [c] = a @ c # w @ c # b" using assms(1) by (auto simp: sublist_def)
  have "split_on c (a @ c # w @ c # b) = split_on c a @ [w] @ split_on c b"
    using assms(2) by (simp add: split_on_app split_on_free)
  moreover have "split_on c (c # s @ [c]) = [] # split_on c s @ [[]]" using split_on_app[of c s "[]"] by simp
  ultimately have "split_on c a @ [w] @ split_on c b = [] # split_on c s @ [[]]" using ab by simp
  then have "w \<in> set ([] # split_on c s @ [[]])" by (metis in_set_conv_decomp append_Cons append_Nil)
  with assms(3) show ?thesis by simp
qed

lemma strip_id: "s \<noteq> [] \<Longrightarrow> \<not> is_space (hd s) \<Longrightarrow> \<not> is_space (last s) \<Longrightarrow> strip s = s"
proof -
  assume a: "s \<noteq> []" "\<not> is_space (hd s)" "\<not> is_space (last s)"
  then have "dropWhile is_space s = s" by (cases s) auto
  moreover have "dropWhile is_space (rev s) = rev s" using a by (cases "rev s") (auto simp: hd_rev[symmetric])
  ultimately show ?thesis by (simp add: strip_def)
qed

lemma set_strip_char: "set (strip_char c s) \<subseteq> set s"
  unfolding strip_char_def by (metis set_dropWhileD set_rev subsetI)

lemma set_join_on: "set (join_on c ws) \<subseteq> insert c (\<Union>w \<in> set ws. set w)"
  by (induction c ws rule: join_on.induct) auto

lemma set_split_on: "w \<in> set (split_on c s) \<Longrightarrow> set w \<subseteq> set s"
  by (induction s arbitrary: w) (fastforce split: if_splits list.splits)+

lemma components_strip: "set (split_on c (strip_char c s)) \<subseteq> set (split_on c s)"
proof -
  obtain m n where "s = replicate m c @ strip_char c s @ replicate n c" using strip_char_pad by blast
  then have "split_on c s = replicate m [] @ split_on c (strip_char c s) @ replicate n []"
    by (metis split_on_pad)
  then show ?thesis by auto
qed

text \<open>What an accepted key leaves after the tenant prefix: no traversal, no backslash, no null, no outer slash.\<close>

lemma resolved_body:
  assumes "sanitize_and_resolve_key t raw = Inr key"
  shows "\<exists>body. key = ''tenants/'' @ t @ ''/'' @ body \<and> body \<noteq> [] \<and> strip_char slash body = body
    \<and> ''..'' \<notin> set (split_on slash body) \<and> backslash \<notin> set body \<and> nul \<notin> set body"
proof -
  define clean where "clean = replace_char backslash slash (strip raw)"
  define parts where "parts = split_on slash clean"
  define own where "own \<longleftrightarrow> prefix ''tenants/'' clean \<and> 2 \<le> length parts"
  define rest where "rest = (if own then join_on slash (drop 2 parts) else clean)"
  have "\<not> sublist ''/../'' (''/'' @ clean @ ''/'')" and nul: "nul \<notin> set clean"
    and key: "key = ''tenants/'' @ t @ ''/'' @ strip_char slash rest" "strip_char slash rest \<noteq> []"
    using assms by (auto simp: sanitize_and_resolve_key_def Let_def clean_def parts_def own_def rest_def split: if_splits)
  then have up: "''..'' \<notin> set parts"
    using split_on_delimited[of "''..''" slash clean] by (auto simp: parts_def)
  have sl: "slash \<noteq> backslash" "slash \<noteq> nul" by code_simp+
  have bs: "backslash \<notin> set clean" using sl by (auto simp: clean_def replace_char_def)
  have drop: "set (split_on slash (join_on slash (drop 2 parts))) \<subseteq> insert [] (set parts)"
  proof (cases "drop 2 parts = []")
    case False
    then show ?thesis
      by (subst split_on_join) (auto simp: parts_def dest: in_set_dropD split_on_comp_free)
  qed simp
  have "set (join_on slash (drop 2 parts)) \<subseteq> insert slash (set clean)"
    using set_join_on[of slash "drop 2 parts"] set_split_on[of _ slash clean] by (fastforce simp: parts_def dest: in_set_dropD)
  then have "set rest \<subseteq> insert slash (set clean)" by (auto simp: rest_def)
  then have "backslash \<notin> set (strip_char slash rest)" "nul \<notin> set (strip_char slash rest)"
    using set_strip_char[of slash rest] bs nul sl by auto
  moreover have "''..'' \<notin> set (split_on slash (strip_char slash rest))"
    using components_strip[of slash rest] drop up by (auto simp: rest_def parts_def split: if_splits)
  ultimately show ?thesis using key by (auto simp: strip_char_idem)
qed

lemma resolve_canonical:
  assumes t: "tenant_id_ok t" "backslash \<notin> set t" "nul \<notin> set t"
    and body: "body \<noteq> []" "strip_char slash body = body" "''..'' \<notin> set (split_on slash body)"
      "backslash \<notin> set body" "nul \<notin> set body" "\<not> is_space (last body)"
  shows "sanitize_and_resolve_key t (''tenants/'' @ t @ ''/'' @ body) = Inr (''tenants/'' @ t @ ''/'' @ body)"
proof -
  let ?k = "''tenants/'' @ t @ ''/'' @ body"
  have sp: "split_on slash ?k = ''tenants'' # t # split_on slash body"
    using t(1) split_on_app[of slash "''tenants''" "t @ slash # body"] split_on_app[of slash t body]
    by (simp add: split_on_free tenant_id_ok_def)
  have up: "''..'' \<notin> set (split_on slash ?k)" unfolding sp using t(1) body(3) by (auto simp: tenant_id_ok_def)
  have strip: "strip ?k = ?k"
  proof (rule strip_id)
    show "\<not> is_space (hd ?k)" by (simp add: is_space_def)
    show "\<not> is_space (last ?k)" using body(1,6) by simp
  qed simp
  have "backslash \<notin> set ''tenants/''" "nul \<notin> set ''tenants/''" by code_simp+
  then have "backslash \<notin> set ?k" "nul \<notin> set ?k" using t(2,3) body(4,5) by auto
  then have rep: "replace_char backslash slash (strip ?k) = ?k" and nul: "nul \<notin> set ?k"
    unfolding strip by (auto simp: replace_char_def intro!: map_idI)
  have trav: "\<not> sublist ''/../'' (''/'' @ ?k @ ''/'')"
    using split_on_delimitedD[of slash "''..''" ?k] up by auto
  have pre: "\<not> prefix ''../'' ?k" by simp
  have suf: "\<not> suffix ''/..'' ?k"
  proof
    assume "suffix ''/..'' ?k"
    then obtain a where "?k = a @ slash # ''..''" unfolding suffix_def by force
    then have e: "split_on slash ?k = split_on slash a @ split_on slash ''..''" by (simp only: split_on_app)
    have "''..'' \<in> set (split_on slash ?k)" unfolding e by simp
    with up show False by contradiction
  qed
  have own: "prefix ''tenants/'' ?k" by simp
  have d: "join_on slash (drop 2 (''tenants'' # t # split_on slash body)) = body" by (simp add: join_on_split)
  have ne: "?k \<noteq> []" "strip ?k \<noteq> []" unfolding strip by simp_all
  show ?thesis
    unfolding sanitize_and_resolve_key_def rep Let_def sp d
    using trav pre suf nul own body(1,2) ne by (simp del: append.simps)
qed

lemma put_object_get:
  "put_object t k b s = (Inr key, s') \<Longrightarrow> dict_get (os_files s') (path_of key) = Some b"
  by (auto simp: put_object_def scoped_path_def try_bind_eq_Inr Let_def split: sum.splits prod.splits if_splits)

lemma put_object_key:
  "put_object t k b s = (Inr key, s') \<Longrightarrow> sanitize_and_resolve_key t k = Inr key \<and> require_storage_tenant t = Inr t"
  by (auto simp: put_object_def scoped_path_def try_bind_eq_Inr Let_def require_storage_tenant_def
      split: sum.splits prod.splits if_splits)

text \<open>
  Round trip of a write: the object is read back under the key the caller used and, unless that
  key ends in white space, under the full key the write returned, which resolves to itself; every
  other object of every tenant is unchanged.
\<close>

theorem put_then_get:
  assumes "put_object t k b s = (Inr key, s')" and "tenant_id_ok t" "backslash \<notin> set t" "nul \<notin> set t"
  shows "get_object t k s' = Inr b
    \<and> (\<not> is_space (last key) \<longrightarrow> sanitize_and_resolve_key t key = Inr key \<and> get_object t key s' = Inr b)
    \<and> (\<forall>p. p \<noteq> path_of key \<longrightarrow> dict_get (os_files s') p = dict_get (os_files s) p)"
proof -
  note key = put_object_key[OF assms(1)] and stored = put_object_get[OF assms(1)]
  have get: "get_object t j s' = Inr b" if "sanitize_and_resolve_key t j = Inr key" for j
    using that key stored by (simp add: get_object_def scoped_path_def)
  obtain body where body: "key = ''tenants/'' @ t @ ''/'' @ body" "body \<noteq> []" "strip_char slash body = body"
    "''..'' \<notin> set (split_on slash body)" "backslash \<notin> set body" "nul \<notin> set body"
    using resolved_body key by blast
  have "sanitize_and_resolve_key t key = Inr key" if "\<not> is_space (last key)"
    unfolding body(1) using assms(2-) body that by (intro resolve_canonical) auto
  moreover have "dict_get (os_files s') p = dict_get (os_files s) p" if "p \<noteq> path_of key" for p
    using assms(1) that
    by (auto simp: put_object_def scoped_path_def try_bind_eq_Inr Let_def split: sum.splits prod.splits if_splits)
  ultimately show ?thesis using get key by blast
qed

theorem put_then_get_witness:
  "get_object ''t1'' ''tenants/t1/a/b'' (snd (put_object ''t1'' ''/a/b/'' ''data'' demo_store)) = Inr ''data''"
proof -
  have "fst (put_object ''t1'' ''/a/b/'' ''data'' demo_store) = Inr ''tenants/t1/a/b''" by code_simp
  then have p: "put_object ''t1'' ''/a/b/'' ''data'' demo_store
      = (Inr ''tenants/t1/a/b'', snd (put_object ''t1'' ''/a/b/'' ''data'' demo_store))"
    by (metis prod.collapse)
  have "tenant_id_ok ''t1''" "backslash \<notin> set ''t1''" "nul \<notin> set ''t1''" "\<not> is_space (last ''tenants/t1/a/b'')" by code_simp+
  with put_then_get[OF p] show ?thesis by blast
qed

text \<open>
  A key that ends in a slash behind white space is stored under a key that ends in white space,
  and the key the write returns then names another file.
\<close>

lemma returned_key_not_found:
  "put_object ''t1'' ''a /'' ''data'' demo_store = (Inr ''tenants/t1/a '', s) \<Longrightarrow>
   get_object ''t1'' ''tenants/t1/a '' s = Inl (ObjectNotFound ''tenants/t1/a '')"
proof -
  assume p: "put_object ''t1'' ''a /'' ''data'' demo_store = (Inr ''tenants/t1/a '', s)"
  have "get_object ''t1'' ''tenants/t1/a '' (snd (put_object ''t1'' ''a /'' ''data'' demo_store))
      = Inl (ObjectNotFound ''tenants/t1/a '')" by code_simp
  then show ?thesis by (simp only: p snd_conv)
qed

text \<open>
  The key \<open>.\<close> is accepted and names the tenant's directory itself: on a store without that
  directory the write makes it a file, and every later write of the tenant fails.
\<close>

lemma dot_key_blocks_tenant:
  assumes "put_object ''t1'' ''.'' b demo_store = (Inr key, s)"
    and "sanitize_and_resolve_key ''t1'' k = Inr key'" and "path_of key' \<noteq> [''tenants'', ''t1'']"
  shows "fst (put_object ''t1'' k b' s) = Inl StorageOSError"
proof -
  have san: "sanitize_and_resolve_key ''t1'' ''.'' = Inr ''tenants/t1/.''" and req: "require_storage_tenant ''t1'' = Inr ''t1''"
    and ok: "tenant_id_ok ''t1''" and dp: "path_of ''tenants/t1/.'' = [''tenants'', ''t1'']"
    by code_simp+
  have "key = ''tenants/t1/.''" using put_object_key[OF assms(1)] san by simp
  then have f: "dict_get (os_files s) [''tenants'', ''t1''] = Some b" using put_object_get[OF assms(1)] dp by simp
  have "strict_prefix [''tenants'', ''t1''] (path_of key')"
    using resolved_path[OF assms(2) ok] assms(3) by (auto simp: strict_prefix_def)
  then have "list_ex (\<lambda>(q, b). strict_prefix q (path_of key')) (os_files s)"
    unfolding list_ex_dict using f by auto
  then show ?thesis using assms(2) req by (simp add: put_object_def scoped_path_def)
qed

end
