(* ===== verification/Raw_Landing.thy ===== *)
theory Raw_Landing
  imports Object_Store
begin

text \<open>
  \<open>RawLandingService.land_raw_payload\<close> (\<open>connectors/contract/raw_landing.py\<close>): raw provider payloads landed in the
  tenant's object store, in the MinIO bucket and in the metadata table.

  A payload is its JSON text (none when it cannot be serialised) and the shape its record count depends
  on. The SHA-256 digest is a parameter. Fresh identifiers, the clock and the outcome of the calls to MinIO,
  the database and the audit service are the arguments in \<open>landing_env\<close>.
\<close>

section \<open>Records and state\<close>

datatype field = F_none | F_list nat | F_other bool

datatype shape = Sh_list nat | Sh_dict field field field | Sh_other

record raw_payload =
  rp_json :: "string option"
  rp_shape :: shape

record landing_record =
  lr_id :: string
  lr_tenant_id :: string
  lr_connector_id :: string
  lr_run_id :: string
  lr_capability :: string
  lr_schema_version :: string
  lr_storage_path :: string
  lr_sha256_checksum :: string
  lr_byte_size :: int
  lr_record_count :: int
  lr_landed_at :: int

record landing_env =
  le_id :: string
  le_now :: int
  le_month :: string
  le_minio_ok :: bool
  le_db_ok :: bool
  le_require_realdb :: bool
  le_audit_ok :: bool
  le_error_text :: string

record landing_service =
  ls_store :: object_store
  ls_minio :: "(string, string) dict"
  ls_rows :: "landing_record list"
  ls_audit :: "(string \<times> landing_record) list"

datatype landing_error =
    LandMissingTenantContext
  | RawLandingException string
  | LandStorageError storage_error
  | LandDatabaseError

section \<open>Keys\<close>

fun digits :: "nat \<Rightarrow> string" where
  "digits n = (if n < 10 then [char_of (48 + n)] else digits (n div 10) @ [char_of (48 + n mod 10)])"

definition str_int :: "int \<Rightarrow> string" where
  "str_int i = (if i < 0 then ''-'' @ digits (nat (- i)) else digits (nat i))"

definition truthy_field :: "field \<Rightarrow> bool" where
  "truthy_field f = (case f of F_none \<Rightarrow> False | F_list n \<Rightarrow> n > 0 | F_other b \<Rightarrow> b)"

definition record_count :: "shape \<Rightarrow> int" where
  "record_count sh =
     (case sh of
        Sh_list n \<Rightarrow> int n
      | Sh_dict items records data \<Rightarrow>
          (case (if truthy_field items then items else if truthy_field records then records else data) of
             F_list n \<Rightarrow> int n | _ \<Rightarrow> 1)
      | Sh_other \<Rightarrow> 0)"

definition effective_dataset :: "string option \<Rightarrow> string \<Rightarrow> string" where
  "effective_dataset dataset cap =
     (case or_else dataset None of
        Some d \<Rightarrow> d
      | None \<Rightarrow> if sublist ''cost'' (lower cap) then ''cost''
                else if sublist ''inventory'' (lower cap) \<or> sublist ''resource'' (lower cap) then ''inventory''
                else lower cap)"

definition minio_key :: "string \<Rightarrow> string \<Rightarrow> string \<Rightarrow> string \<Rightarrow> string \<Rightarrow> int \<Rightarrow> string" where
  "minio_key tenant cid ds per run page =
     tenant @ ''/'' @ cid @ ''/'' @ ds @ ''/'' @ per @ ''/run_'' @ run @ ''_page_'' @ str_int page @ ''.json''"

definition relative_key :: "string \<Rightarrow> string \<Rightarrow> string \<Rightarrow> int \<Rightarrow> string" where
  "relative_key cid cap run page =
     ''landings/'' @ cid @ ''/'' @ cap @ ''/'' @ run @ ''/page_'' @ str_int page @ ''.json''"

definition conflict_text :: "string \<Rightarrow> string" where
  "conflict_text key = ''Landing file '' @ quoted key @
     '' already exists with different contents. Raw landings are immutable and cannot be overwritten.''"

section \<open>Landing\<close>

definition insert_landing_db :: "landing_record \<Rightarrow> landing_record list \<Rightarrow> landing_record list" where
  "insert_landing_db r rows = (if lr_id r \<in> lr_id ` set rows then rows else rows @ [r])"

text \<open>Whether the object may be written: nothing is stored under the key, or the same bytes are.\<close>

definition immutability_check :: "string \<Rightarrow> string \<Rightarrow> string \<Rightarrow> object_store \<Rightarrow> storage_error + bool" where
  "immutability_check tenant key bytes st =
     try_bind (object_exists tenant key st) (\<lambda>ex.
       if ex then try_bind (get_object tenant key st) (\<lambda>existing_data. Inr (existing_data = bytes)) else Inr True)"

definition land_raw_payload :: "(string \<Rightarrow> string) \<Rightarrow> landing_env \<Rightarrow> string \<Rightarrow> string \<Rightarrow> string \<Rightarrow> string \<Rightarrow> int \<Rightarrow> raw_payload
    \<Rightarrow> string \<Rightarrow> string \<Rightarrow> string option \<Rightarrow> string option \<Rightarrow> landing_service \<Rightarrow> (landing_error + landing_record) \<times> landing_service" where
  "land_raw_payload sha env tenant cid run cap page pl schema actor dataset period s =
     (if tenant = [] then (Inl LandMissingTenantContext, s)
      else case rp_json pl of
        None \<Rightarrow> (Inl (RawLandingException (''Failed to serialize raw payload to JSON: '' @ le_error_text env)), s)
      | Some bytes \<Rightarrow>
          let ds = effective_dataset dataset cap;
              per = (if truthy period then the period else le_month env);
              mkey = minio_key tenant cid ds per run page;
              rkey = relative_key cid cap run page
          in case immutability_check tenant rkey bytes (ls_store s) of
               Inl e \<Rightarrow> (Inl (LandStorageError e), s)
             | Inr False \<Rightarrow> (Inl (RawLandingException (conflict_text rkey)), s)
             | Inr True \<Rightarrow>
                 (case put_object tenant rkey bytes (ls_store s) of
                    (Inl e, st) \<Rightarrow> (Inl (LandStorageError e), s\<lparr>ls_store := st\<rparr>)
                  | (Inr k, st) \<Rightarrow>
                      let s1 = s\<lparr>ls_store := st,
                                 ls_minio := (if le_minio_ok env then dict_set (ls_minio s) mkey bytes else ls_minio s)\<rparr>;
                          r = \<lparr> lr_id = le_id env, lr_tenant_id = tenant, lr_connector_id = cid, lr_run_id = run,
                                lr_capability = cap, lr_schema_version = schema, lr_storage_path = ''raw-landing/'' @ mkey,
                                lr_sha256_checksum = sha bytes, lr_byte_size = int (length bytes),
                                lr_record_count = record_count (rp_shape pl), lr_landed_at = le_now env \<rparr>
                      in if \<not> le_db_ok env \<and> le_require_realdb env then (Inl LandDatabaseError, s1)
                         else (Inr r, s1\<lparr>ls_rows := (if le_db_ok env then insert_landing_db r (ls_rows s1) else ls_rows s1),
                                        ls_audit := (if le_audit_ok env then ls_audit s1 @ [(actor, r)] else ls_audit s1)\<rparr>)))"

text \<open>\<open>str\<close> of the exception; the text of an error of the operating system, the database or the serialiser comes with the environment.\<close>

definition landing_error_text :: "landing_env \<Rightarrow> landing_error \<Rightarrow> string" where
  "landing_error_text env e =
     (case e of
        LandMissingTenantContext \<Rightarrow> ''Cannot land raw payload without authenticated TenantContext.''
      | RawLandingException msg \<Rightarrow> msg
      | LandStorageError (InvalidStoragePathException msg) \<Rightarrow> msg
      | LandStorageError (CrossTenantStorageAccessException t u) \<Rightarrow>
          ''Cross-tenant storage access denied: caller tenant '' @ quoted t @ '' cannot access path belonging to tenant '' @ quoted u @ ''.''
      | LandStorageError StorageMissingTenant \<Rightarrow> ''TenantContext contains an empty or whitespace tenant_id.''
      | _ \<Rightarrow> le_error_text env)"

definition get_landing :: "string \<Rightarrow> landing_service \<Rightarrow> landing_record option" where
  "get_landing i s = find (\<lambda>r. lr_id r = i) (ls_rows s)"

text \<open>\<open>ORDER BY landed_at DESC\<close>; rows landed at the same instant in table order.\<close>

definition list_landings :: "string \<Rightarrow> string option \<Rightarrow> string option \<Rightarrow> landing_service \<Rightarrow> landing_error + landing_record list" where
  "list_landings tenant cid cap s =
     (if tenant = [] then Inl LandMissingTenantContext
      else Inr (sort_key (\<lambda>r. - lr_landed_at r)
        (filter (\<lambda>r. lr_tenant_id r = tenant \<and> (\<not> truthy cid \<or> Some (lr_connector_id r) = cid)
                   \<and> (\<not> truthy cap \<or> Some (lr_capability r) = cap)) (ls_rows s))))"

section \<open>What was landed stays\<close>

datatype land_event = Land landing_env string string string string int raw_payload string string "string option" "string option"

fun land_step :: "(string \<Rightarrow> string) \<Rightarrow> land_event \<Rightarrow> landing_service \<Rightarrow> landing_service" where
  "land_step sha (Land env t c run cap page pl schema actor ds per) s =
     snd (land_raw_payload sha env t c run cap page pl schema actor ds per s)"

lemma put_object_files:
  "dict_get (os_files (snd (put_object t k b s))) p =
     (case put_object t k b s of (Inr key, s') \<Rightarrow> if p = path_of key then Some b else dict_get (os_files s) p
      | (Inl e, s') \<Rightarrow> dict_get (os_files s) p)"
  by (auto simp: put_object_def scoped_path_def try_bind_eq_Inr Let_def split: sum.splits prod.splits)

lemma land_store:
  "ls_store (snd (land_raw_payload sha env t c run cap page pl schema actor ds per s)) =
     (if t = [] then ls_store s
      else case rp_json pl of None \<Rightarrow> ls_store s
        | Some bytes \<Rightarrow> if immutability_check t (relative_key c cap run page) bytes (ls_store s) = Inr True
                        then snd (put_object t (relative_key c cap run page) bytes (ls_store s)) else ls_store s)"
proof (cases "t = [] \<or> rp_json pl = None")
  case True
  then show ?thesis by (auto simp: land_raw_payload_def)
next
  case False
  then obtain bytes where b: "t \<noteq> []" "rp_json pl = Some bytes" by auto
  show ?thesis
  proof (cases "immutability_check t (relative_key c cap run page) bytes (ls_store s)")
    case (Inr g)
    obtain r st where "put_object t (relative_key c cap run page) bytes (ls_store s) = (r, st)" by fastforce
    with b Inr show ?thesis by (cases g; cases r) (simp_all add: land_raw_payload_def Let_def)
  qed (use b in \<open>simp add: land_raw_payload_def Let_def\<close>)
qed

lemma immutability_checkD:
  assumes "immutability_check t k bytes st = Inr True" and "sanitize_and_resolve_key t k = Inr key"
  shows "dict_get (os_files st) (path_of key) \<in> {None, Some bytes}"
proof -
  have "require_storage_tenant t = Inr t"
    using assms(1) by (auto simp: immutability_check_def object_exists_def try_bind_eq_Inr require_storage_tenant_def split: if_splits)
  with assms show ?thesis
    by (auto simp: immutability_check_def object_exists_def get_object_def scoped_path_def split: option.splits if_splits)
qed

lemma land_keeps_files:
  assumes "dict_get (os_files (ls_store s)) p = Some b"
  shows "dict_get (os_files (ls_store (land_step sha e s))) p = Some b"
proof (cases e)
  case (Land env t c run cap page pl schema actor ds per)
  have "dict_get (os_files (snd (put_object t k bytes st))) p = Some b"
    if "immutability_check t k bytes st = Inr True" "st = ls_store s" for k bytes st
  proof (cases "put_object t k bytes st")
    case (Pair r st')
    show ?thesis
    proof (cases r)
      case (Inr key)
      with Pair that assms immutability_checkD[OF that(1)] put_object_key[of t k bytes st key st']
        put_object_files[of t k bytes st p] show ?thesis by auto
    qed (use Pair that assms put_object_files[of t k bytes st p] in \<open>simp\<close>)
  qed
  with assms show ?thesis by (auto simp: Land land_store split: option.split)
qed

interpretation landed: machine "land_step sha" "\<lambda>_. True" "\<lambda>s. dict_get (os_files (ls_store s)) p = Some b" for sha p b
  by unfold_locales (rule land_keeps_files)

text \<open>
  C27. A payload that has been landed is never replaced: after the landing returns its record, and
  after any number of further landings by anyone, the tenant still reads the very bytes whose digest and
  length the record states under the landing's key.
\<close>

theorem landed_payload_is_immutable:
  assumes "land_raw_payload sha env t c run cap page pl schema actor ds per s = (Inr r, s')"
  shows "\<exists>bytes. rp_json pl = Some bytes \<and> lr_sha256_checksum r = sha bytes \<and> lr_byte_size r = int (length bytes)
    \<and> get_object t (relative_key c cap run page) (ls_store (fold (land_step sha) es s')) = Inr bytes"
proof -
  let ?k = "relative_key c cap run page"
  obtain bytes where b: "t \<noteq> []" "rp_json pl = Some bytes"
    using assms by (auto simp: land_raw_payload_def split: if_splits option.splits)
  obtain g where g: "immutability_check t ?k bytes (ls_store s) = Inr g"
    using assms b by (cases "immutability_check t ?k bytes (ls_store s)") (auto simp: land_raw_payload_def Let_def)
  have "g" using assms b g by (cases g) (simp_all add: land_raw_payload_def Let_def)
  obtain x st where put: "put_object t ?k bytes (ls_store s) = (x, st)" by fastforce
  obtain key where key: "x = Inr key"
    using assms b g \<open>g\<close> put by (cases x) (auto simp: land_raw_payload_def Let_def)
  have s': "ls_store s' = st" using assms b g \<open>g\<close> put land_store[of sha env t c run cap page pl schema actor ds per s] by simp
  have r: "lr_sha256_checksum r = sha bytes" "lr_byte_size r = int (length bytes)"
    using assms b g \<open>g\<close> put key by (auto simp: land_raw_payload_def Let_def split: if_splits)
  have "dict_get (os_files (ls_store s')) (path_of key) = Some bytes"
    unfolding s' using put_object_get put key by blast
  then have "dict_get (os_files (ls_store (fold (land_step sha) es s'))) (path_of key) = Some bytes"
    by (rule landed.inv_run) (simp add: list_all_iff)
  with put_object_key[of t ?k bytes "ls_store s" key st] put key
  have "get_object t ?k (ls_store (fold (land_step sha) es s')) = Inr bytes"
    by (simp add: get_object_def scoped_path_def)
  with b r show ?thesis by blast
qed

definition demo_env :: "string \<Rightarrow> landing_env" where
  "demo_env i = \<lparr> le_id = i, le_now = 0, le_month = ''2026-09'', le_minio_ok = True, le_db_ok = True, le_require_realdb = False, le_audit_ok = True, le_error_text = [] \<rparr>"

definition demo_service :: landing_service where
  "demo_service = \<lparr> ls_store = \<lparr> os_files = [], os_dirs = [[]] \<rparr>, ls_minio = [], ls_rows = [], ls_audit = [] \<rparr>"

definition demo_payload :: "string \<Rightarrow> raw_payload" where
  "demo_payload j = \<lparr> rp_json = Some j, rp_shape = Sh_list 2 \<rparr>"

theorem landed_payload_is_immutable_witness:
  "get_object ''t1'' ''landings/c1/collect_usage/job/page_1.json''
     (ls_store (fold (land_step rev) [Land (demo_env ''l2'') ''t1'' ''c1'' ''job'' ''collect_usage'' 1 (demo_payload ''[3,4]'') ''v'' ''a'' None None]
        (snd (land_raw_payload rev (demo_env ''l1'') ''t1'' ''c1'' ''job'' ''collect_usage'' 1 (demo_payload ''[1,2]'') ''v'' ''a'' None None demo_service))))
   = Inr ''[1,2]''"
proof -
  let ?l = "land_raw_payload rev (demo_env ''l1'') ''t1'' ''c1'' ''job'' ''collect_usage'' 1 (demo_payload ''[1,2]'') ''v'' ''a'' None None demo_service"
  have ok: "isl (fst ?l) = False" by code_simp
  then obtain r where r: "?l = (Inr r, snd ?l)" by (metis isl_def prod.collapse sum.exhaust)
  have k: "relative_key ''c1'' ''collect_usage'' ''job'' 1 = ''landings/c1/collect_usage/job/page_1.json''"
    by code_simp
  from landed_payload_is_immutable[OF r, of "[Land (demo_env ''l2'') ''t1'' ''c1'' ''job'' ''collect_usage'' 1 (demo_payload ''[3,4]'') ''v'' ''a'' None None]"]
  show ?thesis unfolding k by (simp add: demo_payload_def)
qed

section \<open>Conflicts\<close>

text \<open>
  Landing other bytes under a key that is taken raises and changes nothing; landing the same bytes again
  succeeds.
\<close>

lemma landing_conflict:
  assumes "get_object t (relative_key c cap run page) (ls_store s) = Inr old" and "t \<noteq> []" and "rp_json pl = Some bytes" and "bytes \<noteq> old"
  shows "land_raw_payload sha env t c run cap page pl schema actor ds per s
    = (Inl (RawLandingException (conflict_text (relative_key c cap run page))), s)"
proof -
  obtain t' k where "require_storage_tenant t = Inr t'" "sanitize_and_resolve_key t' (relative_key c cap run page) = Inr k"
    "dict_get (os_files (ls_store s)) (path_of k) = Some old"
    using assms(1) by (auto simp: get_object_def scoped_path_def try_bind_eq_Inr split: option.splits)
  then have "object_exists t (relative_key c cap run page) (ls_store s) = Inr True" by (simp add: object_exists_def)
  with assms(1,4) have "immutability_check t (relative_key c cap run page) bytes (ls_store s) = Inr False"
    by (simp add: immutability_check_def)
  then show ?thesis using assms(2,3) by (simp add: land_raw_payload_def Let_def)
qed

text \<open>
  The object the record points to is another one. The MinIO key is built from the data set, not from
  the capability, and is written without a check: in one run, page 1 of the query cost collection replaces page 1 of the bulk
  cost collection, and the path in the first record then holds bytes that its digest does not describe.
\<close>

definition demo_landing :: "string \<Rightarrow> string \<Rightarrow> string \<Rightarrow> land_event" where
  "demo_landing i cap j = Land (demo_env i) ''t1'' ''c1'' ''job'' cap 1 (demo_payload j) ''v'' ''a'' None None"

lemma minio_object_replaced:
  defines "path \<equiv> ''t1/c1/cost/2026-09/run_job_page_1.json''"
  defines "s1 \<equiv> land_step rev (demo_landing ''l1'' ''collect_cost_bulk'' ''[1]'') demo_service"
  shows "map (\<lambda>r. (lr_storage_path r, lr_sha256_checksum r)) (ls_rows s1) = [(''raw-landing/'' @ path, rev ''[1]'')]
   \<and> dict_get (ls_minio (land_step rev (demo_landing ''l2'' ''collect_cost_query'' ''[2]'') s1)) path = Some ''[2]''"
proof
  have a: "map (\<lambda>r. (lr_storage_path r, lr_sha256_checksum r)) (ls_rows s1) = [(''raw-landing/'' @ path, rev ''[1]'')]"
    unfolding s1_def path_def by code_simp
  then show "map (\<lambda>r. (lr_storage_path r, lr_sha256_checksum r)) (ls_rows s1) = [(''raw-landing/'' @ path, rev ''[1]'')]" .
  have st: "ls_store s1 = \<lparr> os_files = [([''tenants'', ''t1'', ''landings'', ''c1'', ''collect_cost_bulk'', ''job'', ''page_1.json''], ''[1]'')],
      os_dirs = map (\<lambda>i. take i [''tenants'', ''t1'', ''landings'', ''c1'', ''collect_cost_bulk'', ''job'']) [0..<7] \<rparr>"
    unfolding s1_def by code_simp
  have k: "relative_key ''c1'' ''collect_cost_query'' ''job'' 1 = ''landings/c1/collect_cost_query/job/page_1.json''"
    and ds: "effective_dataset None ''collect_cost_query'' = ''cost''"
    and mk: "minio_key ''t1'' ''c1'' ''cost'' ''2026-09'' ''job'' 1 = path"
    unfolding path_def by code_simp+
  have g: "immutability_check ''t1'' ''landings/c1/collect_cost_query/job/page_1.json'' ''[2]'' (ls_store s1) = Inr True"
    unfolding st by code_simp
  have "isl (fst (put_object ''t1'' ''landings/c1/collect_cost_query/job/page_1.json'' ''[2]'' (ls_store s1))) = False"
    unfolding st by code_simp
  then obtain key st' where p: "put_object ''t1'' ''landings/c1/collect_cost_query/job/page_1.json'' ''[2]'' (ls_store s1) = (Inr key, st')"
    by (metis isl_def prod.collapse sum.exhaust)
  show "dict_get (ls_minio (land_step rev (demo_landing ''l2'' ''collect_cost_query'' ''[2]'') s1)) path = Some ''[2]''"
    using g p by (simp add: demo_landing_def land_raw_payload_def demo_payload_def demo_env_def k ds mk Let_def)
qed

end
