(* ===== verification/Connector_Lifecycle.thy ===== *)
theory Connector_Lifecycle
  imports Circuit_Breaker
begin

text \<open>
  \<open>ConnectorLifecycleManager\<close> (\<open>connectors/contract/lifecycle.py\<close>): the life cycle of a connector per tenant, the
  health of its capabilities, and how failures and successes of single capabilities move it.

  The circuit breakers are those of \<open>Circuit_Breaker\<close>, in the registry the manager shares with the execution
  engine. What the connector table holds for a connector (nothing also when the read fails) is an argument
  of the calls that may read it; writes to that table are not modelled. A capability is the
  value of its enumeration member. Audit events are a log.
\<close>

section \<open>States and records\<close>

datatype conn_state = REGISTERED | CREDENTIAL_BOUND | VALIDATED | ACTIVE | DEGRADED | FAILED | SUSPENDED | DELETED

datatype cap_health = HEALTHY | CAP_DEGRADED | CAP_FAILED | CAP_DISABLED

definition all_capabilities :: "string list" where
  "all_capabilities =
     [''authenticate'', ''validate_permissions'', ''discover_organizations'', ''discover_accounts'', ''discover_hierarchy'',
      ''discover_resources'', ''discover_services'', ''collect_cost_bulk'', ''collect_cost_query'', ''collect_usage'',
      ''collect_pricing_public'', ''collect_pricing_negotiated'', ''collect_tags'', ''discover_relationships'',
      ''collect_budgets'', ''health_status'', ''provider_metadata'']"

definition FOUNDATIONAL_CAPABILITIES :: "string list" where
  "FOUNDATIONAL_CAPABILITIES = [''authenticate'', ''validate_permissions'']"

fun ALLOWED_TRANSITIONS :: "conn_state \<Rightarrow> conn_state list" where
  "ALLOWED_TRANSITIONS REGISTERED = [CREDENTIAL_BOUND, SUSPENDED, DELETED]"
| "ALLOWED_TRANSITIONS CREDENTIAL_BOUND = [VALIDATED, FAILED, SUSPENDED, DELETED]"
| "ALLOWED_TRANSITIONS VALIDATED = [ACTIVE, DEGRADED, FAILED, SUSPENDED, DELETED]"
| "ALLOWED_TRANSITIONS ACTIVE = [DEGRADED, FAILED, SUSPENDED, DELETED]"
| "ALLOWED_TRANSITIONS DEGRADED = [ACTIVE, FAILED, SUSPENDED, DELETED]"
| "ALLOWED_TRANSITIONS FAILED = [CREDENTIAL_BOUND, VALIDATED, SUSPENDED, DELETED]"
| "ALLOWED_TRANSITIONS SUSPENDED = [REGISTERED, CREDENTIAL_BOUND, VALIDATED, ACTIVE, FAILED, DELETED]"
| "ALLOWED_TRANSITIONS DELETED = []"

record error_detail =
  ed_capability :: string
  ed_verbatim_error :: string
  ed_plain_language :: string

record health_record =
  hr_capability :: string
  hr_health :: cap_health
  hr_circuit_state :: cb_state
  hr_consecutive_failures :: int
  hr_last_success_at :: "int option"
  hr_last_failure_at :: "int option"
  hr_error_detail :: "error_detail option"

text \<open>The payload of an audit event: previous and new state with the reason; health, failures, verbatim and plain error; capability.\<close>

datatype conn_payload =
    CONNECTOR_STATE_CHANGED conn_state conn_state string
  | CONNECTOR_CAPABILITY_DEGRADED string cap_health int string string
  | CONNECTOR_CAPABILITY_RECOVERED string

record conn_audit =
  ca_tenant_id :: string
  ca_actor :: string
  ca_connector_id :: string
  ca_payload :: conn_payload

record lifecycle_manager =
  lm_breakers :: registry
  lm_states :: "(string \<times> string, conn_state) dict"
  lm_health :: "(string \<times> string \<times> string, health_record) dict"
  lm_declared :: "(string \<times> string, string list) dict"
  lm_audit :: "conn_audit list"

datatype lifecycle_error =
    LmMissingTenantContext
  | InvalidConnectorStateTransitionException conn_state conn_state

text \<open>The clock readings of one call: creation of the breaker, the recorded outcome, the two of the state property, the wall clock.\<close>

record lm_clock =
  lc_create :: rat
  lc_record :: rat
  lc_poll1 :: rat
  lc_poll2 :: rat
  lc_now :: int

section \<open>Operations\<close>

definition get_state :: "conn_state option \<Rightarrow> string \<Rightarrow> string \<Rightarrow> lifecycle_manager \<Rightarrow> conn_state \<times> lifecycle_manager" where
  "get_state db tenant cid m =
     (case dict_get (lm_states m) (tenant, cid) of
        Some st \<Rightarrow> (st, m)
      | None \<Rightarrow> (case db of
                  Some st \<Rightarrow> (st, m\<lparr>lm_states := dict_set (lm_states m) (tenant, cid) st\<rparr>)
                | None \<Rightarrow> (REGISTERED, m)))"

definition set_declared_capabilities :: "string \<Rightarrow> string \<Rightarrow> string list \<Rightarrow> lifecycle_manager \<Rightarrow> lifecycle_manager" where
  "set_declared_capabilities tenant cid caps m = m\<lparr>lm_declared := dict_set (lm_declared m) (tenant, cid) caps\<rparr>"

definition log_conn :: "string \<Rightarrow> string \<Rightarrow> string \<Rightarrow> conn_payload \<Rightarrow> lifecycle_manager \<Rightarrow> lifecycle_manager" where
  "log_conn tenant actor cid pl m =
     m\<lparr>lm_audit := lm_audit m @ [\<lparr> ca_tenant_id = tenant, ca_actor = actor, ca_connector_id = cid, ca_payload = pl \<rparr>]\<rparr>"

definition get_declared_capabilities :: "string \<Rightarrow> string \<Rightarrow> lifecycle_manager \<Rightarrow> string list" where
  "get_declared_capabilities tenant cid m =
     (case dict_get (lm_declared m) (tenant, cid) of Some caps \<Rightarrow> caps | None \<Rightarrow> all_capabilities)"

text \<open>An empty tenant id is a missing context.\<close>

definition transition_state :: "conn_state option \<Rightarrow> string \<Rightarrow> string \<Rightarrow> conn_state \<Rightarrow> string option \<Rightarrow> string \<Rightarrow> lifecycle_manager
    \<Rightarrow> (lifecycle_error + conn_state) \<times> lifecycle_manager" where
  "transition_state db tenant cid target reason actor m =
     (if tenant = [] then (Inl LmMissingTenantContext, m)
      else let (current, m1) = get_state db tenant cid m in
        if current = target then (Inr current, m1)
        else if target \<notin> set (ALLOWED_TRANSITIONS current) then (Inl (InvalidConnectorStateTransitionException current target), m1)
        else (Inr target,
              log_conn tenant actor cid
                (CONNECTOR_STATE_CHANGED current target (if truthy reason then the reason else ''State transition executed''))
                (m1\<lparr>lm_states := dict_set (lm_states m1) (tenant, cid) target\<rparr>)))"

text \<open>A breaker call of the manager: the outcome is recorded, then the state is read, which may move an open breaker.\<close>

definition breaker_outcome :: "lm_clock \<Rightarrow> string \<Rightarrow> string \<Rightarrow> (rat \<Rightarrow> breaker \<Rightarrow> breaker) \<Rightarrow> lifecycle_manager \<Rightarrow> cb_state \<times> lifecycle_manager" where
  "breaker_outcome k cid cap rec m =
     (let (b, r) = get_breaker (lc_create k) cid cap (lm_breakers m);
          b' = cb_state_poll (lc_poll1 k) (lc_poll2 k) (rec (lc_record k) b)
      in (cb_st b', m\<lparr>lm_breakers := dict_set r (cid, cap) b'\<rparr>))"

definition failure_target :: "string \<Rightarrow> conn_state \<Rightarrow> conn_state option" where
  "failure_target cap current =
     (if cap \<in> set FOUNDATIONAL_CAPABILITIES
      then (if current \<in> {ACTIVE, DEGRADED, VALIDATED} then Some FAILED else None)
      else (if current = ACTIVE then Some DEGRADED else None))"

definition failure_reason :: "string \<Rightarrow> error_detail \<Rightarrow> string" where
  "failure_reason cap ed =
     (if cap \<in> set FOUNDATIONAL_CAPABILITIES
      then ''Foundational capability '' @ quoted cap @ '' failed: '' @ ed_plain_language ed
      else ''Capability '' @ quoted cap @ '' degraded: '' @ ed_plain_language ed)"

definition failure_record :: "string \<Rightarrow> error_detail \<Rightarrow> cb_state \<Rightarrow> health_record option \<Rightarrow> int \<Rightarrow> health_record" where
  "failure_record cap ed circuit existing now =
     \<lparr> hr_capability = cap,
       hr_health = (if cap \<in> set FOUNDATIONAL_CAPABILITIES then CAP_FAILED else CAP_DEGRADED),
       hr_circuit_state = circuit,
       hr_consecutive_failures = (case existing of Some e \<Rightarrow> hr_consecutive_failures e + 1 | None \<Rightarrow> 1),
       hr_last_success_at = (case existing of Some e \<Rightarrow> hr_last_success_at e | None \<Rightarrow> None),
       hr_last_failure_at = Some now, hr_error_detail = Some ed \<rparr>"

definition record_capability_failure :: "conn_state option \<Rightarrow> lm_clock \<Rightarrow> string \<Rightarrow> string \<Rightarrow> string \<Rightarrow> error_detail \<Rightarrow> string
    \<Rightarrow> lifecycle_manager \<Rightarrow> (lifecycle_error + health_record) \<times> lifecycle_manager" where
  "record_capability_failure db k tenant cid cap ed actor m =
     (if tenant = [] then (Inl LmMissingTenantContext, m)
      else
        let (circuit, m1) = breaker_outcome k cid cap cb_record_failure m;
            existing = dict_get (lm_health m1) (tenant, cid, cap);
            record = failure_record cap ed circuit existing (lc_now k);
            (current, m2) = get_state db tenant cid (m1\<lparr>lm_health := dict_set (lm_health m1) (tenant, cid, cap) record\<rparr>);
            (res, m3) = (case failure_target cap current of
                           None \<Rightarrow> (Inr current, m2)
                         | Some tgt \<Rightarrow> transition_state db tenant cid tgt (Some (failure_reason cap ed)) actor m2)
        in case res of
             Inl e \<Rightarrow> (Inl e, m3)
           | Inr st \<Rightarrow> (Inr record, log_conn tenant actor cid
               (CONNECTOR_CAPABILITY_DEGRADED cap (hr_health record) (hr_consecutive_failures record)
                  (ed_verbatim_error ed) (ed_plain_language ed)) m3))"

definition connector_records :: "string \<Rightarrow> string \<Rightarrow> lifecycle_manager \<Rightarrow> health_record list" where
  "connector_records tenant cid m = map snd (filter (\<lambda>((t, c, cap), r). t = tenant \<and> c = cid) (lm_health m))"

definition unhealthy :: "health_record \<Rightarrow> bool" where
  "unhealthy r \<longleftrightarrow> hr_health r \<in> {CAP_DEGRADED, CAP_FAILED} \<or> hr_circuit_state r = OPEN"

definition recheck_connector_health :: "conn_state option \<Rightarrow> string \<Rightarrow> string \<Rightarrow> string \<Rightarrow> lifecycle_manager
    \<Rightarrow> (lifecycle_error + unit) \<times> lifecycle_manager" where
  "recheck_connector_health db tenant cid actor m =
     (let (current, m1) = get_state db tenant cid m in
      if current \<noteq> DEGRADED then (Inr (), m1)
      else if list_ex unhealthy (connector_records tenant cid m1) then (Inr (), m1)
      else case transition_state db tenant cid ACTIVE (Some ''All capabilities recovered to HEALTHY state'') actor m1 of
             (Inl e, m2) \<Rightarrow> (Inl e, m2) | (Inr st, m2) \<Rightarrow> (Inr (), m2))"

definition was_degraded :: "health_record option \<Rightarrow> bool" where
  "was_degraded existing = (case existing of Some e \<Rightarrow> hr_health e \<in> {CAP_DEGRADED, CAP_FAILED} | None \<Rightarrow> False)"

definition success_record :: "string \<Rightarrow> cb_state \<Rightarrow> health_record option \<Rightarrow> int \<Rightarrow> health_record" where
  "success_record cap circuit existing now =
     \<lparr> hr_capability = cap, hr_health = HEALTHY, hr_circuit_state = circuit, hr_consecutive_failures = 0,
       hr_last_success_at = Some now,
       hr_last_failure_at = (case existing of Some e \<Rightarrow> hr_last_failure_at e | None \<Rightarrow> None),
       hr_error_detail = None \<rparr>"

definition record_capability_success :: "conn_state option \<Rightarrow> lm_clock \<Rightarrow> string \<Rightarrow> string \<Rightarrow> string \<Rightarrow> string
    \<Rightarrow> lifecycle_manager \<Rightarrow> (lifecycle_error + health_record) \<times> lifecycle_manager" where
  "record_capability_success db k tenant cid cap actor m =
     (if tenant = [] then (Inl LmMissingTenantContext, m)
      else
        let (circuit, m1) = breaker_outcome k cid cap cb_record_success m;
            existing = dict_get (lm_health m1) (tenant, cid, cap);
            record = success_record cap circuit existing (lc_now k);
            m2 = m1\<lparr>lm_health := dict_set (lm_health m1) (tenant, cid, cap) record\<rparr>
        in if was_degraded existing then
             case recheck_connector_health db tenant cid actor (log_conn tenant actor cid (CONNECTOR_CAPABILITY_RECOVERED cap) m2) of
               (Inl e, m3) \<Rightarrow> (Inl e, m3) | (Inr u, m3) \<Rightarrow> (Inr record, m3)
           else (Inr record, m2))"

definition get_capability_health :: "lm_clock \<Rightarrow> string \<Rightarrow> string \<Rightarrow> string \<Rightarrow> lifecycle_manager \<Rightarrow> health_record \<times> lifecycle_manager" where
  "get_capability_health k tenant cid cap m =
     (let (b, r) = get_breaker (lc_create k) cid cap (lm_breakers m) in
      case dict_get (lm_health m) (tenant, cid, cap) of
        Some rec \<Rightarrow> (rec, m\<lparr>lm_breakers := r\<rparr>)
      | None \<Rightarrow> (let b' = cb_state_poll (lc_poll1 k) (lc_poll2 k) b in
                 (\<lparr> hr_capability = cap, hr_health = HEALTHY, hr_circuit_state = cb_st b', hr_consecutive_failures = 0,
                    hr_last_success_at = None, hr_last_failure_at = None, hr_error_detail = None \<rparr>,
                  m\<lparr>lm_breakers := dict_set r (cid, cap) b'\<rparr>)))"

definition get_all_capability_health :: "string \<Rightarrow> string \<Rightarrow> lifecycle_manager \<Rightarrow> (string, health_record) dict" where
  "get_all_capability_health tenant cid m =
     map (\<lambda>((t, c, cap), r). (cap, r)) (filter (\<lambda>((t, c, cap), r). t = tenant \<and> c = cid) (lm_health m))"

definition lm_reset_for_test :: "lifecycle_manager \<Rightarrow> lifecycle_manager" where
  "lm_reset_for_test m = m\<lparr>lm_states := [], lm_health := []\<rparr>"

section \<open>The life cycle as a machine\<close>

text \<open>
  The state of a connector as its next reader sees it, for a connector table whose answers do not
  change: the cached state, else the stored one, else \<open>REGISTERED\<close>.
\<close>

type_synonym conn_table = "string \<Rightarrow> string \<Rightarrow> conn_state option"

definition conn_view :: "conn_table \<Rightarrow> lifecycle_manager \<Rightarrow> string \<Rightarrow> string \<Rightarrow> conn_state" where
  "conn_view tab m t c =
     (case dict_get (lm_states m) (t, c) of Some st \<Rightarrow> st
      | None \<Rightarrow> (case tab t c of Some st \<Rightarrow> st | None \<Rightarrow> REGISTERED))"

lemma get_state_view [simp]: "fst (get_state (tab t c) t c m) = conn_view tab m t c"
  by (simp add: get_state_def conn_view_def split: option.split)

lemma get_state_keeps [simp]:
  "conn_view tab (snd (get_state (tab t c) t c m)) t' c' = conn_view tab m t' c'"
  "lm_health (snd (get_state db t c m)) = lm_health m"
  "lm_breakers (snd (get_state db t c m)) = lm_breakers m"
  by (auto simp: get_state_def conn_view_def split: option.splits)

lemma log_conn_keeps [simp]:
  "conn_view tab (log_conn t a c pl m) t' c' = conn_view tab m t' c'"
  "lm_health (log_conn t a c pl m) = lm_health m" "lm_breakers (log_conn t a c pl m) = lm_breakers m"
  by (simp_all add: log_conn_def conn_view_def)

lemma view_updates [simp]:
  "conn_view tab (m\<lparr>lm_health := h\<rparr>) t c = conn_view tab m t c"
  "conn_view tab (m\<lparr>lm_breakers := b\<rparr>) t c = conn_view tab m t c"
  by (simp_all add: conn_view_def)

lemma view_set_state [simp]:
  "conn_view tab (m\<lparr>lm_states := dict_set (lm_states m) (t, c) st\<rparr>) t' c' = (if (t', c') = (t, c) then st else conn_view tab m t' c')"
  by (auto simp: conn_view_def)

definition conn_moves :: "conn_state \<Rightarrow> conn_state \<Rightarrow> bool" where
  "conn_moves a b \<longleftrightarrow> b \<in> set (ALLOWED_TRANSITIONS a)"

text \<open>What a transition does, in terms of the view.\<close>

lemma transition_state_result:
  assumes "t \<noteq> []"
  shows "fst (transition_state (tab t c) t c target reason actor m) =
    (if target = conn_view tab m t c \<or> conn_moves (conn_view tab m t c) target then Inr target
     else Inl (InvalidConnectorStateTransitionException (conn_view tab m t c) target))"
  using assms by (auto simp: transition_state_def Let_def split_beta conn_moves_def)

lemma transition_state_view:
  assumes "t \<noteq> []"
  shows "conn_view tab (snd (transition_state (tab t c) t c target reason actor m)) t' c' =
    (if (t', c') = (t, c) \<and> conn_moves (conn_view tab m t c) target then target else conn_view tab m t' c')"
  using assms by (auto simp: transition_state_def Let_def split_beta conn_moves_def)

lemma transition_state_keeps [simp]:
  "lm_health (snd (transition_state db t c target reason actor m)) = lm_health m"
  "lm_breakers (snd (transition_state db t c target reason actor m)) = lm_breakers m"
  by (simp_all add: transition_state_def Let_def split_beta)

lemma failure_target_moves: "failure_target cap st = Some tgt \<Longrightarrow> conn_moves st tgt"
  by (cases st) (auto simp: failure_target_def conn_moves_def split: if_splits)

lemma breaker_outcome_keeps [simp]:
  "conn_view tab (snd (breaker_outcome k c cap f m)) t c' = conn_view tab m t c'"
  "lm_health (snd (breaker_outcome k c cap f m)) = lm_health m"
  by (simp_all add: breaker_outcome_def Let_def split_beta)

lemma breaker_outcome_other:
  "(c', cap') \<noteq> (c, cap) \<Longrightarrow> dict_get (lm_breakers (snd (breaker_outcome k c cap f m))) (c', cap') = dict_get (lm_breakers m) (c', cap')"
  by (auto simp: breaker_outcome_def get_breaker_def Let_def split_beta split: option.splits)

text \<open>The health record a failure and a success leave behind.\<close>

abbreviation failed_record :: "lm_clock \<Rightarrow> string \<Rightarrow> string \<Rightarrow> string \<Rightarrow> error_detail \<Rightarrow> lifecycle_manager \<Rightarrow> health_record" where
  "failed_record k t c cap ed m \<equiv>
     failure_record cap ed (fst (breaker_outcome k c cap cb_record_failure m)) (dict_get (lm_health m) (t, c, cap)) (lc_now k)"

abbreviation healthy_record :: "lm_clock \<Rightarrow> string \<Rightarrow> string \<Rightarrow> string \<Rightarrow> lifecycle_manager \<Rightarrow> health_record" where
  "healthy_record k t c cap m \<equiv>
     success_record cap (fst (breaker_outcome k c cap cb_record_success m)) (dict_get (lm_health m) (t, c, cap)) (lc_now k)"

lemma failure_effect:
  assumes "t \<noteq> []"
  shows "fst (record_capability_failure (tab t c) k t c cap ed actor m) = Inr (failed_record k t c cap ed m)" (is ?res)
    and "conn_view tab (snd (record_capability_failure (tab t c) k t c cap ed actor m)) t' c' =
      (if (t', c') = (t, c) then (case failure_target cap (conn_view tab m t c) of Some tgt \<Rightarrow> tgt | None \<Rightarrow> conn_view tab m t c)
       else conn_view tab m t' c')" (is ?view)
    and "lm_health (snd (record_capability_failure (tab t c) k t c cap ed actor m)) =
      dict_set (lm_health m) (t, c, cap) (failed_record k t c cap ed m)" (is ?health)
    and "lm_breakers (snd (record_capability_failure (tab t c) k t c cap ed actor m)) =
      lm_breakers (snd (breaker_outcome k c cap cb_record_failure m))" (is ?breakers)
proof -
  obtain circuit m1 where bo: "breaker_outcome k c cap cb_record_failure m = (circuit, m1)" by fastforce
  define r where "r = failure_record cap ed circuit (dict_get (lm_health m1) (t, c, cap)) (lc_now k)"
  obtain cur m2 where gs: "get_state (tab t c) t c (m1\<lparr>lm_health := dict_set (lm_health m1) (t, c, cap) r\<rparr>) = (cur, m2)" by fastforce
  have h1: "lm_health m1 = lm_health m" "conn_view tab m1 t'' c'' = conn_view tab m t'' c''" for t'' c''
    using breaker_outcome_keeps(1)[of tab k c cap cb_record_failure m] breaker_outcome_keeps(2)[of k c cap cb_record_failure m] bo by simp_all
  have r: "r = failed_record k t c cap ed m" by (simp add: r_def bo h1)
  have cur: "cur = conn_view tab m t c" and v2: "conn_view tab m2 t'' c'' = conn_view tab m t'' c''"
    and h2: "lm_health m2 = dict_set (lm_health m) (t, c, cap) r" "lm_breakers m2 = lm_breakers m1" for t'' c''
    using get_state_view[of tab t c "m1\<lparr>lm_health := dict_set (lm_health m1) (t, c, cap) r\<rparr>", unfolded gs fst_conv]
      get_state_keeps(1)[of tab t c "m1\<lparr>lm_health := dict_set (lm_health m1) (t, c, cap) r\<rparr>", unfolded gs snd_conv]
      get_state_keeps(2,3)[of "tab t c" t c "m1\<lparr>lm_health := dict_set (lm_health m1) (t, c, cap) r\<rparr>", unfolded gs snd_conv] h1
    by simp_all
  define m3 where "m3 = (case failure_target cap cur of None \<Rightarrow> (Inr cur, m2)
      | Some tgt \<Rightarrow> transition_state (tab t c) t c tgt (Some (failure_reason cap ed)) actor m2)"
  have eq: "record_capability_failure (tab t c) k t c cap ed actor m = (case fst m3 of Inl e \<Rightarrow> (Inl e, snd m3)
      | Inr st \<Rightarrow> (Inr r, log_conn t actor c (CONNECTOR_CAPABILITY_DEGRADED cap (hr_health r) (hr_consecutive_failures r)
              (ed_verbatim_error ed) (ed_plain_language ed)) (snd m3)))"
    unfolding record_capability_failure_def Let_def bo prod.case r_def[symmetric] gs m3_def[symmetric]
    using assms by (simp add: split_beta)
  have f3: "\<exists>st. fst m3 = Inr st" "lm_health (snd m3) = dict_set (lm_health m) (t, c, cap) r" "lm_breakers (snd m3) = lm_breakers m1"
    "conn_view tab (snd m3) t' c' =
      (if (t', c') = (t, c) then (case failure_target cap (conn_view tab m t c) of Some tgt \<Rightarrow> tgt | None \<Rightarrow> conn_view tab m t c)
       else conn_view tab m t' c')"
    using transition_state_result[OF assms, of tab c] transition_state_view[OF assms, of tab c]
      failure_target_moves[of cap "conn_view tab m t c"] v2 h2
    by (auto simp: m3_def cur split: option.split)
  then show ?res ?view ?health ?breakers unfolding eq r bo by auto
qed

definition all_healthy :: "string \<Rightarrow> string \<Rightarrow> lifecycle_manager \<Rightarrow> bool" where
  "all_healthy t c m \<longleftrightarrow> \<not> list_ex unhealthy (connector_records t c m)"

lemma recheck_effect:
  assumes "t \<noteq> []"
  shows "fst (recheck_connector_health (tab t c) t c actor m) = Inr ()"
    and "conn_view tab (snd (recheck_connector_health (tab t c) t c actor m)) t' c' =
      (if (t', c') = (t, c) \<and> conn_view tab m t c = DEGRADED \<and> all_healthy t c m then ACTIVE else conn_view tab m t' c')"
    and "lm_health (snd (recheck_connector_health (tab t c) t c actor m)) = lm_health m"
    and "lm_breakers (snd (recheck_connector_health (tab t c) t c actor m)) = lm_breakers m"
proof -
  define m1 where "m1 = snd (get_state (tab t c) t c m)"
  define m2 where "m2 = transition_state (tab t c) t c ACTIVE (Some ''All capabilities recovered to HEALTHY state'') actor m1"
  have v1: "conn_view tab m1 t'' c'' = conn_view tab m t'' c''" for t'' c'' by (simp add: m1_def)
  have "connector_records t c m1 = connector_records t c m" by (simp add: connector_records_def m1_def)
  then have eq: "recheck_connector_health (tab t c) t c actor m =
      (if conn_view tab m t c \<noteq> DEGRADED then (Inr (), m1) else if \<not> all_healthy t c m then (Inr (), m1)
       else case m2 of (Inl e, m') \<Rightarrow> (Inl e, m') | (Inr st, m') \<Rightarrow> (Inr (), m'))"
    by (simp add: recheck_connector_health_def split_beta m1_def[symmetric] m2_def[symmetric] all_healthy_def)
  have f: "conn_view tab m t c = DEGRADED \<Longrightarrow> \<exists>st. fst m2 = Inr st"
    "conn_view tab m t c = DEGRADED \<Longrightarrow> conn_view tab (snd m2) t' c' = (if (t', c') = (t, c) then ACTIVE else conn_view tab m t' c')"
    using transition_state_result[OF assms, of tab c ACTIVE] transition_state_view[OF assms, of tab c ACTIVE] v1
    by (simp_all add: m2_def conn_moves_def)
  have k: "lm_health (snd m2) = lm_health m" "lm_breakers (snd m2) = lm_breakers m" "lm_health m1 = lm_health m" "lm_breakers m1 = lm_breakers m"
    by (simp_all add: m2_def m1_def)
  show "fst (recheck_connector_health (tab t c) t c actor m) = Inr ()"
    and "conn_view tab (snd (recheck_connector_health (tab t c) t c actor m)) t' c' =
      (if (t', c') = (t, c) \<and> conn_view tab m t c = DEGRADED \<and> all_healthy t c m then ACTIVE else conn_view tab m t' c')"
    and "lm_health (snd (recheck_connector_health (tab t c) t c actor m)) = lm_health m"
    and "lm_breakers (snd (recheck_connector_health (tab t c) t c actor m)) = lm_breakers m"
    unfolding eq using f k v1 by (auto split: prod.splits sum.splits)
qed

lemma success_effect:
  assumes "t \<noteq> []"
  shows "fst (record_capability_success (tab t c) k t c cap actor m) = Inr (healthy_record k t c cap m)" (is ?res)
    and "conn_view tab (snd (record_capability_success (tab t c) k t c cap actor m)) t' c' =
      (if (t', c') = (t, c) \<and> conn_view tab m t c = DEGRADED \<and> was_degraded (dict_get (lm_health m) (t, c, cap))
          \<and> all_healthy t c (m\<lparr>lm_health := dict_set (lm_health m) (t, c, cap) (healthy_record k t c cap m)\<rparr>)
       then ACTIVE else conn_view tab m t' c')" (is ?view)
    and "lm_health (snd (record_capability_success (tab t c) k t c cap actor m)) =
      dict_set (lm_health m) (t, c, cap) (healthy_record k t c cap m)" (is ?health)
    and "lm_breakers (snd (record_capability_success (tab t c) k t c cap actor m)) =
      lm_breakers (snd (breaker_outcome k c cap cb_record_success m))" (is ?breakers)
proof -
  obtain circuit m1 where bo: "breaker_outcome k c cap cb_record_success m = (circuit, m1)" by fastforce
  define r where "r = success_record cap circuit (dict_get (lm_health m1) (t, c, cap)) (lc_now k)"
  have h1: "lm_health m1 = lm_health m" "conn_view tab m1 t'' c'' = conn_view tab m t'' c''" for t'' c''
    using breaker_outcome_keeps(1)[of tab k c cap cb_record_success m] breaker_outcome_keeps(2)[of k c cap cb_record_success m] bo by simp_all
  have r: "r = healthy_record k t c cap m" by (simp add: r_def bo h1)
  define m2 where "m2 = m1\<lparr>lm_health := dict_set (lm_health m1) (t, c, cap) r\<rparr>"
  define m3 where "m3 = recheck_connector_health (tab t c) t c actor (log_conn t actor c (CONNECTOR_CAPABILITY_RECOVERED cap) m2)"
  have eq: "record_capability_success (tab t c) k t c cap actor m =
      (if was_degraded (dict_get (lm_health m1) (t, c, cap))
       then case m3 of (Inl e, m') \<Rightarrow> (Inl e, m') | (Inr u, m') \<Rightarrow> (Inr r, m') else (Inr r, m2))"
    unfolding record_capability_success_def Let_def bo prod.case r_def[symmetric] m2_def[symmetric] m3_def[symmetric]
    using assms by simp
  have rec: "all_healthy t c (log_conn t actor c (CONNECTOR_CAPABILITY_RECOVERED cap) m2)
      = all_healthy t c (m\<lparr>lm_health := dict_set (lm_health m) (t, c, cap) r\<rparr>)"
    by (simp add: all_healthy_def connector_records_def m2_def h1)
  have "lm_health (log_conn t actor c (CONNECTOR_CAPABILITY_RECOVERED cap) m2) = dict_set (lm_health m) (t, c, cap) r"
    "lm_breakers (log_conn t actor c (CONNECTOR_CAPABILITY_RECOVERED cap) m2) = lm_breakers m1"
    by (simp_all add: m2_def h1)
  then have f: "fst m3 = Inr ()" "lm_health (snd m3) = dict_set (lm_health m) (t, c, cap) r" "lm_breakers (snd m3) = lm_breakers m1"
    "conn_view tab (snd m3) t' c' = (if (t', c') = (t, c) \<and> conn_view tab m t c = DEGRADED
       \<and> all_healthy t c (m\<lparr>lm_health := dict_set (lm_health m) (t, c, cap) r\<rparr>) then ACTIVE else conn_view tab m t' c')"
    unfolding m3_def recheck_effect[OF assms] rec by (simp_all add: m2_def h1)
  have v2: "conn_view tab m2 t' c' = conn_view tab m t' c'" "lm_health m2 = dict_set (lm_health m) (t, c, cap) r" "lm_breakers m2 = lm_breakers m1"
    by (simp_all add: m2_def h1)
  obtain m' where m3: "m3 = (Inr (), m')" using f(1) by (metis prod.collapse)
  show ?res ?view ?health ?breakers
    unfolding eq bo using f v2 by (auto simp: m3 h1 r_def)
qed

datatype lc_event =
    Transition string string conn_state "string option" string
  | Cap_failure lm_clock string string string error_detail string
  | Cap_success lm_clock string string string string
  | Read_health lm_clock string string string
  | Read_state string string
  | Declare_capabilities string string "string list"

fun lc_step :: "conn_table \<Rightarrow> lc_event \<Rightarrow> lifecycle_manager \<Rightarrow> lifecycle_manager" where
  "lc_step tab (Transition t c target reason actor) m = snd (transition_state (tab t c) t c target reason actor m)"
| "lc_step tab (Cap_failure k t c cap ed actor) m = snd (record_capability_failure (tab t c) k t c cap ed actor m)"
| "lc_step tab (Cap_success k t c cap actor) m = snd (record_capability_success (tab t c) k t c cap actor m)"
| "lc_step tab (Read_health k t c cap) m = snd (get_capability_health k t c cap m)"
| "lc_step tab (Read_state t c) m = snd (get_state (tab t c) t c m)"
| "lc_step tab (Declare_capabilities t c caps) m = set_declared_capabilities t c caps m"

lemma lc_no_tenant:
  "transition_state db [] c target reason actor m = (Inl LmMissingTenantContext, m)"
  "record_capability_failure db k [] c cap ed actor m = (Inl LmMissingTenantContext, m)"
  "record_capability_success db k [] c cap actor m = (Inl LmMissingTenantContext, m)"
  by (simp_all add: transition_state_def record_capability_failure_def record_capability_success_def)

lemma lc_step_moves:
  "conn_view tab (lc_step tab e m) t c = conn_view tab m t c \<or> conn_moves (conn_view tab m t c) (conn_view tab (lc_step tab e m) t c)"
proof (cases e)
  case (Transition t' c' target reason actor)
  then show ?thesis by (cases "t' = []") (simp_all add: lc_no_tenant transition_state_view)
next
  case (Cap_failure k t' c' cap ed actor)
  then show ?thesis
    using failure_target_moves[of cap "conn_view tab m t c"]
    by (cases "t' = []") (auto simp: lc_no_tenant failure_effect split: option.split)
next
  case (Cap_success k t' c' cap actor)
  then show ?thesis by (cases "t' = []") (auto simp: lc_no_tenant success_effect conn_moves_def)
next
  case (Read_health k t' c' cap)
  then show ?thesis by (simp add: get_capability_health_def Let_def split_beta split: option.split)
next
  case (Declare_capabilities t' c' caps)
  then show ?thesis by (simp add: set_declared_capabilities_def conn_view_def)
qed simp

interpretation lc: simulation "lc_step tab" "\<lambda>_. True" "\<lambda>_. True" "\<lambda>m. conn_view tab m t c" conn_moves for tab t c
  by unfold_locales (simp_all add: lc_step_moves)

lemma deleted_is_final: "conn_moves\<^sup>*\<^sup>* DELETED st \<Longrightarrow> st = DELETED"
  by (induction rule: rtranclp_induct) (simp_all add: conn_moves_def)

text \<open>
  Whatever sequence of explicit transitions, capability failures and successes, health reads and
  capability declarations is made, for whatever connectors and tenants, the state of a connector moves only along the
  allowed transitions, and a deleted connector stays deleted.
\<close>

theorem connector_follows_transitions:
  "conn_moves\<^sup>*\<^sup>* (conn_view tab m t c) (conn_view tab (fold (lc_step tab) es m) t c)
   \<and> (conn_view tab m t c = DELETED \<longrightarrow> conn_view tab (fold (lc_step tab) es m) t c = DELETED)"
proof -
  have "conn_moves\<^sup>*\<^sup>* (conn_view tab m t c) (conn_view tab (fold (lc_step tab) es m) t c)"
    by (rule lc.sim_run) (simp_all add: list_all_iff)
  then show ?thesis using deleted_is_final by metis
qed

definition empty_manager :: lifecycle_manager where
  "empty_manager = \<lparr> lm_breakers = [], lm_states = [], lm_health = [], lm_declared = [], lm_audit = [] \<rparr>"

theorem connector_follows_transitions_witness:
  "conn_view (\<lambda>t c. Some DELETED) (fold (lc_step (\<lambda>t c. Some DELETED)) [Transition ''t'' ''c'' ACTIVE None ''a''] empty_manager) ''t'' ''c'' = DELETED"
proof -
  have "conn_view (\<lambda>t c. Some DELETED) empty_manager ''t'' ''c'' = DELETED" by (simp add: conn_view_def empty_manager_def)
  then show ?thesis
    using connector_follows_transitions[of "\<lambda>t c. Some DELETED" empty_manager "''t''" "''c''" "[Transition ''t'' ''c'' ACTIVE None ''a'']"]
    by blast
qed

text \<open>
  Failure isolation: recording the failure of a capability never raises; it changes the health record and the
  breaker of that capability only, no other connector, and the connector itself moves only from ACTIVE to
  DEGRADED, unless the capability is foundational, when a working connector becomes FAILED.
\<close>

theorem capability_failure_isolated:
  assumes "t \<noteq> []"
  shows "fst (record_capability_failure (tab t c) k t c cap ed actor m) = Inr (failed_record k t c cap ed m)
    \<and> (\<forall>key. key \<noteq> (t, c, cap) \<longrightarrow>
         dict_get (lm_health (lc_step tab (Cap_failure k t c cap ed actor) m)) key = dict_get (lm_health m) key)
    \<and> (\<forall>key. key \<noteq> (c, cap) \<longrightarrow>
         dict_get (lm_breakers (lc_step tab (Cap_failure k t c cap ed actor) m)) key = dict_get (lm_breakers m) key)
    \<and> (\<forall>t' c'. (t', c') \<noteq> (t, c) \<longrightarrow> conn_view tab (lc_step tab (Cap_failure k t c cap ed actor) m) t' c' = conn_view tab m t' c')
    \<and> conn_view tab (lc_step tab (Cap_failure k t c cap ed actor) m) t c =
        (if cap \<in> {''authenticate'', ''validate_permissions''}
         then (if conn_view tab m t c \<in> {VALIDATED, ACTIVE, DEGRADED} then FAILED else conn_view tab m t c)
         else (if conn_view tab m t c = ACTIVE then DEGRADED else conn_view tab m t c))"
proof (intro conjI allI impI)
  fix key :: "string \<times> string"
  assume "key \<noteq> (c, cap)"
  then show "dict_get (lm_breakers (lc_step tab (Cap_failure k t c cap ed actor) m)) key = dict_get (lm_breakers m) key"
    using breaker_outcome_other[of "fst key" "snd key" c cap k cb_record_failure m] by (simp add: failure_effect[OF assms])
qed (simp_all add: failure_effect[OF assms] failure_target_def FOUNDATIONAL_CAPABILITIES_def)

theorem capability_failure_isolated_witness:
  "conn_view (\<lambda>t c. Some ACTIVE) (lc_step (\<lambda>t c. Some ACTIVE) (Cap_failure
      \<lparr> lc_create = 0, lc_record = 1, lc_poll1 = 2, lc_poll2 = 3, lc_now = 4 \<rparr> ''t'' ''c'' ''collect_cost_bulk''
      \<lparr> ed_capability = ''collect_cost_bulk'', ed_verbatim_error = ''500'', ed_plain_language = ''down'' \<rparr> ''a'') empty_manager) ''t'' ''c'' = DEGRADED"
proof -
  have "conn_view (\<lambda>t c. Some ACTIVE) empty_manager ''t'' ''c'' = ACTIVE" by (simp add: conn_view_def empty_manager_def)
  then show ?thesis
    using capability_failure_isolated[of "''t''" "\<lambda>t c. Some ACTIVE" "''c''"
        "\<lparr> lc_create = 0, lc_record = 1, lc_poll1 = 2, lc_poll2 = 3, lc_now = 4 \<rparr>" "''collect_cost_bulk''"
        "\<lparr> ed_capability = ''collect_cost_bulk'', ed_verbatim_error = ''500'', ed_plain_language = ''down'' \<rparr>" "''a''" empty_manager]
    by auto
qed

section \<open>Recovery\<close>

lemma all_healthy_iff:
  "dict_ok (lm_health m) \<Longrightarrow> all_healthy t c m \<longleftrightarrow> (\<forall>cap r. dict_get (lm_health m) (t, c, cap) = Some r \<longrightarrow> \<not> unhealthy r)"
  by (force simp: all_healthy_def connector_records_def list_ex_iff dict_ok_def dict_get_def)

text \<open>
  A success recorded for a capability that was degraded or failed makes a DEGRADED connector ACTIVE exactly when no
  capability of the connector is left degraded, failed or with an open breaker; a success for any other
  capability, or in any other state, never moves the connector.
\<close>

theorem recovery_needs_all_healthy:
  assumes "t \<noteq> []" and "dict_ok (lm_health m)"
  shows "conn_view tab (lc_step tab (Cap_success k t c cap actor) m) t c =
    (if conn_view tab m t c = DEGRADED \<and> was_degraded (dict_get (lm_health m) (t, c, cap))
        \<and> hr_circuit_state (healthy_record k t c cap m) \<noteq> OPEN
        \<and> (\<forall>cap' r. cap' \<noteq> cap \<and> dict_get (lm_health m) (t, c, cap') = Some r \<longrightarrow> \<not> unhealthy r)
     then ACTIVE else conn_view tab m t c)"
proof -
  let ?h = "dict_set (lm_health m) (t, c, cap) (healthy_record k t c cap m)"
  have "all_healthy t c (m\<lparr>lm_health := ?h\<rparr>) \<longleftrightarrow> \<not> unhealthy (healthy_record k t c cap m)
      \<and> (\<forall>cap' r. cap' \<noteq> cap \<and> dict_get (lm_health m) (t, c, cap') = Some r \<longrightarrow> \<not> unhealthy r)"
    using assms(2) by (subst all_healthy_iff) auto
  moreover have "unhealthy (healthy_record k t c cap m) \<longleftrightarrow> hr_circuit_state (healthy_record k t c cap m) = OPEN"
    by (simp add: unhealthy_def success_record_def)
  ultimately show ?thesis by (simp add: success_effect[OF assms(1)])
qed

definition demo_clock :: "rat \<Rightarrow> lm_clock" where
  "demo_clock x = \<lparr> lc_create = x, lc_record = x, lc_poll1 = x, lc_poll2 = x, lc_now = 0 \<rparr>"

definition demo_error :: error_detail where
  "demo_error = \<lparr> ed_capability = ''collect_usage'', ed_verbatim_error = ''500'', ed_plain_language = ''down'' \<rparr>"

definition active_table :: conn_table where "active_table t c = Some ACTIVE"

definition demo_one_failure :: lifecycle_manager where
  "demo_one_failure = lc_step active_table (Cap_failure (demo_clock 0) ''t'' ''c'' ''collect_usage'' demo_error ''a'') empty_manager"

theorem recovery_needs_all_healthy_witness:
  "conn_view active_table (lc_step active_table (Cap_success (demo_clock 1) ''t'' ''c'' ''collect_usage'' ''a'') demo_one_failure) ''t'' ''c'' = ACTIVE"
proof -
  have h: "lm_health demo_one_failure =
      [((''t'', ''c'', ''collect_usage''), failed_record (demo_clock 0) ''t'' ''c'' ''collect_usage'' demo_error empty_manager)]"
    and v: "conn_view active_table demo_one_failure ''t'' ''c'' = DEGRADED"
    by (simp_all add: demo_one_failure_def failure_effect)
       (simp_all add: empty_manager_def conn_view_def active_table_def failure_target_def FOUNDATIONAL_CAPABILITIES_def)
  have "hr_circuit_state (healthy_record (demo_clock 1) ''t'' ''c'' ''collect_usage'' demo_one_failure) \<noteq> OPEN"
    by code_simp
  moreover have "was_degraded (dict_get (lm_health demo_one_failure) (''t'', ''c'', ''collect_usage''))" "dict_ok (lm_health demo_one_failure)"
    by (simp_all add: h was_degraded_def failure_record_def dict_ok_def)
  ultimately show ?thesis
    using recovery_needs_all_healthy[of "''t''" demo_one_failure active_table "demo_clock 1" "''c''" "''collect_usage''" "''a''"] v
    by (simp add: h)
qed

text \<open>
  A success that arrives while the breaker is open (its call began before the breaker tripped) leaves a HEALTHY record with an open
  breaker. The connector stays DEGRADED, and since only a success after a recorded failure looks at the whole
  connector again, no number of further successes of any capability makes it ACTIVE.
\<close>

definition stuck :: "conn_table \<Rightarrow> string \<Rightarrow> string \<Rightarrow> lifecycle_manager \<Rightarrow> bool" where
  "stuck tab t c m \<longleftrightarrow> conn_view tab m t c = DEGRADED \<and> (\<forall>cap. \<not> was_degraded (dict_get (lm_health m) (t, c, cap)))"

fun is_cap_success :: "lc_event \<Rightarrow> bool" where
  "is_cap_success (Cap_success k t c cap actor) = True"
| "is_cap_success e = False"

interpretation stuck: machine "lc_step tab" is_cap_success "stuck tab t c" for tab t c
proof unfold_locales
  fix m e
  assume m: "stuck tab t c m" and e: "is_cap_success e"
  then obtain k t' c' cap actor where ev: "e = Cap_success k t' c' cap actor" by (cases e) auto
  show "stuck tab t c (lc_step tab e m)"
  proof (cases "t' = []")
    case False
    have "\<not> was_degraded (Some (healthy_record k t' c' cap m))" by (simp add: was_degraded_def success_record_def)
    with m ev False show ?thesis by (auto simp: stuck_def success_effect)
  qed (use m ev in \<open>simp add: lc_no_tenant\<close>)
qed

definition demo_stuck :: lifecycle_manager where
  "demo_stuck = fold (lc_step active_table)
     (replicate 5 (Cap_failure (demo_clock 0) ''t'' ''c'' ''collect_usage'' demo_error ''a'') @ [Cap_success (demo_clock 1) ''t'' ''c'' ''collect_usage'' ''a''])
     empty_manager"

lemma demo_stuck_state:
  "(conn_view active_table demo_stuck ''t'' ''c'', map (\<lambda>(key, r). (key, hr_health r, hr_circuit_state r)) (lm_health demo_stuck))
   = (DEGRADED, [((''t'', ''c'', ''collect_usage''), HEALTHY, OPEN)])"
  by code_simp

text \<open>
  Five failures that trip the breaker and the success of a call still in flight leave an ACTIVE connector
  DEGRADED for good: however many successes of whatever capabilities follow, it does not become ACTIVE again, although all
  its capabilities are then recorded healthy.
\<close>

theorem degraded_connector_stuck:
  assumes "list_all is_cap_success es"
  shows "conn_view active_table (fold (lc_step active_table) es demo_stuck) ''t'' ''c'' = DEGRADED
    \<and> (\<forall>cap. \<not> was_degraded (dict_get (lm_health (fold (lc_step active_table) es demo_stuck)) (''t'', ''c'', cap)))"
proof -
  have h: "map (\<lambda>(key, r). (key, hr_health r)) (lm_health demo_stuck) = [((''t'', ''c'', ''collect_usage''), HEALTHY)]"
    using arg_cong[OF demo_stuck_state[THEN arg_cong, of snd], of "map (\<lambda>(key, h, c). (key, h))"] by (simp add: case_prod_beta' comp_def)
  have "stuck active_table ''t'' ''c'' demo_stuck"
    using demo_stuck_state h by (auto simp: stuck_def was_degraded_def dict_get_def Cons_eq_map_conv split: option.splits if_splits)
  then have "stuck active_table ''t'' ''c'' (fold (lc_step active_table) es demo_stuck)"
    using assms by (rule stuck.inv_run)
  then show ?thesis by (simp add: stuck_def)
qed

theorem degraded_connector_stuck_witness:
  "conn_view active_table (fold (lc_step active_table) (replicate 10 (Cap_success (demo_clock 100) ''t'' ''c'' ''collect_usage'' ''a'')) demo_stuck) ''t'' ''c'' = DEGRADED"
  using degraded_connector_stuck[of "replicate 10 (Cap_success (demo_clock 100) ''t'' ''c'' ''collect_usage'' ''a'')"] by (simp add: list_all_iff)

end
