(* ===== verification/Connector_Executor.thy ===== *)
theory Connector_Executor
  imports Connector_Lifecycle Adaptive_Concurrency Rate_Limiter Quota_Tracker Raw_Landing
begin

text \<open>
  \<open>ConnectorExecutionEngine.execute_capability\<close> (\<open>connectors/contract/executor.py\<close>): one guarded call of a connector
  capability, composed of the circuit breaker, the quota, the token bucket, the concurrency governor, the life-cycle
  manager and the raw landing.

  The method is a coroutine: between two \<open>await\<close>s it runs alone, at an \<open>await\<close> other calls may run. A call is
  therefore a phase, the point it waits at, and an event that resumes it; several calls in flight on one
  engine are a list of phases whose events interleave in any order. The reply of the provider, clock readings and random
  draws come with the events. The engine is the one the module creates: it has no custom limiter or governor, and
  it shares the breakers with the life-cycle manager. A call keeps the limiter, governor and breaker it
  looked up first; nothing replaces them in their dictionaries, so they are looked up again.
\<close>

section \<open>Calls, phases and the engine\<close>

record capability_call =
  cc_tenant_id :: string
  cc_connector_id :: string
  cc_provider_name :: string
  cc_declared :: "string list"
  cc_capability :: string
  cc_max_retries :: int
  cc_run_id :: string
  cc_page_number :: int
  cc_land_payload :: bool
  cc_schema_version :: string

datatype exec_error =
    ExecMissingTenantContext
  | UndeclaredCapabilityException string string
  | ExecCircuitOpen cb_error
  | ExecQuota quota_error
  | ExecRateLimit rl_error
  | ExecBackoff rl_error
  | ExecLifecycle lifecycle_error
  | ProviderRawErrorException string string string string

datatype phase =
    Start
  | Await_token nat rat
  | Await_slot nat rat
  | Slot_pause nat
  | Running nat
  | Backing_off nat rat
  | Finished "exec_error + raw_payload option"

record engine =
  en_lifecycle :: lifecycle_manager
  en_quota :: quota_tracker
  en_rate_limiters :: "(string, bucket) dict"
  en_controllers :: "(string, controller) dict"
  en_landing :: landing_service

definition get_rate_limiter :: "rat \<Rightarrow> string \<Rightarrow> engine \<Rightarrow> bucket" where
  "get_rate_limiter now cid en =
     (case dict_get (en_rate_limiters en) cid of Some b \<Rightarrow> b | None \<Rightarrow> new_bucket cid 50 50 now)"

definition get_concurrency_controller :: "string \<Rightarrow> engine \<Rightarrow> controller" where
  "get_concurrency_controller cid en =
     (case dict_get (en_controllers en) cid of Some c \<Rightarrow> c | None \<Rightarrow> new_controller cid 1 16 8 5)"

definition set_rate_limiter :: "string \<Rightarrow> bucket \<Rightarrow> engine \<Rightarrow> engine" where
  "set_rate_limiter cid b en = en\<lparr>en_rate_limiters := dict_set (en_rate_limiters en) cid b\<rparr>"

definition set_controller :: "string \<Rightarrow> controller \<Rightarrow> engine \<Rightarrow> engine" where
  "set_controller cid c en = en\<lparr>en_controllers := dict_set (en_controllers en) cid c\<rparr>"

text \<open>\<open>breaker\<close> of the call, in the registry shared with the life-cycle manager.\<close>

definition on_breaker :: "rat \<Rightarrow> string \<Rightarrow> string \<Rightarrow> (breaker \<Rightarrow> breaker) \<Rightarrow> engine \<Rightarrow> engine" where
  "on_breaker now cid cap f en =
     en\<lparr>en_lifecycle := (en_lifecycle en)\<lparr>lm_breakers := with_breaker now cid cap f (lm_breakers (en_lifecycle en))\<rparr>\<rparr>"

section \<open>Errors\<close>

definition is_throttled :: "string \<Rightarrow> bool" where
  "is_throttled err \<longleftrightarrow> sublist ''429'' err \<or> sublist ''RateExceeded'' err \<or> sublist ''TooManyRequests'' err \<or> sublist ''Throttl'' err"

definition plain_language_explanation :: "string \<Rightarrow> string \<Rightarrow> string \<Rightarrow> string" where
  "plain_language_explanation provider cap err =
     (let e = lower err in
      if sublist ''accessdenied'' e \<or> sublist ''unauthorized'' e \<or> sublist ''forbidden'' e
      then ''The '' @ upper provider @ '' API rejected the request due to missing permissions for capability '' @ quoted cap @
           ''. Verify that your credential profile has the necessary read-only role.''
      else if sublist ''throttl'' e \<or> sublist ''429'' e \<or> sublist ''rateexceeded'' e
      then ''The '' @ upper provider @ '' API rate limit was exceeded for '' @ quoted cap @
           ''. CloudLens reduced request concurrency and will automatically resume once the window resets.''
      else if sublist ''notfound'' e \<or> sublist ''404'' e
      then ''The requested scope or resource was not found in '' @ upper provider @
           ''. It may have been deleted or moved to a different management hierarchy.''
      else ''A provider communication error occurred while invoking '' @ quoted cap @ '' on '' @ upper provider @ ''.'')"

fun conn_state_value :: "conn_state \<Rightarrow> string" where
  "conn_state_value REGISTERED = ''REGISTERED''"
| "conn_state_value CREDENTIAL_BOUND = ''CREDENTIAL_BOUND''"
| "conn_state_value VALIDATED = ''VALIDATED''"
| "conn_state_value ACTIVE = ''ACTIVE''"
| "conn_state_value DEGRADED = ''DEGRADED''"
| "conn_state_value FAILED = ''FAILED''"
| "conn_state_value SUSPENDED = ''SUSPENDED''"
| "conn_state_value DELETED = ''DELETED''"

definition lifecycle_error_text :: "lifecycle_error \<Rightarrow> string" where
  "lifecycle_error_text e =
     (case e of
        LmMissingTenantContext \<Rightarrow> ''Cannot record success without authenticated TenantContext.''
      | InvalidConnectorStateTransitionException a b \<Rightarrow>
          ''Invalid connector transition from '' @ quoted (conn_state_value a) @ '' to '' @ quoted (conn_state_value b) @ ''.'')"

section \<open>Events\<close>

text \<open>What an operation of the provider ends with: a value, or an exception with its text and retry hint.\<close>

datatype op_reply = Op_value "raw_payload option" | Op_raise string "rat option"

record exec_env =
  ee_db :: "conn_state option"
  ee_clock :: lm_clock
  ee_breaker_now :: rat
  ee_draw :: rat
  ee_landing :: landing_env

datatype exec_event =
    Begin rat rat rat rat int rat rat
  | Poll_token rat rat
  | Poll_slot
  | Wake rat
  | Reply op_reply exec_env

text \<open>The head of the retry loop: another attempt, which starts with the wait for a token, or the final error.\<close>

definition loop_head :: "capability_call \<Rightarrow> nat \<Rightarrow> rat \<Rightarrow> phase" where
  "loop_head cc attempt start =
     (if int attempt \<le> cc_max_retries cc then Await_token attempt start
      else Finished (Inl (ProviderRawErrorException (cc_provider_name cc) (cc_capability cc)
        (''Maximum retries ('' @ str_int (cc_max_retries cc) @ '') exceeded under continuous throttling.'')
        ''The cloud provider continuously rejected requests with throttling errors. Concurrency was reduced to minimum.'')))"

definition begin_call :: "rat \<Rightarrow> rat \<Rightarrow> rat \<Rightarrow> rat \<Rightarrow> int \<Rightarrow> rat \<Rightarrow> rat \<Rightarrow> capability_call \<Rightarrow> engine \<Rightarrow> phase \<times> engine" where
  "begin_call now t1 t2 t3 qnow lnow start cc en =
     (if cc_tenant_id cc = [] then (Finished (Inl ExecMissingTenantContext), en)
      else let cid = cc_connector_id cc; cap = cc_capability cc in
      if cap \<notin> set (cc_declared cc) then (Finished (Inl (UndeclaredCapabilityException cid cap)), en)
      else
        let (b, r) = get_breaker now cid cap (lm_breakers (en_lifecycle en));
            (perm, b') = cb_check_permission t1 t2 t3 b;
            en1 = en\<lparr>en_lifecycle := (en_lifecycle en)\<lparr>lm_breakers := dict_set r (cid, cap) b'\<rparr>\<rparr>
        in case perm of
             Inl e \<Rightarrow> (Finished (Inl (ExecCircuitOpen e)), en1)
           | Inr u \<Rightarrow>
               let (q, qt) = record_request (cc_tenant_id cc) cid 1 qnow (en_quota en1);
                   en2 = en1\<lparr>en_quota := qt\<rparr>
               in case q of
                    Inl e \<Rightarrow> (Finished (Inl (ExecQuota e)), en2)
                  | Inr d \<Rightarrow>
                      let en3 = set_rate_limiter cid (get_rate_limiter lnow cid en2) en2;
                          en4 = set_controller cid (get_concurrency_controller cid en3) en3
                      in (loop_head cc 0 start, en4))"

definition poll_token :: "rat \<Rightarrow> rat \<Rightarrow> nat \<Rightarrow> rat \<Rightarrow> capability_call \<Rightarrow> engine \<Rightarrow> phase \<times> engine" where
  "poll_token t1 t2 attempt start cc en =
     (let cid = cc_connector_id cc;
          (out, b) = acquire_loop start 1 30 [(t1, t2)] (get_rate_limiter t1 cid en);
          en' = set_rate_limiter cid b en
      in case out of
           Acquired \<Rightarrow> (Await_slot attempt 0, en')
         | Raised e \<Rightarrow> (Finished (Inl (ExecRateLimit e)), en')
         | Waiting \<Rightarrow> (Await_token attempt start, en'))"

definition poll_slot :: "nat \<Rightarrow> rat \<Rightarrow> capability_call \<Rightarrow> engine \<Rightarrow> phase \<times> engine" where
  "poll_slot attempt waited cc en =
     (let cid = cc_connector_id cc;
          (out, c) = acquire_slot_async_poll 30 waited (get_concurrency_controller cid en);
          en' = set_controller cid c en
      in case out of
           Granted \<Rightarrow> (Running attempt, en')
         | KeepWaiting w \<Rightarrow> (Await_slot attempt w, en')
         | TimedOut \<Rightarrow> (Slot_pause attempt, en'))"

text \<open>\<open>release_slot_async\<close> in the \<open>finally\<close> clause.\<close>

definition release_slot :: "capability_call \<Rightarrow> engine \<Rightarrow> engine" where
  "release_slot cc en =
     set_controller (cc_connector_id cc) (release_slot_sync (get_concurrency_controller (cc_connector_id cc) en)) en"

text \<open>
  The \<open>except\<close> clause. A throttled call goes to sleep with its slot still held: the \<open>finally\<close> clause runs after the
  sleep, when the loop continues.
\<close>

definition handle_exception :: "exec_env \<Rightarrow> string \<Rightarrow> rat option \<Rightarrow> nat \<Rightarrow> capability_call \<Rightarrow> engine \<Rightarrow> phase \<times> engine" where
  "handle_exception ev err retry_after attempt cc en =
     (let cid = cc_connector_id cc; cap = cc_capability cc in
      if is_throttled err \<and> int attempt < cc_max_retries cc
      then let en1 = set_controller cid (snd (record_throttle (get_concurrency_controller cid en))) en
           in case calculate_backoff attempt 1 30 retry_after (ee_draw ev) of
                Inl e \<Rightarrow> (Finished (Inl (ExecBackoff e)), release_slot cc en1)
              | Inr d \<Rightarrow> (Backing_off attempt d, en1)
      else let plain = plain_language_explanation (cc_provider_name cc) cap err;
               (res, m) = record_capability_failure (ee_db ev) (ee_clock ev) (cc_tenant_id cc) cid cap
                            \<lparr> ed_capability = cap, ed_verbatim_error = err, ed_plain_language = plain \<rparr>
                            ''SYSTEM_CONNECTOR'' (en_lifecycle en);
               en1 = en\<lparr>en_lifecycle := m\<rparr>
           in case res of
                Inl e \<Rightarrow> (Finished (Inl (ExecLifecycle e)), release_slot cc en1)
              | Inr r \<Rightarrow> (Finished (Inl (ProviderRawErrorException (cc_provider_name cc) cap err plain)), release_slot cc en1))"

definition handle_value :: "(string \<Rightarrow> string) \<Rightarrow> exec_env \<Rightarrow> raw_payload option \<Rightarrow> nat \<Rightarrow> capability_call \<Rightarrow> engine \<Rightarrow> phase \<times> engine" where
  "handle_value sha ev res attempt cc en =
     (let cid = cc_connector_id cc; cap = cc_capability cc;
          en1 = set_controller cid (snd (record_success (get_concurrency_controller cid en))) en;
          en2 = on_breaker (ee_breaker_now ev) cid cap (cb_record_success (ee_breaker_now ev)) en1;
          (ok, m) = record_capability_success (ee_db ev) (ee_clock ev) (cc_tenant_id cc) cid cap ''SYSTEM_CONNECTOR'' (en_lifecycle en2);
          en3 = en2\<lparr>en_lifecycle := m\<rparr>
      in case ok of
           Inl e \<Rightarrow> handle_exception ev (lifecycle_error_text e) None attempt cc en3
         | Inr r \<Rightarrow>
             (case (if cc_land_payload cc then res else None) of
                None \<Rightarrow> (Finished (Inr res), release_slot cc en3)
              | Some pl \<Rightarrow>
                  let (l, ls) = land_raw_payload sha (ee_landing ev) (cc_tenant_id cc) cid (cc_run_id cc) cap (cc_page_number cc) pl
                                  (cc_schema_version cc) ''SYSTEM_INGESTION'' None None (en_landing en3);
                      en4 = en3\<lparr>en_landing := ls\<rparr>
                  in case l of
                       Inl e \<Rightarrow> handle_exception ev (landing_error_text (ee_landing ev) e) None attempt cc en4
                     | Inr lr \<Rightarrow> (Finished (Inr res), release_slot cc en4)))"

text \<open>An event that does not fit the phase has no effect.\<close>

definition call_step :: "(string \<Rightarrow> string) \<Rightarrow> exec_event \<Rightarrow> capability_call \<Rightarrow> phase \<Rightarrow> engine \<Rightarrow> phase \<times> engine" where
  "call_step sha e cc ph en =
     (case (ph, e) of
        (Start, Begin now t1 t2 t3 qnow lnow start) \<Rightarrow> begin_call now t1 t2 t3 qnow lnow start cc en
      | (Await_token a start, Poll_token t1 t2) \<Rightarrow> poll_token t1 t2 a start cc en
      | (Await_slot a w, Poll_slot) \<Rightarrow> poll_slot a w cc en
      | (Slot_pause a, Wake start) \<Rightarrow> (loop_head cc (a + 1) start, en)
      | (Running a, Reply (Op_value res) ev) \<Rightarrow> handle_value sha ev res a cc en
      | (Running a, Reply (Op_raise err ra) ev) \<Rightarrow> handle_exception ev err ra a cc en
      | (Backing_off a d, Wake start) \<Rightarrow> (loop_head cc (a + 1) start, release_slot cc en)
      | _ \<Rightarrow> (ph, en))"

section \<open>Several calls in flight\<close>

text \<open>\<open>sy_invocations\<close> records the invocations of the provider's operations, as indices of calls.\<close>

record exec_system =
  sy_calls :: "(capability_call \<times> phase) list"
  sy_engine :: engine
  sy_invocations :: "nat list"

fun is_running :: "phase \<Rightarrow> bool" where
  "is_running (Running a) = True"
| "is_running ph = False"

fun sys_step :: "(string \<Rightarrow> string) \<Rightarrow> nat \<times> exec_event \<Rightarrow> exec_system \<Rightarrow> exec_system" where
  "sys_step sha (i, e) s =
     (if i < length (sy_calls s)
      then let (cc, ph) = sy_calls s ! i; (ph', en') = call_step sha e cc ph (sy_engine s)
           in s\<lparr>sy_calls := (sy_calls s)[i := (cc, ph')], sy_engine := en',
                sy_invocations := sy_invocations s @ (if is_running ph' \<and> \<not> is_running ph then [i] else [])\<rparr>
      else s)"

definition sys_init :: "capability_call list \<Rightarrow> engine \<Rightarrow> exec_system" where
  "sys_init ccs en = \<lparr> sy_calls = map (\<lambda>cc. (cc, Start)) ccs, sy_engine = en, sy_invocations = [] \<rparr>"

end
