(* ===== verification/Executor_Theorems.thy ===== *)
theory Executor_Theorems
  imports Connector_Executor
begin

text \<open>
  Properties of guarded capability calls over every interleaving of the calls in flight: the accounting of concurrency slots,
  the bound on invocations of the provider, the order of the guards, the number of steps of a call, and what a success does to
  a probing breaker.
\<close>

section \<open>Slots\<close>

fun holding :: "phase \<Rightarrow> bool" where
  "holding (Running a) = True"
| "holding (Backing_off a d) = True"
| "holding ph = False"

definition slot_count :: "phase \<Rightarrow> int" where
  "slot_count ph = (if holding ph then 1 else 0)"

lemma slot_count_simps [simp]:
  "slot_count Start = 0" "slot_count (Await_token a x) = 0" "slot_count (Await_slot a x) = 0" "slot_count (Slot_pause a) = 0"
  "slot_count (Running a) = 1" "slot_count (Backing_off a x) = 1" "slot_count (Finished r) = 0" "slot_count (loop_head cc a x) = 0"
  by (simp_all add: slot_count_def loop_head_def)

abbreviation active :: "string \<Rightarrow> engine \<Rightarrow> int" where
  "active cid en \<equiv> ac_active_requests (get_concurrency_controller cid en)"

definition controllers_wf :: "engine \<Rightarrow> bool" where
  "controllers_wf en \<longleftrightarrow> (\<forall>cid. ac_wf (get_concurrency_controller cid en))"

lemma controller_set [simp]:
  "get_concurrency_controller cid (set_controller cid' c en) = (if cid = cid' then c else get_concurrency_controller cid en)"
  by (simp add: get_concurrency_controller_def set_controller_def)

lemma controller_other [simp]:
  "get_concurrency_controller cid (en\<lparr>en_lifecycle := m\<rparr>) = get_concurrency_controller cid en"
  "get_concurrency_controller cid (en\<lparr>en_quota := q\<rparr>) = get_concurrency_controller cid en"
  "get_concurrency_controller cid (en\<lparr>en_landing := l\<rparr>) = get_concurrency_controller cid en"
  "get_concurrency_controller cid (set_rate_limiter cid' b en) = get_concurrency_controller cid en"
  "get_concurrency_controller cid (on_breaker now c cap f en) = get_concurrency_controller cid en"
  by (simp_all add: get_concurrency_controller_def set_rate_limiter_def on_breaker_def)

lemma aimd_active [simp]:
  "ac_active_requests (snd (record_throttle c)) = ac_active_requests c"
  "ac_active_requests (snd (record_success c)) = ac_active_requests c"
  by (simp_all add: record_throttle_def record_success_def Let_def)

lemma release_wf: "ac_wf c \<Longrightarrow> ac_wf (release_slot_sync c)"
  by (auto simp: release_slot_sync_def ac_wf_def)

text \<open>What a step of a call may do to the governors: it is the account of the slots the call gains or gives back.\<close>

definition slot_effect :: "string \<Rightarrow> int \<Rightarrow> engine \<Rightarrow> engine \<Rightarrow> bool" where
  "slot_effect cid n en en' \<longleftrightarrow> controllers_wf en' \<and> active cid en' = active cid en + n
     \<and> (\<forall>cid'. cid' \<noteq> cid \<longrightarrow> get_concurrency_controller cid' en' = get_concurrency_controller cid' en)"

lemma slot_effect_none: "controllers_wf en \<Longrightarrow> (\<And>cid. get_concurrency_controller cid en' = get_concurrency_controller cid en) \<Longrightarrow> slot_effect cid 0 en en'"
  by (simp add: slot_effect_def controllers_wf_def)

lemma slot_effect_trans: "slot_effect cid n en en' \<Longrightarrow> slot_effect cid k en' en'' \<Longrightarrow> slot_effect cid (n + k) en en''"
  by (simp add: slot_effect_def)

lemma release_effect:
  assumes "controllers_wf en" and "0 < active (cc_connector_id cc) en"
  shows "slot_effect (cc_connector_id cc) (- 1) en (release_slot cc en)"
  using assms by (auto simp: slot_effect_def release_slot_def controllers_wf_def release_wf) (simp add: release_slot_sync_def)

lemma throttle_effect:
  "controllers_wf en \<Longrightarrow> slot_effect cid 0 en (set_controller cid (snd (record_throttle (get_concurrency_controller cid en))) en)"
  by (auto simp: slot_effect_def controllers_wf_def record_throttle_wf)

lemma success_effect_slots:
  "controllers_wf en \<Longrightarrow> slot_effect cid 0 en (set_controller cid (snd (record_success (get_concurrency_controller cid en))) en)"
  by (auto simp: slot_effect_def controllers_wf_def record_success_wf)

lemma begin_effect:
  assumes "controllers_wf en"
  shows "slot_effect (cc_connector_id cc) 0 en (snd (begin_call now t1 t2 t3 qnow lnow start cc en))
    \<and> slot_count (fst (begin_call now t1 t2 t3 qnow lnow start cc en)) = 0"
  using assms
  by (auto simp: begin_call_def Let_def split_beta intro!: slot_effect_none split: sum.split)

lemma poll_slot_effect:
  assumes "controllers_wf en"
  shows "slot_effect (cc_connector_id cc) (slot_count (fst (poll_slot a w cc en))) en (snd (poll_slot a w cc en))"
proof -
  obtain out c where p: "acquire_slot_async_poll 30 w (get_concurrency_controller (cc_connector_id cc) en) = (out, c)" by fastforce
  have "ac_wf (get_concurrency_controller (cc_connector_id cc) en)" using assms by (simp add: controllers_wf_def)
  then have "ac_wf c" using async_poll_cases[OF p] by (auto simp: ac_wf_def)
  then show ?thesis using assms async_poll_cases[OF p] p
    by (auto simp: poll_slot_def Let_def slot_effect_def controllers_wf_def split: poll.split)
qed

lemma handle_exception_effect:
  assumes "controllers_wf en" and "0 < active (cc_connector_id cc) en"
  shows "slot_effect (cc_connector_id cc) (slot_count (fst (handle_exception ev err ra a cc en)) - 1) en (snd (handle_exception ev err ra a cc en))"
proof (cases "is_throttled err \<and> int a < cc_max_retries cc")
  case True
  let ?en = "set_controller (cc_connector_id cc) (snd (record_throttle (get_concurrency_controller (cc_connector_id cc) en))) en"
  have t: "slot_effect (cc_connector_id cc) 0 en ?en" using assms(1) by (rule throttle_effect)
  then have "slot_effect (cc_connector_id cc) (- 1) ?en (release_slot cc ?en)"
    using assms by (intro release_effect) (simp_all add: slot_effect_def)
  with t have "slot_effect (cc_connector_id cc) (- 1) en (release_slot cc ?en)" using slot_effect_trans by fastforce
  with True t show ?thesis by (auto simp: handle_exception_def Let_def split: sum.split)
next
  case False
  have "slot_effect (cc_connector_id cc) (- 1) en (release_slot cc (en\<lparr>en_lifecycle := m\<rparr>))" for m
    using slot_effect_trans[OF slot_effect_none release_effect, of en "en\<lparr>en_lifecycle := m\<rparr>" cc] assms
    by (simp add: controllers_wf_def)
  with False show ?thesis by (auto simp: handle_exception_def Let_def split_beta split: sum.split)
qed

lemma handle_value_effect:
  assumes "controllers_wf en" and "0 < active (cc_connector_id cc) en"
  shows "slot_effect (cc_connector_id cc) (slot_count (fst (handle_value sha ev res a cc en)) - 1) en (snd (handle_value sha ev res a cc en))"
proof -
  let ?cid = "cc_connector_id cc"
  let ?en = "set_controller ?cid (snd (record_success (get_concurrency_controller ?cid en))) en"
  have s: "slot_effect ?cid 0 en ?en" using assms(1) by (rule success_effect_slots)
  have mid: "slot_effect ?cid 0 en en'" if "\<And>c. get_concurrency_controller c en' = get_concurrency_controller c ?en" for en'
    using slot_effect_trans[OF s slot_effect_none, of en'] s that by (simp add: slot_effect_def)
  have rel: "slot_effect ?cid (- 1) en (release_slot cc en')" if "\<And>c. get_concurrency_controller c en' = get_concurrency_controller c ?en" for en'
    using slot_effect_trans[OF mid[OF that] release_effect] mid[OF that] assms(2) by (simp add: slot_effect_def)
  have exc: "slot_effect ?cid (slot_count (fst (handle_exception ev err None a cc en')) - 1) en (snd (handle_exception ev err None a cc en'))"
    if "\<And>c. get_concurrency_controller c en' = get_concurrency_controller c ?en" for err en'
    using slot_effect_trans[OF mid[OF that] handle_exception_effect] mid[OF that] assms(2) by (simp add: slot_effect_def)
  show ?thesis unfolding handle_value_def Let_def split_beta
    by (auto intro!: rel exc split: sum.split option.split)
qed

lemma call_step_effect:
  assumes "controllers_wf en" and "holding ph \<Longrightarrow> 0 < active (cc_connector_id cc) en"
  shows "slot_effect (cc_connector_id cc) (slot_count (fst (call_step sha e cc ph en)) - slot_count ph) en (snd (call_step sha e cc ph en))"
proof (cases ph)
  case Start
  then show ?thesis using begin_effect[OF assms(1)] slot_effect_none[OF assms(1)]
    by (cases e) (simp_all add: call_step_def)
next
  case (Await_token a start)
  then show ?thesis using slot_effect_none[OF assms(1)]
    by (cases e) (auto simp: call_step_def poll_token_def Let_def split_beta split: acquire_outcome.split)
next
  case (Await_slot a w)
  then show ?thesis using poll_slot_effect[OF assms(1)] slot_effect_none[OF assms(1)]
    by (cases e) (simp_all add: call_step_def)
next
  case (Slot_pause a)
  then show ?thesis using slot_effect_none[OF assms(1)]
    by (cases e) (simp_all add: call_step_def)
next
  case (Running a)
  then show ?thesis
    using handle_value_effect[OF assms(1)] handle_exception_effect[OF assms(1)] slot_effect_none[OF assms(1)] assms(2)
    by (cases e) (simp_all add: call_step_def split: op_reply.split)
next
  case (Backing_off a d)
  then show ?thesis using release_effect[OF assms(1)] slot_effect_none[OF assms(1)] assms(2)
    by (cases e) (simp_all add: call_step_def)
next
  case (Finished r)
  then show ?thesis using slot_effect_none[OF assms(1)] by (cases e) (simp_all add: call_step_def)
qed

definition holders :: "string \<Rightarrow> (capability_call \<times> phase) list \<Rightarrow> int" where
  "holders cid cs = (\<Sum>(cc, ph) \<leftarrow> cs. if cc_connector_id cc = cid then slot_count ph else 0)"

lemma sum_list_update_int:
  fixes f :: "'a \<Rightarrow> int"
  shows "i < length xs \<Longrightarrow> sum_list (map f (xs[i := x])) = sum_list (map f xs) + f x - f (xs ! i)"
  by (induction xs arbitrary: i) (auto split: nat.split)

lemma holders_update:
  "i < length cs \<Longrightarrow> cs ! i = (cc, ph) \<Longrightarrow>
   holders cid (cs[i := (cc, ph')]) = holders cid cs + (if cc_connector_id cc = cid then slot_count ph' - slot_count ph else 0)"
  by (simp add: holders_def sum_list_update_int)

lemma holders_nonneg: "0 \<le> holders cid cs"
  unfolding holders_def by (rule sum_list_nonneg) (auto simp: slot_count_def)

lemma holders_pos: "i < length cs \<Longrightarrow> cs ! i = (cc, ph) \<Longrightarrow> holding ph \<Longrightarrow> 0 < holders (cc_connector_id cc) cs"
  using holders_update[of i cs cc ph "cc_connector_id cc" Start] holders_nonneg[of "cc_connector_id cc" "cs[i := (cc, Start)]"] by (simp add: slot_count_def)

definition slots_inv :: "exec_system \<Rightarrow> bool" where
  "slots_inv s \<longleftrightarrow> controllers_wf (sy_engine s) \<and> (\<forall>cid. active cid (sy_engine s) = holders cid (sy_calls s))"

lemma slots_inv_step: "slots_inv s \<Longrightarrow> slots_inv (sys_step sha ie s)"
proof -
  assume inv: "slots_inv s"
  obtain i e where ie: "ie = (i, e)" by (cases ie)
  show ?thesis
  proof (cases "i < length (sy_calls s)")
    case True
    obtain cc ph where c: "sy_calls s ! i = (cc, ph)" by (cases "sy_calls s ! i")
    obtain ph' en' where st: "call_step sha e cc ph (sy_engine s) = (ph', en')" by fastforce
    have "slot_effect (cc_connector_id cc) (slot_count ph' - slot_count ph) (sy_engine s) en'"
      using call_step_effect[of "sy_engine s" ph cc sha e] inv holders_pos[OF True c] st by (simp add: slots_inv_def)
    then have "controllers_wf en'" and "active cid en' = holders cid ((sy_calls s)[i := (cc, ph')])" for cid
      using inv by (auto simp: slots_inv_def slot_effect_def holders_update[OF True c])
    then show ?thesis using True c st by (simp add: ie slots_inv_def)
  qed (use inv ie in simp)
qed

interpretation slots: machine "sys_step sha" "\<lambda>_. True" slots_inv for sha
  by unfold_locales (simp add: slots_inv_step)

lemma slots_inv_init:
  assumes "\<forall>cid. ac_wf (get_concurrency_controller cid en) \<and> active cid en = 0"
  shows "slots_inv (sys_init ccs en)"
proof -
  have "holders cid (map (\<lambda>cc. (cc, Start)) ccs) = 0" for cid by (induction ccs) (simp_all add: holders_def)
  with assms show ?thesis by (simp add: slots_inv_def sys_init_def controllers_wf_def)
qed

lemma slots_inv_run:
  assumes "\<forall>cid. ac_wf (get_concurrency_controller cid en) \<and> active cid en = 0"
  shows "slots_inv (fold (sys_step sha) es (sys_init ccs en))"
  using slots_inv_init[OF assms] by (rule slots.inv_run) (simp add: list_all_iff)

text \<open>
  C3. No slot is lost: however the calls in flight interleave and whatever the provider, the clocks, the landing
  and the random draws do, the active requests the governor of a connector counts are exactly the calls of that connector that are waiting for
  the provider or backing off after a throttle, never more than its maximum; when no call is in flight they are zero.
\<close>

theorem executor_slots_accounted:
  fixes es :: "(nat \<times> exec_event) list" and sha :: "string \<Rightarrow> string" and ccs :: "capability_call list" and en :: engine
  assumes "\<forall>cid. ac_wf (get_concurrency_controller cid en) \<and> active cid en = 0"
  defines "s \<equiv> fold (sys_step sha) es (sys_init ccs en)"
  shows "active cid (sy_engine s) = int (length (filter (\<lambda>(cc, ph). cc_connector_id cc = cid \<and> holding ph) (sy_calls s)))
    \<and> active cid (sy_engine s) \<le> ac_max_concurrency (get_concurrency_controller cid (sy_engine s))
    \<and> ((\<forall>(cc, ph) \<in> set (sy_calls s). \<not> holding ph) \<longrightarrow> active cid (sy_engine s) = 0)"
proof -
  have inv: "slots_inv s" unfolding s_def using assms(1) by (rule slots_inv_run)
  have h: "holders cid cs = int (length (filter (\<lambda>(cc, ph). cc_connector_id cc = cid \<and> holding ph) cs))" for cs
    by (induction cs) (auto simp: holders_def slot_count_def split: if_splits)
  have "ac_wf (get_concurrency_controller cid (sy_engine s))" using inv by (simp add: slots_inv_def controllers_wf_def)
  then have "active cid (sy_engine s) \<le> ac_max_concurrency (get_concurrency_controller cid (sy_engine s))" by (simp add: ac_wf_def)
  moreover have "filter (\<lambda>(cc, ph). cc_connector_id cc = cid \<and> holding ph) (sy_calls s) = []" if "\<forall>(cc, ph) \<in> set (sy_calls s). \<not> holding ph"
    using that by (auto simp: filter_empty_conv)
  ultimately show ?thesis using inv by (auto simp: slots_inv_def h)
qed

definition fresh_engine :: engine where
  "fresh_engine = \<lparr> en_lifecycle = empty_manager, en_quota = new_quota_tracker 10000, en_rate_limiters = [], en_controllers = [], en_landing = demo_service \<rparr>"

lemma fresh_engine_slots: "\<forall>cid. ac_wf (get_concurrency_controller cid fresh_engine) \<and> active cid fresh_engine = 0"
  by (simp add: fresh_engine_def get_concurrency_controller_def ac_wf_def new_controller_def)

definition demo_call :: capability_call where
  "demo_call = \<lparr> cc_tenant_id = ''t1'', cc_connector_id = ''c1'', cc_provider_name = ''aws'', cc_declared = [''collect_usage''],
     cc_capability = ''collect_usage'', cc_max_retries = 3, cc_run_id = ''run-1'', cc_page_number = 1, cc_land_payload = False, cc_schema_version = ''v'' \<rparr>"

section \<open>Guards\<close>

text \<open>The parts of the engine the start of a call does not touch.\<close>

lemma begin_keeps [simp]:
  "get_rate_limiter now cid' (set_controller cid c en) = get_rate_limiter now cid' en"
  "get_rate_limiter now cid (en\<lparr>en_lifecycle := m\<rparr>) = get_rate_limiter now cid en"
  "get_rate_limiter now cid (en\<lparr>en_quota := q\<rparr>) = get_rate_limiter now cid en"
  "get_rate_limiter now cid (set_rate_limiter cid b en) = b"
  by (simp_all add: get_rate_limiter_def set_controller_def set_rate_limiter_def)

text \<open>The breaker of the call refuses: it is open and its cool-down has not elapsed.\<close>

definition breaker_refuses :: "rat \<Rightarrow> capability_call \<Rightarrow> engine \<Rightarrow> bool" where
  "breaker_refuses t1 cc en \<longleftrightarrow>
     (case dict_get (lm_breakers (en_lifecycle en)) (cc_connector_id cc, cc_capability cc) of
        None \<Rightarrow> False
      | Some b \<Rightarrow> cb_st b = OPEN \<and> fsub t1 (cb_last_state_change b) < cb_recovery_timeout_seconds b)"

lemma permission_iff:
  "isl (fst (cb_check_permission t1 t2 t3 (fst (get_breaker now (cc_connector_id cc) (cc_capability cc) (lm_breakers (en_lifecycle en))))))
   \<longleftrightarrow> breaker_refuses t1 cc en"
  by (auto simp: breaker_refuses_def cb_check_permission_def cb_state_poll_def get_breaker_def new_breaker_def Let_def split: option.split)

definition quota_exceeded :: "int \<Rightarrow> capability_call \<Rightarrow> engine \<Rightarrow> bool" where
  "quota_exceeded qnow cc en \<longleftrightarrow>
     get_limit (cc_tenant_id cc) (cc_connector_id cc) (en_quota en)
       < requests_in (cc_tenant_id cc, cc_connector_id cc, qnow div hour_us) (en_quota en) + 1"

lemma begin_phase:
  assumes "1 \<le> get_limit (cc_tenant_id cc) (cc_connector_id cc) (en_quota en)"
    and "0 \<le> requests_in (cc_tenant_id cc, cc_connector_id cc, qnow div hour_us) (en_quota en)"
  shows "fst (begin_call now t1 t2 t3 qnow lnow start cc en) = loop_head cc 0 start
    \<longleftrightarrow> cc_tenant_id cc \<noteq> [] \<and> cc_capability cc \<in> set (cc_declared cc) \<and> \<not> breaker_refuses t1 cc en \<and> \<not> quota_exceeded qnow cc en"
    (is "?l \<longleftrightarrow> ?r")
proof -
  have q: "isl (fst (record_request (cc_tenant_id cc) (cc_connector_id cc) 1 qnow (en_quota en))) \<longleftrightarrow> quota_exceeded qnow cc en"
    using record_request_isl[OF assms(1), of qnow 1] assms(2) by (simp add: quota_exceeded_def)
  show ?thesis
    using permission_iff[of t1 t2 t3 now cc en] q
    by (auto simp: begin_call_def Let_def split_beta loop_head_def isl_def split: sum.splits)
qed

lemma refused_by_breaker:
  assumes "breaker_refuses t1 cc en" and "cc_tenant_id cc \<noteq> []" "cc_capability cc \<in> set (cc_declared cc)"
  shows "\<exists>e. begin_call now t1 t2 t3 qnow lnow start cc en = (Finished (Inl (ExecCircuitOpen e)), en)"
proof -
  obtain b where b: "dict_get (lm_breakers (en_lifecycle en)) (cc_connector_id cc, cc_capability cc) = Some b"
      "cb_st b = OPEN" "fsub t1 (cb_last_state_change b) < cb_recovery_timeout_seconds b"
    using assms(1) by (auto simp: breaker_refuses_def split: option.splits)
  have g: "get_breaker now (cc_connector_id cc) (cc_capability cc) (lm_breakers (en_lifecycle en))
      = (b, lm_breakers (en_lifecycle en))" using b(1) by (simp add: get_breaker_def)
  have p: "cb_state_poll t1 t2 b = b" using b(3) by (simp add: cb_state_poll_def)
  have "snd (cb_check_permission t1 t2 t3 b) = b" "\<exists>e. fst (cb_check_permission t1 t2 t3 b) = Inl e"
    using b(2) by (simp_all add: cb_check_permission_def p Let_def)
  then obtain e where c: "cb_check_permission t1 t2 t3 b = (Inl e, b)" by (metis prod.collapse)
  have "en\<lparr>en_lifecycle := (en_lifecycle en)\<lparr>lm_breakers := lm_breakers (en_lifecycle en)\<rparr>\<rparr> = en" by simp
  then show ?thesis
    using assms(2,3) by (simp add: begin_call_def Let_def g c dict_set_same[OF b(1)])
qed

text \<open>What reading the breaker's state leaves: an open breaker past its cool-down turns half-open.\<close>

definition after_breaker_poll :: "rat \<Rightarrow> rat \<Rightarrow> rat \<Rightarrow> capability_call \<Rightarrow> engine \<Rightarrow> engine" where
  "after_breaker_poll now t1 t2 cc en = en\<lparr>en_lifecycle := (en_lifecycle en)\<lparr>lm_breakers :=
     with_breaker now (cc_connector_id cc) (cc_capability cc) (cb_state_poll t1 t2) (lm_breakers (en_lifecycle en))\<rparr>\<rparr>"

lemma permission_state: "snd (cb_check_permission t1 t2 t3 b) = cb_state_poll t1 t2 b"
  by (simp add: cb_check_permission_def Let_def)

lemma begin_after_guards:
  assumes "cc_tenant_id cc \<noteq> []" "cc_capability cc \<in> set (cc_declared cc)" "\<not> breaker_refuses t1 cc en"
  shows "begin_call now t1 t2 t3 qnow lnow start cc en =
    (case record_request (cc_tenant_id cc) (cc_connector_id cc) 1 qnow (en_quota en) of
       (Inl e, qt) \<Rightarrow> (Finished (Inl (ExecQuota e)), (after_breaker_poll now t1 t2 cc en)\<lparr>en_quota := qt\<rparr>)
     | (Inr d, qt) \<Rightarrow> (let en2 = (after_breaker_poll now t1 t2 cc en)\<lparr>en_quota := qt\<rparr>; cid = cc_connector_id cc;
           en3 = set_rate_limiter cid (get_rate_limiter lnow cid en2) en2
         in (loop_head cc 0 start, set_controller cid (get_concurrency_controller cid en3) en3)))"
proof -
  obtain b r where g: "get_breaker now (cc_connector_id cc) (cc_capability cc) (lm_breakers (en_lifecycle en)) = (b, r)"
    by fastforce
  obtain u where c: "cb_check_permission t1 t2 t3 b = (Inr u, cb_state_poll t1 t2 b)"
    using permission_iff[of t1 t2 t3 now cc en] assms(3) permission_state[of t1 t2 t3 b]
    by (cases "cb_check_permission t1 t2 t3 b"; cases "fst (cb_check_permission t1 t2 t3 b)") (auto simp: g)
  show ?thesis using assms(1,2)
    by (simp add: begin_call_def Let_def g c after_breaker_poll_def with_breaker_def split: prod.split sum.split)
qed

text \<open>
  C30. The guards fail fast, with exactly this effect. A call without a tenant, of a capability the connector
  does not declare or against an open breaker in its cool-down ends with the error of that guard and leaves
  the whole engine as it was. A call past the hourly quota ends with the quota error and changes nothing but
  the breaker, whose state has been read: an open one past its cool-down turns half-open and its successes
  are reset. Every other call takes exactly one unit of quota and enters the retry loop.
\<close>

theorem guards_fail_fast:
  assumes "1 \<le> get_limit (cc_tenant_id cc) (cc_connector_id cc) (en_quota en)"
    and "0 \<le> requests_in (cc_tenant_id cc, cc_connector_id cc, qnow div hour_us) (en_quota en)"
    and "begin_call now t1 t2 t3 qnow lnow start cc en = (ph, en')"
  shows "if cc_tenant_id cc = [] then ph = Finished (Inl ExecMissingTenantContext) \<and> en' = en
     else if cc_capability cc \<notin> set (cc_declared cc)
     then ph = Finished (Inl (UndeclaredCapabilityException (cc_connector_id cc) (cc_capability cc))) \<and> en' = en
     else if breaker_refuses t1 cc en then (\<exists>e. ph = Finished (Inl (ExecCircuitOpen e))) \<and> en' = en
     else if quota_exceeded qnow cc en
     then (\<exists>e. ph = Finished (Inl (ExecQuota e)))
        \<and> en' = en\<lparr>en_lifecycle := (en_lifecycle en)\<lparr>lm_breakers := with_breaker now (cc_connector_id cc) (cc_capability cc)
                    (cb_state_poll t1 t2) (lm_breakers (en_lifecycle en))\<rparr>\<rparr>
     else ph = loop_head cc 0 start
        \<and> requests_in (cc_tenant_id cc, cc_connector_id cc, qnow div hour_us) (en_quota en')
            = requests_in (cc_tenant_id cc, cc_connector_id cc, qnow div hour_us) (en_quota en) + 1"
proof (cases "cc_tenant_id cc \<noteq> [] \<and> cc_capability cc \<in> set (cc_declared cc) \<and> \<not> breaker_refuses t1 cc en")
  case False
  then show ?thesis using assms(3) refused_by_breaker[of t1 cc en now t2 t3 qnow lnow start]
    by (auto simp: begin_call_def Let_def)
next
  case True
  let ?q = "record_request (cc_tenant_id cc) (cc_connector_id cc) 1 qnow (en_quota en)"
  have q: "isl (fst ?q) \<longleftrightarrow> quota_exceeded qnow cc en"
    using record_request_isl[OF assms(1), of qnow 1] assms(2) by (simp add: quota_exceeded_def)
  have started: "begin_call now t1 t2 t3 qnow lnow start cc en = (ph, en')" by (rule assms(3))
  show ?thesis
  proof (cases "quota_exceeded qnow cc en")
    case exc: True
    then have "snd ?q = en_quota en" by (simp add: quota_exceeded_def requests_in_rejected)
    with q exc obtain e where "?q = (Inl e, en_quota en)" by (cases ?q) (auto simp: isl_def)
    with begin_after_guards[of cc t1 en now t2 t3 qnow lnow start] True exc started show ?thesis
      by (auto simp: after_breaker_poll_def)
  next
    case ok: False
    then have "requests_in (cc_tenant_id cc, cc_connector_id cc, qnow div hour_us) (snd ?q)
        = requests_in (cc_tenant_id cc, cc_connector_id cc, qnow div hour_us) (en_quota en) + 1"
      by (simp add: quota_exceeded_def requests_in_accepted)
    moreover from q ok obtain d qt where "?q = (Inr d, qt)" by (cases ?q; cases "fst ?q") auto
    ultimately show ?thesis using begin_after_guards[of cc t1 en now t2 t3 qnow lnow start] True ok started
      by (auto simp: set_controller_def set_rate_limiter_def Let_def)
  qed
qed

lemma fresh_quota: "get_limit t c (en_quota fresh_engine) = 10000" "requests_in key (en_quota fresh_engine) = 0"
  by (simp_all add: fresh_engine_def get_limit_def requests_in_def new_quota_tracker_def)

text \<open>An engine whose quota of one request is used up and whose breaker has cooled down.\<close>

definition used_up_engine :: engine where
  "used_up_engine = fresh_engine\<lparr>en_quota := (new_quota_tracker 1)\<lparr>qt_counts := [((cc_tenant_id demo_call, cc_connector_id demo_call, 0), 1)]\<rparr>,
     en_lifecycle := (en_lifecycle fresh_engine)\<lparr>lm_breakers :=
       [((cc_connector_id demo_call, cc_capability demo_call), (new_breaker ''c1'' ''cap'' 5 30 2 0)\<lparr>cb_st := OPEN\<rparr>)]\<rparr>\<rparr>"

theorem guards_fail_fast_witness:
  "begin_call 0 0 0 0 0 0 0 (demo_call\<lparr>cc_declared := []\<rparr>) fresh_engine
     = (Finished (Inl (UndeclaredCapabilityException (cc_connector_id demo_call) (cc_capability demo_call))), fresh_engine)
   \<and> map (cb_st \<circ> snd) (lm_breakers (en_lifecycle (snd (begin_call 50 50 50 50 0 0 0 demo_call used_up_engine)))) = [HALF_OPEN]"
proof
  show "begin_call 0 0 0 0 0 0 0 (demo_call\<lparr>cc_declared := []\<rparr>) fresh_engine
     = (Finished (Inl (UndeclaredCapabilityException (cc_connector_id demo_call) (cc_capability demo_call))), fresh_engine)"
    using guards_fail_fast[of "demo_call\<lparr>cc_declared := []\<rparr>" fresh_engine 0 0 0 0 0 0 0,
        OF _ _ surjective_pairing] fresh_quota by (simp add: demo_call_def prod_eq_iff)
  have g: "cc_tenant_id demo_call \<noteq> []" "cc_capability demo_call \<in> set (cc_declared demo_call)"
    "\<not> breaker_refuses 50 demo_call used_up_engine" "quota_exceeded 0 demo_call used_up_engine"
    "1 \<le> get_limit (cc_tenant_id demo_call) (cc_connector_id demo_call) (en_quota used_up_engine)"
    "0 \<le> requests_in (cc_tenant_id demo_call, cc_connector_id demo_call, 0 div hour_us) (en_quota used_up_engine)"
    "map (cb_st \<circ> snd) (with_breaker 50 (cc_connector_id demo_call) (cc_capability demo_call) (cb_state_poll 50 50)
        (lm_breakers (en_lifecycle used_up_engine))) = [HALF_OPEN]"
    by code_simp+
  show "map (cb_st \<circ> snd) (lm_breakers (en_lifecycle (snd (begin_call 50 50 50 50 0 0 0 demo_call used_up_engine)))) = [HALF_OPEN]"
    using guards_fail_fast[OF g(5,6) surjective_pairing, of 50 50 50 50 0 0] g by simp
qed

subsection \<open>A run\<close>

lemma begin_controller: "get_concurrency_controller cid (snd (begin_call now t1 t2 t3 qnow lnow start cc en)) = get_concurrency_controller cid en"
  by (simp add: begin_call_def Let_def split_beta split: sum.split)

lemma begin_limiter:
  assumes "fst (begin_call now t1 t2 t3 qnow lnow start cc en) = Await_token a x"
  shows "get_rate_limiter y (cc_connector_id cc) (snd (begin_call now t1 t2 t3 qnow lnow start cc en)) = get_rate_limiter lnow (cc_connector_id cc) en"
  using assms
  by (auto simp: begin_call_def Let_def split_beta loop_head_def split: if_splits sum.splits)

lemma full_bucket_grants:
  assumes "get_rate_limiter 0 (cc_connector_id cc) en = new_bucket cid 50 50 0"
  shows "fst (poll_token 0 0 a 0 cc en) = Await_slot a 0"
  using assms by (simp add: poll_token_def Let_def split_beta try_acquire_def refill_def new_bucket_def float.rnd_0)

lemma free_slot_granted:
  assumes "active (cc_connector_id cc) en < ac_current_concurrency (get_concurrency_controller (cc_connector_id cc) en)"
  shows "fst (poll_slot a 0 cc en) = Running a"
  using assms by (simp add: poll_slot_def Let_def split_beta acquire_slot_async_poll_def)

definition demo_events :: "(nat \<times> exec_event) list" where
  "demo_events = [(0, Begin 0 0 0 0 0 0 0), (0, Poll_token 0 0), (0, Poll_slot)]"

lemma demo_exec_run:
  "sy_calls (fold (sys_step sha) demo_events (sys_init [demo_call] fresh_engine)) = [(demo_call, Running 0)]
   \<and> sy_invocations (fold (sys_step sha) demo_events (sys_init [demo_call] fresh_engine)) = [0]"
proof -
  let ?b = "begin_call 0 0 0 0 0 0 0 demo_call fresh_engine"
  let ?p = "poll_token 0 0 0 0 demo_call (snd ?b)"
  have "fst ?b = loop_head demo_call 0 0"
    by (subst begin_phase)
       (simp_all add: fresh_quota quota_exceeded_def breaker_refuses_def, simp_all add: demo_call_def fresh_engine_def empty_manager_def)
  then have b: "fst ?b = Await_token 0 0" by (simp add: loop_head_def demo_call_def)
  have "get_rate_limiter 0 (cc_connector_id demo_call) (snd ?b) = new_bucket ''c1'' 50 50 0"
    using begin_limiter[OF b] by (simp add: get_rate_limiter_def fresh_engine_def demo_call_def)
  then have p: "fst ?p = Await_slot 0 0" by (rule full_bucket_grants)
  have "get_concurrency_controller cid (snd ?p) = get_concurrency_controller cid fresh_engine" for cid
    by (simp add: poll_token_def Let_def split_beta begin_controller split: acquire_outcome.split)
  then have "fst (poll_slot 0 0 demo_call (snd ?p)) = Running 0"
    by (intro free_slot_granted) (simp add: get_concurrency_controller_def fresh_engine_def new_controller_def)
  with b p show ?thesis
    by (simp add: demo_events_def sys_init_def call_step_def split_beta)
qed

theorem executor_slots_accounted_witness:
  "active ''c1'' (sy_engine (fold (sys_step rev) demo_events (sys_init [demo_call] fresh_engine))) = 1"
proof -
  have "cc_connector_id demo_call = ''c1''" by (simp add: demo_call_def)
  with demo_exec_run[of rev] executor_slots_accounted[OF fresh_engine_slots, where es = demo_events and sha = rev and ccs = "[demo_call]" and cid = "''c1''"]
  show ?thesis by simp
qed

section \<open>Phases of a call\<close>

text \<open>The life of a call, without the engine: the specification the steps refine.\<close>

inductive phase_moves :: "capability_call \<Rightarrow> phase \<Rightarrow> phase \<Rightarrow> bool" for cc where
  refused: "phase_moves cc Start (Finished (Inl e))"
| admitted: "cc_tenant_id cc \<noteq> [] \<Longrightarrow> cc_capability cc \<in> set (cc_declared cc) \<Longrightarrow> phase_moves cc Start (loop_head cc 0 x)"
| token: "phase_moves cc (Await_token a x) (Await_slot a 0)"
| no_token: "phase_moves cc (Await_token a x) (Finished (Inl (ExecRateLimit e)))"
| waiting: "phase_moves cc (Await_slot a w) (Await_slot a w')"
| granted: "phase_moves cc (Await_slot a w) (Running a)"
| timed_out: "phase_moves cc (Await_slot a w) (Slot_pause a)"
| paused: "phase_moves cc (Slot_pause a) (loop_head cc (a + 1) x)"
| replied: "phase_moves cc (Running a) (Finished r)"
| throttled: "int a < cc_max_retries cc \<Longrightarrow> phase_moves cc (Running a) (Backing_off a d)"
| retry: "phase_moves cc (Backing_off a d) (loop_head cc (a + 1) x)"

lemma handle_exception_phase: "phase_moves cc (Running a) (fst (handle_exception ev err ra a cc en))"
  by (auto simp: handle_exception_def Let_def split_beta intro: replied throttled split: sum.split)

lemma handle_value_phase: "phase_moves cc (Running a) (fst (handle_value sha ev res a cc en))"
  by (auto simp: handle_value_def Let_def split_beta intro: replied handle_exception_phase split: sum.split option.split)

lemma call_step_phase: "fst (call_step sha e cc ph en) = ph \<or> phase_moves cc ph (fst (call_step sha e cc ph en))"
proof (cases ph)
  case Start
  then show ?thesis
    by (cases e) (auto simp: call_step_def begin_call_def Let_def split_beta intro: refused admitted split: sum.split)
next
  case (Await_token a x)
  then show ?thesis
    by (cases e) (auto simp: call_step_def poll_token_def Let_def split_beta intro: token no_token split: acquire_outcome.split)
next
  case (Await_slot a w)
  then show ?thesis
    by (cases e) (auto simp: call_step_def poll_slot_def Let_def split_beta intro: waiting granted timed_out split: poll.split)
next
  case (Slot_pause a)
  then show ?thesis by (cases e) (auto simp: call_step_def intro: paused[simplified])
next
  case (Running a)
  then show ?thesis
    by (cases e) (auto simp: call_step_def intro: handle_value_phase handle_exception_phase split: op_reply.split)
next
  case (Backing_off a d)
  then show ?thesis by (cases e) (auto simp: call_step_def intro: retry[simplified])
next
  case (Finished r)
  then show ?thesis by (cases e) (simp_all add: call_step_def)
qed

section \<open>Invocations of the provider\<close>

fun attempt_of :: "phase \<Rightarrow> nat option" where
  "attempt_of (Await_token a x) = Some a"
| "attempt_of (Await_slot a w) = Some a"
| "attempt_of (Slot_pause a) = Some a"
| "attempt_of (Running a) = Some a"
| "attempt_of (Backing_off a d) = Some a"
| "attempt_of ph = None"

definition admissible :: "capability_call \<Rightarrow> bool" where
  "admissible cc \<longleftrightarrow> cc_tenant_id cc \<noteq> [] \<and> cc_capability cc \<in> set (cc_declared cc)"

definition call_ok :: "capability_call \<Rightarrow> phase \<Rightarrow> bool" where
  "call_ok cc ph \<longleftrightarrow> (case attempt_of ph of Some a \<Rightarrow> int a \<le> cc_max_retries cc \<and> admissible cc | None \<Rightarrow> True)"

text \<open>The invocations a call can have made when it is in a phase.\<close>

fun invocations_by :: "capability_call \<Rightarrow> phase \<Rightarrow> nat" where
  "invocations_by cc Start = 0"
| "invocations_by cc (Await_token a x) = a"
| "invocations_by cc (Await_slot a w) = a"
| "invocations_by cc (Slot_pause a) = a"
| "invocations_by cc (Running a) = a + 1"
| "invocations_by cc (Backing_off a d) = a + 1"
| "invocations_by cc (Finished r) = nat (cc_max_retries cc + 1)"

lemma phase_moves_ok:
  assumes "phase_moves cc ph ph'" and "call_ok cc ph"
  shows "call_ok cc ph' \<and> invocations_by cc ph + (if is_running ph' \<and> \<not> is_running ph then 1 else 0) \<le> invocations_by cc ph'
    \<and> (is_running ph' \<longrightarrow> admissible cc)"
  using assms by (induction rule: phase_moves.induct) (auto simp: call_ok_def loop_head_def admissible_def)

lemma call_step_ok:
  assumes "call_ok cc ph" and "call_step sha e cc ph en = (ph', en')"
  shows "call_ok cc ph' \<and> invocations_by cc ph + (if is_running ph' \<and> \<not> is_running ph then 1 else 0) \<le> invocations_by cc ph'
    \<and> (is_running ph' \<longrightarrow> admissible cc)"
proof -
  consider "ph' = ph" | "phase_moves cc ph ph'" using call_step_phase[of sha e cc ph en] assms(2) by auto
  then show ?thesis
  proof cases
    case 1
    have "is_running ph \<longrightarrow> admissible cc" using assms(1) by (cases ph) (simp_all add: call_ok_def)
    with 1 assms(1) show ?thesis by simp
  next
    case 2
    then show ?thesis using assms(1) by (rule phase_moves_ok)
  qed
qed

definition calls_inv :: "capability_call list \<Rightarrow> exec_system \<Rightarrow> bool" where
  "calls_inv ccs s \<longleftrightarrow> map fst (sy_calls s) = ccs
     \<and> (\<forall>i < length ccs. call_ok (ccs ! i) (snd (sy_calls s ! i))
          \<and> count_list (sy_invocations s) i \<le> invocations_by (ccs ! i) (snd (sy_calls s ! i)))
     \<and> (\<forall>i \<in> set (sy_invocations s). i < length ccs \<and> admissible (ccs ! i))"

lemma calls_inv_step:
  assumes "calls_inv ccs s" shows "calls_inv ccs (sys_step sha ie s)"
proof -
  obtain i e where ie: "ie = (i, e)" by (cases ie)
  show ?thesis
  proof (cases "i < length (sy_calls s)")
    case True
    obtain cc ph where c: "sy_calls s ! i = (cc, ph)" by (cases "sy_calls s ! i")
    obtain ph' en' where st: "call_step sha e cc ph (sy_engine s) = (ph', en')" by fastforce
    have fst: "map fst (sy_calls s) = ccs" using assms by (simp add: calls_inv_def)
    then have len: "length (sy_calls s) = length ccs" and cc: "ccs ! i = cc" using True c by auto
    have "\<forall>i < length ccs. call_ok (ccs ! i) (snd (sy_calls s ! i))
          \<and> count_list (sy_invocations s) i \<le> invocations_by (ccs ! i) (snd (sy_calls s ! i))"
      and adm: "\<forall>i \<in> set (sy_invocations s). i < length ccs \<and> admissible (ccs ! i)"
      using assms by (simp_all add: calls_inv_def)
    note old = this(1)[rule_format]
    have "call_ok cc ph" and cnt: "count_list (sy_invocations s) i \<le> invocations_by cc ph"
      using old[of i] True len cc c by simp_all
    note step = call_step_ok[OF \<open>call_ok cc ph\<close> st]
    have "map fst ((sy_calls s)[i := (cc, ph')]) = ccs" using fst cc by (metis fst_conv list_update_id map_update)
    define s' where "s' = sys_step sha ie s"
    have s': "sy_calls s' = (sy_calls s)[i := (cc, ph')]"
      "sy_invocations s' = sy_invocations s @ (if is_running ph' \<and> \<not> is_running ph then [i] else [])"
      using True c st by (simp_all add: s'_def ie)
    have "call_ok (ccs ! j) (snd (sy_calls s' ! j)) \<and> count_list (sy_invocations s') j \<le> invocations_by (ccs ! j) (snd (sy_calls s' ! j))"
      if "j < length ccs" for j
    proof (cases "j = i")
      case eq: True
      from step cnt show ?thesis unfolding s' eq cc using True by auto
    next
      case False
      then show ?thesis using old[OF that] by (simp add: s')
    qed
    moreover have "\<forall>j \<in> set (sy_invocations s'). j < length ccs \<and> admissible (ccs ! j)"
      using adm step True len cc by (auto simp: s')
    ultimately show ?thesis using \<open>map fst ((sy_calls s)[i := (cc, ph')]) = ccs\<close> s'(1)
      unfolding s'_def[symmetric] calls_inv_def by simp
  qed (use assms ie in simp)
qed

interpretation calls: machine "sys_step sha" "\<lambda>_. True" "calls_inv ccs" for sha ccs
  by unfold_locales (rule calls_inv_step)

lemma calls_inv_init: "calls_inv ccs (sys_init ccs en)"
  by (auto simp: calls_inv_def sys_init_def call_ok_def comp_def)

text \<open>
  C29. The provider is invoked only as declared and a bounded number of times: over every interleaving of calls, an invocation belongs to a call
  with a tenant whose connector declares the capability, and a call invokes its operation at most once per attempt, \<open>max_retries + 1\<close> times in all.
\<close>

theorem invocations_bounded:
  fixes es :: "(nat \<times> exec_event) list" and sha :: "string \<Rightarrow> string" and ccs :: "capability_call list" and en :: engine
  defines "s \<equiv> fold (sys_step sha) es (sys_init ccs en)"
  shows "(\<forall>i \<in> set (sy_invocations s). i < length ccs \<and> cc_tenant_id (ccs ! i) \<noteq> [] \<and> cc_capability (ccs ! i) \<in> set (cc_declared (ccs ! i)))
    \<and> (\<forall>i < length ccs. count_list (sy_invocations s) i \<le> nat (cc_max_retries (ccs ! i) + 1))"
proof -
  have inv: "calls_inv ccs s" unfolding s_def using calls_inv_init by (rule calls.inv_run) (simp add: list_all_iff)
  have "invocations_by cc ph \<le> nat (cc_max_retries cc + 1)" if "call_ok cc ph" for cc ph
    using that by (cases ph) (auto simp: call_ok_def)
  with inv show ?thesis unfolding calls_inv_def admissible_def by (meson le_trans)
qed

theorem invocations_bounded_witness:
  "count_list (sy_invocations (fold (sys_step rev) demo_events (sys_init [demo_call] fresh_engine))) 0 \<le> 4
   \<and> sy_invocations (fold (sys_step rev) demo_events (sys_init [demo_call] fresh_engine)) = [0]"
proof -
  have "cc_max_retries demo_call = 3" by (simp add: demo_call_def)
  then show ?thesis using demo_exec_run[of rev] invocations_bounded[where es = demo_events and sha = rev and ccs = "[demo_call]" and en = fresh_engine] by simp
qed

section \<open>Termination\<close>

text \<open>An upper bound on the phases a call still goes through.\<close>

fun remaining_phases :: "capability_call \<Rightarrow> phase \<Rightarrow> nat" where
  "remaining_phases cc Start = 4 * nat (cc_max_retries cc + 1) + 1"
| "remaining_phases cc (Await_token a x) = 4 * (nat (cc_max_retries cc + 1) - a)"
| "remaining_phases cc (Await_slot a w) = 4 * (nat (cc_max_retries cc + 1) - a) - 1"
| "remaining_phases cc (Slot_pause a) = 4 * (nat (cc_max_retries cc + 1) - a) - 2"
| "remaining_phases cc (Running a) = 4 * (nat (cc_max_retries cc + 1) - a) - 2"
| "remaining_phases cc (Backing_off a d) = 4 * (nat (cc_max_retries cc + 1) - a) - 3"
| "remaining_phases cc (Finished r) = 0"

text \<open>A phase without the time already waited.\<close>

fun stage :: "phase \<Rightarrow> phase" where
  "stage (Await_slot a w) = Await_slot a 0"
| "stage ph = ph"

lemma phase_moves_rank:
  assumes "phase_moves cc ph ph'" and "call_ok cc ph"
  shows "stage ph' = stage ph \<or> remaining_phases cc ph' < remaining_phases cc ph"
  using assms by (induction rule: phase_moves.induct) (auto simp: call_ok_def loop_head_def)

lemma stage_rank: "stage ph' = stage ph \<Longrightarrow> remaining_phases cc ph' = remaining_phases cc ph"
  by (cases ph; cases ph') auto

text \<open>The steps of a run that move call \<open>i\<close> to another stage.\<close>

fun stage_changes :: "(string \<Rightarrow> string) \<Rightarrow> nat \<Rightarrow> (nat \<times> exec_event) list \<Rightarrow> exec_system \<Rightarrow> nat" where
  "stage_changes sha i [] s = 0"
| "stage_changes sha i (ie # es) s =
     (let s' = sys_step sha ie s in
      (if stage (snd (sy_calls s' ! i)) = stage (snd (sy_calls s ! i)) then 0 else 1) + stage_changes sha i es s')"

lemma sys_step_call:
  assumes "calls_inv ccs s" and "j < length ccs"
  shows "snd (sy_calls (sys_step sha ie s) ! j) = snd (sy_calls s ! j) \<or> phase_moves (ccs ! j) (snd (sy_calls s ! j)) (snd (sy_calls (sys_step sha ie s) ! j))"
proof -
  obtain i e where ie: "ie = (i, e)" by (cases ie)
  obtain cc ph where c: "sy_calls s ! i = (cc, ph)" by (cases "sy_calls s ! i")
  have "map fst (sy_calls s) = ccs" using assms(1) by (simp add: calls_inv_def)
  then have len: "length (sy_calls s) = length ccs" and cc: "i < length ccs \<Longrightarrow> ccs ! i = cc" using c by auto
  show ?thesis using call_step_phase[of sha e cc ph "sy_engine s"] c cc assms(2)
    by (cases "i = j") (auto simp: ie len split_beta Let_def)
qed

lemma stage_changes_bound:
  assumes "calls_inv ccs s" and "i < length ccs"
  shows "stage_changes sha i es s \<le> remaining_phases (ccs ! i) (snd (sy_calls s ! i))"
  using assms
proof (induction es arbitrary: s)
  case (Cons ie es)
  let ?s = "sys_step sha ie s"
  have inv: "calls_inv ccs ?s" using Cons.prems(1) by (rule calls_inv_step)
  have ok: "call_ok (ccs ! i) (snd (sy_calls s ! i))" using Cons.prems by (simp add: calls_inv_def)
  have "stage (snd (sy_calls ?s ! i)) = stage (snd (sy_calls s ! i))
      \<or> remaining_phases (ccs ! i) (snd (sy_calls ?s ! i)) < remaining_phases (ccs ! i) (snd (sy_calls s ! i))"
    using sys_step_call[OF Cons.prems, of sha ie] phase_moves_rank[OF _ ok] by auto
  then show ?case using Cons.IH[OF inv Cons.prems(2)] stage_rank[of "snd (sy_calls ?s ! i)" "snd (sy_calls s ! i)" "ccs ! i"]
    by (auto simp: Let_def)
qed simp

text \<open>
  C31. A call ends: in every interleaving it changes its stage at most \<open>4 (max_retries + 1) + 1\<close> times, from the start over the waits
  for tokens and slots, the invocations and the backoffs, so it cannot retry forever.
\<close>

theorem calls_change_stage_boundedly:
  assumes "i < length ccs"
  shows "stage_changes sha i es (sys_init ccs en) \<le> 4 * nat (cc_max_retries (ccs ! i) + 1) + 1"
proof -
  have "snd (sy_calls (sys_init ccs en) ! i) = Start" using assms by (simp add: sys_init_def)
  then show ?thesis using stage_changes_bound[OF calls_inv_init assms, of sha es en] by simp
qed

theorem calls_change_stage_boundedly_witness:
  "stage_changes rev 0 (replicate 100 (0, Wake 0)) (sys_init [demo_call] fresh_engine) \<le> 17"
  using calls_change_stage_boundedly[of 0 "[demo_call]" rev "replicate 100 (0, Wake 0)" fresh_engine] by (simp add: demo_call_def)

section \<open>What the composition gives away\<close>

lemma success_keeps_quota: "en_quota (snd (handle_exception ev err ra a cc en)) = en_quota en"
  by (simp add: handle_exception_def Let_def split_beta release_slot_def set_controller_def split: sum.split)

text \<open>
  The quota counts calls, not requests: no step after the start of a call touches it, so the retries of a throttled call, up to
  \<open>max_retries\<close> further requests to the provider, are not counted.
\<close>

theorem retries_take_no_quota:
  assumes "ph \<noteq> Start"
  shows "en_quota (snd (call_step sha e cc ph en)) = en_quota en"
proof -
  have v: "en_quota (snd (handle_value sha ev res a cc en)) = en_quota en" for ev res a
    by (simp add: handle_value_def Let_def split_beta success_keeps_quota release_slot_def set_controller_def on_breaker_def
        split: sum.split option.split)
  show ?thesis using assms v
    by (cases ph; cases e)
       (auto simp: call_step_def poll_token_def poll_slot_def Let_def split_beta success_keeps_quota release_slot_def set_controller_def
          set_rate_limiter_def split: acquire_outcome.split poll.split op_reply.split)
qed

theorem retries_take_no_quota_witness:
  "en_quota (snd (call_step rev (Wake 0) demo_call (Backing_off 0 1) fresh_engine)) = en_quota fresh_engine"
  by (rule retries_take_no_quota) simp

lemma handle_exception_error_only: "handle_exception ev err ra a cc en \<noteq> (Finished (Inr res), en'')"
  by (auto simp: handle_exception_def Let_def split_beta split: sum.splits)

lemma two_successes_close:
  assumes "cb_st b = HALF_OPEN" and "0 \<le> cb_consecutive_successes b" and "cb_success_threshold b \<le> 2"
  shows "cb_st (cb_record_success u (cb_record_success t b)) = CLOSED"
  using assms by (auto simp: cb_record_success_def Let_def)

text \<open>
  A single successful call closes a probing breaker with the default success threshold of two: the engine records the success on the
  breaker and the life-cycle manager records it on the same breaker again.
\<close>

theorem one_success_closes_probing_breaker:
  assumes "call_step sha (Reply (Op_value res) ev) cc (Running a) en = (Finished (Inr res), en')"
    and "dict_get (lm_breakers (en_lifecycle en)) (cc_connector_id cc, cc_capability cc) = Some b"
    and "cb_st b = HALF_OPEN" and "0 \<le> cb_consecutive_successes b" and "cb_success_threshold b = 2" and "cc_tenant_id cc \<noteq> []"
  shows "\<exists>b'. dict_get (lm_breakers (en_lifecycle en')) (cc_connector_id cc, cc_capability cc) = Some b' \<and> cb_st b' = CLOSED"
proof -
  let ?cid = "cc_connector_id cc" and ?cap = "cc_capability cc" and ?t = "cc_tenant_id cc"
  define en2 where "en2 = on_breaker (ee_breaker_now ev) ?cid ?cap (cb_record_success (ee_breaker_now ev))
      (set_controller ?cid (snd (record_success (get_concurrency_controller ?cid en))) en)"
  define m where "m = record_capability_success (ee_db ev) (ee_clock ev) ?t ?cid ?cap ''SYSTEM_CONNECTOR'' (en_lifecycle en2)"
  have b2: "dict_get (lm_breakers (en_lifecycle en2)) (?cid, ?cap) = Some (cb_record_success (ee_breaker_now ev) b)"
    using assms(2) by (simp add: en2_def on_breaker_def set_controller_def with_breaker_def get_breaker_def)
  have m: "lm_breakers (snd m) = lm_breakers (snd (breaker_outcome (ee_clock ev) ?cid ?cap cb_record_success (en_lifecycle en2)))"
    "\<exists>r. fst m = Inr r"
    using success_effect(1,4)[OF assms(6), of "\<lambda>_ _. ee_db ev"] by (auto simp: m_def)
  have "cb_st (cb_record_success (lc_record (ee_clock ev)) (cb_record_success (ee_breaker_now ev) b)) = CLOSED"
    using assms(3-5) by (intro two_successes_close) simp_all
  then have closed: "\<exists>b'. dict_get (lm_breakers (snd m)) (?cid, ?cap) = Some b' \<and> cb_st b' = CLOSED"
    using b2 unfolding m(1) by (simp add: breaker_outcome_def get_breaker_def cb_state_poll_def)
  have exc: "\<not> (\<exists>en''. handle_exception ev err ra a cc en1 = (Finished (Inr res), en''))" for err ra en1
    using handle_exception_error_only by simp
  obtain r m' where mm: "m = (Inr r, m')" using m(2) by (metis prod.collapse)
  have "call_step sha (Reply (Op_value res) ev) cc (Running a) en = handle_value sha ev res a cc en" by (simp add: call_step_def)
  then have "lm_breakers (en_lifecycle en') = lm_breakers (snd m)"
    using assms(1) exc
    unfolding handle_value_def Let_def en2_def[symmetric] m_def[symmetric] mm prod.case sum.case
    by (auto simp: split_beta release_slot_def set_controller_def handle_exception_error_only[symmetric] split: option.splits sum.splits if_splits)
  with closed show ?thesis by simp
qed

lemma handle_value_returns:
  assumes "cc_tenant_id cc \<noteq> []" and "\<not> cc_land_payload cc \<or> res = None"
  shows "fst (handle_value sha ev res a cc en) = Finished (Inr res)"
  using assms success_effect(1)[OF assms(1), of "\<lambda>_ _. ee_db ev"] by (simp add: handle_value_def Let_def split_beta)

definition demo_half_open :: breaker where
  "demo_half_open = (new_breaker ''c1'' ''collect_usage'' 5 30 2 0)\<lparr>cb_st := HALF_OPEN, cb_consecutive_failures := 5\<rparr>"

definition probing_engine :: engine where
  "probing_engine = fresh_engine\<lparr>en_lifecycle := empty_manager\<lparr>lm_breakers := [((''c1'', ''collect_usage''), demo_half_open)]\<rparr>\<rparr>"

definition demo_exec_env :: exec_env where
  "demo_exec_env = \<lparr> ee_db = Some ACTIVE, ee_clock = demo_clock 1, ee_breaker_now = 1, ee_draw = 0, ee_landing = demo_env ''l1'' \<rparr>"

theorem one_success_closes_probing_breaker_witness:
  "\<exists>b'. dict_get (lm_breakers (en_lifecycle (snd (call_step rev (Reply (Op_value None) demo_exec_env) demo_call (Running 0) probing_engine))))
      (''c1'', ''collect_usage'') = Some b' \<and> cb_st b' = CLOSED"
proof -
  let ?st = "call_step rev (Reply (Op_value None) demo_exec_env) demo_call (Running 0) probing_engine"
  have cc: "cc_connector_id demo_call = ''c1''" "cc_capability demo_call = ''collect_usage''" "cc_tenant_id demo_call \<noteq> []"
    by (simp_all add: demo_call_def)
  have "fst ?st = Finished (Inr None)" using handle_value_returns[OF cc(3)] by (simp add: call_step_def)
  then have "?st = (Finished (Inr None), snd ?st)" by (metis prod.collapse)
  moreover have "dict_get (lm_breakers (en_lifecycle probing_engine)) (''c1'', ''collect_usage'') = Some demo_half_open"
    by (simp add: probing_engine_def)
  moreover have "cb_st demo_half_open = HALF_OPEN" "0 \<le> cb_consecutive_successes demo_half_open" "cb_success_threshold demo_half_open = 2"
    by (simp_all add: demo_half_open_def new_breaker_def)
  ultimately show ?thesis using one_success_closes_probing_breaker cc by metis
qed

text \<open>
  A payload that cannot be landed is blamed on the provider: when the provider answers with other data than the run has
  landed for that page before (a job run again, or resumed after a crash between landing and checkpoint), the answer is not returned; the call ends with a
  provider error, and the capability is recorded as failed although its invocation succeeded.
\<close>

theorem landing_conflict_blamed_on_provider:
  assumes "cc_tenant_id cc \<noteq> []" and "cc_land_payload cc"
    and "get_object (cc_tenant_id cc) (relative_key (cc_connector_id cc) (cc_capability cc) (cc_run_id cc) (cc_page_number cc)) (ls_store (en_landing en)) = Inr old"
    and "rp_json pl = Some bytes" and "bytes \<noteq> old"
    and "\<not> is_throttled (conflict_text (relative_key (cc_connector_id cc) (cc_capability cc) (cc_run_id cc) (cc_page_number cc))) \<or> cc_max_retries cc \<le> int a"
  shows "(\<exists>verbatim plain. fst (call_step sha (Reply (Op_value (Some pl)) ev) cc (Running a) en)
      = Finished (Inl (ProviderRawErrorException (cc_provider_name cc) (cc_capability cc) verbatim plain)))
    \<and> was_degraded (dict_get (lm_health (en_lifecycle (snd (call_step sha (Reply (Op_value (Some pl)) ev) cc (Running a) en))))
        (cc_tenant_id cc, cc_connector_id cc, cc_capability cc))"
proof -
  let ?key = "relative_key (cc_connector_id cc) (cc_capability cc) (cc_run_id cc) (cc_page_number cc)"
  define en2 where "en2 = on_breaker (ee_breaker_now ev) (cc_connector_id cc) (cc_capability cc) (cb_record_success (ee_breaker_now ev))
      (set_controller (cc_connector_id cc) (snd (record_success (get_concurrency_controller (cc_connector_id cc) en))) en)"
  define m where "m = record_capability_success (ee_db ev) (ee_clock ev) (cc_tenant_id cc) (cc_connector_id cc) (cc_capability cc) ''SYSTEM_CONNECTOR'' (en_lifecycle en2)"
  obtain r m' where mm: "m = (Inr r, m')"
    using success_effect(1)[OF assms(1), of "\<lambda>_ _. ee_db ev"] unfolding m_def by (metis prod.collapse)
  have l: "land_raw_payload sha (ee_landing ev) (cc_tenant_id cc) (cc_connector_id cc) (cc_run_id cc) (cc_capability cc) (cc_page_number cc) pl
      (cc_schema_version cc) ''SYSTEM_INGESTION'' None None (en_landing (en2\<lparr>en_lifecycle := m'\<rparr>))
      = (Inl (RawLandingException (conflict_text ?key)), en_landing en)"
    using landing_conflict[OF assms(3,1,4,5)] by (simp add: en2_def on_breaker_def set_controller_def)
  define en4 where "en4 = (en2\<lparr>en_lifecycle := m'\<rparr>)\<lparr>en_landing := en_landing en\<rparr>"
  have "call_step sha (Reply (Op_value (Some pl)) ev) cc (Running a) en = handle_value sha ev (Some pl) a cc en" by (simp add: call_step_def)
  also have "\<dots> = handle_exception ev (conflict_text ?key) None a cc en4"
    unfolding handle_value_def Let_def en2_def[symmetric] m_def[symmetric] mm prod.case sum.case
    using assms(2) l by (simp add: landing_error_text_def en4_def)
  finally have eq: "call_step sha (Reply (Op_value (Some pl)) ev) cc (Running a) en = handle_exception ev (conflict_text ?key) None a cc en4" .
  show ?thesis
    unfolding eq using assms(6)
      failure_effect(1,3)[OF assms(1), of "\<lambda>_ _. ee_db ev" "cc_connector_id cc" "ee_clock ev" "cc_capability cc" _ "''SYSTEM_CONNECTOR''" "en_lifecycle en4"]
    by (auto simp: handle_exception_def Let_def split_beta release_slot_def set_controller_def was_degraded_def failure_record_def)
qed

definition landed_engine :: engine where
  "landed_engine = fresh_engine\<lparr>en_landing := demo_service\<lparr>ls_store :=
     \<lparr> os_files = [([''tenants'', ''t1'', ''landings'', ''c1'', ''collect_usage'', ''run-1'', ''page_1.json''], ''[1]'')], os_dirs = [] \<rparr>\<rparr>\<rparr>"

theorem landing_conflict_blamed_on_provider_witness:
  "\<exists>verbatim plain. fst (call_step rev (Reply (Op_value (Some (demo_payload ''[2]''))) demo_exec_env) (demo_call\<lparr>cc_land_payload := True\<rparr>) (Running 0) landed_engine)
     = Finished (Inl (ProviderRawErrorException ''aws'' ''collect_usage'' verbatim plain))"
proof -
  let ?cc = "demo_call\<lparr>cc_land_payload := True\<rparr>"
  have "get_object ''t1'' (relative_key ''c1'' ''collect_usage'' ''run-1'' 1) (ls_store (en_landing landed_engine)) = Inr ''[1]''"
    and "\<not> is_throttled (conflict_text (relative_key ''c1'' ''collect_usage'' ''run-1'' 1))"
    by code_simp+
  then show ?thesis
    using landing_conflict_blamed_on_provider[of ?cc landed_engine "''[1]''" "demo_payload ''[2]''" "''[2]''" 0 rev demo_exec_env]
    by (simp add: demo_call_def demo_payload_def)
qed

end
