(* ===== verification/Paginated_Sync.thy ===== *)
theory Paginated_Sync
  imports Connector_Executor
begin

text \<open>
  Checkpointed pagination: \<open>SqlCheckpointStore\<close> (\<open>connectors/contract/checkpoint_store.py\<close>) and
  \<open>execute_paginated_capability\<close> (\<open>connectors/contract/executor.py\<close>).

  The checkpoint table is its list of rows. Each page goes through \<open>execute_capability\<close>; what that call answers to
  the pagination parameters (the provider's page or the error of the guarded call) is one element of the script a run consumes,
  together with the clock, the fresh identifier and the state of the database for the checkpoint that follows. A script that
  ends before the loop does is a worker that was killed.
\<close>

section \<open>Checkpoint store\<close>

record checkpoint =
  ck_id :: string
  ck_tenant_id :: string
  ck_job_id :: string
  ck_connector_id :: string
  ck_capability :: string
  ck_continuation_token :: "string option"
  ck_page_number :: int
  ck_records_ingested :: int
  ck_last_record_id :: "string option"
  ck_status :: string
  ck_created_at :: int
  ck_updated_at :: int

datatype checkpoint_error = CkMissingTenantContext | PaginationCheckpointException int | CkDatabaseError

record chk_env =
  ce_id :: string
  ce_now :: int
  ce_db_ok :: bool
  ce_require_realdb :: bool

definition same_job :: "string \<Rightarrow> string \<Rightarrow> string \<Rightarrow> checkpoint \<Rightarrow> bool" where
  "same_job tenant job cap r \<longleftrightarrow> ck_tenant_id r = tenant \<and> ck_job_id r = job \<and> ck_capability r = cap"

text \<open>\<open>INSERT ... ON CONFLICT (id) DO UPDATE\<close>: the connector and the creation time of an existing row stay.\<close>

definition upsert :: "checkpoint \<Rightarrow> checkpoint list \<Rightarrow> checkpoint list" where
  "upsert c rows =
     (if ck_id c \<in> ck_id ` set rows
      then map (\<lambda>r. if ck_id r = ck_id c
                    then r\<lparr>ck_continuation_token := ck_continuation_token c, ck_page_number := ck_page_number c,
                           ck_records_ingested := ck_records_ingested c, ck_last_record_id := ck_last_record_id c,
                           ck_status := ck_status c, ck_updated_at := ck_updated_at c\<rparr> else r) rows
      else rows @ [c])"

definition save_with_session :: "chk_env \<Rightarrow> string \<Rightarrow> string \<Rightarrow> string \<Rightarrow> string \<Rightarrow> string option \<Rightarrow> int \<Rightarrow> int \<Rightarrow> string option \<Rightarrow> string
    \<Rightarrow> checkpoint list \<Rightarrow> checkpoint \<times> checkpoint list" where
  "save_with_session env tenant job cid cap token page records last_id status rows =
     (let row = find (same_job tenant job cap) rows;
          c = \<lparr> ck_id = (case row of Some r \<Rightarrow> ck_id r | None \<Rightarrow> ce_id env), ck_tenant_id = tenant, ck_job_id = job,
                ck_connector_id = cid, ck_capability = cap, ck_continuation_token = token, ck_page_number = page,
                ck_records_ingested = records, ck_last_record_id = last_id, ck_status = status,
                ck_created_at = (case row of Some r \<Rightarrow> ck_created_at r | None \<Rightarrow> ce_now env), ck_updated_at = ce_now env \<rparr>
      in (c, upsert c rows))"

text \<open>Outside the production configuration a failing database is skipped: the checkpoint is returned and nothing is stored.\<close>

definition save_checkpoint :: "chk_env \<Rightarrow> string \<Rightarrow> string \<Rightarrow> string \<Rightarrow> string \<Rightarrow> string option \<Rightarrow> int \<Rightarrow> int \<Rightarrow> string option \<Rightarrow> string
    \<Rightarrow> checkpoint list \<Rightarrow> (checkpoint_error + checkpoint) \<times> checkpoint list" where
  "save_checkpoint env tenant job cid cap token page records last_id status rows =
     (if tenant = [] then (Inl CkMissingTenantContext, rows)
      else if page < 1 then (Inl (PaginationCheckpointException page), rows)
      else if ce_db_ok env
      then (case save_with_session env tenant job cid cap token page records last_id status rows of (c, rows') \<Rightarrow> (Inr c, rows'))
      else if ce_require_realdb env then (Inl CkDatabaseError, rows)
      else (Inr \<lparr> ck_id = ce_id env, ck_tenant_id = tenant, ck_job_id = job, ck_connector_id = cid, ck_capability = cap,
                  ck_continuation_token = token, ck_page_number = page, ck_records_ingested = records,
                  ck_last_record_id = last_id, ck_status = status, ck_created_at = ce_now env, ck_updated_at = ce_now env \<rparr>, rows))"

definition get_latest_checkpoint :: "chk_env \<Rightarrow> string \<Rightarrow> string \<Rightarrow> string \<Rightarrow> checkpoint list \<Rightarrow> checkpoint_error + checkpoint option" where
  "get_latest_checkpoint env tenant job cap rows =
     (if tenant = [] then Inl CkMissingTenantContext
      else if ce_db_ok env then Inr (find (same_job tenant job cap) rows)
      else if ce_require_realdb env then Inl CkDatabaseError
      else Inr None)"

definition mark_completed :: "chk_env \<Rightarrow> string \<Rightarrow> string \<Rightarrow> string \<Rightarrow> int \<Rightarrow> checkpoint list \<Rightarrow> (checkpoint_error + checkpoint) \<times> checkpoint list" where
  "mark_completed env tenant job cap total_records rows =
     (case get_latest_checkpoint env tenant job cap rows of
        Inl e \<Rightarrow> (Inl e, rows)
      | Inr existing \<Rightarrow>
          save_checkpoint env tenant job (case existing of Some r \<Rightarrow> ck_connector_id r | None \<Rightarrow> ''unknown'') cap None
            (case existing of Some r \<Rightarrow> ck_page_number r | None \<Rightarrow> 1) total_records None ''COMPLETED'' rows)"

section \<open>Paginated calls\<close>

record pagination_params =
  pp_page_size :: int
  pp_continuation_token :: "string option"
  pp_page_number :: int

datatype 'a page_result = PagedResult "'a list" "string option" bool | PlainResult "'a list"

datatype pg_error =
    PgMissingTenantContext
  | PgValidationError
  | PgExec exec_error
  | PgCheckpoint checkpoint_error
  | InterruptedError int

datatype 'a pg_outcome = Returned "'a list" | Raises pg_error | Killed

record sync_job =
  sj_tenant_id :: string
  sj_connector_id :: string
  sj_capability :: string
  sj_job_id :: string
  sj_page_size :: int
  sj_max_pages :: "int option"
  sj_kill_after_page :: "int option"

type_synonym 'a page_call = "(pagination_params \<Rightarrow> exec_error + 'a page_result) \<times> chk_env"

fun page_items :: "'a page_result \<Rightarrow> 'a list" where
  "page_items (PagedResult items token tr) = items"
| "page_items (PlainResult items) = items"

fun next_token :: "'a page_result \<Rightarrow> string option" where
  "next_token (PagedResult items token tr) = token"
| "next_token (PlainResult items) = None"

fun is_truncated :: "'a page_result \<Rightarrow> bool" where
  "is_truncated (PagedResult items token tr) = tr"
| "is_truncated (PlainResult items) = False"

definition valid_params :: "pagination_params \<Rightarrow> bool" where
  "valid_params p \<longleftrightarrow> 1 \<le> pp_page_size p \<and> pp_page_size p \<le> 1000 \<and> 1 \<le> pp_page_number p"

text \<open>The loop, with the pages whose checkpoint was stored as the last component of its result.\<close>

fun sync_loop :: "sync_job \<Rightarrow> 'a page_call list \<Rightarrow> string option \<Rightarrow> int \<Rightarrow> int \<Rightarrow> 'a list \<Rightarrow> int \<Rightarrow> checkpoint list
    \<Rightarrow> 'a pg_outcome \<times> checkpoint list \<times> 'a list list" where
  "sync_loop j [] token page records acc executed rows = (Killed, rows, [])"
| "sync_loop j ((call, env) # calls) token page records acc executed rows =
     (let p = \<lparr> pp_page_size = sj_page_size j, pp_continuation_token = token, pp_page_number = page \<rparr> in
      if \<not> valid_params p then (Raises PgValidationError, rows, [])
      else case call p of
        Inl e \<Rightarrow> (Raises (PgExec e), rows, [])
      | Inr res \<Rightarrow>
          let items = page_items res; records' = records + int (length items); tok = next_token res; tr = is_truncated res in
          case save_checkpoint env (sj_tenant_id j) (sj_job_id j) (sj_connector_id j) (sj_capability j) (if tr then tok else None)
                 page records' None (if tr then ''IN_PROGRESS'' else ''COMPLETED'') rows of
            (Inl e, rows') \<Rightarrow> (Raises (PgCheckpoint e), rows', [])
          | (Inr c, rows') \<Rightarrow>
              if sj_kill_after_page j = Some page then (Raises (InterruptedError page), rows', [items])
              else if \<not> tr \<or> \<not> truthy tok then (Returned (acc @ items), rows', [items])
              else if (case sj_max_pages j of Some mx \<Rightarrow> mx \<noteq> 0 \<and> mx \<le> executed + 1 | None \<Rightarrow> False)
              then (Returned (acc @ items), rows', [items])
              else (case sync_loop j calls tok (page + 1) records' (acc @ items) (executed + 1) rows' of
                      (out, rows'', done_pages) \<Rightarrow> (out, rows'', items # done_pages)))"

definition resume_point :: "checkpoint option \<Rightarrow> string option \<times> int \<times> int" where
  "resume_point chk =
     (case chk of
        Some c \<Rightarrow> if ck_status c = ''IN_PROGRESS'' \<and> truthy (ck_continuation_token c)
                  then (ck_continuation_token c, ck_page_number c + 1, ck_records_ingested c) else (None, 1, 0)
      | None \<Rightarrow> (None, 1, 0))"

definition execute_paginated_capability :: "sync_job \<Rightarrow> chk_env \<Rightarrow> 'a page_call list \<Rightarrow> checkpoint list
    \<Rightarrow> 'a pg_outcome \<times> checkpoint list \<times> 'a list list" where
  "execute_paginated_capability j env calls rows =
     (if sj_tenant_id j = [] then (Raises PgMissingTenantContext, rows, [])
      else case get_latest_checkpoint env (sj_tenant_id j) (sj_job_id j) (sj_capability j) rows of
             Inl e \<Rightarrow> (Raises (PgCheckpoint e), rows, [])
           | Inr latest_chk \<Rightarrow>
               (case resume_point latest_chk of (token, page, records) \<Rightarrow> sync_loop j calls token page records [] 0 rows))"

section \<open>The checkpoint of a job\<close>

definition job_row :: "sync_job \<Rightarrow> checkpoint list \<Rightarrow> checkpoint option" where
  "job_row j rows = find (same_job (sj_tenant_id j) (sj_job_id j) (sj_capability j)) rows"

text \<open>A stored checkpoint is found again; the rows of the other jobs are unchanged.\<close>

lemma save_checkpoint_row:
  fixes page records :: int
  assumes "sj_tenant_id j \<noteq> []" and "1 \<le> page" and "ce_db_ok env"
    and "job_row j rows = None \<Longrightarrow> ce_id env \<notin> ck_id ` set rows"
  shows "\<exists>c rows' r. save_checkpoint env (sj_tenant_id j) (sj_job_id j) (sj_connector_id j) (sj_capability j) tok page records lid st rows = (Inr c, rows')
    \<and> job_row j rows' = Some r \<and> ck_continuation_token r = tok \<and> ck_page_number r = page \<and> ck_records_ingested r = records \<and> ck_status r = st
    \<and> ck_id ` set rows' \<subseteq> insert (ce_id env) (ck_id ` set rows)"
proof -
  define c where "c = fst (save_with_session env (sj_tenant_id j) (sj_job_id j) (sj_connector_id j) (sj_capability j) tok page records lid st rows)"
  have c: "ck_continuation_token c = tok" "ck_page_number c = page" "ck_records_ingested c = records" "ck_status c = st"
    "same_job (sj_tenant_id j) (sj_job_id j) (sj_capability j) c"
    by (simp_all add: c_def save_with_session_def Let_def same_job_def)
  have id: "ck_id c = (case job_row j rows of Some r \<Rightarrow> ck_id r | None \<Rightarrow> ce_id env)"
    by (simp add: c_def save_with_session_def Let_def job_row_def)
  have save: "save_checkpoint env (sj_tenant_id j) (sj_job_id j) (sj_connector_id j) (sj_capability j) tok page records lid st rows = (Inr c, upsert c rows)"
    using assms(1-3) by (simp add: save_checkpoint_def c_def save_with_session_def Let_def)
  show ?thesis
  proof (cases "job_row j rows")
    case None
    then have fresh: "ck_id c \<notin> ck_id ` set rows" using assms(4) id by simp
    then have "job_row j (upsert c rows) = Some c" using None c(5) by (simp add: upsert_def job_row_def find_append)
    with save c fresh id None show ?thesis by (auto simp: upsert_def)
  next
    case (Some r)
    then have mem: "r \<in> set rows" unfolding job_row_def by (metis find_SomeD)
    with id Some have "ck_id c \<in> ck_id ` set rows" by simp
    then have u: "upsert c rows = map (\<lambda>r. if ck_id r = ck_id c
        then r\<lparr>ck_continuation_token := tok, ck_page_number := page, ck_records_ingested := records, ck_last_record_id := ck_last_record_id c,
               ck_status := st, ck_updated_at := ck_updated_at c\<rparr> else r) rows"
      by (simp add: upsert_def c)
    have "job_row j (upsert c rows) = map_option (\<lambda>r. if ck_id r = ck_id c
        then r\<lparr>ck_continuation_token := tok, ck_page_number := page, ck_records_ingested := records, ck_last_record_id := ck_last_record_id c,
               ck_status := st, ck_updated_at := ck_updated_at c\<rparr> else r) (job_row j rows)"
      unfolding job_row_def u by (rule find_map_same) (simp add: same_job_def)
    moreover have "ck_id ` set (upsert c rows) = ck_id ` set rows" unfolding u set_map image_image by (rule image_cong) auto
    ultimately show ?thesis using save Some id by auto
  qed
qed

section \<open>A provider that serves a chain of pages\<close>

fun is_chain :: "(string option \<Rightarrow> 'a page_result) \<Rightarrow> string option \<Rightarrow> 'a list list \<Rightarrow> bool" where
  "is_chain f tok [] \<longleftrightarrow> False"
| "is_chain f tok (p # ps) \<longleftrightarrow> page_items (f tok) = p
     \<and> (if ps = [] then \<not> is_truncated (f tok)
        else is_truncated (f tok) \<and> truthy (next_token (f tok)) \<and> is_chain f (next_token (f tok)) ps)"

text \<open>
  A guarded call either fails, for whatever reason, or answers with the page of the token. The identifiers
  for new checkpoints are fresh and the database works.
\<close>

definition honest :: "(string option \<Rightarrow> 'a page_result) \<Rightarrow> sync_job \<Rightarrow> checkpoint list \<Rightarrow> 'a page_call list \<Rightarrow> bool" where
  "honest f j rows calls \<longleftrightarrow> (\<forall>(call, env) \<in> set calls. ce_db_ok env \<and> (job_row j rows = None \<longrightarrow> ce_id env \<notin> ck_id ` set rows)
     \<and> (\<forall>p. isl (call p) \<or> call p = Inr (f (pp_continuation_token p))))"

definition records_of :: "'a list list \<Rightarrow> int" where
  "records_of ps = int (length (concat ps))"

text \<open>The first \<open>k\<close> pages of the chain are checkpointed, and the checkpoint says so.\<close>

definition progress :: "(string option \<Rightarrow> 'a page_result) \<Rightarrow> 'a list list \<Rightarrow> sync_job \<Rightarrow> checkpoint list \<Rightarrow> nat \<Rightarrow> bool" where
  "progress f pages j rows k \<longleftrightarrow>
     (case job_row j rows of
        None \<Rightarrow> k = 0
      | Some c \<Rightarrow> 0 < k \<and> k \<le> length pages \<and> ck_page_number c = int k \<and> ck_records_ingested c = records_of (take k pages)
          \<and> (if k < length pages
             then ck_status c = ''IN_PROGRESS'' \<and> truthy (ck_continuation_token c) \<and> is_chain f (ck_continuation_token c) (drop k pages)
             else ck_status c = ''COMPLETED''))"

lemma records_of_take: "k < length pages \<Longrightarrow> records_of (take (Suc k) pages) = records_of (take k pages) + int (length (pages ! k))"
  by (simp add: records_of_def take_Suc_conv_app_nth)

lemma chain_step:
  assumes "is_chain f token (drop k pages)"
  shows "k < length pages" and "drop k pages = pages ! k # drop (Suc k) pages" and "page_items (f token) = pages ! k"
    and "drop (Suc k) pages = [] \<Longrightarrow> \<not> is_truncated (f token)"
    and "drop (Suc k) pages \<noteq> [] \<Longrightarrow> is_truncated (f token) \<and> truthy (next_token (f token)) \<and> is_chain f (next_token (f token)) (drop (Suc k) pages)"
proof -
  show lt: "k < length pages" using assms by (metis drop_all is_chain.simps(1) not_le)
  then show dk: "drop k pages = pages ! k # drop (Suc k) pages" by (rule Cons_nth_drop_Suc[symmetric])
  show "page_items (f token) = pages ! k" "drop (Suc k) pages = [] \<Longrightarrow> \<not> is_truncated (f token)"
    "drop (Suc k) pages \<noteq> [] \<Longrightarrow> is_truncated (f token) \<and> truthy (next_token (f token)) \<and> is_chain f (next_token (f token)) (drop (Suc k) pages)"
    using assms unfolding dk by auto
qed

text \<open>One page: it is checkpointed, and the loop goes on with the next token or ends.\<close>

lemma sync_loop_page:
  assumes chain: "is_chain f token (drop k pages)" and "sj_tenant_id j \<noteq> []" and page: "page = int k + 1" and records: "records = records_of (take k pages)"
    and env: "ce_db_ok env" "job_row j rows = None \<Longrightarrow> ce_id env \<notin> ck_id ` set rows"
    and valid: "valid_params \<lparr> pp_page_size = sj_page_size j, pp_continuation_token = token, pp_page_number = page \<rparr>"
    and call: "call \<lparr> pp_page_size = sj_page_size j, pp_continuation_token = token, pp_page_number = page \<rparr> = Inr (f token)"
  shows "\<exists>rows1. sync_loop j ((call, env) # calls) token page records acc executed rows =
      (if sj_kill_after_page j = Some page then (Raises (InterruptedError page), rows1, [pages ! k])
       else if drop (Suc k) pages = [] \<or> (case sj_max_pages j of Some mx \<Rightarrow> mx \<noteq> 0 \<and> mx \<le> executed + 1 | None \<Rightarrow> False)
       then (Returned (acc @ pages ! k), rows1, [pages ! k])
       else (case sync_loop j calls (next_token (f token)) (int (Suc k) + 1) (records_of (take (Suc k) pages)) (acc @ pages ! k) (executed + 1) rows1 of
               (out, rows'', done_pages) \<Rightarrow> (out, rows'', pages ! k # done_pages)))
    \<and> progress f pages j rows1 (Suc k) \<and> job_row j rows1 \<noteq> None"
proof -
  note step = chain_step[OF chain]
  define res where "res = f token"
  let ?rec = "records + int (length (page_items res))"
  have rec: "?rec = records_of (take (Suc k) pages)" using records step(1,3) by (simp add: records_of_take res_def)
  obtain c rows1 r where save: "save_checkpoint env (sj_tenant_id j) (sj_job_id j) (sj_connector_id j) (sj_capability j)
        (if is_truncated res then next_token res else None) page ?rec None (if is_truncated res then ''IN_PROGRESS'' else ''COMPLETED'') rows = (Inr c, rows1)"
    and r: "job_row j rows1 = Some r" "ck_continuation_token r = (if is_truncated res then next_token res else None)" "ck_page_number r = page"
      "ck_records_ingested r = ?rec" "ck_status r = (if is_truncated res then ''IN_PROGRESS'' else ''COMPLETED'')"
    using save_checkpoint_row[of j page env rows "if is_truncated res then next_token res else None" ?rec None
        "if is_truncated res then ''IN_PROGRESS'' else ''COMPLETED''"] assms(2) page env by auto
  have prog: "progress f pages j rows1 (Suc k)" using r rec page step(1,4,5) by (auto simp: progress_def res_def)
  have loop: "sync_loop j ((call, env) # calls) token page records acc executed rows =
      (if sj_kill_after_page j = Some page then (Raises (InterruptedError page), rows1, [page_items res])
       else if \<not> is_truncated res \<or> \<not> truthy (next_token res) then (Returned (acc @ page_items res), rows1, [page_items res])
       else if (case sj_max_pages j of Some mx \<Rightarrow> mx \<noteq> 0 \<and> mx \<le> executed + 1 | None \<Rightarrow> False)
       then (Returned (acc @ page_items res), rows1, [page_items res])
       else (case sync_loop j calls (next_token res) (page + 1) ?rec (acc @ page_items res) (executed + 1) rows1 of
               (out, rows'', done_pages) \<Rightarrow> (out, rows'', page_items res # done_pages)))"
    unfolding sync_loop.simps Let_def call res_def[symmetric] using valid by (simp add: save)
  have last: "\<not> is_truncated res \<or> \<not> truthy (next_token res) \<longleftrightarrow> drop (Suc k) pages = []" using step(4,5) by (auto simp: res_def)
  have next_page: "page + 1 = int (Suc k) + 1" using page by simp
  show ?thesis
    unfolding loop rec last next_page unfolding res_def using prog r(1)
    by (intro exI[of _ rows1]) (simp add: step(3))
qed

lemma sync_loop_progress:
  fixes calls :: "'a page_call list"
  assumes "is_chain f token (drop k pages)" and "progress f pages j rows k" and "honest f j rows calls" and "sj_tenant_id j \<noteq> []"
    and "page = int k + 1" and "records = records_of (take k pages)"
    and "sync_loop j calls token page records acc executed rows = (out, rows', done_pages)"
  shows "\<exists>k' \<ge> k. k' \<le> length pages \<and> done_pages = take (k' - k) (drop k pages) \<and> progress f pages j rows' k'
    \<and> (\<forall>items. out = Returned items \<longrightarrow> items = acc @ concat done_pages)"
  using assms
proof (induction calls arbitrary: token k page records acc executed rows out rows' done_pages)
  case Nil
  with chain_step(1)[OF Nil.prems(1)] show ?case by (intro exI[of _ k]) auto
next
  case (Cons ce calls)
  obtain call env where ce: "ce = (call, env)" by (cases ce)
  let ?p = "\<lparr> pp_page_size = sj_page_size j, pp_continuation_token = token, pp_page_number = page \<rparr>"
  note step = chain_step[OF Cons.prems(1)]
  show ?case
  proof (cases "valid_params ?p \<and> \<not> isl (call ?p)")
    case False
    then have "\<exists>e. sync_loop j (ce # calls) token page records acc executed rows = (Raises e, rows, [])"
      unfolding ce sync_loop.simps Let_def by (cases "call ?p") auto
    with Cons.prems(2,7) step(1) show ?thesis by (intro exI[of _ k]) auto
  next
    case True
    then have env: "ce_db_ok env" "job_row j rows = None \<Longrightarrow> ce_id env \<notin> ck_id ` set rows" and call: "call ?p = Inr (f token)"
      using Cons.prems(3) ce by (auto simp: honest_def)
    obtain rows1 where loop: "sync_loop j (ce # calls) token page records acc executed rows =
        (if sj_kill_after_page j = Some page then (Raises (InterruptedError page), rows1, [pages ! k])
         else if drop (Suc k) pages = [] \<or> (case sj_max_pages j of Some mx \<Rightarrow> mx \<noteq> 0 \<and> mx \<le> executed + 1 | None \<Rightarrow> False)
         then (Returned (acc @ pages ! k), rows1, [pages ! k])
         else (case sync_loop j calls (next_token (f token)) (int (Suc k) + 1) (records_of (take (Suc k) pages)) (acc @ pages ! k) (executed + 1) rows1 of
                 (out, rows'', done_pages) \<Rightarrow> (out, rows'', pages ! k # done_pages)))"
      and prog: "progress f pages j rows1 (Suc k)" and row: "job_row j rows1 \<noteq> None"
      using sync_loop_page[where call = call, OF Cons.prems(1,4,5,6) env conjunct1[OF True] call] unfolding ce by blast
    show ?thesis
    proof (cases "sj_kill_after_page j = Some page \<or> drop (Suc k) pages = [] \<or> (case sj_max_pages j of Some mx \<Rightarrow> mx \<noteq> 0 \<and> mx \<le> executed + 1 | None \<Rightarrow> False)")
      case True
      then have "rows' = rows1" "done_pages = [pages ! k]" "\<forall>items. out = Returned items \<longrightarrow> items = acc @ pages ! k"
        using Cons.prems(7) loop by (auto split: if_splits)
      with step prog show ?thesis by (intro exI[of _ "Suc k"]) auto
    next
      case go: False
      obtain out1 rows2 done1 where rest: "sync_loop j calls (next_token (f token)) (int (Suc k) + 1) (records_of (take (Suc k) pages)) (acc @ pages ! k) (executed + 1) rows1
          = (out1, rows2, done1)" by (metis prod_cases3)
      with Cons.prems(7) go loop have eqs: "out = out1" "rows' = rows2" "done_pages = pages ! k # done1" by auto
      have hon: "honest f j rows1 calls" using Cons.prems(3) row by (auto simp: honest_def)
      obtain k' where k': "Suc k \<le> k'" "k' \<le> length pages" "done1 = take (k' - Suc k) (drop (Suc k) pages)" "progress f pages j rows2 k'"
        "\<forall>items. out1 = Returned items \<longrightarrow> items = (acc @ pages ! k) @ concat done1"
        using Cons.IH[OF _ prog hon Cons.prems(4) refl refl rest] step(5) go by blast
      have "pages ! k # done1 = take (k' - k) (drop k pages)" using k'(1,3) by (simp add: step(2) Suc_diff_Suc[symmetric])
      then have "done_pages = take (k' - k) (drop k pages)" using eqs(3) by simp
      moreover have "\<forall>items. out = Returned items \<longrightarrow> items = acc @ concat done_pages" using k'(5) eqs(1,3) by simp
      ultimately show ?thesis using k' eqs(2) by (intro exI[of _ k']) auto
    qed
  qed
qed

lemma progress_resume:
  assumes "progress f pages j rows k" and "is_chain f None pages" and "k < length pages"
  shows "\<exists>token. resume_point (job_row j rows) = (token, int k + 1, records_of (take k pages)) \<and> is_chain f token (drop k pages)"
  using assms by (auto simp: progress_def resume_point_def records_of_def split: option.splits)

lemma run_progress:
  assumes "progress f pages j rows k" and "is_chain f None pages" and "k < length pages" and "honest f j rows calls" and "ce_db_ok env" and "sj_tenant_id j \<noteq> []"
    and "execute_paginated_capability j env calls rows = (out, rows', done_pages)"
  shows "\<exists>k' \<ge> k. k' \<le> length pages \<and> done_pages = take (k' - k) (drop k pages) \<and> progress f pages j rows' k'
    \<and> (\<forall>items. out = Returned items \<longrightarrow> items = concat done_pages)"
proof -
  obtain token where t: "resume_point (job_row j rows) = (token, int k + 1, records_of (take k pages))" "is_chain f token (drop k pages)"
    using progress_resume[OF assms(1-3)] by blast
  have "sync_loop j calls token (int k + 1) (records_of (take k pages)) [] 0 rows = (out, rows', done_pages)"
    using assms(5-7) t(1) by (simp add: execute_paginated_capability_def get_latest_checkpoint_def job_row_def)
  from sync_loop_progress[OF t(2) assms(1,4,6) refl refl this] show ?thesis by simp
qed

section \<open>Interrupted jobs\<close>

text \<open>
  A job is run again and again, with its own limits each time, until its checkpoint says it is complete; the pages
  stored by the runs are listed in order.
\<close>

definition job_completed :: "sync_job \<Rightarrow> checkpoint list \<Rightarrow> bool" where
  "job_completed j rows \<longleftrightarrow> (case job_row j rows of Some c \<Rightarrow> ck_status c = ''COMPLETED'' | None \<Rightarrow> False)"

type_synonym 'a job_run = "int option \<times> int option \<times> chk_env \<times> 'a page_call list"

fun run_job :: "sync_job \<Rightarrow> 'a job_run list \<Rightarrow> checkpoint list \<Rightarrow> checkpoint list \<times> 'a list list" where
  "run_job j [] rows = (rows, [])"
| "run_job j ((mx, kill, env, calls) # runs) rows =
     (if job_completed j rows then (rows, [])
      else case execute_paginated_capability (j\<lparr>sj_max_pages := mx, sj_kill_after_page := kill\<rparr>) env calls rows of
             (out, rows', ps) \<Rightarrow> (case run_job j runs rows' of (rows'', qs) \<Rightarrow> (rows'', ps @ qs)))"

text \<open>The replies of every run are honest: an identifier of a run is not the identifier of any other job's row.\<close>

definition honest_runs :: "(string option \<Rightarrow> 'a page_result) \<Rightarrow> string set \<Rightarrow> 'a job_run list \<Rightarrow> bool" where
  "honest_runs f used runs \<longleftrightarrow> (\<forall>(mx, kill, env, calls) \<in> set runs. ce_db_ok env \<and>
     (\<forall>(call, e) \<in> set calls. ce_db_ok e \<and> ce_id e \<notin> used \<and> (\<forall>p. isl (call p) \<or> call p = Inr (f (pp_continuation_token p)))))"

lemma save_error_keeps: "save_checkpoint env t jb c cap tok pg rec lid st rows = (Inl e, rows') \<Longrightarrow> rows' = rows"
  by (auto simp: save_checkpoint_def split: if_splits prod.splits)

lemma no_page_no_change:
  assumes "execute_paginated_capability j env calls rows = (out, rows', [])" shows "rows' = rows"
proof -
  have "rows' = rows" if "sync_loop j calls token page records acc ex rows = (out, rows', [])" for token page records acc ex
    using that by (cases calls) (auto simp: Let_def dest: save_error_keeps split: if_splits sum.splits prod.splits)
  then show ?thesis using assms
    by (auto simp: execute_paginated_capability_def split: if_splits sum.splits prod.splits)
qed

lemma job_row_limits [simp]: "job_row (j\<lparr>sj_max_pages := mx, sj_kill_after_page := kill\<rparr>) rows = job_row j rows"
  by (simp add: job_row_def)

lemma progress_limits [simp]: "progress f pages (j\<lparr>sj_max_pages := mx, sj_kill_after_page := kill\<rparr>) rows k = progress f pages j rows k"
  by (simp add: progress_def)

lemma run_job_progress:
  assumes "is_chain f None pages" and "sj_tenant_id j \<noteq> []" and "honest_runs f used runs"
    and "progress f pages j rows k" and "job_row j rows = None \<Longrightarrow> ck_id ` set rows \<subseteq> used" and "run_job j runs rows = (rows', ps)"
  shows "\<exists>k' \<ge> k. k' \<le> length pages \<and> ps = take (k' - k) (drop k pages) \<and> progress f pages j rows' k'"
  using assms
proof (induction runs arbitrary: rows k rows' ps)
  case Nil
  have "k \<le> length pages" using Nil.prems(4) by (auto simp: progress_def split: option.splits)
  with Nil.prems show ?case by (intro exI[of _ k]) auto
next
  case (Cons run runs)
  obtain mx kill env calls where run: "run = (mx, kill, env, calls)" by (cases run)
  let ?j = "j\<lparr>sj_max_pages := mx, sj_kill_after_page := kill\<rparr>"
  have kle: "k \<le> length pages" using Cons.prems(4) by (auto simp: progress_def split: option.splits)
  show ?case
  proof (cases "job_completed j rows")
    case True
    with Cons.prems run kle show ?thesis by (intro exI[of _ k]) auto
  next
    case False
    have lt: "k < length pages"
      using Cons.prems(1,4) False kle by (cases pages) (auto simp: progress_def job_completed_def split: option.splits if_splits)
    obtain out rows1 p1 where ex: "execute_paginated_capability ?j env calls rows = (out, rows1, p1)" by (metis prod_cases3)
    obtain rows2 p2 where rest: "run_job j runs rows1 = (rows2, p2)" by fastforce
    have eqs: "rows' = rows2" "ps = p1 @ p2" using Cons.prems(6) False ex rest by (auto simp: run)
    have hon: "honest f ?j rows calls" "ce_db_ok env" "honest_runs f used runs"
      using Cons.prems(3,5) by (auto simp: run honest_runs_def honest_def)
    obtain k1 where k1: "k \<le> k1" "k1 \<le> length pages" "p1 = take (k1 - k) (drop k pages)" "progress f pages j rows1 k1"
      using run_progress[of f pages ?j rows k calls env out rows1 p1] Cons.prems(1,2,4) lt hon ex by auto
    have ids: "ck_id ` set rows1 \<subseteq> used" if none: "job_row j rows1 = None"
    proof -
      have "k1 = 0" using k1(4) none by (simp add: progress_def)
      then have "p1 = []" using k1(3) by simp
      then have "rows1 = rows" using no_page_no_change ex by blast
      with none Cons.prems(5) show ?thesis by simp
    qed
    obtain k2 where k2: "k1 \<le> k2" "k2 \<le> length pages" "p2 = take (k2 - k1) (drop k1 pages)" "progress f pages j rows2 k2"
      using Cons.IH[OF Cons.prems(1,2) hon(3) k1(4) ids rest] by blast
    have "take (k1 - k) (drop k pages) @ take (k2 - k1) (drop k1 pages) = take (k2 - k) (drop k pages)"
      using k1(1) k2(1) take_add[of "k1 - k" "k2 - k1" "drop k pages"] by simp
    with k1 k2 eqs show ?thesis by (intro exI[of _ k2]) auto
  qed
qed

text \<open>
  C4. Exactly once: a job over a provider that serves a chain of pages is run again after every interruption (a failed guarded
  call, a page limit, a kill before or after a checkpoint). The pages checkpointed by all the runs together are always the first pages of the chain, in order, none twice and none
  missing, and once the checkpoint says COMPLETED they are all of them and it counts their records.
\<close>

theorem interrupted_job_exactly_once:
  assumes "is_chain f None pages" and "sj_tenant_id j \<noteq> []" and "job_row j rows = None" and "honest_runs f (ck_id ` set rows) runs"
    and "run_job j runs rows = (rows', ps)"
  shows "prefix ps pages
    \<and> (case job_row j rows' of
         None \<Rightarrow> ps = []
       | Some c \<Rightarrow> ck_page_number c = int (length ps) \<and> ck_records_ingested c = int (length (concat ps))
           \<and> (ck_status c = ''COMPLETED'' \<longleftrightarrow> ps = pages))"
proof -
  have "progress f pages j rows 0" using assms(3) by (simp add: progress_def)
  then obtain k where k: "k \<le> length pages" "ps = take k pages" "progress f pages j rows' k"
    using run_job_progress[OF assms(1,2,4) _ _ assms(5), of 0] by auto
  moreover have "take k pages = pages \<longleftrightarrow> k = length pages" using k(1) by (metis length_take min.absorb2 take_all order_refl)
  ultimately show ?thesis
    by (auto simp: progress_def records_of_def take_is_prefix split: option.splits if_splits)
qed

definition demo_serve :: "string option \<Rightarrow> nat page_result" where
  "demo_serve tok = (if tok = None then PagedResult [1, 2] (Some ''t2'') True else PagedResult [3] None False)"

definition demo_job :: sync_job where
  "demo_job = \<lparr> sj_tenant_id = ''t1'', sj_connector_id = ''c1'', sj_capability = ''collect_usage'', sj_job_id = ''job'', sj_page_size = 100,
     sj_max_pages = None, sj_kill_after_page = None \<rparr>"

definition demo_chk_env :: chk_env where
  "demo_chk_env = \<lparr> ce_id = ''chk-1'', ce_now = 0, ce_db_ok = True, ce_require_realdb = True \<rparr>"

definition demo_replies :: "nat page_call list" where
  "demo_replies = replicate 2 (\<lambda>p. Inr (demo_serve (pp_continuation_token p)), demo_chk_env)"

definition demo_runs :: "nat job_run list" where
  "demo_runs = [(None, Some 1, demo_chk_env, demo_replies), (None, None, demo_chk_env, demo_replies)]"

lemma demo_chain: "is_chain demo_serve None [[1, 2], [3]]"
  by (simp add: demo_serve_def)

lemma demo_honest: "honest_runs demo_serve {} demo_runs"
  by (auto simp: honest_runs_def demo_runs_def demo_replies_def demo_chk_env_def)

theorem interrupted_job_exactly_once_witness:
  "snd (run_job demo_job demo_runs []) = [[1, 2], [3]]
   \<and> (\<exists>c. job_row demo_job (fst (run_job demo_job demo_runs [])) = Some c \<and> ck_records_ingested c = 3 \<and> ck_status c = ''COMPLETED'')"
proof -
  have run: "snd (run_job demo_job demo_runs []) = [[1, 2], [3]]" by code_simp
  have "sj_tenant_id demo_job \<noteq> []" by (simp add: demo_job_def)
  then show ?thesis
    using interrupted_job_exactly_once[OF demo_chain _ _ _ prod.collapse[symmetric], of demo_job "[]" demo_runs] demo_honest run
    by (auto simp: job_row_def split: option.splits)
qed

section \<open>Completion\<close>

text \<open>A guarded call that answers.\<close>

definition serves :: "(string option \<Rightarrow> 'a page_result) \<Rightarrow> 'a page_call \<Rightarrow> bool" where
  "serves f ce \<longleftrightarrow> (\<forall>p. fst ce p = Inr (f (pp_continuation_token p)))"

lemma sync_loop_completes:
  assumes "is_chain f token (drop k pages)" and "progress f pages j rows k" and "honest f j rows calls" and "sj_tenant_id j \<noteq> []"
    and "page = int k + 1" and "records = records_of (take k pages)"
    and "1 \<le> sj_page_size j" "sj_page_size j \<le> 1000" "sj_max_pages j = None" "sj_kill_after_page j = None"
    and "\<forall>ce \<in> set calls. serves f ce" and "length pages - k \<le> length calls"
  shows "\<exists>rows'. sync_loop j calls token page records acc executed rows = (Returned (acc @ concat (drop k pages)), rows', drop k pages)"
  using assms
proof (induction calls arbitrary: token k page records acc executed rows)
  case Nil
  then show ?case by (metis diff_is_0_eq drop_all is_chain.simps(1) le_zero_eq list.size(3))
next
  case (Cons ce calls)
  obtain call env where ce: "ce = (call, env)" by (cases ce)
  let ?p = "\<lparr> pp_page_size = sj_page_size j, pp_continuation_token = token, pp_page_number = page \<rparr>"
  note step = chain_step[OF Cons.prems(1)]
  have valid: "valid_params ?p" using Cons.prems(5,7,8) by (simp add: valid_params_def)
  have call: "call ?p = Inr (f token)" using Cons.prems(11) ce by (simp add: serves_def)
  have env: "ce_db_ok env" "job_row j rows = None \<Longrightarrow> ce_id env \<notin> ck_id ` set rows"
    using Cons.prems(3) ce by (auto simp: honest_def)
  obtain rows1 where loop: "sync_loop j (ce # calls) token page records acc executed rows =
      (if drop (Suc k) pages = [] then (Returned (acc @ pages ! k), rows1, [pages ! k])
       else (case sync_loop j calls (next_token (f token)) (int (Suc k) + 1) (records_of (take (Suc k) pages)) (acc @ pages ! k) (executed + 1) rows1 of
               (out, rows'', done_pages) \<Rightarrow> (out, rows'', pages ! k # done_pages)))"
    and prog: "progress f pages j rows1 (Suc k)" and row: "job_row j rows1 \<noteq> None"
    using sync_loop_page[where call = call, OF Cons.prems(1,4,5,6) env valid call, of calls acc executed]
    unfolding ce Cons.prems(9,10) option.case by (auto simp del: sync_loop.simps)
  show ?case
  proof (cases "drop (Suc k) pages = []")
    case True
    with loop step(2) show ?thesis by simp
  next
    case False
    have hon: "honest f j rows1 calls" using Cons.prems(3) row by (auto simp: honest_def)
    have len: "length pages - Suc k \<le> length calls" and serve: "\<forall>ce \<in> set calls. serves f ce" using Cons.prems(11,12) by simp_all
    obtain rows2 where "sync_loop j calls (next_token (f token)) (int (Suc k) + 1) (records_of (take (Suc k) pages)) (acc @ pages ! k) (executed + 1) rows1
        = (Returned ((acc @ pages ! k) @ concat (drop (Suc k) pages)), rows2, drop (Suc k) pages)"
      using Cons.IH[OF _ prog hon Cons.prems(4) refl refl Cons.prems(7-10) serve len, of "next_token (f token)" "acc @ pages ! k" "executed + 1"] step(5) False by blast
    with loop False step(2) show ?thesis by simp
  qed
qed

text \<open>
  C28. An interrupted job can always be finished: after any sequence of interrupted runs, one more run whose guarded calls all answer returns
  exactly the items of the pages that were still missing, and the job is then complete.
\<close>

theorem resumed_job_completes:
  assumes "is_chain f None pages" and "sj_tenant_id j \<noteq> []" and "job_row j rows = None" and "honest_runs f (ck_id ` set rows) runs"
    and "run_job j runs rows = (rows', ps)" and "ps \<noteq> pages"
    and "honest f j rows' calls" and "\<forall>ce \<in> set calls. serves f ce" and "length pages \<le> length calls" and "ce_db_ok env"
    and "1 \<le> sj_page_size j" "sj_page_size j \<le> 1000" "sj_max_pages j = None" "sj_kill_after_page j = None"
  shows "\<exists>rest rows''. pages = ps @ rest \<and> execute_paginated_capability j env calls rows' = (Returned (concat rest), rows'', rest) \<and> job_completed j rows''"
proof -
  have "progress f pages j rows 0" using assms(3) by (simp add: progress_def)
  then obtain k where k: "k \<le> length pages" "ps = take k pages" "progress f pages j rows' k"
    using run_job_progress[OF assms(1,2,4) _ _ assms(5), of 0] by auto
  with assms(6) have lt: "k < length pages" by (metis le_neq_implies_less take_all order_refl)
  obtain token where t: "resume_point (job_row j rows') = (token, int k + 1, records_of (take k pages))" "is_chain f token (drop k pages)"
    using progress_resume[OF k(3) assms(1) lt] by blast
  have "length pages - k \<le> length calls" using assms(9) by simp
  then obtain rows'' where loop: "sync_loop j calls token (int k + 1) (records_of (take k pages)) [] 0 rows' = (Returned (concat (drop k pages)), rows'', drop k pages)"
    using sync_loop_completes[OF t(2) k(3) assms(7,2) refl refl assms(11-14,8), of "[]" 0] by auto
  then have ex: "execute_paginated_capability j env calls rows' = (Returned (concat (drop k pages)), rows'', drop k pages)"
    using assms(2,10) t(1) by (simp add: execute_paginated_capability_def get_latest_checkpoint_def job_row_def)
  obtain k' where k': "k \<le> k'" "k' \<le> length pages" "drop k pages = take (k' - k) (drop k pages)" "progress f pages j rows'' k'"
    using run_progress[OF k(3) assms(1) lt assms(7,10,2) ex] by blast
  have "length (drop k pages) = length (take (k' - k) (drop k pages))" using k'(3) by simp
  then have "k' = length pages" using k'(1,2) lt by simp
  then have "job_completed j rows''" using k'(4) lt by (auto simp: progress_def job_completed_def split: option.splits)
  with ex k(2) show ?thesis by (metis append_take_drop_id)
qed

theorem resumed_job_completes_witness:
  "\<exists>rows''. execute_paginated_capability demo_job demo_chk_env demo_replies (fst (run_job demo_job (take 1 demo_runs) [])) = (Returned [3], rows'', [[3]])
     \<and> job_completed demo_job rows''"
proof -
  let ?rows = "fst (run_job demo_job (take 1 demo_runs) [])"
  have run: "snd (run_job demo_job (take 1 demo_runs) []) = [[1, 2]]" by code_simp
  then have r: "run_job demo_job (take 1 demo_runs) [] = (?rows, [[1, 2]])" by (metis prod.collapse)
  have "job_row demo_job ?rows \<noteq> None" by code_simp
  then have "honest demo_serve demo_job ?rows demo_replies" by (auto simp: honest_def demo_replies_def demo_chk_env_def)
  moreover have "honest_runs demo_serve (ck_id ` set []) (take 1 demo_runs)" using demo_honest by (simp add: honest_runs_def demo_runs_def)
  moreover have "\<forall>ce \<in> set demo_replies. serves demo_serve ce" by (simp add: demo_replies_def serves_def)
  moreover have "length demo_replies = 2" "ce_db_ok demo_chk_env" "sj_tenant_id demo_job \<noteq> []" "1 \<le> sj_page_size demo_job" "sj_page_size demo_job \<le> 1000"
    "sj_max_pages demo_job = None" "sj_kill_after_page demo_job = None" "job_row demo_job [] = None"
    by (simp_all add: demo_replies_def demo_chk_env_def demo_job_def job_row_def)
  ultimately show ?thesis
    using resumed_job_completes[OF demo_chain _ _ _ r, of demo_replies demo_chk_env] by auto
qed

section \<open>Jobs that start over\<close>

text \<open>
  A page that claims more data but carries no continuation token ends the run as if the job were done, without completing it: the items are
  returned, the checkpoint stays IN_PROGRESS without a token, and the next run fetches the first page again.
\<close>

theorem truncated_without_token_restarts:
  assumes "execute_paginated_capability j env [(call, e)] rows = (out, rows', ps)" and "job_row j rows = None"
    and "sj_tenant_id j \<noteq> []" and "ce_db_ok env" "ce_db_ok e" and "ce_id e \<notin> ck_id ` set rows" and "1 \<le> sj_page_size j" "sj_page_size j \<le> 1000"
    and "sj_kill_after_page j = None" and "\<And>p. call p = Inr (PagedResult items token True)" and "\<not> truthy token"
  shows "out = Returned items \<and> \<not> job_completed j rows' \<and> resume_point (job_row j rows') = (None, 1, 0)"
proof -
  obtain c rows1 r where save: "save_checkpoint e (sj_tenant_id j) (sj_job_id j) (sj_connector_id j) (sj_capability j) token 1 (int (length items)) None ''IN_PROGRESS'' rows = (Inr c, rows1)"
    and r: "job_row j rows1 = Some r" "ck_continuation_token r = token" "ck_status r = ''IN_PROGRESS''"
    using save_checkpoint_row[of j 1 e rows token "int (length items)" None "''IN_PROGRESS''"] assms(2-6) by auto
  have "execute_paginated_capability j env [(call, e)] rows = (Returned items, rows1, [items])"
    using assms(2,3,4,7-11) save
    by (simp add: execute_paginated_capability_def get_latest_checkpoint_def resume_point_def job_row_def valid_params_def)
  with assms(1,11) r show ?thesis by (auto simp: job_completed_def resume_point_def)
qed

definition demo_cut_reply :: "nat page_call" where
  "demo_cut_reply = (\<lambda>p. Inr (PagedResult [1, 2] None True), demo_chk_env)"

theorem truncated_without_token_restarts_witness:
  "resume_point (job_row demo_job (fst (snd (execute_paginated_capability demo_job demo_chk_env [demo_cut_reply] [])))) = (None, 1, 0)"
proof -
  obtain out rows' ps where run: "execute_paginated_capability demo_job demo_chk_env [demo_cut_reply] [] = (out, rows', ps)" by (metis prod_cases3)
  then have "execute_paginated_capability demo_job demo_chk_env [(fst demo_cut_reply, demo_chk_env)] [] = (out, rows', ps)"
    by (simp add: demo_cut_reply_def)
  from truncated_without_token_restarts[OF this, of "[1, 2]" None] run show ?thesis
    by (simp add: demo_cut_reply_def demo_chk_env_def demo_job_def job_row_def)
qed

end
