(* ===== verification/Remediation_Models.thy ===== *)
theory Remediation_Models
  imports Workflow_Models Working_Hours
begin

text \<open>
  The data of the remediation loop (\<open>domain/remediation/models.py\<close>), the automated verifier
  (\<open>verifier.py\<close>), the ownership resolver (\<open>assignment.py\<close>) and the inference of the saving method
  (\<open>ledger.py\<close>).

  Instants are microseconds since the epoch. Evidence and simulated entity states are JSON-like values.
  Explanatory texts (descriptions, notes, messages, details) and the identifiers and timestamps of
  history entries are left out: no operation reads them.
\<close>

section \<open>Values\<close>

text \<open>Truthiness, \<open>a or b\<close>, and whether \<open>str(v).strip()\<close> is empty for a true value.\<close>

fun py_truthy :: "py_value \<Rightarrow> bool" where
  "py_truthy PNone = False"
| "py_truthy (PBool b) = b"
| "py_truthy (PInt i) = (i \<noteq> 0)"
| "py_truthy (PFloat x) = (x \<noteq> 0)"
| "py_truthy (PStr s) = (s \<noteq> [])"
| "py_truthy (PList vs) = (vs \<noteq> [])"
| "py_truthy (PDict d) = (d \<noteq> [])"

definition py_or :: "py_value \<Rightarrow> py_value \<Rightarrow> py_value" where
  "py_or a b = (if py_truthy a then a else b)"

fun shows_text :: "py_value \<Rightarrow> bool" where
  "shows_text (PStr s) = (strip s \<noteq> [])"
| "shows_text v = py_truthy v"

datatype rem_error =
    RemMissingTenantContext
  | RemediationTaskNotFoundException string
  | TaskAlreadyClosedException string
  | InvalidTaskTransitionException string
  | MandatoryReasonException string
  | NoResolvableAssigneeException string
  | RemTypeError
  | RemAttributeError
  | RemValueError
  | RemValidationError
  | RemDatabaseError

text \<open>
  Membership: in a set of strings (the value must be hashable), and \<open>x in c\<close> for the containers a JSON
  value can be; what a \<open>for\<close> loop over a value sees.
\<close>

fun in_strings :: "py_value \<Rightarrow> string list \<Rightarrow> rem_error + bool" where
  "in_strings (PList vs) ss = Inl RemTypeError"
| "in_strings (PDict d) ss = Inl RemTypeError"
| "in_strings (PStr s) ss = Inr (s \<in> set ss)"
| "in_strings v ss = Inr False"

fun py_in :: "py_value \<Rightarrow> py_value \<Rightarrow> rem_error + bool" where
  "py_in v (PList vs) = Inr (list_ex (py_eq v) vs)"
| "py_in v (PDict d) = in_strings v (map fst d)"
| "py_in (PStr t) (PStr s) = Inr (sublist t s)"
| "py_in v w = Inl RemTypeError"

fun py_iter :: "py_value \<Rightarrow> rem_error + py_value list" where
  "py_iter (PStr s) = Inr (map (\<lambda>c. PStr [c]) s)"
| "py_iter (PList vs) = Inr vs"
| "py_iter (PDict d) = Inr (map (\<lambda>(k, v). PStr k) d)"
| "py_iter v = Inl RemTypeError"

text \<open>\<open>v.get(k)\<close> on a value that should be a dictionary.\<close>

fun attr_get :: "py_value \<Rightarrow> string \<Rightarrow> rem_error + py_value" where
  "attr_get (PDict d) k = Inr (payload_get d k)"
| "attr_get v k = Inl RemAttributeError"

section \<open>Tasks\<close>

datatype task_state = OPEN | ASSIGNED | IN_PROGRESS | BLOCKED | AWAITING_VERIFICATION | RESOLVED | VERIFIED
  | CLOSED | REJECTED | DEFERRED | DUPLICATE

datatype task_priority = CRITICAL | HIGH | MEDIUM | LOW

datatype task_category = UNOWNED_RESOURCE | TAG_COMPLIANCE | SCHEDULE_BREACH | BUDGET_BREACH | FORECAST_BREACH
  | IDLE_RESOURCE | STALE_CONNECTOR | CREDENTIAL_EXPIRING | RECONCILIATION_VARIANCE | UNKNOWN_SKU
  | UNCLASSIFIED_RESOURCE | MASTERDATA_GAP | CUSTOM

datatype closure_code = FIXED_AND_VERIFIED | FALSE_POSITIVE | RISK_ACCEPTED | DUPLICATE_SUPERSEDED | RESOURCE_TERMINATED

datatype assignment_rule = TECHNICAL_OWNER | SCOPE_OWNER | APPLICATION_OWNER | FALLBACK_QUEUE | MANUAL

datatype saving_method = SCHEDULE_EXCESS_AVOIDANCE | IDLE_TERMINATION_DELTA | RUN_RATE_ELIMINATION | RIGHTSIZING_DIFF
  | DIRECT_ESTIMATE_VERIFIED

record rem_subject =
  su_entity_type :: string
  su_entity_id :: string
  su_entity_name :: string
  su_scope_id :: "string option"
  su_provider :: "string option"
  su_application_id :: "string option"
  su_business_unit_id :: "string option"
  su_cost_centre_id :: "string option"

record rem_history_entry =
  rh_actor_id :: string
  rh_action :: string
  rh_from_state :: task_state
  rh_to_state :: task_state
  rh_reason :: "string option"

text \<open>\<open>RemediationTask\<close>; the source is the value of the \<open>TaskSource\<close> member.\<close>

record rem_task =
  rt_id :: string
  rt_tenant_id :: string
  rt_source :: string
  rt_subject_entity :: rem_subject
  rt_title :: string
  rt_evidence_linkage :: payload
  rt_assignee_id :: string
  rt_assignee_type :: string
  rt_assigning_actor :: string
  rt_assignment_rule :: assignment_rule
  rt_priority :: task_priority
  rt_due_date :: int
  rt_sla_working_hours :: rat
  rt_estimated_saving :: "rat option"
  rt_realised_saving :: "rat option"
  rt_realised_saving_method :: "saving_method option"
  rt_state :: task_state
  rt_category :: task_category
  rt_reason_code :: "string option"
  rt_closure_code :: "closure_code option"
  rt_deferral_expiry :: "int option"
  rt_risk_accepted :: bool
  rt_risk_accepted_expiry :: "int option"
  rt_approval_workflow_id :: "string option"
  rt_alert_id :: "string option"
  rt_finding_id :: "string option"
  rt_itsm_ticket_id :: "string option"
  rt_verification_attempts :: nat
  rt_history :: "rem_history_entry list"
  rt_created_at :: int
  rt_closed_at :: "int option"

text \<open>A missing from or to state is the present one.\<close>

definition rem_add_history :: "string \<Rightarrow> string \<Rightarrow> task_state option \<Rightarrow> task_state option \<Rightarrow> string option \<Rightarrow> rem_task \<Rightarrow> rem_task" where
  "rem_add_history action actor from_state to_state reason t =
     t\<lparr>rt_history := rt_history t @
        [\<lparr> rh_actor_id = actor, rh_action = action, rh_from_state = case_option (rt_state t) id from_state,
           rh_to_state = case_option (rt_state t) id to_state, rh_reason = reason \<rparr>]\<rparr>"

definition is_terminal :: "rem_task \<Rightarrow> bool" where
  "is_terminal t \<longleftrightarrow> rt_state t \<in> {CLOSED, REJECTED, DUPLICATE}"

definition is_overdue :: "int \<Rightarrow> rem_task \<Rightarrow> bool" where
  "is_overdue now t \<longleftrightarrow> (if rt_state t \<in> {CLOSED, REJECTED, DUPLICATE} then False else now > rt_due_date t)"

record saving_entry =
  se_id :: string
  se_tenant_id :: string
  se_task_id :: string
  se_entity_id :: string
  se_category :: task_category
  se_team_id :: string
  se_period :: string
  se_realised_amount :: rat
  se_calculation_method :: saving_method
  se_verified_at :: int
  se_verified_by :: string

record creation_rule =
  cr_code :: string
  cr_source_code :: string
  cr_enabled :: bool
  cr_category :: task_category
  cr_default_priority :: task_priority
  cr_estimated_saving_formula :: "string option"
  cr_default_sla_hours :: int

definition infer_method :: "task_category \<Rightarrow> saving_method" where
  "infer_method c =
     (if c = SCHEDULE_BREACH then SCHEDULE_EXCESS_AVOIDANCE
      else if c = IDLE_RESOURCE then IDLE_TERMINATION_DELTA
      else if c = BUDGET_BREACH then RUN_RATE_ELIMINATION
      else DIRECT_ESTIMATE_VERIFIED)"

section \<open>The verifier\<close>

text \<open>
  \<open>TaskVerifier\<close>: verifiers registered for a category come first, then the simulated state of the entity,
  then the evidence of the task. The answer is \<open>is_cleared\<close>.
\<close>

type_synonym custom_verifier = "rem_task \<Rightarrow> string \<Rightarrow> bool"

record task_verifier =
  tv_custom :: "(task_category, custom_verifier) dict"
  tv_entity_states :: "(string \<times> string \<times> string, payload) dict"

definition register_custom_verifier :: "task_category \<Rightarrow> custom_verifier \<Rightarrow> task_verifier \<Rightarrow> task_verifier" where
  "register_custom_verifier c f v = v\<lparr>tv_custom := dict_set (tv_custom v) c f\<rparr>"

definition set_mock_entity_state :: "string \<Rightarrow> string \<Rightarrow> string \<Rightarrow> payload \<Rightarrow> task_verifier \<Rightarrow> task_verifier" where
  "set_mock_entity_state tenant etype eid st v =
     v\<lparr>tv_entity_states := dict_set (tv_entity_states v) (tenant, etype, eid) st\<rparr>"

definition payload_default :: "payload \<Rightarrow> string \<Rightarrow> py_value \<Rightarrow> py_value" where
  "payload_default p k d = (case dict_get p k of Some v \<Rightarrow> v | None \<Rightarrow> d)"

fun missing_tags :: "py_value list \<Rightarrow> py_value \<Rightarrow> rem_error + py_value list" where
  "missing_tags [] tags = Inr []"
| "missing_tags (t # ts) tags =
     try_bind (py_in t tags) (\<lambda>present. try_bind (missing_tags ts tags) (\<lambda>ms. Inr (if present then ms else t # ms)))"

definition verify_from_mock_state :: "rem_task \<Rightarrow> payload \<Rightarrow> rem_error + bool" where
  "verify_from_mock_state t st =
     (let c = rt_category t in
      if payload_get st ''is_cleared'' = PBool True \<or> payload_get st ''condition_cleared'' = PBool True then Inr True
      else if c = UNOWNED_RESOURCE then
        (let named = py_or (py_or (payload_get st ''owner_id'') (payload_get st ''technical_owner_id'')) (payload_get st ''owner'') in
         try_bind (if py_truthy named then Inr named
                   else attr_get (payload_default st ''tags'' (PDict [])) ''owner'')
           (\<lambda>owner. Inr (py_truthy owner \<and> shows_text owner)))
      else if c = TAG_COMPLIANCE then
        try_bind (py_iter (payload_default (rt_evidence_linkage t) ''required_tags''
                    (PList [PStr ''CostCenter'', PStr ''Environment'', PStr ''Owner''])))
          (\<lambda>required. try_bind (missing_tags required (payload_default st ''tags'' (PDict []))) (\<lambda>missing. Inr (missing = [])))
      else if c = SCHEDULE_BREACH then
        in_strings (payload_default st ''runtime_status'' (PStr ''RUNNING'')) [''STOPPED'', ''DEALLOCATED'', ''TERMINATED'']
      else if c = IDLE_RESOURCE then
        Inr ((case payload_default st ''status'' (PStr []) of
                PStr s \<Rightarrow> upper s \<in> {''STOPPED'', ''TERMINATED'', ''DEALLOCATED'', ''DECOMMISSIONED''} | _ \<Rightarrow> False)
             \<or> payload_get st ''running'' = PBool False \<or> payload_get st ''is_stopped'' = PBool True)
      else if c = STALE_CONNECTOR then Inr (py_truthy (payload_get st ''is_fresh''))
      else Inr False)"

definition verify_evidence :: "rem_task \<Rightarrow> rem_error + bool" where
  "verify_evidence t =
     (let c = rt_category t; ev = rt_evidence_linkage t in
      if payload_get ev ''condition_cleared'' = PBool True then Inr True
      else if c = UNOWNED_RESOURCE then
        (let owner = py_or (payload_get ev ''new_owner_id'') (payload_get ev ''owner_id'') in
         Inr (py_truthy owner \<and> shows_text owner))
      else if c = TAG_COMPLIANCE then
        Inr (py_truthy (payload_get ev ''applied_tags'') \<and> \<not> py_truthy (payload_get ev ''missing_tags''))
      else if c = SCHEDULE_BREACH then
        (if py_truthy (payload_get ev ''is_stopped'') then Inr True
         else in_strings (payload_get ev ''status'') [''STOPPED'', ''DEALLOCATED''])
      else Inr (py_truthy (payload_get ev ''is_simulated_cleared'')))"

definition verify_condition :: "task_verifier \<Rightarrow> string \<Rightarrow> rem_task \<Rightarrow> rem_error + bool" where
  "verify_condition v tenant t =
     (case dict_get (tv_custom v) (rt_category t) of
        Some f \<Rightarrow> Inr (f t tenant)
      | None \<Rightarrow>
          (case dict_get (tv_entity_states v)
                  (tenant, su_entity_type (rt_subject_entity t), su_entity_id (rt_subject_entity t)) of
             Some st \<Rightarrow> verify_from_mock_state t st
           | None \<Rightarrow> verify_evidence t))"

section \<open>The ownership resolver\<close>

definition TECHNICAL_OWNER_TAG_KEYS :: "string list" where
  "TECHNICAL_OWNER_TAG_KEYS = [''technical-owner'', ''technical_owner'', ''owner'', ''owner-email'', ''contact'']"

text \<open>
  \<open>str(v).strip()\<close>; the text of a value that is no string comes with the environment. A resource is given by
  its attributes \<open>technical_owner_id\<close> and \<open>owner_id\<close>, the owner records by their code and attributes
  (\<open>None\<close> when the master data service fails, which is ignored).
\<close>

fun text_of :: "(py_value \<Rightarrow> string) \<Rightarrow> py_value \<Rightarrow> string" where
  "text_of str (PStr s) = s"
| "text_of str v = str v"

definition named_owner :: "py_value \<Rightarrow> rem_error + string option" where
  "named_owner v =
     (if \<not> py_truthy v then Inr None
      else case v of PStr s \<Rightarrow> Inr (if strip s = [] then None else Some (strip s)) | _ \<Rightarrow> Inl RemAttributeError)"

definition tag_owner :: "(py_value \<Rightarrow> string) \<Rightarrow> py_value \<Rightarrow> rem_error + string option" where
  "tag_owner str tags =
     (if \<not> py_truthy tags then Inr None
      else case tags of
        PDict d \<Rightarrow> Inr (map_option (\<lambda>(k, v). strip (text_of str v))
                     (find (\<lambda>(k, v). lower k \<in> set TECHNICAL_OWNER_TAG_KEYS \<and> py_truthy v \<and> strip (text_of str v) \<noteq> []) d))
      | _ \<Rightarrow> Inl RemAttributeError)"

definition resource_owner :: "(py_value \<Rightarrow> string) \<Rightarrow> (py_value \<times> py_value) option \<Rightarrow> string option" where
  "resource_owner str res =
     (case res of None \<Rightarrow> None
      | Some (tech, own) \<Rightarrow>
          (let o1 = py_or tech own in
           if py_truthy o1 \<and> strip (text_of str o1) \<noteq> [] then Some (strip (text_of str o1)) else None))"

definition master_owner :: "(string \<times> payload) list option \<Rightarrow> rem_subject \<Rightarrow> string option" where
  "master_owner records su =
     (case records of None \<Rightarrow> None
      | Some rs \<Rightarrow> map_option fst (find (\<lambda>(code, attrs). payload_get attrs ''role'' = PStr ''TECHNICAL_OWNER'' \<and> code = su_entity_id su) rs))"

definition resolve_assignee :: "(py_value \<Rightarrow> string) \<Rightarrow> (string \<times> payload) list option \<Rightarrow> string \<Rightarrow> rem_subject
    \<Rightarrow> (py_value \<times> py_value) option \<Rightarrow> py_value \<Rightarrow> py_value \<Rightarrow> py_value \<Rightarrow> py_value \<Rightarrow> bool
    \<Rightarrow> rem_error + string \<times> string \<times> assignment_rule" where
  "resolve_assignee str records default_queue su res tags scope_owner app_owner queue_id allow_exception =
     (case resource_owner str res of
        Some w \<Rightarrow> Inr (w, ''USER'', TECHNICAL_OWNER)
      | None \<Rightarrow> try_bind (tag_owner str tags) (\<lambda>tag.
          case tag of Some w \<Rightarrow> Inr (w, ''USER'', TECHNICAL_OWNER)
          | None \<Rightarrow> (case master_owner records su of
              Some w \<Rightarrow> Inr (w, ''TEAM'', TECHNICAL_OWNER)
            | None \<Rightarrow> try_bind (named_owner scope_owner) (\<lambda>sc.
                case sc of Some w \<Rightarrow> Inr (w, ''USER'', SCOPE_OWNER)
                | None \<Rightarrow> try_bind (named_owner app_owner) (\<lambda>ap.
                    case ap of Some w \<Rightarrow> Inr (w, ''USER'', APPLICATION_OWNER)
                    | None \<Rightarrow> try_bind (named_owner (if queue_id = PNone then PStr default_queue else queue_id)) (\<lambda>q.
                        case q of
                          Some w \<Rightarrow> if \<not> allow_exception then Inr (w, ''QUEUE'', FALLBACK_QUEUE)
                                    else Inl (NoResolvableAssigneeException (su_entity_id su))
                        | None \<Rightarrow> Inl (NoResolvableAssigneeException (su_entity_id su))))))))"

end
