(* ===== verification/Remediation.thy ===== *)
theory Remediation
  imports Remediation_Models Audit_Stream
begin

text \<open>
  \<open>SqlRemediationRepository\<close> (\<open>domain/remediation/repository.py\<close>), the ledger of realised savings (\<open>ledger.py\<close>), the
  creation engine (\<open>creator.py\<close>) and \<open>RemediationService\<close> (\<open>service.py\<close>): creation, transitions, the verification loop,
  deferral, risk acceptance, bulk operations and escalation.

  Clock readings, generated identifiers, the answer of the master data service and whether the audit stream and the
  alert service accept a call are arguments. Reading a task gives a fresh copy, so a change is stored only by a save.
\<close>

section \<open>The repository\<close>

text \<open>
  Every save writes the filter columns together with the serialised task, so they are read from the task; only the
  creation time of the row is never rewritten. Row-level security hides the rows of other tenants and makes
  a save fail whose identifier such a row has.
\<close>

record rem_row =
  rr_tenant_id :: string
  rr_created_at :: int
  rr_task :: rem_task

definition rem_get :: "rem_row list \<Rightarrow> string \<Rightarrow> string \<Rightarrow> rem_task option" where
  "rem_get rows tenant i =
     map_option rr_task (find (\<lambda>r. rt_id (rr_task r) = i \<and> rr_tenant_id r = tenant) rows)"

definition rem_save :: "string \<Rightarrow> rem_task \<Rightarrow> rem_row list \<Rightarrow> rem_error + rem_task \<times> rem_row list" where
  "rem_save tenant t0 rows =
     (let t = t0\<lparr>rt_tenant_id := tenant\<rparr> in
      case find (\<lambda>r. rt_id (rr_task r) = rt_id t) rows of
        None \<Rightarrow> Inr (t, rows @ [\<lparr> rr_tenant_id = tenant, rr_created_at = rt_created_at t, rr_task = t \<rparr>])
      | Some r \<Rightarrow>
          if rr_tenant_id r \<noteq> tenant then Inl RemDatabaseError
          else Inr (t, map (\<lambda>r. if rt_id (rr_task r) = rt_id t then r\<lparr>rr_task := t\<rparr> else r) rows))"

record rem_filter =
  rf_state :: "task_state option"
  rf_priority :: "task_priority option"
  rf_category :: "task_category option"
  rf_assignee_id :: "string option"
  rf_source :: "string option"

definition any_task :: rem_filter where
  "any_task = \<lparr> rf_state = None, rf_priority = None, rf_category = None, rf_assignee_id = None, rf_source = None \<rparr>"

definition in_state :: "task_state \<Rightarrow> rem_filter" where
  "in_state st = any_task\<lparr>rf_state := Some st\<rparr>"

definition rem_row_matches :: "string \<Rightarrow> rem_filter \<Rightarrow> rem_row \<Rightarrow> bool" where
  "rem_row_matches tenant f r \<longleftrightarrow> rr_tenant_id r = tenant
     \<and> rf_state f \<in> {None, Some (rt_state (rr_task r))}
     \<and> rf_priority f \<in> {None, Some (rt_priority (rr_task r))}
     \<and> rf_category f \<in> {None, Some (rt_category (rr_task r))}
     \<and> rf_assignee_id f \<in> {None, Some [], Some (rt_assignee_id (rr_task r))}"

text \<open>The source is compared after the limit has been applied.\<close>

definition rem_list :: "rem_row list \<Rightarrow> string \<Rightarrow> rem_filter \<Rightarrow> nat \<Rightarrow> nat \<Rightarrow> rem_task list" where
  "rem_list rows tenant f limit offset =
     filter (\<lambda>t. rf_source f \<in> {None, Some [], Some (rt_source t)})
       (map rr_task (take limit (drop offset (sort_key (\<lambda>r. - rr_created_at r) (filter (rem_row_matches tenant f) rows)))))"

definition rem_delete :: "string \<Rightarrow> string \<Rightarrow> rem_row list \<Rightarrow> bool \<times> rem_row list" where
  "rem_delete tenant i rows =
     (rem_get rows tenant i \<noteq> None, filter (\<lambda>r. \<not> (rt_id (rr_task r) = i \<and> rr_tenant_id r = tenant)) rows)"

definition rem_exists :: "rem_row list \<Rightarrow> string \<Rightarrow> string \<Rightarrow> bool" where
  "rem_exists rows tenant i \<longleftrightarrow> rem_get rows tenant i \<noteq> None"

definition get_by_subject :: "rem_row list \<Rightarrow> string \<Rightarrow> string \<Rightarrow> string \<Rightarrow> rem_task list" where
  "get_by_subject rows tenant etype eid =
     filter (\<lambda>t. su_entity_type (rt_subject_entity t) = etype \<and> su_entity_id (rt_subject_entity t) = eid)
       (rem_list rows tenant any_task 1000 0)"

definition get_by_alert_id :: "rem_row list \<Rightarrow> string \<Rightarrow> string \<Rightarrow> rem_task option" where
  "get_by_alert_id rows tenant i = find (\<lambda>t. rt_alert_id t = Some i) (rem_list rows tenant any_task 1000 0)"

definition get_by_finding_id :: "rem_row list \<Rightarrow> string \<Rightarrow> string \<Rightarrow> rem_task option" where
  "get_by_finding_id rows tenant i = find (\<lambda>t. rt_finding_id t = Some i) (rem_list rows tenant any_task 1000 0)"

definition save_saving_entry :: "string \<Rightarrow> saving_entry \<Rightarrow> saving_entry list \<Rightarrow> rem_error + saving_entry \<times> saving_entry list" where
  "save_saving_entry tenant e0 ledger =
     (let e = e0\<lparr>se_tenant_id := tenant\<rparr> in
      case find (\<lambda>x. se_id x = se_id e) ledger of
        None \<Rightarrow> Inr (e, ledger @ [e])
      | Some x \<Rightarrow>
          if se_tenant_id x \<noteq> tenant then Inl RemDatabaseError
          else Inr (e, map (\<lambda>x. if se_id x = se_id e then e else x) ledger))"

definition list_saving_entries :: "string \<Rightarrow> saving_entry list \<Rightarrow> saving_entry list" where
  "list_saving_entries tenant ledger =
     sort_key (\<lambda>e. - se_verified_at e) (filter (\<lambda>e. se_tenant_id e = tenant) ledger)"

definition get_creation_rule :: "(string \<times> creation_rule) list \<Rightarrow> string \<Rightarrow> string \<Rightarrow> creation_rule option" where
  "get_creation_rule rules tenant source =
     map_option snd (find (\<lambda>(tn, r). tn = tenant \<and> upper (cr_source_code r) = upper source) rules)"

section \<open>The service\<close>

record rem_audit =
  ra_tenant_id :: string
  ra_event_type :: string
  ra_actor :: string
  ra_task_id :: string

text \<open>
  \<open>rs_alert_service\<close>: whether an alert service was passed to the constructor; \<open>rs_resolved_alerts\<close> are the calls
  it accepted.
\<close>

record rem_service =
  rs_tasks :: "rem_row list"
  rs_ledger :: "saving_entry list"
  rs_rules :: "(string \<times> creation_rule) list"
  rs_verifier :: task_verifier
  rs_default_queue :: string
  rs_schedule :: "string \<Rightarrow> work_schedule"
  rs_itsm_enabled :: bool
  rs_alert_service :: bool
  rs_resolved_alerts :: "(string \<times> string) list"
  rs_audit :: "rem_audit list"

record rem_env =
  re_now :: int
  re_month :: string
  re_hex :: string
  re_saving_id :: string
  re_ticket :: string
  re_str :: "py_value \<Rightarrow> string"
  re_float :: "string \<Rightarrow> rat option"
  re_int :: "string \<Rightarrow> int option"
  re_owner_records :: "(string \<times> payload) list option"
  re_rule_records :: "creation_rule list option"
  re_audit_ok :: bool
  re_alert_ok :: bool

type_synonym 'a rem_result = "(rem_error + 'a) \<times> rem_service"

text \<open>The tenant check every operation starts with, reading a task, and saving one.\<close>

definition with_tenant :: "tenant_context option \<Rightarrow> (string \<Rightarrow> rem_service \<Rightarrow> 'a rem_result) \<Rightarrow> rem_service \<Rightarrow> 'a rem_result" where
  "with_tenant ctx f s =
     (case require_tenant_context ctx of Inl e \<Rightarrow> (Inl RemMissingTenantContext, s) | Inr tc \<Rightarrow> f (tc_tenant_id tc) s)"

definition with_task :: "string \<Rightarrow> string \<Rightarrow> (rem_task \<Rightarrow> rem_service \<Rightarrow> 'a rem_result) \<Rightarrow> rem_service \<Rightarrow> 'a rem_result" where
  "with_task tenant i f s =
     (case rem_get (rs_tasks s) tenant i of
        None \<Rightarrow> (Inl (RemediationTaskNotFoundException i), s)
      | Some t \<Rightarrow> f t s)"

definition store :: "string \<Rightarrow> rem_task \<Rightarrow> (rem_task \<Rightarrow> rem_service \<Rightarrow> 'a rem_result) \<Rightarrow> rem_service \<Rightarrow> 'a rem_result" where
  "store tenant t k s =
     (case rem_save tenant t (rs_tasks s) of
        Inl e \<Rightarrow> (Inl e, s)
      | Inr (t', rows) \<Rightarrow> k t' (s\<lparr>rs_tasks := rows\<rparr>))"

definition rem_record_audit :: "rem_env \<Rightarrow> string \<Rightarrow> string \<Rightarrow> string \<Rightarrow> string \<Rightarrow> rem_service \<Rightarrow> rem_service" where
  "rem_record_audit env tenant event actor i s =
     (if re_audit_ok env
      then s\<lparr>rs_audit := rs_audit s @ [\<lparr> ra_tenant_id = tenant, ra_event_type = event, ra_actor = actor, ra_task_id = i \<rparr>]\<rparr>
      else s)"

definition get_task :: "tenant_context option \<Rightarrow> string \<Rightarrow> rem_service \<Rightarrow> rem_task rem_result" where
  "get_task ctx i s = with_tenant ctx (\<lambda>tenant. with_task tenant i (\<lambda>t s. (Inr t, s))) s"

definition list_tasks :: "tenant_context option \<Rightarrow> rem_filter \<Rightarrow> nat \<Rightarrow> nat \<Rightarrow> rem_service \<Rightarrow> rem_task list rem_result" where
  "list_tasks ctx f limit offset s =
     with_tenant ctx (\<lambda>tenant s. (Inr (rem_list (rs_tasks s) tenant f limit offset), s)) s"

text \<open>The background mirror to the ticket system: a failing save is ignored.\<close>

definition try_itsm_mirror :: "rem_env \<Rightarrow> string \<Rightarrow> rem_task \<Rightarrow> rem_service \<Rightarrow> rem_task \<times> rem_service" where
  "try_itsm_mirror env tenant t s =
     (if \<not> rs_itsm_enabled s then (t, s)
      else
        let t1 = t\<lparr>rt_itsm_ticket_id := Some (re_ticket env)\<rparr> in
        case rem_save tenant t1 (rs_tasks s) of Inl e \<Rightarrow> (t1, s) | Inr (t2, rows) \<Rightarrow> (t2, s\<lparr>rs_tasks := rows\<rparr>))"

section \<open>Creation\<close>

record task_create_request =
  tq_source :: string
  tq_subject_entity :: rem_subject
  tq_title :: string
  tq_evidence_linkage :: payload
  tq_category :: task_category
  tq_priority :: task_priority
  tq_assignee_id :: "string option"
  tq_assignee_type :: string
  tq_estimated_saving :: "rat option"
  tq_sla_working_hours :: "rat option"
  tq_alert_id :: "string option"
  tq_finding_id :: "string option"

definition new_task_id :: "rem_env \<Rightarrow> string \<Rightarrow> string" where
  "new_task_id env tenant = ''rem-task-'' @ take 8 tenant @ ''-'' @ re_hex env"

text \<open>The constructor with its defaults; it refuses titles shorter than three characters.\<close>

definition make_task :: "rem_env \<Rightarrow> string \<Rightarrow> string \<Rightarrow> rem_subject \<Rightarrow> string \<Rightarrow> payload \<Rightarrow> string \<times> string \<times> assignment_rule \<Rightarrow> string
    \<Rightarrow> task_priority \<Rightarrow> int \<Rightarrow> rat \<Rightarrow> rat option \<Rightarrow> task_state \<Rightarrow> task_category \<Rightarrow> string option \<Rightarrow> string option \<Rightarrow> rem_error + rem_task" where
  "make_task env tenant source su title evidence assignment actor priority due sla est st cat alert finding =
     (case assignment of (who, kind, rule) \<Rightarrow>
        if length title < 3 then Inl RemValidationError
        else Inr \<lparr> rt_id = new_task_id env tenant, rt_tenant_id = tenant, rt_source = source, rt_subject_entity = su,
          rt_title = title, rt_evidence_linkage = evidence, rt_assignee_id = who, rt_assignee_type = kind,
          rt_assigning_actor = actor, rt_assignment_rule = rule, rt_priority = priority, rt_due_date = due,
          rt_sla_working_hours = sla, rt_estimated_saving = est, rt_realised_saving = None,
          rt_realised_saving_method = None, rt_state = st, rt_category = cat, rt_reason_code = None,
          rt_closure_code = None, rt_deferral_expiry = None, rt_risk_accepted = False,
          rt_risk_accepted_expiry = None, rt_approval_workflow_id = None, rt_alert_id = alert,
          rt_finding_id = finding, rt_itsm_ticket_id = None, rt_verification_attempts = 0, rt_history = [],
          rt_created_at = re_now env, rt_closed_at = None \<rparr>)"

definition create_task :: "rem_env \<Rightarrow> tenant_context option \<Rightarrow> task_create_request \<Rightarrow> string \<Rightarrow> rem_service \<Rightarrow> rem_task rem_result" where
  "create_task env ctx q actor s =
     with_tenant ctx (\<lambda>tenant s.
       let assignment = (if truthy (tq_assignee_id q) then Inr (the (tq_assignee_id q), tq_assignee_type q, MANUAL)
             else resolve_assignee (re_str env) (re_owner_records env) (rs_default_queue s) (tq_subject_entity q) None
                    (payload_get (tq_evidence_linkage q) ''tags'') PNone PNone PNone False);
           sla = (case tq_sla_working_hours q of Some h \<Rightarrow> if h = 0 then 48 else h | None \<Rightarrow> 48);
           due = calculate_due_date (rs_schedule s tenant) (re_now env) (trunc sla)
       in case try_bind assignment (\<lambda>a. make_task env tenant (tq_source q) (tq_subject_entity q) (tq_title q)
                 (tq_evidence_linkage q) a actor (tq_priority q) due sla (tq_estimated_saving q)
                 (if fst a \<noteq> [] then ASSIGNED else OPEN) (tq_category q) (tq_alert_id q) (tq_finding_id q)) of
            Inl e \<Rightarrow> (Inl e, s)
          | Inr t \<Rightarrow>
              store tenant (rem_add_history ''CREATED'' actor None (Some (rt_state t)) None t) (\<lambda>saved s.
                let (t2, s2) = try_itsm_mirror env tenant saved
                                 (rem_record_audit env tenant ''REMEDIATION_TASK_CREATED'' actor (rt_id saved) s)
                in (Inr t2, s2)) s) s"

text \<open>
  \<open>create_from_source\<close>. The rule of the tenant comes first, then the first master-data record of the source. Each
  conversion either gives a value or the error that leaves the call.
\<close>

definition lookup_creation_rule :: "rem_env \<Rightarrow> string \<Rightarrow> string \<Rightarrow> rem_service \<Rightarrow> creation_rule option" where
  "lookup_creation_rule env tenant source s =
     (case get_creation_rule (rs_rules s) tenant source of
        Some r \<Rightarrow> Some r
      | None \<Rightarrow> (case re_rule_records env of None \<Rightarrow> None | Some rs \<Rightarrow> find (\<lambda>r. cr_source_code r = source) rs))"

definition float_or_none :: "rem_env \<Rightarrow> py_value \<Rightarrow> rat option" where
  "float_or_none env v =
     (if v = PNone then None else case py_float (re_float env) v of Inr x \<Rightarrow> Some x | Inl e \<Rightarrow> None)"

definition estimate_saving :: "rem_env \<Rightarrow> creation_rule \<Rightarrow> payload \<Rightarrow> payload \<Rightarrow> rat option" where
  "estimate_saving env r data evidence =
     (let first = (if truthy (cr_estimated_saving_formula r)
                   then let k = the (cr_estimated_saving_formula r) in float_or_none env (py_or (payload_get data k) (payload_get evidence k))
                   else None)
      in case first of
           Some x \<Rightarrow> Some x
         | None \<Rightarrow> float_or_none env (py_or (py_or (payload_get data ''excess_cost'') (payload_get data ''estimated_saving''))
                     (payload_get evidence ''excess_cost'')))"

fun py_int :: "(string \<Rightarrow> int option) \<Rightarrow> py_value \<Rightarrow> rem_error + int" where
  "py_int parse (PBool b) = Inr (of_bool b)"
| "py_int parse (PInt i) = Inr i"
| "py_int parse (PFloat x) = Inr (trunc x)"
| "py_int parse (PStr s) = (case parse s of Some i \<Rightarrow> Inr i | None \<Rightarrow> Inl RemValueError)"
| "py_int parse v = Inl RemTypeError"

definition priority_of :: "py_value \<Rightarrow> task_priority \<Rightarrow> rem_error + task_priority" where
  "priority_of v d =
     (if \<not> py_truthy v then Inr d
      else case v of
        PStr s \<Rightarrow> if s = ''CRITICAL'' then Inr CRITICAL else if s = ''HIGH'' then Inr HIGH
                  else if s = ''MEDIUM'' then Inr MEDIUM else if s = ''LOW'' then Inr LOW else Inl RemValueError
      | _ \<Rightarrow> Inl RemValidationError)"

fun optional_text :: "py_value \<Rightarrow> rem_error + string option" where
  "optional_text PNone = Inr None"
| "optional_text (PStr s) = Inr (Some s)"
| "optional_text v = Inl RemValidationError"

text \<open>\<open>category.value.replace('_', ' ').title()\<close>\<close>

fun category_title :: "task_category \<Rightarrow> string" where
  "category_title UNOWNED_RESOURCE = ''Unowned Resource''"
| "category_title TAG_COMPLIANCE = ''Tag Compliance''"
| "category_title SCHEDULE_BREACH = ''Schedule Breach''"
| "category_title BUDGET_BREACH = ''Budget Breach''"
| "category_title FORECAST_BREACH = ''Forecast Breach''"
| "category_title IDLE_RESOURCE = ''Idle Resource''"
| "category_title STALE_CONNECTOR = ''Stale Connector''"
| "category_title CREDENTIAL_EXPIRING = ''Credential Expiring''"
| "category_title RECONCILIATION_VARIANCE = ''Reconciliation Variance''"
| "category_title UNKNOWN_SKU = ''Unknown Sku''"
| "category_title UNCLASSIFIED_RESOURCE = ''Unclassified Resource''"
| "category_title MASTERDATA_GAP = ''Masterdata Gap''"
| "category_title CUSTOM = ''Custom''"

definition task_title :: "rem_env \<Rightarrow> creation_rule \<Rightarrow> rem_subject \<Rightarrow> payload \<Rightarrow> string" where
  "task_title env r su data =
     (let v = payload_get data ''title'' in
      if py_truthy v then text_of (re_str env) v
      else ''Remediate '' @ category_title (cr_category r) @ '': '' @ (if su_entity_name su \<noteq> [] then su_entity_name su else su_entity_id su))"

definition build_task :: "rem_env \<Rightarrow> string \<Rightarrow> string \<Rightarrow> rem_subject \<Rightarrow> payload \<Rightarrow> payload \<Rightarrow> creation_rule \<Rightarrow> rem_service \<Rightarrow> rem_error + rem_task" where
  "build_task env tenant source su evidence data r s =
     try_bind (resolve_assignee (re_str env) (re_owner_records env) (rs_default_queue s) su
         (if payload_get data ''resource'' = PNone then None else Some (PNone, PNone))
         (py_or (payload_get data ''tags'') (payload_get evidence ''tags''))
         (py_or (payload_get data ''scope_owner_id'') (payload_get evidence ''scope_owner_id''))
         (py_or (payload_get data ''app_owner_id'') (payload_get evidence ''app_owner_id''))
         (payload_get data ''fallback_queue_id'') False) (\<lambda>a.
     try_bind (py_int (re_int env) (py_or (payload_get data ''sla_working_hours'') (PInt (cr_default_sla_hours r)))) (\<lambda>sla.
     try_bind (priority_of (payload_get data ''priority'') (cr_default_priority r)) (\<lambda>prio.
     try_bind (optional_text (payload_get data ''alert_id'')) (\<lambda>alert.
     try_bind (optional_text (payload_get data ''finding_id'')) (\<lambda>finding.
       make_task env tenant source su (task_title env r su data) evidence a ''SYSTEM_CREATION_ENGINE'' prio
         (calculate_due_date (rs_schedule s tenant) (re_now env) sla) (fl (of_int sla)) (estimate_saving env r data evidence)
         OPEN (cr_category r) alert finding)))))"

definition create_from_source :: "rem_env \<Rightarrow> tenant_context option \<Rightarrow> string \<Rightarrow> rem_subject \<Rightarrow> payload \<Rightarrow> payload \<Rightarrow> rem_service
    \<Rightarrow> rem_task option rem_result" where
  "create_from_source env ctx source su evidence data s =
     with_tenant ctx (\<lambda>tenant s.
       case lookup_creation_rule env tenant source s of
         None \<Rightarrow> (Inr None, s)
       | Some r \<Rightarrow>
           if \<not> cr_enabled r then (Inr None, s)
           else case build_task env tenant source su evidence data r s of
             Inl e \<Rightarrow> (Inl e, s)
           | Inr t \<Rightarrow>
               store tenant
                 (rem_add_history ''ASSIGNED'' ''system-assignment-engine'' (Some OPEN) (Some ASSIGNED) None
                   ((rem_add_history ''CREATED'' ''system-task-engine'' None (Some OPEN) None t)\<lparr>rt_state := ASSIGNED\<rparr>))
                 (\<lambda>saved s.
                   let (t2, s2) = try_itsm_mirror env tenant saved
                         (rem_record_audit env tenant ''REMEDIATION_TASK_CREATED'' ''SYSTEM_CREATION_ENGINE'' (rt_id saved) s)
                   in (Inr (Some t2), s2)) s) s"

section \<open>Transitions and assignment\<close>

fun VALID_TRANSITIONS :: "task_state \<Rightarrow> task_state list" where
  "VALID_TRANSITIONS OPEN = [ASSIGNED, IN_PROGRESS, DEFERRED, DUPLICATE, REJECTED]"
| "VALID_TRANSITIONS ASSIGNED = [IN_PROGRESS, BLOCKED, AWAITING_VERIFICATION, RESOLVED, DEFERRED, DUPLICATE, REJECTED]"
| "VALID_TRANSITIONS IN_PROGRESS = [BLOCKED, AWAITING_VERIFICATION, RESOLVED, DEFERRED, DUPLICATE]"
| "VALID_TRANSITIONS BLOCKED = [IN_PROGRESS, AWAITING_VERIFICATION, RESOLVED, DEFERRED]"
| "VALID_TRANSITIONS AWAITING_VERIFICATION = [VERIFIED, CLOSED, OPEN]"
| "VALID_TRANSITIONS RESOLVED = [AWAITING_VERIFICATION, VERIFIED, CLOSED, OPEN]"
| "VALID_TRANSITIONS VERIFIED = [CLOSED]"
| "VALID_TRANSITIONS DEFERRED = [OPEN, IN_PROGRESS]"
| "VALID_TRANSITIONS CLOSED = [OPEN]"
| "VALID_TRANSITIONS REJECTED = []"
| "VALID_TRANSITIONS DUPLICATE = []"

definition rem_transition_state :: "rem_env \<Rightarrow> tenant_context option \<Rightarrow> string \<Rightarrow> task_state \<Rightarrow> string \<Rightarrow> string option \<Rightarrow> rem_service
    \<Rightarrow> rem_task rem_result" where
  "rem_transition_state env ctx i to_state actor reason s =
     with_tenant ctx (\<lambda>tenant. with_task tenant i (\<lambda>t s.
       if is_terminal t \<and> to_state \<noteq> OPEN then (Inl (TaskAlreadyClosedException i), s)
       else if to_state \<notin> set (VALID_TRANSITIONS (rt_state t)) then (Inl (InvalidTaskTransitionException i), s)
       else if to_state \<in> {VERIFIED, CLOSED} \<and> rt_state t \<notin> {AWAITING_VERIFICATION, RESOLVED, VERIFIED}
       then (Inl (InvalidTaskTransitionException i), s)
       else store tenant
              (rem_add_history ''STATUS_CHANGED'' actor (Some (rt_state t)) (Some to_state) reason
                (t\<lparr>rt_state := to_state, rt_reason_code := or_else reason (rt_reason_code t)\<rparr>))
              (\<lambda>saved s. (Inr saved, rem_record_audit env tenant ''REMEDIATION_TASK_STATUS_CHANGED'' actor (rt_id saved) s)) s)) s"

definition assign_task :: "rem_env \<Rightarrow> tenant_context option \<Rightarrow> string \<Rightarrow> string \<Rightarrow> string \<Rightarrow> string \<Rightarrow> string option \<Rightarrow> rem_service
    \<Rightarrow> rem_task rem_result" where
  "assign_task env ctx i assignee kind actor reason s =
     with_tenant ctx (\<lambda>tenant. with_task tenant i (\<lambda>t s.
       if is_terminal t then (Inl (TaskAlreadyClosedException i), s)
       else
         let st = (if rt_state t = OPEN then ASSIGNED else rt_state t) in
         store tenant
           (rem_add_history ''ASSIGNED'' actor (Some (rt_state t)) (Some st) reason
             (t\<lparr>rt_assignee_id := assignee, rt_assignee_type := kind, rt_assigning_actor := actor, rt_state := st\<rparr>))
           (\<lambda>saved s. (Inr saved, rem_record_audit env tenant ''REMEDIATION_TASK_ASSIGNED'' actor (rt_id saved) s)) s)) s"

section \<open>Verification and closure\<close>

definition saving_team :: "rem_task \<Rightarrow> string" where
  "saving_team t =
     (if rt_assignee_type t = ''TEAM'' \<and> rt_assignee_id t \<noteq> [] then rt_assignee_id t
      else the (or_else (su_business_unit_id (rt_subject_entity t)) (or_else (su_cost_centre_id (rt_subject_entity t))
             (or_else (Some (rt_assignee_id t)) (Some ''enterprise-finops'')))))"

definition saving_entry_of :: "rem_env \<Rightarrow> string \<Rightarrow> rat \<Rightarrow> saving_method \<Rightarrow> string \<Rightarrow> rem_task \<Rightarrow> saving_entry" where
  "saving_entry_of env tenant amount method verified_by t =
     \<lparr> se_id = re_saving_id env, se_tenant_id = tenant, se_task_id = rt_id t, se_entity_id = su_entity_id (rt_subject_entity t),
       se_category = rt_category t, se_team_id = saving_team t, se_period = re_month env,
       se_realised_amount = py_round 2 amount, se_calculation_method = method, se_verified_at = re_now env,
       se_verified_by = (if verified_by \<noteq> [] then verified_by else ''system-verifier'') \<rparr>"

text \<open>\<open>record_saving\<close> as the closure calls it: the entry is saved and copied into the task.\<close>

definition record_saving :: "rem_env \<Rightarrow> string \<Rightarrow> rat \<Rightarrow> saving_method \<Rightarrow> string \<Rightarrow> rem_task \<Rightarrow> rem_service \<Rightarrow> (rem_error + rem_task) \<times> rem_service" where
  "record_saving env tenant amount method verified_by t s =
     (case save_saving_entry tenant (saving_entry_of env tenant amount method verified_by t) (rs_ledger s) of
        Inl e \<Rightarrow> (Inl e, s)
      | Inr (saved, ledger) \<Rightarrow>
          (Inr (t\<lparr>rt_realised_saving := Some (se_realised_amount saved), rt_realised_saving_method := Some (se_calculation_method saved)\<rparr>),
           s\<lparr>rs_ledger := ledger\<rparr>))"

definition resolve_linked_alert :: "rem_env \<Rightarrow> string \<Rightarrow> rem_task \<Rightarrow> rem_service \<Rightarrow> rem_service" where
  "resolve_linked_alert env tenant t s =
     (if truthy (rt_alert_id t) \<and> rs_alert_service s \<and> re_alert_ok env
      then s\<lparr>rs_resolved_alerts := rs_resolved_alerts s @ [(tenant, the (rt_alert_id t))]\<rparr> else s)"

definition close_verified :: "rem_env \<Rightarrow> string \<Rightarrow> string \<Rightarrow> rem_task \<Rightarrow> rem_service \<Rightarrow> (rem_task \<times> bool) rem_result" where
  "close_verified env tenant actor t0 s =
     (let t = rem_add_history ''VERIFIED_AND_CLOSED'' actor (Some (rt_state t0)) (Some CLOSED) None
                (t0\<lparr>rt_state := CLOSED, rt_closure_code := Some FIXED_AND_VERIFIED, rt_closed_at := Some (re_now env)\<rparr>);
          amount = (case rt_estimated_saving t of Some x \<Rightarrow> x | None \<Rightarrow> 0);
          (res, s1) = (if amount > 0
             then case record_saving env tenant amount (infer_method (rt_category t)) actor t s of
                    (Inl e, s1) \<Rightarrow> (Inl e, s1)
                  | (Inr t1, s1) \<Rightarrow> (Inr t1, rem_record_audit env tenant ''REMEDIATION_SAVING_REALISED'' actor (rt_id t) s1)
             else (Inr t, s))
      in case res of
           Inl e \<Rightarrow> (Inl e, s1)
         | Inr t1 \<Rightarrow>
             store tenant t1 (\<lambda>saved s.
               (Inr (saved, True),
                rem_record_audit env tenant ''REMEDIATION_TASK_CLOSED'' actor (rt_id saved)
                  (rem_record_audit env tenant ''REMEDIATION_TASK_VERIFIED'' actor (rt_id saved) s)))
             (resolve_linked_alert env tenant t1 s1))"

definition reopen_unverified :: "rem_env \<Rightarrow> string \<Rightarrow> rem_task \<Rightarrow> rem_service \<Rightarrow> (rem_task \<times> bool) rem_result" where
  "reopen_unverified env tenant t s =
     store tenant (rem_add_history ''VERIFICATION_FAILED_REOPENED'' ''system-verifier'' (Some (rt_state t)) (Some OPEN) None
                     (t\<lparr>rt_state := OPEN\<rparr>))
       (\<lambda>saved s. (Inr (saved, False), rem_record_audit env tenant ''REMEDIATION_TASK_REOPENED'' ''system-verifier'' (rt_id saved) s)) s"

definition verify_task :: "rem_env \<Rightarrow> tenant_context option \<Rightarrow> string \<Rightarrow> string \<Rightarrow> rem_service \<Rightarrow> (rem_task \<times> bool) rem_result" where
  "verify_task env ctx i actor s =
     with_tenant ctx (\<lambda>tenant. with_task tenant i (\<lambda>t s.
       let t1 = t\<lparr>rt_verification_attempts := rt_verification_attempts t + 1\<rparr> in
       case verify_condition (rs_verifier s) tenant t1 of
         Inl e \<Rightarrow> (Inl e, s)
       | Inr cleared \<Rightarrow> if cleared then close_verified env tenant actor t1 s else reopen_unverified env tenant t1 s)) s"

definition resolve_task :: "rem_env \<Rightarrow> tenant_context option \<Rightarrow> string \<Rightarrow> string \<Rightarrow> rem_service \<Rightarrow> (rem_task \<times> bool) rem_result" where
  "resolve_task env ctx i actor s =
     with_tenant ctx (\<lambda>tenant. with_task tenant i (\<lambda>t s.
       if is_terminal t then (Inl (TaskAlreadyClosedException i), s)
       else store tenant
              (rem_add_history ''RESOLVED_PENDING_VERIFICATION'' actor (Some (rt_state t)) (Some AWAITING_VERIFICATION) None
                (t\<lparr>rt_state := AWAITING_VERIFICATION\<rparr>))
              (\<lambda>saved s. verify_task env ctx i actor (rem_record_audit env tenant ''REMEDIATION_TASK_RESOLVED'' actor (rt_id saved) s)) s)) s"

section \<open>Deferral and risk acceptance\<close>

definition defer_task :: "rem_env \<Rightarrow> tenant_context option \<Rightarrow> string \<Rightarrow> string \<Rightarrow> string \<Rightarrow> int \<Rightarrow> string option \<Rightarrow> rem_service
    \<Rightarrow> rem_task rem_result" where
  "defer_task env ctx i actor reason expiry workflow s =
     with_tenant ctx (\<lambda>tenant. with_task tenant i (\<lambda>t s.
       if is_terminal t then (Inl (TaskAlreadyClosedException i), s)
       else if strip reason = [] then (Inl (MandatoryReasonException ''deferral''), s)
       else if expiry \<le> re_now env then (Inl (MandatoryReasonException ''Deferral expiry must be a future timestamp.''), s)
       else store tenant
              (rem_add_history ''DEFERRED'' actor (Some (rt_state t)) (Some DEFERRED) (Some (strip reason))
                (t\<lparr>rt_state := DEFERRED, rt_reason_code := Some (strip reason), rt_deferral_expiry := Some expiry,
                   rt_approval_workflow_id := workflow\<rparr>))
              (\<lambda>saved s. (Inr saved, rem_record_audit env tenant ''REMEDIATION_TASK_DEFERRED'' actor (rt_id saved) s)) s)) s"

definition accept_risk :: "rem_env \<Rightarrow> tenant_context option \<Rightarrow> string \<Rightarrow> string \<Rightarrow> string \<Rightarrow> int \<Rightarrow> rem_service \<Rightarrow> rem_task rem_result" where
  "accept_risk env ctx i actor reason expiry s =
     with_tenant ctx (\<lambda>tenant. with_task tenant i (\<lambda>t s.
       if strip reason = [] then (Inl (MandatoryReasonException ''risk_acceptance''), s)
       else store tenant
              (rem_add_history ''RISK_ACCEPTED'' actor (Some (rt_state t)) (Some CLOSED) (Some (strip reason))
                (t\<lparr>rt_state := CLOSED, rt_closure_code := Some RISK_ACCEPTED, rt_closed_at := Some (re_now env),
                   rt_risk_accepted := True, rt_risk_accepted_expiry := Some expiry, rt_reason_code := Some (strip reason)\<rparr>))
              (\<lambda>saved s. (Inr saved, rem_record_audit env tenant ''REMEDIATION_TASK_RISK_ACCEPTED'' actor (rt_id saved) s)) s)) s"

text \<open>A loop over tasks that collects what its body gives and stops at an error.\<close>

fun each_task :: "(rem_task \<Rightarrow> rem_service \<Rightarrow> rem_task list rem_result) \<Rightarrow> rem_task list \<Rightarrow> rem_service \<Rightarrow> rem_task list rem_result" where
  "each_task f [] s = (Inr [], s)"
| "each_task f (t # ts) s =
     (case f t s of
        (Inl e, s1) \<Rightarrow> (Inl e, s1)
      | (Inr xs, s1) \<Rightarrow> (case each_task f ts s1 of (Inl e, s2) \<Rightarrow> (Inl e, s2) | (Inr ys, s2) \<Rightarrow> (Inr (xs @ ys), s2)))"

definition reopen_expired :: "rem_env \<Rightarrow> string \<Rightarrow> int \<Rightarrow> rem_task \<Rightarrow> rem_service \<Rightarrow> rem_task list rem_result" where
  "reopen_expired env tenant now t s =
     (if (case rt_deferral_expiry t of Some x \<Rightarrow> x \<le> now | None \<Rightarrow> False)
      then store tenant
             (rem_add_history ''DEFERRAL_EXPIRED_REOPENED'' ''system-deferral-scheduler'' (Some DEFERRED) (Some OPEN) None
               (t\<lparr>rt_state := OPEN, rt_deferral_expiry := None\<rparr>))
             (\<lambda>saved s. (Inr [saved], rem_record_audit env tenant ''REMEDIATION_TASK_REOPENED'' ''system-deferral-scheduler'' (rt_id saved) s)) s
      else (Inr [], s))"

definition check_expired_deferrals :: "rem_env \<Rightarrow> tenant_context option \<Rightarrow> int option \<Rightarrow> rem_service \<Rightarrow> rem_task list rem_result" where
  "check_expired_deferrals env ctx now s =
     with_tenant ctx (\<lambda>tenant s.
       each_task (reopen_expired env tenant (case now of Some t \<Rightarrow> t | None \<Rightarrow> re_now env))
         (rem_list (rs_tasks s) tenant (in_state DEFERRED) 500 0) s) s"

section \<open>Bulk operations and escalation\<close>

text \<open>A bulk operation ignores the identifiers whose operation raises.\<close>

fun bulk :: "(string \<Rightarrow> rem_service \<Rightarrow> rem_task rem_result) \<Rightarrow> string list \<Rightarrow> rem_service \<Rightarrow> rem_task list \<times> rem_service" where
  "bulk f [] s = ([], s)"
| "bulk f (i # is) s =
     (case f i s of
        (Inl e, s1) \<Rightarrow> bulk f is s1
      | (Inr t, s1) \<Rightarrow> (case bulk f is s1 of (ts, s2) \<Rightarrow> (t # ts, s2)))"

definition bulk_assign :: "rem_env \<Rightarrow> tenant_context option \<Rightarrow> string list \<Rightarrow> string \<Rightarrow> string \<Rightarrow> string \<Rightarrow> string option \<Rightarrow> rem_service
    \<Rightarrow> rem_task list rem_result" where
  "bulk_assign env ctx ids assignee kind actor reason s =
     with_tenant ctx (\<lambda>tenant s. case bulk (\<lambda>i. assign_task env ctx i assignee kind actor reason) ids s of (ts, s1) \<Rightarrow> (Inr ts, s1)) s"

definition reprioritise_one :: "string \<Rightarrow> task_priority \<Rightarrow> string \<Rightarrow> string option \<Rightarrow> string \<Rightarrow> rem_service \<Rightarrow> rem_task rem_result" where
  "reprioritise_one tenant prio actor reason i =
     with_task tenant i (\<lambda>t. store tenant
       (rem_add_history ''REPRIORITISED'' actor (Some (rt_state t)) (Some (rt_state t)) reason (t\<lparr>rt_priority := prio\<rparr>))
       (\<lambda>saved s. (Inr saved, s)))"

definition bulk_reprioritise :: "rem_env \<Rightarrow> tenant_context option \<Rightarrow> string list \<Rightarrow> task_priority \<Rightarrow> string \<Rightarrow> string option \<Rightarrow> rem_service
    \<Rightarrow> rem_task list rem_result" where
  "bulk_reprioritise env ctx ids prio actor reason s =
     with_tenant ctx (\<lambda>tenant s. case bulk (reprioritise_one tenant prio actor reason) ids s of (ts, s1) \<Rightarrow> (Inr ts, s1)) s"

definition bulk_defer :: "rem_env \<Rightarrow> tenant_context option \<Rightarrow> string list \<Rightarrow> string \<Rightarrow> string \<Rightarrow> int \<Rightarrow> rem_service \<Rightarrow> rem_task list rem_result" where
  "bulk_defer env ctx ids actor reason expiry s =
     with_tenant ctx (\<lambda>tenant s. case bulk (\<lambda>i. defer_task env ctx i actor reason expiry None) ids s of (ts, s1) \<Rightarrow> (Inr ts, s1)) s"

definition close_duplicate :: "rem_env \<Rightarrow> string \<Rightarrow> string \<Rightarrow> string option \<Rightarrow> string \<Rightarrow> rem_service \<Rightarrow> rem_task rem_result" where
  "close_duplicate env tenant actor reason i =
     with_task tenant i (\<lambda>t. store tenant
       (rem_add_history ''MARKED_DUPLICATE'' actor (Some (rt_state t)) (Some DUPLICATE) reason
         (t\<lparr>rt_state := DUPLICATE, rt_closure_code := Some DUPLICATE_SUPERSEDED, rt_closed_at := Some (re_now env)\<rparr>))
       (\<lambda>saved s. (Inr saved, rem_record_audit env tenant ''REMEDIATION_TASK_DUPLICATED'' actor (rt_id saved) s)))"

definition bulk_close_duplicate :: "rem_env \<Rightarrow> tenant_context option \<Rightarrow> string list \<Rightarrow> string \<Rightarrow> string \<Rightarrow> string option \<Rightarrow> rem_service
    \<Rightarrow> rem_task list rem_result" where
  "bulk_close_duplicate env ctx ids canonical actor reason s =
     with_tenant ctx (\<lambda>tenant s.
       case bulk (close_duplicate env tenant actor reason) (filter (\<lambda>i. i \<noteq> canonical) ids) s of (ts, s1) \<Rightarrow> (Inr ts, s1)) s"

definition escalate_overdue :: "rem_env \<Rightarrow> string \<Rightarrow> int \<Rightarrow> rem_task \<Rightarrow> rem_service \<Rightarrow> rem_task list rem_result" where
  "escalate_overdue env tenant now t s =
     (if now > rt_due_date t
      then store tenant (rem_add_history ''ESCALATED'' ''system-sla-scheduler'' (Some (rt_state t)) (Some (rt_state t)) None t)
             (\<lambda>saved s. (Inr [saved], rem_record_audit env tenant ''REMEDIATION_TASK_ESCALATED'' ''system-sla-scheduler'' (rt_id saved) s)) s
      else (Inr [], s))"

fun escalate_states :: "rem_env \<Rightarrow> string \<Rightarrow> int \<Rightarrow> task_state list \<Rightarrow> rem_service \<Rightarrow> rem_task list rem_result" where
  "escalate_states env tenant now [] s = (Inr [], s)"
| "escalate_states env tenant now (st # sts) s =
     (case each_task (escalate_overdue env tenant now) (rem_list (rs_tasks s) tenant (in_state st) 500 0) s of
        (Inl e, s1) \<Rightarrow> (Inl e, s1)
      | (Inr xs, s1) \<Rightarrow> (case escalate_states env tenant now sts s1 of (Inl e, s2) \<Rightarrow> (Inl e, s2) | (Inr ys, s2) \<Rightarrow> (Inr (xs @ ys), s2)))"

definition check_overdue_and_escalate :: "rem_env \<Rightarrow> tenant_context option \<Rightarrow> int option \<Rightarrow> rem_service \<Rightarrow> rem_task list rem_result" where
  "check_overdue_and_escalate env ctx now s =
     with_tenant ctx (\<lambda>tenant. escalate_states env tenant (case now of Some t \<Rightarrow> t | None \<Rightarrow> re_now env)
       [OPEN, ASSIGNED, IN_PROGRESS, BLOCKED]) s"

definition mirror_to_itsm :: "rem_env \<Rightarrow> tenant_context option \<Rightarrow> string \<Rightarrow> rem_service \<Rightarrow> rem_task rem_result" where
  "mirror_to_itsm env ctx i s =
     with_tenant ctx (\<lambda>tenant. with_task tenant i (\<lambda>t s.
       if \<not> rs_itsm_enabled s then (Inr t, s)
       else store tenant
              (rem_add_history ''ITSM_MIRRORED'' ''system-itsm-adapter'' (Some (rt_state t)) (Some (rt_state t)) None
                (t\<lparr>rt_itsm_ticket_id := Some (re_ticket env)\<rparr>))
              (\<lambda>saved s. (Inr saved, rem_record_audit env tenant ''REMEDIATION_TASK_ITSM_MIRRORED'' ''system-itsm-adapter'' (rt_id saved) s)) s)) s"

section \<open>The table as a store of tenants\<close>

definition rows_ok :: "rem_row list \<Rightarrow> bool" where
  "rows_ok rows \<longleftrightarrow> distinct (map (\<lambda>r. rt_id (rr_task r)) rows)
     \<and> (\<forall>r \<in> set rows. rt_tenant_id (rr_task r) = rr_tenant_id r \<and> rt_created_at (rr_task r) = rr_created_at r)"

text \<open>A task may be saved by a tenant: no other row has its identifier, or the tenant's own row of the same creation.\<close>

definition savable :: "rem_row list \<Rightarrow> string \<Rightarrow> rem_task \<Rightarrow> bool" where
  "savable rows tenant t \<longleftrightarrow>
     (\<forall>r \<in> set rows. rt_id (rr_task r) = rt_id t \<longrightarrow> rr_tenant_id r = tenant \<and> rr_created_at r = rt_created_at t)"

definition rem_put :: "rem_row list \<Rightarrow> string \<Rightarrow> rem_task \<Rightarrow> rem_row list" where
  "rem_put rows tenant t = (case rem_save tenant t rows of Inl e \<Rightarrow> rows | Inr (t', rows') \<Rightarrow> rows')"

lemma rem_get_iff:
  "rows_ok rows \<Longrightarrow> rem_get rows tn i = Some t \<longleftrightarrow>
     (\<exists>r \<in> set rows. rr_task r = t \<and> rt_id t = i \<and> rr_tenant_id r = tn)"
proof
  assume ok: "rows_ok rows" and "\<exists>r \<in> set rows. rr_task r = t \<and> rt_id t = i \<and> rr_tenant_id r = tn"
  then obtain r where r: "r \<in> set rows" "rr_task r = t" "rt_id t = i" "rr_tenant_id r = tn" by blast
  then obtain r' where r': "find (\<lambda>r. rt_id (rr_task r) = i \<and> rr_tenant_id r = tn) rows = Some r'"
    by (cases "find (\<lambda>r. rt_id (rr_task r) = i \<and> rr_tenant_id r = tn) rows") (auto simp: find_None_iff)
  then have "r' = r" using find_SomeD[OF r'] r ok by (auto simp: rows_ok_def distinct_map inj_on_def)
  then show "rem_get rows tn i = Some t" using r r' by (simp add: rem_get_def)
qed (auto simp: rem_get_def dest: find_SomeD)

lemma rem_save_savable:
  assumes "savable rows tn t"
  shows "rem_save tn t rows = Inr (t\<lparr>rt_tenant_id := tn\<rparr>, rem_put rows tn t)"
proof (cases "find (\<lambda>r. rt_id (rr_task r) = rt_id t) rows")
  case (Some r)
  then have "rr_tenant_id r = tn" using assms find_SomeD[OF Some] by (auto simp: savable_def)
  with Some show ?thesis by (simp add: rem_put_def rem_save_def Let_def)
qed (simp add: rem_put_def rem_save_def Let_def)

lemma rem_put_rows:
  assumes "rows_ok rows" and "savable rows tn t"
  shows "set (rem_put rows tn t) = {r \<in> set rows. rt_id (rr_task r) \<noteq> rt_id t}
      \<union> {\<lparr> rr_tenant_id = tn, rr_created_at = rt_created_at t, rr_task = t\<lparr>rt_tenant_id := tn\<rparr> \<rparr>}"
    and "rows_ok (rem_put rows tn t)"
proof -
  let ?t = "t\<lparr>rt_tenant_id := tn\<rparr>" and ?same = "\<lambda>r. rt_id (rr_task r) = rt_id t"
  let ?upd = "\<lambda>r. if ?same r then r\<lparr>rr_task := ?t\<rparr> else r"
  let ?new = "\<lparr> rr_tenant_id = tn, rr_created_at = rt_created_at t, rr_task = ?t \<rparr>"
  have put: "rem_put rows tn t = (if find ?same rows = None then rows @ [?new] else map ?upd rows)"
    using assms(2) by (auto simp: rem_put_def rem_save_def Let_def savable_def split: option.splits dest: find_SomeD)
  have upd: "?upd r = ?new" if "r \<in> set rows" "?same r" for r
    using assms(2) that by (cases r) (auto simp: savable_def)
  show set: "set (rem_put rows tn t) = {r \<in> set rows. \<not> ?same r} \<union> {?new}"
  proof (cases "find ?same rows = None")
    case False
    then obtain r where "r \<in> set rows" "?same r" by (auto simp: find_None_iff)
    then show ?thesis unfolding put using upd False by (auto simp: image_iff intro: bexI[of _ r])
  qed (auto simp: put find_None_iff)
  have ids: "map (\<lambda>r. rt_id (rr_task r)) (map ?upd rows) = map (\<lambda>r. rt_id (rr_task r)) rows" by (induction rows) auto
  have "distinct (map (\<lambda>r. rt_id (rr_task r)) (rem_put rows tn t))"
    using assms(1) ids by (auto simp: put rows_ok_def find_None_iff simp del: map_map)
  then show "rows_ok (rem_put rows tn t)" using assms(1) set by (auto simp: rows_ok_def)
qed

lemma rem_get_put:
  assumes "rows_ok rows" and "savable rows tn t"
  shows "rem_get (rem_put rows tn t) tn' i =
    (if i = rt_id t \<and> tn' = tn then Some (t\<lparr>rt_tenant_id := tn\<rparr>) else rem_get rows tn' i)"
proof -
  note ok' = rem_put_rows(2)[OF assms]
  have "rem_get (rem_put rows tn t) tn' i = Some x \<longleftrightarrow>
      (if i = rt_id t \<and> tn' = tn then x = t\<lparr>rt_tenant_id := tn\<rparr> else rem_get rows tn' i = Some x)" for x
    unfolding rem_get_iff[OF ok'] rem_get_iff[OF assms(1)] rem_put_rows(1)[OF assms]
    using assms(2) by (auto simp: savable_def)
  then show ?thesis by (metis option.exhaust)
qed

lemma row_unique:
  "rows_ok rows \<Longrightarrow> r \<in> set rows \<Longrightarrow> r' \<in> set rows \<Longrightarrow> rt_id (rr_task r) = rt_id (rr_task r') \<Longrightarrow> r = r'"
  by (simp add: rows_ok_def distinct_map inj_on_def)

lemma rem_getE:
  assumes "rem_get rows tn i = Some t"
  obtains r where "r \<in> set rows" "rr_task r = t" "rt_id t = i" "rr_tenant_id r = tn"
  using assms by (auto simp: rem_get_def dest: find_SomeD)

text \<open>A stored task may be saved again by its tenant.\<close>

lemma stored_savable:
  assumes ok: "rows_ok rows" and get: "rem_get rows tn (rt_id t) = Some t0" and cr: "rt_created_at t = rt_created_at t0"
  shows "savable rows tn t"
proof -
  obtain r where r: "r \<in> set rows" "rr_task r = t0" "rt_id t0 = rt_id t" "rr_tenant_id r = tn"
    using get by (rule rem_getE)
  have "rr_tenant_id r' = tn \<and> rr_created_at r' = rt_created_at t" if "r' \<in> set rows" "rt_id (rr_task r') = rt_id t" for r'
  proof -
    have "r' = r" using row_unique[OF ok that(1) r(1)] that(2) r(2,3) by simp
    moreover have "rr_created_at r = rt_created_at t0" using ok r(1,2) unfolding rows_ok_def by metis
    ultimately show ?thesis using r(4) cr by simp
  qed
  then show ?thesis unfolding savable_def by blast
qed

interpretation tasks: tenant_store rem_get rem_put rt_id "\<lambda>tn t. t\<lparr>rt_tenant_id := tn\<rparr>" rows_ok savable
proof
  fix rows rows' tn t t0
  assume asm: "rows_ok rows" "rows_ok rows'" "rem_get rows tn (rt_id t) = Some t0"
    "rem_get rows' tn (rt_id t) = Some t0" "savable rows tn t"
  obtain r where r: "r \<in> set rows" "rr_task r = t0" "rt_id t0 = rt_id t" using asm(3) by (rule rem_getE)
  then have "rt_created_at t = rt_created_at t0" using asm(1,5) by (simp add: rows_ok_def savable_def) metis
  then show "savable rows' tn t" using asm(2,4) by (intro stored_savable)
next
  show "rem_get (rem_put rows tn t) tn' i = (if i = rt_id t \<and> tn' = tn then Some (t\<lparr>rt_tenant_id := tn\<rparr>) else rem_get rows tn' i)"
    if "rows_ok rows" "savable rows tn t" for rows tn t tn' i using that by (rule rem_get_put)
  show "rows_ok (rem_put rows tn t)" if "rows_ok rows" "savable rows tn t" for rows tn t using that by (rule rem_put_rows(2))
qed

lemma rem_get_ident: "rows_ok rows \<Longrightarrow> rem_get rows tn i = Some t \<Longrightarrow> rt_id t = i \<and> rt_tenant_id t = tn"
  by (auto simp: rem_get_iff rows_ok_def)

lemma rem_list_stored:
  "rows_ok rows \<Longrightarrow> t \<in> set (rem_list rows tn f limit offset) \<Longrightarrow> rem_get rows tn (rt_id t) = Some t"
  by (fastforce simp: rem_list_def rem_get_iff rem_row_matches_def dest!: in_set_takeD in_set_dropD)

lemma rem_list_state: "t \<in> set (rem_list rows tn (in_state st) limit offset) \<Longrightarrow> rt_state t = st"
  by (auto simp: rem_list_def rem_row_matches_def in_state_def any_task_def dest!: in_set_takeD in_set_dropD)

lemma distinct_rem_list: "rows_ok rows \<Longrightarrow> distinct (map rt_id (rem_list rows tn f limit offset))"
proof -
  assume ok: "rows_ok rows"
  let ?rows = "sort_key (\<lambda>r. - rr_created_at r) (filter (rem_row_matches tn f) rows)"
  have "distinct (map (\<lambda>r. rt_id (rr_task r)) (filter (rem_row_matches tn f) rows))"
    using ok by (simp add: rows_ok_def distinct_map_filter)
  then have "distinct (map (\<lambda>r. rt_id (rr_task r)) ?rows)" by (auto simp: distinct_map inj_on_def)
  then have "distinct (map (\<lambda>r. rt_id (rr_task r)) (take limit (drop offset ?rows)))"
    by (simp add: drop_map[symmetric] take_map[symmetric])
  then have "distinct (map rt_id (map rr_task (take limit (drop offset ?rows))))" by (simp add: comp_def)
  then show ?thesis unfolding rem_list_def by (rule distinct_map_filter)
qed

end
