(* ===== verification/Remediation_Theorems.thy ===== *)
theory Remediation_Theorems
  imports Remediation
begin

text \<open>
  Properties of the remediation loop. Every operation is a sequence of steps of an abstract machine
  (\<open>rstep\<close>): a task is created with a fresh identifier, or one stored task is rewritten with at most one
  history entry of a permitted kind, and the ledger grows exactly when that entry closes a task with
  a positive estimate. The properties of whole runs follow by induction over these steps.
\<close>

section \<open>Permitted history entries\<close>

text \<open>Which state changes the operations record with each kind of history entry, inside the transition graph or not.\<close>

inductive task_move :: "string \<Rightarrow> task_state \<Rightarrow> task_state \<Rightarrow> string option \<Rightarrow> bool" where
  tm_assign: "task_move ''ASSIGNED'' OPEN ASSIGNED r"
| tm_reassign: "a \<notin> {CLOSED, REJECTED, DUPLICATE} \<Longrightarrow> task_move ''ASSIGNED'' a a r"
| tm_status: "b \<in> set (VALID_TRANSITIONS a) \<Longrightarrow> task_move ''STATUS_CHANGED'' a b r"
| tm_resolve: "a \<notin> {CLOSED, REJECTED, DUPLICATE} \<Longrightarrow> task_move ''RESOLVED_PENDING_VERIFICATION'' a AWAITING_VERIFICATION r"
| tm_verified: "task_move ''VERIFIED_AND_CLOSED'' a CLOSED r"
| tm_failed: "task_move ''VERIFICATION_FAILED_REOPENED'' a OPEN r"
| tm_defer: "a \<notin> {CLOSED, REJECTED, DUPLICATE} \<Longrightarrow> truthy r \<Longrightarrow> task_move ''DEFERRED'' a DEFERRED r"
| tm_risk: "truthy r \<Longrightarrow> task_move ''RISK_ACCEPTED'' a CLOSED r"
| tm_expired: "task_move ''DEFERRAL_EXPIRED_REOPENED'' DEFERRED OPEN r"
| tm_duplicate: "task_move ''MARKED_DUPLICATE'' a DUPLICATE r"
| tm_note: "k \<in> {''REPRIORITISED'', ''ESCALATED'', ''ITSM_MIRRORED''} \<Longrightarrow> task_move k a a r"

fun history_path :: "task_state \<Rightarrow> rem_history_entry list \<Rightarrow> task_state \<Rightarrow> bool" where
  "history_path a [] b \<longleftrightarrow> a = b"
| "history_path a (e # es) b \<longleftrightarrow>
     rh_from_state e = a \<and> task_move (rh_action e) a (rh_to_state e) (rh_reason e) \<and> history_path (rh_to_state e) es b"

text \<open>A history without gaps.\<close>

fun chained :: "task_state \<Rightarrow> rem_history_entry list \<Rightarrow> task_state \<Rightarrow> bool" where
  "chained a [] b \<longleftrightarrow> a = b"
| "chained a (e # es) b \<longleftrightarrow> rh_from_state e = a \<and> chained (rh_to_state e) es b"

lemma history_path_chained: "history_path a es b \<Longrightarrow> chained a es b"
  by (induction es arbitrary: a) auto

lemma history_path_moves:
  "history_path a es b \<Longrightarrow> h \<in> set es \<Longrightarrow> task_move (rh_action h) (rh_from_state h) (rh_to_state h) (rh_reason h)"
  by (induction es arbitrary: a) auto

lemma history_path_append: "history_path a (es @ fs) b \<longleftrightarrow> (\<exists>m. history_path a es m \<and> history_path m fs b)"
  by (induction es arbitrary: a) auto

definition closing :: "rem_history_entry option \<Rightarrow> bool" where
  "closing oe \<longleftrightarrow> (case oe of Some e \<Rightarrow> rh_action e = ''VERIFIED_AND_CLOSED'' | None \<Rightarrow> False)"

definition closures :: "rem_task \<Rightarrow> nat" where
  "closures t = length (filter (\<lambda>e. rh_action e = ''VERIFIED_AND_CLOSED'') (rt_history t))"

definition verification_entry :: "rem_history_entry \<Rightarrow> bool" where
  "verification_entry e \<longleftrightarrow> rh_action e \<in> {''VERIFIED_AND_CLOSED'', ''VERIFICATION_FAILED_REOPENED''}"

text \<open>One rewriting of a stored task, with the entry it adds.\<close>

definition edits :: "rem_task \<Rightarrow> rem_history_entry option \<Rightarrow> rem_task \<Rightarrow> bool" where
  "edits t0 oe t \<longleftrightarrow>
     rt_id t = rt_id t0 \<and> rt_created_at t = rt_created_at t0 \<and> rt_estimated_saving t = rt_estimated_saving t0
     \<and> rt_history t = rt_history t0 @ (case oe of None \<Rightarrow> [] | Some e \<Rightarrow> [e])
     \<and> (case oe of None \<Rightarrow> rt_state t = rt_state t0
        | Some e \<Rightarrow> rh_from_state e = rt_state t0 \<and> rh_to_state e = rt_state t
            \<and> task_move (rh_action e) (rh_from_state e) (rh_to_state e) (rh_reason e))
     \<and> rt_verification_attempts t = rt_verification_attempts t0
         + (case oe of Some e \<Rightarrow> of_bool (verification_entry e) | None \<Rightarrow> 0)
     \<and> (rt_closure_code t = Some FIXED_AND_VERIFIED \<longrightarrow> closing oe \<or> rt_closure_code t0 = Some FIXED_AND_VERIFIED)"

definition new_task :: "rem_task \<Rightarrow> bool" where
  "new_task t \<longleftrightarrow> rt_verification_attempts t = 0 \<and> rt_closure_code t = None
     \<and> (\<exists>e es. rt_history t = e # es \<and> rh_action e = ''CREATED'' \<and> rh_from_state e = rh_to_state e
          \<and> history_path (rh_to_state e) es (rt_state t)
          \<and> list_all (\<lambda>e. \<not> verification_entry e) (e # es))"

text \<open>What the step does to the ledger.\<close>

definition books :: "string \<Rightarrow> rem_task \<Rightarrow> rem_history_entry option \<Rightarrow> saving_entry list \<Rightarrow> saving_entry list \<Rightarrow> bool" where
  "books tn t oe l l' \<longleftrightarrow>
     (if closing oe \<and> (\<exists>x. rt_estimated_saving t = Some x \<and> x > 0)
      then \<exists>e. l' = l @ [e] \<and> se_task_id e = rt_id t \<and> se_tenant_id e = tn
             \<and> se_realised_amount e = py_round 2 (the (rt_estimated_saving t))
      else l' = l)"

inductive rstep :: "string \<Rightarrow> rem_service \<Rightarrow> rem_service \<Rightarrow> bool" for tn where
  rs_same: "rs_tasks s' = rs_tasks s \<Longrightarrow> rs_ledger s' = rs_ledger s \<Longrightarrow> rstep tn s s'"
| rs_edit: "rem_get (rs_tasks s) tn (rt_id t) = Some t0 \<Longrightarrow> edits t0 oe t \<Longrightarrow> rs_tasks s' = rem_put (rs_tasks s) tn t
    \<Longrightarrow> books tn t oe (rs_ledger s) (rs_ledger s') \<Longrightarrow> rstep tn s s'"
| rs_create: "(\<forall>r \<in> set (rs_tasks s). rt_id (rr_task r) \<noteq> rt_id t) \<Longrightarrow> new_task t
    \<Longrightarrow> rs_tasks s' = rem_put (rs_tasks s) tn t \<Longrightarrow> rs_ledger s' = rs_ledger s \<Longrightarrow> rstep tn s s'"

abbreviation rsteps :: "string \<Rightarrow> rem_service \<Rightarrow> rem_service \<Rightarrow> bool" where
  "rsteps tn \<equiv> (rstep tn)\<^sup>*\<^sup>*"

lemma rsteps_same: "rs_tasks s' = rs_tasks s \<Longrightarrow> rs_ledger s' = rs_ledger s \<Longrightarrow> rsteps tn s s'"
  by (intro r_into_rtranclp rs_same)

lemma unknown_savable: "\<forall>r \<in> set rows. rt_id (rr_task r) \<noteq> rt_id t \<Longrightarrow> savable rows tn t"
  by (simp add: savable_def)

lemma edit_savable: "rows_ok rows \<Longrightarrow> rem_get rows tn (rt_id t) = Some t0 \<Longrightarrow> edits t0 oe t \<Longrightarrow> savable rows tn t"
  by (rule stored_savable) (simp_all add: edits_def)

lemma rstep_rows_ok: "rstep tn s s' \<Longrightarrow> rows_ok (rs_tasks s) \<Longrightarrow> rows_ok (rs_tasks s')"
  by (induction rule: rstep.induct) (auto intro: tasks.valid_save unknown_savable edit_savable)

lemma rsteps_rows_ok: "rsteps tn s s' \<Longrightarrow> rows_ok (rs_tasks s) \<Longrightarrow> rows_ok (rs_tasks s')"
  by (induction rule: rtranclp_induct) (auto intro: rstep_rows_ok)

section \<open>Every operation is a sequence of steps\<close>

lemma audit_keeps [simp]:
  "rs_tasks (rem_record_audit env tn ev actor i s) = rs_tasks s"
  "rs_ledger (rem_record_audit env tn ev actor i s) = rs_ledger s"
  by (simp_all add: rem_record_audit_def)

lemma alert_keeps [simp]:
  "rs_tasks (resolve_linked_alert env tn t s) = rs_tasks s" "rs_ledger (resolve_linked_alert env tn t s) = rs_ledger s"
  by (simp_all add: resolve_linked_alert_def)

lemma rem_history_simps [simp]:
  "rt_id (rem_add_history k actor f g r t) = rt_id t"
  "rt_created_at (rem_add_history k actor f g r t) = rt_created_at t"
  "rt_estimated_saving (rem_add_history k actor f g r t) = rt_estimated_saving t"
  "rt_state (rem_add_history k actor f g r t) = rt_state t"
  "rt_category (rem_add_history k actor f g r t) = rt_category t"
  "rt_verification_attempts (rem_add_history k actor f g r t) = rt_verification_attempts t"
  "rt_closure_code (rem_add_history k actor f g r t) = rt_closure_code t"
  by (simp_all add: rem_add_history_def)

lemma add_history_entries:
  "rt_history (rem_add_history k actor (Some f) (Some g) r t) = rt_history t @
     [\<lparr> rh_actor_id = actor, rh_action = k, rh_from_state = f, rh_to_state = g, rh_reason = r \<rparr>]"
  "rt_history (rem_add_history k actor None (Some g) r t) = rt_history t @
     [\<lparr> rh_actor_id = actor, rh_action = k, rh_from_state = rt_state t, rh_to_state = g, rh_reason = r \<rparr>]"
  by (simp_all add: rem_add_history_def)

text \<open>The usual rewriting: fields outside the core change, then one entry is added.\<close>

lemma edits_entry:
  assumes "rt_id t = rt_id t0" "rt_created_at t = rt_created_at t0" "rt_estimated_saving t = rt_estimated_saving t0"
    "rt_history t = rt_history t0" "rt_state t = g" "task_move k (rt_state t0) g r"
    "rt_verification_attempts t = rt_verification_attempts t0
       + of_bool (k \<in> {''VERIFIED_AND_CLOSED'', ''VERIFICATION_FAILED_REOPENED''})"
    "rt_closure_code t = Some FIXED_AND_VERIFIED \<Longrightarrow> k = ''VERIFIED_AND_CLOSED'' \<or> rt_closure_code t0 = Some FIXED_AND_VERIFIED"
  shows "edits t0 (Some \<lparr> rh_actor_id = actor, rh_action = k, rh_from_state = rt_state t0, rh_to_state = g, rh_reason = r \<rparr>)
    (rem_add_history k actor (Some (rt_state t0)) (Some g) r t)"
  using assms by (simp add: edits_def add_history_entries closing_def verification_entry_def)

lemma store_stored:
  assumes "rows_ok (rs_tasks s)" "rem_get (rs_tasks s) tn (rt_id t) = Some t0" "edits t0 oe t"
  shows "store tn t k s = k (t\<lparr>rt_tenant_id := tn\<rparr>) (s\<lparr>rs_tasks := rem_put (rs_tasks s) tn t\<rparr>)"
  using rem_save_savable[OF edit_savable[OF assms]] by (simp add: store_def)

lemma store_edit:
  assumes "rows_ok (rs_tasks s)" "rem_get (rs_tasks s) tn i = Some t0" "edits t0 oe t" "\<not> closing oe"
    and "\<And>t' s1. rs_tasks (snd (k t' s1)) = rs_tasks s1 \<and> rs_ledger (snd (k t' s1)) = rs_ledger s1"
  shows "rsteps tn s (snd (store tn t k s))"
proof -
  have "rt_id t = i" using rem_get_ident[OF assms(1,2)] assms(3) by (simp add: edits_def)
  then have g: "rem_get (rs_tasks s) tn (rt_id t) = Some t0" using assms(2) by simp
  show ?thesis
    unfolding store_stored[OF assms(1) g assms(3)]
    by (intro r_into_rtranclp rs_edit[OF g assms(3)]) (simp_all add: assms(4,5) books_def)
qed

lemma store_entry:
  assumes "rows_ok (rs_tasks s)" "rem_get (rs_tasks s) tn i = Some t0" "f = rt_state t0"
    "rt_id t = rt_id t0" "rt_created_at t = rt_created_at t0" "rt_estimated_saving t = rt_estimated_saving t0"
    "rt_history t = rt_history t0" "rt_state t = g" "task_move a f g r" "a \<noteq> ''VERIFIED_AND_CLOSED''"
    "rt_verification_attempts t = rt_verification_attempts t0 + of_bool (a = ''VERIFICATION_FAILED_REOPENED'')"
    "rt_closure_code t = Some FIXED_AND_VERIFIED \<Longrightarrow> rt_closure_code t0 = Some FIXED_AND_VERIFIED"
    "\<And>t' s1. rs_tasks (snd (k t' s1)) = rs_tasks s1 \<and> rs_ledger (snd (k t' s1)) = rs_ledger s1"
  shows "rsteps tn s (snd (store tn (rem_add_history a actor (Some f) (Some g) r t) k s))"
proof -
  have "edits t0 (Some \<lparr> rh_actor_id = actor, rh_action = a, rh_from_state = rt_state t0, rh_to_state = g, rh_reason = r \<rparr>)
      (rem_add_history a actor (Some (rt_state t0)) (Some g) r t)"
    using assms(3-12) by (intro edits_entry) auto
  from store_edit[OF assms(1,2) this _ assms(13)] show ?thesis using assms(3,10) by (simp add: closing_def)
qed

lemma rsteps_refl: "rsteps tn s (snd (x, s))"
  by simp

lemma with_task_steps:
  assumes "\<And>t. rem_get (rs_tasks s) tn i = Some t \<Longrightarrow> rsteps tn s (snd (f t s))"
  shows "rsteps tn s (snd (with_task tn i f s))"
  using assms by (auto simp: with_task_def split: option.split intro: rsteps_same)

definition ctx_tenant :: "tenant_context option \<Rightarrow> string option" where
  "ctx_tenant ctx = (case require_tenant_context ctx of Inl e \<Rightarrow> None | Inr tc \<Rightarrow> Some (tc_tenant_id tc))"

lemma with_tenant_steps:
  assumes "ctx_tenant ctx \<in> {None, Some tn}" "rsteps tn s (snd (f tn s))"
  shows "rsteps tn s (snd (with_tenant ctx f s))"
  using assms by (auto simp: with_tenant_def ctx_tenant_def split: sum.splits intro: rsteps_same)

text \<open>The operations that rewrite one task.\<close>

lemma transition_steps:
  assumes "rows_ok (rs_tasks s)" "ctx_tenant ctx \<in> {None, Some tn}"
  shows "rsteps tn s (snd (rem_transition_state env ctx i st actor reason s))"
  unfolding rem_transition_state_def
  by (intro with_tenant_steps[OF assms(2)] with_task_steps)
     (simp add: is_terminal_def, intro conjI impI store_entry[OF assms(1)], auto intro: task_move.intros)

lemma assign_move:
  "a \<notin> {CLOSED, REJECTED, DUPLICATE} \<Longrightarrow> task_move ''ASSIGNED'' a (if a = OPEN then ASSIGNED else a) r"
  by (simp add: tm_assign tm_reassign)

lemma assign_steps:
  assumes "rows_ok (rs_tasks s)" "ctx_tenant ctx \<in> {None, Some tn}"
  shows "rsteps tn s (snd (assign_task env ctx i who kind actor reason s))"
  unfolding assign_task_def Let_def
proof (intro with_tenant_steps[OF assms(2)] with_task_steps)
  fix t assume g: "rem_get (rs_tasks s) tn i = Some t"
  show "rsteps tn s (snd (if is_terminal t then (Inl (TaskAlreadyClosedException i), s)
      else store tn (rem_add_history ''ASSIGNED'' actor (Some (rt_state t)) (Some (if rt_state t = OPEN then ASSIGNED else rt_state t)) reason
             (t\<lparr>rt_assignee_id := who, rt_assignee_type := kind, rt_assigning_actor := actor,
                rt_state := if rt_state t = OPEN then ASSIGNED else rt_state t\<rparr>))
             (\<lambda>saved s. (Inr saved, rem_record_audit env tn ''REMEDIATION_TASK_ASSIGNED'' actor (rt_id saved) s)) s))"
  proof (cases "is_terminal t")
    case False
    then have "task_move ''ASSIGNED'' (rt_state t) (if rt_state t = OPEN then ASSIGNED else rt_state t) reason"
      by (intro assign_move) (simp add: is_terminal_def)
    then show ?thesis unfolding if_not_P[OF False] by (intro store_entry[OF assms(1) g]) simp_all
  qed simp
qed

lemma defer_steps:
  assumes "rows_ok (rs_tasks s)" "ctx_tenant ctx \<in> {None, Some tn}"
  shows "rsteps tn s (snd (defer_task env ctx i actor reason expiry wf_id s))"
  unfolding defer_task_def
  by (intro with_tenant_steps[OF assms(2)] with_task_steps)
     (simp add: is_terminal_def, intro conjI impI store_entry[OF assms(1)], auto intro: task_move.intros)

lemma risk_steps:
  assumes "rows_ok (rs_tasks s)" "ctx_tenant ctx \<in> {None, Some tn}"
  shows "rsteps tn s (snd (accept_risk env ctx i actor reason expiry s))"
  unfolding accept_risk_def
  by (intro with_tenant_steps[OF assms(2)] with_task_steps)
     (simp, intro conjI impI store_entry[OF assms(1)], auto intro: task_move.intros)

lemma mirror_steps:
  assumes "rows_ok (rs_tasks s)" "ctx_tenant ctx \<in> {None, Some tn}"
  shows "rsteps tn s (snd (mirror_to_itsm env ctx i s))"
  unfolding mirror_to_itsm_def
  by (intro with_tenant_steps[OF assms(2)] with_task_steps)
     (simp, intro conjI impI store_entry[OF assms(1)], auto intro: task_move.intros)

text \<open>Bulk operations and loops over listed tasks.\<close>

lemma bulk_steps:
  assumes "\<And>i s. rows_ok (rs_tasks s) \<Longrightarrow> rsteps tn s (snd (f i s))" and "rows_ok (rs_tasks s)"
  shows "rsteps tn s (snd (bulk f ids s))"
  using assms(2)
proof (induction ids arbitrary: s)
  case (Cons i ids)
  obtain res s1 where f: "f i s = (res, s1)" by (cases "f i s")
  have st: "rsteps tn s s1" using assms(1)[OF Cons.prems, of i] f by simp
  then have "rsteps tn s1 (snd (bulk f ids s1))" using Cons rsteps_rows_ok by blast
  then have "rsteps tn s (snd (bulk f ids s1))" using st by simp
  then show ?case using f by (cases res) (simp_all add: split_beta)
qed simp

lemma bulk_op_steps:
  assumes "ctx_tenant ctx \<in> {None, Some tn}" "rows_ok (rs_tasks s)"
    and "\<And>i s. rows_ok (rs_tasks s) \<Longrightarrow> rsteps tn s (snd (g tn i s))"
  shows "rsteps tn s (snd (with_tenant ctx (\<lambda>tenant s. case bulk (g tenant) h s of (ts, s1) \<Rightarrow> (Inr ts, s1)) s))"
  using bulk_steps[of tn "g tn", OF assms(3,2)] by (intro with_tenant_steps[OF assms(1)]) (simp add: split_beta)

lemma bulk_assign_steps:
  assumes "rows_ok (rs_tasks s)" "ctx_tenant ctx \<in> {None, Some tn}"
  shows "rsteps tn s (snd (bulk_assign env ctx ids who kind actor reason s))"
  unfolding bulk_assign_def by (intro bulk_op_steps[OF assms(2,1)] assign_steps assms(2))

lemma bulk_defer_steps:
  assumes "rows_ok (rs_tasks s)" "ctx_tenant ctx \<in> {None, Some tn}"
  shows "rsteps tn s (snd (bulk_defer env ctx ids actor reason expiry s))"
  unfolding bulk_defer_def by (intro bulk_op_steps[OF assms(2,1)] defer_steps assms(2))

lemma reprioritise_steps: "rows_ok (rs_tasks s) \<Longrightarrow> rsteps tn s (snd (reprioritise_one tn prio actor reason i s))"
  unfolding reprioritise_one_def
  by (intro with_task_steps store_entry) (auto intro: tm_note)

lemma duplicate_steps: "rows_ok (rs_tasks s) \<Longrightarrow> rsteps tn s (snd (close_duplicate env tn actor reason i s))"
  unfolding close_duplicate_def
  by (intro with_task_steps store_entry) (auto intro: tm_duplicate)

lemma bulk_reprioritise_steps:
  assumes "rows_ok (rs_tasks s)" "ctx_tenant ctx \<in> {None, Some tn}"
  shows "rsteps tn s (snd (bulk_reprioritise env ctx ids prio actor reason s))"
  unfolding bulk_reprioritise_def
  by (intro bulk_op_steps[OF assms(2,1)] reprioritise_steps)

lemma bulk_duplicate_steps:
  assumes "rows_ok (rs_tasks s)" "ctx_tenant ctx \<in> {None, Some tn}"
  shows "rsteps tn s (snd (bulk_close_duplicate env ctx ids canonical actor reason s))"
  unfolding bulk_close_duplicate_def
  by (intro bulk_op_steps[OF assms(2,1)] duplicate_steps)

text \<open>The body of a scan rewrites the task it is given, which is still stored as it was listed.\<close>

definition scan_body :: "string \<Rightarrow> (rem_task \<Rightarrow> rem_service \<Rightarrow> rem_task list rem_result) \<Rightarrow> rem_task \<Rightarrow> bool" where
  "scan_body tn f t \<longleftrightarrow> (\<forall>s. rows_ok (rs_tasks s) \<longrightarrow> rem_get (rs_tasks s) tn (rt_id t) = Some t \<longrightarrow>
     rsteps tn s (snd (f t s))
     \<and> (\<forall>i. i \<noteq> rt_id t \<longrightarrow> rem_get (rs_tasks (snd (f t s))) tn i = rem_get (rs_tasks s) tn i))"

lemma each_task_steps:
  assumes "\<forall>t \<in> set ts. scan_body tn f t" "distinct (map rt_id ts)" "rows_ok (rs_tasks s)"
    "\<forall>t \<in> set ts. rem_get (rs_tasks s) tn (rt_id t) = Some t"
  shows "rsteps tn s (snd (each_task f ts s))"
  using assms
proof (induction ts arbitrary: s)
  case (Cons t ts)
  obtain res s1 where f: "f t s = (res, s1)" by (cases "f t s")
  have body: "rsteps tn s s1" "\<And>i. i \<noteq> rt_id t \<Longrightarrow> rem_get (rs_tasks s1) tn i = rem_get (rs_tasks s) tn i"
    using Cons.prems(1,3,4) f by (simp_all add: scan_body_def) (metis snd_conv)+
  have "rem_get (rs_tasks s1) tn (rt_id u) = Some u" if "u \<in> set ts" for u
    using body(2)[of "rt_id u"] Cons.prems(2,4) that by (auto simp: image_iff)
  then have "rsteps tn s1 (snd (each_task f ts s1))"
    using Cons.IH[of s1] Cons.prems(1,2) rsteps_rows_ok[OF body(1) Cons.prems(3)] by simp
  then have "rsteps tn s (snd (each_task f ts s1))" using body(1) by simp
  then show ?case
    using f body(1) by (cases res; cases "each_task f ts s1"; cases "fst (each_task f ts s1)") simp_all
qed simp

lemma store_others:
  assumes "rows_ok (rs_tasks s)" "savable (rs_tasks s) tn t" "\<And>t' s1. rs_tasks (snd (k t' s1)) = rs_tasks s1"
    "i \<noteq> rt_id t"
  shows "rem_get (rs_tasks (snd (store tn t k s))) tn i = rem_get (rs_tasks s) tn i"
  using assms by (simp add: store_def rem_save_savable tasks.get_save)

lemma reopen_body: "rt_state t = DEFERRED \<Longrightarrow> scan_body tn (reopen_expired env tn now) t"
  unfolding scan_body_def reopen_expired_def
  by (auto intro!: store_entry store_others stored_savable tm_expired)

lemma escalate_body: "scan_body tn (escalate_overdue env tn now) t"
  unfolding scan_body_def escalate_overdue_def
  by (auto intro!: store_entry store_others stored_savable tm_note)

lemma scan_steps:
  assumes "\<forall>t \<in> set (rem_list (rs_tasks s) tn fl' limit offset). scan_body tn f t" "rows_ok (rs_tasks s)"
  shows "rsteps tn s (snd (each_task f (rem_list (rs_tasks s) tn fl' limit offset) s))"
  using each_task_steps[OF assms(1) distinct_rem_list[OF assms(2)] assms(2)] rem_list_stored[OF assms(2)] by blast

lemma expiry_steps:
  assumes "rows_ok (rs_tasks s)" "ctx_tenant ctx \<in> {None, Some tn}"
  shows "rsteps tn s (snd (check_expired_deferrals env ctx now s))"
  unfolding check_expired_deferrals_def
  using rem_list_state by (intro with_tenant_steps[OF assms(2)] scan_steps assms(1)) (blast intro: reopen_body)

lemma escalate_states_steps: "rows_ok (rs_tasks s) \<Longrightarrow> rsteps tn s (snd (escalate_states env tn now sts s))"
proof (induction sts arbitrary: s)
  case (Cons st sts)
  let ?r = "each_task (escalate_overdue env tn now) (rem_list (rs_tasks s) tn (in_state st) 500 0) s"
  have st: "rsteps tn s (snd ?r)" using Cons.prems by (intro scan_steps) (simp_all add: escalate_body)
  then have "rsteps tn (snd ?r) (snd (escalate_states env tn now sts (snd ?r)))"
    using Cons rsteps_rows_ok by blast
  then have all: "rsteps tn s (snd (escalate_states env tn now sts (snd ?r)))" using st by simp
  obtain res s1 where r: "?r = (res, s1)" by (cases ?r)
  obtain res2 s2 where r2: "escalate_states env tn now sts s1 = (res2, s2)" by (cases "escalate_states env tn now sts s1")
  show ?case using st all unfolding r by (cases res; cases res2) (simp_all add: r r2)
qed simp

lemma escalation_steps:
  assumes "rows_ok (rs_tasks s)" "ctx_tenant ctx \<in> {None, Some tn}"
  shows "rsteps tn s (snd (check_overdue_and_escalate env ctx now s))"
  unfolding check_overdue_and_escalate_def
  by (intro with_tenant_steps[OF assms(2)] escalate_states_steps assms(1))

text \<open>Verification. A saving needs a fresh ledger identifier.\<close>

definition saving_fresh :: "rem_env \<Rightarrow> rem_service \<Rightarrow> bool" where
  "saving_fresh env s \<longleftrightarrow> re_saving_id env \<notin> se_id ` set (rs_ledger s)"

definition task_fresh :: "rem_env \<Rightarrow> string \<Rightarrow> rem_service \<Rightarrow> bool" where
  "task_fresh env tn s \<longleftrightarrow> (\<forall>r \<in> set (rs_tasks s). rt_id (rr_task r) \<noteq> new_task_id env tn)"

lemma record_saving_fresh:
  assumes "saving_fresh env s"
  shows "record_saving env tn amount method who t s =
    (Inr (t\<lparr>rt_realised_saving := Some (py_round 2 amount), rt_realised_saving_method := Some method\<rparr>),
     s\<lparr>rs_ledger := rs_ledger s @ [saving_entry_of env tn amount method who t]\<rparr>)"
proof -
  have "find (\<lambda>x. se_id x = re_saving_id env) (rs_ledger s) = None"
    using assms by (simp add: saving_fresh_def find_None_iff image_iff) metis
  then show ?thesis by (simp add: record_saving_def save_saving_entry_def saving_entry_of_def Let_def)
qed

text \<open>The closed task and the ledger it leaves.\<close>

definition closed_task :: "rem_env \<Rightarrow> string \<Rightarrow> rem_task \<Rightarrow> rem_task" where
  "closed_task env actor t0 =
     (let t = rem_add_history ''VERIFIED_AND_CLOSED'' actor (Some (rt_state t0)) (Some CLOSED) None
                (t0\<lparr>rt_state := CLOSED, rt_closure_code := Some FIXED_AND_VERIFIED, rt_closed_at := Some (re_now env)\<rparr>)
      in case rt_estimated_saving t0 of
           Some x \<Rightarrow> if x > 0 then t\<lparr>rt_realised_saving := Some (py_round 2 x),
                                     rt_realised_saving_method := Some (infer_method (rt_category t0))\<rparr> else t
         | None \<Rightarrow> t)"

definition closing_entries :: "rem_env \<Rightarrow> string \<Rightarrow> string \<Rightarrow> rem_task \<Rightarrow> saving_entry list" where
  "closing_entries env tn actor t0 =
     (case rt_estimated_saving t0 of
        Some x \<Rightarrow> if x > 0 then [saving_entry_of env tn x (infer_method (rt_category t0)) actor (closed_task env actor t0)] else []
      | None \<Rightarrow> [])"

lemma saving_entry_of_cong:
  "rt_id t = rt_id t' \<Longrightarrow> rt_subject_entity t = rt_subject_entity t' \<Longrightarrow> rt_category t = rt_category t' \<Longrightarrow>
   rt_assignee_id t = rt_assignee_id t' \<Longrightarrow> rt_assignee_type t = rt_assignee_type t' \<Longrightarrow>
   saving_entry_of env tn x m who t = saving_entry_of env tn x m who t'"
  by (simp add: saving_entry_of_def saving_team_def)

lemma close_verified_eq:
  assumes "rows_ok (rs_tasks s)" "rem_get (rs_tasks s) tn (rt_id t0) = Some t00" "rt_created_at t0 = rt_created_at t00"
    and "saving_fresh env s"
  shows "\<exists>s'. close_verified env tn actor t0 s = (Inr ((closed_task env actor t0)\<lparr>rt_tenant_id := tn\<rparr>, True), s')
    \<and> rs_tasks s' = rem_put (rs_tasks s) tn (closed_task env actor t0)
    \<and> rs_ledger s' = rs_ledger s @ closing_entries env tn actor t0"
proof -
  let ?t = "rem_add_history ''VERIFIED_AND_CLOSED'' actor (Some (rt_state t0)) (Some CLOSED) None
                (t0\<lparr>rt_state := CLOSED, rt_closure_code := Some FIXED_AND_VERIFIED, rt_closed_at := Some (re_now env)\<rparr>)"
  have core: "rt_id (closed_task env actor t0) = rt_id t0" "rt_created_at (closed_task env actor t0) = rt_created_at t0"
    by (simp_all add: closed_task_def Let_def split: option.split)
  have "savable (rs_tasks s) tn (closed_task env actor t0)"
    using assms(1-3) by (intro stored_savable) (simp_all add: core)
  then have st: "store tn (closed_task env actor t0) k s1 = k ((closed_task env actor t0)\<lparr>rt_tenant_id := tn\<rparr>)
      (s1\<lparr>rs_tasks := rem_put (rs_tasks s1) tn (closed_task env actor t0)\<rparr>)" if "rs_tasks s1 = rs_tasks s" for k s1
    using that by (simp add: store_def rem_save_savable)
  show ?thesis
  proof (cases "\<exists>x. rt_estimated_saving t0 = Some x \<and> x > 0")
    case True
    then obtain x where x: "rt_estimated_saving t0 = Some x" "x > 0" by blast
    have cl: "closed_task env actor t0 = ?t\<lparr>rt_realised_saving := Some (py_round 2 x), rt_realised_saving_method := Some (infer_method (rt_category t0))\<rparr>"
      using x by (simp add: closed_task_def)
    have e: "saving_entry_of env tn x (infer_method (rt_category t0)) actor ?t =
        saving_entry_of env tn x (infer_method (rt_category t0)) actor (closed_task env actor t0)"
      by (rule saving_entry_of_cong) (simp_all add: cl rem_add_history_def)
    show ?thesis
      unfolding close_verified_def Let_def
      using x by (simp add: record_saving_fresh[OF assms(4)] cl[symmetric] st e closing_entries_def)
  next
    case False
    then have cl: "closed_task env actor t0 = ?t" "closing_entries env tn actor t0 = []"
      and am: "\<not> (case rt_estimated_saving t0 of Some x \<Rightarrow> x | None \<Rightarrow> 0) > 0"
      by (auto simp: closed_task_def closing_entries_def Let_def split: option.split)
    have est: "rt_estimated_saving (closed_task env actor t0) = rt_estimated_saving t0" unfolding cl(1) by simp
    show ?thesis
      unfolding close_verified_def Let_def using am est by (simp add: cl(1)[symmetric] cl(2) st)
  qed
qed

lemma closed_task_edits:
  assumes "rt_verification_attempts t0 = rt_verification_attempts t00 + 1" "rt_id t0 = rt_id t00"
    "rt_created_at t0 = rt_created_at t00" "rt_estimated_saving t0 = rt_estimated_saving t00" "rt_history t0 = rt_history t00"
    "rt_state t0 = rt_state t00"
  shows "\<exists>oe. edits t00 oe (closed_task env actor t0) \<and> closing oe"
  using assms
  by (intro exI[of _ "Some \<lparr> rh_actor_id = actor, rh_action = ''VERIFIED_AND_CLOSED'', rh_from_state = rt_state t00,
        rh_to_state = CLOSED, rh_reason = None \<rparr>"])
     (simp add: edits_def closed_task_def Let_def add_history_entries closing_def verification_entry_def tm_verified
        split: option.split)

lemma verify_steps:
  assumes "rows_ok (rs_tasks s)" "ctx_tenant ctx \<in> {None, Some tn}" "saving_fresh env s"
  shows "rsteps tn s (snd (verify_task env ctx i actor s))"
  unfolding verify_task_def
proof (intro with_tenant_steps[OF assms(2)] with_task_steps)
  fix t assume g: "rem_get (rs_tasks s) tn i = Some t"
  let ?t1 = "t\<lparr>rt_verification_attempts := rt_verification_attempts t + 1\<rparr>"
  have g1: "rem_get (rs_tasks s) tn (rt_id ?t1) = Some t" using rem_get_ident[OF assms(1) g] g by simp
  have close: "rsteps tn s (snd (close_verified env tn actor ?t1 s))"
  proof -
    obtain s' where s': "close_verified env tn actor ?t1 s = (Inr ((closed_task env actor ?t1)\<lparr>rt_tenant_id := tn\<rparr>, True), s')"
      "rs_tasks s' = rem_put (rs_tasks s) tn (closed_task env actor ?t1)"
      "rs_ledger s' = rs_ledger s @ closing_entries env tn actor ?t1"
      using close_verified_eq[OF assms(1) g1 _ assms(3), of actor] by auto
    obtain oe where oe: "edits t oe (closed_task env actor ?t1)" "closing oe"
      using closed_task_edits[of ?t1 t env actor] by auto
    have id: "rt_id (closed_task env actor ?t1) = rt_id t" "rt_estimated_saving (closed_task env actor ?t1) = rt_estimated_saving t"
      using oe(1) by (simp_all add: edits_def)
    have "books tn (closed_task env actor ?t1) oe (rs_ledger s) (rs_ledger s')"
      using oe(2) id unfolding books_def s'(3)
      by (auto simp: closing_entries_def saving_entry_of_def split: option.split)
    then show ?thesis
      unfolding s'(1) snd_conv using oe(1) id(1) g1 s'(2) by (intro r_into_rtranclp rs_edit[where oe = oe]) simp_all
  qed
  moreover have "rsteps tn s (snd (reopen_unverified env tn ?t1 s))"
    unfolding reopen_unverified_def by (intro store_entry[OF assms(1) g]) (simp_all add: tm_failed)
  ultimately show "rsteps tn s (snd (let t1 = ?t1 in case verify_condition (rs_verifier s) tn t1 of Inl e \<Rightarrow> (Inl e, s)
       | Inr cleared \<Rightarrow> if cleared then close_verified env tn actor t1 s else reopen_unverified env tn t1 s))"
    unfolding Let_def by (cases "verify_condition (rs_verifier s) tn ?t1") simp_all
qed

lemma resolve_steps:
  assumes "rows_ok (rs_tasks s)" "ctx_tenant ctx \<in> {None, Some tn}" "saving_fresh env s"
  shows "rsteps tn s (snd (resolve_task env ctx i actor s))"
  unfolding resolve_task_def
proof (intro with_tenant_steps[OF assms(2)] with_task_steps)
  fix t assume g: "rem_get (rs_tasks s) tn i = Some t"
  let ?t = "rem_add_history ''RESOLVED_PENDING_VERIFICATION'' actor (Some (rt_state t)) (Some AWAITING_VERIFICATION) None
              (t\<lparr>rt_state := AWAITING_VERIFICATION\<rparr>)"
  let ?k = "\<lambda>saved s. verify_task env ctx i actor (rem_record_audit env tn ''REMEDIATION_TASK_RESOLVED'' actor (rt_id saved) s)"
  have "rsteps tn s (snd (store tn ?t ?k s))" if "\<not> is_terminal t"
  proof -
    have ed: "edits t (Some \<lparr> rh_actor_id = actor, rh_action = ''RESOLVED_PENDING_VERIFICATION'', rh_from_state = rt_state t,
        rh_to_state = AWAITING_VERIFICATION, rh_reason = None \<rparr>) ?t" (is "edits t ?oe ?t")
      using that by (intro edits_entry) (simp_all add: is_terminal_def tm_resolve)
    have gi: "rem_get (rs_tasks s) tn (rt_id ?t) = Some t" using rem_get_ident[OF assms(1) g] g by simp
    let ?s = "rem_record_audit env tn ''REMEDIATION_TASK_RESOLVED'' actor (rt_id ?t) (s\<lparr>rs_tasks := rem_put (rs_tasks s) tn ?t\<rparr>)"
    have one: "rsteps tn s ?s"
      by (intro r_into_rtranclp rs_edit[OF gi ed]) (simp_all add: books_def closing_def)
    have "rsteps tn ?s (snd (verify_task env ctx i actor ?s))"
      using assms(2,3) rsteps_rows_ok[OF one assms(1)] by (intro verify_steps) (simp_all add: saving_fresh_def)
    then show ?thesis unfolding store_stored[OF assms(1) gi ed] using one by simp
  qed
  then show "rsteps tn s (snd (if is_terminal t then (Inl (TaskAlreadyClosedException i), s) else store tn ?t ?k s))" by simp
qed

text \<open>Creation. The identifier of a task must be new.\<close>

lemma make_task_new:
  assumes "make_task env tn source su title evidence a actor prio due sla est st cat alert finding = Inr t"
  shows "rt_id t = new_task_id env tn \<and> rt_history t = [] \<and> rt_state t = st \<and> rt_verification_attempts t = 0
    \<and> rt_closure_code t = None"
  using assms by (auto simp: make_task_def split: prod.splits if_splits)

lemma created_steps:
  assumes "rows_ok (rs_tasks s)" "task_fresh env tn s" "rt_id t = new_task_id env tn" "new_task t"
  shows "rsteps tn s (snd (store tn t (\<lambda>saved s. let (t2, s2) = try_itsm_mirror env tn saved
           (rem_record_audit env tn ''REMEDIATION_TASK_CREATED'' actor (rt_id saved) s) in (Inr (res t2), s2)) s))"
proof -
  let ?t = "t\<lparr>rt_tenant_id := tn\<rparr>"
  let ?s = "rem_record_audit env tn ''REMEDIATION_TASK_CREATED'' actor (rt_id ?t) (s\<lparr>rs_tasks := rem_put (rs_tasks s) tn t\<rparr>)"
  have new: "\<forall>r \<in> set (rs_tasks s). rt_id (rr_task r) \<noteq> rt_id t" using assms(2,3) by (simp add: task_fresh_def)
  have one: "rsteps tn s ?s"
    by (intro r_into_rtranclp rs_create[of s t]) (use new assms(4) in simp_all)
  have ok: "rows_ok (rs_tasks ?s)" using one assms(1) by (rule rsteps_rows_ok)
  let ?m = "?t\<lparr>rt_itsm_ticket_id := Some (re_ticket env)\<rparr>"
  have gm: "rem_get (rs_tasks ?s) tn (rt_id ?m) = Some ?t"
    using tasks.get_save[OF assms(1) unknown_savable[OF new]] by simp
  have ed: "edits ?t None ?m" by (simp add: edits_def)
  have "rsteps tn ?s (snd (try_itsm_mirror env tn ?t ?s))"
  proof (cases "rs_itsm_enabled ?s")
    case True
    then have eq: "snd (try_itsm_mirror env tn ?t ?s) = ?s\<lparr>rs_tasks := rem_put (rs_tasks ?s) tn ?m\<rparr>"
      unfolding try_itsm_mirror_def Let_def rem_save_savable[OF edit_savable[OF ok gm ed]] by simp
    have "rstep tn ?s (?s\<lparr>rs_tasks := rem_put (rs_tasks ?s) tn ?m\<rparr>)"
      by (rule rs_edit[OF gm ed]) (simp_all add: books_def closing_def)
    then show ?thesis unfolding eq by (rule r_into_rtranclp)
  qed (simp add: try_itsm_mirror_def)
  then have "rsteps tn s (snd (try_itsm_mirror env tn ?t ?s))" using one by simp
  then show ?thesis
    unfolding store_def rem_save_savable[OF unknown_savable[OF new]] by (simp add: split_beta Let_def)
qed

lemma create_steps:
  assumes "rows_ok (rs_tasks s)" "ctx_tenant ctx \<in> {None, Some tn}" "task_fresh env tn s"
  shows "rsteps tn s (snd (create_task env ctx q actor s))"
  unfolding create_task_def Let_def
proof (intro with_tenant_steps[OF assms(2)], goal_cases)
  case 1
  show ?case (is "rsteps tn s (snd (case ?m of Inl e \<Rightarrow> _ e | Inr t \<Rightarrow> _ t))")
  proof (cases ?m)
    case (Inr t)
    then have t: "rt_id t = new_task_id env tn" "rt_history t = []" "rt_verification_attempts t = 0" "rt_closure_code t = None"
      by (auto simp: try_bind_eq_Inr dest!: make_task_new)
    then have "new_task (rem_add_history ''CREATED'' actor None (Some (rt_state t)) None t)"
      by (simp add: new_task_def add_history_entries verification_entry_def)
    then show ?thesis unfolding Inr sum.case by (intro created_steps[OF assms(1,3), unfolded Let_def]) (simp_all add: t)
  qed simp
qed

lemma source_steps:
  assumes "rows_ok (rs_tasks s)" "ctx_tenant ctx \<in> {None, Some tn}" "task_fresh env tn s"
  shows "rsteps tn s (snd (create_from_source env ctx source su evidence data s))"
  unfolding create_from_source_def
proof (intro with_tenant_steps[OF assms(2)], goal_cases)
  case 1
  show ?case
  proof (cases "lookup_creation_rule env tn source s")
    case (Some r)
    show ?thesis
    proof (cases "build_task env tn source su evidence data r s")
      case (Inr t)
      then have t: "rt_id t = new_task_id env tn" "rt_history t = []" "rt_verification_attempts t = 0" "rt_closure_code t = None"
        "rt_state t = OPEN"
        by (auto simp: build_task_def try_bind_eq_Inr dest!: make_task_new)
      let ?t = "rem_add_history ''ASSIGNED'' ''system-assignment-engine'' (Some OPEN) (Some ASSIGNED) None
                   ((rem_add_history ''CREATED'' ''system-task-engine'' None (Some OPEN) None t)\<lparr>rt_state := ASSIGNED\<rparr>)"
      have "rt_history ?t = [\<lparr> rh_actor_id = ''system-task-engine'', rh_action = ''CREATED'', rh_from_state = OPEN,
            rh_to_state = OPEN, rh_reason = None \<rparr>,
          \<lparr> rh_actor_id = ''system-assignment-engine'', rh_action = ''ASSIGNED'', rh_from_state = OPEN,
            rh_to_state = ASSIGNED, rh_reason = None \<rparr>]"
        using t by (simp add: rem_add_history_def)
      then have "new_task ?t" using t by (simp add: new_task_def verification_entry_def tm_assign)
      then show ?thesis
        unfolding Some option.case Inr sum.case
        using created_steps[OF assms(1,3), of ?t "''SYSTEM_CREATION_ENGINE''" Some] t by simp
    qed (simp add: Some)
  qed simp
qed

section \<open>Runs\<close>

datatype rem_op =
    Create_task task_create_request string
  | From_source string rem_subject payload payload
  | Transition string task_state string "string option"
  | Assign string string string string "string option"
  | Resolve string string
  | Verify string string
  | Defer string string string int "string option"
  | Accept_risk string string string int
  | Check_deferrals "int option"
  | Check_overdue "int option"
  | Bulk_assign "string list" string string string "string option"
  | Bulk_reprioritise "string list" task_priority string "string option"
  | Bulk_defer "string list" string string int
  | Bulk_duplicate "string list" string string "string option"
  | Mirror string
  | Set_verifier task_verifier

type_synonym rem_event = "rem_env \<times> tenant_context option \<times> rem_op"

fun rem_step :: "rem_event \<Rightarrow> rem_service \<Rightarrow> rem_service" where
  "rem_step (env, ctx, op) s =
     (case op of
        Create_task q actor \<Rightarrow> snd (create_task env ctx q actor s)
      | From_source source su evidence data \<Rightarrow> snd (create_from_source env ctx source su evidence data s)
      | Transition i st actor reason \<Rightarrow> snd (rem_transition_state env ctx i st actor reason s)
      | Assign i who kind actor reason \<Rightarrow> snd (assign_task env ctx i who kind actor reason s)
      | Resolve i actor \<Rightarrow> snd (resolve_task env ctx i actor s)
      | Verify i actor \<Rightarrow> snd (verify_task env ctx i actor s)
      | Defer i actor reason expiry w \<Rightarrow> snd (defer_task env ctx i actor reason expiry w s)
      | Accept_risk i actor reason expiry \<Rightarrow> snd (accept_risk env ctx i actor reason expiry s)
      | Check_deferrals now \<Rightarrow> snd (check_expired_deferrals env ctx now s)
      | Check_overdue now \<Rightarrow> snd (check_overdue_and_escalate env ctx now s)
      | Bulk_assign ids who kind actor reason \<Rightarrow> snd (bulk_assign env ctx ids who kind actor reason s)
      | Bulk_reprioritise ids prio actor reason \<Rightarrow> snd (bulk_reprioritise env ctx ids prio actor reason s)
      | Bulk_defer ids actor reason expiry \<Rightarrow> snd (bulk_defer env ctx ids actor reason expiry s)
      | Bulk_duplicate ids canonical actor reason \<Rightarrow> snd (bulk_close_duplicate env ctx ids canonical actor reason s)
      | Mirror i \<Rightarrow> snd (mirror_to_itsm env ctx i s)
      | Set_verifier v \<Rightarrow> s\<lparr>rs_verifier := v\<rparr>)"

text \<open>The identifiers an event generates are new when it happens.\<close>

fun ids_fresh :: "rem_event \<Rightarrow> rem_service \<Rightarrow> bool" where
  "ids_fresh (env, ctx, op) s \<longleftrightarrow> saving_fresh env s
     \<and> (case ctx_tenant ctx of Some tn \<Rightarrow> task_fresh env tn s | None \<Rightarrow> True)"

fun fresh_run :: "rem_event list \<Rightarrow> rem_service \<Rightarrow> bool" where
  "fresh_run [] s \<longleftrightarrow> True"
| "fresh_run (e # es) s \<longleftrightarrow> ids_fresh e s \<and> fresh_run es (rem_step e s)"

abbreviation rem_run :: "rem_event list \<Rightarrow> rem_service \<Rightarrow> rem_service" where
  "rem_run es s \<equiv> fold rem_step es s"

lemma no_tenant_no_change:
  "ctx_tenant ctx = None \<Longrightarrow> rs_tasks (rem_step (env, ctx, op) s) = rs_tasks s \<and> rs_ledger (rem_step (env, ctx, op) s) = rs_ledger s"
  by (cases op) (auto simp: ctx_tenant_def create_task_def create_from_source_def rem_transition_state_def assign_task_def
      resolve_task_def verify_task_def defer_task_def accept_risk_def check_expired_deferrals_def
      check_overdue_and_escalate_def bulk_assign_def bulk_reprioritise_def bulk_defer_def bulk_close_duplicate_def
      mirror_to_itsm_def with_tenant_def split: sum.splits)

lemma step_steps:
  assumes "rows_ok (rs_tasks s)" "ids_fresh (env, ctx, op) s" "ctx_tenant ctx = Some tn"
  shows "rsteps tn s (rem_step (env, ctx, op) s)"
proof -
  have ctx: "ctx_tenant ctx \<in> {None, Some tn}" and fresh: "saving_fresh env s" "task_fresh env tn s"
    using assms(2,3) by simp_all
  note steps = create_steps[OF assms(1) ctx fresh(2)] source_steps[OF assms(1) ctx fresh(2)] transition_steps[OF assms(1) ctx]
    assign_steps[OF assms(1) ctx] resolve_steps[OF assms(1) ctx fresh(1)] verify_steps[OF assms(1) ctx fresh(1)]
    defer_steps[OF assms(1) ctx] risk_steps[OF assms(1) ctx] expiry_steps[OF assms(1) ctx] escalation_steps[OF assms(1) ctx]
    bulk_assign_steps[OF assms(1) ctx] bulk_reprioritise_steps[OF assms(1) ctx] bulk_defer_steps[OF assms(1) ctx]
    bulk_duplicate_steps[OF assms(1) ctx] mirror_steps[OF assms(1) ctx]
  show ?thesis by (cases op) (simp_all only: rem_step.simps rem_op.case steps, simp_all add: rsteps_same)
qed

section \<open>Histories and the ledger\<close>

definition task_ok :: "rem_task \<Rightarrow> bool" where
  "task_ok t \<longleftrightarrow>
     (\<exists>e es. rt_history t = e # es \<and> rh_action e = ''CREATED'' \<and> rh_from_state e = rh_to_state e
        \<and> history_path (rh_to_state e) es (rt_state t))
     \<and> rt_verification_attempts t = length (filter verification_entry (rt_history t))
     \<and> (rt_closure_code t = Some FIXED_AND_VERIFIED \<longrightarrow> closures t > 0)"

definition booked :: "rem_service \<Rightarrow> string \<Rightarrow> nat" where
  "booked s i = length (filter (\<lambda>e. se_task_id e = i) (rs_ledger s))"

definition has_estimate :: "rem_task \<Rightarrow> bool" where
  "has_estimate t \<longleftrightarrow> (\<exists>x. rt_estimated_saving t = Some x \<and> x > 0)"

definition rem_inv :: "rem_service \<Rightarrow> bool" where
  "rem_inv s \<longleftrightarrow> rows_ok (rs_tasks s)
     \<and> (\<forall>r \<in> set (rs_tasks s). task_ok (rr_task r)
          \<and> booked s (rt_id (rr_task r)) = (if has_estimate (rr_task r) then closures (rr_task r) else 0))
     \<and> (\<forall>e \<in> set (rs_ledger s). \<exists>r \<in> set (rs_tasks s). rt_id (rr_task r) = se_task_id e \<and> rr_tenant_id r = se_tenant_id e
          \<and> has_estimate (rr_task r) \<and> se_realised_amount e = py_round 2 (the (rt_estimated_saving (rr_task r))))"

lemma tenant_stamp [simp]:
  "task_ok (t\<lparr>rt_tenant_id := tn\<rparr>) = task_ok t" "closures (t\<lparr>rt_tenant_id := tn\<rparr>) = closures t"
  "has_estimate (t\<lparr>rt_tenant_id := tn\<rparr>) = has_estimate t"
  by (simp_all add: task_ok_def closures_def has_estimate_def)

lemma new_task_ok: "new_task t \<Longrightarrow> task_ok t \<and> closures t = 0"
  by (auto simp: new_task_def task_ok_def closures_def verification_entry_def list_all_iff filter_empty_conv)

lemma edits_closures: "edits t0 oe t \<Longrightarrow> closures t = closures t0 + of_bool (closing oe)"
  by (auto simp: edits_def closures_def closing_def split: option.splits)

lemma edits_task_ok:
  assumes "edits t0 oe t" and "task_ok t0"
  shows "task_ok t"
proof -
  obtain e es where h: "rt_history t0 = e # es" "rh_action e = ''CREATED''" "rh_from_state e = rh_to_state e"
    "history_path (rh_to_state e) es (rt_state t0)" using assms(2) by (auto simp: task_ok_def)
  have "history_path (rh_to_state e) (es @ (case oe of None \<Rightarrow> [] | Some x \<Rightarrow> [x])) (rt_state t)"
    using h(4) assms(1) by (auto simp: history_path_append edits_def split: option.splits)
  then show ?thesis
    using assms h(1-3) edits_closures[OF assms(1)] unfolding task_ok_def edits_def
    by (auto simp: verification_entry_def split: option.splits)
qed

lemma rstep_inv: "rstep tn s s' \<Longrightarrow> rem_inv s \<Longrightarrow> rem_inv s'"
proof (induction rule: rstep.induct)
  case (rs_same s' s)
  then show ?case by (simp add: rem_inv_def booked_def)
next
  case (rs_edit s t t0 oe s')
  have ok: "rows_ok (rs_tasks s)" using rs_edit.prems by (simp add: rem_inv_def)
  have sv: "savable (rs_tasks s) tn t" using ok rs_edit.hyps(1,2) by (rule edit_savable)
  have core: "rt_id t = rt_id t0" "rt_estimated_saving t = rt_estimated_saving t0" using rs_edit.hyps(2) by (simp_all add: edits_def)
  obtain r0 where r0: "r0 \<in> set (rs_tasks s)" "rr_task r0 = t0" "rr_tenant_id r0 = tn" using rs_edit.hyps(1) by (rule rem_getE)
  note set = rem_put_rows(1)[OF ok sv]
  have est: "has_estimate t = has_estimate t0" using core by (simp add: has_estimate_def)
  have t0: "task_ok t0" "booked s (rt_id t) = (if has_estimate t0 then closures t0 else 0)"
    using rs_edit.prems r0 core(1) by (auto simp: rem_inv_def)
  have bk: "booked s' i = booked s i + of_bool (i = rt_id t \<and> closing oe \<and> has_estimate t)" for i
    using rs_edit.hyps(4) by (auto simp: books_def booked_def has_estimate_def split: if_splits)
  have new: "e \<in> set (rs_ledger s) \<or> se_task_id e = rt_id t \<and> se_tenant_id e = tn \<and> has_estimate t
      \<and> se_realised_amount e = py_round 2 (the (rt_estimated_saving t))" if "e \<in> set (rs_ledger s')" for e
    using that rs_edit.hyps(4) by (auto simp: books_def has_estimate_def split: if_splits)
  have old: "\<exists>r \<in> set (rs_tasks s'). rt_id (rr_task r) = se_task_id e \<and> rr_tenant_id r = se_tenant_id e
      \<and> has_estimate (rr_task r) \<and> se_realised_amount e = py_round 2 (the (rt_estimated_saving (rr_task r)))"
    if "e \<in> set (rs_ledger s)" for e
  proof -
    obtain r where r: "r \<in> set (rs_tasks s)" "rt_id (rr_task r) = se_task_id e" "rr_tenant_id r = se_tenant_id e"
      "has_estimate (rr_task r)" "se_realised_amount e = py_round 2 (the (rt_estimated_saving (rr_task r)))"
      using rs_edit.prems \<open>e \<in> set (rs_ledger s)\<close> unfolding rem_inv_def by blast
    show ?thesis
    proof (cases "rt_id (rr_task r) = rt_id t")
      case True
      then have "r = r0" using row_unique[OF ok r(1) r0(1)] r0(2) core(1) by simp
      then show ?thesis using r r0 core est unfolding rs_edit.hyps(3) set by auto
    next
      case False
      then show ?thesis using r unfolding rs_edit.hyps(3) set by blast
    qed
  qed
  have rows: "task_ok (rr_task r) \<and> booked s' (rt_id (rr_task r)) = (if has_estimate (rr_task r) then closures (rr_task r) else 0)"
    if "r \<in> set (rs_tasks s')" for r
    using that rs_edit.prems t0 est edits_task_ok[OF rs_edit.hyps(2)] edits_closures[OF rs_edit.hyps(2)]
    unfolding rs_edit.hyps(3) set bk by (auto simp: rem_inv_def)
  have led: "\<exists>r \<in> set (rs_tasks s'). rt_id (rr_task r) = se_task_id e \<and> rr_tenant_id r = se_tenant_id e
      \<and> has_estimate (rr_task r) \<and> se_realised_amount e = py_round 2 (the (rt_estimated_saving (rr_task r)))"
    if "e \<in> set (rs_ledger s')" for e
    using new[OF that] old[of e] unfolding rs_edit.hyps(3) set by auto
  show ?case using rows led rem_put_rows(2)[OF ok sv] rs_edit.hyps(3) by (simp add: rem_inv_def)
next
  case (rs_create s t s')
  have ok: "rows_ok (rs_tasks s)" using rs_create.prems by (simp add: rem_inv_def)
  note sv = unknown_savable[OF rs_create.hyps(1)]
  have set: "set (rs_tasks s') = insert \<lparr> rr_tenant_id = tn, rr_created_at = rt_created_at t, rr_task = t\<lparr>rt_tenant_id := tn\<rparr> \<rparr>
      (set (rs_tasks s))" unfolding rs_create.hyps(3) rem_put_rows(1)[OF ok sv] using rs_create.hyps(1) by auto
  have "booked s (rt_id t) = 0"
    using rs_create.prems rs_create.hyps(1) by (fastforce simp: booked_def rem_inv_def filter_empty_conv)
  then show ?case
    using rs_create.prems new_task_ok[OF rs_create.hyps(2)] rem_put_rows(2)[OF ok sv] rs_create.hyps(3,4) set
    by (auto simp: rem_inv_def booked_def)
qed

lemma rsteps_inv: "rsteps tn s s' \<Longrightarrow> rem_inv s \<Longrightarrow> rem_inv s'"
  by (induction rule: rtranclp_induct) (auto intro: rstep_inv)

lemma rem_inv_cong: "rs_tasks s' = rs_tasks s \<Longrightarrow> rs_ledger s' = rs_ledger s \<Longrightarrow> rem_inv s' = rem_inv s"
  by (simp add: rem_inv_def booked_def)

lemma rem_inv_step:
  assumes "rem_inv s" "ids_fresh (env, ctx, op) s"
  shows "rem_inv (rem_step (env, ctx, op) s)"
proof (cases "ctx_tenant ctx")
  case None
  then show ?thesis using rem_inv_cong no_tenant_no_change[OF None] assms(1) by metis
next
  case (Some tn)
  have "rows_ok (rs_tasks s)" using assms(1) by (simp add: rem_inv_def)
  from rsteps_inv[OF step_steps[OF this assms(2) Some] assms(1)] show ?thesis .
qed

lemma rem_inv_run: "rem_inv s \<Longrightarrow> fresh_run es s \<Longrightarrow> rem_inv (rem_run es s)"
proof (induction es arbitrary: s)
  case (Cons e es)
  obtain env ctx op where e: "e = (env, ctx, op)" by (cases e)
  have "rem_inv (rem_step e s)" unfolding e by (rule rem_inv_step) (use Cons.prems e in auto)
  then show ?case using Cons by simp
qed simp

lemma rem_inv_init: "rs_tasks s = [] \<Longrightarrow> rs_ledger s = [] \<Longrightarrow> rem_inv s"
  by (simp add: rem_inv_def rows_ok_def)

section \<open>Properties of runs\<close>

text \<open>The states a service reaches from empty tables, with fresh identifiers.\<close>

definition reached :: "rem_service \<Rightarrow> bool" where
  "reached s \<longleftrightarrow> (\<exists>s0 es. rs_tasks s0 = [] \<and> rs_ledger s0 = [] \<and> fresh_run es s0 \<and> s = rem_run es s0)"

lemma reached_inv: "reached s \<Longrightarrow> rem_inv s"
  using rem_inv_run rem_inv_init by (auto simp: reached_def)

lemma fresh_run_append: "fresh_run (es @ fs) s \<longleftrightarrow> fresh_run es s \<and> fresh_run fs (rem_run es s)"
  by (induction es arbitrary: s) auto

lemma reached_step:
  assumes "reached s" "ids_fresh e s"
  shows "reached (rem_step e s)"
proof -
  obtain s0 es where r: "rs_tasks s0 = []" "rs_ledger s0 = []" "fresh_run es s0" "s = rem_run es s0"
    using assms(1) by (auto simp: reached_def)
  then have "fresh_run (es @ [e]) s0" "rem_step e s = rem_run (es @ [e]) s0"
    using assms(2) by (simp_all add: fresh_run_append)
  with r(1,2) show ?thesis unfolding reached_def by blast
qed

lemma inv_stored: "rem_inv s \<Longrightarrow> rem_get (rs_tasks s) tn i = Some t \<Longrightarrow>
    task_ok t \<and> booked s i = (if has_estimate t then closures t else 0)"
  by (elim rem_getE) (auto simp: rem_inv_def)

text \<open>
  C5. Histories are complete and say which operation moved a task. In every state the service reaches, the history of a
  task starts with its creation, has no gaps and ends in the stored state. Every change of state it records is an
  edge of \<open>VALID_TRANSITIONS\<close>, or comes from one of the operations that do not consult that graph: resolving
  and deferring, which never touch a closed, rejected or duplicate task, and verification, risk acceptance and
  closing as duplicate, which check nothing. Plain status changes are always edges, deferrals and accepted risks
  carry a reason, and the verification attempts are the recorded verification outcomes.
\<close>

theorem task_histories_replay:
  assumes "reached s" "rem_get (rs_tasks s) tn i = Some t"
  shows "\<exists>e es. rt_history t = e # es \<and> rh_action e = ''CREATED'' \<and> chained (rh_to_state e) es (rt_state t)
    \<and> (\<forall>h \<in> set es. rh_from_state h = rh_to_state h
         \<or> rh_to_state h \<in> set (VALID_TRANSITIONS (rh_from_state h))
         \<or> rh_from_state h \<notin> {CLOSED, REJECTED, DUPLICATE} \<and> (rh_action h, rh_to_state h) \<in>
             {(''RESOLVED_PENDING_VERIFICATION'', AWAITING_VERIFICATION), (''DEFERRED'', DEFERRED)}
         \<or> (rh_action h, rh_to_state h) \<in> {(''VERIFIED_AND_CLOSED'', CLOSED), (''VERIFICATION_FAILED_REOPENED'', OPEN),
             (''RISK_ACCEPTED'', CLOSED), (''MARKED_DUPLICATE'', DUPLICATE)})
    \<and> (\<forall>h \<in> set es. rh_action h = ''STATUS_CHANGED'' \<longrightarrow> rh_to_state h \<in> set (VALID_TRANSITIONS (rh_from_state h)))
    \<and> (\<forall>h \<in> set es. rh_action h \<in> {''DEFERRED'', ''RISK_ACCEPTED''} \<longrightarrow> truthy (rh_reason h))
    \<and> rt_verification_attempts t = length (filter verification_entry (rt_history t))"
proof -
  obtain e es where h: "rt_history t = e # es" "rh_action e = ''CREATED''" "history_path (rh_to_state e) es (rt_state t)"
      "rt_verification_attempts t = length (filter verification_entry (rt_history t))"
    using inv_stored[OF reached_inv[OF assms(1)] assms(2)] unfolding task_ok_def by blast
  note move = history_path_moves[OF h(3)]
  show ?thesis
    using h history_path_chained[OF h(3)]
    by (intro exI[of _ e] exI[of _ es]) (auto dest!: move elim: task_move.cases)
qed

text \<open>
  C6. In every state the service reaches, the ledger holds for each task exactly one saving per verified closure if its
  estimate is positive, and none otherwise, each with the estimate rounded to cents and the tenant of the task; a
  task closed as fixed and verified has a verified closure in its history.
\<close>

theorem ledger_matches_verified_closures:
  assumes "reached s" "rem_get (rs_tasks s) tn i = Some t"
  shows "booked s i = (if has_estimate t then closures t else 0)
    \<and> (\<forall>e \<in> set (rs_ledger s). se_task_id e = i \<longrightarrow> se_tenant_id e = tn \<and> se_realised_amount e = py_round 2 (the (rt_estimated_saving t)))
    \<and> (rt_closure_code t = Some FIXED_AND_VERIFIED \<longrightarrow> closures t > 0)"
proof (intro conjI ballI impI)
  note inv = reached_inv[OF assms(1)]
  have ok: "rows_ok (rs_tasks s)" using inv by (simp add: rem_inv_def)
  obtain r0 where r0: "r0 \<in> set (rs_tasks s)" "rr_task r0 = t" "rt_id t = i" "rr_tenant_id r0 = tn" using assms(2) by (rule rem_getE)
  show "booked s i = (if has_estimate t then closures t else 0)" using inv_stored[OF inv assms(2)] ..
  show "closures t > 0" if "rt_closure_code t = Some FIXED_AND_VERIFIED"
    using inv_stored[OF inv assms(2)] that by (simp add: task_ok_def)
  fix e assume e: "e \<in> set (rs_ledger s)" "se_task_id e = i"
  then obtain r where r: "r \<in> set (rs_tasks s)" "rt_id (rr_task r) = i" "rr_tenant_id r = se_tenant_id e"
    "se_realised_amount e = py_round 2 (the (rt_estimated_saving (rr_task r)))" using inv unfolding rem_inv_def by blast
  have "r = r0" using row_unique[OF ok r(1) r0(1)] r(2) r0(2,3) by simp
  then show "se_tenant_id e = tn" "se_realised_amount e = py_round 2 (the (rt_estimated_saving t))" using r r0 by simp_all
qed

lemma rstep_isolated:
  assumes "rstep tn' s s'" "rows_ok (rs_tasks s)" "tn' \<noteq> tn"
  shows "rem_get (rs_tasks s') tn i = rem_get (rs_tasks s) tn i
    \<and> filter (\<lambda>e. se_tenant_id e = tn) (rs_ledger s') = filter (\<lambda>e. se_tenant_id e = tn) (rs_ledger s)"
  using assms
proof (induction rule: rstep.induct)
  case (rs_edit s t t0 oe s')
  then show ?case using tasks.other_tenant[OF rs_edit.prems(1) edit_savable[OF rs_edit.prems(1) rs_edit.hyps(1,2)]]
    by (auto simp: books_def split: if_splits)
next
  case (rs_create s t s')
  then show ?case using tasks.other_tenant[OF rs_create.prems(1) unknown_savable[OF rs_create.hyps(1)]] by auto
qed simp

lemma rsteps_isolated:
  "rsteps tn' s s' \<Longrightarrow> rows_ok (rs_tasks s) \<Longrightarrow> tn' \<noteq> tn \<Longrightarrow>
   rem_get (rs_tasks s') tn i = rem_get (rs_tasks s) tn i
     \<and> filter (\<lambda>e. se_tenant_id e = tn) (rs_ledger s') = filter (\<lambda>e. se_tenant_id e = tn) (rs_ledger s)"
  by (induction rule: rtranclp_induct) (use rstep_isolated rsteps_rows_ok in metis)+

text \<open>An operation never touches the tasks and the ledger entries of a tenant other than the caller's.\<close>

theorem remediation_tenants_isolated:
  assumes "reached s" "ids_fresh (env, ctx, op) s" "ctx_tenant ctx \<noteq> Some tn"
  shows "rem_get (rs_tasks (rem_step (env, ctx, op) s)) tn i = rem_get (rs_tasks s) tn i
    \<and> filter (\<lambda>e. se_tenant_id e = tn) (rs_ledger (rem_step (env, ctx, op) s)) = filter (\<lambda>e. se_tenant_id e = tn) (rs_ledger s)"
proof -
  have ok: "rows_ok (rs_tasks s)" using reached_inv[OF assms(1)] by (simp add: rem_inv_def)
  show ?thesis
  proof (cases "ctx_tenant ctx")
    case None
    then show ?thesis using no_tenant_no_change[OF None, of env op s] by simp
  next
    case (Some tn')
    then show ?thesis using rsteps_isolated[OF step_steps[OF ok assms(2) Some] ok] assms(3) by auto
  qed
qed

section \<open>Verification\<close>

lemma with_tenant_known: "ctx_tenant ctx = Some tn \<Longrightarrow> with_tenant ctx f s = f tn s"
  by (simp add: with_tenant_def ctx_tenant_def split: sum.splits)

lemma with_task_known: "rem_get (rs_tasks s) tn i = Some t \<Longrightarrow> with_task tn i f s = f t s"
  by (simp add: with_task_def)

text \<open>
  C23. Verification decides alone: whatever state a stored task is in, it is closed as fixed if the condition is found cleared and
  reopened otherwise, the attempt is counted, and one saving is booked exactly if it was closed and its estimate is
  positive. As nothing depends on the state before, a task verified twice is booked twice, and a rejected or
  duplicate task is reopened.
\<close>

theorem verification_decides:
  assumes "reached s" "rem_get (rs_tasks s) tn i = Some t" "ctx_tenant ctx = Some tn" "saving_fresh env s"
    and "verify_condition (rs_verifier s) tn (t\<lparr>rt_verification_attempts := rt_verification_attempts t + 1\<rparr>) = Inr cleared"
  shows "\<exists>t' s'. verify_task env ctx i actor s = (Inr (t', cleared), s') \<and> rem_get (rs_tasks s') tn i = Some t'
    \<and> rt_state t' = (if cleared then CLOSED else OPEN) \<and> rt_verification_attempts t' = rt_verification_attempts t + 1
    \<and> (cleared \<longrightarrow> rt_closure_code t' = Some FIXED_AND_VERIFIED)
    \<and> booked s' i = booked s i + of_bool (cleared \<and> has_estimate t)"
proof -
  let ?t1 = "t\<lparr>rt_verification_attempts := rt_verification_attempts t + 1\<rparr>"
  have ok: "rows_ok (rs_tasks s)" using reached_inv[OF assms(1)] by (simp add: rem_inv_def)
  have id: "rt_id t = i" using rem_get_ident[OF ok assms(2)] by simp
  have run: "verify_task env ctx i actor s =
      (if cleared then close_verified env tn actor ?t1 s else reopen_unverified env tn ?t1 s)"
    unfolding verify_task_def with_tenant_known[OF assms(3)] with_task_known[OF assms(2)] Let_def assms(5) by simp
  show ?thesis
  proof (cases cleared)
    case True
    have g: "rem_get (rs_tasks s) tn (rt_id ?t1) = Some t" using assms(2) id by simp
    obtain s' where s': "close_verified env tn actor ?t1 s = (Inr ((closed_task env actor ?t1)\<lparr>rt_tenant_id := tn\<rparr>, True), s')"
      "rs_tasks s' = rem_put (rs_tasks s) tn (closed_task env actor ?t1)" "rs_ledger s' = rs_ledger s @ closing_entries env tn actor ?t1"
      using close_verified_eq[OF ok g _ assms(4), of actor] by auto
    have cl: "rt_id (closed_task env actor ?t1) = i" "rt_state (closed_task env actor ?t1) = CLOSED"
      "rt_verification_attempts (closed_task env actor ?t1) = rt_verification_attempts t + 1"
      "rt_closure_code (closed_task env actor ?t1) = Some FIXED_AND_VERIFIED"
      "rt_created_at (closed_task env actor ?t1) = rt_created_at t"
      using id by (simp_all add: closed_task_def Let_def split: option.split)
    have "savable (rs_tasks s) tn (closed_task env actor ?t1)"
      by (rule stored_savable[OF ok]) (use assms(2) cl in simp_all)
    then have "rem_get (rs_tasks s') tn i = Some ((closed_task env actor ?t1)\<lparr>rt_tenant_id := tn\<rparr>)"
      unfolding s'(2) using rem_get_put[OF ok] cl(1) by simp
    moreover have "booked s' i = booked s i + of_bool (has_estimate t)"
      using cl(1) unfolding booked_def s'(3) by (auto simp: closing_entries_def has_estimate_def saving_entry_of_def split: option.split)
    ultimately show ?thesis
      using True run s'(1) cl by (intro exI[of _ "(closed_task env actor ?t1)\<lparr>rt_tenant_id := tn\<rparr>"] exI[of _ s']) simp
  next
    case False
    let ?t = "rem_add_history ''VERIFICATION_FAILED_REOPENED'' ''system-verifier'' (Some (rt_state ?t1)) (Some OPEN) None (?t1\<lparr>rt_state := OPEN\<rparr>)"
    have sv: "savable (rs_tasks s) tn ?t" by (rule stored_savable[OF ok]) (use assms(2) id in simp_all)
    show ?thesis
      using False rem_get_put[OF ok sv, of tn i] unfolding run reopen_unverified_def store_def rem_save_savable[OF sv]
      by (simp add: id booked_def)
  qed
qed

text \<open>
  The state change that an assignee may request closes a resolved task without any verification: no attempt is counted, no
  closure code is set, and the condition may still exist.
\<close>

theorem transition_closes_unverified:
  assumes "reached s" "rem_get (rs_tasks s) tn i = Some t" "ctx_tenant ctx = Some tn"
    and "rt_state t \<in> {RESOLVED, AWAITING_VERIFICATION, VERIFIED}"
  shows "\<exists>t' s'. rem_transition_state env ctx i CLOSED actor reason s = (Inr t', s') \<and> rem_get (rs_tasks s') tn i = Some t'
    \<and> rt_state t' = CLOSED \<and> rt_verification_attempts t' = rt_verification_attempts t \<and> rt_closure_code t' = rt_closure_code t
    \<and> rs_ledger s' = rs_ledger s"
proof -
  have ok: "rows_ok (rs_tasks s)" using reached_inv[OF assms(1)] by (simp add: rem_inv_def)
  have id: "rt_id t = i" using rem_get_ident[OF ok assms(2)] by simp
  let ?t = "rem_add_history ''STATUS_CHANGED'' actor (Some (rt_state t)) (Some CLOSED) reason
      (t\<lparr>rt_state := CLOSED, rt_reason_code := or_else reason (rt_reason_code t)\<rparr>)"
  have sv: "savable (rs_tasks s) tn ?t" by (rule stored_savable[OF ok]) (use assms(2) id in simp_all)
  have "rem_transition_state env ctx i CLOSED actor reason s =
      store tn ?t (\<lambda>saved s. (Inr saved, rem_record_audit env tn ''REMEDIATION_TASK_STATUS_CHANGED'' actor (rt_id saved) s)) s"
    using assms(4) unfolding rem_transition_state_def with_tenant_known[OF assms(3)] with_task_known[OF assms(2)]
    by (auto simp: is_terminal_def)
  then show ?thesis
    using rem_get_put[OF ok sv, of tn i] unfolding store_def rem_save_savable[OF sv] by (simp add: id)
qed

section \<open>A run\<close>

definition demo_rem_env :: "string \<Rightarrow> rem_env" where
  "demo_rem_env h = \<lparr> re_now = 0, re_month = ''2026-10'', re_hex = h, re_saving_id = h, re_ticket = ''JIRA-1'',
     re_str = (\<lambda>v. []), re_float = (\<lambda>x. None), re_int = (\<lambda>x. None), re_owner_records = None, re_rule_records = None,
     re_audit_ok = True, re_alert_ok = True \<rparr>"

definition demo_rem :: rem_service where
  "demo_rem = \<lparr> rs_tasks = [], rs_ledger = [], rs_rules = [], rs_verifier = \<lparr> tv_custom = [], tv_entity_states = [] \<rparr>,
     rs_default_queue = ''queue-finops-operations'', rs_schedule = (\<lambda>t. demo_week), rs_itsm_enabled = False,
     rs_alert_service = False, rs_resolved_alerts = [], rs_audit = [] \<rparr>"

definition demo_rem_request :: "bool \<Rightarrow> task_create_request" where
  "demo_rem_request cleared = \<lparr> tq_source = ''MANUAL'',
     tq_subject_entity = \<lparr> su_entity_type = ''resource'', su_entity_id = ''vm-1'', su_entity_name = [], su_scope_id = None,
       su_provider = None, su_application_id = None, su_business_unit_id = None, su_cost_centre_id = None \<rparr>,
     tq_title = ''Stop vm-1'', tq_evidence_linkage = [(''condition_cleared'', PBool cleared)], tq_category = IDLE_RESOURCE,
     tq_priority = HIGH, tq_assignee_id = Some ''u1'', tq_assignee_type = ''USER'', tq_estimated_saving = Some 100,
     tq_sla_working_hours = Some (1/2), tq_alert_id = None, tq_finding_id = None \<rparr>"

definition demo_rem_ctx :: "tenant_context option" where
  "demo_rem_ctx = Some \<lparr> tc_tenant_id = ''acme'', tc_user_id = ''u1'', tc_roles = [], tc_correlation_id = None, tc_is_superuser = False \<rparr>"

definition demo_created :: "bool \<Rightarrow> rem_service" where
  "demo_created cleared = rem_run [(demo_rem_env ''1'', demo_rem_ctx, Create_task (demo_rem_request cleared) ''u1'')] demo_rem"

definition demo_new :: "bool \<Rightarrow> rem_task" where
  "demo_new cleared = rr_task (hd (rs_tasks (demo_created cleared)))"

lemma demo_tenant: "ctx_tenant demo_rem_ctx = Some ''acme''"
  by code_simp

lemma demo_created_rows: "\<exists>r. rs_tasks (demo_created c) = [r] \<and> rs_ledger (demo_created c) = [] \<and> rr_tenant_id r = ''acme''
    \<and> rt_id (rr_task r) = ''rem-task-acme-1'' \<and> rt_state (rr_task r) = ASSIGNED \<and> rt_estimated_saving (rr_task r) = Some 100
    \<and> rt_category (rr_task r) = IDLE_RESOURCE \<and> rt_evidence_linkage (rr_task r) = [(''condition_cleared'', PBool c)]
    \<and> rs_verifier (demo_created c) = \<lparr> tv_custom = [], tv_entity_states = [] \<rparr>"
  by (simp add: demo_created_def create_task_def with_tenant_known[OF demo_tenant] demo_rem_request_def make_task_def
      demo_rem_def demo_rem_env_def store_def rem_save_def try_itsm_mirror_def rem_record_audit_def new_task_id_def rem_add_history_def Let_def)

lemma demo_fresh: "ids_fresh (demo_rem_env ''1'', demo_rem_ctx, op) demo_rem"
  by (simp add: saving_fresh_def task_fresh_def demo_tenant demo_rem_def)

lemma demo_rem_reached: "reached demo_rem"
  unfolding reached_def by (intro exI[of _ demo_rem] exI[of _ "[]"]) (simp add: demo_rem_def)

lemma demo_created_reached: "reached (demo_created c)"
  using reached_step[OF demo_rem_reached demo_fresh] by (simp add: demo_created_def del: rem_step.simps)

lemma demo_created_get:
  "rem_get (rs_tasks (demo_created c)) ''acme'' ''rem-task-acme-1'' = Some (demo_new c)"
  "rt_id (demo_new c) = ''rem-task-acme-1''" "rt_state (demo_new c) = ASSIGNED" "rt_estimated_saving (demo_new c) = Some 100"
  "rt_category (demo_new c) = IDLE_RESOURCE" "rt_evidence_linkage (demo_new c) = [(''condition_cleared'', PBool c)]"
  "rs_verifier (demo_created c) = \<lparr> tv_custom = [], tv_entity_states = [] \<rparr>" "rs_ledger (demo_created c) = []"
  using demo_created_rows[of c] by (auto simp: rem_get_def demo_new_def)

lemma demo_cleared: "verify_condition (rs_verifier (demo_created c)) ''acme''
    ((demo_new c)\<lparr>rt_verification_attempts := rt_verification_attempts (demo_new c) + 1\<rparr>) = Inr c"
  by (cases c) (simp_all add: verify_condition_def demo_created_get verify_evidence_def Let_def payload_get_def)

theorem verification_decides_witness:
  "\<exists>t' s'. verify_task (demo_rem_env ''2'') demo_rem_ctx ''rem-task-acme-1'' ''u2'' (demo_created True) = (Inr (t', True), s')
     \<and> rt_state t' = CLOSED \<and> booked s' ''rem-task-acme-1'' = 1"
  using verification_decides[OF demo_created_reached demo_created_get(1) demo_tenant _ demo_cleared, of "demo_rem_env ''2''" True "''u2''"]
  by (auto simp: saving_fresh_def demo_created_get has_estimate_def booked_def)

definition demo_closed :: rem_service where
  "demo_closed = rem_step (demo_rem_env ''2'', demo_rem_ctx, Verify ''rem-task-acme-1'' ''u2'') (demo_created True)"

lemma demo_second_fresh: "ids_fresh (demo_rem_env ''2'', demo_rem_ctx, op) (demo_created c)"
  using demo_created_rows[of c] by (auto simp: saving_fresh_def task_fresh_def demo_tenant new_task_id_def demo_rem_env_def)

lemma demo_closed_state:
  "reached demo_closed" "\<exists>t. rem_get (rs_tasks demo_closed) ''acme'' ''rem-task-acme-1'' = Some t \<and> rt_estimated_saving t = Some 100"
  "booked demo_closed ''rem-task-acme-1'' = 1"
proof -
  show r: "reached demo_closed" unfolding demo_closed_def using demo_created_reached demo_second_fresh by (rule reached_step)
  have sf: "saving_fresh (demo_rem_env ''2'') (demo_created True)" by (simp add: saving_fresh_def demo_created_get)
  have ok: "rows_ok (rs_tasks (demo_created True))" using reached_inv[OF demo_created_reached] by (simp add: rem_inv_def)
  let ?t1 = "(demo_new True)\<lparr>rt_verification_attempts := rt_verification_attempts (demo_new True) + 1\<rparr>"
  have g: "rem_get (rs_tasks (demo_created True)) ''acme'' (rt_id ?t1) = Some (demo_new True)" by (simp add: demo_created_get)
  obtain s' where s': "close_verified (demo_rem_env ''2'') ''acme'' ''u2'' ?t1 (demo_created True) =
      (Inr ((closed_task (demo_rem_env ''2'') ''u2'' ?t1)\<lparr>rt_tenant_id := ''acme''\<rparr>, True), s')"
    "rs_tasks s' = rem_put (rs_tasks (demo_created True)) ''acme'' (closed_task (demo_rem_env ''2'') ''u2'' ?t1)"
    "rs_ledger s' = rs_ledger (demo_created True) @ closing_entries (demo_rem_env ''2'') ''acme'' ''u2'' ?t1"
    using close_verified_eq[OF ok g _ sf, of "''u2''"] by auto
  have run: "demo_closed = s'"
    unfolding demo_closed_def rem_step.simps rem_op.case verify_task_def with_tenant_known[OF demo_tenant]
      with_task_known[OF demo_created_get(1)] Let_def demo_cleared by (simp add: s'(1)[simplified])
  have cl: "rt_id (closed_task (demo_rem_env ''2'') ''u2'' ?t1) = ''rem-task-acme-1''"
    "rt_estimated_saving (closed_task (demo_rem_env ''2'') ''u2'' ?t1) = Some 100"
    "rt_created_at (closed_task (demo_rem_env ''2'') ''u2'' ?t1) = rt_created_at (demo_new True)"
    by (simp_all add: closed_task_def Let_def demo_created_get)
  have "savable (rs_tasks (demo_created True)) ''acme'' (closed_task (demo_rem_env ''2'') ''u2'' ?t1)"
    by (rule stored_savable[OF ok]) (use g cl demo_created_get in simp_all)
  then show "\<exists>t. rem_get (rs_tasks demo_closed) ''acme'' ''rem-task-acme-1'' = Some t \<and> rt_estimated_saving t = Some 100"
    using rem_get_put[OF ok, of "''acme''" _ "''acme''" "''rem-task-acme-1''"] cl unfolding run s'(2) by simp
  show "booked demo_closed ''rem-task-acme-1'' = 1"
    unfolding run booked_def s'(3) using cl(1) by (simp add: closing_entries_def demo_created_get saving_entry_of_def)
qed

text \<open>A verified closure, and its entry.\<close>

theorem task_histories_replay_witness:
  "\<exists>t e es. rem_get (rs_tasks demo_closed) ''acme'' ''rem-task-acme-1'' = Some t \<and> rt_history t = e # es
     \<and> chained (rh_to_state e) es (rt_state t) \<and> rt_verification_attempts t = length (filter verification_entry (rt_history t))"
  using demo_closed_state(2) task_histories_replay[OF demo_closed_state(1)] by blast

theorem ledger_matches_verified_closures_witness:
  "\<exists>t. rem_get (rs_tasks demo_closed) ''acme'' ''rem-task-acme-1'' = Some t \<and> closures t = 1"
proof -
  obtain t where t: "rem_get (rs_tasks demo_closed) ''acme'' ''rem-task-acme-1'' = Some t" "rt_estimated_saving t = Some 100"
    using demo_closed_state(2) by blast
  show ?thesis
    using ledger_matches_verified_closures[OF demo_closed_state(1) t(1)] t demo_closed_state(3) by (simp add: has_estimate_def)
qed

theorem remediation_tenants_isolated_witness:
  "rem_get (rs_tasks demo_closed) ''other'' ''rem-task-acme-1'' = None"
  using remediation_tenants_isolated[OF demo_created_reached[of True] demo_second_fresh[of "Verify ''rem-task-acme-1'' ''u2''" True],
      of "''other''" "''rem-task-acme-1''"]
    demo_created_rows[of True]
  by (auto simp: demo_tenant demo_closed_def rem_get_def simp del: rem_step.simps)

definition demo_resolved_task :: rem_service where
  "demo_resolved_task = rem_step (demo_rem_env ''2'', demo_rem_ctx, Transition ''rem-task-acme-1'' RESOLVED ''u1'' None) (demo_created False)"

lemma demo_resolved_stored:
  "reached demo_resolved_task" "\<exists>t. rem_get (rs_tasks demo_resolved_task) ''acme'' ''rem-task-acme-1'' = Some t \<and> rt_state t = RESOLVED"
proof -
  show "reached demo_resolved_task" unfolding demo_resolved_task_def using demo_created_reached demo_second_fresh by (rule reached_step)
  have ok: "rows_ok (rs_tasks (demo_created False))" using reached_inv[OF demo_created_reached] by (simp add: rem_inv_def)
  let ?t = "rem_add_history ''STATUS_CHANGED'' ''u1'' (Some ASSIGNED) (Some RESOLVED) None
      ((demo_new False)\<lparr>rt_state := RESOLVED, rt_reason_code := or_else None (rt_reason_code (demo_new False))\<rparr>)"
  have sv: "savable (rs_tasks (demo_created False)) ''acme'' ?t"
    by (rule stored_savable[OF ok]) (use demo_created_get in simp_all)
  show "\<exists>t. rem_get (rs_tasks demo_resolved_task) ''acme'' ''rem-task-acme-1'' = Some t \<and> rt_state t = RESOLVED"
    using rem_get_put[OF ok sv, of "''acme''" "''rem-task-acme-1''"]
    unfolding demo_resolved_task_def rem_step.simps rem_op.case rem_transition_state_def with_tenant_known[OF demo_tenant]
      with_task_known[OF demo_created_get(1)] store_def
    by (simp add: demo_created_get is_terminal_def rem_save_savable[OF sv])
qed

theorem transition_closes_unverified_witness:
  "\<exists>t' s'. rem_transition_state (demo_rem_env ''3'') demo_rem_ctx ''rem-task-acme-1'' CLOSED ''u1'' None demo_resolved_task = (Inr t', s')
     \<and> rt_state t' = CLOSED"
proof -
  obtain t where t: "rem_get (rs_tasks demo_resolved_task) ''acme'' ''rem-task-acme-1'' = Some t" "rt_state t = RESOLVED"
    using demo_resolved_stored(2) by blast
  show ?thesis
    using transition_closes_unverified[OF demo_resolved_stored(1) t(1) demo_tenant, of "demo_rem_env ''3''" "''u1''" None] t(2) by auto
qed

section \<open>Deferrals\<close>

definition deferral_over :: "int \<Rightarrow> rem_task \<Rightarrow> bool" where
  "deferral_over now t \<longleftrightarrow> rt_state t = DEFERRED \<and> (case rt_deferral_expiry t of Some x \<Rightarrow> x \<le> now | None \<Rightarrow> False)"

definition reopened :: "rem_task \<Rightarrow> rem_task" where
  "reopened t = rem_add_history ''DEFERRAL_EXPIRED_REOPENED'' ''system-deferral-scheduler'' (Some DEFERRED) (Some OPEN) None
     (t\<lparr>rt_state := OPEN, rt_deferral_expiry := None\<rparr>)"

lemma reopened_core [simp]: "rt_id (reopened t) = rt_id t" "rt_created_at (reopened t) = rt_created_at t" "rt_state (reopened t) = OPEN"
  "rt_tenant_id (reopened t) = rt_tenant_id t"
  by (simp_all add: reopened_def rem_add_history_def)

text \<open>The scan saves the reopened tasks one after the other and never fails.\<close>

lemma reopen_scan:
  assumes "distinct (map rt_id ts)" "rows_ok (rs_tasks s)" "\<forall>t \<in> set ts. rem_get (rs_tasks s) tn (rt_id t) = Some t \<and> rt_state t = DEFERRED"
  shows "\<exists>ys s'. each_task (reopen_expired env tn now) ts s = (Inr ys, s')
    \<and> rs_tasks s' = fold (\<lambda>t rows. rem_put rows tn (reopened t)) (filter (deferral_over now) ts) (rs_tasks s)"
  using assms
proof (induction ts arbitrary: s)
  case (Cons t ts)
  have t: "rem_get (rs_tasks s) tn (rt_id t) = Some t" "rt_state t = DEFERRED" using Cons.prems(3) by simp_all
  show ?case
  proof (cases "deferral_over now t")
    case True
    have sv: "savable (rs_tasks s) tn (reopened t)" using Cons.prems(2) t by (intro stored_savable) simp_all
    let ?s = "rem_record_audit env tn ''REMEDIATION_TASK_REOPENED'' ''system-deferral-scheduler'' (rt_id t)
        (s\<lparr>rs_tasks := rem_put (rs_tasks s) tn (reopened t)\<rparr>)"
    have body: "reopen_expired env tn now t s = (Inr [(reopened t)\<lparr>rt_tenant_id := tn\<rparr>], ?s)"
      using True unfolding reopen_expired_def store_def reopened_def[symmetric] rem_save_savable[OF sv]
      by (simp add: deferral_over_def)
    have "rem_get (rs_tasks ?s) tn (rt_id u) = Some u \<and> rt_state u = DEFERRED" if "u \<in> set ts" for u
      using Cons.prems(1,3) that tasks.get_save[OF Cons.prems(2) sv, of tn "rt_id u"] by (auto simp: image_iff)
    then obtain ys s' where "each_task (reopen_expired env tn now) ts ?s = (Inr ys, s')"
      "rs_tasks s' = fold (\<lambda>t rows. rem_put rows tn (reopened t)) (filter (deferral_over now) ts) (rs_tasks ?s)"
      using Cons.IH[of ?s] Cons.prems(1) tasks.valid_save[OF Cons.prems(2) sv] by auto
    then show ?thesis using True by (simp add: body)
  next
    case False
    then have "reopen_expired env tn now t s = (Inr [], s)" using t(2) by (auto simp: reopen_expired_def deferral_over_def)
    moreover obtain ys s' where "each_task (reopen_expired env tn now) ts s = (Inr ys, s')"
      "rs_tasks s' = fold (\<lambda>t rows. rem_put rows tn (reopened t)) (filter (deferral_over now) ts) (rs_tasks s)"
      using Cons.IH[of s] Cons.prems by auto
    ultimately show ?thesis using False by simp
  qed
qed simp

lemma deferred_listing:
  assumes "rows_ok rows" "length (filter (rem_row_matches tn (in_state DEFERRED)) rows) \<le> 500"
  shows "t \<in> set (rem_list rows tn (in_state DEFERRED) 500 0) \<longleftrightarrow> rem_get rows tn (rt_id t) = Some t \<and> rt_state t = DEFERRED"
proof -
  have "set (rem_list rows tn (in_state DEFERRED) 500 0) = rr_task ` {r \<in> set rows. rem_row_matches tn (in_state DEFERRED) r}"
    using assms(2) by (auto simp: rem_list_def in_state_def any_task_def)
  then show ?thesis
    unfolding rem_get_iff[OF assms(1)] by (auto simp: rem_row_matches_def in_state_def any_task_def)
qed

text \<open>
  C39. As long as a tenant has no more deferred tasks than the scan lists, the scan reopens exactly the deferred tasks whose expiry
  has come and leaves every other task as it was.
\<close>

theorem expired_deferrals_reopen:
  assumes "reached s" "ctx_tenant ctx = Some tn"
    and "length (filter (rem_row_matches tn (in_state DEFERRED)) (rs_tasks s)) \<le> 500"
  shows "\<exists>ys s'. check_expired_deferrals env ctx (Some now) s = (Inr ys, s')
    \<and> rem_get (rs_tasks s') tn i = map_option (\<lambda>t. if deferral_over now t then reopened t else t) (rem_get (rs_tasks s) tn i)"
proof -
  let ?ts = "rem_list (rs_tasks s) tn (in_state DEFERRED) 500 0" and ?f = "\<lambda>t rows. rem_put rows tn (reopened t)"
  have ok: "rows_ok (rs_tasks s)" using reached_inv[OF assms(1)] by (simp add: rem_inv_def)
  note listed = deferred_listing[OF ok assms(3)]
  obtain ys s' where s': "each_task (reopen_expired env tn now) ?ts s = (Inr ys, s')"
    "rs_tasks s' = fold ?f (filter (deferral_over now) ?ts) (rs_tasks s)"
    using reopen_scan[OF distinct_rem_list[OF ok] ok, where tn = tn and env = env and now = now] listed by blast
  have "distinct (map rt_id (filter (deferral_over now) ?ts))" by (rule distinct_map_filter[OF distinct_rem_list[OF ok]])
  moreover have "\<forall>t \<in> set (filter (deferral_over now) ?ts). rem_get (rs_tasks s) tn (rt_id t) = Some t
      \<and> rt_id (reopened t) = rt_id t \<and> savable (rs_tasks s) tn (reopened t)"
    using listed by (auto intro: stored_savable[OF ok])
  ultimately have get: "rem_get (rs_tasks s') tn i =
      (case find (\<lambda>t. rt_id t = i) (filter (deferral_over now) ?ts) of
         Some t \<Rightarrow> Some ((reopened t)\<lparr>rt_tenant_id := tn\<rparr>) | None \<Rightarrow> rem_get (rs_tasks s) tn i)"
    using tasks.get_save_all[OF ok, of "filter (deferral_over now) ?ts" tn reopened tn i] unfolding s'(2) by simp
  have "rem_get (rs_tasks s') tn i = map_option (\<lambda>t. if deferral_over now t then reopened t else t) (rem_get (rs_tasks s) tn i)"
  proof (cases "find (\<lambda>t. rt_id t = i) (filter (deferral_over now) ?ts)")
    case (Some t)
    then have t: "t \<in> set ?ts" "deferral_over now t" "rt_id t = i" using find_SomeD[OF Some] by auto
    then have g: "rem_get (rs_tasks s) tn i = Some t" using listed by auto
    have "(reopened t)\<lparr>rt_tenant_id := tn\<rparr> = reopened t" using rem_get_ident[OF ok g] by (intro rem_task.equality) simp_all
    then show ?thesis using Some g t(2) get by simp
  next
    case None
    have "\<not> deferral_over now t" if "rem_get (rs_tasks s) tn i = Some t" for t
    proof
      assume d: "deferral_over now t"
      have "rt_id t = i" using rem_get_ident[OF ok that] by simp
      moreover then have "t \<in> set ?ts" using that d listed by (simp add: deferral_over_def)
      ultimately show False using None d by (auto simp: find_None_iff)
    qed
    then show ?thesis using None get by (cases "rem_get (rs_tasks s) tn i") simp_all
  qed
  then show ?thesis
    using s'(1) unfolding check_expired_deferrals_def with_tenant_known[OF assms(2)] by simp
qed

definition demo_deferred :: rem_service where
  "demo_deferred = rem_step (demo_rem_env ''2'', demo_rem_ctx, Defer ''rem-task-acme-1'' ''u1'' ''busy'' 3 None) (demo_created False)"

lemma demo_deferred_stored:
  "reached demo_deferred" "length (rs_tasks demo_deferred) = 1"
  "\<exists>t. rem_get (rs_tasks demo_deferred) ''acme'' ''rem-task-acme-1'' = Some t \<and> rt_state t = DEFERRED \<and> rt_deferral_expiry t = Some 3"
proof -
  show "reached demo_deferred" unfolding demo_deferred_def using demo_created_reached demo_second_fresh by (rule reached_step)
  have ok: "rows_ok (rs_tasks (demo_created False))" using reached_inv[OF demo_created_reached] by (simp add: rem_inv_def)
  have busy: "strip ''busy'' = ''busy''" by (simp add: strip_def is_space_def)
  let ?t = "rem_add_history ''DEFERRED'' ''u1'' (Some ASSIGNED) (Some DEFERRED) (Some ''busy'')
      ((demo_new False)\<lparr>rt_state := DEFERRED, rt_reason_code := Some ''busy'', rt_deferral_expiry := Some 3, rt_approval_workflow_id := None\<rparr>)"
  have sv: "savable (rs_tasks (demo_created False)) ''acme'' ?t"
    by (rule stored_savable[OF ok]) (use demo_created_get in simp_all)
  have run: "rs_tasks demo_deferred = rem_put (rs_tasks (demo_created False)) ''acme'' ?t"
    unfolding demo_deferred_def rem_step.simps rem_op.case defer_task_def with_tenant_known[OF demo_tenant]
      with_task_known[OF demo_created_get(1)] store_def
    by (simp add: demo_created_get is_terminal_def busy demo_rem_env_def rem_save_savable[OF sv])
  show "\<exists>t. rem_get (rs_tasks demo_deferred) ''acme'' ''rem-task-acme-1'' = Some t \<and> rt_state t = DEFERRED \<and> rt_deferral_expiry t = Some 3"
    using rem_get_put[OF ok sv, of "''acme''" "''rem-task-acme-1''"] unfolding run by (simp add: demo_created_get rem_add_history_def)
  show "length (rs_tasks demo_deferred) = 1"
    using demo_created_rows[of False] unfolding run by (auto simp: rem_put_def rem_save_def Let_def demo_created_get)
qed

theorem expired_deferrals_reopen_witness:
  "\<exists>ys s' t. check_expired_deferrals (demo_rem_env ''9'') demo_rem_ctx (Some 5) demo_deferred = (Inr ys, s')
     \<and> rem_get (rs_tasks s') ''acme'' ''rem-task-acme-1'' = Some t \<and> rt_state t = OPEN"
proof -
  obtain t where t: "rem_get (rs_tasks demo_deferred) ''acme'' ''rem-task-acme-1'' = Some t" "rt_state t = DEFERRED" "rt_deferral_expiry t = Some 3"
    using demo_deferred_stored(3) by blast
  have "length (filter (rem_row_matches ''acme'' (in_state DEFERRED)) (rs_tasks demo_deferred)) \<le> 500"
    using demo_deferred_stored(2) length_filter_le[of _ "rs_tasks demo_deferred"] by (metis order_trans one_le_numeral)
  from expired_deferrals_reopen[OF demo_deferred_stored(1) demo_tenant this, of "demo_rem_env ''9''" 5 "''rem-task-acme-1''"]
  show ?thesis using t by (auto simp: deferral_over_def)
qed

section \<open>Assignment\<close>

text \<open>
  With a fallback queue configured every task gets an assignee: the result is the first owner of the
  hierarchy and its name is not empty, or an argument had the wrong type.
\<close>

theorem assignment_always_resolves:
  assumes "strip queue \<noteq> []" "su_entity_id su \<noteq> []"
  shows "case resolve_assignee str records queue su res tags scope_owner app_owner PNone False of
      Inr (who, kind, rule) \<Rightarrow> who \<noteq> []
        \<and> (rule = SCOPE_OWNER \<longrightarrow> resource_owner str res = None \<and> tag_owner str tags = Inr None \<and> master_owner records su = None)
        \<and> (rule = APPLICATION_OWNER \<longrightarrow> named_owner scope_owner = Inr None)
        \<and> (rule = FALLBACK_QUEUE \<longrightarrow> who = strip queue \<and> kind = ''QUEUE'' \<and> named_owner app_owner = Inr None)
    | Inl e \<Rightarrow> e = RemAttributeError"
proof -
  have q: "named_owner (PStr queue) = Inr (Some (strip queue))" using assms(1) by (auto simp: named_owner_def strip_def)
  have named: "named_owner v = Inl e \<Longrightarrow> e = RemAttributeError" "named_owner v = Inr (Some w) \<Longrightarrow> w \<noteq> []" for v e w
    by (auto simp: named_owner_def split: py_value.splits if_splits)
  have tag: "tag_owner str tags = Inl e \<Longrightarrow> e = RemAttributeError" "tag_owner str tags = Inr (Some w) \<Longrightarrow> w \<noteq> []" for e w
    by (auto simp: tag_owner_def split: py_value.splits if_splits dest: find_SomeD)
  have res: "resource_owner str res = Some w \<Longrightarrow> w \<noteq> []" for w
    by (auto simp: resource_owner_def Let_def split: option.splits if_splits)
  have mas: "master_owner records su = Some w \<Longrightarrow> w \<noteq> []" for w
    using assms(2) by (auto simp: master_owner_def split: option.splits dest!: find_SomeD)
  show ?thesis
    unfolding resolve_assignee_def
    using res mas tag named q
    by (auto simp: try_bind_def split: option.splits sum.splits)
qed

theorem assignment_always_resolves_witness:
  "\<exists>who kind rule. resolve_assignee (\<lambda>v. []) None ''queue-finops-operations'' (tq_subject_entity (demo_rem_request True)) None
     PNone PNone PNone PNone False = Inr (who, kind, rule) \<and> who \<noteq> []"
  using assignment_always_resolves[where queue = "''queue-finops-operations''" and su = "tq_subject_entity (demo_rem_request True)" and str = "\<lambda>v. []"
      and records = None and res = None and tags = PNone and scope_owner = PNone and app_owner = PNone]
  by (auto simp: demo_rem_request_def strip_def is_space_def resolve_assignee_def resource_owner_def tag_owner_def master_owner_def named_owner_def
      split: sum.splits)

end
