(* ===== verification/Effects.thy ===== *)
theory Effects
  imports Prelude
begin

text \<open>
  Operations with a state and exceptions, for the services whose methods chain many calls that each commit their own
  transaction: a value of \<open>'s \<Rightarrow> ('e + 'a) \<times> 's\<close> keeps the state reached when an exception leaves it. The combinators
  are return, raise, reading, sequencing, \<open>try ... except Exception\<close> and the two loops the code uses.

  The interface \<open>frame\<close> is a relation between the states before and after an operation that sequences of operations
  compose (what an operation leaves alone, or only extends); its lemmas carry the relation through the combinators, so
  that a component proves it for its primitive writes only.
\<close>

type_synonym ('s, 'e, 'a) eff = "'s \<Rightarrow> ('e + 'a) \<times> 's"

definition eff_return :: "'a \<Rightarrow> ('s, 'e, 'a) eff" where
  "eff_return a s = (Inr a, s)"

definition eff_raise :: "'e \<Rightarrow> ('s, 'e, 'a) eff" where
  "eff_raise e s = (Inl e, s)"

definition eff_read :: "('s \<Rightarrow> 'a) \<Rightarrow> ('s, 'e, 'a) eff" where
  "eff_read f s = (Inr (f s), s)"

definition eff_lift :: "'e + 'a \<Rightarrow> ('s, 'e, 'a) eff" where
  "eff_lift r s = (r, s)"

definition eff_bind :: "('s, 'e, 'a) eff \<Rightarrow> ('a \<Rightarrow> ('s, 'e, 'b) eff) \<Rightarrow> ('s, 'e, 'b) eff" where
  "eff_bind m f s = (case m s of (Inl e, s') \<Rightarrow> (Inl e, s') | (Inr a, s') \<Rightarrow> f a s')"

definition eff_catch :: "('s, 'e, 'a) eff \<Rightarrow> ('e \<Rightarrow> ('s, 'e, 'a) eff) \<Rightarrow> ('s, 'e, 'a) eff" where
  "eff_catch m h s = (case m s of (Inl e, s') \<Rightarrow> h e s' | (Inr a, s') \<Rightarrow> (Inr a, s'))"

text \<open>A loop that collects a value per element, and one that accumulates.\<close>

fun eff_map :: "('x \<Rightarrow> ('s, 'e, 'a) eff) \<Rightarrow> 'x list \<Rightarrow> ('s, 'e, 'a list) eff" where
  "eff_map f [] = eff_return []"
| "eff_map f (x # xs) = eff_bind (f x) (\<lambda>a. eff_bind (eff_map f xs) (\<lambda>as. eff_return (a # as)))"

fun eff_fold :: "('x \<Rightarrow> 'a \<Rightarrow> ('s, 'e, 'a) eff) \<Rightarrow> 'x list \<Rightarrow> 'a \<Rightarrow> ('s, 'e, 'a) eff" where
  "eff_fold f [] a = eff_return a"
| "eff_fold f (x # xs) a = eff_bind (f x a) (eff_fold f xs)"

lemma eff_simps [simp]:
  "eff_return a s = (Inr a, s)"
  "eff_raise e s = (Inl e, s)"
  "eff_read g s = (Inr (g s), s)"
  "eff_lift r s = (r, s)"
  by (simp_all add: eff_return_def eff_raise_def eff_read_def eff_lift_def)

lemma eff_bind_value: "m s = (Inr a, s') \<Longrightarrow> eff_bind m f s = f a s'"
  by (simp add: eff_bind_def)

lemma eff_bind_raise: "m s = (Inl e, s') \<Longrightarrow> eff_bind m f s = (Inl e, s')"
  by (simp add: eff_bind_def)

lemma eff_bind_simps [simp]:
  "eff_bind (eff_return a) f s = f a s"
  "eff_bind (eff_raise e) f s = (Inl e, s)"
  "eff_bind (eff_read g) f s = f (g s) s"
  "eff_bind (eff_lift (Inr a)) f s = f a s"
  "eff_bind (eff_lift (Inl e)) f s = (Inl e, s)"
  by (simp_all add: eff_bind_def)

lemma eff_bindE:
  assumes "eff_bind m f s = (r, s')"
  obtains (raised) e where "m s = (Inl e, s')" and "r = Inl e"
    | (passed) a s1 where "m s = (Inr a, s1)" and "f a s1 = (r, s')"
proof (cases "m s")
  case (Pair r1 s1)
  with assms show ?thesis by (cases r1) (auto simp: eff_bind_def intro: raised passed)
qed

lemma eff_catch_total: "(\<And>e s. \<exists>a s'. h e s = (Inr a, s')) \<Longrightarrow> \<exists>a s'. eff_catch m h s = (Inr a, s')"
  unfolding eff_catch_def by (auto split: prod.split sum.split)

lemma eff_fold_total:
  assumes "\<And>x a s. \<exists>b s'. f x a s = (Inr b, s')"
  shows "\<exists>b s'. eff_fold f xs a s = (Inr b, s')"
proof (induction xs arbitrary: a s)
  case (Cons x xs)
  obtain b s1 where "f x a s = (Inr b, s1)" using assms by blast
  with Cons show ?case by (simp add: eff_bind_value)
qed simp

text \<open>What holds of the accumulator and the elements seen so far, for the loops that return.\<close>

lemma eff_fold_value:
  assumes step: "\<And>seen x a s b s'. P seen a \<Longrightarrow> f x a s = (Inr b, s') \<Longrightarrow> P (seen @ [x]) b"
  shows "eff_fold f xs a s = (Inr b, s') \<Longrightarrow> P seen a \<Longrightarrow> P (seen @ xs) b"
proof (induction xs arbitrary: a s seen)
  case (Cons x xs)
  from Cons.prems(1) obtain a1 s1 where "f x a s = (Inr a1, s1)" "eff_fold f xs a1 s1 = (Inr b, s')"
    by (auto elim: eff_bindE)
  with Cons.IH[of a1 s1 "seen @ [x]"] step[of seen a x s a1 s1] Cons.prems(2) show ?case by simp
qed simp

text \<open>What holds of every value an operation returns.\<close>

definition yields :: "('a \<Rightarrow> bool) \<Rightarrow> ('s, 'e, 'a) eff \<Rightarrow> bool" where
  "yields P m \<longleftrightarrow> (\<forall>s a s'. m s = (Inr a, s') \<longrightarrow> P a)"

lemma yieldsD: "yields P m \<Longrightarrow> m s = (Inr a, s') \<Longrightarrow> P a"
  by (auto simp: yields_def)

lemma yields_pure: "P a \<Longrightarrow> yields P (eff_return a)" "yields P (eff_raise e)"
  by (simp_all add: yields_def)

lemma yields_any: "yields (\<lambda>_. True) m"
  by (simp add: yields_def)

lemma yields_bind: "yields Q m \<Longrightarrow> (\<And>a. Q a \<Longrightarrow> yields P (f a)) \<Longrightarrow> yields P (eff_bind m f)"
  unfolding yields_def by (fastforce elim!: eff_bindE)

lemma yields_then: "(\<And>a. yields P (f a)) \<Longrightarrow> yields P (eff_bind m f)"
  by (rule yields_bind[OF yields_any])

lemma yields_map: "(\<And>x. x \<in> set xs \<Longrightarrow> yields P (f x)) \<Longrightarrow> yields (\<lambda>as. \<forall>a \<in> set as. P a) (eff_map f xs)"
proof (induction xs)
  case (Cons x xs)
  have "yields P (f x)" and "yields (\<lambda>as. \<forall>a \<in> set as. P a) (eff_map f xs)" using Cons by simp_all
  then show ?case by (auto intro!: yields_bind[where Q = P] yields_bind[where Q = "\<lambda>as. \<forall>a \<in> set as. P a"] yields_pure)
qed (simp add: yields_pure)

section \<open>Frames\<close>

locale frame =
  fixes R :: "'s \<Rightarrow> 's \<Rightarrow> bool"
  assumes R_refl: "R s s"
    and R_trans: "R s s' \<Longrightarrow> R s' s'' \<Longrightarrow> R s s''"
begin

lemma pure: "R s (snd (eff_return a s))" "R s (snd (eff_raise e s))" "R s (snd (eff_read g s))" "R s (snd (eff_lift r s))"
  by (simp_all add: R_refl)

lemma bind:
  assumes "R s (snd (m s))" and "\<And>a s'. m s = (Inr a, s') \<Longrightarrow> R s' (snd (f a s'))"
  shows "R s (snd (eff_bind m f s))"
proof (cases "m s")
  case (Pair r s')
  with assms show ?thesis by (cases r) (auto simp: eff_bind_def intro: R_trans)
qed

lemma catch:
  assumes "R s (snd (m s))" and "\<And>e s'. m s = (Inl e, s') \<Longrightarrow> R s' (snd (h e s'))"
  shows "R s (snd (eff_catch m h s))"
proof (cases "m s")
  case (Pair r s')
  with assms show ?thesis by (cases r) (auto simp: eff_catch_def intro: R_trans)
qed

lemma map_each: "(\<And>x s. x \<in> set xs \<Longrightarrow> R s (snd (f x s))) \<Longrightarrow> R s (snd (eff_map f xs s))"
proof (induction xs arbitrary: s)
  case (Cons x xs)
  then show ?case by (auto intro!: bind pure)
qed (simp add: R_refl)

lemma fold_each: "(\<And>x a s. x \<in> set xs \<Longrightarrow> R s (snd (f x a s))) \<Longrightarrow> R s (snd (eff_fold f xs a s))"
proof (induction xs arbitrary: a s)
  case (Cons x xs)
  then show ?case by (auto intro!: bind)
qed (simp add: R_refl)

end

end
