(* ===== verification/Dependency_Curation.thy ===== *)
theory Dependency_Curation
  imports Effects Impact_Analysis Audit_Stream Numerics
begin

text \<open>
  The curated dependency graph (\<open>domain/dependency\<close>): edges with provenance, confidence and history
  (\<open>models.py\<close>), \<open>SqlDependencyRepository\<close> (\<open>repository.py\<close>), the merge engine that confronts discovered and
  imported edges with what people asserted (\<open>merger.py\<close>), the bulk importer (\<open>importer.py\<close>) and
  \<open>DependencyService\<close> (\<open>service.py\<close>) but for its discovery run, which is in \<open>Dependency_Discovery\<close>.

  An edge extends the fields the impact analysis reads. Every save is a transaction of its own, so an operation that
  raises keeps what it saved before. Clock readings, identifiers and the row an unordered \<open>LIMIT 1\<close> returns come from
  the environment, one reading after the other. The texts of notes, messages and history details, the times of history
  entries and of provenance records are left out: no operation reads them.
\<close>

section \<open>Edges and conflicts\<close>

datatype edge_provenance_type = DISCOVERED | MANUAL | IMPORTED | INFERRED

datatype discovery_layer = STRUCTURAL | NETWORK | PROVIDER_PLATFORM | CURATED_APPLICATION | INFERRED_NAMING

datatype edge_confidence_level = HIGH | MEDIUM | LOW | AS_ASSERTED

datatype conflict_resolution_action = KEEP_MANUAL | ACCEPT_DISCOVERED | MERGE

record edge_provenance =
  pv_type :: edge_provenance_type
  pv_rule_id :: "string option"
  pv_actor_id :: "string option"
  pv_import_source :: "string option"
  pv_import_job_id :: "string option"
  pv_layer :: "discovery_layer option"

record billing_attributes =
  ba_allocation_percentage :: rat
  ba_allocation_rule :: string
  ba_shared_service_id :: "string option"
  ba_cost_centre_id :: "string option"

record edge_history_entry =
  eh_action :: string
  eh_actor_id :: string
  eh_from_status :: "edge_status option"
  eh_to_status :: "edge_status option"

record curated_edge = dependency_edge +
  ce_provenance :: edge_provenance
  ce_confidence :: edge_confidence_level
  ce_first_seen :: int
  ce_last_seen :: int
  ce_notes :: "string option"
  ce_effective_from :: int
  ce_effective_to :: "int option"
  ce_conflict_id :: "string option"
  ce_billing :: "billing_attributes option"
  ce_history :: "edge_history_entry list"

definition is_manual :: "curated_edge \<Rightarrow> bool" where
  "is_manual e \<longleftrightarrow> pv_type (ce_provenance e) = MANUAL"

definition edge_is_active :: "int \<Rightarrow> curated_edge \<Rightarrow> bool" where
  "edge_is_active now e \<longleftrightarrow>
     (if edge_status e \<noteq> ACTIVE then False
      else if (case ce_effective_to e of Some t \<Rightarrow> t \<le> now | None \<Rightarrow> False) then False
      else ce_effective_from e \<le> now)"

definition edge_add_history :: "string \<Rightarrow> string \<Rightarrow> edge_status option \<Rightarrow> edge_status option \<Rightarrow> curated_edge \<Rightarrow> curated_edge" where
  "edge_add_history action actor from_st to_st e =
     e\<lparr>ce_history := ce_history e @ [\<lparr> eh_action = action, eh_actor_id = actor, eh_from_status = from_st, eh_to_status = to_st \<rparr>]\<rparr>"

text \<open>The two forms of \<open>conflict_reason\<close>, with what their text is made of.\<close>

datatype conflict_reason =
    ConflictingType relationship_type relationship_type
  | ConflictingTarget string string relationship_type

record edge_conflict =
  cf_conflict_id :: string
  cf_tenant_id :: string
  cf_source_ref :: typed_entity_ref
  cf_manual_edge_id :: string
  cf_discovered_edge_id :: string
  cf_manual_version :: curated_edge
  cf_discovered_version :: curated_edge
  cf_reason :: conflict_reason
  cf_detected_at :: int
  cf_is_resolved :: bool
  cf_resolved_by :: "string option"
  cf_resolved_at :: "int option"
  cf_resolution_action :: "conflict_resolution_action option"
  cf_resolution_notes :: "string option"

datatype dep_error =
    DepMissingTenantContext
  | DependencyEdgeNotFoundException string
  | DependencyConflictException string string
  | InvalidEdgeReferenceException string string
  | DepDatabaseError
  | DepValidationError
  | DepTypeError
  | DepAttributeError
  | DepPatternError

section \<open>State and environment\<close>

text \<open>
  The three tables. The filter columns of \<open>service_dependencies\<close> are rewritten with the payload by every save and are
  read from it; \<open>created_at\<close> is written once. \<open>dep_draws\<close> counts the readings of the environment.
\<close>

record curated_row =
  cw_tenant_id :: string
  cw_created_at :: int
  cw_edge :: curated_edge

record version_row =
  vr_id :: string
  vr_tenant_id :: string
  vr_edge_id :: string
  vr_version :: curated_edge
  vr_recorded_at :: int

record conflict_row =
  cx_tenant_id :: string
  cx_created_at :: int
  cx_conflict :: edge_conflict

record dep_audit =
  da_tenant_id :: string
  da_event_type :: string
  da_actor :: string
  da_resource_id :: string

record dep_state =
  dep_edges :: "curated_row list"
  dep_versions :: "version_row list"
  dep_conflicts :: "conflict_row list"
  dep_audits :: "dep_audit list"
  dep_draws :: nat

record dep_env =
  dv_clock :: "nat \<Rightarrow> int"
  dv_db_clock :: "nat \<Rightarrow> int"
  dv_uuid_hex :: "nat \<Rightarrow> string"
  dv_pick :: "nat \<Rightarrow> nat"
  dv_audit_ok :: bool

type_synonym 'a dep_op = "(dep_state, dep_error, 'a) eff"

definition draw :: "(nat \<Rightarrow> 'a) \<Rightarrow> 'a dep_op" where
  "draw f s = (Inr (f (dep_draws s)), s\<lparr>dep_draws := Suc (dep_draws s)\<rparr>)"

definition with_context :: "tenant_context option \<Rightarrow> (string \<Rightarrow> 'a dep_op) \<Rightarrow> 'a dep_op" where
  "with_context ctx f =
     (case require_tenant_context ctx of Inl e \<Rightarrow> eff_raise DepMissingTenantContext | Inr tc \<Rightarrow> f (tc_tenant_id tc))"

section \<open>The repository\<close>

definition get_edge_row :: "curated_row list \<Rightarrow> string \<Rightarrow> string \<Rightarrow> curated_edge option" where
  "get_edge_row rows tenant i =
     map_option cw_edge (find (\<lambda>r. edge_id (cw_edge r) = i \<and> cw_tenant_id r = tenant) rows)"

text \<open>
  The upsert of an edge. It fails when the identifier is a row of another tenant, which row-level security hides, or when
  an entity identifier is longer than its column.
\<close>

definition edge_fits :: "curated_row list \<Rightarrow> string \<Rightarrow> curated_edge \<Rightarrow> bool" where
  "edge_fits rows tenant e \<longleftrightarrow>
     list_all (\<lambda>r. edge_id (cw_edge r) = edge_id e \<longrightarrow> cw_tenant_id r = tenant) rows
     \<and> length (ref_entity_id (source_ref e)) \<le> 128 \<and> length (ref_entity_id (target_ref e)) \<le> 128"

definition put_edge_row :: "curated_row list \<Rightarrow> string \<Rightarrow> curated_edge \<Rightarrow> curated_row list" where
  "put_edge_row rows tenant e =
     (if list_ex (\<lambda>r. edge_id (cw_edge r) = edge_id e) rows
      then map (\<lambda>r. if edge_id (cw_edge r) = edge_id e then r\<lparr>cw_edge := e\<rparr> else r) rows
      else rows @ [\<lparr> cw_tenant_id = tenant, cw_created_at = ce_effective_from e, cw_edge = e \<rparr>])"

text \<open>
  \<open>save_edge_async\<close>: the stored version is copied to the history table first, in the same transaction.
\<close>

definition write_edge :: "string \<Rightarrow> curated_edge \<Rightarrow> version_row list \<Rightarrow> curated_edge dep_op" where
  "write_edge tenant e snapshot s =
     (if \<not> edge_fits (dep_edges s) tenant e \<or> list_ex (\<lambda>v. vr_id v \<in> vr_id ` set (dep_versions s)) snapshot
      then (Inl DepDatabaseError, s)
      else (Inr e, s\<lparr>dep_edges := put_edge_row (dep_edges s) tenant e, dep_versions := dep_versions s @ snapshot\<rparr>))"

definition save_edge :: "dep_env \<Rightarrow> string \<Rightarrow> curated_edge \<Rightarrow> curated_edge dep_op" where
  "save_edge env tenant e =
     eff_bind (eff_read (\<lambda>s. get_edge_row (dep_edges s) tenant (edge_id e))) (\<lambda>existing.
     case existing of
       None \<Rightarrow> write_edge tenant e []
     | Some old \<Rightarrow>
         eff_bind (draw (dv_uuid_hex env)) (\<lambda>hex.
         eff_bind (draw (dv_db_clock env)) (\<lambda>now.
         write_edge tenant e
           [\<lparr> vr_id = ''hist-'' @ take 12 hex, vr_tenant_id = tenant, vr_edge_id = edge_id e, vr_version = old,
              vr_recorded_at = now \<rparr>])))"

text \<open>\<open>find_edge_async\<close>: no status clause and no order, so the database may return any of the matching rows.\<close>

definition edges_between :: "curated_row list \<Rightarrow> string \<Rightarrow> string \<Rightarrow> string \<Rightarrow> relationship_type option \<Rightarrow> curated_edge list" where
  "edges_between rows tenant src tgt rel =
     map cw_edge (filter (\<lambda>r. cw_tenant_id r = tenant
       \<and> ref_entity_id (source_ref (cw_edge r)) = src \<and> ref_entity_id (target_ref (cw_edge r)) = tgt
       \<and> (case rel of Some t \<Rightarrow> edge_relationship (cw_edge r) = t | None \<Rightarrow> True)) rows)"

definition find_edge :: "dep_env \<Rightarrow> string \<Rightarrow> string \<Rightarrow> string \<Rightarrow> relationship_type option \<Rightarrow> curated_edge option dep_op" where
  "find_edge env tenant src tgt rel =
     eff_bind (eff_read (\<lambda>s. edges_between (dep_edges s) tenant src tgt rel)) (\<lambda>found.
     if found = [] then eff_return None
     else eff_bind (draw (dv_pick env)) (\<lambda>k. eff_return (Some (found ! (k mod length found)))))"

definition curated_list :: "curated_row list \<Rightarrow> string \<Rightarrow> edge_status option \<Rightarrow> relationship_type option \<Rightarrow> int option
    \<Rightarrow> string option \<Rightarrow> string option \<Rightarrow> bool \<Rightarrow> bool \<Rightarrow> nat \<Rightarrow> curated_edge list" where
  "curated_list rows tenant status rel as_of src tgt include_history include_deleted limit =
     take limit (map cw_edge (sort_key (\<lambda>r. - cw_created_at r) (filter (\<lambda>r. let e = cw_edge r in
        cw_tenant_id r = tenant
        \<and> status_clause status as_of include_history include_deleted (dependency_edge.truncate e)
        \<and> (case rel of Some t \<Rightarrow> edge_relationship e = t | None \<Rightarrow> True)
        \<and> (truthy src \<longrightarrow> Some (ref_entity_id (source_ref e)) = src)
        \<and> (truthy tgt \<longrightarrow> Some (ref_entity_id (target_ref e)) = tgt)) rows)))"

text \<open>\<open>get_edge_history_async\<close>: the versions in the order they were recorded, then the current one.\<close>

definition edge_history :: "dep_state \<Rightarrow> string \<Rightarrow> string \<Rightarrow> curated_edge list" where
  "edge_history s tenant i =
     map vr_version (sort_key vr_recorded_at (filter (\<lambda>v. vr_edge_id v = i \<and> vr_tenant_id v = tenant) (dep_versions s)))
     @ (case get_edge_row (dep_edges s) tenant i of Some e \<Rightarrow> [e] | None \<Rightarrow> [])"

definition repo_delete_edge :: "dep_env \<Rightarrow> string \<Rightarrow> string \<Rightarrow> bool \<Rightarrow> bool dep_op" where
  "repo_delete_edge env tenant i hard =
     (if hard
      then (\<lambda>s. (Inr (get_edge_row (dep_edges s) tenant i \<noteq> None),
                  s\<lparr>dep_edges := filter (\<lambda>r. \<not> (edge_id (cw_edge r) = i \<and> cw_tenant_id r = tenant)) (dep_edges s)\<rparr>))
      else eff_bind (eff_read (\<lambda>s. get_edge_row (dep_edges s) tenant i)) (\<lambda>found.
        case found of
          None \<Rightarrow> eff_return False
        | Some e \<Rightarrow>
            eff_bind (draw (dv_clock env)) (\<lambda>now.
            eff_bind (save_edge env tenant (e\<lparr>edge_status := DELETED, ce_effective_to := Some now\<rparr>)) (\<lambda>_.
            eff_return True))))"

definition get_conflict_row :: "conflict_row list \<Rightarrow> string \<Rightarrow> string \<Rightarrow> edge_conflict option" where
  "get_conflict_row rows tenant i =
     map_option cx_conflict (find (\<lambda>r. cf_conflict_id (cx_conflict r) = i \<and> cx_tenant_id r = tenant) rows)"

definition put_conflict_row :: "conflict_row list \<Rightarrow> string \<Rightarrow> edge_conflict \<Rightarrow> conflict_row list" where
  "put_conflict_row rows tenant c =
     (if list_ex (\<lambda>r. cf_conflict_id (cx_conflict r) = cf_conflict_id c) rows
      then map (\<lambda>r. if cf_conflict_id (cx_conflict r) = cf_conflict_id c then r\<lparr>cx_conflict := c\<rparr> else r) rows
      else rows @ [\<lparr> cx_tenant_id = tenant, cx_created_at = cf_detected_at c, cx_conflict = c \<rparr>])"

definition save_conflict :: "string \<Rightarrow> edge_conflict \<Rightarrow> edge_conflict dep_op" where
  "save_conflict tenant c s =
     (if list_ex (\<lambda>r. cf_conflict_id (cx_conflict r) = cf_conflict_id c \<and> cx_tenant_id r \<noteq> tenant) (dep_conflicts s)
      then (Inl DepDatabaseError, s)
      else (Inr c, s\<lparr>dep_conflicts := put_conflict_row (dep_conflicts s) tenant c\<rparr>))"

definition conflict_list :: "conflict_row list \<Rightarrow> string \<Rightarrow> bool \<Rightarrow> edge_conflict list" where
  "conflict_list rows tenant unresolved_only =
     filter (\<lambda>c. unresolved_only \<longrightarrow> \<not> cf_is_resolved c)
       (map cx_conflict (sort_key (\<lambda>r. - cx_created_at r) (filter (\<lambda>r. cx_tenant_id r = tenant) rows)))"

section \<open>The merge engine\<close>

definition merge_actor :: "curated_edge \<Rightarrow> string" where
  "merge_actor candidate =
     (case pv_rule_id (ce_provenance candidate) of
        Some r \<Rightarrow> if r = [] then ''discovery-engine'' else r
      | None \<Rightarrow> ''discovery-engine'')"

definition flag_discovered :: "string \<Rightarrow> int \<Rightarrow> curated_edge \<Rightarrow> curated_edge" where
  "flag_discovered cid now e =
     edge_add_history ''CONFLICT_SURFACED'' (merge_actor e) None (Some CONFLICT)
       (e\<lparr>edge_status := CONFLICT, ce_conflict_id := Some cid, ce_last_seen := now\<rparr>)"

definition flag_manual :: "string \<Rightarrow> curated_edge \<Rightarrow> curated_edge" where
  "flag_manual cid e =
     edge_add_history ''CONFLICT_SURFACED'' ''system-merger'' None (Some CONFLICT)
       (e\<lparr>edge_status := CONFLICT, ce_conflict_id := Some cid\<rparr>)"

definition surfaced :: "string \<Rightarrow> string \<Rightarrow> int \<Rightarrow> curated_edge \<Rightarrow> curated_edge \<Rightarrow> conflict_reason \<Rightarrow> edge_conflict" where
  "surfaced tenant cid now manual discovered reason =
     \<lparr> cf_conflict_id = cid, cf_tenant_id = tenant, cf_source_ref = source_ref manual, cf_manual_edge_id = edge_id manual,
       cf_discovered_edge_id = edge_id discovered, cf_manual_version = manual, cf_discovered_version = discovered,
       cf_reason = reason, cf_detected_at = now, cf_is_resolved = False, cf_resolved_by = None, cf_resolved_at = None,
       cf_resolution_action = None, cf_resolution_notes = None \<rparr>"

text \<open>\<open>_surface_conflict\<close>: three saves, each its own transaction.\<close>

definition surface_conflict :: "dep_env \<Rightarrow> string \<Rightarrow> curated_edge \<Rightarrow> curated_edge \<Rightarrow> conflict_reason
    \<Rightarrow> (curated_edge \<times> edge_conflict option) dep_op" where
  "surface_conflict env tenant manual discovered reason =
     eff_bind (draw (dv_clock env)) (\<lambda>now.
     eff_bind (draw (dv_uuid_hex env)) (\<lambda>hex.
     let cid = ''conf-'' @ take 10 hex in
     eff_bind (save_edge env tenant (flag_discovered cid now discovered)) (\<lambda>saved_discovered.
     eff_bind (save_edge env tenant (flag_manual cid manual)) (\<lambda>_.
     eff_bind (save_conflict tenant (surfaced tenant cid now (flag_manual cid manual) saved_discovered reason)) (\<lambda>conflict.
     eff_return (saved_discovered, Some conflict))))))"

definition single_target_types :: "relationship_type list" where
  "single_target_types = [PARENT_CHILD, APPLICATION_DEPENDENCY]"

definition confirmed :: "int \<Rightarrow> curated_edge \<Rightarrow> curated_edge \<Rightarrow> curated_edge" where
  "confirmed now candidate e =
     edge_add_history ''DISCOVERY_CONFIRMED'' (merge_actor candidate) None None (e\<lparr>ce_last_seen := now\<rparr>)"

definition reobserved :: "int \<Rightarrow> curated_edge \<Rightarrow> curated_edge \<Rightarrow> curated_edge" where
  "reobserved now candidate e =
     (let e1 = e\<lparr>ce_last_seen := now, ce_confidence := ce_confidence candidate, edge_criticality := edge_criticality candidate\<rparr>;
          e2 = (if ce_billing candidate \<noteq> None then e1\<lparr>ce_billing := ce_billing candidate\<rparr> else e1)
      in if edge_status e2 = STALE
         then edge_add_history ''STALE_REVIVED'' (merge_actor candidate) None (Some ACTIVE) (e2\<lparr>edge_status := ACTIVE\<rparr>)
         else e2)"

definition persisted :: "int \<Rightarrow> curated_edge \<Rightarrow> curated_edge" where
  "persisted now candidate =
     edge_add_history ''DISCOVERED'' (merge_actor candidate) None (Some ACTIVE)
       (candidate\<lparr>ce_last_seen := now, edge_status := ACTIVE\<rparr>)"

text \<open>The manual edges of the same source and relationship that name another target, in the order of the listing.\<close>

definition contradicting :: "string \<Rightarrow> curated_edge \<Rightarrow> dep_state \<Rightarrow> curated_edge option" where
  "contradicting tenant candidate s =
     (if edge_relationship candidate \<in> set single_target_types
      then find (\<lambda>e. is_manual e \<and> ref_entity_id (target_ref e) \<noteq> ref_entity_id (target_ref candidate))
             (curated_list (dep_edges s) tenant None (Some (edge_relationship candidate)) None
               (Some (ref_entity_id (source_ref candidate))) None False False 1000)
      else None)"

definition merge_candidate_edge :: "dep_env \<Rightarrow> string \<Rightarrow> curated_edge \<Rightarrow> (curated_edge \<times> edge_conflict option) dep_op" where
  "merge_candidate_edge env tenant candidate =
     eff_bind (draw (dv_clock env)) (\<lambda>now.
     eff_bind (find_edge env tenant (ref_entity_id (source_ref candidate)) (ref_entity_id (target_ref candidate)) None) (\<lambda>exact_match.
     case exact_match of
       Some e \<Rightarrow>
         if is_manual e then
           if edge_relationship e = edge_relationship candidate
           then eff_bind (save_edge env tenant (confirmed now candidate e)) (\<lambda>saved. eff_return (saved, None))
           else surface_conflict env tenant e candidate (ConflictingType (edge_relationship candidate) (edge_relationship e))
         else eff_bind (save_edge env tenant (reobserved now candidate e)) (\<lambda>saved. eff_return (saved, None))
     | None \<Rightarrow>
         eff_bind (eff_read (contradicting tenant candidate)) (\<lambda>existing.
         case existing of
           Some e \<Rightarrow> surface_conflict env tenant e candidate
             (ConflictingTarget (ref_entity_id (target_ref candidate)) (ref_entity_id (target_ref e)) (edge_relationship candidate))
         | None \<Rightarrow> eff_bind (save_edge env tenant (persisted now candidate)) (\<lambda>saved. eff_return (saved, None)))))"

record conflict_resolve_request =
  cq_resolution_action :: conflict_resolution_action
  cq_resolution_notes :: string
  cq_merged_criticality :: "edge_criticality option"
  cq_merged_direction :: "dependency_direction option"
  cq_merged_billing :: "billing_attributes option"

definition resolved_manual :: "conflict_resolve_request \<Rightarrow> string \<Rightarrow> int \<Rightarrow> curated_edge \<Rightarrow> curated_edge" where
  "resolved_manual req actor now e =
     (case cq_resolution_action req of
        KEEP_MANUAL \<Rightarrow>
          edge_add_history ''CONFLICT_RESOLVED_KEEP_MANUAL'' actor (Some CONFLICT) (Some ACTIVE)
            (e\<lparr>edge_status := ACTIVE, ce_conflict_id := None\<rparr>)
      | ACCEPT_DISCOVERED \<Rightarrow>
          edge_add_history ''CONFLICT_RESOLVED_ACCEPTED_DISCOVERED'' actor (Some CONFLICT) (Some SUPERSEDED)
            (e\<lparr>edge_status := SUPERSEDED, ce_effective_to := Some now\<rparr>)
      | MERGE \<Rightarrow>
          (let e1 = (case cq_merged_criticality req of Some c \<Rightarrow> e\<lparr>edge_criticality := c\<rparr> | None \<Rightarrow> e);
               e2 = (case cq_merged_direction req of Some d \<Rightarrow> e1\<lparr>edge_direction := d\<rparr> | None \<Rightarrow> e1);
               e3 = (case cq_merged_billing req of Some b \<Rightarrow> e2\<lparr>ce_billing := Some b\<rparr> | None \<Rightarrow> e2)
           in edge_add_history ''CONFLICT_RESOLVED_MERGED'' actor (Some CONFLICT) (Some ACTIVE)
                (e3\<lparr>edge_status := ACTIVE, ce_conflict_id := None\<rparr>)))"

definition resolved_discovered :: "conflict_resolve_request \<Rightarrow> string \<Rightarrow> int \<Rightarrow> curated_edge \<Rightarrow> curated_edge" where
  "resolved_discovered req actor now e =
     (case cq_resolution_action req of
        KEEP_MANUAL \<Rightarrow>
          edge_add_history ''CONFLICT_SUPERSEDED'' actor (Some CONFLICT) (Some SUPERSEDED)
            (e\<lparr>edge_status := SUPERSEDED, ce_effective_to := Some now\<rparr>)
      | ACCEPT_DISCOVERED \<Rightarrow>
          edge_add_history ''CONFLICT_RESOLVED_ACTIVATED'' actor (Some CONFLICT) (Some ACTIVE)
            (e\<lparr>edge_status := ACTIVE, ce_conflict_id := None\<rparr>)
      | MERGE \<Rightarrow>
          edge_add_history ''CONFLICT_SUPERSEDED_BY_MERGE'' actor (Some CONFLICT) (Some SUPERSEDED)
            (e\<lparr>edge_status := SUPERSEDED, ce_effective_to := Some now\<rparr>))"

definition resolve_conflict :: "dep_env \<Rightarrow> string \<Rightarrow> string \<Rightarrow> conflict_resolve_request \<Rightarrow> string \<Rightarrow> edge_conflict dep_op" where
  "resolve_conflict env tenant conflict_id req actor =
     eff_bind (eff_read (\<lambda>s. get_conflict_row (dep_conflicts s) tenant conflict_id)) (\<lambda>found.
     case found of
       None \<Rightarrow> eff_raise (DependencyConflictException conflict_id ''Conflict record not found.'')
     | Some conflict \<Rightarrow>
         if cf_is_resolved conflict
         then eff_raise (DependencyConflictException conflict_id ''Conflict is already resolved.'')
         else
           eff_bind (draw (dv_clock env)) (\<lambda>now.
           eff_bind (eff_read (\<lambda>s. get_edge_row (dep_edges s) tenant (cf_manual_edge_id conflict))) (\<lambda>manual.
           eff_bind (eff_read (\<lambda>s. get_edge_row (dep_edges s) tenant (cf_discovered_edge_id conflict))) (\<lambda>discovered.
           case manual of
             None \<Rightarrow> eff_raise (DependencyEdgeNotFoundException (cf_manual_edge_id conflict))
           | Some m \<Rightarrow>
               eff_bind (save_edge env tenant (resolved_manual req actor now m)) (\<lambda>_.
               eff_bind (case discovered of
                           None \<Rightarrow> eff_return ()
                         | Some d \<Rightarrow> eff_bind (save_edge env tenant (resolved_discovered req actor now d)) (\<lambda>_. eff_return ())) (\<lambda>_.
               save_conflict tenant
                 (conflict\<lparr>cf_is_resolved := True, cf_resolved_by := Some actor, cf_resolved_at := Some now,
                    cf_resolution_action := Some (cq_resolution_action req),
                    cf_resolution_notes := Some (cq_resolution_notes req)\<rparr>)))))))"

section \<open>Bulk import\<close>

record bulk_import_item =
  bi_source_type :: entity_reference_type
  bi_source_id :: string
  bi_target_type :: entity_reference_type
  bi_target_id :: string
  bi_relationship_type :: relationship_type
  bi_direction :: dependency_direction
  bi_criticality :: edge_criticality
  bi_confidence :: edge_confidence_level
  bi_notes :: "string option"
  bi_billing :: "billing_attributes option"

record bulk_import_request =
  bq_import_source :: string
  bq_import_job_id :: string
  bq_items :: "bulk_import_item list"

text \<open>What a line of \<open>errors\<close> says of its row.\<close>

datatype import_row_error = MissingId nat | SelfReferential nat | RowFailed nat dep_error

record bulk_import_result =
  br_import_job_id :: string
  br_import_source :: string
  br_total_received :: nat
  br_edges_created :: nat
  br_edges_updated :: nat
  br_conflicts_surfaced :: nat
  br_errors :: "import_row_error list"

definition plain_ref :: "entity_reference_type \<Rightarrow> string \<Rightarrow> typed_entity_ref" where
  "plain_ref t i = \<lparr> ref_type = t, ref_entity_id = i, ref_name = None \<rparr>"

definition new_edge_id :: "string \<Rightarrow> string \<Rightarrow> string \<Rightarrow> string" where
  "new_edge_id kind tenant hex = ''dep-'' @ kind @ ''-'' @ take 6 tenant @ ''-'' @ take 8 hex"

definition imported_edge :: "string \<Rightarrow> bulk_import_request \<Rightarrow> int \<Rightarrow> string \<Rightarrow> bulk_import_item \<Rightarrow> curated_edge" where
  "imported_edge tenant req now hex item =
     \<lparr> edge_id = new_edge_id ''imp'' tenant hex, edge_tenant_id = tenant,
       source_ref = plain_ref (bi_source_type item) (bi_source_id item),
       target_ref = plain_ref (bi_target_type item) (bi_target_id item),
       edge_relationship = bi_relationship_type item, edge_direction = bi_direction item,
       edge_criticality = bi_criticality item, edge_status = ACTIVE,
       ce_provenance = \<lparr> pv_type = IMPORTED, pv_rule_id = None, pv_actor_id = None,
         pv_import_source = Some (bq_import_source req), pv_import_job_id = Some (bq_import_job_id req), pv_layer = None \<rparr>,
       ce_confidence = bi_confidence item, ce_first_seen = now, ce_last_seen = now,
       ce_notes = or_else (bi_notes item) (Some (''Imported from '' @ bq_import_source req)),
       ce_effective_from = now, ce_effective_to = None, ce_conflict_id = None, ce_billing = bi_billing item,
       ce_history = [] \<rparr>"

definition import_row :: "dep_env \<Rightarrow> string \<Rightarrow> bulk_import_request \<Rightarrow> int \<Rightarrow> nat \<times> bulk_import_item
    \<Rightarrow> bulk_import_result \<Rightarrow> bulk_import_result dep_op" where
  "import_row env tenant req now row res =
     (let idx = fst row; item = snd row in
      if bi_source_id item = [] \<or> bi_target_id item = []
      then eff_return (res\<lparr>br_errors := br_errors res @ [MissingId idx]\<rparr>)
      else if bi_source_id item = bi_target_id item
      then eff_return (res\<lparr>br_errors := br_errors res @ [SelfReferential idx]\<rparr>)
      else
        eff_catch
          (eff_bind (draw (dv_uuid_hex env)) (\<lambda>hex.
           let edge = imported_edge tenant req now hex item in
           eff_bind (merge_candidate_edge env tenant edge) (\<lambda>saved.
           eff_return
             (if snd saved \<noteq> None then res\<lparr>br_conflicts_surfaced := br_conflicts_surfaced res + 1\<rparr>
              else if edge_id (fst saved) = edge_id edge then res\<lparr>br_edges_created := br_edges_created res + 1\<rparr>
              else res\<lparr>br_edges_updated := br_edges_updated res + 1\<rparr>))))
          (\<lambda>err. eff_return (res\<lparr>br_errors := br_errors res @ [RowFailed idx err]\<rparr>)))"

definition import_relationships :: "dep_env \<Rightarrow> string \<Rightarrow> bulk_import_request \<Rightarrow> bulk_import_result dep_op" where
  "import_relationships env tenant req =
     eff_bind (draw (dv_clock env)) (\<lambda>now.
     eff_fold (import_row env tenant req now) (enumerate 0 (bq_items req))
       \<lparr> br_import_job_id = bq_import_job_id req, br_import_source = bq_import_source req,
         br_total_received = length (bq_items req), br_edges_created = 0, br_edges_updated = 0,
         br_conflicts_surfaced = 0, br_errors = [] \<rparr>)"

section \<open>The service\<close>

definition dep_record_audit :: "dep_env \<Rightarrow> string \<Rightarrow> string \<Rightarrow> string \<Rightarrow> string \<Rightarrow> unit dep_op" where
  "dep_record_audit env tenant event actor i s =
     (Inr (), if dv_audit_ok env
              then s\<lparr>dep_audits := dep_audits s @
                [\<lparr> da_tenant_id = tenant, da_event_type = event, da_actor = actor, da_resource_id = i \<rparr>]\<rparr>
              else s)"

record manual_edge_create_request =
  mq_source_ref :: typed_entity_ref
  mq_target_ref :: typed_entity_ref
  mq_relationship_type :: relationship_type
  mq_direction :: dependency_direction
  mq_criticality :: edge_criticality
  mq_confidence :: edge_confidence_level
  mq_notes :: "string option"
  mq_billing :: "billing_attributes option"

definition curated_by :: "string \<Rightarrow> edge_provenance" where
  "curated_by actor =
     \<lparr> pv_type = MANUAL, pv_rule_id = None, pv_actor_id = Some actor, pv_import_source = None, pv_import_job_id = None,
       pv_layer = Some CURATED_APPLICATION \<rparr>"

definition manual_edge :: "string \<Rightarrow> string \<Rightarrow> int \<Rightarrow> string \<Rightarrow> manual_edge_create_request \<Rightarrow> curated_edge" where
  "manual_edge tenant hex now actor req =
     edge_add_history ''MANUAL_CREATED'' actor None (Some ACTIVE)
       \<lparr> edge_id = new_edge_id ''man'' tenant hex, edge_tenant_id = tenant, source_ref = mq_source_ref req,
         target_ref = mq_target_ref req, edge_relationship = mq_relationship_type req, edge_direction = mq_direction req,
         edge_criticality = mq_criticality req, edge_status = ACTIVE, ce_provenance = curated_by actor,
         ce_confidence = mq_confidence req, ce_first_seen = now, ce_last_seen = now, ce_notes = mq_notes req,
         ce_effective_from = now, ce_effective_to = None, ce_conflict_id = None, ce_billing = mq_billing req, ce_history = [] \<rparr>"

definition create_manual_edge :: "dep_env \<Rightarrow> tenant_context option \<Rightarrow> manual_edge_create_request \<Rightarrow> string \<Rightarrow> curated_edge dep_op" where
  "create_manual_edge env ctx req actor =
     with_context ctx (\<lambda>tenant.
     eff_bind (draw (dv_clock env)) (\<lambda>now.
     if ref_entity_id (mq_source_ref req) = ref_entity_id (mq_target_ref req)
     then eff_raise (InvalidEdgeReferenceException (ref_entity_id (mq_source_ref req))
            ''Source and target entity IDs cannot be identical.'')
     else
       eff_bind (draw (dv_uuid_hex env)) (\<lambda>hex.
       eff_bind (save_edge env tenant (manual_edge tenant hex now actor req)) (\<lambda>saved.
       eff_bind (dep_record_audit env tenant ''DEPENDENCY_EDGE_CREATED'' actor (edge_id saved)) (\<lambda>_.
       eff_return saved)))))"

definition get_edge :: "tenant_context option \<Rightarrow> string \<Rightarrow> curated_edge dep_op" where
  "get_edge ctx i =
     with_context ctx (\<lambda>tenant.
     eff_bind (eff_read (\<lambda>s. get_edge_row (dep_edges s) tenant i)) (\<lambda>found.
     case found of None \<Rightarrow> eff_raise (DependencyEdgeNotFoundException i) | Some e \<Rightarrow> eff_return e))"

record edge_update_request =
  uq_relationship_type :: "relationship_type option"
  uq_direction :: "dependency_direction option"
  uq_criticality :: "edge_criticality option"
  uq_notes :: "string option"
  uq_billing :: "billing_attributes option"

definition updated_edge :: "edge_update_request \<Rightarrow> string \<Rightarrow> int \<Rightarrow> curated_edge \<Rightarrow> curated_edge" where
  "updated_edge req actor now e =
     (let e1 = (case uq_relationship_type req of Some r \<Rightarrow> e\<lparr>edge_relationship := r\<rparr> | None \<Rightarrow> e);
          e2 = (case uq_direction req of Some d \<Rightarrow> e1\<lparr>edge_direction := d\<rparr> | None \<Rightarrow> e1);
          e3 = (case uq_criticality req of Some c \<Rightarrow> e2\<lparr>edge_criticality := c\<rparr> | None \<Rightarrow> e2);
          e4 = (case uq_notes req of Some n \<Rightarrow> e3\<lparr>ce_notes := Some n\<rparr> | None \<Rightarrow> e3);
          e5 = (case uq_billing req of Some b \<Rightarrow> e4\<lparr>ce_billing := Some b\<rparr> | None \<Rightarrow> e4)
      in edge_add_history ''MANUAL_UPDATED'' actor (Some (edge_status e)) (Some (edge_status e)) (e5\<lparr>ce_last_seen := now\<rparr>))"

definition update_edge :: "dep_env \<Rightarrow> tenant_context option \<Rightarrow> string \<Rightarrow> edge_update_request \<Rightarrow> string \<Rightarrow> curated_edge dep_op" where
  "update_edge env ctx i req actor =
     with_context ctx (\<lambda>tenant.
     eff_bind (get_edge ctx i) (\<lambda>e.
     eff_bind (draw (dv_clock env)) (\<lambda>now.
     eff_bind (save_edge env tenant (updated_edge req actor now e)) (\<lambda>saved.
     eff_bind (dep_record_audit env tenant ''DEPENDENCY_EDGE_UPDATED'' actor (edge_id saved)) (\<lambda>_.
     eff_return saved)))))"

definition delete_edge :: "dep_env \<Rightarrow> tenant_context option \<Rightarrow> string \<Rightarrow> string \<Rightarrow> bool dep_op" where
  "delete_edge env ctx i actor =
     with_context ctx (\<lambda>tenant.
     eff_bind (get_edge ctx i) (\<lambda>e.
     eff_bind (repo_delete_edge env tenant i False) (\<lambda>success.
     if success
     then eff_bind (dep_record_audit env tenant ''DEPENDENCY_EDGE_DELETED'' actor i) (\<lambda>_. eff_return True)
     else eff_return False)))"

definition list_curated_edges :: "tenant_context option \<Rightarrow> edge_status option \<Rightarrow> relationship_type option \<Rightarrow> int option
    \<Rightarrow> string option \<Rightarrow> string option \<Rightarrow> bool \<Rightarrow> curated_edge list dep_op" where
  "list_curated_edges ctx status rel as_of src tgt include_deleted =
     with_context ctx (\<lambda>tenant.
     eff_read (\<lambda>s. curated_list (dep_edges s) tenant status rel as_of src tgt False include_deleted 1000))"

definition list_conflicts :: "tenant_context option \<Rightarrow> bool \<Rightarrow> edge_conflict list dep_op" where
  "list_conflicts ctx unresolved_only =
     with_context ctx (\<lambda>tenant. eff_read (\<lambda>s. conflict_list (dep_conflicts s) tenant unresolved_only))"

definition service_resolve_conflict :: "dep_env \<Rightarrow> tenant_context option \<Rightarrow> string \<Rightarrow> conflict_resolve_request \<Rightarrow> string
    \<Rightarrow> edge_conflict dep_op" where
  "service_resolve_conflict env ctx conflict_id req actor =
     with_context ctx (\<lambda>tenant.
     eff_bind (resolve_conflict env tenant conflict_id req actor) (\<lambda>resolved.
     eff_bind (dep_record_audit env tenant ''DEPENDENCY_CONFLICT_RESOLVED'' actor conflict_id) (\<lambda>_.
     eff_return resolved)))"

fun entity_type_value :: "entity_reference_type \<Rightarrow> string" where
  "entity_type_value RESOURCE = ''RESOURCE''"
| "entity_type_value SERVICE = ''SERVICE''"
| "entity_type_value APPLICATION = ''APPLICATION''"
| "entity_type_value SCOPE = ''SCOPE''"

definition ref_key :: "typed_entity_ref \<Rightarrow> string" where
  "ref_key r = entity_type_value (ref_type r) @ '':'' @ ref_entity_id r"

record topology_graph =
  tpg_tenant_id :: string
  tpg_as_of :: int
  tpg_nodes :: "typed_entity_ref list"
  tpg_edges :: "curated_edge list"
  tpg_conflicts_count :: nat
  tpg_stale_edges_count :: nat

definition topology_nodes :: "curated_edge list \<Rightarrow> (string, typed_entity_ref) dict" where
  "topology_nodes es =
     fold (\<lambda>e d. dict_set (dict_set d (ref_key (source_ref e)) (source_ref e)) (ref_key (target_ref e)) (target_ref e)) es []"

definition get_topology_graph :: "dep_env \<Rightarrow> tenant_context option \<Rightarrow> int option \<Rightarrow> topology_graph dep_op" where
  "get_topology_graph env ctx as_of =
     with_context ctx (\<lambda>tenant.
     eff_bind (case as_of of Some t \<Rightarrow> eff_return t | None \<Rightarrow> draw (dv_clock env)) (\<lambda>target_time.
     eff_read (\<lambda>s.
       let edges = curated_list (dep_edges s) tenant None None (Some target_time) None None False False 1000 in
       \<lparr> tpg_tenant_id = tenant, tpg_as_of = target_time, tpg_nodes = dict_values (topology_nodes edges), tpg_edges = edges,
         tpg_conflicts_count = length (conflict_list (dep_conflicts s) tenant True),
         tpg_stale_edges_count = length (filter (\<lambda>e. edge_status e = STALE) edges) \<rparr>)))"

definition bulk_import :: "dep_env \<Rightarrow> tenant_context option \<Rightarrow> bulk_import_request \<Rightarrow> string \<Rightarrow> bulk_import_result dep_op" where
  "bulk_import env ctx req actor =
     with_context ctx (\<lambda>tenant.
     eff_bind (import_relationships env tenant req) (\<lambda>result.
     eff_bind (dep_record_audit env tenant ''DEPENDENCY_BULK_IMPORTED'' actor (br_import_job_id result)) (\<lambda>_.
     eff_return result)))"

record billing_sync_item =
  bs_consumer_ref :: typed_entity_ref
  bs_allocation_percentage :: rat
  bs_allocation_rule :: string
  bs_cost_centre_id :: "string option"

record billing_sync_request =
  bsq_shared_service_ref :: typed_entity_ref
  bsq_allocations :: "billing_sync_item list"
  bsq_notes :: "string option"

record billing_sync_result =
  bsr_shared_service_id :: string
  bsr_total_allocations_synced :: nat
  bsr_edges_created :: nat
  bsr_edges_updated :: nat
  bsr_total_percentage :: rat

definition synced_attributes :: "billing_sync_request \<Rightarrow> billing_sync_item \<Rightarrow> billing_attributes" where
  "synced_attributes req item =
     \<lparr> ba_allocation_percentage = bs_allocation_percentage item, ba_allocation_rule = bs_allocation_rule item,
       ba_shared_service_id = Some (ref_entity_id (bsq_shared_service_ref req)), ba_cost_centre_id = bs_cost_centre_id item \<rparr>"

definition billing_edge :: "string \<Rightarrow> string \<Rightarrow> int \<Rightarrow> string \<Rightarrow> billing_sync_request \<Rightarrow> billing_sync_item \<Rightarrow> curated_edge" where
  "billing_edge tenant hex now actor req item =
     edge_add_history ''BILLING_SYNCED'' actor None None
       \<lparr> edge_id = new_edge_id ''bill'' tenant hex, edge_tenant_id = tenant, source_ref = bsq_shared_service_ref req,
         target_ref = bs_consumer_ref item, edge_relationship = BILLING_RELATIONSHIP, edge_direction = OUTBOUND,
         edge_criticality = edge_criticality.MEDIUM, edge_status = ACTIVE, ce_provenance = curated_by actor,
         ce_confidence = HIGH, ce_first_seen = now, ce_last_seen = now,
         ce_notes = or_else (bsq_notes req) (Some ''Shared service billing cost allocation link.''),
         ce_effective_from = now, ce_effective_to = None, ce_conflict_id = None,
         ce_billing = Some (synced_attributes req item), ce_history = [] \<rparr>"

text \<open>The result of one allocation is whether an edge was created.\<close>

definition sync_allocation :: "dep_env \<Rightarrow> string \<Rightarrow> string \<Rightarrow> int \<Rightarrow> billing_sync_request \<Rightarrow> billing_sync_item \<Rightarrow> bool dep_op" where
  "sync_allocation env tenant actor now req item =
     eff_bind (find_edge env tenant (ref_entity_id (bsq_shared_service_ref req)) (ref_entity_id (bs_consumer_ref item))
       (Some BILLING_RELATIONSHIP)) (\<lambda>existing.
     case existing of
       Some e \<Rightarrow>
         eff_bind (save_edge env tenant (edge_add_history ''BILLING_SYNCED'' actor None None
           (e\<lparr>ce_billing := Some (synced_attributes req item), ce_last_seen := now\<rparr>))) (\<lambda>_. eff_return False)
     | None \<Rightarrow>
         eff_bind (draw (dv_uuid_hex env)) (\<lambda>hex.
         eff_bind (save_edge env tenant (billing_edge tenant hex now actor req item)) (\<lambda>_. eff_return True)))"

text \<open>\<open>sum\<close> over floats adds from the left, rounding each addition.\<close>

definition float_sum :: "rat list \<Rightarrow> rat" where
  "float_sum xs = fold (\<lambda>x acc. fl (acc + x)) xs 0"

definition sync_billing_relationships :: "dep_env \<Rightarrow> tenant_context option \<Rightarrow> billing_sync_request \<Rightarrow> string
    \<Rightarrow> billing_sync_result dep_op" where
  "sync_billing_relationships env ctx req actor =
     with_context ctx (\<lambda>tenant.
     eff_bind (draw (dv_clock env)) (\<lambda>now.
     eff_bind (eff_map (sync_allocation env tenant actor now req) (bsq_allocations req)) (\<lambda>created.
     eff_bind (dep_record_audit env tenant ''DEPENDENCY_BILLING_SYNCED'' actor (ref_entity_id (bsq_shared_service_ref req))) (\<lambda>_.
     eff_return
       \<lparr> bsr_shared_service_id = ref_entity_id (bsq_shared_service_ref req),
         bsr_total_allocations_synced = length (bsq_allocations req),
         bsr_edges_created = length (filter id created), bsr_edges_updated = length (filter Not created),
         bsr_total_percentage = float_sum (map bs_allocation_percentage (bsq_allocations req)) \<rparr>))))"

end
