(* ===== verification/Dependency_Discovery.thy ===== *)
theory Dependency_Discovery
  imports Remediation_Models Dependency_Curation
begin

text \<open>
  \<open>DependencyDiscoveryEngine\<close> (\<open>domain/dependency/discovery.py\<close>) and \<open>DependencyService.run_discovery\<close>: the
  candidates of the three layers and of the naming rules, their merge into the curated graph, and the marking of edges
  that were not observed again.

  An inventory item is a JSON-like dictionary. \<open>str\<close> on values that are no strings, the regular expressions and the
  attributes an enumeration class has beside its members come with \<open>py_lib\<close>.
\<close>

section \<open>Values of inventory items\<close>

record py_lib =
  pl_str :: "py_value \<Rightarrow> string"
  pl_compiles :: "string \<Rightarrow> bool"
  pl_search :: "string \<Rightarrow> string \<Rightarrow> bool"
  pl_sub :: "string \<Rightarrow> string \<Rightarrow> string \<Rightarrow> string option"
  pl_class_attribute :: "string \<Rightarrow> bool"

definition iterate :: "py_value \<Rightarrow> dep_error + py_value list" where
  "iterate v = (case py_iter v of Inl e \<Rightarrow> Inl DepTypeError | Inr vs \<Rightarrow> Inr vs)"

definition get_key :: "py_value \<Rightarrow> string \<Rightarrow> py_value \<Rightarrow> dep_error + py_value" where
  "get_key v k d = (case v of PDict p \<Rightarrow> Inr (payload_default p k d) | _ \<Rightarrow> Inl DepAttributeError)"

definition first_of :: "payload \<Rightarrow> string \<Rightarrow> string \<Rightarrow> py_value" where
  "first_of item k k' = py_or (payload_get item k) (payload_get item k')"

text \<open>\<open>TypedEntityRef(entity_type, entity_id=str(v), name=name)\<close> with its validation.\<close>

definition typed_ref :: "py_lib \<Rightarrow> entity_reference_type \<Rightarrow> py_value \<Rightarrow> py_value \<Rightarrow> dep_error + typed_entity_ref" where
  "typed_ref lib t v name =
     (let i = text_of (pl_str lib) v in
      if i = [] then Inl DepValidationError
      else case name of
             PNone \<Rightarrow> Inr \<lparr> ref_type = t, ref_entity_id = i, ref_name = None \<rparr>
           | PStr n \<Rightarrow> Inr \<lparr> ref_type = t, ref_entity_id = i, ref_name = Some n \<rparr>
           | _ \<Rightarrow> Inl DepValidationError)"

fun relationship_of_name :: "string \<Rightarrow> relationship_type option" where
  "relationship_of_name n = map_of
     [(''LOGICAL_DEPENDENCY'', LOGICAL_DEPENDENCY), (''NETWORK_CONNECTIVITY'', NETWORK_CONNECTIVITY),
      (''APPLICATION_DEPENDENCY'', APPLICATION_DEPENDENCY), (''DATA_FLOW'', DATA_FLOW),
      (''SECURITY_RELATIONSHIP'', SECURITY_RELATIONSHIP), (''SHARED_SERVICE'', SHARED_SERVICE),
      (''BILLING_RELATIONSHIP'', BILLING_RELATIONSHIP), (''PARENT_CHILD'', PARENT_CHILD),
      (''NETWORK'', relationship_type.NETWORK), (''STORAGE_ATTACHMENT'', STORAGE_ATTACHMENT), (''IAM_ROLE'', IAM_ROLE),
      (''DATABASE_CLIENT'', DATABASE_CLIENT), (''EVENT_SUBSCRIPTION'', EVENT_SUBSCRIPTION)] n"

fun entity_type_of_name :: "string \<Rightarrow> entity_reference_type option" where
  "entity_type_of_name n = map_of
     [(''RESOURCE'', RESOURCE), (''SERVICE'', SERVICE), (''APPLICATION'', APPLICATION), (''SCOPE'', SCOPE)] n"

text \<open>\<open>getattr(EnumClass, name, default)\<close>, used as a field: an attribute that is no member fails the validation.\<close>

definition enum_member :: "py_lib \<Rightarrow> (string \<Rightarrow> 'a option) \<Rightarrow> string \<Rightarrow> 'a \<Rightarrow> dep_error + 'a" where
  "enum_member lib of_name n d =
     (case of_name n of
        Some x \<Rightarrow> Inr x
      | None \<Rightarrow> if pl_class_attribute lib n then Inl DepValidationError else Inr d)"

section \<open>Candidates\<close>

text \<open>What the constructor calls of the layers share; \<open>kind\<close> is the part of the identifier after \<open>dep-\<close>.\<close>

definition candidate_edge :: "dep_env \<Rightarrow> string \<Rightarrow> int \<Rightarrow> string \<Rightarrow> typed_entity_ref \<Rightarrow> typed_entity_ref \<Rightarrow> relationship_type
    \<Rightarrow> dependency_direction \<Rightarrow> edge_provenance_type \<Rightarrow> string \<Rightarrow> discovery_layer \<Rightarrow> edge_confidence_level \<Rightarrow> edge_criticality
    \<Rightarrow> string \<Rightarrow> curated_edge dep_op" where
  "candidate_edge env tenant now kind src tgt rel dir ptype rule layer conf crit notes =
     eff_bind (draw (dv_uuid_hex env)) (\<lambda>hex. eff_return
       \<lparr> edge_id = new_edge_id kind tenant hex, edge_tenant_id = tenant, source_ref = src, target_ref = tgt,
         edge_relationship = rel, edge_direction = dir, edge_criticality = crit, edge_status = ACTIVE,
         ce_provenance = \<lparr> pv_type = ptype, pv_rule_id = Some rule, pv_actor_id = None, pv_import_source = None,
           pv_import_job_id = None, pv_layer = Some layer \<rparr>,
         ce_confidence = conf, ce_first_seen = now, ce_last_seen = now, ce_notes = Some notes, ce_effective_from = now,
         ce_effective_to = None, ce_conflict_id = None, ce_billing = None, ce_history = [] \<rparr>)"

definition observed_edge :: "py_lib \<Rightarrow> dep_env \<Rightarrow> string \<Rightarrow> int \<Rightarrow> string \<Rightarrow> py_value \<Rightarrow> py_value \<Rightarrow> entity_reference_type
    \<Rightarrow> relationship_type \<Rightarrow> dependency_direction \<Rightarrow> string \<Rightarrow> discovery_layer \<Rightarrow> edge_criticality \<Rightarrow> string \<Rightarrow> py_value
    \<Rightarrow> curated_edge dep_op" where
  "observed_edge lib env tenant now kind res name ttype rel dir rule layer crit notes v =
     eff_bind (eff_lift (typed_ref lib RESOURCE res name)) (\<lambda>src.
     eff_bind (eff_lift (typed_ref lib ttype v PNone)) (\<lambda>tgt.
     candidate_edge env tenant now kind src tgt rel dir DISCOVERED rule layer edge_confidence_level.HIGH crit notes))"

text \<open>An edge for a reference that is set, and the edges for a collection.\<close>

definition if_set :: "py_value \<Rightarrow> (py_value \<Rightarrow> curated_edge dep_op) \<Rightarrow> curated_edge list dep_op" where
  "if_set v mk = (if py_truthy v then eff_bind (mk v) (\<lambda>e. eff_return [e]) else eff_return [])"

definition for_each :: "py_value \<Rightarrow> (py_value \<Rightarrow> curated_edge dep_op) \<Rightarrow> curated_edge list dep_op" where
  "for_each v mk = eff_bind (eff_lift (iterate v)) (eff_map mk)"

definition then_also :: "curated_edge list dep_op \<Rightarrow> curated_edge list dep_op \<Rightarrow> curated_edge list dep_op" where
  "then_also m m' = eff_bind m (\<lambda>es. eff_bind m' (\<lambda>es'. eff_return (es @ es')))"

definition per_item :: "(py_value \<Rightarrow> payload \<Rightarrow> curated_edge list dep_op) \<Rightarrow> payload list \<Rightarrow> curated_edge list dep_op" where
  "per_item f items =
     eff_bind (eff_map (\<lambda>item. let res = first_of item ''id'' ''resource_id'' in
       if py_truthy res then f res item else eff_return []) items) (\<lambda>ess. eff_return (concat ess))"

definition discover_structural_edges :: "py_lib \<Rightarrow> dep_env \<Rightarrow> string \<Rightarrow> payload list \<Rightarrow> curated_edge list dep_op" where
  "discover_structural_edges lib env tenant items =
     eff_bind (draw (dv_clock env)) (\<lambda>now. per_item (\<lambda>res item.
       let name = payload_get item ''name'' in
       then_also
         (if_set (py_or (first_of item ''parent_id'' ''parent_resource_id'') (payload_get item ''parent''))
           (observed_edge lib env tenant now ''struct-parent'' res name RESOURCE PARENT_CHILD OUTBOUND
             ''RULE-STRUCT-PARENT-01'' STRUCTURAL edge_criticality.MEDIUM ''Discovered structural parent reference.''))
       (then_also
         (if_set (payload_get item ''scope_id'')
           (observed_edge lib env tenant now ''struct-scope'' res name SCOPE PARENT_CHILD OUTBOUND
             ''RULE-STRUCT-PARENT-01'' STRUCTURAL edge_criticality.MEDIUM ''Discovered structural parent scope reference.''))
         (for_each (py_or (payload_get item ''attached_disks'') (payload_default item ''storage_volume_ids'' (PList [])))
           (observed_edge lib env tenant now ''struct-disk'' res name RESOURCE LOGICAL_DEPENDENCY OUTBOUND
             ''RULE-STRUCT-STORAGE-01'' STRUCTURAL edge_criticality.HIGH ''Discovered structural block storage attachment.'')))) items)"

definition discover_network_edges :: "py_lib \<Rightarrow> dep_env \<Rightarrow> string \<Rightarrow> payload list \<Rightarrow> curated_edge list dep_op" where
  "discover_network_edges lib env tenant items =
     eff_bind (draw (dv_clock env)) (\<lambda>now. per_item (\<lambda>res item.
       then_also
         (if_set (payload_get item ''subnet_id'')
           (observed_edge lib env tenant now ''net-sub'' res (payload_get item ''name'') RESOURCE NETWORK_CONNECTIVITY
             BIDIRECTIONAL ''RULE-NET-INTERFACE-01'' discovery_layer.NETWORK edge_criticality.MEDIUM
             ''Discovered network interface subnet attachment.''))
       (then_also
         (for_each (payload_default item ''peer_vpc_ids'' (PList []))
           (observed_edge lib env tenant now ''net-peer'' res PNone RESOURCE NETWORK_CONNECTIVITY BIDIRECTIONAL
             ''RULE-NET-PEERING-01'' discovery_layer.NETWORK edge_criticality.HIGH ''Discovered VPC peering network connection.''))
         (for_each (py_or (payload_get item ''security_group_ids'') (payload_default item ''security_groups'' (PList [])))
           (observed_edge lib env tenant now ''net-sg'' res PNone RESOURCE SECURITY_RELATIONSHIP OUTBOUND
             ''RULE-NET-SG-01'' discovery_layer.NETWORK edge_criticality.HIGH ''Discovered attached security group boundary.'')))) items)"

text \<open>One entry of \<open>provider_relationships\<close>.\<close>

definition platform_relation :: "py_lib \<Rightarrow> dep_env \<Rightarrow> string \<Rightarrow> int \<Rightarrow> py_value \<Rightarrow> py_value \<Rightarrow> py_value \<Rightarrow> curated_edge list dep_op" where
  "platform_relation lib env tenant now res name rel =
     eff_bind (eff_lift (try_bind (get_key rel ''target_id'' PNone) (\<lambda>t.
       if py_truthy t then Inr t else get_key rel ''entity_id'' PNone))) (\<lambda>tgt.
     if \<not> py_truthy tgt then eff_return []
     else
       eff_bind (eff_lift (get_key rel ''relationship_type'' (PStr ''SECURITY_RELATIONSHIP''))) (\<lambda>rt.
       eff_bind (eff_lift (get_key rel ''target_type'' (PStr ''RESOURCE''))) (\<lambda>tt.
       eff_bind (eff_lift (enum_member lib entity_type_of_name (text_of (pl_str lib) tt) RESOURCE)) (\<lambda>ttype.
       eff_bind (eff_lift (enum_member lib relationship_of_name (text_of (pl_str lib) rt) SECURITY_RELATIONSHIP)) (\<lambda>rtype.
       eff_bind (observed_edge lib env tenant now ''plat-rel'' res name ttype rtype OUTBOUND
         ''DISCO-L3-PROVIDER-PROBED'' PROVIDER_PLATFORM edge_criticality.HIGH
         ''Discovered provider platform telemetry relationship.'' tgt) (\<lambda>e. eff_return [e]))))))"

definition discover_provider_platform_edges :: "py_lib \<Rightarrow> dep_env \<Rightarrow> string \<Rightarrow> payload list \<Rightarrow> curated_edge list dep_op" where
  "discover_provider_platform_edges lib env tenant items =
     eff_bind (draw (dv_clock env)) (\<lambda>now. per_item (\<lambda>res item.
       let name = payload_get item ''name'';
           platform = py_or (payload_get item ''provider_platform_telemetry'') (payload_default item ''platform_metadata'' (PDict []))
       in eff_bind (eff_lift (if py_truthy (payload_get item ''provider_relationships'')
                              then Inr (payload_get item ''provider_relationships'')
                              else get_key platform ''relationships'' (PList []))) (\<lambda>rels.
          if \<not> py_truthy platform \<and> \<not> py_truthy rels then eff_return []
          else
            then_also
              (eff_bind (eff_lift (iterate rels)) (\<lambda>rs.
               eff_bind (eff_map (platform_relation lib env tenant now res name) rs) (\<lambda>ess. eff_return (concat ess))))
            (then_also
              (eff_bind (eff_lift (get_key platform ''read_replica_source_id'' PNone)) (\<lambda>v. if_set v
                (observed_edge lib env tenant now ''plat-rep'' res name RESOURCE DATA_FLOW OUTBOUND
                  ''RULE-PROV-REPLICA-01'' PROVIDER_PLATFORM edge_criticality.CRITICAL
                  ''Discovered database read-replica data-flow from provider telemetry.'')))
              (eff_bind (eff_lift (get_key platform ''target_backend_ids'' (PList []))) (\<lambda>v. for_each v
                (observed_edge lib env tenant now ''plat-lb'' res PNone RESOURCE NETWORK_CONNECTIVITY OUTBOUND
                  ''RULE-PROV-LB-01'' PROVIDER_PLATFORM edge_criticality.HIGH
                  ''Discovered load balancer target backend from provider metadata.'')))))) items)"

section \<open>Naming rules\<close>

record naming_inference_rule =
  nr_name :: string
  nr_enabled :: bool
  nr_source_pattern :: string
  nr_target_pattern :: string
  nr_relationship_type :: relationship_type
  nr_confidence :: edge_confidence_level

text \<open>\<open>name_to_item\<close>: the last item of each name, in the order the names appear; a list or a dictionary is no key.\<close>

fun name_to_item :: "payload list \<Rightarrow> (py_value, payload) dict \<Rightarrow> dep_error + (py_value, payload) dict" where
  "name_to_item [] d = Inr d"
| "name_to_item (item # items) d =
     (let name = payload_get item ''name'' in
      if \<not> py_truthy name then name_to_item items d
      else case name of
             PList vs \<Rightarrow> Inl DepTypeError
           | PDict p \<Rightarrow> Inl DepTypeError
           | _ \<Rightarrow> name_to_item items (dict_set d name item))"

definition inferred_confidence :: "edge_confidence_level \<Rightarrow> edge_confidence_level" where
  "inferred_confidence c = (if c = edge_confidence_level.HIGH then edge_confidence_level.LOW else c)"

definition infer_named :: "py_lib \<Rightarrow> dep_env \<Rightarrow> string \<Rightarrow> int \<Rightarrow> (py_value, payload) dict \<Rightarrow> naming_inference_rule
    \<Rightarrow> py_value \<times> payload \<Rightarrow> curated_edge list dep_op" where
  "infer_named lib env tenant now names rule entry =
     (case fst entry of
        PStr name \<Rightarrow>
          if \<not> pl_search lib (nr_source_pattern rule) name then eff_return []
          else (case pl_sub lib (nr_source_pattern rule) (nr_target_pattern rule) name of
                  None \<Rightarrow> eff_raise DepPatternError
                | Some target_name \<Rightarrow>
                    (case dict_get names (PStr target_name) of
                       None \<Rightarrow> eff_return []
                     | Some target \<Rightarrow>
                         let sid = first_of (snd entry) ''id'' ''resource_id''; tid = first_of target ''id'' ''resource_id'' in
                         if \<not> py_truthy sid \<or> \<not> py_truthy tid \<or> py_eq sid tid then eff_return []
                         else
                           eff_bind (eff_lift (typed_ref lib RESOURCE sid (PStr name))) (\<lambda>src.
                           eff_bind (eff_lift (typed_ref lib RESOURCE tid (PStr target_name))) (\<lambda>tgt.
                           eff_bind (candidate_edge env tenant now ''inf-name'' src tgt (nr_relationship_type rule) OUTBOUND
                             INFERRED (''RULE-NAMING-'' @ nr_name rule) INFERRED_NAMING
                             (inferred_confidence (nr_confidence rule)) edge_criticality.MEDIUM
                             (''Inferred via explicit naming rule '' @ quoted (nr_name rule) @ ''.'')) (\<lambda>e. eff_return [e])))))
      | _ \<Rightarrow> eff_raise DepTypeError)"

definition infer_naming_convention_edges :: "py_lib \<Rightarrow> dep_env \<Rightarrow> string \<Rightarrow> payload list \<Rightarrow> naming_inference_rule list
    \<Rightarrow> curated_edge list dep_op" where
  "infer_naming_convention_edges lib env tenant items rules =
     eff_bind (draw (dv_clock env)) (\<lambda>now.
     eff_bind (eff_lift (name_to_item items [])) (\<lambda>names.
     eff_bind (eff_map (\<lambda>rule.
       if pl_compiles lib (nr_source_pattern rule)
       then eff_bind (eff_map (infer_named lib env tenant now names rule) names) (\<lambda>ess. eff_return (concat ess))
       else eff_return []) (filter nr_enabled rules)) (\<lambda>ess. eff_return (concat ess))))"

section \<open>The discovery run\<close>

record discovery_configuration =
  dc_enable_structural :: bool
  dc_enable_network :: bool
  dc_enable_provider_platform :: bool
  dc_naming_rules :: "naming_inference_rule list"
  dc_stale_threshold_seconds :: int

definition default_discovery :: discovery_configuration where
  "default_discovery =
     \<lparr> dc_enable_structural = True, dc_enable_network = True, dc_enable_provider_platform = True, dc_naming_rules = [],
       dc_stale_threshold_seconds = 86400 \<rparr>"

record discovery_run_result =
  dr_run_id :: string
  dr_tenant_id :: string
  dr_executed_at :: int
  dr_structural_edges_found :: nat
  dr_network_edges_found :: nat
  dr_provider_edges_found :: nat
  dr_inferred_edges_found :: nat
  dr_total_edges_observed :: nat
  dr_conflicts_surfaced :: nat
  dr_stale_edges_marked :: nat

type_synonym observed_pair = "string \<times> string \<times> relationship_type"

definition pair_of :: "curated_edge \<Rightarrow> observed_pair" where
  "pair_of e = (ref_entity_id (source_ref e), ref_entity_id (target_ref e), edge_relationship e)"

definition marked_stale :: "curated_edge \<Rightarrow> curated_edge" where
  "marked_stale e =
     edge_add_history ''MARKED_STALE'' ''discovery-engine'' (Some ACTIVE) (Some STALE) (e\<lparr>edge_status := STALE\<rparr>)"

definition goes_stale :: "int \<Rightarrow> curated_edge list \<Rightarrow> curated_edge \<Rightarrow> bool" where
  "goes_stale stale_threshold observed e \<longleftrightarrow>
     \<not> is_manual e \<and> pair_of e \<notin> pair_of ` set observed \<and> ce_last_seen e < stale_threshold"

text \<open>Instants are microseconds.\<close>

definition mark_stale_edges :: "dep_env \<Rightarrow> string \<Rightarrow> int \<Rightarrow> int \<Rightarrow> curated_edge list \<Rightarrow> nat dep_op" where
  "mark_stale_edges env tenant scan_time threshold_seconds observed =
     (let stale_threshold = scan_time - threshold_seconds * 1000000 in
      eff_bind (eff_read (\<lambda>s. curated_list (dep_edges s) tenant (Some ACTIVE) None None None None False False 1000)) (\<lambda>active.
      eff_fold (\<lambda>e n.
        if goes_stale stale_threshold observed e
        then eff_bind (save_edge env tenant (marked_stale e)) (\<lambda>_. eff_return (n + 1))
        else eff_return n) active 0))"

definition merge_candidates :: "dep_env \<Rightarrow> string \<Rightarrow> curated_edge list \<Rightarrow> nat dep_op" where
  "merge_candidates env tenant candidates =
     eff_fold (\<lambda>c n. eff_bind (merge_candidate_edge env tenant c) (\<lambda>saved.
       eff_return (if snd saved \<noteq> None then n + 1 else n))) candidates 0"

definition execute_discovery :: "py_lib \<Rightarrow> dep_env \<Rightarrow> string \<Rightarrow> payload list \<Rightarrow> discovery_configuration option
    \<Rightarrow> discovery_run_result dep_op" where
  "execute_discovery lib env tenant items config =
     (let cfg = (case config of Some c \<Rightarrow> c | None \<Rightarrow> default_discovery) in
      eff_bind (draw (dv_clock env)) (\<lambda>now.
      eff_bind (draw (dv_uuid_hex env)) (\<lambda>hex.
      eff_bind (if dc_enable_structural cfg then discover_structural_edges lib env tenant items else eff_return []) (\<lambda>structural.
      eff_bind (if dc_enable_network cfg then discover_network_edges lib env tenant items else eff_return []) (\<lambda>network.
      eff_bind (if dc_enable_provider_platform cfg then discover_provider_platform_edges lib env tenant items else eff_return []) (\<lambda>provider.
      eff_bind (if dc_naming_rules cfg \<noteq> [] then infer_naming_convention_edges lib env tenant items (dc_naming_rules cfg)
                else eff_return []) (\<lambda>inferred.
      let candidates = structural @ network @ provider @ inferred in
      eff_bind (merge_candidates env tenant candidates) (\<lambda>conflicts.
      eff_bind (mark_stale_edges env tenant now (dc_stale_threshold_seconds cfg) candidates) (\<lambda>stale.
      eff_return
        \<lparr> dr_run_id = ''disc-run-'' @ take 8 hex, dr_tenant_id = tenant, dr_executed_at = now,
          dr_structural_edges_found = length structural, dr_network_edges_found = length network,
          dr_provider_edges_found = length provider, dr_inferred_edges_found = length inferred,
          dr_total_edges_observed = length candidates, dr_conflicts_surfaced = conflicts,
          dr_stale_edges_marked = stale \<rparr>)))))))))"

definition run_discovery :: "py_lib \<Rightarrow> dep_env \<Rightarrow> tenant_context option \<Rightarrow> payload list \<Rightarrow> discovery_configuration option
    \<Rightarrow> string \<Rightarrow> discovery_run_result dep_op" where
  "run_discovery lib env ctx items config actor =
     with_context ctx (\<lambda>tenant.
     eff_bind (execute_discovery lib env tenant items config) (\<lambda>result.
     eff_bind (dep_record_audit env tenant ''DEPENDENCY_DISCOVERY_COMPLETED'' actor (dr_run_id result)) (\<lambda>_.
     eff_return result)))"

end
