(* ===== verification/Curation_Store.thy ===== *)
theory Curation_Store
  imports Dependency_Discovery
begin

text \<open>
  The tables of the curated graph as stores of tenants, what a save does to them, and the frames of the service
  (\<open>store_frame\<close>), carried through the merge engine, the importer, the discovery run and the service by the lemmas of
  \<open>frame\<close>. One frame is how stored edges may evolve (\<open>edge_evolution\<close>).
\<close>

text \<open>An update in place of the row with a key.\<close>

lemma update_keyed:
  assumes "distinct (map k rows)" and "r \<in> set rows"
  shows "(\<lambda>x. if k x = k r then f x else x) ` set rows = {x \<in> set rows. k x \<noteq> k r} \<union> {f r}"
proof -
  have "x = r" if "x \<in> set rows" "k x = k r" for x
    using assms that by (simp add: distinct_map inj_on_def)
  then have "{x \<in> set rows. k x = k r} = {r}" using assms(2) by blast
  then have "f ` {x \<in> set rows. k x = k r} = {f r}" by simp
  moreover have "(\<lambda>x. if k x = k r then f x else x) ` set rows
      = f ` {x \<in> set rows. k x = k r} \<union> {x \<in> set rows. k x \<noteq> k r}" by force
  ultimately show ?thesis by blast
qed

section \<open>The edge table\<close>

definition edge_rows_ok :: "curated_row list \<Rightarrow> bool" where
  "edge_rows_ok rows \<longleftrightarrow> distinct (map (\<lambda>r. edge_id (cw_edge r)) rows)
     \<and> (\<forall>r \<in> set rows. edge_tenant_id (cw_edge r) = cw_tenant_id r)"

definition edge_ok :: "curated_row list \<Rightarrow> string \<Rightarrow> curated_edge \<Rightarrow> bool" where
  "edge_ok rows tn e \<longleftrightarrow> edge_tenant_id e = tn \<and> (\<forall>r \<in> set rows. edge_id (cw_edge r) = edge_id e \<longrightarrow> cw_tenant_id r = tn)"

lemma edge_row_unique:
  "edge_rows_ok rows \<Longrightarrow> r \<in> set rows \<Longrightarrow> r' \<in> set rows \<Longrightarrow> edge_id (cw_edge r) = edge_id (cw_edge r') \<Longrightarrow> r = r'"
  by (simp add: edge_rows_ok_def distinct_map inj_on_def)

lemma get_edge_rowE:
  assumes "get_edge_row rows tn i = Some e"
  obtains r where "r \<in> set rows" "cw_edge r = e" "edge_id e = i" "cw_tenant_id r = tn"
  using assms by (auto simp: get_edge_row_def dest: find_SomeD)

lemma get_edge_row_iff:
  "edge_rows_ok rows \<Longrightarrow> get_edge_row rows tn i = Some e \<longleftrightarrow>
     (\<exists>r \<in> set rows. cw_edge r = e \<and> edge_id e = i \<and> cw_tenant_id r = tn)"
proof
  assume ok: "edge_rows_ok rows" and "\<exists>r \<in> set rows. cw_edge r = e \<and> edge_id e = i \<and> cw_tenant_id r = tn"
  then obtain r where r: "r \<in> set rows" "cw_edge r = e" "edge_id e = i" "cw_tenant_id r = tn" by blast
  then obtain r' where r': "find (\<lambda>r. edge_id (cw_edge r) = i \<and> cw_tenant_id r = tn) rows = Some r'"
    by (cases "find (\<lambda>r. edge_id (cw_edge r) = i \<and> cw_tenant_id r = tn) rows") (auto simp: find_None_iff)
  then have "r' = r" using find_SomeD[OF r'] r edge_row_unique[OF ok] by blast
  then show "get_edge_row rows tn i = Some e" using r r' by (simp add: get_edge_row_def)
qed (auto elim: get_edge_rowE)

lemma get_edge_ident: "edge_rows_ok rows \<Longrightarrow> get_edge_row rows tn i = Some e \<Longrightarrow> edge_id e = i \<and> edge_tenant_id e = tn"
  by (auto simp: get_edge_row_iff edge_rows_ok_def)

lemma put_edge_row_set:
  assumes "edge_rows_ok rows" and "edge_ok rows tn e"
  shows "\<exists>t. set (put_edge_row rows tn e) =
      {r \<in> set rows. edge_id (cw_edge r) \<noteq> edge_id e} \<union> {\<lparr> cw_tenant_id = tn, cw_created_at = t, cw_edge = e \<rparr>}"
proof (cases "list_ex (\<lambda>r. edge_id (cw_edge r) = edge_id e) rows")
  case True
  then obtain r where r: "r \<in> set rows" "edge_id (cw_edge r) = edge_id e" by (auto simp: list_ex_iff)
  have "cw_tenant_id r = tn" using assms(2) r by (simp add: edge_ok_def)
  then have upd: "r\<lparr>cw_edge := e\<rparr> = \<lparr> cw_tenant_id = tn, cw_created_at = cw_created_at r, cw_edge = e \<rparr>" by simp
  have "set (put_edge_row rows tn e) = (\<lambda>r. if edge_id (cw_edge r) = edge_id e then r\<lparr>cw_edge := e\<rparr> else r) ` set rows"
    using True by (simp add: put_edge_row_def)
  also have "\<dots> = {r \<in> set rows. edge_id (cw_edge r) \<noteq> edge_id e} \<union> {r\<lparr>cw_edge := e\<rparr>}"
    using update_keyed[of "\<lambda>r. edge_id (cw_edge r)" rows r "\<lambda>r. r\<lparr>cw_edge := e\<rparr>"] assms(1) r by (simp add: edge_rows_ok_def)
  finally show ?thesis unfolding upd by blast
next
  case False
  then have "\<forall>r \<in> set rows. edge_id (cw_edge r) \<noteq> edge_id e" by (simp add: list_ex_iff)
  with False have "set (put_edge_row rows tn e) = {r \<in> set rows. edge_id (cw_edge r) \<noteq> edge_id e}
      \<union> {\<lparr> cw_tenant_id = tn, cw_created_at = ce_effective_from e, cw_edge = e \<rparr>}"
    by (auto simp: put_edge_row_def)
  then show ?thesis by blast
qed

lemma put_edge_row_ok:
  assumes "edge_rows_ok rows" and "edge_ok rows tn e"
  shows "edge_rows_ok (put_edge_row rows tn e)"
proof -
  have "distinct (map (\<lambda>r. edge_id (cw_edge r)) (put_edge_row rows tn e))"
  proof (cases "list_ex (\<lambda>r. edge_id (cw_edge r) = edge_id e) rows")
    case True
    then have "map (\<lambda>r. edge_id (cw_edge r)) (put_edge_row rows tn e) = map (\<lambda>r. edge_id (cw_edge r)) rows"
      by (simp add: put_edge_row_def)
    with assms(1) show ?thesis by (simp add: edge_rows_ok_def)
  next
    case False
    then show ?thesis using assms(1) by (auto simp: put_edge_row_def edge_rows_ok_def list_ex_iff)
  qed
  then show ?thesis
    using put_edge_row_set[OF assms] assms by (auto simp: edge_rows_ok_def edge_ok_def)
qed

lemma get_put_edge_row:
  assumes "edge_rows_ok rows" and "edge_ok rows tn e"
  shows "get_edge_row (put_edge_row rows tn e) tn' i = (if i = edge_id e \<and> tn' = tn then Some e else get_edge_row rows tn' i)"
proof -
  obtain t where rows: "set (put_edge_row rows tn e) =
      {r \<in> set rows. edge_id (cw_edge r) \<noteq> edge_id e} \<union> {\<lparr> cw_tenant_id = tn, cw_created_at = t, cw_edge = e \<rparr>}"
    using put_edge_row_set[OF assms] by blast
  have "get_edge_row (put_edge_row rows tn e) tn' i = Some x \<longleftrightarrow>
      (if i = edge_id e \<and> tn' = tn then x = e else get_edge_row rows tn' i = Some x)" for x
    unfolding get_edge_row_iff[OF assms(1)] get_edge_row_iff[OF put_edge_row_ok[OF assms]] rows
    using assms(2) by (auto simp: edge_ok_def)
  then show ?thesis by (metis option.exhaust)
qed

lemma stored_edge_ok:
  assumes "edge_rows_ok rows" and "get_edge_row rows tn (edge_id e) = Some old" and "edge_tenant_id e = tn"
  shows "edge_ok rows tn e"
proof -
  obtain r where r: "r \<in> set rows" "cw_edge r = old" "edge_id old = edge_id e" "cw_tenant_id r = tn"
    using assms(2) by (rule get_edge_rowE)
  have "cw_tenant_id r' = tn" if "r' \<in> set rows" "edge_id (cw_edge r') = edge_id e" for r'
    using edge_row_unique[OF assms(1) that(1) r(1)] that(2) r by simp
  with assms(3) show ?thesis by (simp add: edge_ok_def)
qed

interpretation edges: tenant_store get_edge_row put_edge_row edge_id "\<lambda>_ e. e" edge_rows_ok edge_ok
proof
  show "edge_ok rows' tn e"
    if "edge_rows_ok rows'" "get_edge_row rows' tn (edge_id e) = Some old" "edge_ok rows tn e" for rows rows' tn e old
    using that by (intro stored_edge_ok) (simp_all add: edge_ok_def)
qed (rule get_put_edge_row put_edge_row_ok; assumption)+

section \<open>The conflict table\<close>

definition conflict_rows_ok :: "conflict_row list \<Rightarrow> bool" where
  "conflict_rows_ok rows \<longleftrightarrow> distinct (map (\<lambda>r. cf_conflict_id (cx_conflict r)) rows)"

definition conflict_ok :: "conflict_row list \<Rightarrow> string \<Rightarrow> edge_conflict \<Rightarrow> bool" where
  "conflict_ok rows tn c \<longleftrightarrow> (\<forall>r \<in> set rows. cf_conflict_id (cx_conflict r) = cf_conflict_id c \<longrightarrow> cx_tenant_id r = tn)"

lemma get_conflict_rowE:
  assumes "get_conflict_row rows tn i = Some c"
  obtains r where "r \<in> set rows" "cx_conflict r = c" "cf_conflict_id c = i" "cx_tenant_id r = tn"
  using assms by (auto simp: get_conflict_row_def dest: find_SomeD)

lemma conflict_row_unique:
  "conflict_rows_ok rows \<Longrightarrow> r \<in> set rows \<Longrightarrow> r' \<in> set rows
    \<Longrightarrow> cf_conflict_id (cx_conflict r) = cf_conflict_id (cx_conflict r') \<Longrightarrow> r = r'"
  by (simp add: conflict_rows_ok_def distinct_map inj_on_def)

lemma get_conflict_row_iff:
  "conflict_rows_ok rows \<Longrightarrow> get_conflict_row rows tn i = Some c \<longleftrightarrow>
     (\<exists>r \<in> set rows. cx_conflict r = c \<and> cf_conflict_id c = i \<and> cx_tenant_id r = tn)"
proof
  assume ok: "conflict_rows_ok rows" and "\<exists>r \<in> set rows. cx_conflict r = c \<and> cf_conflict_id c = i \<and> cx_tenant_id r = tn"
  then obtain r where r: "r \<in> set rows" "cx_conflict r = c" "cf_conflict_id c = i" "cx_tenant_id r = tn" by blast
  then obtain r' where r': "find (\<lambda>r. cf_conflict_id (cx_conflict r) = i \<and> cx_tenant_id r = tn) rows = Some r'"
    by (cases "find (\<lambda>r. cf_conflict_id (cx_conflict r) = i \<and> cx_tenant_id r = tn) rows") (auto simp: find_None_iff)
  then have "r' = r" using find_SomeD[OF r'] r conflict_row_unique[OF ok] by blast
  then show "get_conflict_row rows tn i = Some c" using r r' by (simp add: get_conflict_row_def)
qed (auto elim: get_conflict_rowE)

lemma put_conflict_row_set:
  assumes "conflict_rows_ok rows" and "conflict_ok rows tn c"
  shows "\<exists>t. set (put_conflict_row rows tn c) = {r \<in> set rows. cf_conflict_id (cx_conflict r) \<noteq> cf_conflict_id c}
      \<union> {\<lparr> cx_tenant_id = tn, cx_created_at = t, cx_conflict = c \<rparr>}"
proof (cases "list_ex (\<lambda>r. cf_conflict_id (cx_conflict r) = cf_conflict_id c) rows")
  case True
  then obtain r where r: "r \<in> set rows" "cf_conflict_id (cx_conflict r) = cf_conflict_id c" by (auto simp: list_ex_iff)
  have "cx_tenant_id r = tn" using assms(2) r by (simp add: conflict_ok_def)
  then have upd: "r\<lparr>cx_conflict := c\<rparr> = \<lparr> cx_tenant_id = tn, cx_created_at = cx_created_at r, cx_conflict = c \<rparr>" by simp
  have "set (put_conflict_row rows tn c) =
      (\<lambda>r. if cf_conflict_id (cx_conflict r) = cf_conflict_id c then r\<lparr>cx_conflict := c\<rparr> else r) ` set rows"
    using True by (simp add: put_conflict_row_def)
  also have "\<dots> = {r \<in> set rows. cf_conflict_id (cx_conflict r) \<noteq> cf_conflict_id c} \<union> {r\<lparr>cx_conflict := c\<rparr>}"
    using update_keyed[of "\<lambda>r. cf_conflict_id (cx_conflict r)" rows r "\<lambda>r. r\<lparr>cx_conflict := c\<rparr>"] assms(1) r
    by (simp add: conflict_rows_ok_def)
  finally show ?thesis unfolding upd by blast
next
  case False
  then have "\<forall>r \<in> set rows. cf_conflict_id (cx_conflict r) \<noteq> cf_conflict_id c" by (simp add: list_ex_iff)
  with False have "set (put_conflict_row rows tn c) = {r \<in> set rows. cf_conflict_id (cx_conflict r) \<noteq> cf_conflict_id c}
      \<union> {\<lparr> cx_tenant_id = tn, cx_created_at = cf_detected_at c, cx_conflict = c \<rparr>}"
    by (auto simp: put_conflict_row_def)
  then show ?thesis by blast
qed

lemma put_conflict_row_ok: "conflict_rows_ok rows \<Longrightarrow> conflict_rows_ok (put_conflict_row rows tn c)"
proof (cases "list_ex (\<lambda>r. cf_conflict_id (cx_conflict r) = cf_conflict_id c) rows")
  case True
  then have "map (\<lambda>r. cf_conflict_id (cx_conflict r)) (put_conflict_row rows tn c) = map (\<lambda>r. cf_conflict_id (cx_conflict r)) rows"
    by (simp add: put_conflict_row_def)
  then show "conflict_rows_ok rows \<Longrightarrow> ?thesis" by (simp add: conflict_rows_ok_def)
qed (auto simp: put_conflict_row_def conflict_rows_ok_def list_ex_iff)

lemma get_put_conflict_row:
  assumes "conflict_rows_ok rows" and "conflict_ok rows tn c"
  shows "get_conflict_row (put_conflict_row rows tn c) tn' i =
      (if i = cf_conflict_id c \<and> tn' = tn then Some c else get_conflict_row rows tn' i)"
proof -
  obtain t where rows: "set (put_conflict_row rows tn c) = {r \<in> set rows. cf_conflict_id (cx_conflict r) \<noteq> cf_conflict_id c}
      \<union> {\<lparr> cx_tenant_id = tn, cx_created_at = t, cx_conflict = c \<rparr>}"
    using put_conflict_row_set[OF assms] by blast
  have "get_conflict_row (put_conflict_row rows tn c) tn' i = Some x \<longleftrightarrow>
      (if i = cf_conflict_id c \<and> tn' = tn then x = c else get_conflict_row rows tn' i = Some x)" for x
    unfolding get_conflict_row_iff[OF assms(1)] get_conflict_row_iff[OF put_conflict_row_ok[OF assms(1)]] rows
    using assms(2) by (auto simp: conflict_ok_def)
  then show ?thesis by (metis option.exhaust)
qed

interpretation conflicts: tenant_store get_conflict_row put_conflict_row cf_conflict_id "\<lambda>_ c. c" conflict_rows_ok conflict_ok
proof
  fix rows rows' :: "conflict_row list" and tn and c old :: edge_conflict
  assume asm: "conflict_rows_ok rows'" "get_conflict_row rows' tn (cf_conflict_id c) = Some old"
  obtain r where r: "r \<in> set rows'" "cx_conflict r = old" "cf_conflict_id old = cf_conflict_id c" "cx_tenant_id r = tn"
    using asm(2) by (rule get_conflict_rowE)
  have "cx_tenant_id r' = tn" if "r' \<in> set rows'" "cf_conflict_id (cx_conflict r') = cf_conflict_id c" for r'
    using conflict_row_unique[OF asm(1) that(1) r(1)] that(2) r by simp
  then show "conflict_ok rows' tn c" by (simp add: conflict_ok_def)
qed (rule get_put_conflict_row put_conflict_row_ok; assumption)+

section \<open>Saving an edge\<close>

lemma draw_eq: "draw f s = (Inr (f (dep_draws s)), s\<lparr>dep_draws := Suc (dep_draws s)\<rparr>)"
  by (simp add: draw_def)

lemma eff_bind_draw [simp]: "eff_bind (draw f) g s = g (f (dep_draws s)) (s\<lparr>dep_draws := Suc (dep_draws s)\<rparr>)"
  by (simp add: eff_bind_def draw_def)

definition snapshot :: "dep_env \<Rightarrow> string \<Rightarrow> curated_edge \<Rightarrow> nat \<Rightarrow> version_row" where
  "snapshot env tn old n =
     \<lparr> vr_id = ''hist-'' @ take 12 (dv_uuid_hex env n), vr_tenant_id = tn, vr_edge_id = edge_id old, vr_version = old,
       vr_recorded_at = dv_db_clock env (Suc n) \<rparr>"

lemma save_edge_cases:
  assumes "save_edge env tn e s = (r, s')"
  obtains (failed) n where "r = Inl DepDatabaseError" "s' = s\<lparr>dep_draws := n\<rparr>" "dep_draws s \<le> n"
      "\<not> edge_fits (dep_edges s) tn e
        \<or> (\<exists>old. get_edge_row (dep_edges s) tn (edge_id e) = Some old
              \<and> vr_id (snapshot env tn old (dep_draws s)) \<in> vr_id ` set (dep_versions s))"
    | (created) "r = Inr e" "get_edge_row (dep_edges s) tn (edge_id e) = None" "edge_fits (dep_edges s) tn e"
      "s' = s\<lparr>dep_edges := put_edge_row (dep_edges s) tn e\<rparr>"
    | (updated) old where "r = Inr e" "get_edge_row (dep_edges s) tn (edge_id e) = Some old" "edge_fits (dep_edges s) tn e"
      "s' = s\<lparr>dep_edges := put_edge_row (dep_edges s) tn e, dep_versions := dep_versions s @ [snapshot env tn old (dep_draws s)],
               dep_draws := dep_draws s + 2\<rparr>"
proof (cases "get_edge_row (dep_edges s) tn (edge_id e)")
  case None
  then have eq: "save_edge env tn e s = write_edge tn e [] s" by (simp add: save_edge_def)
  show ?thesis
  proof (cases "edge_fits (dep_edges s) tn e")
    case True
    then show ?thesis using assms None eq by (intro created) (auto simp: write_edge_def)
  next
    case False
    then have "(r, s') = (Inl DepDatabaseError, s)" using assms eq by (simp add: write_edge_def)
    then show ?thesis using False by (intro failed[of "dep_draws s"]) auto
  qed
next
  case (Some old)
  have id: "edge_id old = edge_id e" using Some by (auto elim: get_edge_rowE)
  have eq: "save_edge env tn e s = write_edge tn e [snapshot env tn old (dep_draws s)] (s\<lparr>dep_draws := dep_draws s + 2\<rparr>)"
    using Some id by (simp add: save_edge_def snapshot_def)
  show ?thesis
  proof (cases "\<not> edge_fits (dep_edges s) tn e \<or> vr_id (snapshot env tn old (dep_draws s)) \<in> vr_id ` set (dep_versions s)")
    case True
    then have "(r, s') = (Inl DepDatabaseError, s\<lparr>dep_draws := dep_draws s + 2\<rparr>)" using assms eq by (simp add: write_edge_def)
    then show ?thesis using True Some by (intro failed[of "dep_draws s + 2"]) auto
  next
    case False
    then show ?thesis using assms eq Some by (intro updated[of old]) (auto simp: write_edge_def)
  qed
qed

lemma edge_fits_ok: "edge_fits rows tn e \<Longrightarrow> edge_tenant_id e = tn \<Longrightarrow> edge_ok rows tn e"
  by (auto simp: edge_fits_def edge_ok_def list_all_iff)

lemma save_edge_value:
  assumes save: "save_edge env tn e s = (Inr x, s')" and ok: "edge_rows_ok (dep_edges s)" "edge_tenant_id e = tn"
  shows "x = e \<and> edge_ok (dep_edges s) tn e \<and> edge_rows_ok (dep_edges s') \<and> dep_conflicts s' = dep_conflicts s
    \<and> get_edge_row (dep_edges s') tn' i = (if i = edge_id e \<and> tn' = tn then Some e else get_edge_row (dep_edges s) tn' i)"
proof -
  have fits: "edge_fits (dep_edges s) tn e" and s': "dep_edges s' = put_edge_row (dep_edges s) tn e" "x = e"
      "dep_conflicts s' = dep_conflicts s"
    using save by (auto elim: save_edge_cases)
  then show ?thesis
    using edges.get_save[OF ok(1) edge_fits_ok[OF fits ok(2)]] edges.valid_save[OF ok(1) edge_fits_ok[OF fits ok(2)]]
      edge_fits_ok[OF fits ok(2)] by simp
qed

section \<open>Operations that only read the environment\<close>

definition draws_only :: "dep_state \<Rightarrow> dep_state \<Rightarrow> bool" where
  "draws_only s s' \<longleftrightarrow> (\<exists>n \<ge> dep_draws s. s' = s\<lparr>dep_draws := n\<rparr>)"

interpretation drawing: frame draws_only
proof
  show "draws_only s s" for s unfolding draws_only_def by (rule exI[of _ "dep_draws s"]) simp
next
  fix s s' s''
  assume "draws_only s s'" "draws_only s' s''"
  then obtain n m where "dep_draws s \<le> n" "s' = s\<lparr>dep_draws := n\<rparr>" "dep_draws s' \<le> m" "s'' = s'\<lparr>dep_draws := m\<rparr>"
    unfolding draws_only_def by blast
  then show "draws_only s s''" unfolding draws_only_def by (intro exI[of _ m]) auto
qed

lemma draw_only: "draws_only s (snd (draw f s))"
  unfolding draws_only_def draw_def by (rule exI[of _ "Suc (dep_draws s)"]) simp

lemma find_edge_draws: "draws_only s (snd (find_edge env tn src tgt rel s))"
  by (auto simp: find_edge_def drawing.R_refl intro: exI[of _ "Suc (dep_draws s)"]) (auto simp: draws_only_def intro: exI[of _ "Suc (dep_draws s)"])

lemma find_edge_stored:
  assumes "find_edge env tn src tgt rel s = (Inr (Some e), s')"
  shows "e \<in> set (edges_between (dep_edges s) tn src tgt rel)"
proof -
  let ?es = "edges_between (dep_edges s) tn src tgt rel"
  have "?es \<noteq> []" using assms by (auto simp: find_edge_def)
  moreover from this have "e = ?es ! (dv_pick env (dep_draws s) mod length ?es)" using assms by (simp add: find_edge_def)
  ultimately show ?thesis by simp
qed

lemma find_edge_none: "find_edge env tn src tgt rel s = (Inr None, s') \<Longrightarrow> edges_between (dep_edges s) tn src tgt rel = []"
  by (auto simp: find_edge_def split: if_splits)

lemma edges_between_stored:
  "edge_rows_ok rows \<Longrightarrow> e \<in> set (edges_between rows tn src tgt rel) \<Longrightarrow> get_edge_row rows tn (edge_id e) = Some e"
  by (auto simp: edges_between_def get_edge_row_iff)

lemma curated_list_stored:
  "edge_rows_ok rows \<Longrightarrow> e \<in> set (curated_list rows tn st rel as_of src tgt ih idel limit) \<Longrightarrow> get_edge_row rows tn (edge_id e) = Some e"
  by (auto simp: curated_list_def get_edge_row_iff Let_def dest!: in_set_takeD)

section \<open>Evolution of stored edges\<close>

text \<open>
  The identifiers tell what people asserted: \<open>create_manual_edge\<close> and \<open>sync_billing_relationships\<close> are the only
  operations that make manual edges, and no candidate has an identifier of theirs.
\<close>

definition manual_id :: "string \<Rightarrow> bool" where
  "manual_id i \<longleftrightarrow> prefix ''dep-man-'' i \<or> prefix ''dep-bill-'' i"

definition labelled :: "curated_edge \<Rightarrow> bool" where
  "labelled e \<longleftrightarrow> (is_manual e \<longleftrightarrow> manual_id (edge_id e))"

definition edge_inv :: "dep_state \<Rightarrow> bool" where
  "edge_inv s \<longleftrightarrow> edge_rows_ok (dep_edges s) \<and> (\<forall>r \<in> set (dep_edges s). labelled (cw_edge r))"

abbreviation stored :: "dep_state \<Rightarrow> string \<Rightarrow> string \<Rightarrow> curated_edge option" where
  "stored s tn i \<equiv> get_edge_row (dep_edges s) tn i"

lemma edge_inv_stored: "edge_inv s \<Longrightarrow> stored s tn i = Some e \<Longrightarrow> labelled e \<and> edge_id e = i \<and> edge_tenant_id e = tn"
  using get_edge_ident[of "dep_edges s" tn i e] by (auto simp: edge_inv_def elim: get_edge_rowE)

lemma edge_inv_edges: "dep_edges s' = dep_edges s \<Longrightarrow> edge_inv s' = edge_inv s"
  by (simp add: edge_inv_def)

lemma put_labelled:
  assumes "edge_inv s" and "edge_ok (dep_edges s) tn e" and "labelled e" and "dep_edges s' = put_edge_row (dep_edges s) tn e"
  shows "edge_inv s'"
proof -
  have ok: "edge_rows_ok (dep_edges s)" using assms(1) by (simp add: edge_inv_def)
  obtain t where "set (put_edge_row (dep_edges s) tn e) = {r \<in> set (dep_edges s). edge_id (cw_edge r) \<noteq> edge_id e}
      \<union> {\<lparr> cw_tenant_id = tn, cw_created_at = t, cw_edge = e \<rparr>}"
    using put_edge_row_set[OF ok assms(2)] by blast
  then show ?thesis using assms edges.valid_save[OF ok assms(2)] by (auto simp: edge_inv_def)
qed

text \<open>
  What the operations of the service do to the tables, seen from any frame: they read the environment, record audit
  events and save edges of their tenant that are labelled, replace what is stored only by what \<open>allowed\<close> admits and add
  only what \<open>fresh_ok\<close> admits. The frame may rely on the labels being right before an operation.
\<close>

locale base_frame = frame R for R :: "dep_state \<Rightarrow> dep_state \<Rightarrow> bool" +
  fixes allowed :: "curated_edge \<Rightarrow> curated_edge \<Rightarrow> bool"
    and fresh_ok :: "curated_edge \<Rightarrow> bool"
    and env :: dep_env
    and tn :: string
  assumes assume_inv: "(edge_inv s \<Longrightarrow> R s s') \<Longrightarrow> R s s'"
    and drawn: "draws_only s s' \<Longrightarrow> R s s'"
    and audited: "R s (s\<lparr>dep_audits := a\<rparr>)"
    and edge_saved: "edge_inv s \<Longrightarrow> edge_tenant_id e = tn \<Longrightarrow> labelled e
          \<Longrightarrow> (\<And>old. stored s tn (edge_id e) = Some old \<Longrightarrow> allowed old e)
          \<Longrightarrow> (stored s tn (edge_id e) = None \<Longrightarrow> fresh_ok e) \<Longrightarrow> R s (snd (save_edge env tn e s))"
begin

lemma save_framed:
  "edge_tenant_id e = tn \<Longrightarrow> labelled e \<Longrightarrow> (\<And>old. edge_inv s \<Longrightarrow> stored s tn (edge_id e) = Some old \<Longrightarrow> allowed old e)
    \<Longrightarrow> (stored s tn (edge_id e) = None \<Longrightarrow> fresh_ok e) \<Longrightarrow> R s (snd (save_edge env tn e s))"
  by (rule assume_inv) (rule edge_saved)

lemma save_changed:
  assumes "edge_inv s" and "stored s tn (edge_id e) = Some e" and "allowed e e'"
    and "edge_id e' = edge_id e" "edge_tenant_id e' = edge_tenant_id e" "ce_provenance e' = ce_provenance e"
  shows "R s (snd (save_edge env tn e' s))"
  using edge_inv_stored[OF assms(1,2)] assms by (intro edge_saved) (auto simp: labelled_def is_manual_def)

lemma audit_framed: "R s (snd (dep_record_audit env' tn' event actor i s))"
  by (simp add: dep_record_audit_def audited R_refl)

lemma draw_framed: "R s (snd (draw f s))"
  by (intro drawn draw_only)

lemma find_framed: "R s (snd (find_edge env' tn' src tgt rel s))"
  by (intro drawn find_edge_draws)

lemmas step_rules = pure draw_framed find_framed audit_framed

end

text \<open>A frame under which conflicts are saved one by one.\<close>

locale store_frame = base_frame R allowed "\<lambda>_. True" env tn for R allowed env tn +
  assumes conflict_saved: "R s (snd (save_conflict tn c s))"

text \<open>Stored edges evolve by \<open>K\<close>.\<close>

definition evolves :: "(curated_edge \<Rightarrow> curated_edge \<Rightarrow> bool) \<Rightarrow> dep_state \<Rightarrow> dep_state \<Rightarrow> bool" where
  "evolves K s s' \<longleftrightarrow> (edge_inv s \<longrightarrow> edge_inv s' \<and>
     (\<forall>tn i e. stored s tn i = Some e \<longrightarrow> (\<exists>e'. stored s' tn i = Some e' \<and> K e e')))"

locale edge_evolution =
  fixes K :: "curated_edge \<Rightarrow> curated_edge \<Rightarrow> bool"
  assumes K_refl: "K e e"
    and K_trans: "K e e' \<Longrightarrow> K e' e'' \<Longrightarrow> K e e''"
begin

lemma same_edges: "dep_edges s' = dep_edges s \<Longrightarrow> evolves K s s'"
  by (auto simp: evolves_def edge_inv_def intro: K_refl)

lemma evolves_trans: "evolves K s s' \<Longrightarrow> evolves K s' s'' \<Longrightarrow> evolves K s s''"
  unfolding evolves_def by (meson K_trans)

lemma put_evolves:
  assumes inv: "edge_inv s" and "edge_tenant_id e = tn" and "labelled e" and fits: "edge_fits (dep_edges s) tn e"
    and K: "\<And>old. stored s tn (edge_id e) = Some old \<Longrightarrow> K old e"
    and s': "dep_edges s' = put_edge_row (dep_edges s) tn e"
  shows "evolves K s s'"
proof -
  have ok: "edge_rows_ok (dep_edges s)" "edge_ok (dep_edges s) tn e"
    using inv edge_fits_ok[OF fits] assms(2) by (simp_all add: edge_inv_def)
  then have "edge_inv s'" using put_labelled[OF inv ok(2) assms(3) s'] by simp
  moreover have "\<exists>e'. stored s' tn' i = Some e' \<and> K x e'" if "stored s tn' i = Some x" for tn' i x
    unfolding s' edges.get_save[OF ok] using that K by (auto intro: K_refl)
  ultimately show ?thesis by (simp add: evolves_def)
qed

lemma evolution_frame: "store_frame (evolves K) K env tn"
proof
  fix s e
  assume asm: "edge_inv s" "edge_tenant_id e = tn" "labelled e" "\<And>old. stored s tn (edge_id e) = Some old \<Longrightarrow> K old e"
  obtain r s' where save: "save_edge env tn e s = (r, s')" by (cases "save_edge env tn e s")
  then show "evolves K s (snd (save_edge env tn e s))"
  proof (cases rule: save_edge_cases)
    case (failed n)
    then show ?thesis using save by (simp add: same_edges)
  next
    case created
    then show ?thesis using save asm by (auto intro!: put_evolves)
  next
    case (updated old)
    then show ?thesis using save asm by (auto intro!: put_evolves)
  qed
next
  show "evolves K s s" for s by (rule same_edges) simp
  show "evolves K s s''" if "evolves K s s'" "evolves K s' s''" for s s' s'' using that by (rule evolves_trans)
  show "evolves K s s'" if "edge_inv s \<Longrightarrow> evolves K s s'" for s s' using that by (auto simp: evolves_def)
  show "evolves K s s'" if "draws_only s s'" for s s' using that by (intro same_edges) (auto simp: draws_only_def)
  show "evolves K s (snd (save_conflict tn c s))" for s c by (rule same_edges) (simp add: save_conflict_def)
  show "evolves K s (s\<lparr>dep_audits := a\<rparr>)" for s a by (rule same_edges) simp
qed

end

section \<open>Automatic operations\<close>

definition candidate_ok :: "string \<Rightarrow> curated_edge \<Rightarrow> bool" where
  "candidate_ok tn c \<longleftrightarrow> edge_tenant_id c = tn \<and> \<not> is_manual c \<and> \<not> manual_id (edge_id c)"

lemma edge_history_simps [simp]:
  "edge_id (edge_add_history a b c d e) = edge_id e"
  "edge_tenant_id (edge_add_history a b c d e) = edge_tenant_id e"
  "source_ref (edge_add_history a b c d e) = source_ref e"
  "target_ref (edge_add_history a b c d e) = target_ref e"
  "edge_relationship (edge_add_history a b c d e) = edge_relationship e"
  "edge_direction (edge_add_history a b c d e) = edge_direction e"
  "edge_criticality (edge_add_history a b c d e) = edge_criticality e"
  "edge_status (edge_add_history a b c d e) = edge_status e"
  "ce_provenance (edge_add_history a b c d e) = ce_provenance e"
  "ce_confidence (edge_add_history a b c d e) = ce_confidence e"
  "ce_first_seen (edge_add_history a b c d e) = ce_first_seen e"
  "ce_last_seen (edge_add_history a b c d e) = ce_last_seen e"
  "ce_notes (edge_add_history a b c d e) = ce_notes e"
  "ce_effective_from (edge_add_history a b c d e) = ce_effective_from e"
  "ce_effective_to (edge_add_history a b c d e) = ce_effective_to e"
  "ce_conflict_id (edge_add_history a b c d e) = ce_conflict_id e"
  "ce_billing (edge_add_history a b c d e) = ce_billing e"
  "ce_history (edge_add_history a b c d e)
     = ce_history e @ [\<lparr> eh_action = a, eh_actor_id = b, eh_from_status = c, eh_to_status = d \<rparr>]"
  by (simp_all add: edge_add_history_def)

lemma is_manual_cong: "ce_provenance e' = ce_provenance e \<Longrightarrow> is_manual e' = is_manual e"
  by (simp add: is_manual_def)

lemma labelled_cong: "ce_provenance e' = ce_provenance e \<Longrightarrow> edge_id e' = edge_id e \<Longrightarrow> labelled e' = labelled e"
  by (simp add: labelled_def is_manual_def)

lemma reobserved_simps [simp]:
  "edge_id (reobserved now c e) = edge_id e" "edge_tenant_id (reobserved now c e) = edge_tenant_id e"
  "source_ref (reobserved now c e) = source_ref e" "target_ref (reobserved now c e) = target_ref e"
  "edge_relationship (reobserved now c e) = edge_relationship e"
  "edge_status (reobserved now c e) = (if edge_status e = STALE then ACTIVE else edge_status e)"
  "ce_provenance (reobserved now c e) = ce_provenance e" "ce_conflict_id (reobserved now c e) = ce_conflict_id e"
  "ce_confidence (reobserved now c e) = ce_confidence c" "ce_first_seen (reobserved now c e) = ce_first_seen e"
  by (simp_all add: reobserved_def Let_def)

lemma confirmed_simps [simp]:
  "edge_id (confirmed now c e) = edge_id e" "edge_tenant_id (confirmed now c e) = edge_tenant_id e"
  "source_ref (confirmed now c e) = source_ref e" "target_ref (confirmed now c e) = target_ref e"
  "edge_status (confirmed now c e) = edge_status e" "ce_provenance (confirmed now c e) = ce_provenance e"
  "ce_conflict_id (confirmed now c e) = ce_conflict_id e" "ce_first_seen (confirmed now c e) = ce_first_seen e"
  by (simp_all add: confirmed_def)

lemma persisted_simps [simp]:
  "edge_id (persisted now c) = edge_id c" "edge_tenant_id (persisted now c) = edge_tenant_id c"
  "source_ref (persisted now c) = source_ref c" "target_ref (persisted now c) = target_ref c"
  "edge_status (persisted now c) = ACTIVE" "ce_provenance (persisted now c) = ce_provenance c"
  "ce_first_seen (persisted now c) = ce_first_seen c"
  by (simp_all add: persisted_def)

lemma marked_stale_simps [simp]:
  "edge_id (marked_stale e) = edge_id e" "edge_tenant_id (marked_stale e) = edge_tenant_id e"
  "source_ref (marked_stale e) = source_ref e" "target_ref (marked_stale e) = target_ref e"
  "edge_status (marked_stale e) = STALE" "ce_provenance (marked_stale e) = ce_provenance e"
  by (simp_all add: marked_stale_def)

lemma flag_simps [simp]:
  "edge_id (flag_discovered cid now e) = edge_id e" "edge_tenant_id (flag_discovered cid now e) = edge_tenant_id e"
  "source_ref (flag_discovered cid now e) = source_ref e" "target_ref (flag_discovered cid now e) = target_ref e"
  "edge_status (flag_discovered cid now e) = CONFLICT" "ce_provenance (flag_discovered cid now e) = ce_provenance e"
  "ce_conflict_id (flag_discovered cid now e) = Some cid" "edge_relationship (flag_discovered cid now e) = edge_relationship e"
  "edge_id (flag_manual cid e) = edge_id e" "edge_tenant_id (flag_manual cid e) = edge_tenant_id e"
  "source_ref (flag_manual cid e) = source_ref e" "target_ref (flag_manual cid e) = target_ref e"
  "edge_status (flag_manual cid e) = CONFLICT" "ce_provenance (flag_manual cid e) = ce_provenance e"
  "ce_conflict_id (flag_manual cid e) = Some cid"
  by (simp_all add: flag_discovered_def flag_manual_def)

section \<open>Candidates\<close>

lemma imported_candidate: "candidate_ok tn (imported_edge tn req now hex item)"
  by (simp add: candidate_ok_def imported_edge_def is_manual_def manual_id_def new_edge_id_def)

text \<open>What the layers label their candidates with.\<close>

definition layer_kinds :: "string list" where
  "layer_kinds = [''struct-parent'', ''struct-scope'', ''struct-disk'', ''net-sub'', ''net-peer'', ''net-sg'',
     ''plat-rel'', ''plat-rep'', ''plat-lb'', ''inf-name'']"

definition labelled_as :: "string \<Rightarrow> edge_provenance_type \<Rightarrow> discovery_layer \<Rightarrow> edge_confidence_level set \<Rightarrow> curated_edge \<Rightarrow> bool" where
  "labelled_as tn ptype layer confs c \<longleftrightarrow> candidate_ok tn c \<and> pv_type (ce_provenance c) = ptype
     \<and> pv_layer (ce_provenance c) = Some layer \<and> ce_confidence c \<in> confs \<and> edge_status c = ACTIVE
     \<and> (\<exists>kind \<in> set layer_kinds. \<exists>hex. edge_id c = new_edge_id kind tn hex)"

abbreviation all_labelled :: "string \<Rightarrow> edge_provenance_type \<Rightarrow> discovery_layer \<Rightarrow> edge_confidence_level set \<Rightarrow> curated_edge list \<Rightarrow> bool" where
  "all_labelled tn ptype layer confs cs \<equiv> \<forall>c \<in> set cs. labelled_as tn ptype layer confs c"

lemma candidate_edge_yields:
  assumes "ptype \<noteq> MANUAL" and "kind \<in> set layer_kinds" and "conf \<in> confs"
  shows "yields (labelled_as tn ptype layer confs) (candidate_edge env tn now kind src tgt rel dir ptype rule layer conf crit notes)"
  unfolding candidate_edge_def
  by (rule yields_then, rule yields_pure)
     (use assms in \<open>auto simp: labelled_as_def layer_kinds_def candidate_ok_def is_manual_def manual_id_def new_edge_id_def\<close>)

lemma observed_edge_yields:
  "kind \<in> set layer_kinds \<Longrightarrow> yields (labelled_as tn DISCOVERED layer {edge_confidence_level.HIGH})
     (observed_edge lib env tn now kind res name ttype rel dir rule layer crit notes v)"
  unfolding observed_edge_def by (intro yields_then candidate_edge_yields) simp_all

lemma if_set_yields: "(\<And>v. yields P (mk v)) \<Longrightarrow> yields (\<lambda>cs. \<forall>c \<in> set cs. P c) (if_set v mk)"
  by (auto simp: if_set_def intro!: yields_pure yields_bind[where Q = P])

lemma for_each_yields: "(\<And>v. yields P (mk v)) \<Longrightarrow> yields (\<lambda>cs. \<forall>c \<in> set cs. P c) (for_each v mk)"
  unfolding for_each_def by (intro yields_then yields_map)

lemma then_also_yields:
  "yields (\<lambda>cs. \<forall>c \<in> set cs. P c) m \<Longrightarrow> yields (\<lambda>cs. \<forall>c \<in> set cs. P c) m' \<Longrightarrow> yields (\<lambda>cs. \<forall>c \<in> set cs. P c) (then_also m m')"
  unfolding then_also_def by (rule yields_bind, assumption, rule yields_bind, assumption, rule yields_pure) auto

lemma concat_yields:
  "(\<And>x. yields (\<lambda>cs. \<forall>c \<in> set cs. P c) (f x)) \<Longrightarrow> yields (\<lambda>cs. \<forall>c \<in> set cs. P c) (eff_bind (eff_map f xs) (\<lambda>ess. eff_return (concat ess)))"
  by (rule yields_bind[OF yields_map]) (auto intro!: yields_pure)

lemma per_item_yields:
  "(\<And>res item. yields (\<lambda>cs. \<forall>c \<in> set cs. P c) (f res item)) \<Longrightarrow> yields (\<lambda>cs. \<forall>c \<in> set cs. P c) (per_item f items)"
  unfolding per_item_def by (rule concat_yields) (simp add: Let_def yields_pure)

lemmas layer_yields = per_item_yields then_also_yields if_set_yields for_each_yields observed_edge_yields

lemma structural_yields: "yields (all_labelled tn DISCOVERED STRUCTURAL {edge_confidence_level.HIGH}) (discover_structural_edges lib env tn items)"
  unfolding discover_structural_edges_def Let_def by (rule yields_then, intro layer_yields) (simp_all add: layer_kinds_def)

lemma network_yields: "yields (all_labelled tn DISCOVERED discovery_layer.NETWORK {edge_confidence_level.HIGH}) (discover_network_edges lib env tn items)"
  unfolding discover_network_edges_def Let_def by (rule yields_then, intro layer_yields) (simp_all add: layer_kinds_def)

lemma platform_relation_yields:
  "yields (all_labelled tn DISCOVERED PROVIDER_PLATFORM {edge_confidence_level.HIGH}) (platform_relation lib env tn now res name rel)"
proof -
  let ?P = "labelled_as tn DISCOVERED PROVIDER_PLATFORM {edge_confidence_level.HIGH}"
  have one: "yields (\<lambda>cs. \<forall>c \<in> set cs. ?P c) (eff_bind m (\<lambda>e. eff_return [e]))" if "yields ?P m" for m :: "curated_edge dep_op"
    using that by (rule yields_bind) (simp add: yields_pure)
  show ?thesis unfolding platform_relation_def
    by (rule yields_then, simp only: if_split, intro conjI impI yields_pure yields_then one observed_edge_yields)
       (simp_all add: layer_kinds_def)
qed

lemma provider_yields:
  "yields (all_labelled tn DISCOVERED PROVIDER_PLATFORM {edge_confidence_level.HIGH}) (discover_provider_platform_edges lib env tn items)"
  unfolding discover_provider_platform_edges_def Let_def
  apply (rule yields_then, rule per_item_yields, rule yields_then, simp only: if_split, intro conjI impI yields_pure)
   apply simp
  apply (intro concat_yields then_also_yields platform_relation_yields if_set_yields for_each_yields observed_edge_yields yields_then)
   apply (simp_all add: layer_kinds_def)
  done

lemma infer_named_yields:
  "yields (all_labelled tn INFERRED INFERRED_NAMING (- {edge_confidence_level.HIGH})) (infer_named lib env tn now names rule entry)"
proof -
  let ?P = "labelled_as tn INFERRED INFERRED_NAMING (- {edge_confidence_level.HIGH})"
  have "yields ?P (candidate_edge env tn now ''inf-name'' src tgt rel dir INFERRED r INFERRED_NAMING (inferred_confidence c) crit nt)"
    for src tgt rel dir r c crit nt
    by (intro candidate_edge_yields) (simp_all add: layer_kinds_def inferred_confidence_def)
  then have "yields (\<lambda>cs. \<forall>c \<in> set cs. ?P c) (eff_bind (candidate_edge env tn now ''inf-name'' src tgt rel dir INFERRED r INFERRED_NAMING
      (inferred_confidence c) crit nt) (\<lambda>e. eff_return [e]))" for src tgt rel dir r c crit nt
    by (rule yields_bind) (simp add: yields_pure)
  then have "yields (\<lambda>cs. \<forall>c \<in> set cs. ?P c) (eff_bind (eff_lift x) (\<lambda>src. eff_bind (eff_lift y) (\<lambda>tgt.
      eff_bind (candidate_edge env tn now ''inf-name'' src tgt rel dir INFERRED r INFERRED_NAMING
      (inferred_confidence c) crit nt) (\<lambda>e. eff_return [e]))))" for x y rel dir r c crit nt
    by (rule yields_then[OF yields_then])
  then show ?thesis
    unfolding infer_named_def Let_def by (auto split: py_value.split option.split intro!: yields_pure)
qed

lemma inferred_yields:
  "yields (all_labelled tn INFERRED INFERRED_NAMING (- {edge_confidence_level.HIGH})) (infer_naming_convention_edges lib env tn items rules)"
  unfolding infer_naming_convention_edges_def
proof (rule yields_then, rule yields_then, rule concat_yields)
  show "yields (all_labelled tn INFERRED INFERRED_NAMING (- {edge_confidence_level.HIGH}))
      (if pl_compiles lib (nr_source_pattern rule)
       then eff_bind (eff_map (infer_named lib env tn now names rule) names) (\<lambda>ess. eff_return (concat ess)) else eff_return [])"
    for now names rule
    by (simp add: yields_pure concat_yields[OF infer_named_yields])
qed

text \<open>The layers read the environment and change nothing else.\<close>

definition quiet :: "'a dep_op \<Rightarrow> bool" where
  "quiet m \<longleftrightarrow> (\<forall>s. draws_only s (snd (m s)))"

lemma quietD: "quiet m \<Longrightarrow> draws_only s (snd (m s))"
  by (simp add: quiet_def)

lemma quiet_rules:
  "quiet (eff_return a)" "quiet (eff_raise e)" "quiet (eff_lift r)" "quiet (draw f)"
  by (simp_all add: quiet_def drawing.R_refl draw_only)

lemma quiet_bind: "quiet m \<Longrightarrow> (\<And>a. quiet (f a)) \<Longrightarrow> quiet (eff_bind m f)"
  unfolding quiet_def by (blast intro: drawing.bind)

lemma quiet_map: "(\<And>x. quiet (f x)) \<Longrightarrow> quiet (eff_map f xs)"
  unfolding quiet_def by (blast intro: drawing.map_each)

lemma quiet_if: "quiet m \<Longrightarrow> quiet m' \<Longrightarrow> quiet (if b then m else m')"
  by simp

lemma quiet_candidate: "quiet (candidate_edge env tn now kind src tgt rel dir ptype rule layer conf crit nt)"
  unfolding candidate_edge_def by (intro quiet_bind quiet_rules)

lemma quiet_observed: "quiet (observed_edge lib env tn now kind res name ttype rel dir rule layer crit nt v)"
  unfolding observed_edge_def by (intro quiet_bind quiet_rules quiet_candidate)

lemma quiet_if_set: "(\<And>v. quiet (mk v)) \<Longrightarrow> quiet (if_set v mk)"
  unfolding if_set_def by (intro quiet_if quiet_bind quiet_rules)

lemma quiet_for_each: "(\<And>v. quiet (mk v)) \<Longrightarrow> quiet (for_each v mk)"
  unfolding for_each_def by (intro quiet_bind quiet_map quiet_rules)

lemma quiet_also: "quiet m \<Longrightarrow> quiet m' \<Longrightarrow> quiet (then_also m m')"
  unfolding then_also_def by (intro quiet_bind quiet_rules)

lemma quiet_per_item: "(\<And>res item. quiet (f res item)) \<Longrightarrow> quiet (per_item f items)"
  unfolding per_item_def Let_def by (intro quiet_bind quiet_map quiet_if quiet_rules)

lemmas quiet_layer = quiet_per_item quiet_also quiet_if_set quiet_for_each quiet_observed quiet_map quiet_if quiet_rules

lemma quiet_structural: "quiet (discover_structural_edges lib env tn items)"
  unfolding discover_structural_edges_def Let_def by (intro quiet_bind quiet_layer)

lemma quiet_network: "quiet (discover_network_edges lib env tn items)"
  unfolding discover_network_edges_def Let_def by (intro quiet_bind quiet_layer)

lemma quiet_platform_relation: "quiet (platform_relation lib env tn now res name rel)"
  unfolding platform_relation_def by (intro quiet_bind quiet_layer)

lemma quiet_provider: "quiet (discover_provider_platform_edges lib env tn items)"
  unfolding discover_provider_platform_edges_def Let_def by (intro quiet_bind quiet_layer quiet_platform_relation)

lemma quiet_infer_named: "quiet (infer_named lib env tn now names rule entry)"
  unfolding infer_named_def Let_def
  by (auto split: py_value.split option.split intro!: quiet_rules quiet_bind quiet_candidate)

lemma quiet_inferred: "quiet (infer_naming_convention_edges lib env tn items rules)"
  unfolding infer_naming_convention_edges_def by (intro quiet_bind quiet_layer quiet_infer_named)

text \<open>The candidates of a run, before they are merged.\<close>

definition run_candidates :: "py_lib \<Rightarrow> dep_env \<Rightarrow> string \<Rightarrow> payload list \<Rightarrow> discovery_configuration
    \<Rightarrow> (curated_edge list \<times> curated_edge list \<times> curated_edge list \<times> curated_edge list) dep_op" where
  "run_candidates lib env tenant items cfg =
     eff_bind (if dc_enable_structural cfg then discover_structural_edges lib env tenant items else eff_return []) (\<lambda>structural.
     eff_bind (if dc_enable_network cfg then discover_network_edges lib env tenant items else eff_return []) (\<lambda>network.
     eff_bind (if dc_enable_provider_platform cfg then discover_provider_platform_edges lib env tenant items else eff_return []) (\<lambda>provider.
     eff_bind (if dc_naming_rules cfg \<noteq> [] then infer_naming_convention_edges lib env tenant items (dc_naming_rules cfg)
               else eff_return []) (\<lambda>inferred. eff_return (structural, network, provider, inferred)))))"

lemma quiet_run: "quiet (run_candidates lib env tn items cfg)"
  unfolding run_candidates_def
  by (intro quiet_bind quiet_layer quiet_structural quiet_network quiet_provider quiet_inferred)

lemma run_yields:
  "yields (\<lambda>(st, nw, pr, inf). all_labelled tn DISCOVERED STRUCTURAL {edge_confidence_level.HIGH} st
      \<and> all_labelled tn DISCOVERED discovery_layer.NETWORK {edge_confidence_level.HIGH} nw
      \<and> all_labelled tn DISCOVERED PROVIDER_PLATFORM {edge_confidence_level.HIGH} pr
      \<and> all_labelled tn INFERRED INFERRED_NAMING (- {edge_confidence_level.HIGH}) inf)
    (run_candidates lib env tn items cfg)"
proof -
  have opt: "yields (\<lambda>cs. \<forall>c \<in> set cs. P c) (if b then m else eff_return [])"
    if "yields (\<lambda>cs. \<forall>c \<in> set cs. P c) m" for P b and m :: "curated_edge list dep_op"
    using that by (simp add: yields_pure)
  show ?thesis unfolding run_candidates_def
    by (rule yields_bind[OF opt[OF structural_yields]], rule yields_bind[OF opt[OF network_yields]],
        rule yields_bind[OF opt[OF provider_yields]], rule yields_bind[OF opt[OF inferred_yields]], rule yields_pure) auto
qed

text \<open>The run in terms of its candidates.\<close>

lemma eff_bind_assoc: "eff_bind (eff_bind m f) g = eff_bind m (\<lambda>a. eff_bind (f a) g)"
  by (rule ext) (simp add: eff_bind_def split: prod.split sum.split)

lemma eff_bind_return: "eff_bind (eff_return a) f = f a"
  by (rule ext) simp

lemma execute_discovery_eq:
  "execute_discovery lib env tn items config =
     (let cfg = (case config of Some c \<Rightarrow> c | None \<Rightarrow> default_discovery) in
      eff_bind (draw (dv_clock env)) (\<lambda>now.
      eff_bind (draw (dv_uuid_hex env)) (\<lambda>hex.
      eff_bind (run_candidates lib env tn items cfg) (\<lambda>(structural, network, provider, inferred).
      let candidates = structural @ network @ provider @ inferred in
      eff_bind (merge_candidates env tn candidates) (\<lambda>conflicts.
      eff_bind (mark_stale_edges env tn now (dc_stale_threshold_seconds cfg) candidates) (\<lambda>stale.
      eff_return
        \<lparr> dr_run_id = ''disc-run-'' @ take 8 hex, dr_tenant_id = tn, dr_executed_at = now,
          dr_structural_edges_found = length structural, dr_network_edges_found = length network,
          dr_provider_edges_found = length provider, dr_inferred_edges_found = length inferred,
          dr_total_edges_observed = length candidates, dr_conflicts_surfaced = conflicts,
          dr_stale_edges_marked = stale \<rparr>))))))"
  unfolding execute_discovery_def run_candidates_def Let_def eff_bind_assoc eff_bind_return prod.case ..

lemma run_candidates_ok:
  assumes "run_candidates lib env tn items cfg s = (Inr (st, nw, pr, nm), s')" and "c \<in> set (st @ nw @ pr @ nm)"
  shows "candidate_ok tn c"
  using yieldsD[OF run_yields assms(1)] assms(2) by (auto simp: labelled_as_def)

section \<open>Frames of the automatic operations\<close>

text \<open>
  What the merge engine, the importer and the discovery run need of a frame: the four ways in which a candidate or the
  end of a run changes a stored edge, the addition of a candidate, and the surfacing of a conflict as a whole.
\<close>

locale merge_frame = base_frame +
  assumes confirming: "is_manual e \<Longrightarrow> allowed e (confirmed now c e)"
    and reobserving: "\<not> is_manual e \<Longrightarrow> allowed e (reobserved now c e)"
    and replacing: "\<not> is_manual e \<Longrightarrow> \<not> is_manual c \<Longrightarrow> allowed e (persisted now c)"
    and staling: "\<not> is_manual e \<Longrightarrow> \<not> is_manual e' \<Longrightarrow> allowed e (marked_stale e')"
    and adding: "fresh_ok (persisted now c)" "fresh_ok (marked_stale e)"
    and surfacing: "candidate_ok tn d \<Longrightarrow> is_manual m \<Longrightarrow> stored s tn (edge_id m) = Some m
          \<Longrightarrow> R s (snd (surface_conflict env tn m d reason s))"
begin

lemma candidate_labelled: "candidate_ok tn c \<Longrightarrow> edge_tenant_id c = tn \<and> labelled c \<and> \<not> is_manual c"
  by (simp add: candidate_ok_def labelled_def)

lemma old_of_candidate: "edge_inv s \<Longrightarrow> stored s tn (edge_id c) = Some old \<Longrightarrow> candidate_ok tn c \<Longrightarrow> \<not> is_manual old"
  using edge_inv_stored[of s tn "edge_id c" old] by (auto simp: candidate_ok_def labelled_def)

lemma merge_framed:
  assumes c: "candidate_ok tn c"
  shows "R s (snd (merge_candidate_edge env tn c s))"
  unfolding merge_candidate_edge_def
proof (intro bind draw_framed find_framed)
  fix now s1 exact s2
  assume found: "find_edge env tn (ref_entity_id (source_ref c)) (ref_entity_id (target_ref c)) None s1 = (Inr exact, s2)"
  have same: "dep_edges s2 = dep_edges s1" using find_edge_draws[of s1 env tn] found by (metis draws_only_def snd_conv dep_state.select_convs(1) dep_state.surjective dep_state.update_convs(5))
  let ?save = "\<lambda>e. eff_bind (save_edge env tn e) (\<lambda>saved. eff_return (saved, None :: edge_conflict option))"
  show "R s2 (snd ((case exact of
       Some e \<Rightarrow>
         if is_manual e then
           if edge_relationship e = edge_relationship c then ?save (confirmed now c e)
           else surface_conflict env tn e c (ConflictingType (edge_relationship c) (edge_relationship e))
         else ?save (reobserved now c e)
     | None \<Rightarrow>
         eff_bind (eff_read (contradicting tn c)) (\<lambda>existing.
         case existing of
           Some e \<Rightarrow> surface_conflict env tn e c
             (ConflictingTarget (ref_entity_id (target_ref c)) (ref_entity_id (target_ref e)) (edge_relationship c))
         | None \<Rightarrow> ?save (persisted now c))) s2))"
  proof (rule assume_inv, cases exact)
    case (Some e)
    assume inv: "edge_inv s2"
    have st: "stored s2 tn (edge_id e) = Some e"
      using find_edge_stored[OF found[unfolded Some]] edges_between_stored inv same by (auto simp: edge_inv_def)
    have keep: "R s2 (snd (?save e' s2))"
      if "edge_id e' = edge_id e" "edge_tenant_id e' = edge_tenant_id e" "ce_provenance e' = ce_provenance e" "allowed e e'" for e'
      using that inv st by (intro bind pure save_changed[of s2 e e'])
    show ?thesis
      unfolding Some option.case
      using c st by (auto intro!: keep surfacing intro: confirming reobserving)
  next
    case None
    assume inv: "edge_inv s2"
    have "stored s2 tn (edge_id e) = Some e \<and> is_manual e" if "contradicting tn c s2 = Some e" for e
      using that find_SomeD[of _ _ e] inv
      by (fastforce simp: contradicting_def edge_inv_def split: if_splits dest: curated_list_stored)
    moreover have "R s2 (snd (save_edge env tn (persisted now c) s2))"
    proof (rule save_framed)
      show "allowed old (persisted now c)" if "stored s2 tn (edge_id (persisted now c)) = Some old" for old
        using old_of_candidate[OF inv] that c candidate_labelled[OF c] by (intro replacing) simp_all
    qed (use candidate_labelled[OF c] in \<open>auto simp: adding labelled_def is_manual_def\<close>)
    ultimately show ?thesis
      unfolding None option.case eff_bind_simps
      using c by (auto split: option.split intro!: surfacing bind pure simp del: eff_simps)
  qed
qed

lemma import_framed: "R s (snd (import_relationships env tn req s))"
proof -
  have "R s (snd (import_row env tn req now row res s))" for now row res s
    unfolding import_row_def Let_def by (auto intro!: catch bind merge_framed imported_candidate step_rules simp del: eff_simps)
  then show ?thesis unfolding import_relationships_def by (intro bind draw_framed fold_each)
qed

lemma mark_stale_framed: "R s (snd (mark_stale_edges env tn now secs obs s))"
proof (rule assume_inv)
  assume inv: "edge_inv s"
  let ?es = "curated_list (dep_edges s) tn (Some ACTIVE) None None None None False False 1000"
  have "R s1 (snd (save_edge env tn (marked_stale e) s1))" if "e \<in> set ?es" "goes_stale t obs e" for e t s1
  proof -
    have "stored s tn (edge_id e) = Some e" using curated_list_stored[OF _ that(1)] inv by (simp add: edge_inv_def)
    from edge_inv_stored[OF inv this] that(2) have c: "candidate_ok tn (marked_stale e)" and m: "\<not> is_manual e"
      by (auto simp: candidate_ok_def goes_stale_def labelled_def is_manual_def)
    show ?thesis
    proof (rule assume_inv, rule edge_saved)
      fix old assume "edge_inv s1" "stored s1 tn (edge_id (marked_stale e)) = Some old"
      then show "allowed old (marked_stale e)" using old_of_candidate[OF _ _ c] m by (intro staling)
    qed (use candidate_labelled[OF c] in \<open>simp_all add: adding\<close>)
  qed
  then show "R s (snd (mark_stale_edges env tn now secs obs s))"
    unfolding mark_stale_edges_def Let_def eff_bind_simps
    by (intro fold_each) (auto intro!: bind pure simp del: eff_simps)
qed

lemma discovery_framed: "R s (snd (execute_discovery lib env tn items config s))"
proof -
  let ?cfg = "case config of Some c \<Rightarrow> c | None \<Rightarrow> default_discovery"
  have "R s2 (snd (merge_candidates env tn (st @ nw @ pr @ nm) s2))"
    if "run_candidates lib env tn items ?cfg s1 = (Inr (st, nw, pr, nm), s2)" for s1 s2 st nw pr nm
    unfolding merge_candidates_def
    by (intro fold_each bind pure merge_framed) (use run_candidates_ok[OF that] in simp)
  moreover have "R s (snd (run_candidates lib env tn items ?cfg s))" for s by (intro drawn quietD quiet_run)
  ultimately show ?thesis
    unfolding execute_discovery_eq Let_def
    by (auto intro!: bind draw_framed mark_stale_framed pure simp del: eff_simps eff_bind_draw)
qed

end

text \<open>A frame that only manual edges constrain, through a confirmation and the two flags of a conflict.\<close>

locale automatic_frame = store_frame +
  assumes free: "\<not> is_manual e \<Longrightarrow> allowed e e'"
    and confirmable: "is_manual e \<Longrightarrow> allowed e (confirmed now c e)"
    and flaggable: "is_manual e \<Longrightarrow> allowed e (flag_manual cid e)"
begin

lemma save_automatic:
  assumes "candidate_ok tn e"
  shows "R s (snd (save_edge env tn e s))"
proof (rule save_framed)
  show "edge_tenant_id e = tn" "labelled e" using assms by (simp_all add: candidate_ok_def labelled_def)
  show "allowed old e" if "edge_inv s" "stored s tn (edge_id e) = Some old" for old
    using edge_inv_stored[OF that] assms by (intro free) (auto simp: candidate_ok_def labelled_def)
qed simp

lemma candidate_flagged: "candidate_ok tn d \<Longrightarrow> candidate_ok tn (flag_discovered cid now d)"
  by (simp add: candidate_ok_def is_manual_def)

lemma surface_framed:
  assumes d: "candidate_ok tn d" and m: "is_manual m" and st: "stored s tn (edge_id m) = Some m"
  shows "R s (snd (surface_conflict env tn m d reason s))"
proof (rule assume_inv)
  assume inv: "edge_inv s"
  have mt: "labelled m" "edge_tenant_id m = tn" using edge_inv_stored[OF inv st] by simp_all
  have flag: "R s2 (snd (save_edge env tn (flag_manual cid m) s2))"
    if s1: "dep_edges s1 = dep_edges s" and save: "save_edge env tn (flag_discovered cid now d) s1 = (Inr x, s2)" for s1 s2 cid now x
  proof (rule save_framed)
    have "edge_id m \<noteq> edge_id d" using d m mt by (auto simp: candidate_ok_def labelled_def)
    moreover have "edge_rows_ok (dep_edges s1)" using inv s1 by (simp add: edge_inv_def)
    ultimately have "stored s2 tn (edge_id m) = Some m"
      using save_edge_value[OF save, of tn "edge_id m"] d st s1 by (simp add: candidate_ok_def)
    then show "allowed old (flag_manual cid m)" if "stored s2 tn (edge_id (flag_manual cid m)) = Some old" for old
      using that flaggable[OF m] by simp
  qed (use mt in \<open>simp_all add: labelled_def is_manual_def\<close>)
  show "R s (snd (surface_conflict env tn m d reason s))"
    unfolding surface_conflict_def Let_def
    by (intro bind step_rules conflict_saved save_automatic candidate_flagged d flag) (auto simp: draw_def)
qed

end

sublocale automatic_frame \<subseteq> merge_frame R allowed "\<lambda>_. True" env tn
  by unfold_locales (auto intro: free confirmable surface_framed)

section \<open>Frames of the whole service\<close>

datatype dep_cmd =
    CreateManual manual_edge_create_request string
  | UpdateEdge string edge_update_request string
  | DeleteEdge string string
  | ResolveConflict string conflict_resolve_request string
  | BulkImport bulk_import_request string
  | SyncBilling billing_sync_request string
  | RunDiscovery "payload list" "discovery_configuration option" string

fun dep_step :: "py_lib \<Rightarrow> dep_env \<Rightarrow> tenant_context option \<times> dep_cmd \<Rightarrow> dep_state \<Rightarrow> dep_state" where
  "dep_step lib env (ctx, CreateManual req actor) s = snd (create_manual_edge env ctx req actor s)"
| "dep_step lib env (ctx, UpdateEdge i req actor) s = snd (update_edge env ctx i req actor s)"
| "dep_step lib env (ctx, DeleteEdge i actor) s = snd (delete_edge env ctx i actor s)"
| "dep_step lib env (ctx, ResolveConflict i req actor) s = snd (service_resolve_conflict env ctx i req actor s)"
| "dep_step lib env (ctx, BulkImport req actor) s = snd (bulk_import env ctx req actor s)"
| "dep_step lib env (ctx, SyncBilling req actor) s = snd (sync_billing_relationships env ctx req actor s)"
| "dep_step lib env (ctx, RunDiscovery items config actor) s = snd (run_discovery lib env ctx items config actor s)"

definition dep_run :: "py_lib \<Rightarrow> dep_env \<Rightarrow> (tenant_context option \<times> dep_cmd) list \<Rightarrow> dep_state \<Rightarrow> dep_state" where
  "dep_run lib env es s = fold (dep_step lib env) es s"

definition no_edges :: dep_state where
  "no_edges = \<lparr> dep_edges = [], dep_versions = [], dep_conflicts = [], dep_audits = [], dep_draws = 0 \<rparr>"

definition automatic :: "tenant_context option \<times> dep_cmd \<Rightarrow> bool" where
  "automatic e = (case snd e of BulkImport req actor \<Rightarrow> True | RunDiscovery items config actor \<Rightarrow> True | _ \<Rightarrow> False)"

definition cmd_tenant :: "tenant_context option \<Rightarrow> string option" where
  "cmd_tenant ctx = (case require_tenant_context ctx of Inl e \<Rightarrow> None | Inr tc \<Rightarrow> Some (tc_tenant_id tc))"

lemma with_context_cases:
  "with_context ctx f s = (case cmd_tenant ctx of None \<Rightarrow> (Inl DepMissingTenantContext, s) | Some tn \<Rightarrow> f tn s)"
  by (simp add: with_context_def cmd_tenant_def split: sum.split)

context merge_frame
begin

lemma automatic_framed:
  assumes "automatic (ctx, cmd)" and "cmd_tenant ctx = Some tn"
  shows "R s (dep_step lib env (ctx, cmd) s)"
  using assms
  by (cases cmd)
     (simp_all add: automatic_def bulk_import_def run_discovery_def with_context_cases bind import_framed discovery_framed
        audit_framed R_refl)

end

text \<open>What the human commands need of a frame besides.\<close>

locale commands_frame = merge_frame +
  assumes creating: "allowed old (manual_edge tn hex now actor mreq)" "fresh_ok (manual_edge tn hex now actor mreq)"
      "allowed old (billing_edge tn hex now actor breq item)" "fresh_ok (billing_edge tn hex now actor breq item)"
    and updating: "allowed e (updated_edge ureq actor now e)"
    and deleting: "allowed e (e\<lparr>edge_status := DELETED, ce_effective_to := Some now\<rparr>)"
    and syncing: "allowed e (edge_add_history ''BILLING_SYNCED'' actor None None (e\<lparr>ce_billing := b, ce_last_seen := now\<rparr>))"
    and resolving: "R s (snd (resolve_conflict env tn i req actor s))"

text \<open>A frame that admits every replacement of an edge.\<close>

locale service_frame = store_frame +
  assumes all_allowed: "allowed e e'"

sublocale service_frame \<subseteq> automatic_frame
  by unfold_locales (rule all_allowed)+

lemma manual_edge_labelled: "labelled (manual_edge tn hex now actor req) \<and> edge_tenant_id (manual_edge tn hex now actor req) = tn"
  by (simp add: manual_edge_def labelled_def is_manual_def curated_by_def manual_id_def new_edge_id_def)

lemma billing_edge_labelled: "labelled (billing_edge tn hex now actor req item) \<and> edge_tenant_id (billing_edge tn hex now actor req item) = tn"
  by (simp add: billing_edge_def labelled_def is_manual_def curated_by_def manual_id_def new_edge_id_def)

lemma updated_edge_simps [simp]:
  "edge_id (updated_edge req actor now e) = edge_id e" "edge_tenant_id (updated_edge req actor now e) = edge_tenant_id e"
  "source_ref (updated_edge req actor now e) = source_ref e" "target_ref (updated_edge req actor now e) = target_ref e"
  "edge_status (updated_edge req actor now e) = edge_status e" "ce_provenance (updated_edge req actor now e) = ce_provenance e"
  "ce_conflict_id (updated_edge req actor now e) = ce_conflict_id e"
  by (simp_all add: updated_edge_def Let_def split: option.split)

lemma resolved_simps [simp]:
  "edge_id (resolved_manual req actor now e) = edge_id e" "edge_tenant_id (resolved_manual req actor now e) = edge_tenant_id e"
  "source_ref (resolved_manual req actor now e) = source_ref e" "target_ref (resolved_manual req actor now e) = target_ref e"
  "ce_provenance (resolved_manual req actor now e) = ce_provenance e"
  "edge_id (resolved_discovered req actor now e) = edge_id e" "edge_tenant_id (resolved_discovered req actor now e) = edge_tenant_id e"
  "source_ref (resolved_discovered req actor now e) = source_ref e" "target_ref (resolved_discovered req actor now e) = target_ref e"
  "ce_provenance (resolved_discovered req actor now e) = ce_provenance e"
  by (simp_all add: resolved_manual_def resolved_discovered_def Let_def split: conflict_resolution_action.split option.split)

context service_frame
begin

lemma save_stored:
  assumes "stored s0 tn i = Some e" and "edge_inv s0"
    and "edge_id e' = edge_id e" "edge_tenant_id e' = edge_tenant_id e" "ce_provenance e' = ce_provenance e"
  shows "R s (snd (save_edge env tn e' s))"
  using edge_inv_stored[OF assms(2,1)] assms(3-5) by (intro save_framed) (auto simp: labelled_def is_manual_def all_allowed)

lemma resolve_framed: "R s (snd (resolve_conflict env tn i req actor s))"
proof (rule assume_inv)
  assume inv: "edge_inv s"
  let ?s = "s\<lparr>dep_draws := Suc (dep_draws s)\<rparr>"
  have inv': "edge_inv ?s" using inv by (simp add: edge_inv_def)
  have step: "R s ?s" using draw_framed[of s "dv_clock env"] by (simp add: draw_def)
  have m: "R s1 (snd (save_edge env tn (resolved_manual req actor now m) s1))" if "stored ?s tn j = Some m" for m j now s1
    by (rule save_stored[OF that inv']) simp_all
  have d: "R s1 (snd (save_edge env tn (resolved_discovered req actor now m) s1))" if "stored ?s tn j = Some m" for m j now s1
    by (rule save_stored[OF that inv']) simp_all
  show "R s (snd (resolve_conflict env tn i req actor s))"
    unfolding resolve_conflict_def
    using m d
    by (auto simp: R_refl simp del: eff_simps split: option.split intro!: R_trans[OF step] bind step_rules conflict_saved pure)
qed

end

sublocale service_frame \<subseteq> commands_frame R allowed "\<lambda>_. True" env tn
  by unfold_locales (simp_all add: all_allowed resolve_framed)

context commands_frame
begin

lemma save_new:
  "labelled e \<and> edge_tenant_id e = tn \<Longrightarrow> (\<And>old. allowed old e) \<Longrightarrow> fresh_ok e \<Longrightarrow> R s (snd (save_edge env tn e s))"
  by (intro save_framed) simp_all

lemma create_framed: "cmd_tenant ctx = Some tn \<Longrightarrow> R s (snd (create_manual_edge env ctx req actor s))"
  unfolding create_manual_edge_def with_context_cases
  by (auto intro!: bind step_rules save_new manual_edge_labelled creating simp del: eff_simps eff_bind_draw)

lemma get_edge_eq:
  "cmd_tenant ctx = Some tn \<Longrightarrow> eff_bind (get_edge ctx i) f s =
     (case stored s tn i of None \<Rightarrow> (Inl (DependencyEdgeNotFoundException i), s) | Some e \<Rightarrow> f e s)"
  by (simp add: get_edge_def with_context_cases eff_bind_def split: option.split)

lemma drawn_save:
  assumes "edge_inv s" and "stored s tn i = Some e" and "\<And>now. allowed e (f now e)"
    and "\<And>now. edge_id (f now e) = edge_id e \<and> edge_tenant_id (f now e) = edge_tenant_id e \<and> ce_provenance (f now e) = ce_provenance e"
    and "\<And>now x s'. R s' (snd (k now x s'))"
  shows "R s (snd (eff_bind (draw (dv_clock env)) (\<lambda>now. eff_bind (save_edge env tn (f now e)) (k now)) s))"
proof (intro bind draw_framed)
  fix now s1 assume "draw (dv_clock env) s = (Inr now, s1)"
  then have s1: "dep_edges s1 = dep_edges s" by (auto simp: draw_def)
  have "edge_id e = i" using edge_inv_stored[OF assms(1,2)] by simp
  then show "R s1 (snd (save_edge env tn (f now e) s1))"
    using assms(1-4) s1 by (intro save_changed[of s1 e]) (simp_all add: edge_inv_def)
qed (rule assms(5))

lemma update_framed:
  assumes "cmd_tenant ctx = Some tn"
  shows "R s (snd (update_edge env ctx i req actor s))"
proof (rule assume_inv)
  assume inv: "edge_inv s"
  have "R s (snd (eff_bind (draw (dv_clock env)) (\<lambda>now. eff_bind (save_edge env tn (updated_edge req actor now e)) (\<lambda>saved.
      eff_bind (dep_record_audit env tn ''DEPENDENCY_EDGE_UPDATED'' actor (edge_id saved)) (\<lambda>_. eff_return saved))) s))"
    if "stored s tn i = Some e" for e
    by (rule drawn_save[OF inv that, of "updated_edge req actor"]) (simp_all add: updating, intro bind step_rules)
  then show "R s (snd (update_edge env ctx i req actor s))"
    using assms by (simp add: update_edge_def with_context_cases get_edge_eq R_refl split: option.split del: eff_bind_draw)
qed

lemma delete_framed:
  assumes "cmd_tenant ctx = Some tn"
  shows "R s (snd (delete_edge env ctx i actor s))"
proof (rule assume_inv)
  assume inv: "edge_inv s"
  have "R s (snd (eff_bind (draw (dv_clock env)) (\<lambda>now. eff_bind
      (save_edge env tn (e\<lparr>edge_status := DELETED, ce_effective_to := Some now\<rparr>)) (\<lambda>_. eff_return True)) s))"
    if "stored s tn i = Some e" for e
    by (rule drawn_save[OF inv that, of "\<lambda>now e. e\<lparr>edge_status := DELETED, ce_effective_to := Some now\<rparr>"]) (simp_all add: deleting R_refl)
  then have "R s (snd (repo_delete_edge env tn i False s))"
    by (simp add: repo_delete_edge_def R_refl split: option.split del: eff_bind_draw)
  then show "R s (snd (delete_edge env ctx i actor s))"
    using assms
    by (auto simp: delete_edge_def with_context_cases get_edge_eq R_refl split: option.split intro!: bind step_rules simp del: eff_simps)
qed

lemma sync_framed:
  assumes "cmd_tenant ctx = Some tn"
  shows "R s (snd (sync_billing_relationships env ctx req actor s))"
proof -
  have "R s (snd (sync_allocation env tn actor now req item s))" for now item s
    unfolding sync_allocation_def
  proof (intro bind find_framed)
    fix found s1 assume f: "find_edge env tn (ref_entity_id (bsq_shared_service_ref req)) (ref_entity_id (bs_consumer_ref item))
       (Some BILLING_RELATIONSHIP) s = (Inr found, s1)"
    show "R s1 (snd ((case found of
       Some e \<Rightarrow>
         eff_bind (save_edge env tn (edge_add_history ''BILLING_SYNCED'' actor None None
           (e\<lparr>ce_billing := Some (synced_attributes req item), ce_last_seen := now\<rparr>))) (\<lambda>_. eff_return False)
     | None \<Rightarrow>
         eff_bind (draw (dv_uuid_hex env)) (\<lambda>hex.
         eff_bind (save_edge env tn (billing_edge tn hex now actor req item)) (\<lambda>_. eff_return True))) s1))"
    proof (rule assume_inv)
      assume inv: "edge_inv s1"
      have "dep_edges s1 = dep_edges s" using find_edge_draws[of s env tn] f
        by (metis draws_only_def snd_conv dep_state.select_convs(1) dep_state.surjective dep_state.update_convs(5))
      then have st: "stored s1 tn (edge_id e) = Some e" if "found = Some e" for e
        using find_edge_stored[OF f[unfolded that]] edges_between_stored inv by (auto simp: edge_inv_def)
      show ?thesis
      proof (cases found)
        case None
        show ?thesis unfolding None option.case by (intro bind step_rules save_new billing_edge_labelled creating)
      next
        case (Some e)
        show ?thesis unfolding Some option.case
          by (intro bind step_rules save_changed[OF inv st[OF Some]] syncing) simp_all
      qed
    qed
  qed
  then show ?thesis
    using assms unfolding sync_billing_relationships_def with_context_cases
    by (auto intro!: bind step_rules map_each simp del: eff_simps eff_bind_draw)
qed

lemma step_framed:
  assumes "cmd_tenant ctx = Some tn"
  shows "R s (dep_step lib env (ctx, cmd) s)"
proof (cases "automatic (ctx, cmd)")
  case True
  then show ?thesis by (rule automatic_framed) (rule assms)
next
  case False
  have "R s (snd (service_resolve_conflict env ctx i req actor s))" for i req actor
    unfolding service_resolve_conflict_def with_context_cases assms option.case by (intro bind resolving step_rules)
  with False show ?thesis
    by (cases cmd) (simp_all add: automatic_def assms create_framed update_framed delete_framed sync_framed)
qed

end

context service_frame
begin

lemma service_step: "cmd_tenant ctx = Some tn \<Longrightarrow> R s (dep_step lib env (ctx, cmd) s)"
  by (rule step_framed)

end

lemma no_tenant_same: "cmd_tenant ctx = None \<Longrightarrow> dep_step lib env (ctx, cmd) s = s"
  by (cases cmd)
     (simp_all add: with_context_cases create_manual_edge_def update_edge_def delete_edge_def service_resolve_conflict_def
        bulk_import_def sync_billing_relationships_def run_discovery_def)

end
