(* ===== verification/Curation_Theorems.thy ===== *)
theory Curation_Theorems
  imports Curation_Store "HOL-Library.Multiset"
begin

text \<open>
  What holds of the curated dependency graph over whole histories of the service: automatic discovery and imports never
  change what people asserted, versions are only added, tenants do not interfere, staleness is decided exactly by the
  observation, candidates carry the confidence of their layer, every import row is accounted for, and the rows the impact
  analysis reads are the curated ones.
\<close>

section \<open>Histories of the service\<close>

interpretation any_change: edge_evolution "\<lambda>_ _. True"
  by unfold_locales simp_all

interpretation labels: service_frame "evolves (\<lambda>_ _. True)" "\<lambda>_ _. True" env tn for env tn
  by (rule service_frame.intro[OF any_change.evolution_frame]) (simp add: service_frame_axioms_def)

lemma edge_inv_step: "edge_inv s \<Longrightarrow> edge_inv (dep_step lib env (ctx, cmd) s)"
proof (cases "cmd_tenant ctx")
  case (Some tn)
  then show "edge_inv s \<Longrightarrow> ?thesis" using labels.step_framed[OF Some, of s lib env cmd] by (simp add: evolves_def)
qed (simp add: no_tenant_same)

interpretation service: machine "dep_step lib env" "\<lambda>_. True" edge_inv for lib env
  by unfold_locales (metis edge_inv_step surj_pair)

lemma edge_inv_reached: "edge_inv (dep_run lib env es no_edges)"
  unfolding dep_run_def by (rule service.inv_run) (simp_all add: no_edges_def edge_inv_def edge_rows_ok_def list_all_iff)

lemma dep_run_append: "dep_run lib env (hs @ es) s = dep_run lib env es (dep_run lib env hs s)"
  by (simp add: dep_run_def)

text \<open>A relation every step keeps holds along every run that starts where the labels are right.\<close>

lemma run_related:
  assumes inv: "edge_inv s" and refl: "\<And>s. P s s" and trans: "\<And>s s' s''. P s s' \<Longrightarrow> P s' s'' \<Longrightarrow> P s s''"
    and step: "\<And>e s. e \<in> set es \<Longrightarrow> edge_inv s \<Longrightarrow> P s (dep_step lib env e s)"
  shows "P s (dep_run lib env es s)"
  using inv step
proof (induction es arbitrary: s)
  case (Cons e es)
  have "edge_inv (dep_step lib env e s)" using edge_inv_step[OF Cons.prems(1)] by (metis surj_pair)
  with Cons have "P (dep_step lib env e s) (dep_run lib env es (dep_step lib env e s))" by simp
  with Cons.prems show ?case using trans by (simp add: dep_run_def) blast
qed (simp add: dep_run_def refl)

section \<open>Manual edges\<close>

text \<open>What a person asserted with an edge: everything but the bookkeeping of observations and conflicts.\<close>

definition asserted :: "curated_edge \<Rightarrow> (string \<times> string \<times> typed_entity_ref \<times> typed_entity_ref) \<times> relationship_type
    \<times> dependency_direction \<times> edge_criticality \<times> edge_provenance \<times> edge_confidence_level \<times> string option
    \<times> billing_attributes option \<times> int \<times> int \<times> int option" where
  "asserted e = ((edge_id e, edge_tenant_id e, source_ref e, target_ref e), edge_relationship e, edge_direction e,
     edge_criticality e, ce_provenance e, ce_confidence e, ce_notes e, ce_billing e, ce_first_seen e, ce_effective_from e,
     ce_effective_to e)"

definition kept :: "curated_edge \<Rightarrow> curated_edge \<Rightarrow> bool" where
  "kept e e' \<longleftrightarrow> (is_manual e \<longrightarrow> asserted e' = asserted e \<and> edge_status e' \<in> {edge_status e, CONFLICT}
     \<and> prefix (ce_history e) (ce_history e'))"

lemma asserted_manual: "asserted e' = asserted e \<Longrightarrow> is_manual e' = is_manual e"
  by (simp add: asserted_def is_manual_def)

lemma kept_trans: "kept e e' \<Longrightarrow> kept e' e'' \<Longrightarrow> kept e e''"
  using asserted_manual[of e' e] by (auto simp: kept_def intro: prefix_order.trans)

interpretation keeping: edge_evolution kept
  by unfold_locales (simp add: kept_def, rule kept_trans)

interpretation protected: automatic_frame "evolves kept" kept env tn for env tn
  by (rule automatic_frame.intro[OF keeping.evolution_frame])
     (simp add: automatic_frame_axioms_def kept_def asserted_def confirmed_def flag_manual_def)

text \<open>
  C1. Whatever people did before, no sequence of discovery runs and bulk imports, of any tenant and of any inventory,
  removes or rewrites a manual edge: its endpoints, relationship, direction, criticality, confidence, provenance, notes,
  billing and effective dates stay as asserted, its history is only extended, and its status stays or becomes CONFLICT.
  No assumption on the generated identifiers is needed: no candidate can have the identifier of a manual edge.
\<close>

theorem discovery_protects_manual_edges:
  assumes "list_all automatic es" and "stored (dep_run lib env hs no_edges) tn i = Some e" and "is_manual e"
  shows "\<exists>e'. stored (dep_run lib env (hs @ es) no_edges) tn i = Some e' \<and> asserted e' = asserted e
    \<and> edge_status e' \<in> {edge_status e, CONFLICT} \<and> prefix (ce_history e) (ce_history e')"
proof -
  let ?s = "dep_run lib env hs no_edges"
  have "evolves kept ?s (dep_run lib env es ?s)"
  proof (rule run_related)
    show "evolves kept s (dep_step lib env x s)" if "x \<in> set es" for x s
    proof -
      obtain ctx cmd where x: "x = (ctx, cmd)" by (cases x)
      show ?thesis
      proof (cases "cmd_tenant ctx")
        case (Some tn)
        have "automatic (ctx, cmd)" using assms(1) that x by (auto simp: list_all_iff)
        with Some show ?thesis unfolding x by (intro protected.automatic_framed)
      qed (simp add: x no_tenant_same protected.R_refl)
    qed
  qed (auto intro: edge_inv_reached protected.R_refl protected.R_trans)
  with assms(2,3) edge_inv_reached show ?thesis
    unfolding dep_run_append evolves_def kept_def by blast
qed

section \<open>Versions\<close>

lemma insort_key_last: "f x \<le> f y \<Longrightarrow> insort_key f x (ys @ [y]) = insort_key f x ys @ [y]"
  by (induction ys) auto

lemma sort_key_last: "\<forall>x \<in> set xs. f x \<le> f y \<Longrightarrow> sort_key f (xs @ [y]) = sort_key f xs @ [y]"
  by (induction xs) (simp_all add: insort_key_last)

definition recorded_ok :: "dep_env \<Rightarrow> dep_state \<Rightarrow> bool" where
  "recorded_ok env s \<longleftrightarrow> (\<forall>v \<in> set (dep_versions s). vr_recorded_at v \<le> dv_db_clock env (dep_draws s))"

definition grows :: "dep_env \<Rightarrow> dep_state \<Rightarrow> dep_state \<Rightarrow> bool" where
  "grows env s s' \<longleftrightarrow> (edge_inv s \<and> recorded_ok env s \<and> mono (dv_db_clock env) \<longrightarrow>
     edge_inv s' \<and> recorded_ok env s' \<and> (\<forall>tn i. prefix (edge_history s tn i) (edge_history s' tn i)))"

lemma save_appends_version:
  assumes inv: "edge_inv s" and rec: "recorded_ok env s" and clock: "mono (dv_db_clock env)"
    and e: "edge_tenant_id e = tn" "labelled e" and save: "save_edge env tn e s = (Inr x, s')"
  shows "edge_inv s' \<and> recorded_ok env s' \<and>
    edge_history s' tn' i = edge_history s tn' i @ (if tn' = tn \<and> i = edge_id e then [e] else [])"
proof -
  have ok: "edge_rows_ok (dep_edges s)" using inv by (simp add: edge_inv_def)
  have ver: "vr_recorded_at v \<le> dv_db_clock env m" if "v \<in> set (dep_versions s)" "dep_draws s \<le> m" for v m
    using rec that monoD[OF clock, of "dep_draws s" m] by (fastforce simp: recorded_ok_def)
  have val: "edge_ok (dep_edges s) tn e" "stored s' tn' j = (if j = edge_id e \<and> tn' = tn then Some e else stored s tn' j)" for j
    using save_edge_value[OF save ok e(1), of tn' j] by simp_all
  from save show ?thesis
  proof (cases rule: save_edge_cases)
    case created
    then have "edge_inv s'" using put_labelled[OF inv val(1) e(2)] by simp
    moreover have "filter (\<lambda>v. vr_edge_id v = edge_id e \<and> vr_tenant_id v = tn) (dep_versions s') = filter (\<lambda>v. vr_edge_id v = edge_id e \<and> vr_tenant_id v = tn) (dep_versions s)"
      using created by simp
    ultimately show ?thesis
      using created rec val(2)[of i] by (auto simp: recorded_ok_def edge_history_def split: option.split)
  next
    case (updated old)
    let ?v = "snapshot env tn old (dep_draws s)"
    have "edge_inv s'" using put_labelled[OF inv val(1) e(2)] updated by simp
    moreover have "recorded_ok env s'"
      using updated ver[of _ "Suc (Suc (dep_draws s))"] monoD[OF clock, of "Suc (dep_draws s)" "Suc (Suc (dep_draws s))"]
      by (auto simp: recorded_ok_def snapshot_def)
    moreover have "sort_key vr_recorded_at (xs @ [?v]) = sort_key vr_recorded_at xs @ [?v]" if "set xs \<subseteq> set (dep_versions s)" for xs
      using ver[of _ "Suc (dep_draws s)"] that by (intro sort_key_last) (auto simp: snapshot_def)
    moreover have "edge_id old = edge_id e" using updated by (auto elim: get_edge_rowE)
    ultimately show ?thesis
      using updated val(2)[of i] by (auto simp: edge_history_def snapshot_def split: option.split)
  qed simp
qed

lemma grows_refl: "grows env s s"
  by (simp add: grows_def)

lemma grows_draws:
  assumes "draws_only s s'"
  shows "grows env s s'"
proof -
  obtain n where n: "dep_draws s \<le> n" "s' = s\<lparr>dep_draws := n\<rparr>" using assms by (auto simp: draws_only_def)
  have "dv_db_clock env (dep_draws s) \<le> dv_db_clock env n" if "mono (dv_db_clock env)" using n(1) that by (rule monoD[rotated])
  then show ?thesis unfolding grows_def using n(2) by (force simp: edge_inv_def recorded_ok_def edge_history_def)
qed

interpretation versions: service_frame "grows env" "\<lambda>_ _. True" env tn for env tn
proof (unfold_locales)
  fix s e
  assume asm: "edge_inv s" "edge_tenant_id e = tn" "labelled e"
  obtain r s' where save: "save_edge env tn e s = (r, s')" by (cases "save_edge env tn e s")
  show "grows env s (snd (save_edge env tn e s))"
  proof (cases r)
    case (Inr x)
    then show ?thesis
      using save_appends_version[OF asm(1) _ _ asm(2,3), of env x s'] save by (auto simp: grows_def)
  next
    case (Inl err)
    obtain n where "s' = s\<lparr>dep_draws := n\<rparr>" "dep_draws s \<le> n" using save Inl by (cases rule: save_edge_cases) auto
    then have "draws_only s s'" unfolding draws_only_def by blast
    then show ?thesis using save grows_draws by simp
  qed
next
  show "grows env s s'" if "draws_only s s'" for s s' using that by (rule grows_draws)
next
  show "grows env s s''" if "grows env s s'" "grows env s' s''" for s s' s''
    using that unfolding grows_def by (blast intro: prefix_order.trans)
  show "grows env s (s\<lparr>dep_audits := a\<rparr>)" for s a
    unfolding grows_def edge_inv_def recorded_ok_def edge_history_def by simp
  have "grows env s (s\<lparr>dep_conflicts := c\<rparr>)" for s c
    unfolding grows_def edge_inv_def recorded_ok_def edge_history_def by simp
  then show "grows env s (snd (save_conflict tn c s))" for s c
    using grows_refl by (simp add: save_conflict_def)
qed (auto simp: grows_def)

text \<open>
  C19. The versions of an edge are append-only: whatever happens later, the list of versions \<open>get_edge_history\<close> returns
  starts with the list it returned before, the version that was current then included, provided the database clock does
  not run backwards.
\<close>

theorem versions_append_only:
  assumes "mono (dv_db_clock env)"
  shows "prefix (edge_history (dep_run lib env hs no_edges) tn i) (edge_history (dep_run lib env (hs @ es) no_edges) tn i)"
proof -
  have run: "grows env s (dep_run lib env es s)" if "edge_inv s" for s es
  proof (rule run_related[OF that])
    show "grows env s (dep_step lib env x s)" for x s
    proof (cases x)
      case (Pair ctx cmd)
      then show ?thesis by (cases "cmd_tenant ctx") (simp_all add: no_tenant_same versions.R_refl versions.step_framed)
    qed
  qed (auto intro: versions.R_refl versions.R_trans)
  have "edge_inv no_edges \<and> recorded_ok env no_edges" by (simp add: no_edges_def edge_inv_def edge_rows_ok_def recorded_ok_def)
  then have "recorded_ok env (dep_run lib env hs no_edges)" using run[of no_edges hs] assms by (simp add: grows_def)
  then show ?thesis using run[OF edge_inv_reached] assms edge_inv_reached unfolding dep_run_append grows_def by blast
qed

section \<open>Tenants\<close>

definition tenant_view :: "string \<Rightarrow> dep_state \<Rightarrow> curated_row list \<times> version_row list \<times> conflict_row list" where
  "tenant_view tn s = (filter (\<lambda>r. cw_tenant_id r = tn) (dep_edges s), filter (\<lambda>v. vr_tenant_id v = tn) (dep_versions s),
     filter (\<lambda>r. cx_tenant_id r = tn) (dep_conflicts s))"

definition leaves :: "string \<Rightarrow> dep_state \<Rightarrow> dep_state \<Rightarrow> bool" where
  "leaves tn' s s' \<longleftrightarrow> (edge_inv s \<longrightarrow> edge_inv s' \<and> tenant_view tn' s' = tenant_view tn' s)"

lemma filter_update_other:
  "(\<And>x. x \<in> set xs \<Longrightarrow> k x \<Longrightarrow> \<not> P x \<and> \<not> P (f x)) \<Longrightarrow> filter P (map (\<lambda>x. if k x then f x else x) xs) = filter P xs"
  by (induction xs) auto

lemma put_edge_other:
  "edge_ok rows tn e \<Longrightarrow> tn \<noteq> tn' \<Longrightarrow> filter (\<lambda>r. cw_tenant_id r = tn') (put_edge_row rows tn e) = filter (\<lambda>r. cw_tenant_id r = tn') rows"
  by (auto simp: put_edge_row_def edge_ok_def intro!: filter_update_other)

lemma put_conflict_other:
  "conflict_ok rows tn c \<Longrightarrow> tn \<noteq> tn' \<Longrightarrow> filter (\<lambda>r. cx_tenant_id r = tn') (put_conflict_row rows tn c) = filter (\<lambda>r. cx_tenant_id r = tn') rows"
  by (auto simp: put_conflict_row_def conflict_ok_def intro!: filter_update_other)

lemma save_leaves:
  assumes "edge_inv s" "edge_tenant_id e = tn" "labelled e" "tn \<noteq> tn'"
  shows "leaves tn' s (snd (save_edge env tn e s))"
proof -
  obtain r s' where save: "save_edge env tn e s = (r, s')" by (cases "save_edge env tn e s")
  then show ?thesis
  proof (cases rule: save_edge_cases)
    case (failed n)
    then show ?thesis using save by (simp add: leaves_def edge_inv_def tenant_view_def)
  next
    case created
    note ok = edge_fits_ok[OF created(3) assms(2)]
    show ?thesis
      using created save put_labelled[OF assms(1) ok assms(3), of s'] put_edge_other[OF ok assms(4)]
      by (simp add: leaves_def tenant_view_def)
  next
    case (updated old)
    note ok = edge_fits_ok[OF updated(3) assms(2)]
    show ?thesis
      using updated save put_labelled[OF assms(1) ok assms(3), of s'] put_edge_other[OF ok assms(4)] assms(4)
      by (simp add: leaves_def tenant_view_def snapshot_def)
  qed
qed

lemma leaves_frame:
  assumes "tn \<noteq> tn'"
  shows "service_frame (leaves tn') (\<lambda>_ _. True) env tn"
proof (unfold_locales)
  show "leaves tn' s (snd (save_edge env tn e s))" if "edge_inv s" "edge_tenant_id e = tn" "labelled e" for s e
    using that assms by (rule save_leaves)
  show "leaves tn' s s'" if "draws_only s s'" for s s'
    using that by (auto simp: leaves_def draws_only_def edge_inv_def tenant_view_def)
  show "leaves tn' s (s\<lparr>dep_audits := a\<rparr>)" for s a by (simp add: leaves_def edge_inv_def tenant_view_def)
  show "leaves tn' s (snd (save_conflict tn c s))" for s c
    using put_conflict_other[of "dep_conflicts s" tn c tn'] assms
    by (auto simp: save_conflict_def leaves_def edge_inv_def tenant_view_def conflict_ok_def list_ex_iff)
qed (auto simp: leaves_def)

text \<open>
  C20. Tenants are isolated: commands of other tenants, successful or not, leave the edges, the recorded versions and the
  conflicts of a tenant exactly as they are.
\<close>

theorem dependency_tenants_isolated:
  assumes "\<forall>e \<in> set es. cmd_tenant (fst e) \<noteq> Some tn"
  shows "tenant_view tn (dep_run lib env (hs @ es) no_edges) = tenant_view tn (dep_run lib env hs no_edges)"
proof -
  have "leaves tn s (dep_run lib env es s)" if "edge_inv s" for s
  proof (rule run_related[OF that])
    show "leaves tn s (dep_step lib env x s)" if "x \<in> set es" for x s
    proof (cases x)
      case (Pair ctx cmd)
      show ?thesis
      proof (cases "cmd_tenant ctx")
        case (Some tn0)
        then have "tn0 \<noteq> tn" using assms that Pair by fastforce
        then show ?thesis unfolding Pair using leaves_frame Some by (intro service_frame.service_step)
      qed (simp add: Pair no_tenant_same leaves_def)
    qed
  qed (auto simp: leaves_def)
  then show ?thesis using edge_inv_reached unfolding dep_run_append leaves_def by blast
qed

section \<open>The rows the impact analysis reads\<close>

definition engine_row :: "curated_row \<Rightarrow> edge_row" where
  "engine_row r = \<lparr> row_created_at = cw_created_at r, row_edge = dependency_edge.truncate (cw_edge r) \<rparr>"

lemma truncate_simps [simp]:
  "edge_id (dependency_edge.truncate e) = edge_id e" "edge_tenant_id (dependency_edge.truncate e) = edge_tenant_id e"
  "source_ref (dependency_edge.truncate e) = source_ref e" "target_ref (dependency_edge.truncate e) = target_ref e"
  "edge_relationship (dependency_edge.truncate e) = edge_relationship e"
  "edge_direction (dependency_edge.truncate e) = edge_direction e"
  "edge_criticality (dependency_edge.truncate e) = edge_criticality e" "edge_status (dependency_edge.truncate e) = edge_status e"
  by (simp_all add: dependency_edge.truncate_def)

lemma insort_key_map: "(\<And>x. f (g x) = h x) \<Longrightarrow> insort_key f (g x) (map g xs) = map g (insort_key h x xs)"
  by (induction xs) auto

lemma sort_key_map: "(\<And>x. f (g x) = h x) \<Longrightarrow> sort_key f (map g xs) = map g (sort_key h xs)"
  by (induction xs) (simp_all add: insort_key_map[of f g h])

text \<open>
  The listing of the curated graph and the listing the impact analysis is defined on are the same query: on every
  reachable state and for every filter, order and limit, the edges the service lists are, seen through the fields the
  engine reads, those the engine lists from the stored rows.
\<close>

theorem curated_listing_is_engine_listing:
  "map dependency_edge.truncate (curated_list (dep_edges (dep_run lib env hs no_edges)) tn st rel as_of src tgt ih idel n)
   = list_edges (map engine_row (dep_edges (dep_run lib env hs no_edges))) tn st rel as_of src tgt ih idel n"
proof -
  let ?rows = "dep_edges (dep_run lib env hs no_edges)"
  have ten: "\<forall>r \<in> set ?rows. edge_tenant_id (cw_edge r) = cw_tenant_id r"
    using edge_inv_reached[of lib env hs] by (simp add: edge_inv_def edge_rows_ok_def)
  let ?P = "\<lambda>r. let e = row_edge r in edge_tenant_id e = tn \<and> status_clause st as_of ih idel e
        \<and> (case rel of Some t \<Rightarrow> edge_relationship e = t | None \<Rightarrow> True)
        \<and> (truthy src \<longrightarrow> Some (ref_entity_id (source_ref e)) = src) \<and> (truthy tgt \<longrightarrow> Some (ref_entity_id (target_ref e)) = tgt)"
  have "filter ?P (map engine_row ?rows) = map engine_row (filter (\<lambda>r. let e = cw_edge r in
        cw_tenant_id r = tn \<and> status_clause st as_of ih idel (dependency_edge.truncate e)
        \<and> (case rel of Some t \<Rightarrow> edge_relationship e = t | None \<Rightarrow> True)
        \<and> (truthy src \<longrightarrow> Some (ref_entity_id (source_ref e)) = src) \<and> (truthy tgt \<longrightarrow> Some (ref_entity_id (target_ref e)) = tgt)) ?rows)"
    unfolding filter_map using ten
    by (intro arg_cong[where f = "map engine_row"] filter_cong) (simp_all add: engine_row_def Let_def split: option.split)
  moreover have "sort_key (\<lambda>r. - row_created_at r) (map engine_row xs) = map engine_row (sort_key (\<lambda>r. - cw_created_at r) xs)" for xs
    by (rule sort_key_map) (simp add: engine_row_def)
  moreover have "row_edge \<circ> engine_row = dependency_edge.truncate \<circ> cw_edge" by (auto simp: engine_row_def)
  ultimately show ?thesis unfolding curated_list_def list_edges_def by (simp add: take_map)
qed

section \<open>Candidates\<close>

text \<open>
  C22. Every candidate a discovery run proposes is labelled with where it comes from: those of the three layers are
  discovered edges of that layer with high confidence, those of the naming rules are inferred edges of the naming layer
  whose confidence is never high, whatever the rule asks for; none is manual, and without configured rules nothing is
  inferred.
\<close>

theorem candidates_are_labelled:
  assumes "run_candidates lib env tn items cfg s = (Inr (st, nw, pr, nm), s')"
  shows "all_labelled tn DISCOVERED STRUCTURAL {edge_confidence_level.HIGH} st
    \<and> all_labelled tn DISCOVERED discovery_layer.NETWORK {edge_confidence_level.HIGH} nw
    \<and> all_labelled tn DISCOVERED PROVIDER_PLATFORM {edge_confidence_level.HIGH} pr
    \<and> all_labelled tn INFERRED INFERRED_NAMING (- {edge_confidence_level.HIGH}) nm
    \<and> (dc_naming_rules cfg = [] \<longrightarrow> nm = [])"
proof -
  have "dc_naming_rules cfg = [] \<longrightarrow> nm = []"
    using assms by (auto simp: run_candidates_def elim!: eff_bindE)
  then show ?thesis using yieldsD[OF run_yields assms] by simp
qed

section \<open>Import accounting\<close>

definition import_accounted :: "(nat \<times> bulk_import_item) list \<Rightarrow> bulk_import_result \<Rightarrow> bool" where
  "import_accounted rows res \<longleftrightarrow>
     br_edges_created res + br_edges_updated res + br_conflicts_surfaced res + length (br_errors res) = length rows"

lemma import_row_accounted:
  assumes "import_row env tn req now row res s = (Inr res', s')"
  shows "br_edges_created res' + br_edges_updated res' + br_conflicts_surfaced res' + length (br_errors res')
      = Suc (br_edges_created res + br_edges_updated res + br_conflicts_surfaced res + length (br_errors res))
    \<and> br_total_received res' = br_total_received res"
  using assms
  by (auto simp: import_row_def Let_def eff_catch_def eff_bind_def draw_def split: if_splits prod.splits sum.splits)

lemma import_row_returns: "\<exists>res' s'. import_row env tn req now row res s = (Inr res', s')"
  unfolding import_row_def Let_def by (auto intro!: eff_catch_total)

text \<open>
  C24. A bulk import with a tenant always returns, whatever fails row by row, and accounts for every row it received:
  created, updated, in conflict and erroneous rows add up to the number received.
\<close>

theorem import_accounts_for_every_row:
  assumes "cmd_tenant ctx = Some tn"
  shows "\<exists>res s'. bulk_import env ctx req actor s = (Inr res, s') \<and> br_total_received res = length (bq_items req)
    \<and> br_edges_created res + br_edges_updated res + br_conflicts_surfaced res + length (br_errors res) = length (bq_items req)"
proof -
  let ?now = "dv_clock env (dep_draws s)" and ?s = "s\<lparr>dep_draws := Suc (dep_draws s)\<rparr>"
  let ?start = "\<lparr> br_import_job_id = bq_import_job_id req, br_import_source = bq_import_source req,
         br_total_received = length (bq_items req), br_edges_created = 0, br_edges_updated = 0,
         br_conflicts_surfaced = 0, br_errors = [] \<rparr>"
  obtain res s1 where run: "eff_fold (import_row env tn req ?now) (enumerate 0 (bq_items req)) ?start ?s = (Inr res, s1)"
    using eff_fold_total[of "import_row env tn req ?now"] import_row_returns by metis
  have "import_accounted ([] @ enumerate 0 (bq_items req)) res \<and> br_total_received res = length (bq_items req)"
    using run
    by (rule eff_fold_value[where P = "\<lambda>rows res. import_accounted rows res \<and> br_total_received res = length (bq_items req)", rotated])
       (auto simp: import_accounted_def dest: import_row_accounted)
  then show ?thesis
    using run assms
    by (simp add: bulk_import_def with_context_cases import_relationships_def eff_bind_def draw_def dep_record_audit_def import_accounted_def)
qed

section \<open>Staleness\<close>

abbreviation stale_pass :: "dep_env \<Rightarrow> string \<Rightarrow> (curated_edge \<Rightarrow> bool) \<Rightarrow> curated_edge \<Rightarrow> nat \<Rightarrow> nat dep_op" where
  "stale_pass env tn P e n \<equiv>
     if P e then eff_bind (save_edge env tn (marked_stale e)) (\<lambda>_. eff_return (n + 1)) else eff_return n"

lemma stale_pass_effect:
  assumes "edge_rows_ok (dep_edges s)" and "distinct (map edge_id xs)"
    and "\<forall>e \<in> set xs. stored s tn (edge_id e) = Some e \<and> edge_tenant_id e = tn"
    and "eff_fold (stale_pass env tn P) xs n s = (Inr m, s')"
  shows "m = n + length (filter P xs)
    \<and> (\<forall>e \<in> set xs. P e \<longrightarrow> stored s' tn (edge_id e) = Some (marked_stale e))
    \<and> (\<forall>tn' i. tn' = tn \<and> (\<exists>e \<in> set xs. P e \<and> edge_id e = i) \<or> stored s' tn' i = stored s tn' i)"
  using assms
proof (induction xs arbitrary: s n)
  case (Cons e xs)
  show ?case
  proof (cases "P e")
    case False
    have "eff_fold (stale_pass env tn P) xs n s = (Inr m, s')" using Cons.prems(4) False by simp
    with Cons.IH[OF Cons.prems(1), of n] Cons.prems(2,3) False show ?thesis by simp
  next
    case True
    then obtain x s1 where save: "save_edge env tn (marked_stale e) s = (Inr x, s1)"
        and rest: "eff_fold (stale_pass env tn P) xs (n + 1) s1 = (Inr m, s')"
      using Cons.prems(4) by (auto elim!: eff_bindE)
    have st1: "edge_rows_ok (dep_edges s1)"
        "stored s1 tn' i = (if i = edge_id e \<and> tn' = tn then Some (marked_stale e) else stored s tn' i)" for tn' i
      using save_edge_value[OF save Cons.prems(1)] Cons.prems(3) by simp_all
    have "\<forall>e' \<in> set xs. stored s1 tn (edge_id e') = Some e' \<and> edge_tenant_id e' = tn"
    proof
      fix e' assume e': "e' \<in> set xs"
      have "edge_id e \<notin> edge_id ` set xs" using Cons.prems(2) by simp
      with e' have "edge_id e' \<noteq> edge_id e" by (metis imageI)
      then show "stored s1 tn (edge_id e') = Some e' \<and> edge_tenant_id e' = tn" using st1(2)[of tn "edge_id e'"] Cons.prems(3) e' by simp
    qed
    then have IH: "m = n + 1 + length (filter P xs)
        \<and> (\<forall>e \<in> set xs. P e \<longrightarrow> stored s' tn (edge_id e) = Some (marked_stale e))
        \<and> (\<forall>tn' i. tn' = tn \<and> (\<exists>e \<in> set xs. P e \<and> edge_id e = i) \<or> stored s' tn' i = stored s1 tn' i)"
      using Cons.IH[OF st1(1) _ _ rest] Cons.prems(2) by simp
    have "edge_id e \<notin> edge_id ` set xs" using Cons.prems(2) by simp
    then have "\<not> (\<exists>e' \<in> set xs. P e' \<and> edge_id e' = edge_id e)" by (metis imageI)
    then have "stored s' tn (edge_id e) = Some (marked_stale e)" using IH st1(2)[of tn "edge_id e"] by metis
    moreover have "tn' = tn \<and> (\<exists>e' \<in> set (e # xs). P e' \<and> edge_id e' = i) \<or> stored s' tn' i = stored s tn' i" for tn' i
    proof (cases "tn' = tn \<and> i = edge_id e")
      case False
      then have "stored s1 tn' i = stored s tn' i" by (metis st1(2))
      with IH show ?thesis by (metis list.set_intros(2))
    qed (use True in simp)
    ultimately show ?thesis using IH True by simp
  qed
qed simp

lemma curated_list_ids: "edge_rows_ok rows \<Longrightarrow> distinct (map edge_id (curated_list rows tn st rel as_of src tgt ih idel n))"
proof -
  assume ok: "edge_rows_ok rows"
  let ?rs = "\<lambda>P. sort_key (\<lambda>r. - cw_created_at r) (filter P rows)"
  have "distinct (map (\<lambda>r. edge_id (cw_edge r)) (?rs P))" for P
    using ok by (auto simp: edge_rows_ok_def distinct_map inj_on_def)
  then have "distinct (map edge_id (map cw_edge (?rs P)))" for P by (simp add: comp_def)
  then show ?thesis unfolding curated_list_def take_map[symmetric] by (rule distinct_take)
qed

lemma active_listed:
  assumes "edge_rows_ok rows" and "length (filter (\<lambda>r. cw_tenant_id r = tn \<and> edge_status (cw_edge r) = ACTIVE) rows) \<le> n"
  shows "e \<in> set (curated_list rows tn (Some ACTIVE) None None None None False False n)
    \<longleftrightarrow> get_edge_row rows tn (edge_id e) = Some e \<and> edge_status e = ACTIVE"
proof -
  have "curated_list rows tn (Some ACTIVE) None None None None False False n =
      map cw_edge (sort_key (\<lambda>r. - cw_created_at r) (filter (\<lambda>r. cw_tenant_id r = tn \<and> edge_status (cw_edge r) = ACTIVE) rows))"
    using assms(2) by (simp add: curated_list_def status_clause_def Let_def)
  then show ?thesis by (auto simp: get_edge_row_iff[OF assms(1)])
qed

text \<open>
  C21. The end of a discovery run decides staleness exactly: in a tenant with at most a thousand active edges, an edge
  becomes STALE if and only if it is active, not manual, was not among the observed candidates (source, target and
  relationship) and was last seen before the threshold; every other edge of every tenant is left as it is, and the count
  reported is the number of edges marked.
\<close>

theorem stale_marking_exact:
  assumes "s = dep_run lib env hs no_edges"
    and few: "length (filter (\<lambda>r. cw_tenant_id r = tn \<and> edge_status (cw_edge r) = ACTIVE) (dep_edges s)) \<le> 1000"
    and run: "mark_stale_edges env tn scan secs observed s = (Inr n, s')"
  defines "stale \<equiv> \<lambda>tn' e. tn' = tn \<and> edge_status e = ACTIVE \<and> \<not> is_manual e
    \<and> ce_last_seen e < scan - secs * 1000000 \<and> pair_of e \<notin> pair_of ` set observed"
  shows "stored s' tn' i = map_option (\<lambda>e. if stale tn' e then marked_stale e else e) (stored s tn' i)
    \<and> n = length (filter (\<lambda>r. stale (cw_tenant_id r) (cw_edge r)) (dep_edges s))"
proof
  have inv: "edge_inv s" using edge_inv_reached assms(1) by simp
  then have ok: "edge_rows_ok (dep_edges s)" by (simp add: edge_inv_def)
  let ?P = "goes_stale (scan - secs * 1000000) observed"
  have stale: "stale tn' e \<longleftrightarrow> tn' = tn \<and> edge_status e = ACTIVE \<and> ?P e" for tn' e
    by (auto simp: stale_def goes_stale_def)
  let ?xs = "curated_list (dep_edges s) tn (Some ACTIVE) None None None None False False 1000"
  have xs: "e \<in> set ?xs \<longleftrightarrow> stored s tn (edge_id e) = Some e \<and> edge_status e = ACTIVE" for e
    using active_listed[OF ok few] .
  have "eff_fold (stale_pass env tn ?P) ?xs 0 s = (Inr n, s')" using run by (simp add: mark_stale_edges_def)
  moreover have "\<forall>e \<in> set ?xs. stored s tn (edge_id e) = Some e \<and> edge_tenant_id e = tn"
    using xs edge_inv_stored[OF inv] by metis
  ultimately have "n = 0 + length (filter ?P ?xs) \<and> (\<forall>e \<in> set ?xs. ?P e \<longrightarrow> stored s' tn (edge_id e) = Some (marked_stale e))
    \<and> (\<forall>tn' i. tn' = tn \<and> (\<exists>e \<in> set ?xs. ?P e \<and> edge_id e = i) \<or> stored s' tn' i = stored s tn' i)"
    by (intro stale_pass_effect[OF ok curated_list_ids[OF ok]])
  then have eff: "n = length (filter ?P ?xs)" "\<forall>e \<in> set ?xs. ?P e \<longrightarrow> stored s' tn (edge_id e) = Some (marked_stale e)"
    "\<forall>tn' i. tn' = tn \<and> (\<exists>e \<in> set ?xs. ?P e \<and> edge_id e = i) \<or> stored s' tn' i = stored s tn' i"
    by (metis add_0)+
  show "stored s' tn' i = map_option (\<lambda>e. if stale tn' e then marked_stale e else e) (stored s tn' i)"
  proof (cases "\<exists>e. stored s tn' i = Some e \<and> stale tn' e")
    case True
    then obtain e where e: "stored s tn' i = Some e" "stale tn' e" by blast
    then have "edge_id e = i" "tn' = tn" "e \<in> set ?xs" "?P e"
      using edge_inv_stored[OF inv e(1)] xs[of e] by (auto simp: stale)
    then show ?thesis using e eff(2) by auto
  next
    case False
    then have "\<not> (tn' = tn \<and> (\<exists>e \<in> set ?xs. ?P e \<and> edge_id e = i))" using xs by (auto simp: stale)
    then have "stored s' tn' i = stored s tn' i" using eff(3) by blast
    with False show ?thesis by (cases "stored s tn' i") auto
  qed
  have "length (filter ?P ?xs) = length (filter (?P \<circ> cw_edge) (filter (\<lambda>r. cw_tenant_id r = tn \<and> edge_status (cw_edge r) = ACTIVE) (dep_edges s)))"
  proof -
    have "mset ?xs = mset (map cw_edge (filter (\<lambda>r. cw_tenant_id r = tn \<and> edge_status (cw_edge r) = ACTIVE) (dep_edges s)))"
      using few by (simp add: curated_list_def status_clause_def Let_def)
    then have "mset (filter ?P ?xs) = mset (filter ?P (map cw_edge (filter (\<lambda>r. cw_tenant_id r = tn \<and> edge_status (cw_edge r) = ACTIVE) (dep_edges s))))"
      by (simp only: mset_filter)
    then show ?thesis by (metis (no_types, lifting) filter_map length_map size_mset)
  qed
  also have "\<dots> = length (filter (\<lambda>r. stale (cw_tenant_id r) (cw_edge r)) (dep_edges s))"
    unfolding filter_filter by (intro arg_cong[where f = length] filter_cong) (auto simp: stale)
  finally show "n = length (filter (\<lambda>r. stale (cw_tenant_id r) (cw_edge r)) (dep_edges s))" using eff(1) by simp
qed

section \<open>A history\<close>

text \<open>
  A person asserts that \<open>vm1\<close> has the parent \<open>host1\<close>; an import then claims that data flows between the two.
\<close>

definition curation_env :: dep_env where
  "curation_env = \<lparr> dv_clock = (\<lambda>k. int k * 1000000), dv_db_clock = (\<lambda>k. int k * 1000000),
     dv_uuid_hex = (\<lambda>k. replicate 32 (char_of (65 + k))), dv_pick = (\<lambda>k. 0), dv_audit_ok = True \<rparr>"

definition curation_lib :: py_lib where
  "curation_lib = \<lparr> pl_str = (\<lambda>_. ''?''), pl_compiles = (\<lambda>_. True), pl_search = (\<lambda>p s. p = s), pl_sub = (\<lambda>p r s. Some r),
     pl_class_attribute = (\<lambda>_. False) \<rparr>"

definition curation_ctx :: "string \<Rightarrow> tenant_context option" where
  "curation_ctx tn = Some \<lparr> tc_tenant_id = tn, tc_user_id = ''u1'', tc_roles = [], tc_correlation_id = None, tc_is_superuser = False \<rparr>"

definition asserted_parent :: manual_edge_create_request where
  "asserted_parent = \<lparr> mq_source_ref = plain_ref RESOURCE ''vm1'', mq_target_ref = plain_ref RESOURCE ''host1'',
     mq_relationship_type = PARENT_CHILD, mq_direction = OUTBOUND, mq_criticality = edge_criticality.HIGH,
     mq_confidence = AS_ASSERTED, mq_notes = None, mq_billing = None \<rparr>"

definition asserted_once :: "(tenant_context option \<times> dep_cmd) list" where
  "asserted_once = [(curation_ctx ''acme'', CreateManual asserted_parent ''ann'')]"

definition contradicting_item :: bulk_import_item where
  "contradicting_item = \<lparr> bi_source_type = RESOURCE, bi_source_id = ''vm1'', bi_target_type = RESOURCE, bi_target_id = ''host1'',
     bi_relationship_type = DATA_FLOW, bi_direction = OUTBOUND, bi_criticality = edge_criticality.LOW,
     bi_confidence = AS_ASSERTED, bi_notes = None, bi_billing = None \<rparr>"

definition contradicting_request :: bulk_import_request where
  "contradicting_request = \<lparr> bq_import_source = ''cmdb'', bq_import_job_id = ''job-1'', bq_items = [contradicting_item] \<rparr>"

definition contradicting_import :: "string \<Rightarrow> (tenant_context option \<times> dep_cmd) list" where
  "contradicting_import tn = [(curation_ctx tn, BulkImport contradicting_request ''ann'')]"

definition parent_id :: string where
  "parent_id = new_edge_id ''man'' ''acme'' (dv_uuid_hex curation_env 1)"

definition the_parent :: curated_edge where
  "the_parent = manual_edge ''acme'' (dv_uuid_hex curation_env 1) 0 ''ann'' asserted_parent"

definition parent_created :: dep_audit where
  "parent_created = \<lparr> da_tenant_id = ''acme'', da_event_type = ''DEPENDENCY_EDGE_CREATED'', da_actor = ''ann'', da_resource_id = parent_id \<rparr>"

definition the_import :: curated_edge where
  "the_import = imported_edge ''acme'' contradicting_request 2000000 (dv_uuid_hex curation_env 3) contradicting_item"

lemma demo_tenants: "cmd_tenant (curation_ctx ''acme'') = Some ''acme''" "cmd_tenant (curation_ctx ''globex'') = Some ''globex''"
  by (simp_all add: cmd_tenant_def curation_ctx_def require_tenant_context_def strip_def is_space_def)

lemma parent_simps:
  "edge_id the_parent = parent_id" "ref_entity_id (source_ref the_parent) = ''vm1''" "edge_tenant_id the_parent = ''acme''"
  "ref_entity_id (target_ref the_parent) = ''host1''" "edge_relationship the_parent = PARENT_CHILD" "is_manual the_parent"
  "ce_effective_from the_parent = 0"
  by (simp_all add: the_parent_def manual_edge_def asserted_parent_def plain_ref_def new_edge_id_def curation_env_def
      is_manual_def curated_by_def parent_id_def)

lemma import_simps:
  "edge_id the_import \<noteq> parent_id" "ref_entity_id (source_ref the_import) = ''vm1''"
  "ref_entity_id (target_ref the_import) = ''host1''" "edge_relationship the_import = DATA_FLOW"
  by (simp_all add: the_import_def imported_edge_def contradicting_item_def plain_ref_def new_edge_id_def parent_id_def)

lemma env_simps:
  "dv_clock curation_env k = int k * 1000000" "dv_db_clock curation_env k = int k * 1000000"
  "dv_uuid_hex curation_env k = replicate 32 (char_of (65 + k))" "dv_pick curation_env k = 0" "dv_audit_ok curation_env"
  by (simp_all add: curation_env_def)

lemma env_mono: "mono (dv_db_clock curation_env)"
  by (simp add: mono_def env_simps)

lemma demo_created:
  "dep_run curation_lib curation_env asserted_once no_edges =
     \<lparr> dep_edges = [\<lparr> cw_tenant_id = ''acme'', cw_created_at = 0, cw_edge = the_parent \<rparr>], dep_versions = [], dep_conflicts = [],
       dep_audits = [parent_created], dep_draws = 2 \<rparr>"
proof -
  have "manual_edge ''acme'' (replicate 32 (char_of (66 :: nat))) 0 ''ann'' asserted_parent = the_parent"
    by (simp add: the_parent_def env_simps)
  then show ?thesis
    using parent_simps
    by (simp add: dep_run_def asserted_once_def create_manual_edge_def with_context_cases demo_tenants no_edges_def
        asserted_parent_def[unfolded plain_ref_def] save_edge_def write_edge_def get_edge_row_def eff_bind_def draw_def
        edge_fits_def put_edge_row_def dep_record_audit_def parent_created_def env_simps del: eff_bind_draw)
qed

lemma demo_edge_stored: "stored (dep_run curation_lib curation_env asserted_once no_edges) ''acme'' parent_id = Some the_parent"
  by (simp add: demo_created get_edge_row_def parent_simps)

theorem discovery_protects_manual_edges_witness:
  "\<exists>e'. stored (dep_run curation_lib curation_env (asserted_once @ contradicting_import ''acme'') no_edges) ''acme'' parent_id = Some e'
    \<and> asserted e' = asserted the_parent \<and> edge_status e' \<in> {edge_status the_parent, CONFLICT}
    \<and> prefix (ce_history the_parent) (ce_history e')"
  by (rule discovery_protects_manual_edges[OF _ demo_edge_stored])
     (simp_all add: contradicting_import_def automatic_def parent_simps)

theorem versions_append_only_witness:
  "prefix (edge_history (dep_run curation_lib curation_env asserted_once no_edges) ''acme'' parent_id)
    (edge_history (dep_run curation_lib curation_env (asserted_once @ contradicting_import ''acme'') no_edges) ''acme'' parent_id)"
  by (rule versions_append_only[OF env_mono])

theorem dependency_tenants_isolated_witness:
  "tenant_view ''acme'' (dep_run curation_lib curation_env (asserted_once @ contradicting_import ''globex'') no_edges)
    = tenant_view ''acme'' (dep_run curation_lib curation_env asserted_once no_edges)"
  by (rule dependency_tenants_isolated) (simp add: contradicting_import_def demo_tenants)

theorem import_accounts_for_every_row_witness:
  "\<exists>res s'. bulk_import curation_env (curation_ctx ''acme'') contradicting_request ''ann'' no_edges = (Inr res, s')
    \<and> br_total_received res = 1
    \<and> br_edges_created res + br_edges_updated res + br_conflicts_surfaced res + length (br_errors res) = 1"
  using import_accounts_for_every_row[OF demo_tenants(1), of curation_env contradicting_request "''ann''" no_edges]
  by (simp add: contradicting_request_def)

definition observed_vm :: payload where
  "observed_vm = [(''id'', PStr ''vm1''), (''name'', PStr ''web''), (''parent_id'', PStr ''host2'')]"

lemma demo_candidates:
  "\<exists>st s'. run_candidates curation_lib curation_env ''acme'' [observed_vm] default_discovery no_edges = (Inr (st, [], [], []), s') \<and> length st = 1"
  by (simp add: run_candidates_def default_discovery_def discover_structural_edges_def discover_network_edges_def
      discover_provider_platform_edges_def per_item_def observed_vm_def first_of_def py_or_def payload_get_def payload_default_def
      then_also_def if_set_def for_each_def observed_edge_def candidate_edge_def typed_ref_def iterate_def get_key_def eff_bind_def
      draw_def Let_def del: eff_bind_draw)

theorem candidates_are_labelled_witness:
  "\<exists>st s'. run_candidates curation_lib curation_env ''acme'' [observed_vm] default_discovery no_edges = (Inr (st, [], [], []), s')
    \<and> length st = 1 \<and> all_labelled ''acme'' DISCOVERED STRUCTURAL {edge_confidence_level.HIGH} st"
  using demo_candidates candidates_are_labelled[of curation_lib curation_env "''acme''" "[observed_vm]" default_discovery no_edges]
  by blast

text \<open>The same import alone, and the end of a much later run that did not see its edge.\<close>

definition import_state :: dep_state where
  "import_state = dep_run curation_lib curation_env (contradicting_import ''acme'') no_edges"

definition lone_candidate :: curated_edge where
  "lone_candidate = imported_edge ''acme'' contradicting_request 0 (replicate 32 (char_of (66 :: nat))) contradicting_item"

definition lone_import :: curated_edge where
  "lone_import = persisted 2000000 lone_candidate"

lemma lone_candidate_simps:
  "ref_entity_id (source_ref lone_candidate) = ''vm1''" "ref_entity_id (target_ref lone_candidate) = ''host1''"
  "edge_relationship lone_candidate = DATA_FLOW" "edge_id lone_candidate = edge_id lone_import"
  "ref_entity_id (source_ref lone_import) = ''vm1''" "ref_entity_id (target_ref lone_import) = ''host1''"
  "edge_status lone_import = ACTIVE" "\<not> is_manual lone_import" "ce_last_seen lone_import = 2000000"
  "ce_effective_from lone_import = 0"
  by (simp_all add: lone_import_def lone_candidate_def persisted_def imported_edge_def contradicting_item_def plain_ref_def is_manual_def)

lemma demo_imported:
  "dep_edges import_state = [\<lparr> cw_tenant_id = ''acme'', cw_created_at = 0, cw_edge = lone_import \<rparr>] \<and> dep_versions import_state = []"
proof -
  have refs: "bi_source_id contradicting_item = ''vm1''" "bi_target_id contradicting_item = ''host1''"
      "bq_items contradicting_request = [contradicting_item]"
    by (simp_all add: contradicting_item_def contradicting_request_def)
  have "merge_candidate_edge curation_env ''acme'' lone_candidate (no_edges\<lparr>dep_draws := Suc (Suc 0)\<rparr>)
    = (Inr (lone_import, None), no_edges\<lparr>dep_draws := 3, dep_edges := [\<lparr> cw_tenant_id = ''acme'', cw_created_at = 0, cw_edge = lone_import \<rparr>]\<rparr>)"
    using lone_candidate_simps
    by (simp add: merge_candidate_edge_def find_edge_def edges_between_def no_edges_def contradicting_def single_target_types_def
        save_edge_def write_edge_def get_edge_row_def edge_fits_def put_edge_row_def eff_bind_def draw_def env_simps
        lone_import_def[symmetric] del: eff_bind_draw)
  then show ?thesis
    using refs
    by (simp add: import_state_def dep_run_def contradicting_import_def bulk_import_def with_context_cases demo_tenants
        import_relationships_def import_row_def Let_def no_edges_def lone_candidate_def[symmetric]
        eff_bind_def eff_catch_def draw_def dep_record_audit_def env_simps del: eff_bind_draw)
qed

theorem stale_marking_exact_witness:
  "\<exists>n s'. mark_stale_edges curation_env ''acme'' 100000000 60 [] import_state = (Inr n, s') \<and> n = 1"
proof -
  obtain n s' where run: "mark_stale_edges curation_env ''acme'' 100000000 60 [] import_state = (Inr n, s')"
    using demo_imported lone_candidate_simps
    by (simp add: mark_stale_edges_def curated_list_def status_clause_def goes_stale_def save_edge_def write_edge_def
        get_edge_row_def edge_fits_def eff_bind_def draw_def marked_stale_def del: eff_bind_draw)
  have "n = 1"
    using stale_marking_exact[OF import_state_def _ run, of "''acme''" "[]"] demo_imported lone_candidate_simps
    by (simp add: goes_stale_def)
  with run show ?thesis by blast
qed

end
