(* ===== verification/Conflict_Theorems.thy ===== *)
theory Conflict_Theorems
  imports Curation_Theorems
begin

text \<open>
  Conflicts between what people asserted and what is discovered: on every reachable state an edge in status CONFLICT has
  an unresolved conflict on record that names it, and resolving a conflict settles both of its edges.

  Surfacing and resolving a conflict are three transactions each. That none of them fails needs identifiers that do not
  repeat, which is assumed of the readings a history has made (\<open>uniq\<close>), and the invariant of the tables (\<open>tables_ok\<close>).
\<close>

section \<open>The invariant\<close>

definition uniq :: "dep_env \<Rightarrow> nat \<Rightarrow> bool" where
  "uniq env N \<longleftrightarrow> inj_on (\<lambda>k. take 10 (dv_uuid_hex env k)) {..<N}"

abbreviation conflict_at :: "dep_state \<Rightarrow> string \<Rightarrow> string \<Rightarrow> edge_conflict option" where
  "conflict_at s tn i \<equiv> get_conflict_row (dep_conflicts s) tn i"

definition sides_stored :: "dep_state \<Rightarrow> string \<Rightarrow> edge_conflict \<Rightarrow> bool" where
  "sides_stored s tn c \<longleftrightarrow>
     (\<exists>m d. stored s tn (cf_manual_edge_id c) = Some m \<and> is_manual m \<and> stored s tn (cf_discovered_edge_id c) = Some d \<and> \<not> is_manual d)"

definition tables_ok :: "dep_env \<Rightarrow> dep_state \<Rightarrow> bool" where
  "tables_ok env s \<longleftrightarrow> edge_inv s \<and> conflict_rows_ok (dep_conflicts s)
     \<and> (\<forall>v \<in> set (dep_versions s). \<exists>k < dep_draws s. vr_id v = ''hist-'' @ take 12 (dv_uuid_hex env k))
     \<and> (\<forall>r \<in> set (dep_conflicts s). \<exists>k < dep_draws s. cf_conflict_id (cx_conflict r) = ''conf-'' @ take 10 (dv_uuid_hex env k))
     \<and> (\<forall>r \<in> set (dep_edges s). length (ref_entity_id (source_ref (cw_edge r))) \<le> 128
          \<and> length (ref_entity_id (target_ref (cw_edge r))) \<le> 128)
     \<and> (\<forall>tn i c. conflict_at s tn i = Some c \<longrightarrow> sides_stored s tn c)"

definition open_conflict :: "dep_state \<Rightarrow> string \<Rightarrow> curated_edge \<Rightarrow> bool" where
  "open_conflict s tn e \<longleftrightarrow> (\<exists>c. ce_conflict_id e = Some (cf_conflict_id c) \<and> conflict_at s tn (cf_conflict_id c) = Some c
     \<and> \<not> cf_is_resolved c \<and> edge_id e \<in> {cf_manual_edge_id c, cf_discovered_edge_id c})"

definition conflicts_open :: "dep_state \<Rightarrow> bool" where
  "conflicts_open s \<longleftrightarrow> (\<forall>tn i e. stored s tn i = Some e \<and> edge_status e = CONFLICT \<longrightarrow> open_conflict s tn e)"

lemma uniq_le: "uniq env N \<Longrightarrow> M \<le> N \<Longrightarrow> uniq env M"
  unfolding uniq_def by (erule inj_on_subset) auto

lemma uniq_eq:
  assumes "uniq env N" "j < N" "k < N" "take n (dv_uuid_hex env j) = take n (dv_uuid_hex env k)" "10 \<le> n"
  shows "j = k"
proof -
  have "take 10 (take n (dv_uuid_hex env j)) = take 10 (take n (dv_uuid_hex env k))" using assms(4) by simp
  then have "take 10 (dv_uuid_hex env j) = take 10 (dv_uuid_hex env k)" using assms(5) by (simp add: min_absorb1)
  then show ?thesis using assms(1-3) unfolding uniq_def by (auto dest: inj_onD)
qed

lemma tables_draws:
  assumes "tables_ok env s" and "draws_only s s'"
  shows "tables_ok env s' \<and> (conflicts_open s' = conflicts_open s)"
proof -
  obtain n where n: "dep_draws s \<le> n" "s' = s\<lparr>dep_draws := n\<rparr>" using assms(2) by (auto simp: draws_only_def)
  then show ?thesis
    using assms(1) unfolding tables_ok_def conflicts_open_def open_conflict_def sides_stored_def
    by (simp add: edge_inv_def) (meson less_le_trans)
qed

lemma save_tables:
  assumes ok: "tables_ok env s" and e: "edge_tenant_id e = tn" "labelled e" and save: "save_edge env tn e s = (Inr x, s')"
  shows "tables_ok env s' \<and> dep_conflicts s' = dep_conflicts s \<and> dep_draws s \<le> dep_draws s'
    \<and> (\<forall>tn' i. stored s' tn' i = (if i = edge_id e \<and> tn' = tn then Some e else stored s tn' i))"
proof -
  have inv: "edge_inv s" and rows: "edge_rows_ok (dep_edges s)" using ok by (simp_all add: tables_ok_def edge_inv_def)
  have val: "edge_ok (dep_edges s) tn e" "stored s' tn' j = (if j = edge_id e \<and> tn' = tn then Some e else stored s tn' j)"
      "dep_conflicts s' = dep_conflicts s" for tn' j
    using save_edge_value[OF save rows e(1), of tn' j] by simp_all
  have put: "dep_edges s' = put_edge_row (dep_edges s) tn e" and fits: "edge_fits (dep_edges s) tn e"
      and dr: "dep_draws s \<le> dep_draws s'" using save by (auto elim: save_edge_cases)
  have inv': "edge_inv s'" by (rule put_labelled[OF inv val(1) e(2) put])
  have "\<exists>k < dep_draws s'. vr_id v = ''hist-'' @ take 12 (dv_uuid_hex env k)" if "v \<in> set (dep_versions s')" for v
    using save
  proof (cases rule: save_edge_cases)
    case created
    then show ?thesis using ok that by (simp add: tables_ok_def)
  next
    case (updated old)
    then consider "v \<in> set (dep_versions s)" | "v = snapshot env tn old (dep_draws s)" using \<open>v \<in> set (dep_versions s')\<close> by auto
    then show ?thesis
    proof cases
      case 1
      then obtain k where "k < dep_draws s" "vr_id v = ''hist-'' @ take 12 (dv_uuid_hex env k)" using ok by (auto simp: tables_ok_def)
      then show ?thesis using updated by (intro exI[of _ k]) simp
    next
      case 2
      then show ?thesis using updated by (intro exI[of _ "dep_draws s"]) (simp add: snapshot_def)
    qed
  qed simp
  moreover have "\<exists>k < dep_draws s'. cf_conflict_id (cx_conflict r) = ''conf-'' @ take 10 (dv_uuid_hex env k)"
    if "r \<in> set (dep_conflicts s')" for r
    using ok that val(3) dr unfolding tables_ok_def by (metis less_le_trans)
  moreover have "length (ref_entity_id (source_ref (cw_edge r))) \<le> 128 \<and> length (ref_entity_id (target_ref (cw_edge r))) \<le> 128"
    if "r \<in> set (dep_edges s')" for r
    using that put_edge_row_set[OF rows val(1)] fits ok unfolding put by (auto simp: edge_fits_def tables_ok_def)
  moreover have "sides_stored s' tn' c" if "conflict_at s' tn' i = Some c" for tn' i c
  proof -
    have "sides_stored s tn' c" using ok that val(3) by (simp add: tables_ok_def)
    then obtain m d where md: "stored s tn' (cf_manual_edge_id c) = Some m" "is_manual m"
        "stored s tn' (cf_discovered_edge_id c) = Some d" "\<not> is_manual d" by (auto simp: sides_stored_def)
    have "manual_id (cf_manual_edge_id c)" "\<not> manual_id (cf_discovered_edge_id c)"
      using edge_inv_stored[OF inv md(1)] edge_inv_stored[OF inv md(3)] md(2,4) by (auto simp: labelled_def)
    then show ?thesis using md val(2) e(2) by (auto simp: sides_stored_def labelled_def)
  qed
  ultimately show ?thesis using inv' ok val dr by (simp add: tables_ok_def)
qed

text \<open>A stored edge can be saved again.\<close>

lemma save_again:
  assumes ok: "tables_ok env s" and st: "stored s tn (edge_id e) = Some old" and e: "edge_tenant_id e = tn"
    and ends: "source_ref e = source_ref old" "target_ref e = target_ref old" and u: "uniq env (dep_draws s + 2)"
  shows "\<exists>s'. save_edge env tn e s = (Inr e, s') \<and> dep_draws s' = dep_draws s + 2"
proof -
  have rows: "edge_rows_ok (dep_edges s)" using ok by (simp add: tables_ok_def edge_inv_def)
  obtain r where r: "r \<in> set (dep_edges s)" "cw_edge r = old" using st by (auto elim: get_edge_rowE)
  then have fits: "edge_fits (dep_edges s) tn e"
    using stored_edge_ok[OF rows st e] ends ok by (auto simp: edge_fits_def edge_ok_def list_all_iff tables_ok_def)
  have "vr_id (snapshot env tn old (dep_draws s)) \<notin> vr_id ` set (dep_versions s)"
  proof
    assume "vr_id (snapshot env tn old (dep_draws s)) \<in> vr_id ` set (dep_versions s)"
    then obtain k where "k < dep_draws s" "''hist-'' @ take 12 (dv_uuid_hex env (dep_draws s)) = ''hist-'' @ take 12 (dv_uuid_hex env k)"
      using ok unfolding tables_ok_def by (auto simp: snapshot_def)
    then show False using uniq_eq[OF u, of "dep_draws s" k 12] by simp
  qed
  moreover have "edge_id old = edge_id e" using st by (auto elim: get_edge_rowE)
  ultimately have "save_edge env tn e s = (Inr e, s\<lparr>dep_edges := put_edge_row (dep_edges s) tn e,
      dep_versions := dep_versions s @ [snapshot env tn old (dep_draws s)], dep_draws := dep_draws s + 2\<rparr>)"
    using fits st by (simp add: save_edge_def write_edge_def snapshot_def)
  then show ?thesis by simp
qed

lemma save_stored_draws:
  "stored s tn (edge_id e) = Some old \<Longrightarrow> save_edge env tn e s = (r, s') \<Longrightarrow> dep_draws s' = dep_draws s + 2"
  by (auto simp: save_edge_def write_edge_def split: if_splits)

section \<open>Single saves\<close>

definition ticks :: "dep_state \<Rightarrow> dep_state \<Rightarrow> bool" where
  "ticks s s' \<longleftrightarrow> (edge_inv s \<longrightarrow> edge_inv s' \<and> dep_draws s \<le> dep_draws s')"

lemma save_ticks:
  assumes "edge_inv s" "edge_tenant_id e = tn" "labelled e"
  shows "ticks s (snd (save_edge env tn e s))"
proof -
  obtain r s' where save: "save_edge env tn e s = (r, s')" by (cases "save_edge env tn e s")
  then have "dep_draws s \<le> dep_draws s'" by (auto elim: save_edge_cases)
  moreover have "edge_inv s'" using labels.edge_saved[OF assms, of env] save assms(1) by (simp add: evolves_def)
  ultimately show ?thesis using save by (simp add: ticks_def)
qed

interpretation ticking: service_frame ticks "\<lambda>_ _. True" env tn for env tn
proof (unfold_locales)
  show "ticks s (snd (save_edge env tn e s))" if "edge_inv s" "edge_tenant_id e = tn" "labelled e" for s e
    using that by (rule save_ticks)
  show "ticks s s'" if "draws_only s s'" for s s' using that by (auto simp: ticks_def draws_only_def edge_inv_def)
next
  show "ticks s (s\<lparr>dep_audits := a\<rparr>)" for s a by (simp add: ticks_def edge_inv_def)
  show "ticks s (snd (save_conflict tn c s))" for s c by (simp add: ticks_def edge_inv_def save_conflict_def)
  show "ticks s s''" if "ticks s s'" "ticks s' s''" for s s' s'' using that by (auto simp: ticks_def)
qed (simp_all add: ticks_def)

definition settled :: "dep_env \<Rightarrow> dep_state \<Rightarrow> dep_state \<Rightarrow> bool" where
  "settled env s s' \<longleftrightarrow> ticks s s'
     \<and> (tables_ok env s \<and> conflicts_open s \<and> uniq env (dep_draws s') \<longrightarrow> tables_ok env s' \<and> conflicts_open s')"

definition calm_change :: "curated_edge \<Rightarrow> curated_edge \<Rightarrow> bool" where
  "calm_change old e \<longleftrightarrow> (edge_status e = CONFLICT \<longrightarrow> edge_status old = CONFLICT \<and> ce_conflict_id e = ce_conflict_id old)"

definition calm_addition :: "curated_edge \<Rightarrow> bool" where
  "calm_addition e \<longleftrightarrow> edge_status e \<noteq> CONFLICT"

lemma failed_save_draws: "save_edge env tn e s = (Inl err, s') \<Longrightarrow> draws_only s s'"
  by (auto elim: save_edge_cases simp: draws_only_def)

lemma draws_settled: "draws_only s s' \<Longrightarrow> settled env s s'"
  using tables_draws[of env s s'] ticking.drawn[of s s'] unfolding settled_def by blast

lemma calm_save:
  assumes inv: "edge_inv s" and e: "edge_tenant_id e = tn" "labelled e"
    and change: "\<And>old. stored s tn (edge_id e) = Some old \<Longrightarrow> calm_change old e"
    and addition: "stored s tn (edge_id e) = None \<Longrightarrow> calm_addition e"
  shows "settled env s (snd (save_edge env tn e s))"
proof -
  obtain r s' where save: "save_edge env tn e s = (r, s')" by (cases "save_edge env tn e s")
  show ?thesis
  proof (cases r)
    case (Inl err)
    then show ?thesis using failed_save_draws draws_settled save by simp
  next
    case (Inr x)
    have "conflicts_open s'" if ok: "tables_ok env s" and op: "conflicts_open s"
      unfolding conflicts_open_def
    proof (intro allI impI, elim conjE)
      fix tn' i e' assume st: "stored s' tn' i = Some e'" and co: "edge_status e' = CONFLICT"
      have s': "dep_conflicts s' = dep_conflicts s" "stored s' tn' i = (if i = edge_id e \<and> tn' = tn then Some e else stored s tn' i)"
        using save_tables[OF ok e save[unfolded Inr]] by simp_all
      show "open_conflict s' tn' e'"
      proof (cases "i = edge_id e \<and> tn' = tn")
        case False
        then have "open_conflict s tn' e'" using op st co s' unfolding conflicts_open_def by metis
        then show ?thesis using s' by (simp add: open_conflict_def)
      next
        case True
        with st s' have e': "e' = e" by simp
        obtain old where old: "stored s tn (edge_id e) = Some old" using addition co e' by (auto simp: calm_addition_def)
        then have "edge_status old = CONFLICT" "ce_conflict_id e = ce_conflict_id old" "edge_id old = edge_id e"
          using change[OF old] co e' edge_inv_stored[OF inv old] by (auto simp: calm_change_def)
        moreover from this op old have "open_conflict s tn old" by (simp add: conflicts_open_def)
        ultimately show ?thesis using s' e' True by (simp add: open_conflict_def)
      qed
    qed
    then show ?thesis
      using save_tables[OF _ e save[unfolded Inr]] save_ticks[OF inv e, of env] save by (auto simp: settled_def)
  qed
qed

section \<open>Surfacing\<close>

text \<open>What surfacing a conflict leaves: nothing but readings when the candidate cannot be saved, otherwise all three saves.\<close>

definition three_saves :: "dep_env \<Rightarrow> string \<Rightarrow> curated_edge \<Rightarrow> curated_edge \<Rightarrow> edge_conflict \<Rightarrow> dep_state \<Rightarrow> dep_state \<Rightarrow> bool" where
  "three_saves env tn m d c s s' \<longleftrightarrow>
     (\<exists>s2. tables_ok env s2 \<and> dep_conflicts s2 = dep_conflicts s \<and> dep_draws s + 2 \<le> dep_draws s2
        \<and> s' = s2\<lparr>dep_conflicts := put_conflict_row (dep_conflicts s2) tn c\<rparr>
        \<and> (\<forall>tn' i. stored s2 tn' i = (if tn' = tn \<and> i = edge_id m then Some m
              else if tn' = tn \<and> i = edge_id d then Some d else stored s tn' i)))"

definition new_conflict_id :: "dep_env \<Rightarrow> nat \<Rightarrow> string" where
  "new_conflict_id env k = ''conf-'' @ take 10 (dv_uuid_hex env k)"

lemma new_conflict_id_new:
  assumes "tables_ok env s" and "uniq env N" and "dep_draws s \<le> k" and "k < N"
  shows "\<forall>r \<in> set (dep_conflicts s). cf_conflict_id (cx_conflict r) \<noteq> new_conflict_id env k"
proof
  fix r assume "r \<in> set (dep_conflicts s)"
  then obtain j where j: "j < dep_draws s" "cf_conflict_id (cx_conflict r) = ''conf-'' @ take 10 (dv_uuid_hex env j)"
    using assms(1) unfolding tables_ok_def by blast
  have "take 10 (dv_uuid_hex env j) \<noteq> take 10 (dv_uuid_hex env k)"
    using uniq_eq[OF assms(2), of j k 10] j(1) assms(3,4) by auto
  with j show "cf_conflict_id (cx_conflict r) \<noteq> new_conflict_id env k" by (simp add: new_conflict_id_def)
qed

lemma surface_outcome:
  assumes d: "candidate_ok tn d" and m: "is_manual m" and st: "stored s tn (edge_id m) = Some m"
    and ok: "tables_ok env s" and u: "uniq env (dep_draws (snd (surface_conflict env tn m d reason s)))"
  defines "cid \<equiv> new_conflict_id env (Suc (dep_draws s))" and "now \<equiv> dv_clock env (dep_draws s)"
  shows "draws_only s (snd (surface_conflict env tn m d reason s))
    \<or> three_saves env tn (flag_manual cid m) (flag_discovered cid now d)
        (surfaced tn cid now (flag_manual cid m) (flag_discovered cid now d) reason) s (snd (surface_conflict env tn m d reason s))"
proof -
  let ?s' = "snd (surface_conflict env tn m d reason s)" and ?s0 = "s\<lparr>dep_draws := Suc (Suc (dep_draws s))\<rparr>"
  let ?d = "flag_discovered cid now d" and ?m = "flag_manual cid m"
  let ?c = "surfaced tn cid now ?m ?d reason"
  have inv: "edge_inv s" using ok by (simp add: tables_ok_def)
  have ml: "labelled ?m" "edge_tenant_id ?m = tn" "labelled m"
    using edge_inv_stored[OF inv st] by (simp_all add: labelled_def is_manual_def)
  have dl: "labelled ?d" "edge_tenant_id ?d = tn" "edge_id ?d = edge_id d"
    using d by (auto simp: candidate_ok_def labelled_def is_manual_def)
  have ne: "edge_id m \<noteq> edge_id d" using d m ml(3) by (auto simp: candidate_ok_def labelled_def)
  have draws0: "draws_only s ?s0" unfolding draws_only_def by (rule exI[of _ "Suc (Suc (dep_draws s))"]) simp
  have ok0: "tables_ok env ?s0" using tables_draws[OF ok draws0] by simp
  have run: "surface_conflict env tn m d reason s =
      eff_bind (save_edge env tn ?d) (\<lambda>sd. eff_bind (save_edge env tn ?m) (\<lambda>_.
      eff_bind (save_conflict tn (surfaced tn cid now ?m sd reason)) (\<lambda>conflict. eff_return (sd, Some conflict)))) ?s0"
    by (simp add: surface_conflict_def Let_def cid_def now_def new_conflict_id_def)
  obtain r s1 where save: "save_edge env tn ?d ?s0 = (r, s1)" by (cases "save_edge env tn ?d ?s0")
  show ?thesis
  proof (cases r)
    case (Inl err)
    then have "?s' = s1" using run save by (simp add: eff_bind_def)
    then show ?thesis using drawing.R_trans[OF draws0 failed_save_draws] save Inl by simp
  next
    case (Inr x)
    then have "x = ?d" using save by (auto elim: save_edge_cases)
    with save Inr have save1: "save_edge env tn ?d ?s0 = (Inr ?d, s1)" by simp
    note t1 = save_tables[OF ok0 dl(2,1) save1]
    have st1: "stored s1 tn (edge_id ?m) = Some m" using t1 st ne dl(3) by simp
    obtain r2 s2 where save2: "save_edge env tn ?m s1 = (r2, s2)" by (cases "save_edge env tn ?m s1")
    have d2: "dep_draws s2 = dep_draws s1 + 2" by (rule save_stored_draws[OF st1 save2])
    have "dep_draws ?s' = dep_draws s2" using run save1 save2 by (cases r2) (auto simp: eff_bind_def save_conflict_def)
    with d2 u have u2: "uniq env (dep_draws s1 + 2)" by simp
    then have r2: "r2 = Inr ?m" using save_again[OF conjunct1[OF t1] st1 ml(2)] save2 by simp
    note t2 = save_tables[OF conjunct1[OF t1] ml(2,1) save2[unfolded r2]]
    have same: "dep_conflicts s2 = dep_conflicts s" using t1 t2 by simp
    have "dep_draws s + 2 \<le> dep_draws s1" using t1 by simp
    then have "\<forall>r \<in> set (dep_conflicts s). cf_conflict_id (cx_conflict r) \<noteq> cid"
      using new_conflict_id_new[OF ok u2, of "Suc (dep_draws s)"] by (simp add: cid_def)
    then have "?s' = s2\<lparr>dep_conflicts := put_conflict_row (dep_conflicts s2) tn ?c\<rparr>"
      using run save1 save2 r2 same by (auto simp: eff_bind_def save_conflict_def list_ex_iff surfaced_def)
    moreover have "stored s2 tn' i = (if tn' = tn \<and> i = edge_id ?m then Some ?m
        else if tn' = tn \<and> i = edge_id ?d then Some ?d else stored s tn' i)" for tn' i
      using t1 t2 dl(3) ne by simp
    ultimately have "three_saves env tn ?m ?d ?c s ?s'"
      unfolding three_saves_def using t2 same t1 by (intro exI[of _ s2]) simp
    then show ?thesis ..
  qed
qed

lemma three_saves_tables:
  assumes saves: "three_saves env tn m d c s s'" and ok: "tables_ok env s"
    and md: "is_manual m" "\<not> is_manual d" "edge_id m \<noteq> edge_id d"
    and c: "cf_manual_edge_id c = edge_id m" "cf_discovered_edge_id c = edge_id d"
      "cf_conflict_id c = new_conflict_id env (Suc (dep_draws s))"
    and new: "\<forall>r \<in> set (dep_conflicts s). cf_conflict_id (cx_conflict r) \<noteq> cf_conflict_id c"
  shows "tables_ok env s' \<and> (\<forall>tn' i. conflict_at s' tn' i = (if i = cf_conflict_id c \<and> tn' = tn then Some c else conflict_at s tn' i))
    \<and> (\<forall>tn' i. stored s' tn' i = (if tn' = tn \<and> i = edge_id m then Some m
         else if tn' = tn \<and> i = edge_id d then Some d else stored s tn' i))"
proof -
  obtain s2 where s2: "tables_ok env s2" "dep_conflicts s2 = dep_conflicts s" "dep_draws s + 2 \<le> dep_draws s2"
      "s' = s2\<lparr>dep_conflicts := put_conflict_row (dep_conflicts s2) tn c\<rparr>"
      "stored s2 tn' i = (if tn' = tn \<and> i = edge_id m then Some m
         else if tn' = tn \<and> i = edge_id d then Some d else stored s tn' i)" for tn' i
    using saves unfolding three_saves_def by blast
  have crows: "conflict_rows_ok (dep_conflicts s2)" using s2(1) by (simp add: tables_ok_def)
  have cok: "conflict_ok (dep_conflicts s2) tn c" using new s2(2) by (simp add: conflict_ok_def)
  have conf: "conflict_at s' tn' i = (if i = cf_conflict_id c \<and> tn' = tn then Some c else conflict_at s tn' i)" for tn' i
    using conflicts.get_save[OF crows cok] s2(2,4) by simp
  have ids: "\<exists>k < dep_draws s'. cf_conflict_id (cx_conflict r) = ''conf-'' @ take 10 (dv_uuid_hex env k)"
    if "r \<in> set (dep_conflicts s')" for r
  proof -
    have "r \<in> set (dep_conflicts s2) \<or> cx_conflict r = c" using that put_conflict_row_set[OF crows cok] s2(4) by auto
    then show ?thesis
    proof
      assume "r \<in> set (dep_conflicts s2)"
      then show ?thesis using s2(1,4) by (simp add: tables_ok_def)
    next
      assume "cx_conflict r = c"
      then show ?thesis using s2(3,4) c(3) by (intro exI[of _ "Suc (dep_draws s)"]) (simp add: new_conflict_id_def)
    qed
  qed
  have sides: "sides_stored s' tn' c'" if "conflict_at s' tn' i = Some c'" for tn' i c'
  proof (cases "i = cf_conflict_id c \<and> tn' = tn")
    case True
    then have "c' = c" using that conf[of tn' i] by simp
    then show ?thesis using True s2(4,5) md c by (simp add: sides_stored_def)
  next
    case False
    then have "conflict_at s2 tn' i = Some c'" using that conf s2(2) by metis
    then have "sides_stored s2 tn' c'" using s2(1) by (simp add: tables_ok_def)
    then show ?thesis using s2(4) by (simp add: sides_stored_def)
  qed
  have "tables_ok env s'"
    using s2(1) ids sides conflicts.valid_save[OF crows cok] s2(4) unfolding tables_ok_def by (simp add: edge_inv_def)
  then show ?thesis using conf s2(4,5) by simp
qed

lemma surface_settles:
  assumes d: "candidate_ok tn d" and m: "is_manual m" and st: "stored s tn (edge_id m) = Some m"
  shows "settled env s (snd (surface_conflict env tn m d reason s))"
proof -
  let ?s' = "snd (surface_conflict env tn m d reason s)"
  let ?cid = "new_conflict_id env (Suc (dep_draws s))" and ?now = "dv_clock env (dep_draws s)"
  let ?m = "flag_manual ?cid m" and ?d = "flag_discovered ?cid ?now d"
  let ?c = "surfaced tn ?cid ?now ?m ?d reason"
  have "tables_ok env ?s' \<and> conflicts_open ?s'"
    if ok: "tables_ok env s" and op: "conflicts_open s" and u: "uniq env (dep_draws ?s')"
    using surface_outcome[OF d m st ok u]
  proof
    assume "draws_only s ?s'"
    then show ?thesis using tables_draws[OF ok] op by simp
  next
    assume saves: "three_saves env tn ?m ?d ?c s ?s'"
    then have "dep_draws s + 2 \<le> dep_draws ?s'" by (auto simp: three_saves_def)
    then have new: "\<forall>r \<in> set (dep_conflicts s). cf_conflict_id (cx_conflict r) \<noteq> ?cid"
      by (intro new_conflict_id_new[OF ok u]) simp_all
    have inv: "edge_inv s" using ok by (simp add: tables_ok_def)
    have ne: "edge_id m \<noteq> edge_id d" using d m edge_inv_stored[OF inv st] by (auto simp: candidate_ok_def labelled_def)
    have "is_manual ?m" "\<not> is_manual ?d" using d m by (simp_all add: candidate_ok_def is_manual_def)
    then have out: "tables_ok env ?s'"
        "conflict_at ?s' tn' i = (if i = ?cid \<and> tn' = tn then Some ?c else conflict_at s tn' i)"
        "stored ?s' tn' i = (if tn' = tn \<and> i = edge_id m then Some ?m
           else if tn' = tn \<and> i = edge_id d then Some ?d else stored s tn' i)" for tn' i
      using three_saves_tables[OF saves ok] new ne by (simp_all add: surfaced_def)
    have "open_conflict ?s' tn' e" if e: "stored ?s' tn' i = Some e" "edge_status e = CONFLICT" for tn' i e
    proof (cases "tn' = tn \<and> (i = edge_id m \<or> i = edge_id d)")
      case True
      then have "ce_conflict_id e = Some ?cid \<and> edge_id e \<in> {edge_id m, edge_id d}"
        using e(1) out(3)[of tn' i] by (auto split: if_splits)
      then show ?thesis using out(2)[of tn ?cid] True unfolding open_conflict_def by (intro exI[of _ ?c]) (simp add: surfaced_def)
    next
      case False
      then have "open_conflict s tn' e" using e out(3)[of tn' i] op unfolding conflicts_open_def by metis
      then obtain c where c: "ce_conflict_id e = Some (cf_conflict_id c)" "conflict_at s tn' (cf_conflict_id c) = Some c"
          "\<not> cf_is_resolved c" "edge_id e \<in> {cf_manual_edge_id c, cf_discovered_edge_id c}" by (auto simp: open_conflict_def)
      then have "cf_conflict_id c \<noteq> ?cid" using new by (auto elim!: get_conflict_rowE)
      then have "conflict_at ?s' tn' (cf_conflict_id c) = Some c" using out(2) c(2) by simp
      then show ?thesis using c unfolding open_conflict_def by blast
    qed
    with out(1) show ?thesis unfolding conflicts_open_def by blast
  qed
  then show ?thesis using ticking.surfacing[OF d m st] by (simp add: settled_def)
qed

section \<open>Resolution\<close>

definition resolved_record :: "conflict_resolve_request \<Rightarrow> string \<Rightarrow> int \<Rightarrow> edge_conflict \<Rightarrow> edge_conflict" where
  "resolved_record req actor now c =
     c\<lparr>cf_is_resolved := True, cf_resolved_by := Some actor, cf_resolved_at := Some now,
       cf_resolution_action := Some (cq_resolution_action req), cf_resolution_notes := Some (cq_resolution_notes req)\<rparr>"

lemma resolved_record_simps [simp]:
  "cf_conflict_id (resolved_record req actor now c) = cf_conflict_id c" "cf_is_resolved (resolved_record req actor now c)"
  "cf_manual_edge_id (resolved_record req actor now c) = cf_manual_edge_id c"
  "cf_discovered_edge_id (resolved_record req actor now c) = cf_discovered_edge_id c"
  by (simp_all add: resolved_record_def)

text \<open>The state a resolution leaves.\<close>

definition resolution_of :: "dep_env \<Rightarrow> string \<Rightarrow> edge_conflict \<Rightarrow> conflict_resolve_request \<Rightarrow> string \<Rightarrow> int \<Rightarrow> dep_state \<Rightarrow> dep_state \<Rightarrow> bool" where
  "resolution_of env tn c req actor now s s' \<longleftrightarrow> tables_ok env s'
     \<and> (\<exists>m d. stored s tn (cf_manual_edge_id c) = Some m \<and> is_manual m \<and> stored s tn (cf_discovered_edge_id c) = Some d \<and> \<not> is_manual d
        \<and> (\<forall>tn' i. stored s' tn' i = (if tn' = tn \<and> i = edge_id m then Some (resolved_manual req actor now m)
             else if tn' = tn \<and> i = edge_id d then Some (resolved_discovered req actor now d) else stored s tn' i)))
     \<and> (\<forall>tn' i. conflict_at s' tn' i = (if i = cf_conflict_id c \<and> tn' = tn then Some (resolved_record req actor now c) else conflict_at s tn' i))"

lemma saved_conflict_tables:
  assumes ok: "tables_ok env s" and c: "conflict_at s tn (cf_conflict_id c') = Some c"
    and sides: "cf_manual_edge_id c' = cf_manual_edge_id c" "cf_discovered_edge_id c' = cf_discovered_edge_id c"
  shows "\<exists>s'. save_conflict tn c' s = (Inr c', s') \<and> tables_ok env s' \<and> dep_draws s' = dep_draws s \<and> dep_edges s' = dep_edges s
    \<and> (\<forall>tn' i. conflict_at s' tn' i = (if i = cf_conflict_id c' \<and> tn' = tn then Some c' else conflict_at s tn' i))"
proof -
  have crows: "conflict_rows_ok (dep_conflicts s)" using ok by (simp add: tables_ok_def)
  obtain r where r: "r \<in> set (dep_conflicts s)" "cx_conflict r = c" "cf_conflict_id c = cf_conflict_id c'" "cx_tenant_id r = tn"
    using c by (rule get_conflict_rowE)
  have cok: "conflict_ok (dep_conflicts s) tn c'"
    unfolding conflict_ok_def using conflict_row_unique[OF crows _ r(1)] r by metis
  let ?s' = "s\<lparr>dep_conflicts := put_conflict_row (dep_conflicts s) tn c'\<rparr>"
  have conf: "conflict_at ?s' tn' i = (if i = cf_conflict_id c' \<and> tn' = tn then Some c' else conflict_at s tn' i)" for tn' i
    using conflicts.get_save[OF crows cok] by simp
  have "\<exists>k < dep_draws s. cf_conflict_id (cx_conflict x) = ''conf-'' @ take 10 (dv_uuid_hex env k)"
    if "x \<in> set (dep_conflicts ?s')" for x
  proof -
    have "x \<in> set (dep_conflicts s) \<or> cf_conflict_id (cx_conflict x) = cf_conflict_id (cx_conflict r)"
      using that put_conflict_row_set[OF crows cok] r by auto
    then show ?thesis using ok r(1) unfolding tables_ok_def by metis
  qed
  moreover have "sides_stored ?s' tn' x" if "conflict_at ?s' tn' i = Some x" for tn' i x
  proof (cases "i = cf_conflict_id c' \<and> tn' = tn")
    case True
    moreover from this that conf have "x = c'" by (metis option.inject)
    moreover have "sides_stored s tn c" using ok c by (simp add: tables_ok_def)
    ultimately show ?thesis using sides by (simp add: sides_stored_def)
  next
    case False
    then have "conflict_at s tn' i = Some x" using that conf by metis
    then have "sides_stored s tn' x" using ok by (simp add: tables_ok_def)
    then show ?thesis by (simp add: sides_stored_def)
  qed
  ultimately have "tables_ok env ?s'"
    using ok conflicts.valid_save[OF crows cok] unfolding tables_ok_def by (simp add: edge_inv_def)
  moreover have "save_conflict tn c' s = (Inr c', ?s')"
    using cok by (auto simp: save_conflict_def list_ex_iff conflict_ok_def)
  ultimately show ?thesis using conf by (intro exI[of _ ?s']) simp
qed

lemma resolve_outcome:
  assumes ok: "tables_ok env s" and c: "conflict_at s tn i = Some c" "\<not> cf_is_resolved c"
    and u: "uniq env (dep_draws (snd (resolve_conflict env tn i req actor s)))"
  shows "\<exists>s'. resolve_conflict env tn i req actor s = (Inr (resolved_record req actor (dv_clock env (dep_draws s)) c), s')
    \<and> resolution_of env tn c req actor (dv_clock env (dep_draws s)) s s'"
proof -
  let ?now = "dv_clock env (dep_draws s)" and ?s1 = "s\<lparr>dep_draws := Suc (dep_draws s)\<rparr>"
  let ?c = "resolved_record req actor ?now c"
  have inv: "edge_inv s" using ok by (simp add: tables_ok_def)
  have ci: "cf_conflict_id c = i" using c(1) by (auto elim: get_conflict_rowE)
  obtain m d where md: "stored s tn (cf_manual_edge_id c) = Some m" "is_manual m" "stored s tn (cf_discovered_edge_id c) = Some d"
      "\<not> is_manual d" using ok c(1) unfolding tables_ok_def sides_stored_def by blast
  let ?m = "resolved_manual req actor ?now m" and ?d = "resolved_discovered req actor ?now d"
  note ml = edge_inv_stored[OF inv md(1)] and dl = edge_inv_stored[OF inv md(3)]
  have ne: "edge_id m \<noteq> edge_id d" using ml dl md(2,4) by (auto simp: labelled_def)
  have lab: "labelled ?m" "labelled ?d" using ml dl by (simp_all add: labelled_def is_manual_def)
  have "draws_only s ?s1" unfolding draws_only_def by (rule exI[of _ "Suc (dep_draws s)"]) simp
  then have ok1: "tables_ok env ?s1" using tables_draws[OF ok] by blast
  have run: "resolve_conflict env tn i req actor s =
      eff_bind (save_edge env tn ?m) (\<lambda>_. eff_bind (eff_bind (save_edge env tn ?d) (\<lambda>_. eff_return ())) (\<lambda>_. save_conflict tn ?c)) ?s1"
    using c md by (simp add: resolve_conflict_def resolved_record_def)
  have st1: "stored ?s1 tn (edge_id ?m) = Some m" using md(1) ml by simp
  obtain r2 s2 where save1: "save_edge env tn ?m ?s1 = (r2, s2)" by (cases "save_edge env tn ?m ?s1")
  obtain r3 s3 where save2: "save_edge env tn ?d s2 = (r3, s3)" by (cases "save_edge env tn ?d s2")
  have d2: "dep_draws s2 = dep_draws ?s1 + 2" by (rule save_stored_draws[OF st1 save1])
  have "dep_draws s2 \<le> dep_draws s3" using save2 by (auto elim: save_edge_cases)
  then have "dep_draws s2 \<le> dep_draws (snd (resolve_conflict env tn i req actor s))"
    unfolding run using save1 save2 by (cases r2; cases r3) (simp_all add: eff_bind_def save_conflict_def)
  then have "r2 = Inr ?m" using save_again[OF ok1 st1] uniq_le[OF u] d2 ml save1 by fastforce
  with save1 have save1: "save_edge env tn ?m ?s1 = (Inr ?m, s2)" by simp
  note t1 = save_tables[OF ok1 _ lab(1) save1]
  have st2: "stored s2 tn (edge_id ?d) = Some d" using t1 ml md(3) dl ne by simp
  have "dep_draws (snd (resolve_conflict env tn i req actor s)) = dep_draws s3"
    unfolding run using save1 save2 by (cases r3) (simp_all add: eff_bind_def save_conflict_def)
  then have "r3 = Inr ?d" using save_again[OF _ st2, of env] u save_stored_draws[OF st2 save2] t1 ml dl save2 by fastforce
  with save2 have save2: "save_edge env tn ?d s2 = (Inr ?d, s3)" by simp
  have "tables_ok env s2" using t1 ml by simp
  note t2 = save_tables[OF this _ lab(2) save2]
  have edges: "stored s3 tn' j = (if tn' = tn \<and> j = edge_id m then Some ?m else if tn' = tn \<and> j = edge_id d then Some ?d
      else stored s tn' j)" for tn' j
    using t1 t2 ml dl ne by simp
  have same: "dep_conflicts s3 = dep_conflicts s" using t1 t2 ml dl by simp
  have "tables_ok env s3" using t2 dl by simp
  from saved_conflict_tables[OF this, of tn ?c c] obtain s4 where s4: "save_conflict tn ?c s3 = (Inr ?c, s4)" "tables_ok env s4"
      "dep_edges s4 = dep_edges s3"
      "\<forall>tn' j. conflict_at s4 tn' j = (if j = cf_conflict_id c \<and> tn' = tn then Some ?c else conflict_at s3 tn' j)"
    using c same ci by auto
  have "resolve_conflict env tn i req actor s = (Inr ?c, s4)"
    unfolding run using save1 save2 s4(1) by (simp add: eff_bind_def)
  moreover have "resolution_of env tn c req actor ?now s s4"
    unfolding resolution_of_def using md s4(2-4) edges same by auto
  ultimately show ?thesis by blast
qed

lemma resolved_statuses:
  "edge_status (resolved_manual req actor now m) \<noteq> CONFLICT" "edge_status (resolved_discovered req actor now d) \<noteq> CONFLICT"
  by (simp_all add: resolved_manual_def resolved_discovered_def Let_def split: conflict_resolution_action.split)

lemma resolution_keeps_open:
  assumes res: "resolution_of env tn c req actor now s s'" and op: "conflicts_open s" and inv: "edge_inv s"
    and c: "conflict_at s tn (cf_conflict_id c) = Some c"
  shows "conflicts_open s'"
  unfolding conflicts_open_def
proof (intro allI impI, elim conjE)
  fix tn' i e assume st: "stored s' tn' i = Some e" and co: "edge_status e = CONFLICT"
  obtain m d where md: "stored s tn (cf_manual_edge_id c) = Some m" "stored s tn (cf_discovered_edge_id c) = Some d"
      "stored s' tn' i = (if tn' = tn \<and> i = edge_id m then Some (resolved_manual req actor now m)
             else if tn' = tn \<and> i = edge_id d then Some (resolved_discovered req actor now d) else stored s tn' i)"
    using res unfolding resolution_of_def by blast
  have ids: "edge_id m = cf_manual_edge_id c" "edge_id d = cf_discovered_edge_id c"
    using edge_inv_stored[OF inv md(1)] edge_inv_stored[OF inv md(2)] by simp_all
  have other: "\<not> (tn' = tn \<and> (i = edge_id m \<or> i = edge_id d))"
    using st co md(3) resolved_statuses by (auto split: if_splits)
  then have s: "stored s tn' i = Some e" using st md(3) by auto
  then obtain c' where c': "ce_conflict_id e = Some (cf_conflict_id c')" "conflict_at s tn' (cf_conflict_id c') = Some c'"
      "\<not> cf_is_resolved c'" "edge_id e \<in> {cf_manual_edge_id c', cf_discovered_edge_id c'}"
    using op co unfolding conflicts_open_def open_conflict_def by blast
  have "\<not> (cf_conflict_id c' = cf_conflict_id c \<and> tn' = tn)"
    using c c' other ids edge_inv_stored[OF inv s] by auto
  then have "conflict_at s' tn' (cf_conflict_id c') = Some c'" using res c'(2) unfolding resolution_of_def by metis
  then show "open_conflict s' tn' e" using c' unfolding open_conflict_def by blast
qed

lemma resolve_settles: "settled env s (snd (resolve_conflict env tn i req actor s))"
proof -
  let ?s' = "snd (resolve_conflict env tn i req actor s)"
  have "tables_ok env ?s' \<and> conflicts_open ?s'"
    if ok: "tables_ok env s" and op: "conflicts_open s" and u: "uniq env (dep_draws ?s')"
  proof (cases "\<exists>c. conflict_at s tn i = Some c \<and> \<not> cf_is_resolved c")
    case True
    then obtain c where c: "conflict_at s tn i = Some c" "\<not> cf_is_resolved c" by blast
    then have at: "conflict_at s tn (cf_conflict_id c) = Some c" by (auto elim: get_conflict_rowE)
    have inv: "edge_inv s" using ok by (simp add: tables_ok_def)
    obtain now where "resolution_of env tn c req actor now s ?s'" using resolve_outcome[OF ok c u] by auto
    from resolution_keeps_open[OF this op inv at] this show ?thesis unfolding resolution_of_def by blast
  next
    case False
    then have "?s' = s" by (auto simp: resolve_conflict_def split: option.split)
    with ok op show ?thesis by simp
  qed
  then show ?thesis using ticking.resolving by (simp add: settled_def)
qed

lemma tables_inv: "tables_ok env s \<Longrightarrow> edge_inv s"
  by (simp add: tables_ok_def)

lemma audit_same:
  "tables_ok env (s\<lparr>dep_audits := a\<rparr>) = tables_ok env s" "conflicts_open (s\<lparr>dep_audits := a\<rparr>) = conflicts_open s"
  unfolding tables_ok_def conflicts_open_def open_conflict_def sides_stored_def edge_inv_def by simp_all

lemma settled_trans:
  assumes "settled env s s'" and "settled env s' s''"
  shows "settled env s s''"
proof -
  have "ticks s s''" using assms ticking.R_trans unfolding settled_def by blast
  moreover have "tables_ok env s'' \<and> conflicts_open s''"
    if s: "tables_ok env s" "conflicts_open s" and u: "uniq env (dep_draws s'')"
  proof -
    have "edge_inv s'" "dep_draws s' \<le> dep_draws s''" using assms tables_inv[OF s(1)] by (auto simp: settled_def ticks_def)
    then have "uniq env (dep_draws s')" using uniq_le[OF u] by simp
    then show ?thesis using assms s u by (simp add: settled_def)
  qed
  ultimately show ?thesis by (simp add: settled_def)
qed

interpretation settling: commands_frame "settled env" calm_change calm_addition env tn for env tn
proof (unfold_locales)
  show "settled env s s" for s by (simp add: settled_def ticks_def)
  show "settled env s s''" if "settled env s s'" "settled env s' s''" for s s' s''
    using that by (rule settled_trans)
  show "settled env s s'" if "edge_inv s \<Longrightarrow> settled env s s'" for s s'
    using that tables_inv[of env s] unfolding settled_def ticks_def by blast
  show "settled env s s'" if "draws_only s s'" for s s' using that by (rule draws_settled)
  show "settled env s (s\<lparr>dep_audits := a\<rparr>)" for s a
    unfolding settled_def ticks_def by (simp add: audit_same(1,2) edge_inv_def)
  show "settled env s (snd (save_edge env tn e s))"
    if "edge_inv s" "edge_tenant_id e = tn" "labelled e" "\<And>old. stored s tn (edge_id e) = Some old \<Longrightarrow> calm_change old e"
      "stored s tn (edge_id e) = None \<Longrightarrow> calm_addition e" for s e
    using that by (rule calm_save)
  show "settled env s (snd (surface_conflict env tn m d reason s))"
    if "candidate_ok tn d" "is_manual m" "stored s tn (edge_id m) = Some m" for s m d reason
    using that by (rule surface_settles)
  show "settled env s (snd (resolve_conflict env tn i req actor s))" for s i req actor by (rule resolve_settles)
qed (simp_all add: calm_change_def calm_addition_def manual_edge_def billing_edge_def)

section \<open>Theorems\<close>

lemma settled_run:
  assumes "edge_inv s"
  shows "settled env s (dep_run lib env es s)"
proof (rule run_related[OF assms])
  show "settled env s (dep_step lib env x s)" for x s
  proof (cases x)
    case (Pair ctx cmd)
    then show ?thesis by (cases "cmd_tenant ctx") (simp_all add: no_tenant_same settling.R_refl settling.step_framed)
  qed
qed (auto intro: settling.R_refl settling.R_trans)

lemma reached_settled:
  assumes "uniq env (dep_draws (dep_run lib env es no_edges))"
  shows "tables_ok env (dep_run lib env es no_edges) \<and> conflicts_open (dep_run lib env es no_edges)"
proof -
  have "tables_ok env no_edges \<and> conflicts_open no_edges"
    by (simp add: tables_ok_def conflicts_open_def no_edges_def edge_inv_def edge_rows_ok_def conflict_rows_ok_def
        get_conflict_row_def get_edge_row_def)
  then show ?thesis using settled_run[of no_edges env lib es] assms by (simp add: settled_def tables_ok_def)
qed

text \<open>
  C2. Conflicts are surfaced, never lost: in every reachable state, an edge in status CONFLICT names a conflict that is
  among the unresolved conflicts the service lists for its tenant and that names the edge as one of its sides, of which
  one is a stored manual edge and the other a stored edge that is not manual. The identifiers read so far are assumed
  not to repeat.
\<close>

theorem conflicts_stay_on_record:
  assumes "s = dep_run lib env es no_edges" and "uniq env (dep_draws s)"
    and "stored s tn i = Some e" and "edge_status e = CONFLICT"
  shows "\<exists>c \<in> set (conflict_list (dep_conflicts s) tn True). ce_conflict_id e = Some (cf_conflict_id c)
    \<and> i \<in> {cf_manual_edge_id c, cf_discovered_edge_id c} \<and> sides_stored s tn c"
proof -
  have ok: "tables_ok env s" and op: "conflicts_open s" using reached_settled assms(1,2) by simp_all
  have i: "edge_id e = i" using assms(3) by (auto elim: get_edge_rowE)
  obtain c where c: "ce_conflict_id e = Some (cf_conflict_id c)" "conflict_at s tn (cf_conflict_id c) = Some c"
      "\<not> cf_is_resolved c" "edge_id e \<in> {cf_manual_edge_id c, cf_discovered_edge_id c}"
    using op assms(3,4) unfolding conflicts_open_def open_conflict_def by blast
  have "c \<in> set (conflict_list (dep_conflicts s) tn True)"
    using c(2,3) by (auto simp: conflict_list_def elim!: get_conflict_rowE)
  moreover have "sides_stored s tn c" using ok c(2) by (simp add: tables_ok_def)
  ultimately show ?thesis using c i by blast
qed

definition settled_statuses :: "conflict_resolution_action \<Rightarrow> edge_status \<times> edge_status" where
  "settled_statuses action = (case action of ACCEPT_DISCOVERED \<Rightarrow> (SUPERSEDED, ACTIVE) | _ \<Rightarrow> (ACTIVE, SUPERSEDED))"

text \<open>
  C18. Resolving an open conflict succeeds and settles it: the manual edge ends active and the discovered one superseded
  when the manual version is kept or merged, and the other way round when the discovered version is accepted; no other
  edge of any tenant changes, the conflict is recorded as resolved with the actor, the action and the notes, and any
  further attempt to resolve it is refused without an effect.
\<close>

theorem resolution_settles_conflict:
  assumes "s = dep_run lib env es no_edges" and ctx: "cmd_tenant ctx = Some tn"
    and c: "conflict_at s tn cid = Some c" "\<not> cf_is_resolved c"
    and u: "uniq env (dep_draws (snd (service_resolve_conflict env ctx cid req actor s)))"
  shows "\<exists>s' c' m d. service_resolve_conflict env ctx cid req actor s = (Inr c', s') \<and> conflict_at s' tn cid = Some c'
    \<and> cf_is_resolved c' \<and> cf_resolved_by c' = Some actor \<and> cf_resolution_action c' = Some (cq_resolution_action req)
    \<and> cf_resolution_notes c' = Some (cq_resolution_notes req)
    \<and> stored s' tn (cf_manual_edge_id c) = Some m \<and> stored s' tn (cf_discovered_edge_id c) = Some d
    \<and> (edge_status m, edge_status d) = settled_statuses (cq_resolution_action req)
    \<and> (\<forall>tn' i. tn' = tn \<and> i \<in> {cf_manual_edge_id c, cf_discovered_edge_id c} \<or> stored s' tn' i = stored s tn' i)
    \<and> (\<forall>req' actor'. service_resolve_conflict env ctx cid req' actor' s'
         = (Inl (DependencyConflictException cid ''Conflict is already resolved.''), s'))"
proof -
  let ?now = "dv_clock env (dep_draws s)"
  let ?c = "resolved_record req actor ?now c"
  have draws: "dep_draws s \<le> dep_draws (snd (resolve_conflict env tn cid req actor s))"
      "dep_draws (snd (service_resolve_conflict env ctx cid req actor s)) = dep_draws (snd (resolve_conflict env tn cid req actor s))"
    using ticking.resolving[of s env tn cid req actor] edge_inv_reached[of lib env es] assms(1) ctx
    by (auto simp: ticks_def service_resolve_conflict_def with_context_cases eff_bind_def dep_record_audit_def split: prod.split sum.split)
  have ok: "tables_ok env s" using reached_settled[of env lib es] assms(1) uniq_le[OF u] draws by simp
  have inv: "edge_inv s" using ok by (simp add: tables_ok_def)
  have ci: "cf_conflict_id c = cid" using c(1) by (auto elim: get_conflict_rowE)
  obtain s1 where s1: "resolve_conflict env tn cid req actor s = (Inr ?c, s1)" "resolution_of env tn c req actor ?now s s1"
    using resolve_outcome[OF ok c] u draws(2) by auto
  let ?s' = "snd (dep_record_audit env tn ''DEPENDENCY_CONFLICT_RESOLVED'' actor cid s1)"
  have run: "service_resolve_conflict env ctx cid req actor s = (Inr ?c, ?s')"
    using s1(1) ctx by (simp add: service_resolve_conflict_def with_context_cases eff_bind_def dep_record_audit_def)
  have same: "dep_edges ?s' = dep_edges s1" "dep_conflicts ?s' = dep_conflicts s1" by (simp_all add: dep_record_audit_def)
  have conf: "conflict_at ?s' tn cid = Some ?c" using s1(2) same ci unfolding resolution_of_def by simp
  obtain m d where md: "stored s tn (cf_manual_edge_id c) = Some m" "is_manual m" "stored s tn (cf_discovered_edge_id c) = Some d" "\<not> is_manual d"
      "\<forall>tn' i. stored s1 tn' i = (if tn' = tn \<and> i = edge_id m then Some (resolved_manual req actor ?now m)
             else if tn' = tn \<and> i = edge_id d then Some (resolved_discovered req actor ?now d) else stored s tn' i)"
    using s1(2) unfolding resolution_of_def by blast
  have ids: "edge_id m = cf_manual_edge_id c" "edge_id d = cf_discovered_edge_id c" "edge_id m \<noteq> edge_id d"
    using edge_inv_stored[OF inv md(1)] edge_inv_stored[OF inv md(3)] md(2,4) by (auto simp: labelled_def)
  have again: "service_resolve_conflict env ctx cid req' actor' ?s'
         = (Inl (DependencyConflictException cid ''Conflict is already resolved.''), ?s')" for req' actor'
    using conf ctx by (simp add: service_resolve_conflict_def with_context_cases resolve_conflict_def eff_bind_def)
  have st: "(edge_status (resolved_manual req actor ?now m), edge_status (resolved_discovered req actor ?now d))
      = settled_statuses (cq_resolution_action req)"
    by (simp add: settled_statuses_def resolved_manual_def resolved_discovered_def Let_def split: conflict_resolution_action.split)
  show ?thesis
    by (rule exI[of _ ?s'], rule exI[of _ ?c], rule exI[of _ "resolved_manual req actor ?now m"],
        rule exI[of _ "resolved_discovered req actor ?now d"])
       (use run conf md(5) ids same again st in \<open>simp add: resolved_record_def\<close>)
qed

section \<open>The history continued\<close>

text \<open>The import of \<open>Curation_Theorems\<close> contradicts the asserted parent, and a person keeps the manual version.\<close>

definition the_conflict_id :: string where
  "the_conflict_id = ''conf-'' @ take 10 (dv_uuid_hex curation_env 7)"

definition the_conflict :: edge_conflict where
  "the_conflict = surfaced ''acme'' the_conflict_id 6000000 (flag_manual the_conflict_id the_parent)
     (flag_discovered the_conflict_id 6000000 the_import) (ConflictingType DATA_FLOW PARENT_CHILD)"

definition flagged_state :: dep_state where
  "flagged_state =
     (let m = flag_manual the_conflict_id the_parent; d = flag_discovered the_conflict_id 6000000 the_import in
      \<lparr> dep_edges = [\<lparr> cw_tenant_id = ''acme'', cw_created_at = 0, cw_edge = m \<rparr>,
          \<lparr> cw_tenant_id = ''acme'', cw_created_at = ce_effective_from d, cw_edge = d \<rparr>],
        dep_versions = [snapshot curation_env ''acme'' the_parent 8],
        dep_conflicts = [\<lparr> cx_tenant_id = ''acme'', cx_created_at = 6000000, cx_conflict = the_conflict \<rparr>],
        dep_audits = [parent_created], dep_draws = 10 \<rparr>)"

lemma demo_merged:
  "merge_candidate_edge curation_env ''acme'' the_import
     \<lparr> dep_edges = [\<lparr> cw_tenant_id = ''acme'', cw_created_at = 0, cw_edge = the_parent \<rparr>], dep_versions = [], dep_conflicts = [],
       dep_audits = [parent_created], dep_draws = 4 \<rparr>
   = (Inr (flag_discovered the_conflict_id 6000000 the_import, Some the_conflict), flagged_state)"
proof -
  have cid: "''conf-'' @ take 10 (dv_uuid_hex curation_env 7) = the_conflict_id" by (simp add: the_conflict_id_def)
  show ?thesis
    unfolding merge_candidate_edge_def find_edge_def surface_conflict_def Let_def flagged_state_def the_conflict_def
    using cid parent_simps import_simps
    by (simp add: edges_between_def env_simps save_edge_def write_edge_def get_edge_row_def edge_fits_def put_edge_row_def
        save_conflict_def put_conflict_row_def eff_bind_def snapshot_def surfaced_def draw_def del: eff_bind_draw)
qed

lemma demo_flagged:
  "\<exists>a. dep_run curation_lib curation_env (asserted_once @ contradicting_import ''acme'') no_edges = flagged_state\<lparr>dep_audits := a\<rparr>"
proof -
  have refs: "bi_source_id contradicting_item = ''vm1''" "bi_target_id contradicting_item = ''host1''"
      "bq_items contradicting_request = [contradicting_item]"
    by (simp_all add: contradicting_item_def contradicting_request_def)
  have cand: "imported_edge ''acme'' contradicting_request 2000000 (replicate 32 (char_of (68 :: nat))) contradicting_item = the_import"
    by (simp add: the_import_def env_simps)
  show ?thesis
    unfolding dep_run_append demo_created
    using refs demo_merged
    by (auto simp: dep_run_def contradicting_import_def bulk_import_def with_context_cases demo_tenants
        import_relationships_def import_row_def Let_def cand eff_bind_def eff_catch_def draw_def dep_record_audit_def env_simps
        simp del: eff_bind_draw)
qed

lemma demo_uniq: "N \<le> 60 \<Longrightarrow> uniq curation_env N"
proof -
  have "inj_on (\<lambda>k. take 10 (dv_uuid_hex curation_env k)) {..<60}"
  proof (rule inj_onI)
    fix j k :: nat assume asm: "j \<in> {..<60}" "k \<in> {..<60}" "take 10 (dv_uuid_hex curation_env j) = take 10 (dv_uuid_hex curation_env k)"
    have "(char_of (65 + j) :: char) = char_of (65 + k)" using asm(3) by (simp add: env_simps)
    then have "(65 + j) mod 256 = (65 + k) mod 256" by (metis of_char_of)
    then show "j = k" using asm(1,2) by simp
  qed
  then have "uniq curation_env 60" by (simp add: uniq_def)
  then show "N \<le> 60 \<Longrightarrow> ?thesis" by (rule uniq_le)
qed

text \<open>How many readings a resolution makes at most.\<close>

lemma save_draws_bound: "dep_draws (snd (save_edge env tn e s)) \<le> dep_draws s + 2"
  by (simp add: save_edge_def write_edge_def split: option.split)

lemma bind_draws_bound:
  assumes "dep_draws (snd (m s)) \<le> dep_draws s + n" and "\<And>a s'. dep_draws (snd (f a s')) \<le> dep_draws s' + k"
  shows "dep_draws (snd (eff_bind m f s)) \<le> dep_draws s + n + k"
proof (cases "m s")
  case (Pair r s')
  show ?thesis
  proof (cases r)
    case (Inr a)
    with Pair assms(1) assms(2)[of a s'] show ?thesis by (simp add: eff_bind_def)
  qed (use Pair assms in \<open>simp add: eff_bind_def\<close>)
qed

lemma resolve_draws_bound: "dep_draws (snd (resolve_conflict env tn i req actor s)) \<le> dep_draws s + 5"
proof -
  have sc: "dep_draws (snd (save_conflict tn c s')) \<le> dep_draws s' + 0" for c s' by (simp add: save_conflict_def)
  have d: "dep_draws (snd (eff_bind (save_edge env tn x) (\<lambda>_. eff_return ()) s')) \<le> dep_draws s' + 2 + 0" for x s'
    by (rule bind_draws_bound[OF save_draws_bound]) simp
  have k: "dep_draws (snd (eff_bind (case dd of None \<Rightarrow> eff_return () | Some x \<Rightarrow>
      eff_bind (save_edge env tn (resolved_discovered req actor now x)) (\<lambda>_. eff_return ())) (\<lambda>_. save_conflict tn c) s')) \<le> dep_draws s' + 2 + 0"
    for dd now c s'
  proof (rule bind_draws_bound)
    show "dep_draws (snd ((case dd of None \<Rightarrow> eff_return () | Some x \<Rightarrow>
      eff_bind (save_edge env tn (resolved_discovered req actor now x)) (\<lambda>_. eff_return ())) s')) \<le> dep_draws s' + 2"
      using d[of "resolved_discovered req actor now (the dd)" s'] by (cases dd) simp_all
  qed (rule sc)
  have chain: "dep_draws (snd (eff_bind (save_edge env tn y) (\<lambda>_. eff_bind (case dd of None \<Rightarrow> eff_return () | Some x \<Rightarrow>
      eff_bind (save_edge env tn (resolved_discovered req actor now x)) (\<lambda>_. eff_return ())) (\<lambda>_. save_conflict tn c)) s')) \<le> dep_draws s' + 2 + 2"
    for dd now c s' y
    using k by (intro bind_draws_bound[OF save_draws_bound]) simp
  show ?thesis
    using chain[where dd = None, unfolded option.case] chain[where dd = "Some x" for x, unfolded option.case]
    by (auto simp: resolve_conflict_def split: option.split intro!: order_trans[OF chain[where dd = None, unfolded option.case]]
        order_trans[OF chain[where dd = "Some x" for x, unfolded option.case]])
qed

lemma flagged_stored:
  "stored flagged_state ''acme'' parent_id = Some (flag_manual the_conflict_id the_parent)"
  "conflict_at flagged_state ''acme'' the_conflict_id = Some the_conflict"
  by (simp_all add: flagged_state_def get_edge_row_def get_conflict_row_def the_conflict_def surfaced_def parent_simps Let_def)

theorem conflicts_stay_on_record_witness:
  "\<exists>c \<in> set (conflict_list (dep_conflicts (dep_run curation_lib curation_env (asserted_once @ contradicting_import ''acme'') no_edges)) ''acme'' True).
     cf_conflict_id c = the_conflict_id \<and> parent_id \<in> {cf_manual_edge_id c, cf_discovered_edge_id c}"
proof -
  obtain a where run: "dep_run curation_lib curation_env (asserted_once @ contradicting_import ''acme'') no_edges = flagged_state\<lparr>dep_audits := a\<rparr>"
    using demo_flagged by blast
  have "dep_draws flagged_state = 10" by (simp add: flagged_state_def Let_def)
  then have "uniq curation_env (dep_draws (flagged_state\<lparr>dep_audits := a\<rparr>))" by (simp add: demo_uniq)
  from conflicts_stay_on_record[OF run[symmetric] this, of "''acme''" parent_id "flag_manual the_conflict_id the_parent"]
  obtain c where "c \<in> set (conflict_list (dep_conflicts (flagged_state\<lparr>dep_audits := a\<rparr>)) ''acme'' True)"
      "cf_conflict_id c = the_conflict_id" "parent_id \<in> {cf_manual_edge_id c, cf_discovered_edge_id c}"
    using flagged_stored by auto
  then show ?thesis unfolding run by blast
qed

theorem resolution_settles_conflict_witness:
  "\<exists>s' m d. stored s' ''acme'' (cf_manual_edge_id the_conflict) = Some m \<and> stored s' ''acme'' (cf_discovered_edge_id the_conflict) = Some d
    \<and> edge_status m = ACTIVE \<and> edge_status d = SUPERSEDED"
proof -
  let ?req = "\<lparr> cq_resolution_action = KEEP_MANUAL, cq_resolution_notes = ''checked'', cq_merged_criticality = None,
     cq_merged_direction = None, cq_merged_billing = None \<rparr>"
  obtain a where run: "dep_run curation_lib curation_env (asserted_once @ contradicting_import ''acme'') no_edges = flagged_state\<lparr>dep_audits := a\<rparr>"
    using demo_flagged by blast
  let ?s = "flagged_state\<lparr>dep_audits := a\<rparr>"
  have "dep_draws ?s = 10" by (simp add: flagged_state_def Let_def)
  moreover have "dep_draws (snd (service_resolve_conflict curation_env (curation_ctx ''acme'') the_conflict_id ?req ''ann'' ?s))
      = dep_draws (snd (resolve_conflict curation_env ''acme'' the_conflict_id ?req ''ann'' ?s))"
    by (auto simp: service_resolve_conflict_def with_context_cases demo_tenants eff_bind_def dep_record_audit_def split: prod.split sum.split)
  ultimately have "uniq curation_env (dep_draws (snd (service_resolve_conflict curation_env (curation_ctx ''acme'') the_conflict_id ?req ''ann'' ?s)))"
    using resolve_draws_bound[of curation_env "''acme''" the_conflict_id ?req "''ann''" ?s] by (intro demo_uniq) simp
  moreover have "conflict_at ?s ''acme'' the_conflict_id = Some the_conflict" "\<not> cf_is_resolved the_conflict"
    using flagged_stored by (simp_all add: the_conflict_def surfaced_def)
  ultimately show ?thesis
    using resolution_settles_conflict[OF run[symmetric] demo_tenants(1)] by (fastforce simp: settled_statuses_def)
qed

section \<open>Dead edges\<close>

text \<open>
  The match of a candidate ignores the status of the stored edge: when the only stored edge between two entities has been
  deleted or superseded, observing the relation again only refreshes that edge, which stays dead, and nothing active is
  stored for what was observed.
\<close>

lemma rediscovered_edge_stays_dead:
  assumes "edges_between (dep_edges s) tn (ref_entity_id (source_ref c)) (ref_entity_id (target_ref c)) None = [e]"
    and "edge_status e \<in> {DELETED, SUPERSEDED}" and "is_manual e \<longrightarrow> edge_relationship e = edge_relationship c"
    and "merge_candidate_edge env tn c s = (Inr (e', conflict), s')"
  shows "edge_id e' = edge_id e \<and> edge_status e' = edge_status e \<and> conflict = None"
proof -
  have saved: "x = y" if "save_edge env tn y s1 = (Inr x, s2)" for x y s1 s2 using that by (auto elim: save_edge_cases)
  let ?s1 = "s\<lparr>dep_draws := Suc (dep_draws s)\<rparr>" and ?now = "dv_clock env (dep_draws s)"
  have f: "find_edge env tn (ref_entity_id (source_ref c)) (ref_entity_id (target_ref c)) None ?s1
      = (Inr (Some e), ?s1\<lparr>dep_draws := Suc (Suc (dep_draws s))\<rparr>)"
    using assms(1) by (simp add: find_edge_def)
  have "merge_candidate_edge env tn c s = eff_bind
      (save_edge env tn (if is_manual e then confirmed ?now c e else reobserved ?now c e)) (\<lambda>saved. eff_return (saved, None))
      (?s1\<lparr>dep_draws := Suc (Suc (dep_draws s))\<rparr>)"
    using assms(3) by (simp add: merge_candidate_edge_def eff_bind_value[where m = "find_edge env tn (ref_entity_id (source_ref c)) (ref_entity_id (target_ref c)) None", OF f])
  then have "eff_bind
      (save_edge env tn (if is_manual e then confirmed ?now c e else reobserved ?now c e)) (\<lambda>saved. eff_return (saved, None))
      (?s1\<lparr>dep_draws := Suc (Suc (dep_draws s))\<rparr>) = (Inr (e', conflict), s')"
    using assms(4) by simp
  then show ?thesis
  proof (cases rule: eff_bindE)
    case (passed x s2)
    have "x = (if is_manual e then confirmed ?now c e else reobserved ?now c e)" by (rule saved[OF passed(1)])
    then show ?thesis using passed(2) assms(2) by auto
  qed simp
qed

text \<open>
  A structural candidate that meets an inferred edge gives it high confidence, and the edge keeps its label INFERRED.
\<close>

lemma inferred_edge_gains_confidence:
  "pv_type (ce_provenance e) = INFERRED \<Longrightarrow> ce_confidence c = edge_confidence_level.HIGH
    \<Longrightarrow> pv_type (ce_provenance (reobserved now c e)) = INFERRED \<and> ce_confidence (reobserved now c e) = edge_confidence_level.HIGH"
  by simp

end
