(* ===== verification/Spec2Isabelle.thy ===== *)
theory Spec2Isabelle
  imports Prelude Numerics Circuit_Breaker Rate_Limiter Quota_Tracker Adaptive_Concurrency Worker_Locks
    Thresholds Threshold_Evaluator Access_Control Lifecycle Monetary Allocation Impact_Analysis Audit_Stream
    Working_Hours Workflow_Models Approvers Workflow_Repository Workflows Workflow_Runs Workflow_Theorems Workflow_Progress Workflow_Views
    Object_Store Raw_Landing Connector_Lifecycle Connector_Executor Executor_Theorems Paginated_Sync
    Remediation_Models Remediation Remediation_Theorems
    Effects Dependency_Curation Dependency_Discovery Curation_Store Curation_Theorems Conflict_Theorems
begin

text \<open>
  CloudLens is a multi-tenant cloud cost and operations platform in Python: connectors collect usage
  and cost facts from cloud providers under rate, quota and concurrency limits; domain services
  attribute cost, evaluate thresholds and budgets, govern the life cycle of resources, answer
  impact questions over a dependency graph, decide access, and keep an audit stream. This development
  models the core of these services as executable functions and proves what they promise.

  \<^bold>\<open>Parts and theories\<close> (paths relative to the repository's root)

  \<^item> \<open>Prelude\<close>: Python dictionaries as association lists with the interface \<open>dict_spec\<close>, loops that may
    raise, string functions, and the interfaces \<open>machine\<close> (an invariant kept by every operation
    holds after every run) and \<open>simulation\<close> (every run follows an abstract transition relation).
    \<open>Numerics\<close>: decimal and binary floating-point rounding as functions on rationals, with the
    bounds and exactness lemmas the monetary and rate-limit proofs use.
  \<^item> Connector governors (\<open>connectors/contract\<close>): \<open>Circuit_Breaker\<close> (\<open>circuit_breaker.py\<close>, three states,
    cool-down, probes), \<open>Rate_Limiter\<close> (\<open>rate_limiter.py\<close>, token bucket with a blocking acquisition and
    the backoff), \<open>Quota_Tracker\<close> (\<open>quota_tracker.py\<close>, hourly windows), \<open>Adaptive_Concurrency\<close>
    (\<open>adaptive_concurrency.py\<close>, additive increase, halving on throttles, slot leases).
  \<^item> Connector execution (\<open>connectors/contract\<close>): \<open>Object_Store\<close> (\<open>domain/tenant/object_store.py\<close>, keys confined to a
    tenant, over a file system with directories), \<open>Raw_Landing\<close> (\<open>raw_landing.py\<close>, immutable landing of payloads),
    \<open>Connector_Lifecycle\<close> (\<open>lifecycle.py\<close>, connector states and capability health), \<open>Connector_Executor\<close>
    (\<open>executor.py\<close>, \<open>execute_capability\<close> as steps between its await points, calling the governors, the life
    cycle and the landing) with its properties in \<open>Executor_Theorems\<close>, and \<open>Paginated_Sync\<close>
    (\<open>checkpoint_store.py\<close> and \<open>execute_paginated_capability\<close>).
  \<^item> \<open>Worker_Locks\<close> (\<open>workers/cloudlens_workers/locking.py\<close>): task locks and Beat leader election, over Redis and over
    the process-local fallback.
  \<^item> \<open>Thresholds\<close> and \<open>Threshold_Evaluator\<close> (\<open>domain/thresholds\<close>): band validation, rules, overrides and the
    precedence of seven sources; evaluation with hysteresis, dwell, cool-down and storm suppression,
    and the preview of a rule over history.
  \<^item> \<open>Access_Control\<close> (\<open>domain/rbac\<close>): scope grants over eight dimensions, deny over allow, the rate
    gates, filtering of datasets with its disclosure.
  \<^item> \<open>Lifecycle\<close> (\<open>domain/lifecycle\<close>): the resource state machine with its gates, decommissioning requests and
    programmes, cost-stop verification, orphan residue.
  \<^item> \<open>Monetary\<close> and \<open>Allocation\<close> (\<open>domain/rules\<close>, \<open>domain/attribution/allocation.py\<close>): currency rounding, amortisation,
    variance and budget rules; first-match allocation of cost facts with split rules.
  \<^item> \<open>Impact_Analysis\<close> (\<open>domain/dependency\<close>): the listing query and the breadth-first traversals for the
    downstream blast radius and the upstream dependencies.
  \<^item> \<open>Audit_Stream\<close> (\<open>domain/audit\<close>): hash-chained appending, refused mutations, queries and the two
    verifiers.
  \<^item> The approval engine (\<open>domain/workflows\<close>): \<open>Working_Hours\<close> (\<open>sla.py\<close>, deadlines in working time), \<open>Workflow_Models\<close>
    (\<open>models.py\<close> and the catalogue of \<open>definitions.py\<close>), \<open>Approvers\<close> (\<open>resolver.py\<close>, strategies, fallback, delegation),
    \<open>Workflow_Repository\<close> (\<open>repository.py\<close>, with the interface \<open>tenant_store\<close> the service relies on), \<open>Workflows\<close>
    (\<open>service.py\<close> and the registry of \<open>appliers.py\<close>), \<open>Workflow_Runs\<close> (the abstract machine every operation
    refines), and its properties in \<open>Workflow_Theorems\<close>, \<open>Workflow_Progress\<close> and \<open>Workflow_Views\<close>. What an applier does
    to its own repository is an argument of the call.

  \<^item> Remediation (\<open>domain/remediation\<close>): \<open>Remediation_Models\<close> (\<open>models.py\<close>, the verifier of \<open>verifier.py\<close> and the ownership
    resolver of \<open>assignment.py\<close>), \<open>Remediation\<close> (\<open>repository.py\<close>, with an interpretation of \<open>tenant_store\<close>, the ledger of
    \<open>ledger.py\<close>, the creation engine of \<open>creator.py\<close> and \<open>service.py\<close>), and \<open>Remediation_Theorems\<close>: the abstract steps every
    operation consists of, and the properties of runs.

  \<^item> The curated dependency graph (\<open>domain/dependency\<close>): \<open>Effects\<close>, operations that read, change and fail, with the
    interface \<open>frame\<close> for relations every step of a composed operation keeps; \<open>Dependency_Curation\<close> (the tables of
    \<open>repository.py\<close>, the merge engine of \<open>merger.py\<close>, \<open>importer.py\<close> and \<open>service.py\<close>), \<open>Dependency_Discovery\<close>
    (\<open>discovery.py\<close>, the layers over untyped inventory dictionaries and the stale pass), \<open>Curation_Store\<close> (both tables as
    instances of \<open>tenant_store\<close>, the frames the operations keep and the commands of the service), and the properties in
    \<open>Curation_Theorems\<close> and \<open>Conflict_Theorems\<close>. The database may return any of several rows that match a lookup
    without an order; the choice is part of the environment, like clock readings and identifiers.

  \<^bold>\<open>How code is represented.\<close> An object's attributes are a \<open>record\<close>, an enumeration is a \<open>datatype\<close>, an
  operation is a function from the state (and the values the environment supplies) to its result
  and the next state; an exception is the left value of a sum, and the state reached when it leaves the
  operation is kept. Clock readings, random identifiers and replies of Redis are arguments, so a
  property over all arguments covers every schedule of them. Several callers are a sequence of operations. The
  governors, the connector life cycle, the object store and the appending of audit events run each operation under a
  lock of their own, the worker locks rest on single Redis commands, and the executor is split at its await points: there
  the sequences are the interleavings. The landing, the checkpoints and the workflow, remediation, dependency,
  resource life-cycle and threshold services take no lock around an operation: for them a sequence is one of whole calls, and
  two calls of one service that overlap in time are not modelled. A wait loop is a recursion over the list
  of clock readings its iterations see; that it ends is proved from a reading past the timeout. Loops
  over data are structural recursions or folds; the traversal of the dependency graph is a
  \<open>function\<close> whose termination rests on the finite number of unvisited nodes. SQL statements are their
  effect on a list of rows; rows that tie under an \<open>ORDER BY\<close>, which SQL leaves open, keep the order of the table
  (\<open>curated_list\<close>, \<open>edge_history\<close>). A save fails where a length limit, the row-level security or an identifier in use
  refuses it; losing the connection between two saves of one operation is not modelled.

  \<^bold>\<open>Numbers.\<close> Floats are rationals rounded by a 53-bit rounding function, Decimal values are rationals
  with the 28-digit context of the \<open>decimal\<close> module. The allocation and amortisation theorems
  assume amounts below \<open>10^14\<close>, at most \<open>10^5\<close> split targets and \<open>10^6\<close> days: there every
  intermediate sum fits into 28 digits, so that sums of rounded shares are exact. Python's
  unbounded integers are \<open>int\<close> or \<open>nat\<close>; no machine integer overflows in this code.

  \<^bold>\<open>What is shown.\<close>
  \<^item> Governors and locks: counters stay under their thresholds in every run; a tripped breaker closes only
    through probes; a bucket never exceeds its capacity and a blocking acquisition ends; accepted
    requests of an hour stay within the quota; active slots equal the holders of leases; a granted lock
    excludes others for its time to live. Over Redis, a stale leader can take a lease over.
  \<^item> Connector execution: over all interleavings of calls every slot taken is given back, calls that a guard
    refuses change nothing (past the quota, nothing but the breaker whose state was read), the provider is invoked at most once more than the retries allow and a call
    ends after boundedly many changes of stage; connectors follow their transitions and recover when all
    capabilities are healthy; keys resolve to the directory of their tenant or below it, landed bytes never change, and an
    interrupted paginated job stores every page once, in order, and completes in an undisturbed run.
  \<^item> Thresholds: validated bands partition the values; the resolved override or rule is the first of
    the highest tier that applies; transitions to a measured state are backed by the required number of evaluations, a missing
    value publishes UNKNOWN at once and is no breach, alerts respect the cool-down and the storm limit.
  \<^item> Access: the exact condition of a granted decision, isolation of tenants, visibility and redaction of
    rates, and that filtering discloses what it drops.
  \<^item> Life cycle: in every reachable state a call makes a move of the documented matrix or none, through the gates of
    acknowledged dependants and satisfied retention; a resource registered before deletion is not deleted while its
    retention obligation is open, and deletion needs approval.
  \<^item> Money: allocation adds up to the cost exactly and obeys the precedence of rules; amortisation
    schedules reconcile.
  \<^item> Dependencies: the blast radius is exactly the set of nodes within the bound at their distances; reported
    cycles are real; upstream and downstream are converse on the types both treat alike.
  \<^item> Audit: appended streams verify, rows are kept, mutation attempts are refused and recorded, and two
    verified chains with one head have one history or contain a collision of the hash between them. The chain verifier is
    given the streams in the dictionary it reads, which the SQL repository does not have.
  \<^item> Workflows: along every run of submissions, decisions, withdrawals, escalations, expiries and
    configuration changes a request follows the life cycle, final requests never change, a request becomes applied only by
    a submission that does not trigger its definition or by the approval that completes all its stages, decisions are made
    by those entitled to them, rejections have their comment, histories replay to the stored state; approvals of
    administrators lead to application and overdue requests expire; deadlines and remaining working hours are inverse
    where the deadline lies within a year of working time.
  \<^item> Remediation: histories of tasks have no gaps, end in the stored state and follow the transition graph except for the named
    operations that do not consult it, the ledger has one
    saving per verified closure, tenants are isolated, verification decides closure, expired deferrals reopen, and
    every task gets an assignee.
  \<^item> Curation: discovery and import never change, remove or age out what a person asserted; a contradiction is on
    record as long as the edge shows it, and its resolution settles both edges and the record; versions are only
    appended, tenants are isolated, candidates carry their provenance and an inferred one is not rated high, the stale
    pass marks exactly what it should, an import accounts for every row, and the listing is the one the impact
    analysis is verified against.
  \<^item> Each theory also states, as theorems, where the code departs from what it documents.

  \<^bold>\<open>Not modelled.\<close> The web front end, the HTTP routers, the provider adapters and the database layer
  (input and output), forecasting and analytics (floating-point statistics), rendered message texts
  except where a decision reads them. Of the domain services, budgets and alert routing, statements and disputes,
  cost reconciliation, configuration and override resolution, and the API conventions (idempotency keys, optimistic
  concurrency) are not covered.
\<close>

end
